(* ===== verification/Prelude.thy ===== *)
theory Prelude
  imports Main "HOL-Library.Word" "HOL-Library.Signed_Division"
begin

text \<open>
  Shared vocabulary of the development: the machine integers of the C code, the value of
  a run that aborts the emulator, the error monad every fallible operation returns, the
  bit-field macros of \<^verbatim>\<open>include/macro.h\<close> and \<^verbatim>\<open>src/isa/riscv32/local-include/cpu_bits.h\<close>,
  and the word lemmas the component theories share.
\<close>

unbundle bit_operations_syntax

section \<open>Machine integers and aborts\<close>

type_synonym u8 = "8 word"
type_synonym u16 = "16 word"
type_synonym u32 = "32 word"
type_synonym u64 = "64 word"

text \<open>
  The ways a run of the emulator stops short: a failed \<^verbatim>\<open>assert\<close>/\<^verbatim>\<open>Assert\<close>/\<^verbatim>\<open>panic\<close>
  (the process aborts), the dedicated panic of \<^verbatim>\<open>out_of_bound\<close> and \<^verbatim>\<open>check_bound\<close> with the
  guest address, a host memory access outside the C object (undefined behaviour, named
  here so that it can be excluded), and \<^verbatim>\<open>exit()\<close> with its status.
\<close>

datatype emu_error =
    Assert_fail string
  | Out_of_bound u32
  | Host_oob nat
  | Exit int

type_synonym 'a res = "emu_error + 'a"

definition bindE :: "'a res \<Rightarrow> ('a \<Rightarrow> 'b res) \<Rightarrow> 'b res" where
  "bindE m f = (case m of Inl e \<Rightarrow> Inl e | Inr x \<Rightarrow> f x)"

definition assertE :: "bool \<Rightarrow> string \<Rightarrow> unit res" where
  "assertE b msg = (if b then Inr () else Inl (Assert_fail msg))"

named_theorems res_simps \<open>unfolding of the error monad\<close>

lemma bindE_Inl [simp]: "bindE (Inl e) f = Inl e"
  by (simp add: bindE_def)

lemma bindE_Inr [simp]: "bindE (Inr x) f = f x"
  by (simp add: bindE_def)

lemma bindE_eq_Inr_iff [res_simps]:
  "bindE m f = Inr y \<longleftrightarrow> (\<exists>x. m = Inr x \<and> f x = Inr y)"
  by (cases m) (auto simp: bindE_def)

lemma bindE_eq_Inl_iff [res_simps]:
  "bindE m f = Inl e \<longleftrightarrow> m = Inl e \<or> (\<exists>x. m = Inr x \<and> f x = Inl e)"
  by (cases m) (auto simp: bindE_def)

lemma bindE_assoc: "bindE (bindE m f) g = bindE m (\<lambda>x. bindE (f x) g)"
  by (cases m) simp_all

lemma bindE_Inr_right [simp]: "bindE m Inr = m"
  by (cases m) simp_all

lemma assertE_True [simp]: "b \<Longrightarrow> assertE b msg = Inr ()"
  by (simp add: assertE_def)

lemma assertE_False [simp]: "\<not> b \<Longrightarrow> assertE b msg = Inl (Assert_fail msg)"
  by (simp add: assertE_def)

lemma assertE_eq_Inr_iff [res_simps]: "assertE b msg = Inr u \<longleftrightarrow> b"
  by (cases b) simp_all

lemma assertE_eq_Inl_iff [res_simps]:
  "assertE b msg = Inl e \<longleftrightarrow> \<not> b \<and> e = Assert_fail msg"
  by (cases b) auto

section \<open>The macros of macro.h\<close>

text \<open>
  \<^verbatim>\<open>BITMASK\<close> and \<^verbatim>\<open>BITS\<close> compute in 64 bits and their results are stored in words that
  hold them, so they are modelled at the width of their argument. \<^verbatim>\<open>SEXT(x, len)\<close> stores
  \<^verbatim>\<open>x\<close> in a signed bit-field of \<^verbatim>\<open>len\<close> bits and reads it back, that is, it sign-extends
  the low \<^verbatim>\<open>len\<close> bits.
\<close>

definition BITMASK :: "nat \<Rightarrow> 'a::len word" where
  "BITMASK bits = push_bit bits 1 - 1"

definition BITS :: "'a::len word \<Rightarrow> nat \<Rightarrow> nat \<Rightarrow> 'a word" where
  "BITS x hi lo = drop_bit lo x AND BITMASK (hi - lo + 1)"

definition SEXT :: "'a::len word \<Rightarrow> nat \<Rightarrow> 'a word" where
  "SEXT x n = signed_take_bit (n - 1) x"

lemma BITMASK_eq_mask: "BITMASK n = (mask n :: 'a::len word)"
  by (simp add: BITMASK_def mask_eq_exp_minus_1 push_bit_eq_mult)

lemma bit_BITS_iff [bit_simps]:
  "bit (BITS x hi lo) n \<longleftrightarrow> n \<le> hi - lo \<and> bit x (lo + n)"
  for x :: "'a::len word"
  by (auto simp: BITS_def BITMASK_eq_mask bit_simps less_Suc_eq_le dest: bit_imp_le_length)

lemma bit_SEXT_iff [bit_simps]:
  "bit (SEXT x k) n \<longleftrightarrow> n < LENGTH('a) \<and> bit x (min n (k - 1))"
  for x :: "'a::len word"
  by (simp add: SEXT_def bit_simps min.commute)

lemma BITS_eq_take_drop: "BITS x hi lo = take_bit (hi - lo + 1) (drop_bit lo x)"
  for x :: "'a::len word"
  by (simp add: BITS_def BITMASK_eq_mask take_bit_eq_mask)

lemma unat_BITS_less: "unat (BITS x hi lo) < 2 ^ (hi - lo + 1)"
  for x :: "'a::len word"
  by (simp add: BITS_eq_take_drop unsigned_take_bit_eq del: power_Suc)

lemma SEXT_full: "SEXT x LENGTH('a) = x" for x :: "'a::len word"
  by (rule bit_word_eqI) (simp add: bit_simps min_absorb1)

lemma take_bit_u32 [simp]: "take_bit 32 (x :: u32) = x"
  using take_bit_length_eq [of x] by simp

lemma take_bit_u64 [simp]: "take_bit 64 (x :: u64) = x"
  using take_bit_length_eq [of x] by simp

lemma SEXT_32 [simp]: "SEXT (x :: u32) 32 = x"
  using SEXT_full [of x] by simp

section \<open>The field macros of cpu\_bits.h\<close>

text \<open>
  \<^verbatim>\<open>get_field(reg, mask)\<close> divides the masked register by the lowest bit of the mask, and
  \<^verbatim>\<open>set_field(reg, mask, val)\<close> multiplies the value by it. The registers and the masks
  they are used with are 32 bits wide.
\<close>

definition mask_low :: "u32 \<Rightarrow> u32" where
  "mask_low m = m AND NOT (push_bit 1 m)"

definition get_field :: "u32 \<Rightarrow> u32 \<Rightarrow> u32" where
  "get_field reg m = (reg AND m) div mask_low m"

definition set_field :: "u32 \<Rightarrow> u32 \<Rightarrow> u32 \<Rightarrow> u32" where
  "set_field reg m val = (reg AND NOT m) OR ((val * mask_low m) AND m)"

text \<open>A contiguous field: \<open>n\<close> bits from bit \<open>k\<close> on.\<close>

definition field :: "nat \<Rightarrow> nat \<Rightarrow> u32" where
  "field k n = push_bit k (mask n)"

lemma bit_field_iff [bit_simps]: "bit (field k n) i \<longleftrightarrow> i < 32 \<and> k \<le> i \<and> i < k + n"
  by (auto simp: field_def bit_simps)

lemma mask_low_field: "0 < n \<Longrightarrow> mask_low (field k n) = push_bit k 1"
proof (rule bit_word_eqI)
  fix i :: nat
  assume "0 < n" and "i < LENGTH(32)"
  then show "bit (mask_low (field k n)) i \<longleftrightarrow> bit (push_bit k 1 :: u32) i"
    unfolding mask_low_def
    by (simp only: bit_and_iff bit_not_iff bit_push_bit_iff bit_field_iff bit_1_iff possible_bit_word)
      auto
qed

lemma get_field_field: "0 < n \<Longrightarrow> k < 32 \<Longrightarrow> get_field r (field k n) = take_bit n (drop_bit k r)"
proof -
  assume n: "0 < n" and k: "k < 32"
  have "get_field r (field k n) = drop_bit k (r AND field k n)"
    using n by (simp add: get_field_def mask_low_field push_bit_eq_mult drop_bit_eq_div)
  also have "\<dots> = take_bit n (drop_bit k r)"
    by (rule bit_word_eqI) (auto simp: bit_simps dest: bit_imp_le_length)
  finally show ?thesis .
qed

lemma set_field_field:
  "0 < n \<Longrightarrow> set_field r (field k n) v = (r AND NOT (field k n)) OR push_bit k (take_bit n v)"
proof -
  assume n: "0 < n"
  have "(v * mask_low (field k n)) AND field k n = push_bit k v AND field k n"
    using n by (simp add: mask_low_field push_bit_eq_mult mult.commute)
  also have "\<dots> = push_bit k (take_bit n v)"
    by (rule bit_word_eqI) (auto simp: bit_simps)
  finally show ?thesis by (simp add: set_field_def)
qed

lemma bit_set_field_iff:
  "0 < n \<Longrightarrow> bit (set_field r (field k n) v) i \<longleftrightarrow>
     i < 32 \<and> (if k \<le> i \<and> i < k + n then bit v (i - k) else bit r i)"
  by (auto simp: set_field_field bit_simps dest: bit_imp_le_length)

lemma get_set_field_same:
  "0 < n \<Longrightarrow> k + n \<le> 32 \<Longrightarrow> get_field (set_field r (field k n) v) (field k n) = take_bit n v"
  by (rule bit_word_eqI) (auto simp: get_field_field bit_simps bit_set_field_iff)

lemma get_set_field_other:
  assumes "0 < n" "0 < n'" "k' < 32" "k + n \<le> k' \<or> k' + n' \<le> k"
  shows "get_field (set_field r (field k n) v) (field k' n') = get_field r (field k' n')"
  by (rule bit_word_eqI)
     (use assms in \<open>auto simp: get_field_field bit_simps bit_set_field_iff dest: bit_imp_le_length\<close>)

section \<open>Masks and keys\<close>

text \<open>
  Two mask/key tests that disagree on a bit they both fix exclude each other: the fact
  behind the order independence of the decode table.
\<close>

lemma mask_key_conflict:
  fixes x :: "'a::len word"
  assumes "x AND m = k" and "k AND m' \<noteq> k' AND m"
  shows "x AND m' \<noteq> k'"
proof
  assume "x AND m' = k'"
  with assms(1) have "k AND m' = k' AND m"
    by (auto simp: ac_simps)
  with assms(2) show False by simp
qed

end
