(* ===== verification/HostMem.thy ===== *)
theory HostMem
  imports Prelude
begin

text \<open>
  Host memory as the emulator uses it: \<^verbatim>\<open>host_read\<close> and \<^verbatim>\<open>host_write\<close> of
  \<^verbatim>\<open>include/memory/host.h\<close> on a byte array of known size, little-endian as on the x64 and
  arm64 hosts the README names. The interface \<open>byte_store\<close> states what the rest of the
  emulator relies on (a read after a write, writes that do not touch other bytes), and the
  client lemmas proved from it serve the devices and the guest memory alike.
\<close>

unbundle bit_operations_syntax

section \<open>Little-endian words in a byte array\<close>

type_synonym bytes = "nat \<Rightarrow> u8"

fun le_read :: "bytes \<Rightarrow> nat \<Rightarrow> nat \<Rightarrow> 'a::len word" where
  "le_read f a 0 = 0"
| "le_read f a (Suc n) = ucast (f a) OR push_bit 8 (le_read f (Suc a) n)"

fun le_write :: "bytes \<Rightarrow> nat \<Rightarrow> nat \<Rightarrow> 'a::len word \<Rightarrow> bytes" where
  "le_write f a 0 v = f"
| "le_write f a (Suc n) v = le_write (f(a := ucast v)) (Suc a) n (drop_bit 8 v)"

lemma bit_le_read_iff:
  "bit (le_read f a n :: 'a::len word) i \<longleftrightarrow>
     i < LENGTH('a) \<and> i < 8 * n \<and> bit (f (a + i div 8)) (i mod 8)"
proof (induction n arbitrary: a i)
  case 0
  then show ?case by simp
next
  case (Suc n)
  show ?case
  proof (cases "i < 8")
    case True
    then show ?thesis by (auto simp: bit_or_iff bit_push_bit_iff bit_simps)
  next
    case False
    then have d: "i div 8 = Suc ((i - 8) div 8)" and m: "i mod 8 = (i - 8) mod 8"
      by (simp_all add: le_div_geq le_mod_geq)
    have "\<not> bit (ucast (f a) :: 'a word) i"
      using False by (auto simp: bit_simps dest: bit_imp_le_length)
    then show ?thesis
      using False by (auto simp: bit_or_iff bit_push_bit_iff Suc.IH d m)
  qed
qed

lemma le_write_apply:
  "le_write f a n v b = (if a \<le> b \<and> b < a + n then ucast (drop_bit (8 * (b - a)) v) else f b)"
proof (induction n arbitrary: f a v b)
  case 0
  then show ?case by auto
next
  case (Suc n)
  show ?case
  proof (cases "b = a")
    case True
    then show ?thesis by (simp add: Suc.IH)
  next
    case False
    have "drop_bit (8 * (b - Suc a)) (drop_bit 8 v) = drop_bit (8 * (b - a)) v" if "a < b"
    proof -
      from that have "8 * (b - Suc a) + 8 = 8 * (b - a)" by simp
      then show ?thesis by simp
    qed
    with False show ?thesis by (auto simp: Suc.IH)
  qed
qed

lemma le_read_write_same:
  "le_read (le_write f a n v) a n = take_bit (8 * n) v" for v :: "'a::len word"
proof (rule bit_word_eqI)
  fix i assume i: "i < LENGTH('a)"
  have "i < 8 * n \<Longrightarrow> i div 8 < n" by linarith
  moreover have "8 * (i div 8) + i mod 8 = i" by simp
  ultimately show "bit (le_read (le_write f a n v) a n :: 'a word) i \<longleftrightarrow> bit (take_bit (8 * n) v) i"
    using i by (auto simp: bit_le_read_iff le_write_apply bit_take_bit_iff bit_ucast_iff bit_drop_bit_eq)
qed

lemma le_read_cong:
  "(\<And>b. a \<le> b \<Longrightarrow> b < a + n \<Longrightarrow> f b = g b) \<Longrightarrow> le_read f a n = le_read g a n"
  by (induction n arbitrary: a) auto

lemma le_read_write_other:
  "a + n \<le> b \<or> b + k \<le> a \<Longrightarrow> le_read (le_write f a n v) b k = le_read f b k"
  by (rule le_read_cong) (auto simp: le_write_apply)

lemma le_write_write_same: "le_write (le_write f a n v) a n w = le_write f a n w"
  by (rule ext) (simp add: le_write_apply)

lemma le_write_read_same:
  "8 * n \<le> LENGTH('a) \<Longrightarrow> le_write f a n (le_read f a n :: 'a::len word) = f"
proof (rule ext)
  fix b assume n: "8 * n \<le> LENGTH('a)"
  show "le_write f a n (le_read f a n :: 'a word) b = f b"
  proof (cases "a \<le> b \<and> b < a + n")
    case True
    have "ucast (drop_bit (8 * (b - a)) (le_read f a n :: 'a word)) = f b"
    proof (rule bit_word_eqI)
      fix i assume "i < LENGTH(8)"
      then have i: "i < 8" by simp
      have "8 * (b - a) + i < 8 * n" using True i by linarith
      moreover have "(8 * (b - a) + i) div 8 = b - a" and "(8 * (b - a) + i) mod 8 = i"
        using i by simp_all
      ultimately show "bit (ucast (drop_bit (8 * (b - a)) (le_read f a n :: 'a word)) :: u8) i
          \<longleftrightarrow> bit (f b) i"
        using i n True by (simp add: bit_ucast_iff bit_drop_bit_eq bit_le_read_iff)
    qed
    with True show ?thesis by (simp add: le_write_apply)
  qed (auto simp: le_write_apply)
qed

section \<open>host\_read and host\_write\<close>

text \<open>
  \<open>sz\<close> is the size of the host object; \<open>rt\<close> stands for \<^verbatim>\<open>CONFIG_RT_CHECK\<close>. A value is
  returned as \<^verbatim>\<open>word_t\<close> (32 bits), so the eight byte read keeps the low half; the eight
  byte write of the 32-bit build stores four bytes, as the source does.
\<close>

definition in_object :: "nat \<Rightarrow> nat \<Rightarrow> nat \<Rightarrow> unit res" where
  "in_object sz a n = (if a + n \<le> sz then Inr () else Inl (Host_oob a))"

definition host_read :: "bool \<Rightarrow> nat \<Rightarrow> bytes \<Rightarrow> nat \<Rightarrow> nat \<Rightarrow> u32 res" where
  "host_read rt sz f a len =
     (if len = 1 then bindE (in_object sz a 1) (\<lambda>_. Inr (le_read f a 1))
      else if len = 2 then bindE (in_object sz a 2) (\<lambda>_. Inr (le_read f a 2))
      else if len = 4 then bindE (in_object sz a 4) (\<lambda>_. Inr (le_read f a 4))
      else if len = 8 then bindE (in_object sz a 8) (\<lambda>_. Inr (ucast (le_read f a 8 :: u64)))
      else if rt then Inl (Assert_fail ''host_read'') else Inr 0)"

definition host_write :: "bool \<Rightarrow> nat \<Rightarrow> bytes \<Rightarrow> nat \<Rightarrow> nat \<Rightarrow> u32 \<Rightarrow> bytes res" where
  "host_write rt sz f a len v =
     (if len = 1 then bindE (in_object sz a 1) (\<lambda>_. Inr (le_write f a 1 v))
      else if len = 2 then bindE (in_object sz a 2) (\<lambda>_. Inr (le_write f a 2 v))
      else if len = 4 then bindE (in_object sz a 4) (\<lambda>_. Inr (le_write f a 4 v))
      else if len = 8 then bindE (in_object sz a 4) (\<lambda>_. Inr (le_write f a 4 v))
      else if rt then Inl (Assert_fail ''host_write'') else Inr f)"

lemma in_object_eq_Inr_iff [res_simps]: "in_object sz a n = Inr u \<longleftrightarrow> a + n \<le> sz"
  by (simp add: in_object_def)

lemma in_object_ok [simp]: "a + n \<le> sz \<Longrightarrow> in_object sz a n = Inr ()"
  by (simp add: in_object_def)

lemmas width_cases = insert_iff empty_iff

lemma host_read_small:
  "n \<in> {1, 2, 4} \<Longrightarrow> host_read rt sz f a n = bindE (in_object sz a n) (\<lambda>_. Inr (le_read f a n))"
  by (auto simp: host_read_def)

lemma host_write_small:
  "n \<in> {1, 2, 4} \<Longrightarrow> host_write rt sz f a n v = bindE (in_object sz a n) (\<lambda>_. Inr (le_write f a n v))"
  by (auto simp: host_write_def)

section \<open>The store interface\<close>

text \<open>
  What a client of a byte-addressed store relies on, for the access widths of the guest
  (1, 2 and 4 bytes): accesses inside the store succeed, a read returns the low bytes of
  the last write at its place, and a write changes no byte outside its own range.
\<close>

locale byte_store =
  fixes rd :: "'m \<Rightarrow> nat \<Rightarrow> nat \<Rightarrow> u32 res"
    and wr :: "'m \<Rightarrow> nat \<Rightarrow> nat \<Rightarrow> u32 \<Rightarrow> 'm res"
    and cap :: nat
  assumes rd_ok: "n \<in> {1, 2, 4} \<Longrightarrow> a + n \<le> cap \<Longrightarrow> \<exists>v. rd m a n = Inr v"
    and wr_ok: "n \<in> {1, 2, 4} \<Longrightarrow> a + n \<le> cap \<Longrightarrow> \<exists>m'. wr m a n v = Inr m'"
    and rd_wr_same: "n \<in> {1, 2, 4} \<Longrightarrow> wr m a n v = Inr m' \<Longrightarrow> rd m' a n = Inr (take_bit (8 * n) v)"
    and rd_wr_other: "n \<in> {1, 2, 4} \<Longrightarrow> k \<in> {1, 2, 4} \<Longrightarrow> wr m a n v = Inr m' \<Longrightarrow>
        a + n \<le> b \<or> b + k \<le> a \<Longrightarrow> rd m' b k = rd m b k"
begin

lemma rd_wr_word: "wr m a 4 v = Inr m' \<Longrightarrow> rd m' a 4 = Inr v"
proof -
  assume "wr m a 4 v = Inr m'"
  then have "rd m' a 4 = Inr (take_bit 32 v)" using rd_wr_same [of 4 m a v m'] by simp
  moreover have "take_bit 32 v = v" by (rule bit_word_eqI) (simp add: bit_take_bit_iff)
  ultimately show ?thesis by simp
qed

lemma rd_wr_wr:
  assumes "n \<in> {1, 2, 4}" and "wr m a n v = Inr m1" and "wr m1 a n w = Inr m2"
  shows "rd m2 a n = Inr (take_bit (8 * n) w)"
  using assms rd_wr_same by blast

text \<open>Two disjoint writes: both values are there afterwards, in whichever order they were made.\<close>

lemma rd_wr_disjoint:
  assumes "n \<in> {1, 2, 4}" and "k \<in> {1, 2, 4}" and "a + n \<le> b \<or> b + k \<le> a"
    and "wr m a n v = Inr m1" and "wr m1 b k w = Inr m2"
  shows "rd m2 a n = Inr (take_bit (8 * n) v) \<and> rd m2 b k = Inr (take_bit (8 * k) w)"
proof
  have "rd m2 a n = rd m1 a n"
    using rd_wr_other [OF assms(2) assms(1) assms(5)] assms(3) by blast
  then show "rd m2 a n = Inr (take_bit (8 * n) v)"
    using rd_wr_same [OF assms(1) assms(4)] by simp
  show "rd m2 b k = Inr (take_bit (8 * k) w)"
    by (rule rd_wr_same [OF assms(2) assms(5)])
qed

end

text \<open>
  Filling a store byte by byte from an address on, as \<^verbatim>\<open>memcpy\<close> and \<^verbatim>\<open>fread\<close> do into the
  guest memory.
\<close>

fun store_bytes :: "('m \<Rightarrow> nat \<Rightarrow> nat \<Rightarrow> u32 \<Rightarrow> 'm res) \<Rightarrow> 'm \<Rightarrow> nat \<Rightarrow> u8 list \<Rightarrow> 'm res" where
  "store_bytes wr m a [] = Inr m"
| "store_bytes wr m a (b # bs) = bindE (wr m a 1 (ucast b)) (\<lambda>m'. store_bytes wr m' (Suc a) bs)"

context byte_store begin

lemma store_bytes_ok:
  "a + length bs \<le> cap \<Longrightarrow> \<exists>m'. store_bytes wr m a bs = Inr m'"
proof (induction bs arbitrary: a m)
  case Nil
  then show ?case by simp
next
  case (Cons b bs)
  then obtain m' where "wr m a 1 (ucast b) = Inr m'"
    using wr_ok [of 1 a m "ucast b"] by auto
  then show ?case using Cons.IH [of "Suc a" m'] Cons.prems by simp
qed

lemma store_bytes_frame:
  "store_bytes wr m a bs = Inr m' \<Longrightarrow> k \<in> {1, 2, 4} \<Longrightarrow> a + length bs \<le> c \<or> c + k \<le> a \<Longrightarrow>
   rd m' c k = rd m c k"
proof (induction bs arbitrary: a m)
  case Nil
  then show ?case by simp
next
  case (Cons b bs)
  then obtain m1 where w: "wr m a 1 (ucast b) = Inr m1" and s: "store_bytes wr m1 (Suc a) bs = Inr m'"
    by (auto simp: res_simps)
  have "rd m' c k = rd m1 c k"
    using Cons.IH [OF s Cons.prems(2)] Cons.prems(3) by auto
  also have "\<dots> = rd m c k"
    using rd_wr_other [of 1 k m a "ucast b" m1 c] w Cons.prems(2,3) by auto
  finally show ?case .
qed

lemma store_bytes_read:
  "store_bytes wr m a bs = Inr m' \<Longrightarrow> i < length bs \<Longrightarrow> rd m' (a + i) 1 = Inr (ucast (bs ! i))"
proof (induction bs arbitrary: a m i)
  case Nil
  then show ?case by simp
next
  case (Cons b bs)
  then obtain m1 where w: "wr m a 1 (ucast b) = Inr m1" and s: "store_bytes wr m1 (Suc a) bs = Inr m'"
    by (auto simp: res_simps)
  show ?case
  proof (cases i)
    case 0
    have "rd m' a 1 = rd m1 a 1"
      by (rule store_bytes_frame [OF s]) auto
    also have "\<dots> = Inr (take_bit (8 * 1) (ucast b))"
      using rd_wr_same [of 1 m a "ucast b" m1] w by simp
    also have "take_bit (8 * 1) (ucast b :: u32) = ucast b"
      by (rule bit_word_eqI) (auto simp: bit_take_bit_iff bit_ucast_iff dest: bit_imp_le_length)
    finally show ?thesis using 0 by simp
  next
    case (Suc j)
    then show ?thesis using Cons.IH [OF s, of j] Cons.prems(2) by simp
  qed
qed

end

text \<open>Host memory itself provides the interface.\<close>

interpretation host_store: byte_store "\<lambda>f. host_read rt sz f" "\<lambda>f. host_write rt sz f" sz
  for rt :: bool and sz :: nat
proof (unfold_locales)
  fix n k a b :: nat and f f' :: bytes and v :: u32
  assume n: "n \<in> {1, 2, 4}"
  show "a + n \<le> sz \<Longrightarrow> \<exists>v. host_read rt sz f a n = Inr v"
    using n by (simp add: host_read_small)
  show "a + n \<le> sz \<Longrightarrow> \<exists>f'. host_write rt sz f a n v = Inr f'"
    using n by (simp add: host_write_small)
  assume w: "host_write rt sz f a n v = Inr f'"
  then have f': "f' = le_write f a n v" and sz: "a + n \<le> sz"
    using n by (auto simp: host_write_small res_simps)
  show "host_read rt sz f' a n = Inr (take_bit (8 * n) v)"
    using n sz by (simp add: host_read_small f' le_read_write_same)
  assume k: "k \<in> {1, 2, 4}" and d: "a + n \<le> b \<or> b + k \<le> a"
  show "host_read rt sz f' b k = host_read rt sz f b k"
    using k d by (simp add: host_read_small f' le_read_write_other)
qed

end
