(* ===== verification/Config.thy ===== *)
theory Config
  imports HostMem
begin

text \<open>
  The build configuration and the state every other component reads or writes. The
  boolean and choice options that select code through \<^verbatim>\<open>#ifdef\<close> are the fields of \<open>config\<close>;
  numeric options have their Kconfig defaults for the riscv ISA. The build modelled is
  32-bit (\<^verbatim>\<open>CONFIG_RV64\<close> off: \<^verbatim>\<open>host_read\<close> and \<^verbatim>\<open>host_write\<close> have two \<^verbatim>\<open>case 8\<close> labels with it,
  which C rejects), without \<^verbatim>\<open>CONFIG_RVC\<close> (the braces of \<^verbatim>\<open>decode_exec\<close> do not balance with
  it), native, and with \<^verbatim>\<open>CONFIG_DEVICE\<close> (\<^verbatim>\<open>irp_and\<close> needs the CLINT address).

  The second part is \<^verbatim>\<open>src/utils/state.c\<close>, the part of \<^verbatim>\<open>src/engine/interpreter/hostcall.c\<close>
  that changes state, and the skip flags of \<^verbatim>\<open>src/cpu/difftest/dut.c\<close> that these set.
\<close>

section \<open>Options\<close>

datatype priv_cfg = RVPrivM | RVPrivMU | RVPrivMSU

datatype vga_size = VGA_SIZE_400x300 | VGA_SIZE_800x600 | VGA_SIZE_1600x1200

datatype difftest_ref = DIFFTEST_OFF | DIFFTEST_REF_QEMU | DIFFTEST_REF_SPIKE | DIFFTEST_REF_MINIRV32I

record config =
  cfg_priv :: priv_cfg
  cfg_rva :: bool
  cfg_zicsr :: bool
  cfg_zifencei :: bool
  cfg_misalign :: bool
  cfg_rt_check :: bool
  cfg_difftest :: difftest_ref
  cfg_vga :: vga_size
  cfg_sdcard :: bool

text \<open>The Kconfig defaults.\<close>

definition default_config :: config where
  "default_config = \<lparr> cfg_priv = RVPrivMSU, cfg_rva = True, cfg_zicsr = True, cfg_zifencei = True,
     cfg_misalign = True, cfg_rt_check = True, cfg_difftest = DIFFTEST_OFF,
     cfg_vga = VGA_SIZE_400x300, cfg_sdcard = False \<rparr>"

named_theorems config_defs \<open>numeric options of the build\<close>

definition CONFIG_MBASE :: u32 where [config_defs]: "CONFIG_MBASE = 0x80000000"
definition CONFIG_MSIZE :: u32 where [config_defs]: "CONFIG_MSIZE = 0x8000000"
definition CONFIG_PC_RESET_OFFSET :: u32 where [config_defs]: "CONFIG_PC_RESET_OFFSET = 0"
definition CONFIG_SERIAL_MMIO :: u32 where [config_defs]: "CONFIG_SERIAL_MMIO = 0xa00003f8"
definition CONFIG_RTC_MMIO :: u32 where [config_defs]: "CONFIG_RTC_MMIO = 0xa0000048"
definition CONFIG_I8042_DATA_MMIO :: u32 where [config_defs]: "CONFIG_I8042_DATA_MMIO = 0xa0000060"
definition CONFIG_FB_ADDR :: u32 where [config_defs]: "CONFIG_FB_ADDR = 0xa1000000"
definition CONFIG_VGA_CTL_MMIO :: u32 where [config_defs]: "CONFIG_VGA_CTL_MMIO = 0xa0000100"
definition CONFIG_SB_ADDR :: u32 where [config_defs]: "CONFIG_SB_ADDR = 0xa1200000"
definition CONFIG_SB_SIZE :: u32 where [config_defs]: "CONFIG_SB_SIZE = 0x10000"
definition CONFIG_AUDIO_CTL_MMIO :: u32 where [config_defs]: "CONFIG_AUDIO_CTL_MMIO = 0xa0000200"
definition CONFIG_SDCARD_CTL_MMIO :: u32 where [config_defs]: "CONFIG_SDCARD_CTL_MMIO = 0xa3000000"
definition CONFIG_SYSCON_MMIO :: u32 where [config_defs]: "CONFIG_SYSCON_MMIO = 0x11100000"
definition CONFIG_CLINT_MMIO :: u32 where [config_defs]: "CONFIG_CLINT_MMIO = 0x11000000"

text \<open>\<^verbatim>\<open>include/memory/paddr.h\<close>.\<close>

definition PMEM_LEFT :: u32 where [config_defs]: "PMEM_LEFT = CONFIG_MBASE"
definition PMEM_RIGHT :: u32 where [config_defs]: "PMEM_RIGHT = CONFIG_MBASE + CONFIG_MSIZE - 1"
definition RESET_VECTOR :: u32 where [config_defs]: "RESET_VECTOR = PMEM_LEFT + CONFIG_PC_RESET_OFFSET"
definition PMEM_KERNEL :: u32 where
  [config_defs]: "PMEM_KERNEL = PMEM_LEFT + CONFIG_PC_RESET_OFFSET + 0x00200000"
definition PMEM_DTB :: u32 where [config_defs]: "PMEM_DTB = PMEM_RIGHT + 1 - 1024 * 1024 * 20"

definition in_pmem :: "u32 \<Rightarrow> bool" where
  "in_pmem addr \<longleftrightarrow> addr - CONFIG_MBASE < CONFIG_MSIZE"

lemma in_pmem_iff: "in_pmem a \<longleftrightarrow> PMEM_LEFT \<le> a \<and> a \<le> PMEM_RIGHT"
proof -
  have "a - 0x80000000 < 0x8000000 \<longleftrightarrow> 0x80000000 \<le> a \<and> a \<le> 0x87FFFFFF" for a :: u32
    using unsigned_less [of a, where ?'a = nat]
    by (auto simp: word_less_nat_alt word_le_nat_alt unat_sub_if_size word_size)
  then show ?thesis by (simp add: in_pmem_def config_defs)
qed

section \<open>The run state of the emulator\<close>

datatype nemu_run = NEMU_RUNNING | NEMU_STOP | NEMU_END | NEMU_ABORT | NEMU_QUIT

record nemu =
  nemu_state :: nemu_run
  halt_pc :: u32
  halt_ret :: u32
  is_skip_ref :: bool
  skip_dut_nr_inst :: int
  skip_dut_one_inst :: bool
  host_calls :: nat

text \<open>
  \<open>host_calls\<close> counts the calls made so far to the host services whose answers the model
  takes from its environment (clock, terminal, SDL); it is the model's own bookkeeping.
\<close>

definition nemu_init :: nemu where
  "nemu_init = \<lparr> nemu_state = NEMU_STOP, halt_pc = 0, halt_ret = 0, is_skip_ref = False,
     skip_dut_nr_inst = 0, skip_dut_one_inst = False, host_calls = 0 \<rparr>"

definition is_exit_status_bad :: "('a) nemu_scheme \<Rightarrow> int" where
  "is_exit_status_bad m =
     (let good = (nemu_state m = NEMU_END \<and> halt_ret m = 0) \<or> nemu_state m = NEMU_QUIT
      in if \<not> good then 1 else 0)"

text \<open>
  \<^verbatim>\<open>difftest_skip_ref\<close>: an empty inline function without \<^verbatim>\<open>CONFIG_DIFFTEST\<close>; with the
  mini-rv32ima reference the flag is cleared and the count kept.
\<close>

definition difftest_skip_ref :: "config \<Rightarrow> ('a) nemu_scheme \<Rightarrow> ('a) nemu_scheme" where
  "difftest_skip_ref c m =
     (case cfg_difftest c of
        DIFFTEST_OFF \<Rightarrow> m
      | DIFFTEST_REF_MINIRV32I \<Rightarrow> m\<lparr>is_skip_ref := False\<rparr>
      | _ \<Rightarrow> m\<lparr>is_skip_ref := True, skip_dut_nr_inst := 0\<rparr>)"

definition set_nemu_state :: "config \<Rightarrow> nemu_run \<Rightarrow> u32 \<Rightarrow> u32 \<Rightarrow> ('a) nemu_scheme \<Rightarrow> ('a) nemu_scheme" where
  "set_nemu_state c st pc ret m =
     (difftest_skip_ref c m)\<lparr>nemu_state := st, halt_pc := pc, halt_ret := ret\<rparr>"

definition NEMUTRAP :: "config \<Rightarrow> u32 \<Rightarrow> u32 \<Rightarrow> ('a) nemu_scheme \<Rightarrow> ('a) nemu_scheme" where
  "NEMUTRAP c pc code m = set_nemu_state c NEMU_END pc code m"

section \<open>The host environment\<close>

text \<open>
  What the program obtains from the operating system and the libraries it links, as
  functions of the number of the call: the two fields \<^verbatim>\<open>gettimeofday\<close> fills in, whether the
  terminal has input and is still open, the byte \<^verbatim>\<open>read\<close> delivers, the events
  \<^verbatim>\<open>SDL_PollEvent\<close> returns until its queue is empty. The constants of headers outside the
  repository (\<^verbatim>\<open>linux/serial_reg.h\<close>, the SDL scancodes), the contents of the SD card image (\<open>None\<close> when
  it cannot be opened), whether \<^verbatim>\<open>sigaction\<close> and \<^verbatim>\<open>setitimer\<close> succeed, and the text SDL\_ttf
  renders at start-up (width, height and ARGB pixels of the converted surface, \<open>None\<close> when a
  call failed) are further fields.
\<close>

datatype sdl_event = SDL_QUIT | SDL_KEYDOWN u8 | SDL_KEYUP u8 | SDL_OTHER

record serial_reg =
  UART_RX :: u32
  UART_IER :: u32
  UART_FCR :: u32
  UART_LCR :: u32
  UART_MCR :: u32
  UART_LSR :: u32
  UART_MSR :: u32
  UART_LCR_WLEN8 :: u8
  UART_LSR_TEMT :: u8
  UART_LSR_THRE :: u8
  UART_FCR_ENABLE_FIFO :: u8
  UART_FCR_CLEAR_RCVR :: u8
  UART_FCR_CLEAR_XMIT :: u8
  UART_FCR_TRIGGER_4 :: u8
  UART_IER_RDI :: u8
  UART_IER_THRI :: u8
  UART_IER_RLSI :: u8
  UART_IER_MSI :: u8

record host_env =
  env_timeofday :: "nat \<Rightarrow> u64 \<times> u64"
  env_bytes_waiting :: "nat \<Rightarrow> bool"
  env_stdin_open :: "nat \<Rightarrow> bool"
  env_stdin :: "nat \<Rightarrow> u8 option"
  env_events :: "nat \<Rightarrow> sdl_event list"
  env_serial_reg :: serial_reg
  env_scancode :: "string \<Rightarrow> u8"
  env_sd_image :: "u8 list option"
  env_alarm_ok :: bool
  env_text :: "(nat \<times> nat \<times> (nat \<Rightarrow> u32)) option"

text \<open>An environment for concrete runs: a still clock, no input, the 16550 register numbers.\<close>

definition quiet_env :: host_env where
  "quiet_env = \<lparr> env_timeofday = (\<lambda>_. (0, 0)), env_bytes_waiting = (\<lambda>_. False),
     env_stdin_open = (\<lambda>_. True), env_stdin = (\<lambda>_. None), env_events = (\<lambda>_. []),
     env_serial_reg = \<lparr> UART_RX = 0, UART_IER = 1, UART_FCR = 2, UART_LCR = 3, UART_MCR = 4,
       UART_LSR = 5, UART_MSR = 6, UART_LCR_WLEN8 = 3, UART_LSR_TEMT = 0x40, UART_LSR_THRE = 0x20,
       UART_FCR_ENABLE_FIFO = 1, UART_FCR_CLEAR_RCVR = 2, UART_FCR_CLEAR_XMIT = 4, UART_FCR_TRIGGER_4 = 0x40,
       UART_IER_RDI = 1, UART_IER_THRI = 2, UART_IER_RLSI = 4, UART_IER_MSI = 8 \<rparr>,
     env_scancode = (\<lambda>k. of_nat (length k)), env_sd_image = None, env_alarm_ok = True, env_text = None \<rparr>"

definition host_call :: "(nat \<Rightarrow> 'r) \<Rightarrow> ('a) nemu_scheme \<Rightarrow> 'r \<times> ('a) nemu_scheme" where
  "host_call f m = (f (host_calls m), m\<lparr>host_calls := Suc (host_calls m)\<rparr>)"

end
