(* ===== verification/IoMap.thy ===== *)
theory IoMap
  imports Config
begin

text \<open>
  The I/O address map: \<^verbatim>\<open>include/device/map.h\<close>, \<^verbatim>\<open>src/device/io/map.c\<close>,
  \<^verbatim>\<open>src/device/io/mmio.c\<close> and \<^verbatim>\<open>src/device/io/port-io.c\<close>. A map entry ties a range of guest
  addresses to a place in the I/O space and to a callback. The callbacks are function
  pointers: the operations here take their dispatch as an argument, and the theory of the
  devices supplies it.
\<close>

unbundle bit_operations_syntax

section \<open>State\<close>

datatype callback = CB_null | CB_serial | CB_rtc | CB_i8042 | CB_audio | CB_sdcard | CB_clint | CB_syscon

record io_map =
  map_name :: string
  low :: u32
  high :: u32
  space :: nat
  callback :: callback

record io = nemu +
  io_space :: bytes
  p_space :: nat
  mmio_maps :: "io_map list"
  pio_maps :: "io_map list"

definition IO_SPACE_MAX :: nat where "IO_SPACE_MAX = 2 * 1024 * 1024"
definition NR_MAP :: nat where "NR_MAP = 16"
definition PORT_IO_SPACE_MAX :: u32 where "PORT_IO_SPACE_MAX = 65535"
definition PAGE_SHIFT :: nat where "PAGE_SHIFT = 12"
definition PAGE_SIZE :: u32 where "PAGE_SIZE = push_bit PAGE_SHIFT 1"
definition PAGE_MASK :: u32 where "PAGE_MASK = PAGE_SIZE - 1"

text \<open>A callback dispatch: which handler runs, with the offset, the width and the direction.\<close>

type_synonym 'm io_dispatch = "callback \<Rightarrow> u32 \<Rightarrow> nat \<Rightarrow> bool \<Rightarrow> 'm \<Rightarrow> 'm res"

section \<open>map.c\<close>

definition page_round :: "u32 \<Rightarrow> u32" where
  "page_round sz = (sz + (PAGE_SIZE - 1)) AND NOT PAGE_MASK"

definition new_space :: "u32 \<Rightarrow> ('a) io_scheme \<Rightarrow> (nat \<times> ('a) io_scheme) res" where
  "new_space sz m =
     (let p = p_space m; p' = p + unat (page_round sz)
      in bindE (assertE (p' < IO_SPACE_MAX) ''new_space'') (\<lambda>_. Inr (p, m\<lparr>p_space := p'\<rparr>)))"

definition init_map :: "bytes \<Rightarrow> ('a) io_scheme \<Rightarrow> ('a) io_scheme" where
  "init_map heap m = m\<lparr>io_space := heap, p_space := 0\<rparr>"

definition check_bound :: "io_map option \<Rightarrow> u32 \<Rightarrow> io_map res" where
  "check_bound mp addr = (case mp of
      None \<Rightarrow> Inl (Out_of_bound addr)
    | Some e \<Rightarrow> if addr \<le> high e \<and> low e \<le> addr then Inr e else Inl (Out_of_bound addr))"

definition invoke_callback :: "'m io_dispatch \<Rightarrow> callback \<Rightarrow> u32 \<Rightarrow> nat \<Rightarrow> bool \<Rightarrow> 'm \<Rightarrow> 'm res" where
  "invoke_callback disp cb off len is_write m =
     (if cb = CB_null then Inr m else disp cb off len is_write m)"

definition map_read :: "config \<Rightarrow> (('a) io_scheme) io_dispatch \<Rightarrow> u32 \<Rightarrow> nat \<Rightarrow> io_map option \<Rightarrow>
    ('a) io_scheme \<Rightarrow> (u32 \<times> ('a) io_scheme) res" where
  "map_read c disp addr len mp m =
     bindE (assertE (1 \<le> len \<and> len \<le> 8) ''map_read'') (\<lambda>_.
     bindE (check_bound mp addr) (\<lambda>e.
     let off = addr - low e in
     bindE (invoke_callback disp (callback e) off len False m) (\<lambda>m1.
     bindE (host_read (cfg_rt_check c) IO_SPACE_MAX (io_space m1) (space e + unat off) len) (\<lambda>v.
     Inr (v, m1)))))"

definition map_write :: "config \<Rightarrow> (('a) io_scheme) io_dispatch \<Rightarrow> u32 \<Rightarrow> nat \<Rightarrow> u32 \<Rightarrow> io_map option \<Rightarrow>
    ('a) io_scheme \<Rightarrow> ('a) io_scheme res" where
  "map_write c disp addr len data mp m =
     bindE (assertE (1 \<le> len \<and> len \<le> 8) ''map_write'') (\<lambda>_.
     bindE (check_bound mp addr) (\<lambda>e.
     let off = addr - low e in
     bindE (host_write (cfg_rt_check c) IO_SPACE_MAX (io_space m) (space e + unat off) len data) (\<lambda>sp.
     invoke_callback disp (callback e) off len True (m\<lparr>io_space := sp\<rparr>))))"

section \<open>map.h\<close>

definition map_inside :: "io_map \<Rightarrow> u32 \<Rightarrow> bool" where
  "map_inside e addr \<longleftrightarrow> low e \<le> addr \<and> addr \<le> high e"

fun find_mapid_by_addr :: "config \<Rightarrow> io_map list \<Rightarrow> u32 \<Rightarrow> ('a) nemu_scheme \<Rightarrow>
    io_map option \<times> ('a) nemu_scheme" where
  "find_mapid_by_addr c [] addr m = (None, m)"
| "find_mapid_by_addr c (e # es) addr m =
     (if map_inside e addr then (Some e, difftest_skip_ref c m) else find_mapid_by_addr c es addr m)"

section \<open>mmio.c\<close>

definition fetch_mmio_map :: "config \<Rightarrow> u32 \<Rightarrow> ('a) io_scheme \<Rightarrow> io_map option \<times> ('a) io_scheme" where
  "fetch_mmio_map c addr m = find_mapid_by_addr c (mmio_maps m) addr m"

text \<open>
  \<^verbatim>\<open>add_mmio_map\<close>: the table must have room, neither end of the region may lie in the
  guest memory, and the region may not meet an earlier one; any of these aborts.
\<close>

definition add_mmio_map :: "string \<Rightarrow> u32 \<Rightarrow> nat \<Rightarrow> u32 \<Rightarrow> callback \<Rightarrow> ('a) io_scheme \<Rightarrow>
    ('a) io_scheme res" where
  "add_mmio_map nm addr sp len cb m =
     bindE (assertE (length (mmio_maps m) < NR_MAP) ''add_mmio_map'') (\<lambda>_.
     let left = addr; right = addr + len - 1 in
     if in_pmem left \<or> in_pmem right then Inl (Assert_fail ''MMIO region is overlapped'')
     else if list_ex (\<lambda>e. left \<le> high e \<and> low e \<le> right) (mmio_maps m)
     then Inl (Assert_fail ''MMIO region is overlapped'')
     else Inr (m\<lparr>mmio_maps := mmio_maps m @
       [\<lparr>map_name = nm, low = addr, high = addr + len - 1, space = sp, callback = cb\<rparr>]\<rparr>))"

definition mmio_read :: "config \<Rightarrow> (('a) io_scheme) io_dispatch \<Rightarrow> u32 \<Rightarrow> nat \<Rightarrow> ('a) io_scheme \<Rightarrow>
    (u32 \<times> ('a) io_scheme) res" where
  "mmio_read c disp addr len m = (case fetch_mmio_map c addr m of (mp, m1) \<Rightarrow> map_read c disp addr len mp m1)"

definition mmio_write :: "config \<Rightarrow> (('a) io_scheme) io_dispatch \<Rightarrow> u32 \<Rightarrow> nat \<Rightarrow> u32 \<Rightarrow> ('a) io_scheme \<Rightarrow>
    ('a) io_scheme res" where
  "mmio_write c disp addr len data m =
     (case fetch_mmio_map c addr m of (mp, m1) \<Rightarrow> map_write c disp addr len data mp m1)"

section \<open>port-io.c\<close>

text \<open>
  Ports are 16 bits wide; the sums are computed in \<^verbatim>\<open>uint32_t\<close> (\<^verbatim>\<open>add_pio_map\<close>) and in
  \<^verbatim>\<open>int\<close> (the accesses, whose widths are at most 8), so no sum wraps.
\<close>

definition add_pio_map :: "string \<Rightarrow> u16 \<Rightarrow> nat \<Rightarrow> u32 \<Rightarrow> callback \<Rightarrow> ('a) io_scheme \<Rightarrow>
    ('a) io_scheme res" where
  "add_pio_map nm addr sp len cb m =
     bindE (assertE (length (pio_maps m) < NR_MAP) ''add_pio_map'') (\<lambda>_.
     bindE (assertE (ucast addr + len \<le> PORT_IO_SPACE_MAX) ''add_pio_map'') (\<lambda>_.
     Inr (m\<lparr>pio_maps := pio_maps m @
       [\<lparr>map_name = nm, low = ucast addr, high = ucast addr + len - 1, space = sp, callback = cb\<rparr>]\<rparr>)))"

definition pio_fetch :: "config \<Rightarrow> u16 \<Rightarrow> nat \<Rightarrow> ('a) io_scheme \<Rightarrow> (io_map \<times> ('a) io_scheme) res" where
  "pio_fetch c addr len m =
     bindE (assertE (int (unat addr) + int len - 1 < uint PORT_IO_SPACE_MAX) ''pio'') (\<lambda>_.
     case find_mapid_by_addr c (pio_maps m) (ucast addr) m of
       (None, _) \<Rightarrow> Inl (Assert_fail ''mapid != -1'')
     | (Some e, m1) \<Rightarrow> Inr (e, m1))"

definition pio_read :: "config \<Rightarrow> (('a) io_scheme) io_dispatch \<Rightarrow> u16 \<Rightarrow> nat \<Rightarrow> ('a) io_scheme \<Rightarrow>
    (u32 \<times> ('a) io_scheme) res" where
  "pio_read c disp addr len m =
     bindE (pio_fetch c addr len m) (\<lambda>(e, m1). map_read c disp (ucast addr) len (Some e) m1)"

definition pio_write :: "config \<Rightarrow> (('a) io_scheme) io_dispatch \<Rightarrow> u16 \<Rightarrow> nat \<Rightarrow> u32 \<Rightarrow> ('a) io_scheme \<Rightarrow>
    ('a) io_scheme res" where
  "pio_write c disp addr len data m =
     bindE (pio_fetch c addr len m) (\<lambda>(e, m1). map_write c disp (ucast addr) len data (Some e) m1)"

section \<open>Well-formed address maps\<close>

text \<open>
  The ranges are not empty, none meets the guest memory, and no two of them meet.
\<close>

definition range_ok :: "io_map \<Rightarrow> bool" where
  "range_ok e \<longleftrightarrow> low e \<le> high e \<and> (high e < PMEM_LEFT \<or> PMEM_RIGHT < low e)"

definition apart :: "io_map \<Rightarrow> io_map \<Rightarrow> bool" where
  "apart e f \<longleftrightarrow> high e < low f \<or> high f < low e"

definition maps_wf :: "io_map list \<Rightarrow> bool" where
  "maps_wf es \<longleftrightarrow> list_all range_ok es \<and> sorted_wrt apart es \<and> length es \<le> NR_MAP"

lemma maps_wf_Nil [simp]: "maps_wf []"
  by (simp add: maps_wf_def)

lemma apart_sym: "apart e f \<Longrightarrow> apart f e"
  by (auto simp: apart_def)

lemma apart_no_common: "apart e f \<Longrightarrow> map_inside e a \<Longrightarrow> \<not> map_inside f a"
  by (auto simp: apart_def map_inside_def)

lemma range_ok_no_pmem: "range_ok e \<Longrightarrow> map_inside e a \<Longrightarrow> \<not> in_pmem a"
  by (auto simp: range_ok_def map_inside_def in_pmem_iff)

lemma region_outside_pmem:
  assumes "\<not> in_pmem l" "\<not> in_pmem r" "l \<le> r" "r = l + n - 1" "0 < n" "n \<le> CONFIG_MSIZE"
  shows "r < PMEM_LEFT \<or> PMEM_RIGHT < l"
proof (rule ccontr)
  assume "\<not> ?thesis"
  with assms(1,2,3) have "l < PMEM_LEFT" and "PMEM_RIGHT < r"
    by (auto simp: in_pmem_iff)
  then have "unat l < 0x80000000" and "0x87FFFFFF < unat r"
    by (simp_all add: config_defs word_less_nat_alt)
  moreover have "r - l = n - 1" by (simp add: assms(4))
  then have "unat r - unat l = unat (n - 1)"
    using assms(3) by (metis unat_sub)
  moreover have "unat (n - 1) < 0x8000000"
  proof -
    have "unat n \<le> 0x8000000" and "0 < unat n"
      using assms(5,6) by (simp_all add: config_defs word_le_nat_alt word_less_nat_alt)
    moreover have "1 \<le> n" using assms(5) by (simp add: word_le_nat_alt word_less_nat_alt Suc_leI)
    then have "unat (n - 1) = unat n - 1" by (simp add: unat_sub)
    ultimately show ?thesis by linarith
  qed
  ultimately show False by linarith
qed

lemma add_mmio_map_Inr:
  "add_mmio_map nm addr sp len cb m = Inr m' \<longleftrightarrow>
     length (mmio_maps m) < NR_MAP \<and> \<not> in_pmem addr \<and> \<not> in_pmem (addr + len - 1) \<and>
     list_all (\<lambda>e. high e < addr \<or> addr + len - 1 < low e) (mmio_maps m) \<and>
     m' = m\<lparr>mmio_maps := mmio_maps m @
       [\<lparr>map_name = nm, low = addr, high = addr + len - 1, space = sp, callback = cb\<rparr>]\<rparr>"
proof -
  have "\<not> list_ex (\<lambda>e. addr \<le> high e \<and> low e \<le> addr + len - 1) (mmio_maps m) \<longleftrightarrow>
      list_all (\<lambda>e. high e < addr \<or> addr + len - 1 < low e) (mmio_maps m)"
    by (induction "mmio_maps m") (auto simp: list_ex_iff list_all_iff not_le)
  then show ?thesis
    by (auto simp: add_mmio_map_def res_simps Let_def)
qed

lemma maps_wf_append:
  assumes "maps_wf es" and "range_ok e" and "list_all (\<lambda>f. apart f e) es" and "length es < NR_MAP"
  shows "maps_wf (es @ [e])"
  using assms by (auto simp: maps_wf_def sorted_wrt_append list_all_iff)

lemma add_mmio_map_keeps_wf:
  assumes "add_mmio_map nm addr sp len cb m = Inr m'" and "maps_wf (mmio_maps m)"
    and "0 < len" and "len \<le> CONFIG_MSIZE" and "addr \<le> addr + len - 1"
  shows "maps_wf (mmio_maps m')"
proof -
  let ?e = "\<lparr>map_name = nm, low = addr, high = addr + len - 1, space = sp, callback = cb\<rparr>"
  from assms(1) have *: "length (mmio_maps m) < NR_MAP" "\<not> in_pmem addr" "\<not> in_pmem (addr + len - 1)"
      "list_all (\<lambda>e. high e < addr \<or> addr + len - 1 < low e) (mmio_maps m)"
      "mmio_maps m' = mmio_maps m @ [?e]"
    by (auto simp: add_mmio_map_Inr)
  have "range_ok ?e"
    using region_outside_pmem [OF *(2,3) assms(5) refl assms(3,4)] assms(5)
    by (simp add: range_ok_def)
  moreover have "list_all (\<lambda>f. apart f ?e) (mmio_maps m)"
    using *(4) by (auto simp: list_all_iff apart_def)
  ultimately show ?thesis
    using maps_wf_append [OF assms(2)] *(1,5) by simp
qed

text \<open>In a well-formed map the search finds the one entry that holds the address.\<close>

lemma find_mapid_by_addr_state:
  "snd (find_mapid_by_addr c es a m) = (if list_ex (\<lambda>e. map_inside e a) es then difftest_skip_ref c m else m)"
  by (induction es) auto

lemma find_mapid_by_addr_None:
  "fst (find_mapid_by_addr c es a m) = None \<longleftrightarrow> list_all (\<lambda>e. \<not> map_inside e a) es"
  by (induction es) auto

lemma find_mapid_by_addr_Some:
  "fst (find_mapid_by_addr c es a m) = Some e \<Longrightarrow> e \<in> set es \<and> map_inside e a"
  by (induction es) (auto split: if_splits)

lemma find_mapid_by_addr_unique:
  assumes "maps_wf es" and "e \<in> set es" and "map_inside e a"
  shows "fst (find_mapid_by_addr c es a m) = Some e"
  using assms
proof (induction es)
  case Nil
  then show ?case by simp
next
  case (Cons f es)
  show ?case
  proof (cases "map_inside f a")
    case True
    have "e = f"
    proof (rule ccontr)
      assume "e \<noteq> f"
      then have "apart f e" using Cons.prems(1,2) by (auto simp: maps_wf_def)
      then show False using apart_no_common True Cons.prems(3) by blast
    qed
    with True show ?thesis by simp
  next
    case False
    with Cons show ?thesis by (auto simp: maps_wf_def)
  qed
qed

lemma fetch_mmio_map_state [simp]:
  "mmio_maps (snd (fetch_mmio_map c a m)) = mmio_maps m"
  "p_space (snd (fetch_mmio_map c a m)) = p_space m"
  "io_space (snd (fetch_mmio_map c a m)) = io_space m"
  by (simp_all add: fetch_mmio_map_def find_mapid_by_addr_state difftest_skip_ref_def
      split: difftest_ref.split)

section \<open>The I/O space allocator\<close>

lemma page_round_eq: "page_round s = push_bit 12 (drop_bit 12 (s + 4095))"
proof -
  have "PAGE_MASK = mask 12"
    by (simp add: PAGE_MASK_def PAGE_SIZE_def PAGE_SHIFT_def mask_eq_exp_minus_1)
  moreover have "PAGE_SIZE - 1 = 4095" by (simp add: PAGE_SIZE_def PAGE_SHIFT_def)
  ultimately have "page_round s = (s + 4095) AND NOT (mask 12)"
    by (simp only: page_round_def)
  also have "\<dots> = push_bit 12 (drop_bit 12 (s + 4095))"
    by (rule bit_word_eqI) (auto simp: bit_and_iff bit_not_iff bit_mask_iff bit_push_bit_iff bit_drop_bit_eq)
  finally show ?thesis .
qed

lemma unat_page_round:
  assumes "unat s + 4095 < 2 ^ 32"
  shows "unat (page_round s) = (unat s + 4095) div 4096 * 4096"
proof -
  have "unat (s + 4095) = unat s + 4095"
    using assms by (subst unat_add_lem [THEN iffD1]) auto
  moreover have "(unat s + 4095) div 4096 * 4096 \<le> unat s + 4095" by simp
  ultimately show ?thesis
    using assms by (simp add: page_round_eq push_bit_eq_mult drop_bit_eq_div unat_word_ariths
        unat_div mult.commute)
qed

lemma page_round_ge: "unat s + 4095 < 2 ^ 32 \<Longrightarrow> unat s \<le> unat (page_round s)"
  by (simp add: unat_page_round)

lemma new_space_Inr:
  "new_space s m = Inr (p, m') \<longleftrightarrow> p_space m + unat (page_round s) < IO_SPACE_MAX \<and>
     p = p_space m \<and> m' = m\<lparr>p_space := p_space m + unat (page_round s)\<rparr>"
  by (auto simp: new_space_def Let_def res_simps)

text \<open>
  A block handed out starts on a page, holds the size asked for, lies inside the I/O space
  and ends where the free part now begins: later blocks do not meet it.
\<close>

lemma new_space_block:
  assumes "new_space s m = Inr (p, m')" and "unat s + 4095 < 2 ^ 32" and "4096 dvd p_space m"
  shows "p = p_space m \<and> 4096 dvd p \<and> p + unat s \<le> p_space m' \<and> p_space m' < IO_SPACE_MAX \<and>
         4096 dvd p_space m'"
  using assms page_round_ge [OF assms(2)]
  by (auto simp: new_space_Inr unat_page_round)

section \<open>The interface of a device handler\<close>

text \<open>
  What the bus relies on when it calls into a device: a handler leaves the address maps
  and the allocator alone. The bus operations then keep them too, so a well-formed map
  stays well-formed whatever the guest accesses.
\<close>

locale io_handler =
  fixes disp :: "(('a) io_scheme) io_dispatch"
  assumes handler_maps: "disp cb off n w m = Inr m' \<Longrightarrow> mmio_maps m' = mmio_maps m"
    and handler_p_space: "disp cb off n w m = Inr m' \<Longrightarrow> p_space m' = p_space m"
begin

lemma invoke_callback_keeps:
  "invoke_callback disp cb off n w m = Inr m' \<Longrightarrow> mmio_maps m' = mmio_maps m \<and> p_space m' = p_space m"
  by (auto simp: invoke_callback_def handler_maps handler_p_space split: if_splits)

lemma map_read_keeps:
  "map_read c disp a n mp m = Inr (v, m') \<Longrightarrow> mmio_maps m' = mmio_maps m \<and> p_space m' = p_space m"
  by (auto simp: map_read_def res_simps Let_def dest: invoke_callback_keeps)

lemma map_write_keeps:
  "map_write c disp a n v mp m = Inr m' \<Longrightarrow> mmio_maps m' = mmio_maps m \<and> p_space m' = p_space m"
  by (auto simp: map_write_def res_simps Let_def dest: invoke_callback_keeps)

lemma mmio_read_keeps:
  assumes "mmio_read c disp a n m = Inr (v, m')"
  shows "mmio_maps m' = mmio_maps m \<and> p_space m' = p_space m"
proof -
  obtain mp m1 where f: "fetch_mmio_map c a m = (mp, m1)" by fastforce
  then have "mmio_maps m1 = mmio_maps m" and "p_space m1 = p_space m"
    using fetch_mmio_map_state [of c a m] by simp_all
  moreover have "map_read c disp a n mp m1 = Inr (v, m')"
    using assms f by (simp add: mmio_read_def)
  ultimately show ?thesis by (auto dest: map_read_keeps)
qed

lemma mmio_write_keeps:
  assumes "mmio_write c disp a n v m = Inr m'"
  shows "mmio_maps m' = mmio_maps m \<and> p_space m' = p_space m"
proof -
  obtain mp m1 where f: "fetch_mmio_map c a m = (mp, m1)" by fastforce
  then have "mmio_maps m1 = mmio_maps m" and "p_space m1 = p_space m"
    using fetch_mmio_map_state [of c a m] by simp_all
  moreover have "map_write c disp a n v mp m1 = Inr m'"
    using assms f by (simp add: mmio_write_def)
  ultimately show ?thesis by (auto dest: map_write_keeps)
qed

end

text \<open>An access outside every region aborts, whatever the handlers do.\<close>

lemma mmio_read_unmapped:
  "1 \<le> n \<Longrightarrow> n \<le> 8 \<Longrightarrow> list_all (\<lambda>e. \<not> map_inside e a) (mmio_maps m) \<Longrightarrow>
   mmio_read c disp a n m = Inl (Out_of_bound a)"
  using find_mapid_by_addr_None [of c "mmio_maps m" a m]
  by (cases "fetch_mmio_map c a m") (simp add: mmio_read_def fetch_mmio_map_def map_read_def check_bound_def)

lemma mmio_write_unmapped:
  "1 \<le> n \<Longrightarrow> n \<le> 8 \<Longrightarrow> list_all (\<lambda>e. \<not> map_inside e a) (mmio_maps m) \<Longrightarrow>
   mmio_write c disp a n v m = Inl (Out_of_bound a)"
  using find_mapid_by_addr_None [of c "mmio_maps m" a m]
  by (cases "fetch_mmio_map c a m") (simp add: mmio_write_def fetch_mmio_map_def map_write_def check_bound_def)

text \<open>What an access to a region of a well-formed map does.\<close>

lemma mmio_read_mapped:
  assumes "maps_wf (mmio_maps m)" and "e \<in> set (mmio_maps m)" and "map_inside e a"
    and "1 \<le> n" and "n \<le> 8"
  shows "mmio_read c disp a n m =
    bindE (invoke_callback disp (callback e) (a - low e) n False (difftest_skip_ref c m))
      (\<lambda>m1. bindE (host_read (cfg_rt_check c) IO_SPACE_MAX (io_space m1) (space e + unat (a - low e)) n)
        (\<lambda>v. Inr (v, m1)))"
proof -
  have "fetch_mmio_map c a m = (Some e, difftest_skip_ref c m)"
    using find_mapid_by_addr_unique [OF assms(1,2,3), of c m]
      find_mapid_by_addr_state [of c "mmio_maps m" a m] assms(2,3)
    by (cases "fetch_mmio_map c a m") (auto simp: fetch_mmio_map_def list_ex_iff)
  then show ?thesis
    using assms(3,4,5) by (simp add: mmio_read_def map_read_def check_bound_def map_inside_def Let_def)
qed

lemma mmio_write_mapped:
  assumes "maps_wf (mmio_maps m)" and "e \<in> set (mmio_maps m)" and "map_inside e a"
    and "1 \<le> n" and "n \<le> 8"
  shows "mmio_write c disp a n v m =
    bindE (host_write (cfg_rt_check c) IO_SPACE_MAX (io_space m) (space e + unat (a - low e)) n v)
      (\<lambda>sp. invoke_callback disp (callback e) (a - low e) n True ((difftest_skip_ref c m)\<lparr>io_space := sp\<rparr>))"
proof -
  have "fetch_mmio_map c a m = (Some e, difftest_skip_ref c m)"
    using find_mapid_by_addr_unique [OF assms(1,2,3), of c m]
      find_mapid_by_addr_state [of c "mmio_maps m" a m] assms(2,3)
    by (cases "fetch_mmio_map c a m") (auto simp: fetch_mmio_map_def list_ex_iff)
  moreover have "io_space (difftest_skip_ref c m) = io_space m"
    by (simp add: difftest_skip_ref_def split: difftest_ref.split)
  ultimately show ?thesis
    using assms(3,4,5) by (simp add: mmio_write_def map_write_def check_bound_def map_inside_def Let_def)
qed

end
