(* ===== verification/DevState.thy ===== *)
theory DevState
  imports IoMap
begin

text \<open>
  The static variables of the device files under \<^verbatim>\<open>src/device/\<close> and of
  \<^verbatim>\<open>src/utils/timer.c\<close>, the accesses the devices make to their registers in the I/O space,
  and the clock. Register blocks are offsets into the I/O space, as the pointers
  \<^verbatim>\<open>new_space\<close> returns are.
\<close>

unbundle bit_operations_syntax

section \<open>State\<close>

text \<open>The keyboard: the ring buffer of \<^verbatim>\<open>keyboard.c\<close> and the scancode table.\<close>

record kbd =
  key_queue :: "nat \<Rightarrow> u32"
  key_f :: nat
  key_r :: nat
  keymap :: "u8 \<Rightarrow> u32"

text \<open>
  The SD card: the image file (\<open>None\<close> when it could not be opened) with its position, and
  the statics of \<^verbatim>\<open>sdcard.c\<close>.
\<close>

record sdcard =
  sd_file :: "u8 list option"
  sd_pos :: nat
  sd_blkcnt :: u32
  sd_blk_addr :: u32
  sd_addr :: u32
  sd_write_cmd :: bool
  sd_read_ext_csd :: bool

text \<open>What the emulator has sent to the outside: characters, messages (the format string without
  its line end, and the numbers printed), frames, and the debugger's lines (the format, its string and
its number arguments).\<close>

datatype out_event = OutChar u8 | OutMsg string "u32 list" | OutFrame | OutLine string "string list" "int list"

datatype alarm_handler = AH_timer_intr

record devs = io +
  console :: "out_event list"
  boot_time :: u64
  clint_base :: nat
  syscon_base :: nat
  rtc_base :: nat
  serial_base :: nat
  is_eofd :: bool
  i8042_base :: nat
  kbd :: kbd
  audio_base :: nat
  sbuf_base :: nat
  sd_base :: nat
  sd :: sdcard
  vgactl_base :: nat
  vmem :: nat
  frame_count :: nat
  dev_last :: u64
  alarm_handlers :: "alarm_handler list"

definition emit :: "out_event \<Rightarrow> ('a) devs_scheme \<Rightarrow> ('a) devs_scheme" where
  "emit ev m = m\<lparr>console := console m @ [ev]\<rparr>"

section \<open>Register accesses\<close>

definition dev_peek :: "('a) io_scheme \<Rightarrow> nat \<Rightarrow> nat \<Rightarrow> ('b::len word) res" where
  "dev_peek m a n = bindE (in_object IO_SPACE_MAX a n) (\<lambda>_. Inr (le_read (io_space m) a n))"

definition dev_poke :: "nat \<Rightarrow> nat \<Rightarrow> 'b::len word \<Rightarrow> ('a) io_scheme \<Rightarrow> ('a) io_scheme res" where
  "dev_poke a n v m = bindE (in_object IO_SPACE_MAX a n)
     (\<lambda>_. Inr (m\<lparr>io_space := le_write (io_space m) a n v\<rparr>))"

lemma dev_poke_Inr [res_simps]:
  "dev_poke a n v m = Inr m' \<longleftrightarrow> a + n \<le> IO_SPACE_MAX \<and> m' = m\<lparr>io_space := le_write (io_space m) a n v\<rparr>"
  by (auto simp: dev_poke_def res_simps)

lemma dev_peek_Inr [res_simps]:
  "dev_peek m a n = Inr v \<longleftrightarrow> a + n \<le> IO_SPACE_MAX \<and> v = le_read (io_space m) a n"
  by (auto simp: dev_peek_def res_simps)

section \<open>src/utils/timer.c\<close>

definition get_time_internal :: "host_env \<Rightarrow> ('a) nemu_scheme \<Rightarrow> u64 \<times> ('a) nemu_scheme" where
  "get_time_internal E m = (case host_call (env_timeofday E) m of
     ((tv_sec, tv_usec), m1) \<Rightarrow> (tv_sec * 1000000 + tv_usec, m1))"

definition get_time :: "host_env \<Rightarrow> ('a) devs_scheme \<Rightarrow> u64 \<times> ('a) devs_scheme" where
  "get_time E m =
     (let m1 = (if boot_time m = 0
                then (case get_time_internal E m of (t, m') \<Rightarrow> m'\<lparr>boot_time := t\<rparr>) else m)
      in case get_time_internal E m1 of (now, m2) \<Rightarrow> (now - boot_time m2, m2))"

lemma get_time_internal_keeps [simp]:
  "snd (get_time_internal E m) = m\<lparr>host_calls := Suc (host_calls m)\<rparr>"
  by (simp add: get_time_internal_def host_call_def split: prod.split)

lemma get_time_keeps [simp]:
  "io_space (snd (get_time E m)) = io_space m"
  "pio_maps (snd (get_time E m)) = pio_maps m"
  "console (snd (get_time E m)) = console m"
  "p_space (snd (get_time E m)) = p_space m"
  "mmio_maps (snd (get_time E m)) = mmio_maps m"
  "nemu_state (snd (get_time E m)) = nemu_state m"
  "devs.more (snd (get_time E m)) = devs.more m"
  by (simp_all add: get_time_def get_time_internal_def host_call_def Let_def split: prod.splits)

section \<open>What no device touches\<close>

text \<open>
  Handlers leave the address maps, the allocator, the run state and everything outside the devices
  (RAM, the processor) alone. The facts of this kind are
  collected under \<open>keeps\<close>.
\<close>

named_theorems keeps \<open>fields a device operation leaves alone\<close>

definition same_maps :: "('a) devs_scheme \<Rightarrow> ('a) devs_scheme \<Rightarrow> bool" where
  "same_maps m m' \<longleftrightarrow> mmio_maps m' = mmio_maps m \<and> pio_maps m' = pio_maps m \<and> p_space m' = p_space m \<and>
     devs.more m' = devs.more m \<and> nemu_state m' = nemu_state m"

lemma same_maps_refl [simp]: "same_maps m m"
  by (simp add: same_maps_def)

lemma same_maps_trans: "same_maps m m1 \<Longrightarrow> same_maps m1 m2 \<Longrightarrow> same_maps m m2"
  by (simp add: same_maps_def)

lemma emit_same_maps [keeps]: "same_maps m (emit ev m)"
  by (simp add: same_maps_def emit_def)

lemma dev_poke_same_maps [keeps]: "dev_poke a n v m = Inr m' \<Longrightarrow> same_maps m m'"
  by (auto simp: same_maps_def res_simps)

lemma host_call_same_maps [keeps]: "same_maps m (snd (host_call f m))"
  by (simp add: same_maps_def host_call_def)

lemma get_time_same_maps [keeps]: "same_maps m (snd (get_time E m))"
  by (simp add: same_maps_def)

text \<open>The same for a fallible operation, with introduction rules that follow its text.\<close>

named_theorems kept_intros \<open>introduction rules for kept\<close>

definition kept :: "('a) devs_scheme \<Rightarrow> (('a) devs_scheme) res \<Rightarrow> bool" where
  "kept m r \<longleftrightarrow> (\<forall>m'. r = Inr m' \<longrightarrow> same_maps m m')"

lemma kept_Inl [kept_intros]: "kept m (Inl e)"
  by (simp add: kept_def)

lemma kept_Inr [kept_intros]: "same_maps m m' \<Longrightarrow> kept m (Inr m')"
  by (simp add: kept_def)

lemma kept_if [kept_intros]: "kept m r \<Longrightarrow> kept m s \<Longrightarrow> kept m (if b then r else s)"
  by simp

lemma kept_bind [kept_intros]: "(\<And>x. kept m (f x)) \<Longrightarrow> kept m (bindE r f)"
  by (auto simp: kept_def res_simps)

lemma kept_poke [kept_intros]: "kept m (dev_poke a n v m)"
  by (auto simp: kept_def dest: dev_poke_same_maps)

lemma kept_seq: "kept m r \<Longrightarrow> (\<And>x. same_maps m x \<Longrightarrow> kept x (f x)) \<Longrightarrow> kept m (bindE r f)"
  by (auto simp: kept_def res_simps dest: same_maps_trans)

lemma keptD: "kept m r \<Longrightarrow> r = Inr m' \<Longrightarrow> same_maps m m'"
  by (simp add: kept_def)

end
