(* ===== verification/Keyboard.thy ===== *)
theory Keyboard
  imports DevState
begin

text \<open>
  The keyboard, \<^verbatim>\<open>src/device/keyboard.c\<close>: the ring buffer of key events between the SDL
  event loop (\<^verbatim>\<open>send_key\<close>) and the guest (\<^verbatim>\<open>i8042_data_io_handler\<close>). The interface \<open>fifo\<close>
  states what a bounded queue promises; the ring buffer provides it.
\<close>

unbundle bit_operations_syntax

section \<open>Key codes\<close>

text \<open>\<^verbatim>\<open>NEMU_KEYS\<close>: the enumeration numbers the keys from 1 in this order.\<close>

definition NEMU_KEYS :: "string list" where
  "NEMU_KEYS = [
    ''ESCAPE'', ''F1'', ''F2'', ''F3'', ''F4'', ''F5'', ''F6'', ''F7'', ''F8'', ''F9'',
    ''F10'', ''F11'', ''F12'', ''GRAVE'', ''1'', ''2'', ''3'', ''4'', ''5'', ''6'', ''7'',
    ''8'', ''9'', ''0'', ''MINUS'', ''EQUALS'', ''BACKSPACE'', ''TAB'', ''Q'', ''W'', ''E'',
    ''R'', ''T'', ''Y'', ''U'', ''I'', ''O'', ''P'', ''LEFTBRACKET'', ''RIGHTBRACKET'',
    ''BACKSLASH'', ''CAPSLOCK'', ''A'', ''S'', ''D'', ''F'', ''G'', ''H'', ''J'', ''K'',
    ''L'', ''SEMICOLON'', ''APOSTROPHE'', ''RETURN'', ''LSHIFT'', ''Z'', ''X'', ''C'', ''V'',
    ''B'', ''N'', ''M'', ''COMMA'', ''PERIOD'', ''SLASH'', ''RSHIFT'', ''LCTRL'',
    ''APPLICATION'', ''LALT'', ''SPACE'', ''RALT'', ''RCTRL'', ''UP'', ''DOWN'', ''LEFT'',
    ''RIGHT'', ''INSERT'', ''DELETE'', ''HOME'', ''END'', ''PAGEUP'', ''PAGEDOWN'']"

definition NEMU_KEY_NONE :: u32 where "NEMU_KEY_NONE = 0"
definition KEYDOWN_MASK :: u32 where "KEYDOWN_MASK = 0x8000"
definition KEY_QUEUE_LEN :: nat where "KEY_QUEUE_LEN = 1024"

text \<open>
  \<^verbatim>\<open>init_keymap\<close> assigns \<^verbatim>\<open>keymap[SDL_SCANCODE_k] = NEMU_KEY_k\<close> key by key, in this order;
  the scancodes come from SDL.
\<close>

fun init_keymap_from :: "(string \<Rightarrow> u8) \<Rightarrow> u32 \<Rightarrow> string list \<Rightarrow> (u8 \<Rightarrow> u32) \<Rightarrow> (u8 \<Rightarrow> u32)" where
  "init_keymap_from sc code [] km = km"
| "init_keymap_from sc code (k # ks) km = init_keymap_from sc (code + 1) ks (km(sc k := code))"

definition init_keymap :: "(string \<Rightarrow> u8) \<Rightarrow> kbd \<Rightarrow> kbd" where
  "init_keymap sc q = q\<lparr>keymap := init_keymap_from sc 1 NEMU_KEYS (keymap q)\<rparr>"

definition kbd_init :: kbd where
  "kbd_init = \<lparr>key_queue = (\<lambda>_. 0), key_f = 0, key_r = 0, keymap = (\<lambda>_. 0)\<rparr>"

section \<open>The ring buffer\<close>

definition key_enqueue :: "kbd \<Rightarrow> u32 \<Rightarrow> kbd res" where
  "key_enqueue q am_scancode =
     (let q1 = q\<lparr>key_queue := (key_queue q)(key_r q := am_scancode),
                 key_r := (key_r q + 1) mod KEY_QUEUE_LEN\<rparr>
      in bindE (assertE (key_r q1 \<noteq> key_f q1) ''key queue overflow!'') (\<lambda>_. Inr q1))"

definition key_dequeue :: "kbd \<Rightarrow> u32 \<times> kbd" where
  "key_dequeue q =
     (if key_f q \<noteq> key_r q
      then (key_queue q (key_f q), q\<lparr>key_f := (key_f q + 1) mod KEY_QUEUE_LEN\<rparr>)
      else (NEMU_KEY_NONE, q))"

definition send_key :: "u8 \<Rightarrow> bool \<Rightarrow> ('a) devs_scheme \<Rightarrow> ('a) devs_scheme res" where
  "send_key scancode is_keydown m =
     (if nemu_state m = NEMU_RUNNING \<and> keymap (kbd m) scancode \<noteq> NEMU_KEY_NONE
      then bindE (key_enqueue (kbd m)
             (keymap (kbd m) scancode OR (if is_keydown then KEYDOWN_MASK else 0)))
             (\<lambda>q. Inr (m\<lparr>kbd := q\<rparr>))
      else Inr m)"

definition i8042_data_io_handler :: "u32 \<Rightarrow> nat \<Rightarrow> bool \<Rightarrow> ('a) devs_scheme \<Rightarrow> ('a) devs_scheme res" where
  "i8042_data_io_handler off len is_write m =
     bindE (assertE (\<not> is_write) ''!is_write'') (\<lambda>_.
     bindE (assertE (off = 0) ''offset == 0'') (\<lambda>_.
     case key_dequeue (kbd m) of (key, q) \<Rightarrow> dev_poke (i8042_base m) 4 key (m\<lparr>kbd := q\<rparr>)))"

definition init_i8042 :: "host_env \<Rightarrow> ('a) devs_scheme \<Rightarrow> ('a) devs_scheme res" where
  "init_i8042 E m =
     bindE (new_space 4 m) (\<lambda>(p, m).
     bindE (dev_poke p 4 NEMU_KEY_NONE (m\<lparr>i8042_base := p\<rparr>)) (\<lambda>m.
     bindE (add_mmio_map ''keyboard'' CONFIG_I8042_DATA_MMIO p 4 CB_i8042 m) (\<lambda>m.
     Inr (m\<lparr>kbd := init_keymap (env_scancode E) (kbd m)\<rparr>))))"

section \<open>A bounded queue\<close>

text \<open>
  The contract: adding at the end while there is room, refusing when full, taking from the
  front, and the default element for an empty queue.
\<close>

locale fifo =
  fixes enq :: "'q \<Rightarrow> 'a \<Rightarrow> 'q res"
    and deq :: "'q \<Rightarrow> 'a \<times> 'q"
    and contents :: "'q \<Rightarrow> 'a list"
    and inv :: "'q \<Rightarrow> bool"
    and room :: nat
    and dflt :: 'a
  assumes enq_room: "inv q \<Longrightarrow> length (contents q) < room \<Longrightarrow>
      \<exists>q'. enq q x = Inr q' \<and> inv q' \<and> contents q' = contents q @ [x]"
    and enq_full: "inv q \<Longrightarrow> length (contents q) \<ge> room \<Longrightarrow> \<exists>e. enq q x = Inl e"
    and deq_empty: "inv q \<Longrightarrow> contents q = [] \<Longrightarrow> deq q = (dflt, q)"
    and deq_front: "inv q \<Longrightarrow> contents q = y # ys \<Longrightarrow>
      \<exists>q'. deq q = (y, q') \<and> inv q' \<and> contents q' = ys"

fun enq_all :: "('q \<Rightarrow> 'a \<Rightarrow> 'q res) \<Rightarrow> 'q \<Rightarrow> 'a list \<Rightarrow> 'q res" where
  "enq_all enq q [] = Inr q"
| "enq_all enq q (x # xs) = bindE (enq q x) (\<lambda>q'. enq_all enq q' xs)"

fun deq_many :: "('q \<Rightarrow> 'a \<times> 'q) \<Rightarrow> nat \<Rightarrow> 'q \<Rightarrow> 'a list \<times> 'q" where
  "deq_many deq 0 q = ([], q)"
| "deq_many deq (Suc n) q = (case deq q of (y, q1) \<Rightarrow> case deq_many deq n q1 of (ys, q2) \<Rightarrow> (y # ys, q2))"

context fifo begin

lemma enq_all_room:
  "inv q \<Longrightarrow> length (contents q) + length xs \<le> room \<Longrightarrow>
   \<exists>q'. enq_all enq q xs = Inr q' \<and> inv q' \<and> contents q' = contents q @ xs"
proof (induction xs arbitrary: q)
  case Nil
  then show ?case by simp
next
  case (Cons x xs)
  then obtain q1 where q1: "enq q x = Inr q1" "inv q1" "contents q1 = contents q @ [x]"
    using enq_room [of q x] by auto
  from Cons.IH [OF q1(2)] Cons.prems(2) q1(3) obtain q' where
    "enq_all enq q1 xs = Inr q'" "inv q'" "contents q' = contents q1 @ xs" by auto
  then show ?case using q1 by simp
qed

lemma deq_many_contents:
  "inv q \<Longrightarrow> n \<le> length (contents q) \<Longrightarrow>
   fst (deq_many deq n q) = take n (contents q) \<and> inv (snd (deq_many deq n q)) \<and>
   contents (snd (deq_many deq n q)) = drop n (contents q)"
proof (induction n arbitrary: q)
  case 0
  then show ?case by simp
next
  case (Suc n)
  then obtain y ys where c: "contents q = y # ys" by (cases "contents q") auto
  then obtain q1 where "deq q = (y, q1)" "inv q1" "contents q1 = ys"
    using deq_front [OF Suc.prems(1)] by blast
  then show ?case using Suc.IH [of q1] Suc.prems(2) c by (auto split: prod.split)
qed

text \<open>First in, first out: what was queued comes out in the order it went in.\<close>

lemma fifo_order:
  assumes "inv q" and "contents q = []" and "length xs \<le> room"
  shows "\<exists>q'. enq_all enq q xs = Inr q' \<and> fst (deq_many deq (length xs) q') = xs \<and>
    contents (snd (deq_many deq (length xs) q')) = []"
proof -
  from enq_all_room [OF assms(1), of xs] assms(2,3) obtain q' where
    q': "enq_all enq q xs = Inr q'" "inv q'" "contents q' = xs" by auto
  with deq_many_contents [OF q'(2), of "length xs"] show ?thesis by simp
qed

end

section \<open>The ring buffer is a bounded queue\<close>

definition kbd_inv :: "kbd \<Rightarrow> bool" where
  "kbd_inv q \<longleftrightarrow> key_f q < KEY_QUEUE_LEN \<and> key_r q < KEY_QUEUE_LEN"

definition kbd_size :: "kbd \<Rightarrow> nat" where
  "kbd_size q = (if key_f q \<le> key_r q then key_r q - key_f q else key_r q + KEY_QUEUE_LEN - key_f q)"

definition kbd_contents :: "kbd \<Rightarrow> u32 list" where
  "kbd_contents q = map (\<lambda>i. key_queue q ((key_f q + i) mod KEY_QUEUE_LEN)) [0..<kbd_size q]"

lemma length_kbd_contents [simp]: "length (kbd_contents q) = kbd_size q"
  by (simp add: kbd_contents_def)

lemma kbd_size_less: "kbd_inv q \<Longrightarrow> kbd_size q < KEY_QUEUE_LEN"
  by (auto simp: kbd_inv_def kbd_size_def)

lemma mod_len_Suc: "r < KEY_QUEUE_LEN \<Longrightarrow> Suc r mod KEY_QUEUE_LEN = (if Suc r = KEY_QUEUE_LEN then 0 else Suc r)"
  by simp

lemma kbd_end: "kbd_inv q \<Longrightarrow> (key_f q + kbd_size q) mod KEY_QUEUE_LEN = key_r q"
  by (auto simp: kbd_inv_def kbd_size_def)

lemma kbd_inv_enqueue: "kbd_inv q \<Longrightarrow> key_enqueue q k = Inr q' \<Longrightarrow> kbd_inv q'"
  by (auto simp: key_enqueue_def kbd_inv_def Let_def res_simps KEY_QUEUE_LEN_def)

lemma kbd_full_iff:
  "kbd_inv q \<Longrightarrow> (key_r q + 1) mod KEY_QUEUE_LEN = key_f q \<longleftrightarrow> kbd_size q = KEY_QUEUE_LEN - 1"
  by (auto simp: kbd_inv_def kbd_size_def mod_Suc KEY_QUEUE_LEN_def)

lemma kbd_size_enqueue:
  assumes "kbd_inv q" and "kbd_size q < KEY_QUEUE_LEN - 1"
  shows "kbd_size (q\<lparr>key_queue := f, key_r := (key_r q + 1) mod KEY_QUEUE_LEN\<rparr>) = Suc (kbd_size q)"
  using assms by (auto simp: kbd_inv_def kbd_size_def mod_Suc KEY_QUEUE_LEN_def split: if_splits)

lemma kbd_slot_neq:
  assumes "kbd_inv q" and "i < kbd_size q"
  shows "(key_f q + i) mod KEY_QUEUE_LEN \<noteq> key_r q"
proof (cases "key_f q + i < KEY_QUEUE_LEN")
  case True
  then show ?thesis using assms by (auto simp: kbd_inv_def kbd_size_def split: if_splits)
next
  case False
  then have "key_f q + i - KEY_QUEUE_LEN < KEY_QUEUE_LEN"
    using assms by (auto simp: kbd_inv_def kbd_size_def split: if_splits)
  then have "(key_f q + i) mod KEY_QUEUE_LEN = key_f q + i - KEY_QUEUE_LEN"
    using False by (simp add: le_mod_geq)
  then show ?thesis using assms False by (auto simp: kbd_inv_def kbd_size_def split: if_splits)
qed

lemma key_enqueue_contents:
  assumes "kbd_inv q" and "kbd_size q < KEY_QUEUE_LEN - 1"
  shows "\<exists>q'. key_enqueue q k = Inr q' \<and> kbd_inv q' \<and> kbd_contents q' = kbd_contents q @ [k]"
proof -
  let ?q = "q\<lparr>key_queue := (key_queue q)(key_r q := k), key_r := (key_r q + 1) mod KEY_QUEUE_LEN\<rparr>"
  have eq: "key_enqueue q k = Inr ?q"
    using kbd_full_iff [OF assms(1)] assms(2) by (simp add: key_enqueue_def Let_def)
  have "map (\<lambda>i. ((key_queue q)(key_r q := k)) ((key_f q + i) mod KEY_QUEUE_LEN)) [0..<kbd_size q]
      = kbd_contents q"
    using kbd_slot_neq [OF assms(1)] by (auto simp: kbd_contents_def)
  then have "kbd_contents ?q = kbd_contents q @ [k]"
    using kbd_size_enqueue [OF assms] kbd_end [OF assms(1)] by (simp add: kbd_contents_def)
  then show ?thesis using eq kbd_inv_enqueue [OF assms(1) eq] by blast
qed

lemma key_dequeue_empty: "kbd_inv q \<Longrightarrow> kbd_contents q = [] \<Longrightarrow> key_dequeue q = (NEMU_KEY_NONE, q)"
  by (auto simp: key_dequeue_def kbd_contents_def kbd_inv_def kbd_size_def split: if_splits)

lemma key_dequeue_front:
  assumes "kbd_inv q" and "kbd_contents q = y # ys"
  shows "\<exists>q'. key_dequeue q = (y, q') \<and> kbd_inv q' \<and> kbd_contents q' = ys"
proof -
  let ?q = "q\<lparr>key_f := (key_f q + 1) mod KEY_QUEUE_LEN\<rparr>"
  have "0 < kbd_size q" using assms(2) by (metis length_kbd_contents length_greater_0_conv list.distinct(1))
  then obtain n where n: "kbd_size q = Suc n" using gr0_implies_Suc by blast
  have ne: "key_f q \<noteq> key_r q" using \<open>0 < kbd_size q\<close> by (auto simp: kbd_size_def)
  have sz: "kbd_size (q\<lparr>key_f := (key_f q + 1) mod KEY_QUEUE_LEN\<rparr>) = n"
    using assms(1) ne n by (auto simp: kbd_inv_def kbd_size_def mod_Suc KEY_QUEUE_LEN_def split: if_splits)
  have split: "[0..<Suc n] = 0 # map Suc [0..<n]" by (simp add: map_Suc_upt upt_conv_Cons)
  have "kbd_contents q = key_queue q (key_f q) #
      map (\<lambda>i. key_queue q ((key_f q + Suc i) mod KEY_QUEUE_LEN)) [0..<n]"
    using assms(1) by (simp add: kbd_contents_def n split comp_def kbd_inv_def del: upt_Suc)
  moreover have "kbd_contents ?q = map (\<lambda>i. key_queue q ((key_f q + Suc i) mod KEY_QUEUE_LEN)) [0..<n]"
    by (simp only: kbd_contents_def sz) (simp add: mod_simps)
  moreover have "kbd_inv ?q" using assms(1) by (simp add: kbd_inv_def KEY_QUEUE_LEN_def)
  ultimately show ?thesis using assms(2) ne by (simp add: key_dequeue_def)
qed

interpretation kbq: fifo key_enqueue key_dequeue kbd_contents kbd_inv "KEY_QUEUE_LEN - 1" NEMU_KEY_NONE
proof unfold_locales
  fix q x
  assume "kbd_inv q" and "length (kbd_contents q) < KEY_QUEUE_LEN - 1"
  then show "\<exists>q'. key_enqueue q x = Inr q' \<and> kbd_inv q' \<and> kbd_contents q' = kbd_contents q @ [x]"
    using key_enqueue_contents by simp
next
  fix q x
  assume "kbd_inv q" and "length (kbd_contents q) \<ge> KEY_QUEUE_LEN - 1"
  then have "(key_r q + 1) mod KEY_QUEUE_LEN = key_f q"
    using kbd_full_iff kbd_size_less [of q] by simp
  then show "\<exists>e. key_enqueue q x = Inl e" by (simp add: key_enqueue_def Let_def)
qed (rule key_dequeue_empty key_dequeue_front; assumption)+

lemma init_keymap_from_other:
  "sc k \<notin> sc ` set ks \<Longrightarrow> init_keymap_from sc c ks km (sc k) = km (sc k)"
  by (induction ks arbitrary: c km) auto

lemma init_keymap_from_nth:
  "inj_on sc (set ks) \<Longrightarrow> distinct ks \<Longrightarrow> i < length ks \<Longrightarrow>
   init_keymap_from sc c ks km (sc (ks ! i)) = c + of_nat i"
proof (induction ks arbitrary: c km i)
  case Nil
  then show ?case by simp
next
  case (Cons k ks)
  show ?case
  proof (cases i)
    case 0
    have "sc k \<notin> sc ` set ks" using Cons.prems(1,2) by (auto simp: inj_on_def)
    then show ?thesis by (simp add: 0 init_keymap_from_other)
  next
    case (Suc j)
    then show ?thesis using Cons by (simp add: ac_simps)
  qed
qed

text \<open>With distinct scancodes, each key's scancode yields its number in the enumeration.\<close>

lemma distinct_NEMU_KEYS: "distinct NEMU_KEYS" and length_NEMU_KEYS: "length NEMU_KEYS = 82"
  by (simp_all add: NEMU_KEYS_def)

lemma init_keymap_nth:
  "inj_on sc (set NEMU_KEYS) \<Longrightarrow> i < 82 \<Longrightarrow> keymap (init_keymap sc q) (sc (NEMU_KEYS ! i)) = of_nat (i + 1)"
  using init_keymap_from_nth [OF _ distinct_NEMU_KEYS, of sc i 1 "keymap q"]
  by (simp add: init_keymap_def length_NEMU_KEYS)

lemma i8042_same_maps [keeps]: "i8042_data_io_handler off len is_write m = Inr m' \<Longrightarrow> same_maps m m'"
  by (auto simp: i8042_data_io_handler_def same_maps_def res_simps split: prod.splits)

text \<open>
  What the guest sees: reading the keyboard register delivers the oldest pending event and
  removes it, or \<^verbatim>\<open>NEMU_KEY_NONE\<close> when there is none.
\<close>

lemma i8042_read:
  assumes "kbd_inv (kbd m)" and "i8042_base m + 4 \<le> IO_SPACE_MAX"
  shows "\<exists>m'. i8042_data_io_handler 0 len False m = Inr m' \<and> kbd_inv (kbd m') \<and>
    le_read (io_space m') (i8042_base m) 4 =
      (case kbd_contents (kbd m) of [] \<Rightarrow> NEMU_KEY_NONE | k # _ \<Rightarrow> k) \<and>
    kbd_contents (kbd m') = tl (kbd_contents (kbd m))"
proof (cases "kbd_contents (kbd m)")
  case Nil
  with kbq.deq_empty [OF assms(1)] assms show ?thesis
    by (simp add: i8042_data_io_handler_def dev_poke_def le_read_write_same)
next
  case (Cons k ks)
  with kbq.deq_front [OF assms(1)] obtain q where
    "key_dequeue (kbd m) = (k, q)" "kbd_inv q" "kbd_contents q = ks" by blast
  with Cons assms(2) show ?thesis
    by (simp add: i8042_data_io_handler_def dev_poke_def le_read_write_same)
qed

end
