(* ===== verification/Timers.thy ===== *)
theory Timers
  imports DevState
begin

text \<open>
  The timer devices: \<^verbatim>\<open>src/device/clint.c\<close> (the RISC-V core-local interruptor with
  \<^verbatim>\<open>mtime\<close> and \<^verbatim>\<open>mtimecmp\<close>), \<^verbatim>\<open>timer.c\<close> (the real-time clock), \<^verbatim>\<open>syscon.c\<close>, \<^verbatim>\<open>alarm.c\<close>
  and \<^verbatim>\<open>intr.c\<close>.
\<close>

unbundle bit_operations_syntax

section \<open>clint.c\<close>

definition MTIMECMPLO :: nat where "MTIMECMPLO = 0x4000"
definition MTIMECMPHI :: nat where "MTIMECMPHI = 0x4004"
definition MTIMELO :: nat where "MTIMELO = 0xBFF8"
definition MTIMEHI :: nat where "MTIMEHI = 0xBFFC"

text \<open>The handler's body is commented out in the source.\<close>

definition clint_io_handler :: "u32 \<Rightarrow> nat \<Rightarrow> bool \<Rightarrow> ('a) devs_scheme \<Rightarrow> ('a) devs_scheme res" where
  "clint_io_handler off len is_write m = Inr m"

definition clint_update :: "config \<Rightarrow> host_env \<Rightarrow> ('a) devs_scheme \<Rightarrow> ('a) devs_scheme res" where
  "clint_update c E m =
     (if cfg_difftest c = DIFFTEST_REF_MINIRV32I
      then (case get_time E m of (us, m1) \<Rightarrow> dev_poke (clint_base m1 + MTIMELO) 8 us m1)
      else bindE (dev_peek m (clint_base m + MTIMELO) 8)
             (\<lambda>t :: u64. dev_poke (clint_base m + MTIMELO) 8 (t + 1) m))"

definition init_clint :: "('a) devs_scheme \<Rightarrow> ('a) devs_scheme res" where
  "init_clint m =
     bindE (new_space 8 m) (\<lambda>(p, m).
     bindE (add_mmio_map ''clint'' CONFIG_CLINT_MMIO p 0x10000 CB_clint (m\<lparr>clint_base := p\<rparr>)) (\<lambda>m.
     bindE (dev_poke (p + MTIMECMPLO) 8 (NOT 0 :: u64) m) (\<lambda>m.
     dev_poke (p + MTIMELO) 8 (0 :: u64) m)))"

section \<open>syscon.c\<close>

definition syscon_io_handler :: "u32 \<Rightarrow> nat \<Rightarrow> bool \<Rightarrow> ('a) devs_scheme \<Rightarrow> ('a) devs_scheme res" where
  "syscon_io_handler off len is_write m =
     bindE (assertE (off = 0 \<or> off = 4) ''offset == 0 || offset == 4'') (\<lambda>_.
     if is_write \<and> off = 0
     then bindE (dev_peek m (syscon_base m) 4) (\<lambda>v :: u32.
            if v = 0x7777 then Inr (emit (OutMsg ''reboot'' []) m)
            else if v = 0x5555 then Inr (emit (OutMsg ''shutdown'' []) m)
            else Inr m)
     else Inr m)"

definition init_syscon :: "('a) devs_scheme \<Rightarrow> ('a) devs_scheme res" where
  "init_syscon m =
     bindE (new_space 8 m) (\<lambda>(p, m).
     add_mmio_map ''syscon'' CONFIG_SYSCON_MMIO p 0x1000 CB_syscon (m\<lparr>syscon_base := p\<rparr>))"

section \<open>alarm.c and intr.c\<close>

definition TIMER_HZ :: u64 where "TIMER_HZ = 60"
definition MAX_HANDLER :: nat where "MAX_HANDLER = 8"

definition dev_raise_intr :: "('a) devs_scheme \<Rightarrow> ('a) devs_scheme" where
  "dev_raise_intr m = m"

definition add_alarm_handle :: "alarm_handler \<Rightarrow> ('a) devs_scheme \<Rightarrow> ('a) devs_scheme res" where
  "add_alarm_handle h m =
     bindE (assertE (length (alarm_handlers m) < MAX_HANDLER) ''idx < MAX_HANDLER'') (\<lambda>_.
     Inr (m\<lparr>alarm_handlers := alarm_handlers m @ [h]\<rparr>))"

definition timer_intr :: "('a) devs_scheme \<Rightarrow> ('a) devs_scheme" where
  "timer_intr m = (if nemu_state m = NEMU_RUNNING then dev_raise_intr m else m)"

fun run_alarm_handler :: "alarm_handler \<Rightarrow> ('a) devs_scheme \<Rightarrow> ('a) devs_scheme" where
  "run_alarm_handler AH_timer_intr m = timer_intr m"

definition alarm_sig_handler :: "('a) devs_scheme \<Rightarrow> ('a) devs_scheme" where
  "alarm_sig_handler m = fold run_alarm_handler (alarm_handlers m) m"

text \<open>Registering the signal and starting the interval timer are calls to the system.\<close>

definition init_alarm :: "host_env \<Rightarrow> ('a) devs_scheme \<Rightarrow> ('a) devs_scheme res" where
  "init_alarm E m = bindE (assertE (env_alarm_ok E) ''Can not set timer'') (\<lambda>_. Inr m)"

section \<open>timer.c\<close>

definition rtc_io_handler :: "host_env \<Rightarrow> u32 \<Rightarrow> nat \<Rightarrow> bool \<Rightarrow> ('a) devs_scheme \<Rightarrow> ('a) devs_scheme res" where
  "rtc_io_handler E off len is_write m =
     bindE (assertE (off = 0 \<or> off = 4) ''offset == 0 || offset == 4'') (\<lambda>_.
     if \<not> is_write \<and> off = 4
     then (case get_time E m of (us, m1) \<Rightarrow>
            bindE (dev_poke (rtc_base m1) 4 (ucast us :: u32) m1)
              (dev_poke (rtc_base m1 + 4) 4 (ucast (drop_bit 32 us) :: u32)))
     else Inr m)"

definition init_timer :: "('a) devs_scheme \<Rightarrow> ('a) devs_scheme res" where
  "init_timer m =
     bindE (new_space 8 m) (\<lambda>(p, m).
     bindE (add_mmio_map ''rtc'' CONFIG_RTC_MMIO p 8 CB_rtc (m\<lparr>rtc_base := p\<rparr>)) (\<lambda>m.
     add_alarm_handle AH_timer_intr m))"

section \<open>Lemmas\<close>

text \<open>Without the difftest reference the clock advances by one each update, wrapping at 64 bits.\<close>

lemma clint_update_ticks:
  assumes "cfg_difftest c \<noteq> DIFFTEST_REF_MINIRV32I" and "clint_update c E m = Inr m'"
  shows "le_read (io_space m') (clint_base m + MTIMELO) 8 =
    (le_read (io_space m) (clint_base m + MTIMELO) 8 :: u64) + 1"
  using assms by (auto simp: clint_update_def res_simps le_read_write_same)

text \<open>Reading the high half latches one sample of the clock into both halves.\<close>

lemma get_time_rtc_base [simp]: "rtc_base (snd (get_time E m)) = rtc_base m"
  by (simp add: get_time_def get_time_internal_def host_call_def Let_def split: prod.splits)

lemma rtc_latch:
  assumes "rtc_io_handler E 4 len False m = Inr m'"
  shows "le_read (io_space m') (rtc_base m) 4 = (ucast (fst (get_time E m)) :: u32)"
    and "le_read (io_space m') (rtc_base m + 4) 4 = (ucast (drop_bit 32 (fst (get_time E m))) :: u32)"
proof -
  obtain us m1 where us: "get_time E m = (us, m1)" by (cases "get_time E m")
  then have "rtc_base m1 = rtc_base m" using get_time_rtc_base [of E m] by simp
  with assms us have "io_space m' = le_write (le_write (io_space m1) (rtc_base m) 4 (ucast us :: u32))
      (rtc_base m + 4) 4 (ucast (drop_bit 32 us) :: u32)"
    by (auto simp: rtc_io_handler_def res_simps)
  then show "le_read (io_space m') (rtc_base m) 4 = (ucast (fst (get_time E m)) :: u32)"
    and "le_read (io_space m') (rtc_base m + 4) 4 = (ucast (drop_bit 32 (fst (get_time E m))) :: u32)"
    by (simp_all add: us le_read_write_same le_read_write_other)
qed

text \<open>The alarm handlers do nothing: interrupts are polled from the CLINT instead.\<close>

lemma run_alarm_handler_id: "run_alarm_handler h m = m"
  by (cases h) (simp add: timer_intr_def dev_raise_intr_def)

lemma alarm_sig_handler_id: "alarm_sig_handler m = m"
proof -
  have "fold run_alarm_handler hs m = m" for hs
    by (induction hs arbitrary: m) (simp_all add: run_alarm_handler_id)
  then show ?thesis by (simp add: alarm_sig_handler_def)
qed

lemma clint_io_handler_same_maps [keeps]: "clint_io_handler off len is_write m = Inr m' \<Longrightarrow> same_maps m m'"
  by (simp add: clint_io_handler_def)

lemma syscon_io_handler_same_maps [keeps]: "syscon_io_handler off len is_write m = Inr m' \<Longrightarrow> same_maps m m'"
  by (auto simp: syscon_io_handler_def same_maps_def emit_def res_simps split: if_splits)

lemma rtc_io_handler_same_maps [keeps]: "rtc_io_handler E off len is_write m = Inr m' \<Longrightarrow> same_maps m m'"
  using get_time_same_maps [of m E]
  by (auto simp: rtc_io_handler_def same_maps_def res_simps case_prod_beta split: if_splits)

lemma clint_update_same_maps [keeps]: "clint_update c E m = Inr m' \<Longrightarrow> same_maps m m'"
  using get_time_same_maps [of m E]
  by (auto simp: clint_update_def same_maps_def res_simps case_prod_beta split: if_splits)

end
