(* ===== verification/Serial.thy ===== *)
theory Serial
  imports DevState
begin

text \<open>
  The 16550-like UART, \<^verbatim>\<open>src/device/serial.c\<close>. The terminal mode changes of
  \<^verbatim>\<open>CaptureKeyboardInput\<close> are calls to the system without a counterpart in the state.
\<close>

unbundle bit_operations_syntax

section \<open>Input from the terminal\<close>

text \<open>\<^verbatim>\<open>IsKBHit\<close> returns -1 at the end of the input, else whether bytes wait.\<close>

definition IsKBHit :: "host_env \<Rightarrow> ('a) devs_scheme \<Rightarrow> int \<times> ('a) devs_scheme" where
  "IsKBHit E m =
     (if is_eofd m then (-1, m)
      else case host_call (env_bytes_waiting E) m of (byteswaiting, m1) \<Rightarrow>
        if byteswaiting then (1, m1)
        else case host_call (env_stdin_open E) m1 of (ok, m2) \<Rightarrow>
          if \<not> ok then (-1, m2\<lparr>is_eofd := True\<rparr>) else (0, m2))"

definition ReadKBByte :: "host_env \<Rightarrow> ('a) devs_scheme \<Rightarrow> ('a) devs_scheme res" where
  "ReadKBByte E m =
     (if is_eofd m then Inr m
      else case host_call (env_stdin E) m of
        (Some rxchar, m1) \<Rightarrow> dev_poke (serial_base m1 + unat (UART_RX (env_serial_reg E))) 1 rxchar m1
      | (None, m1) \<Rightarrow> Inr m1)"

definition serial_putc :: "u8 \<Rightarrow> ('a) devs_scheme \<Rightarrow> ('a) devs_scheme" where
  "serial_putc ch m = emit (OutChar ch) m"

definition serial_getc :: "host_env \<Rightarrow> ('a) devs_scheme \<Rightarrow> ('a) devs_scheme res" where
  "serial_getc E m = (case IsKBHit E m of (k, m1) \<Rightarrow> if k \<noteq> 0 then ReadKBByte E m1 else Inr m1)"

section \<open>The register block\<close>

definition CH_OFFSET :: u32 where "CH_OFFSET = 0"

text \<open>One function per case of the switch; \<open>v\<close> is the byte at the offset.\<close>

definition fcr_case :: "serial_reg \<Rightarrow> u32 \<Rightarrow> bool \<Rightarrow> u8 \<Rightarrow> ('a) devs_scheme \<Rightarrow> ('a) devs_scheme res" where
  "fcr_case R off is_write v m =
     (let fifo = UART_FCR_ENABLE_FIFO R; rcvr = UART_FCR_CLEAR_RCVR R; xmit = UART_FCR_CLEAR_XMIT R;
          trig = UART_FCR_TRIGGER_4 R;
          m1 = (if is_write \<and> v AND (fifo OR rcvr OR xmit OR trig) \<noteq> 0 then emit (OutMsg ''FIFO init'' []) m
                else if is_write \<and> v AND fifo \<noteq> 0 then emit (OutMsg ''Enable FIFO's'' []) m
                else if is_write \<and> v AND rcvr \<noteq> 0 then emit (OutMsg ''Clear receiver FIFO'' []) m
                else if is_write \<and> v AND xmit \<noteq> 0 then emit (OutMsg ''Clear transmitter FIFO'' []) m
                else if is_write \<and> v AND trig \<noteq> 0 then emit (OutMsg ''Set FIFO trigger at 4-bytes'' []) m
                else m)
      in dev_poke (serial_base m1 + unat off) 1 (0 :: u8) m1)"

definition lcr_case :: "serial_reg \<Rightarrow> u32 \<Rightarrow> bool \<Rightarrow> u8 \<Rightarrow> ('a) devs_scheme \<Rightarrow> ('a) devs_scheme res" where
  "lcr_case R off is_write v m =
     (if is_write
      then (let m1 = emit (OutMsg ''write uart lcr val is %02x'' [ucast v]) m in
        if v = UART_LCR_WLEN8 R
        then dev_poke (serial_base m1 + unat off) 1 (0 :: u8) (emit (OutMsg ''uart set 8n1 mode'' []) m1)
        else Inr m1)
      else Inr (emit (OutMsg ''read uart lcr val is %02x'' [ucast v]) m))"

definition lsr_case :: "host_env \<Rightarrow> u32 \<Rightarrow> bool \<Rightarrow> u8 \<Rightarrow> ('a) devs_scheme \<Rightarrow> ('a) devs_scheme res" where
  "lsr_case E off is_write v m =
     (if is_write then Inr (emit (OutMsg ''write uart lsr val is %02x'' [ucast v]) m)
      else (case IsKBHit E (emit (OutMsg ''read uart lsr val is %02x'' [ucast v]) m) of (k, m1) \<Rightarrow>
        dev_poke (serial_base m1 + unat off) 1
          (UART_LSR_TEMT (env_serial_reg E) OR UART_LSR_THRE (env_serial_reg E) OR word_of_int k) m1))"

definition ier_case :: "serial_reg \<Rightarrow> bool \<Rightarrow> u8 \<Rightarrow> ('a) devs_scheme \<Rightarrow> ('a) devs_scheme res" where
  "ier_case R is_write v m =
     (let m1 = (if is_write \<and> v AND UART_IER_RDI R \<noteq> 0
                then emit (OutMsg ''Enable receiver data interrupt'' []) m
                else if is_write \<and> v AND UART_IER_THRI R \<noteq> 0
                then emit (OutMsg ''Enable Transmitter holding register int'' []) m
                else if is_write \<and> v AND UART_IER_RLSI R \<noteq> 0
                then emit (OutMsg ''Enable receiver line status interrupt'' []) m
                else if is_write \<and> v AND UART_IER_MSI R \<noteq> 0
                then emit (OutMsg ''Enable Modem status interrupt'' []) m
                else m)
      in bindE (dev_poke (serial_base m1 + unat (UART_IER R)) 1 (0 :: u8) m1)
           (\<lambda>m2. Inr (emit (OutMsg ''UART IER NULL'' []) m2)))"

definition mcr_case :: "serial_reg \<Rightarrow> bool \<Rightarrow> u8 \<Rightarrow> ('a) devs_scheme \<Rightarrow> ('a) devs_scheme res" where
  "mcr_case R is_write v m =
     (let m1 = (if is_write then emit (OutMsg ''uart MCR val is %02x !! null'' [ucast v]) m else m)
      in dev_poke (serial_base m1 + unat (UART_MCR R)) 1 (0 :: u8) m1)"

definition serial_io_handler :: "host_env \<Rightarrow> u32 \<Rightarrow> nat \<Rightarrow> bool \<Rightarrow> ('a) devs_scheme \<Rightarrow> ('a) devs_scheme res" where
  "serial_io_handler E off len is_write m =
     (let R = env_serial_reg E in
      bindE (dev_peek m (serial_base m + unat off) 1) (\<lambda>v :: u8.
      if off = CH_OFFSET then
        (if is_write
         then bindE (dev_peek m (serial_base m) 1) (\<lambda>ch. Inr (serial_putc ch m))
         else serial_getc E m)
      else if off = UART_FCR R then fcr_case R off is_write v m
      else if off = UART_LCR R then lcr_case R off is_write v m
      else if off = UART_LSR R then lsr_case E off is_write v m
      else if off = UART_IER R then ier_case R is_write v m
      else if off = UART_MCR R then mcr_case R is_write v m
      else if off = UART_MSR R then dev_poke (serial_base m + unat (UART_MSR R)) 1 (0 :: u8) m
      else dev_poke (serial_base m + unat off) 1 (0 :: u8)
             (emit (OutMsg ''other offset %02x write is %d val is %d %c''
                [off, of_bool is_write, ucast v, ucast v]) m)))"

definition init_serial :: "host_env \<Rightarrow> ('a) devs_scheme \<Rightarrow> ('a) devs_scheme res" where
  "init_serial E m =
     bindE (new_space 8 m) (\<lambda>(p, m).
     bindE (add_mmio_map ''serial'' CONFIG_SERIAL_MMIO p 0x1000 CB_serial (m\<lparr>serial_base := p\<rparr>)) (\<lambda>m.
     dev_poke (p + unat (UART_LSR (env_serial_reg E))) 1
       (UART_LSR_TEMT (env_serial_reg E) OR UART_LSR_THRE (env_serial_reg E)) m))"

section \<open>Lemmas\<close>

lemmas serial_case_defs =
  fcr_case_def lcr_case_def lsr_case_def ier_case_def mcr_case_def serial_getc_def ReadKBByte_def
  IsKBHit_def serial_putc_def emit_def host_call_def

text \<open>A byte stored to the data register is the next character on the terminal.\<close>

lemma serial_write_char:
  assumes "serial_base m < IO_SPACE_MAX"
  shows "serial_io_handler E 0 len True m =
    Inr (m\<lparr>console := console m @ [OutChar (io_space m (serial_base m))]\<rparr>)"
  using assms
  by (simp add: serial_io_handler_def dev_peek_def CH_OFFSET_def serial_putc_def emit_def Let_def)

text \<open>No case of the switch touches the address maps.\<close>

lemma serial_io_handler_same_maps [keeps]:
  "serial_io_handler E off len is_write m = Inr m' \<Longrightarrow> same_maps m m'"
  by (auto simp: serial_io_handler_def serial_case_defs same_maps_def Let_def res_simps
      split: if_splits option.splits prod.splits)

end
