(* ===== verification/Sdcard.thy ===== *)
theory Sdcard
  imports DevState
begin

text \<open>
  The SD host controller and card, \<^verbatim>\<open>src/device/sdcard.c\<close>, with the commands of \<^verbatim>\<open>mmc.h\<close>
  it handles. The image is a stdio stream opened \<^verbatim>\<open>"r+"\<close>: a list of bytes and a position;
  a read at the end delivers what is left, a write past the end extends the file with zeros.
\<close>

unbundle bit_operations_syntax

section \<open>Constants\<close>

definition MEMORY_SIZE :: u64 where "MEMORY_SIZE = 16 * 1024 * 1024 * 1024"
definition READ_BL_LEN :: u32 where "READ_BL_LEN = 15"
definition BLOCK_LEN :: u64 where "BLOCK_LEN = push_bit 15 1"
definition NR_BLOCK :: u64 where "NR_BLOCK = MEMORY_SIZE div BLOCK_LEN"
definition C_SIZE_MULT :: nat where "C_SIZE_MULT = 7"
definition MULT :: u64 where "MULT = push_bit (C_SIZE_MULT + 2) 1"
definition C_SIZE :: u64 where "C_SIZE = NR_BLOCK div MULT - 1"

definition SDCMD :: nat where "SDCMD = 0"
definition SDARG :: nat where "SDARG = 1"
definition SDRSP0 :: nat where "SDRSP0 = 4"
definition SDRSP1 :: nat where "SDRSP1 = 5"
definition SDRSP2 :: nat where "SDRSP2 = 6"
definition SDRSP3 :: nat where "SDRSP3 = 7"
definition SDDATA :: nat where "SDDATA = 16"

definition MMC_GO_IDLE_STATE :: u32 where "MMC_GO_IDLE_STATE = 0"
definition MMC_SEND_OP_COND :: u32 where "MMC_SEND_OP_COND = 1"
definition MMC_ALL_SEND_CID :: u32 where "MMC_ALL_SEND_CID = 2"
definition MMC_SET_RELATIVE_ADDR :: u32 where "MMC_SET_RELATIVE_ADDR = 3"
definition MMC_SLEEP_AWAKE :: u32 where "MMC_SLEEP_AWAKE = 5"
definition MMC_SELECT_CARD :: u32 where "MMC_SELECT_CARD = 7"
definition MMC_SEND_EXT_CSD :: u32 where "MMC_SEND_EXT_CSD = 8"
definition MMC_SEND_CSD :: u32 where "MMC_SEND_CSD = 9"
definition MMC_STOP_TRANSMISSION :: u32 where "MMC_STOP_TRANSMISSION = 12"
definition MMC_SEND_STATUS :: u32 where "MMC_SEND_STATUS = 13"
definition MMC_READ_MULTIPLE_BLOCK :: u32 where "MMC_READ_MULTIPLE_BLOCK = 18"
definition MMC_SET_BLOCK_COUNT :: u32 where "MMC_SET_BLOCK_COUNT = 23"
definition MMC_WRITE_MULTIPLE_BLOCK :: u32 where "MMC_WRITE_MULTIPLE_BLOCK = 25"
definition MMC_APP_CMD :: u32 where "MMC_APP_CMD = 55"

lemmas sd_regs = SDCMD_def SDARG_def SDRSP0_def SDRSP1_def SDRSP2_def SDRSP3_def SDDATA_def
lemmas mmc_cmds =
  MMC_GO_IDLE_STATE_def MMC_SEND_OP_COND_def MMC_ALL_SEND_CID_def MMC_SET_RELATIVE_ADDR_def
  MMC_SLEEP_AWAKE_def MMC_SELECT_CARD_def MMC_SEND_EXT_CSD_def MMC_SEND_CSD_def
  MMC_STOP_TRANSMISSION_def MMC_SEND_STATUS_def MMC_READ_MULTIPLE_BLOCK_def
  MMC_SET_BLOCK_COUNT_def MMC_WRITE_MULTIPLE_BLOCK_def MMC_APP_CMD_def

section \<open>The image file\<close>

definition sd_init :: "host_env \<Rightarrow> sdcard" where
  "sd_init E = \<lparr>sd_file = env_sd_image E, sd_pos = 0, sd_blkcnt = 0, sd_blk_addr = 0, sd_addr = 0,
     sd_write_cmd = False, sd_read_ext_csd = False\<rparr>"

definition stream_read :: "u8 list \<Rightarrow> nat \<Rightarrow> nat \<Rightarrow> u8 list" where
  "stream_read f pos n = take n (drop pos f)"

definition stream_write :: "u8 list \<Rightarrow> nat \<Rightarrow> u8 list \<Rightarrow> u8 list" where
  "stream_write f pos bs =
     take pos (f @ replicate (pos - length f) 0) @ bs @ drop (pos + length bs) f"

fun store_list :: "bytes \<Rightarrow> nat \<Rightarrow> u8 list \<Rightarrow> bytes" where
  "store_list f a [] = f"
| "store_list f a (b # bs) = store_list (f(a := b)) (Suc a) bs"

section \<open>Operations\<close>

definition sd_reg :: "('a) devs_scheme \<Rightarrow> nat \<Rightarrow> u32 res" where
  "sd_reg m i = dev_peek m (sd_base m + 4 * i) 4"

definition sd_set :: "nat \<Rightarrow> u32 \<Rightarrow> ('a) devs_scheme \<Rightarrow> ('a) devs_scheme res" where
  "sd_set i v m = dev_poke (sd_base m + 4 * i) 4 v m"

definition prepare_rw :: "bool \<Rightarrow> ('a) devs_scheme \<Rightarrow> ('a) devs_scheme res" where
  "prepare_rw is_write m =
     bindE (sd_reg m SDARG) (\<lambda>a.
     Inr (m\<lparr>sd := (sd m)\<lparr>sd_blk_addr := a, sd_addr := 0,
       sd_pos := (if sd_file (sd m) = None then sd_pos (sd m) else unat a * 512),
       sd_write_cmd := is_write\<rparr>\<rparr>))"

definition sd_set4 :: "u32 \<Rightarrow> u32 \<Rightarrow> u32 \<Rightarrow> u32 \<Rightarrow> ('a) devs_scheme \<Rightarrow> ('a) devs_scheme res" where
  "sd_set4 a b c d m =
     bindE (sd_set SDRSP0 a m) (\<lambda>m. bindE (sd_set SDRSP1 b m) (\<lambda>m.
     bindE (sd_set SDRSP2 c m) (\<lambda>m. sd_set SDRSP3 d m)))"

definition sdcard_handle_cmd :: "u32 \<Rightarrow> ('a) devs_scheme \<Rightarrow> ('a) devs_scheme res" where
  "sdcard_handle_cmd cmd m =
     (if cmd = MMC_GO_IDLE_STATE then Inr m
      else if cmd = MMC_SEND_OP_COND then sd_set SDRSP0 0x80ff8000 m
      else if cmd = MMC_ALL_SEND_CID then sd_set4 1 0 0 0x15000000 m
      else if cmd = 52 then Inr m
      else if cmd = MMC_SEND_CSD then
        sd_set4 0x92404001 (0x124b97e3 OR ucast (push_bit 30 (C_SIZE AND 3)))
          (0x0f508000 OR ucast (drop_bit 2 C_SIZE) OR push_bit 16 READ_BL_LEN) 0x9026012a m
      else if cmd = MMC_SEND_EXT_CSD then Inr (m\<lparr>sd := (sd m)\<lparr>sd_read_ext_csd := True, sd_addr := 0\<rparr>\<rparr>)
      else if cmd = MMC_SLEEP_AWAKE then Inr m
      else if cmd = MMC_APP_CMD then Inr m
      else if cmd = MMC_SET_RELATIVE_ADDR then Inr m
      else if cmd = MMC_SELECT_CARD then Inr m
      else if cmd = MMC_SET_BLOCK_COUNT then
        bindE (sd_reg m SDARG) (\<lambda>a. Inr (m\<lparr>sd := (sd m)\<lparr>sd_blkcnt := a AND 0xffff\<rparr>\<rparr>))
      else if cmd = MMC_READ_MULTIPLE_BLOCK then prepare_rw False m
      else if cmd = MMC_WRITE_MULTIPLE_BLOCK then prepare_rw True m
      else if cmd = MMC_SEND_STATUS then sd_set4 0x900 0 0 0 m
      else if cmd = MMC_STOP_TRANSMISSION then Inr m
      else Inl (Assert_fail ''unhandled command''))"

text \<open>The \<^verbatim>\<open>SDDATA\<close> case: a word of EXT\_CSD, or a word from or to the image.\<close>

definition ext_csd_word :: "u32 \<Rightarrow> u32" where
  "ext_csd_word a = (if a = 192 then 2 else if a = 212 then ucast (MEMORY_SIZE div 512) else 0)"

definition sd_data :: "('a) devs_scheme \<Rightarrow> ('a) devs_scheme res" where
  "sd_data m =
     bindE
       (if sd_read_ext_csd (sd m) then
          bindE (sd_set SDDATA (ext_csd_word (sd_addr (sd m))) m) (\<lambda>m1.
          Inr (if sd_addr (sd m1) = 512 - 4 then m1\<lparr>sd := (sd m1)\<lparr>sd_read_ext_csd := False\<rparr>\<rparr> else m1))
        else case sd_file (sd m) of
          None \<Rightarrow> Inr m
        | Some f \<Rightarrow>
            bindE (in_object IO_SPACE_MAX (sd_base m + 4 * SDDATA) 4) (\<lambda>_.
            if \<not> sd_write_cmd (sd m) then
              (let bs = stream_read f (sd_pos (sd m)) 4
               in Inr (m\<lparr>io_space := store_list (io_space m) (sd_base m + 4 * SDDATA) bs,
                         sd := (sd m)\<lparr>sd_pos := sd_pos (sd m) + length bs\<rparr>\<rparr>))
            else
              (let bs = map (\<lambda>i. io_space m (sd_base m + 4 * SDDATA + i)) [0..<4]
               in Inr (m\<lparr>sd := (sd m)\<lparr>sd_file := Some (stream_write f (sd_pos (sd m)) bs),
                         sd_pos := sd_pos (sd m) + 4\<rparr>\<rparr>))))
       (\<lambda>m2. Inr (m2\<lparr>sd := (sd m2)\<lparr>sd_addr := sd_addr (sd m2) + 4\<rparr>\<rparr>))"

definition sdcard_io_handler :: "u32 \<Rightarrow> nat \<Rightarrow> bool \<Rightarrow> ('a) devs_scheme \<Rightarrow> ('a) devs_scheme res" where
  "sdcard_io_handler off len is_write m =
     (let idx = unat off div 4 in
      if idx = SDCMD then bindE (sd_reg m SDCMD) (\<lambda>v. sdcard_handle_cmd (v AND 0x3f) m)
      else if idx \<in> {SDARG, SDRSP0, SDRSP1, SDRSP2, SDRSP3} then Inr m
      else if idx = SDDATA then sd_data m
      else Inl (Assert_fail ''unhandle offset''))"

definition init_sdcard :: "host_env \<Rightarrow> ('a) devs_scheme \<Rightarrow> ('a) devs_scheme res" where
  "init_sdcard E m =
     bindE (new_space 0x80 m) (\<lambda>(p, m).
     bindE (add_mmio_map ''sdhci'' CONFIG_SDCARD_CTL_MMIO p 0x80 CB_sdcard (m\<lparr>sd_base := p\<rparr>)) (\<lambda>m.
     bindE (assertE (C_SIZE < push_bit 12 1) ''shoule be fit in 12 bits'') (\<lambda>_.
     let m1 = m\<lparr>sd := (sd m)\<lparr>sd_file := env_sd_image E, sd_pos := 0\<rparr>\<rparr>
     in Inr (if env_sd_image E = None then emit (OutMsg ''Can not find sdcard image: %s'' []) m1 else m1))))"

section \<open>Lemmas\<close>

lemmas sd_reg_simps = sd_reg_def sd_set_def sd_set4_def dev_peek_def dev_poke_def

lemma sd_set_kept [kept_intros]: "kept m (sd_set i v m)"
  unfolding sd_set_def by (rule kept_poke)

lemma sd_set4_kept [kept_intros]: "kept m (sd_set4 a b c d m)"
  unfolding sd_set4_def by (rule kept_seq kept_poke sd_set_kept)+

lemma sdcard_handle_cmd_kept [kept_intros]: "kept m (sdcard_handle_cmd cmd m)"
  unfolding sdcard_handle_cmd_def prepare_rw_def
  by (intro kept_intros same_maps_refl) (simp_all add: same_maps_def)

lemma sd_data_kept [kept_intros]: "kept m (sd_data m)"
  unfolding sd_data_def kept_def
  by (auto simp: sd_set_def res_simps same_maps_def Let_def split: if_splits option.splits)

lemma sdcard_io_handler_same_maps [keeps]:
  assumes "sdcard_io_handler off len is_write m = Inr m'" shows "same_maps m m'"
  using assms
  by (rule keptD [rotated]) (auto simp: sdcard_io_handler_def Let_def intro!: kept_intros)

text \<open>Reading the data register \<open>n\<close> times, collecting the words the guest sees.\<close>

fun sd_read_words :: "nat \<Rightarrow> ('a) devs_scheme \<Rightarrow> (u32 list \<times> ('a) devs_scheme) res" where
  "sd_read_words 0 m = Inr ([], m)"
| "sd_read_words (Suc n) m =
     bindE (sdcard_io_handler 64 4 False m) (\<lambda>m1.
     bindE (sd_reg m1 SDDATA) (\<lambda>w.
     bindE (sd_read_words n m1) (\<lambda>(ws, m2). Inr (w # ws, m2))))"

definition bytes_word :: "u8 list \<Rightarrow> u32" where
  "bytes_word bs = le_read (\<lambda>i. bs ! i) 0 4"

lemma store_list_apply:
  "store_list f a bs b = (if a \<le> b \<and> b < a + length bs then bs ! (b - a) else f b)"
proof (induction bs arbitrary: f a)
  case Nil
  then show ?case by auto
next
  case (Cons x bs)
  show ?case by (cases "a = b") (auto simp: Cons nth_Cons')
qed

lemma le_read_store_list:
  assumes "length bs = 4"
  shows "le_read (store_list f a bs) a 4 = bytes_word bs"
  unfolding bytes_word_def
  by (rule bit_word_eqI) (auto simp: bit_le_read_iff store_list_apply assms)

text \<open>One word of a multiple-block read.\<close>

lemma sd_data_read:
  assumes "\<not> sd_read_ext_csd (sd m)" and "\<not> sd_write_cmd (sd m)" and "sd_file (sd m) = Some f"
    and "sd_pos (sd m) + 4 \<le> length f" and "sd_base m + 0x80 \<le> IO_SPACE_MAX"
  shows "\<exists>m'. sdcard_io_handler 64 4 False m = Inr m' \<and>
    sd_reg m' SDDATA = Inr (bytes_word (take 4 (drop (sd_pos (sd m)) f))) \<and>
    sd m' = (sd m)\<lparr>sd_pos := sd_pos (sd m) + 4, sd_addr := sd_addr (sd m) + 4\<rparr> \<and> sd_base m' = sd_base m"
proof -
  have "length (stream_read f (sd_pos (sd m)) 4) = 4"
    using assms(4) by (simp add: stream_read_def)
  with assms show ?thesis
    by (simp add: sdcard_io_handler_def sd_data_def sd_regs sd_reg_def dev_peek_def Let_def
        le_read_store_list) (simp add: stream_read_def)
qed

lemma sd_read_words_file:
  "\<not> sd_read_ext_csd (sd m) \<Longrightarrow> \<not> sd_write_cmd (sd m) \<Longrightarrow> sd_file (sd m) = Some f \<Longrightarrow>
   sd_pos (sd m) + 4 * n \<le> length f \<Longrightarrow> sd_base m + 0x80 \<le> IO_SPACE_MAX \<Longrightarrow>
   \<exists>m'. sd_read_words n m =
     Inr (map (\<lambda>i. bytes_word (take 4 (drop (sd_pos (sd m) + 4 * i) f))) [0..<n], m')"
proof (induction n arbitrary: m)
  case 0
  then show ?case by simp
next
  case (Suc n)
  have "sd_pos (sd m) + 4 \<le> length f" using Suc.prems(4) by simp
  from sd_data_read [OF Suc.prems(1-3) this Suc.prems(5)] obtain m1 where
    m1: "sdcard_io_handler 64 4 False m = Inr m1"
      "sd_reg m1 SDDATA = Inr (bytes_word (take 4 (drop (sd_pos (sd m)) f)))"
      "sd m1 = (sd m)\<lparr>sd_pos := sd_pos (sd m) + 4, sd_addr := sd_addr (sd m) + 4\<rparr>"
      "sd_base m1 = sd_base m" by blast
  from Suc.IH [of m1] Suc.prems m1 obtain m2 where
    "sd_read_words n m1 =
      Inr (map (\<lambda>i. bytes_word (take 4 (drop (sd_pos (sd m) + 4 + 4 * i) f))) [0..<n], m2)" by auto
  moreover have "[0..<Suc n] = 0 # map Suc [0..<n]" by (simp add: map_Suc_upt upt_conv_Cons)
  ultimately show ?case using m1 by (simp add: comp_def add.assoc del: upt_Suc)
qed

text \<open>
  A read command positions the image at the block of the argument register, and the data
  register then delivers the image from there, word by word.
\<close>

lemma sd_read_command:
  assumes "sd_reg m SDCMD = Inr MMC_READ_MULTIPLE_BLOCK" and "sd_reg m SDARG = Inr blk"
    and "\<not> sd_read_ext_csd (sd m)" and "sd_file (sd m) = Some f"
    and "unat blk * 512 + 4 * n \<le> length f" and "sd_base m + 0x80 \<le> IO_SPACE_MAX"
  shows "\<exists>m1 m2. sdcard_io_handler 0 4 True m = Inr m1 \<and>
    sd_read_words n m1 = Inr (map (\<lambda>i. bytes_word (take 4 (drop (unat blk * 512 + 4 * i) f))) [0..<n], m2)"
proof -
  let ?m1 = "m\<lparr>sd := (sd m)\<lparr>sd_blk_addr := blk, sd_addr := 0, sd_pos := unat blk * 512, sd_write_cmd := False\<rparr>\<rparr>"
  have "sdcard_io_handler 0 4 True m = Inr ?m1"
    using assms by (simp add: sdcard_io_handler_def sd_regs Let_def sdcard_handle_cmd_def mmc_cmds prepare_rw_def)
  moreover have "\<exists>m2. sd_read_words n ?m1 =
      Inr (map (\<lambda>i. bytes_word (take 4 (drop (unat blk * 512 + 4 * i) f))) [0..<n], m2)"
    using sd_read_words_file [of ?m1 f n] assms by simp
  ultimately show ?thesis by blast
qed

text \<open>The extended CSD register is 512 bytes long, and reading it ends the mode.\<close>

lemma sd_ext_csd_step:
  assumes "sd_read_ext_csd (sd m)" and "sd_base m + 0x80 \<le> IO_SPACE_MAX"
  shows "\<exists>m'. sdcard_io_handler 64 4 False m = Inr m' \<and> sd_reg m' SDDATA = Inr (ext_csd_word (sd_addr (sd m))) \<and>
    sd m' = (sd m)\<lparr>sd_addr := sd_addr (sd m) + 4, sd_read_ext_csd := (sd_addr (sd m) \<noteq> 508)\<rparr> \<and>
    sd_base m' = sd_base m"
  using assms
  by (auto simp: sdcard_io_handler_def sd_data_def sd_regs sd_reg_simps Let_def le_read_write_same)

lemma sd_ext_csd_words:
  "sd_read_ext_csd (sd m) \<Longrightarrow> sd_base m + 0x80 \<le> IO_SPACE_MAX \<Longrightarrow> sd_addr (sd m) = of_nat (4 * k) \<Longrightarrow>
   k + n = 128 \<Longrightarrow> 0 < n \<Longrightarrow>
   \<exists>m'. sd_read_words n m = Inr (map (\<lambda>i. ext_csd_word (of_nat (4 * i))) [k..<128], m') \<and>
     \<not> sd_read_ext_csd (sd m')"
proof (induction n arbitrary: m k)
  case 0
  then show ?case by simp
next
  case (Suc n)
  from sd_ext_csd_step [OF Suc.prems(1,2)] obtain m1 where
    m1: "sdcard_io_handler 64 4 False m = Inr m1" "sd_reg m1 SDDATA = Inr (ext_csd_word (of_nat (4 * k)))"
      "sd m1 = (sd m)\<lparr>sd_addr := of_nat (4 * k) + 4, sd_read_ext_csd := ((of_nat (4 * k) :: u32) \<noteq> 508)\<rparr>"
      "sd_base m1 = sd_base m"
    unfolding Suc.prems(3) by blast
  have up: "[k..<128] = k # [Suc k..<128]" using Suc.prems(4) by (simp add: upt_conv_Cons)
  show ?case
  proof (cases n)
    case 0
    then have "k = 127" using Suc.prems(4) by simp
    then show ?thesis using m1 0 up by simp
  next
    case (Suc n')
    have "unat (of_nat (4 * k) :: u32) = 4 * k"
      using Suc.prems(4) by (simp only: unat_of_nat) simp
    moreover have "4 * k \<noteq> unat (508 :: u32)" using Suc.prems(4) Suc by simp
    ultimately have "(of_nat (4 * k) :: u32) \<noteq> 508" by metis
    then have "sd_read_ext_csd (sd m1)" using m1(3) by simp
    then obtain m2 where "sd_read_words n m1 = Inr (map (\<lambda>i. ext_csd_word (of_nat (4 * i))) [Suc k..<128], m2)"
        "\<not> sd_read_ext_csd (sd m2)"
      using Suc.IH [of m1 "Suc k"] m1 Suc.prems Suc by auto
    then show ?thesis using m1 up by simp
  qed
qed

end
