(* ===== verification/Vga.thy ===== *)
theory Vga
  imports DevState
begin

text \<open>
  \<^verbatim>\<open>src/device/vga.c\<close>, \<^verbatim>\<open>audio.c\<close> and \<^verbatim>\<open>disk.c\<close>. Presenting a frame is one event of the
  console; the window and the texture belong to SDL.
\<close>

unbundle bit_operations_syntax

section \<open>vga.c\<close>

definition SCREEN_W :: "config \<Rightarrow> nat" where
  "SCREEN_W c = (case cfg_vga c of VGA_SIZE_1600x1200 \<Rightarrow> 1600 | VGA_SIZE_800x600 \<Rightarrow> 800 | VGA_SIZE_400x300 \<Rightarrow> 400)"

definition SCREEN_H :: "config \<Rightarrow> nat" where
  "SCREEN_H c = (case cfg_vga c of VGA_SIZE_1600x1200 \<Rightarrow> 1200 | VGA_SIZE_800x600 \<Rightarrow> 600 | VGA_SIZE_400x300 \<Rightarrow> 300)"

definition screen_width :: "config \<Rightarrow> u32" where "screen_width c = of_nat (SCREEN_W c)"
definition screen_height :: "config \<Rightarrow> u32" where "screen_height c = of_nat (SCREEN_H c)"
definition screen_size :: "config \<Rightarrow> u32" where "screen_size c = screen_width c * screen_height c * 4"

definition update_screen :: "('a) devs_scheme \<Rightarrow> ('a) devs_scheme" where
  "update_screen m = emit OutFrame m"

definition vga_update_screen :: "('a) devs_scheme \<Rightarrow> ('a) devs_scheme" where
  "vga_update_screen m =
     (let m1 = m\<lparr>frame_count := frame_count m + 1\<rparr>
      in if frame_count m1 \<le> 24 then m1 else update_screen (m1\<lparr>frame_count := 0\<rparr>))"

text \<open>
  The copy of the rendered text into the frame buffer: the double loop over the surface,
  one pixel at a time, clipped to the screen; \<open>x\<close> and \<open>y\<close> are the (non-negative) position.
\<close>

definition put_pixel :: "config \<Rightarrow> nat \<Rightarrow> nat \<Rightarrow> u32 \<Rightarrow> ('a) devs_scheme \<Rightarrow> ('a) devs_scheme res" where
  "put_pixel c vx vy pixel m =
     (if vx < SCREEN_W c \<and> vy < SCREEN_H c \<and> BITS pixel 31 24 > 0
      then dev_poke (vmem m + 4 * (vy * SCREEN_W c + vx)) 4 pixel m
      else Inr m)"

fun blit_row :: "config \<Rightarrow> (nat \<Rightarrow> u32) \<Rightarrow> nat \<Rightarrow> nat \<Rightarrow> nat \<Rightarrow> nat list \<Rightarrow> ('a) devs_scheme \<Rightarrow> ('a) devs_scheme res" where
  "blit_row c pix w x vy [] m = Inr m"
| "blit_row c pix w x vy (j # js) m =
     bindE (put_pixel c (x + j) vy (pix j) m) (blit_row c pix w x vy js)"

fun blit_rows :: "config \<Rightarrow> (nat \<Rightarrow> u32) \<Rightarrow> nat \<Rightarrow> nat \<Rightarrow> nat \<Rightarrow> nat list \<Rightarrow> ('a) devs_scheme \<Rightarrow> ('a) devs_scheme res" where
  "blit_rows c pix w x y [] m = Inr m"
| "blit_rows c pix w x y (i # is) m =
     bindE (blit_row c (\<lambda>j. pix (i * w + j)) w x (y + i) [0..<w] m) (blit_rows c pix w x y is)"

definition render_text_to_vmem :: "config \<Rightarrow> host_env \<Rightarrow> nat \<Rightarrow> nat \<Rightarrow> ('a) devs_scheme \<Rightarrow> ('a) devs_scheme res" where
  "render_text_to_vmem c E x y m = (case env_text E of
      None \<Rightarrow> Inr (emit (OutMsg ''Failed to render text: %s'' []) m)
    | Some (w, h, pix) \<Rightarrow> blit_rows c pix w x y [0..<h] m)"

definition clear_vmem :: "nat \<Rightarrow> nat \<Rightarrow> bytes \<Rightarrow> bytes" where
  "clear_vmem a n f = (\<lambda>b. if a \<le> b \<and> b < a + n then 0 else f b)"

definition init_vga :: "config \<Rightarrow> host_env \<Rightarrow> ('a) devs_scheme \<Rightarrow> ('a) devs_scheme res" where
  "init_vga c E m =
     bindE (new_space 8 m) (\<lambda>(p, m).
     bindE (dev_poke p 4 (push_bit 16 (screen_width c) OR screen_height c) (m\<lparr>vgactl_base := p\<rparr>)) (\<lambda>m.
     bindE (add_mmio_map ''vgactl'' CONFIG_VGA_CTL_MMIO p 8 CB_null m) (\<lambda>m.
     bindE (new_space (screen_size c) m) (\<lambda>(v, m).
     bindE (add_mmio_map ''vmem'' CONFIG_FB_ADDR v (screen_size c) CB_null (m\<lparr>vmem := v\<rparr>)) (\<lambda>m.
     bindE (in_object IO_SPACE_MAX v (unat (screen_size c))) (\<lambda>_.
     bindE (render_text_to_vmem c E 100 100
              (m\<lparr>io_space := clear_vmem v (unat (screen_size c)) (io_space m)\<rparr>)) (\<lambda>m.
     Inr (update_screen m))))))))"

section \<open>audio.c and disk.c\<close>

definition nr_reg :: u32 where "nr_reg = 6"

definition audio_io_handler :: "u32 \<Rightarrow> nat \<Rightarrow> bool \<Rightarrow> ('a) devs_scheme \<Rightarrow> ('a) devs_scheme res" where
  "audio_io_handler off len is_write m = Inr m"

definition init_audio :: "('a) devs_scheme \<Rightarrow> ('a) devs_scheme res" where
  "init_audio m =
     (let space_size = 4 * nr_reg in
      bindE (new_space space_size m) (\<lambda>(p, m).
      bindE (add_mmio_map ''audio'' CONFIG_AUDIO_CTL_MMIO p space_size CB_audio (m\<lparr>audio_base := p\<rparr>)) (\<lambda>m.
      bindE (new_space CONFIG_SB_SIZE m) (\<lambda>(q, m).
      add_mmio_map ''audio-sbuf'' CONFIG_SB_ADDR q CONFIG_SB_SIZE CB_null (m\<lparr>sbuf_base := q\<rparr>)))))"

definition init_disk :: "('a) devs_scheme \<Rightarrow> ('a) devs_scheme res" where
  "init_disk m = Inr m"

section \<open>Lemmas\<close>

lemma screen_bounds: "SCREEN_W c * SCREEN_H c * 4 = unat (screen_size c)"
  by (cases "cfg_vga c") (simp_all add: screen_size_def screen_width_def screen_height_def SCREEN_W_def SCREEN_H_def)

lemma pixel_in_bounds:
  assumes "vx < SCREEN_W c" and "vy < SCREEN_H c"
  shows "4 * (vy * SCREEN_W c + vx) + 4 \<le> unat (screen_size c)"
proof -
  have "vy * SCREEN_W c + vx + 1 \<le> vy * SCREEN_W c + SCREEN_W c" using assms(1) by simp
  also have "\<dots> = (vy + 1) * SCREEN_W c" by simp
  also have "\<dots> \<le> SCREEN_H c * SCREEN_W c" using assms(2) by (intro mult_right_mono) auto
  finally show ?thesis by (simp add: screen_bounds [symmetric] mult.commute)
qed

text \<open>
  The text never leaves the frame buffer: every write of the copy stays inside
  \<open>[vmem, vmem + screen_size)\<close> and the copy cannot fail when the buffer was allocated.
\<close>

definition vmem_only :: "config \<Rightarrow> ('a) devs_scheme \<Rightarrow> ('a) devs_scheme \<Rightarrow> bool" where
  "vmem_only c m m' \<longleftrightarrow> (\<exists>f. m' = m\<lparr>io_space := f\<rparr> \<and>
     (\<forall>b. b < vmem m \<or> vmem m + unat (screen_size c) \<le> b \<longrightarrow> f b = io_space m b))"

lemma vmem_only_refl [simp]: "vmem_only c m m"
  unfolding vmem_only_def by (rule exI [of _ "io_space m"]) simp

lemma vmem_only_trans: "vmem_only c m m1 \<Longrightarrow> vmem_only c m1 m2 \<Longrightarrow> vmem_only c m m2"
  unfolding vmem_only_def by auto

lemma vmem_only_vmem: "vmem_only c m m' \<Longrightarrow> vmem m' = vmem m"
  by (auto simp: vmem_only_def)

lemma put_pixel_ok:
  assumes "vmem m + unat (screen_size c) \<le> IO_SPACE_MAX"
  shows "\<exists>m'. put_pixel c vx vy p m = Inr m' \<and> vmem_only c m m'"
proof (cases "vx < SCREEN_W c \<and> vy < SCREEN_H c \<and> BITS p 31 24 > 0")
  case True
  let ?a = "4 * (vy * SCREEN_W c + vx)"
  have "?a + 4 \<le> unat (screen_size c)" using pixel_in_bounds True by blast
  then have "\<forall>b. b < vmem m \<or> vmem m + unat (screen_size c) \<le> b \<longrightarrow>
      le_write (io_space m) (vmem m + ?a) 4 p b = io_space m b"
    by (auto simp: le_write_apply)
  with \<open>?a + 4 \<le> _\<close> True assms show ?thesis
    unfolding vmem_only_def by (auto simp: put_pixel_def dev_poke_def)
next
  case False
  then have "put_pixel c vx vy p m = Inr m" by (auto simp: put_pixel_def)
  then show ?thesis by simp
qed

lemma blit_row_ok:
  "vmem m + unat (screen_size c) \<le> IO_SPACE_MAX \<Longrightarrow>
   \<exists>m'. blit_row c pix w x vy js m = Inr m' \<and> vmem_only c m m'"
proof (induction js arbitrary: m)
  case Nil
  then show ?case by simp
next
  case (Cons j js)
  from put_pixel_ok [OF Cons.prems] obtain m1 where
    m1: "put_pixel c (x + j) vy (pix j) m = Inr m1" "vmem_only c m m1" by blast
  then have "vmem m1 + unat (screen_size c) \<le> IO_SPACE_MAX"
    using Cons.prems vmem_only_vmem by metis
  from Cons.IH [OF this] m1 show ?case by (auto intro: vmem_only_trans)
qed

lemma blit_rows_ok:
  "vmem m + unat (screen_size c) \<le> IO_SPACE_MAX \<Longrightarrow>
   \<exists>m'. blit_rows c pix w x y is m = Inr m' \<and> vmem_only c m m'"
proof (induction "is" arbitrary: m)
  case Nil
  then show ?case by simp
next
  case (Cons i "is")
  from blit_row_ok [OF Cons.prems] obtain m1 where
    m1: "blit_row c (\<lambda>j. pix (i * w + j)) w x (y + i) [0..<w] m = Inr m1" "vmem_only c m m1" by blast
  then have "vmem m1 + unat (screen_size c) \<le> IO_SPACE_MAX"
    using Cons.prems vmem_only_vmem by metis
  from Cons.IH [OF this] m1 show ?case by (auto intro: vmem_only_trans)
qed

text \<open>A frame is presented once every 25 updates.\<close>

lemma vga_frame_period:
  assumes "frame_count m = 0"
  shows "n \<le> 24 \<Longrightarrow> (vga_update_screen ^^ n) m = m\<lparr>frame_count := n\<rparr>"
    and "(vga_update_screen ^^ 25) m = emit OutFrame m"
proof -
  have *: "(vga_update_screen ^^ n) m = m\<lparr>frame_count := n\<rparr>" if "n \<le> 24" for n
    using that
  proof (induction n)
    case 0
    then show ?case using assms by simp
  next
    case (Suc n)
    then show ?case by (simp add: vga_update_screen_def)
  qed
  show "n \<le> 24 \<Longrightarrow> (vga_update_screen ^^ n) m = m\<lparr>frame_count := n\<rparr>" by (rule *)
  have "(25 :: nat) = Suc 24" by simp
  then have "(vga_update_screen ^^ 25) m = vga_update_screen ((vga_update_screen ^^ 24) m)"
    by (simp only: funpow.simps comp_apply)
  also have "\<dots> = emit OutFrame m"
    using * [of 24] assms by (simp add: vga_update_screen_def update_screen_def emit_def)
  finally show "(vga_update_screen ^^ 25) m = emit OutFrame m" .
qed

end
