(* ===== verification/Devices.thy ===== *)
theory Devices
  imports Keyboard Timers Serial Sdcard Vga
begin

text \<open>
  \<^verbatim>\<open>src/device/device.c\<close>: the dispatch of the callbacks registered with the address map, the
  periodic update, and the initialisation of all devices, with the layout it produces.
\<close>

unbundle bit_operations_syntax

section \<open>Callbacks\<close>

fun dev_dispatch :: "host_env \<Rightarrow> callback \<Rightarrow> u32 \<Rightarrow> nat \<Rightarrow> bool \<Rightarrow> ('a) devs_scheme \<Rightarrow> ('a) devs_scheme res" where
  "dev_dispatch E CB_null off len w m = Inr m"
| "dev_dispatch E CB_serial off len w m = serial_io_handler E off len w m"
| "dev_dispatch E CB_rtc off len w m = rtc_io_handler E off len w m"
| "dev_dispatch E CB_i8042 off len w m = i8042_data_io_handler off len w m"
| "dev_dispatch E CB_audio off len w m = audio_io_handler off len w m"
| "dev_dispatch E CB_sdcard off len w m = sdcard_io_handler off len w m"
| "dev_dispatch E CB_clint off len w m = clint_io_handler off len w m"
| "dev_dispatch E CB_syscon off len w m = syscon_io_handler off len w m"

lemma dev_dispatch_same_maps: "dev_dispatch E cb off len w m = Inr m' \<Longrightarrow> same_maps m m'"
  by (cases cb) (auto intro: keeps simp: audio_io_handler_def)

text \<open>The devices keep what the address map relies on.\<close>

interpretation dev: io_handler "dev_dispatch E" for E
  by unfold_locales (auto dest: dev_dispatch_same_maps simp: same_maps_def)

section \<open>device\_update\<close>

fun sdl_event_loop :: "sdl_event list \<Rightarrow> ('a) devs_scheme \<Rightarrow> ('a) devs_scheme res" where
  "sdl_event_loop [] m = Inr m"
| "sdl_event_loop (SDL_QUIT # evs) m = sdl_event_loop evs (m\<lparr>nemu_state := NEMU_QUIT\<rparr>)"
| "sdl_event_loop (SDL_KEYDOWN k # evs) m = bindE (send_key k True m) (sdl_event_loop evs)"
| "sdl_event_loop (SDL_KEYUP k # evs) m = bindE (send_key k False m) (sdl_event_loop evs)"
| "sdl_event_loop (SDL_OTHER # evs) m = sdl_event_loop evs m"

definition device_update :: "config \<Rightarrow> host_env \<Rightarrow> ('a) devs_scheme \<Rightarrow> ('a) devs_scheme res" where
  "device_update c E m = (case get_time E m of (now, m1) \<Rightarrow>
     if now - dev_last m1 < 1000000 div TIMER_HZ then Inr m1
     else bindE (clint_update c E (vga_update_screen (m1\<lparr>dev_last := now\<rparr>))) (\<lambda>m2.
       case host_call (env_events E) m2 of (evs, m3) \<Rightarrow> sdl_event_loop evs m3))"

definition sdl_clear_event_queue :: "host_env \<Rightarrow> ('a) devs_scheme \<Rightarrow> ('a) devs_scheme" where
  "sdl_clear_event_queue E m = snd (host_call (env_events E) m)"

section \<open>init\_device\<close>

definition init_device :: "config \<Rightarrow> host_env \<Rightarrow> bytes \<Rightarrow> ('a) devs_scheme \<Rightarrow> ('a) devs_scheme res" where
  "init_device c E heap m =
     bindE (init_serial E (init_map heap m)) (\<lambda>m.
     bindE (init_timer m) (\<lambda>m.
     bindE (init_vga c E m) (\<lambda>m.
     bindE (init_i8042 E m) (\<lambda>m.
     bindE (init_audio m) (\<lambda>m.
     bindE (init_disk m) (\<lambda>m.
     bindE (if cfg_sdcard c then init_sdcard E m else Inr m) (\<lambda>m.
     bindE (init_clint m) (\<lambda>m.
     bindE (init_syscon m) (\<lambda>m.
     init_alarm E m)))))))))"

text \<open>The state of the static variables before \<^verbatim>\<open>init_device\<close>.\<close>

definition devs_init :: "host_env \<Rightarrow> devs" where
  "devs_init E = \<lparr> nemu_state = NEMU_STOP, halt_pc = 0, halt_ret = 0, is_skip_ref = False,
     skip_dut_nr_inst = 0, skip_dut_one_inst = False, host_calls = 0,
     io_space = (\<lambda>_. 0), p_space = 0, mmio_maps = [], pio_maps = [],
     console = [], boot_time = 0, clint_base = 0, syscon_base = 0, rtc_base = 0, serial_base = 0,
     is_eofd = False, i8042_base = 0, kbd = kbd_init, audio_base = 0, sbuf_base = 0, sd_base = 0,
     sd = sd_init E, vgactl_base = 0, vmem = 0, frame_count = 0, dev_last = 0, alarm_handlers = [] \<rparr>"

section \<open>The layout of the address map\<close>

text \<open>
  What \<^verbatim>\<open>init_device\<close> leaves behind, for the screen sizes that fit: the allocator position
  and the entries, in the order of registration.
\<close>

definition dev_layout :: "('a) io_scheme \<Rightarrow> nat \<Rightarrow> io_map list \<Rightarrow> bool" where
  "dev_layout m p es \<longleftrightarrow> p_space m = p \<and> mmio_maps m = es"

definition entry :: "string \<Rightarrow> u32 \<Rightarrow> u32 \<Rightarrow> nat \<Rightarrow> callback \<Rightarrow> io_map" where
  "entry nm lo len sp cb = \<lparr>map_name = nm, low = lo, high = lo + len - 1, space = sp, callback = cb\<rparr>"

definition fb_len :: "config \<Rightarrow> nat" where
  "fb_len c = unat (page_round (screen_size c))"

definition default_maps :: "config \<Rightarrow> io_map list" where
  "default_maps c = (let f = 12288 + fb_len c; s = f + 73728; d = (if cfg_sdcard c then s + 4096 else s) in
     [entry ''serial'' CONFIG_SERIAL_MMIO 0x1000 0 CB_serial,
      entry ''rtc'' CONFIG_RTC_MMIO 8 4096 CB_rtc,
      entry ''vgactl'' CONFIG_VGA_CTL_MMIO 8 8192 CB_null,
      entry ''vmem'' CONFIG_FB_ADDR (screen_size c) 12288 CB_null,
      entry ''keyboard'' CONFIG_I8042_DATA_MMIO 4 f CB_i8042,
      entry ''audio'' CONFIG_AUDIO_CTL_MMIO 24 (f + 4096) CB_audio,
      entry ''audio-sbuf'' CONFIG_SB_ADDR CONFIG_SB_SIZE (f + 8192) CB_null] @
     (if cfg_sdcard c then [entry ''sdhci'' CONFIG_SDCARD_CTL_MMIO 0x80 s CB_sdcard] else []) @
     [entry ''clint'' CONFIG_CLINT_MMIO 0x10000 d CB_clint,
      entry ''syscon'' CONFIG_SYSCON_MMIO 0x1000 (d + 4096) CB_syscon])"

lemma page_round_small [simp]:
  "page_round 4 = 4096" "page_round 8 = 4096" "page_round 24 = 4096" "page_round 0x80 = 4096"
  "page_round 0x10000 = 0x10000"
  by (simp_all add: page_round_def PAGE_MASK_def PAGE_SIZE_def PAGE_SHIFT_def)

lemmas layout_simps = dev_layout_def new_space_def add_mmio_map_def dev_poke_def in_pmem_def
  config_defs IO_SPACE_MAX_def NR_MAP_def entry_def Let_def

lemma init_serial_layout:
  assumes "dev_layout m 0 []" and "unat (UART_LSR (env_serial_reg E)) < 0x1000"
  shows "\<exists>m'. init_serial E m = Inr m' \<and> alarm_handlers m' = alarm_handlers m \<and>
    dev_layout m' 4096 [entry ''serial'' CONFIG_SERIAL_MMIO 0x1000 0 CB_serial]"
  using assms by (simp add: init_serial_def layout_simps)

lemma init_timer_layout:
  assumes "dev_layout m 4096 es" and "es = [entry ''serial'' CONFIG_SERIAL_MMIO 0x1000 0 CB_serial]"
    and "alarm_handlers m = []"
  shows "\<exists>m'. init_timer m = Inr m' \<and> dev_layout m' 8192 (es @ [entry ''rtc'' CONFIG_RTC_MMIO 8 4096 CB_rtc])"
  using assms by (simp add: init_timer_def layout_simps add_alarm_handle_def MAX_HANDLER_def)


lemma fb_len_values:
  "cfg_vga c = VGA_SIZE_400x300 \<Longrightarrow> fb_len c = 483328" "cfg_vga c = VGA_SIZE_800x600 \<Longrightarrow> fb_len c = 1921024"
  "cfg_vga c = VGA_SIZE_1600x1200 \<Longrightarrow> fb_len c = 7680000"
  by (simp_all add: fb_len_def screen_size_def screen_width_def screen_height_def SCREEN_W_def SCREEN_H_def
      page_round_def PAGE_MASK_def PAGE_SIZE_def PAGE_SHIFT_def)

lemma screen_size_values:
  "cfg_vga c = VGA_SIZE_400x300 \<Longrightarrow> screen_size c = 480000" "cfg_vga c = VGA_SIZE_800x600 \<Longrightarrow> screen_size c = 1920000"
  "cfg_vga c = VGA_SIZE_1600x1200 \<Longrightarrow> screen_size c = 7680000"
  by (simp_all add: screen_size_def screen_width_def screen_height_def SCREEN_W_def SCREEN_H_def)

lemma render_text_layout:
  assumes "vmem m + unat (screen_size c) \<le> IO_SPACE_MAX" and "dev_layout m p es"
  shows "\<exists>m'. render_text_to_vmem c E x y m = Inr m' \<and> dev_layout (update_screen m') p es"
proof (cases "env_text E")
  case None
  with assms(2) show ?thesis
    by (simp add: render_text_to_vmem_def dev_layout_def emit_def update_screen_def)
next
  case (Some t)
  obtain w h pix where t: "t = (w, h, pix)" by (cases t)
  from blit_rows_ok [OF assms(1)] obtain m' where
    "blit_rows c pix w x y [0..<h] m = Inr m'" "vmem_only c m m'" by blast
  with assms(2) Some t show ?thesis
    by (auto simp: render_text_to_vmem_def dev_layout_def emit_def update_screen_def vmem_only_def)
qed

lemma init_vga_layout:
  assumes "dev_layout m 8192 es"
    and es: "es = [entry ''serial'' CONFIG_SERIAL_MMIO 0x1000 0 CB_serial, entry ''rtc'' CONFIG_RTC_MMIO 8 4096 CB_rtc]"
    and "cfg_vga c \<noteq> VGA_SIZE_1600x1200"
  shows "\<exists>m'. init_vga c E m = Inr m' \<and> dev_layout m' (12288 + fb_len c)
    (es @ [entry ''vgactl'' CONFIG_VGA_CTL_MMIO 8 8192 CB_null,
           entry ''vmem'' CONFIG_FB_ADDR (screen_size c) 12288 CB_null])"
proof -
  let ?es = "es @ [entry ''vgactl'' CONFIG_VGA_CTL_MMIO 8 8192 CB_null,
    entry ''vmem'' CONFIG_FB_ADDR (screen_size c) 12288 CB_null]"
  have sz: "12288 + unat (screen_size c) \<le> IO_SPACE_MAX" "12288 + fb_len c < IO_SPACE_MAX"
    using assms(3) by (cases "cfg_vga c"; simp add: screen_size_values fb_len_values IO_SPACE_MAX_def)+
  have "\<exists>m1. init_vga c E m = bindE (render_text_to_vmem c E 100 100 m1) (\<lambda>m. Inr (update_screen m)) \<and>
      vmem m1 = 12288 \<and> dev_layout m1 (12288 + fb_len c) ?es"
    using assms sz
    by (cases "cfg_vga c")
      (simp_all add: init_vga_def layout_simps in_object_def screen_size_values fb_len_def,
       (rule exI, rule conjI, rule refl, simp)+)
  then obtain m1 where m1: "init_vga c E m = bindE (render_text_to_vmem c E 100 100 m1) (\<lambda>m. Inr (update_screen m))"
      "vmem m1 = 12288" "dev_layout m1 (12288 + fb_len c) ?es" by blast
  with render_text_layout [of m1 c _ _ E 100 100] sz(1) show ?thesis by fastforce
qed


lemma init_i8042_layout:
  assumes "dev_layout m (12288 + fb_len c) es" and "cfg_vga c \<noteq> VGA_SIZE_1600x1200"
    and "es = take 4 (default_maps c)"
  shows "\<exists>m'. init_i8042 E m = Inr m' \<and> dev_layout m' (16384 + fb_len c) (take 5 (default_maps c))"
  using assms
  by (cases "cfg_vga c") (simp_all add: init_i8042_def layout_simps default_maps_def fb_len_values screen_size_values)

lemma init_audio_layout:
  assumes "dev_layout m (16384 + fb_len c) es" and "cfg_vga c \<noteq> VGA_SIZE_1600x1200"
    and "es = take 5 (default_maps c)"
  shows "\<exists>m'. init_audio m = Inr m' \<and> dev_layout m' (86016 + fb_len c) (take 7 (default_maps c))"
  using assms
  by (cases "cfg_vga c")
    (simp_all add: init_audio_def nr_reg_def layout_simps default_maps_def fb_len_values screen_size_values)

lemma C_SIZE_fits: "C_SIZE < push_bit 12 1"
  by (simp add: C_SIZE_def NR_BLOCK_def MEMORY_SIZE_def BLOCK_LEN_def MULT_def C_SIZE_MULT_def)

lemma init_sdcard_layout:
  assumes "dev_layout m (86016 + fb_len c) es" and "cfg_vga c \<noteq> VGA_SIZE_1600x1200"
    and "es = take 7 (default_maps c)"
  shows "\<exists>m'. (if cfg_sdcard c then init_sdcard E m else Inr m) = Inr m' \<and>
    dev_layout m' (86016 + fb_len c + (if cfg_sdcard c then 4096 else 0))
      (take (if cfg_sdcard c then 8 else 7) (default_maps c))"
  using assms C_SIZE_fits
  by (cases "cfg_vga c"; cases "cfg_sdcard c")
    (simp_all add: init_sdcard_def layout_simps default_maps_def fb_len_values screen_size_values emit_def)

lemma mask_64_u64: "mask 64 = (- 1 :: u64)"
  by (simp add: mask_eq_exp_minus_1)

lemma init_clint_layout:
  assumes "dev_layout m (86016 + fb_len c + (if cfg_sdcard c then 4096 else 0)) es"
    and "cfg_vga c \<noteq> VGA_SIZE_1600x1200"
    and "es = take (if cfg_sdcard c then 8 else 7) (default_maps c)"
  shows "\<exists>m'. init_clint m = Inr m' \<and>
    dev_layout m' (90112 + fb_len c + (if cfg_sdcard c then 4096 else 0))
      (take (if cfg_sdcard c then 9 else 8) (default_maps c)) \<and>
    clint_base m' = 86016 + fb_len c + (if cfg_sdcard c then 4096 else 0) \<and>
    le_read (io_space m') (clint_base m' + MTIMELO) 8 = (0 :: u64) \<and>
    le_read (io_space m') (clint_base m' + MTIMECMPLO) 8 = (NOT 0 :: u64)"
  using assms
  by (cases "cfg_vga c"; cases "cfg_sdcard c")
    (simp_all add: init_clint_def layout_simps default_maps_def fb_len_values screen_size_values
      MTIMELO_def MTIMECMPLO_def le_read_write_same le_read_write_other mask_64_u64)

lemma init_syscon_layout:
  assumes "dev_layout m (90112 + fb_len c + (if cfg_sdcard c then 4096 else 0)) es"
    and "cfg_vga c \<noteq> VGA_SIZE_1600x1200"
    and "es = take (if cfg_sdcard c then 9 else 8) (default_maps c)"
  shows "\<exists>m'. init_syscon m = Inr m' \<and> mmio_maps m' = default_maps c \<and> io_space m' = io_space m \<and> clint_base m' = clint_base m"
  using assms
  by (cases "cfg_vga c"; cases "cfg_sdcard c")
    (simp_all add: init_syscon_def layout_simps default_maps_def fb_len_values screen_size_values)


lemma init_device_layout:
  assumes "cfg_vga c \<noteq> VGA_SIZE_1600x1200" and "env_alarm_ok E"
    and "unat (UART_LSR (env_serial_reg E)) < 0x1000" and "mmio_maps m = []" and "alarm_handlers m = []"
  shows "\<exists>m'. init_device c E heap m = Inr m' \<and> mmio_maps m' = default_maps c \<and>
    le_read (io_space m') (clint_base m' + MTIMELO) 8 = (0 :: u64) \<and>
    le_read (io_space m') (clint_base m' + MTIMECMPLO) 8 = (NOT 0 :: u64) \<and>
    clint_base m' = 86016 + fb_len c + (if cfg_sdcard c then 4096 else 0)"
proof -
  have e2: "[entry ''serial'' CONFIG_SERIAL_MMIO 0x1000 0 CB_serial, entry ''rtc'' CONFIG_RTC_MMIO 8 4096 CB_rtc] @
      [entry ''vgactl'' CONFIG_VGA_CTL_MMIO 8 8192 CB_null,
       entry ''vmem'' CONFIG_FB_ADDR (screen_size c) 12288 CB_null] = take 4 (default_maps c)"
    by (simp add: default_maps_def Let_def)
  have "dev_layout (init_map heap m) 0 []" using assms(4) by (simp add: dev_layout_def init_map_def)
  from init_serial_layout [OF this assms(3)] obtain m1 where m1: "init_serial E (init_map heap m) = Inr m1"
      "alarm_handlers m1 = []" "dev_layout m1 4096 [entry ''serial'' CONFIG_SERIAL_MMIO 0x1000 0 CB_serial]"
    using assms(5) by (auto simp: init_map_def)
  from init_timer_layout [OF m1(3) refl m1(2)] obtain m2 where m2: "init_timer m1 = Inr m2"
      "dev_layout m2 8192 [entry ''serial'' CONFIG_SERIAL_MMIO 0x1000 0 CB_serial, entry ''rtc'' CONFIG_RTC_MMIO 8 4096 CB_rtc]"
    by auto
  from init_vga_layout [OF m2(2) refl assms(1)] obtain m3 where m3: "init_vga c E m2 = Inr m3"
      "dev_layout m3 (12288 + fb_len c) (take 4 (default_maps c))" unfolding e2 by blast
  from init_i8042_layout [OF m3(2) assms(1) refl] obtain m4 where m4: "init_i8042 E m3 = Inr m4"
      "dev_layout m4 (16384 + fb_len c) (take 5 (default_maps c))" by blast
  from init_audio_layout [OF m4(2) assms(1) refl] obtain m5 where m5: "init_audio m4 = Inr m5"
      "dev_layout m5 (86016 + fb_len c) (take 7 (default_maps c))" by blast
  from init_sdcard_layout [OF m5(2) assms(1) refl, of E] obtain m6 where m6:
      "(if cfg_sdcard c then init_sdcard E m5 else Inr m5) = Inr m6"
      "dev_layout m6 (86016 + fb_len c + (if cfg_sdcard c then 4096 else 0))
        (take (if cfg_sdcard c then 8 else 7) (default_maps c))" by blast
  from init_clint_layout [OF m6(2) assms(1) refl] obtain m7 where m7: "init_clint m6 = Inr m7"
      "dev_layout m7 (90112 + fb_len c + (if cfg_sdcard c then 4096 else 0))
        (take (if cfg_sdcard c then 9 else 8) (default_maps c))"
      "clint_base m7 = 86016 + fb_len c + (if cfg_sdcard c then 4096 else 0)"
      "le_read (io_space m7) (clint_base m7 + MTIMELO) 8 = (0 :: u64)"
      "le_read (io_space m7) (clint_base m7 + MTIMECMPLO) 8 = (NOT 0 :: u64)" by blast
  from init_syscon_layout [OF m7(2) assms(1) refl] obtain m8 where m8: "init_syscon m7 = Inr m8"
      "mmio_maps m8 = default_maps c" "io_space m8 = io_space m7" "clint_base m8 = clint_base m7" by blast
  have "init_device c E heap m = Inr m8"
    unfolding init_device_def
    by (simp add: m1(1) m2(1) m3(1) m4(1) m5(1) init_disk_def m6(1) [simplified] m7(1) m8(1) init_alarm_def assms(2))
  with m7 m8 show ?thesis by simp
qed

lemma default_maps_wf:
  "cfg_vga c \<noteq> VGA_SIZE_1600x1200 \<Longrightarrow> maps_wf (default_maps c)"
  by (cases "cfg_vga c"; cases "cfg_sdcard c")
    (simp_all add: default_maps_def entry_def config_defs screen_size_values maps_wf_def range_ok_def apart_def
      NR_MAP_def Let_def)

text \<open>The largest screen does not fit the I/O space: initialisation aborts.\<close>

lemma new_space_too_big: "IO_SPACE_MAX \<le> unat (page_round n) \<Longrightarrow> new_space n m = Inl (Assert_fail ''new_space'')"
  by (simp add: new_space_def Let_def)

lemma init_vga_1600_fails:
  assumes "cfg_vga c = VGA_SIZE_1600x1200"
  shows "\<exists>e. init_vga c E m = Inl e"
proof (cases "init_vga c E m")
  case (Inr m')
  have "new_space (screen_size c) x = Inl (Assert_fail ''new_space'')" for x :: "('a) devs_scheme"
    by (rule new_space_too_big) (use fb_len_values(3) [OF assms] in \<open>simp add: fb_len_def IO_SPACE_MAX_def\<close>)
  with Inr show ?thesis by (auto simp: init_vga_def res_simps)
qed simp

section \<open>Updates keep the address map and the key queue\<close>

lemma send_key_keeps:
  "send_key k d m = Inr m' \<Longrightarrow> same_maps m m' \<and> (kbd_inv (kbd m) \<longrightarrow> kbd_inv (kbd m'))"
  by (auto simp: send_key_def same_maps_def res_simps dest: kbd_inv_enqueue split: if_splits)

lemma sdl_event_loop_keeps:
  "sdl_event_loop evs m = Inr m' \<Longrightarrow> same_maps m (m'\<lparr>nemu_state := nemu_state m\<rparr>) \<and>
     nemu_state m' \<in> {nemu_state m, NEMU_QUIT} \<and> (kbd_inv (kbd m) \<longrightarrow> kbd_inv (kbd m'))"
proof (induction evs m rule: sdl_event_loop.induct)
  case (2 evs m)
  then show ?case by (auto simp: same_maps_def)
next
  case (3 k evs m)
  then show ?case by (auto simp: res_simps same_maps_def dest!: send_key_keeps)
next
  case (4 k evs m)
  then show ?case by (auto simp: res_simps same_maps_def dest!: send_key_keeps)
qed (auto simp: same_maps_def)

text \<open>After a close event the loop leaves the emulator in the quitting state.\<close>

lemma sdl_event_loop_quit:
  "sdl_event_loop evs m = Inr m' \<Longrightarrow> nemu_state m = NEMU_QUIT \<or> SDL_QUIT \<in> set evs \<Longrightarrow>
   nemu_state m' = NEMU_QUIT"
proof (induction evs m rule: sdl_event_loop.induct)
  case (3 k evs m)
  then show ?case by (auto simp: res_simps send_key_def split: if_splits)
next
  case (4 k evs m)
  then show ?case by (auto simp: res_simps send_key_def split: if_splits)
qed auto

end
