(* ===== verification/Memory.thy ===== *)
theory Memory
  imports Devices
begin

text \<open>
  The guest's physical memory and the routing of its accesses: \<^verbatim>\<open>src/memory/paddr.c\<close>,
  \<^verbatim>\<open>src/memory/vaddr.c\<close> and \<^verbatim>\<open>include/cpu/ifetch.h\<close>. An address inside
  \<open>[PMEM_LEFT, PMEM_RIGHT]\<close> is RAM, any other address is given to the I/O map. The RAM is an
  instance of the interface \<open>byte_store\<close>.
\<close>

unbundle bit_operations_syntax

section \<open>State\<close>

record soc = devs +
  pmem :: bytes

definition MSIZE :: nat where "MSIZE = unat CONFIG_MSIZE"

section \<open>paddr.c\<close>

text \<open>Host addresses are indices into \<^verbatim>\<open>pmem\<close>.\<close>

definition guest_to_host :: "u32 \<Rightarrow> nat" where
  "guest_to_host paddr = unat (paddr - CONFIG_MBASE)"

definition host_to_guest :: "nat \<Rightarrow> u32" where
  "host_to_guest haddr = of_nat haddr + CONFIG_MBASE"

definition pmem_read :: "config \<Rightarrow> u32 \<Rightarrow> nat \<Rightarrow> ('a) soc_scheme \<Rightarrow> u32 res" where
  "pmem_read c addr len m = host_read (cfg_rt_check c) MSIZE (pmem m) (guest_to_host addr) len"

definition pmem_write :: "config \<Rightarrow> u32 \<Rightarrow> nat \<Rightarrow> u32 \<Rightarrow> ('a) soc_scheme \<Rightarrow> ('a) soc_scheme res" where
  "pmem_write c addr len data m =
     bindE (host_write (cfg_rt_check c) MSIZE (pmem m) (guest_to_host addr) len data)
       (\<lambda>p. Inr (m\<lparr>pmem := p\<rparr>))"

text \<open>\<^verbatim>\<open>init_mem\<close> with \<^verbatim>\<open>CONFIG_MEM_RANDOM\<close> fills the memory with one random byte.\<close>

definition init_mem :: "u8 \<Rightarrow> ('a) soc_scheme \<Rightarrow> ('a) soc_scheme" where
  "init_mem fill m = m\<lparr>pmem := (\<lambda>_. fill)\<rparr>"

definition paddr_read :: "config \<Rightarrow> host_env \<Rightarrow> u32 \<Rightarrow> nat \<Rightarrow> ('a) soc_scheme \<Rightarrow> (u32 \<times> ('a) soc_scheme) res" where
  "paddr_read c E addr len m =
     (if in_pmem addr then bindE (pmem_read c addr len m) (\<lambda>v. Inr (v, m))
      else mmio_read c (dev_dispatch E) addr len m)"

definition paddr_write :: "config \<Rightarrow> host_env \<Rightarrow> u32 \<Rightarrow> nat \<Rightarrow> u32 \<Rightarrow> ('a) soc_scheme \<Rightarrow> ('a) soc_scheme res" where
  "paddr_write c E addr len data m =
     (if in_pmem addr then pmem_write c addr len data m
      else mmio_write c (dev_dispatch E) addr len data m)"

section \<open>vaddr.c and ifetch.h\<close>

definition vaddr_ifetch :: "config \<Rightarrow> host_env \<Rightarrow> u32 \<Rightarrow> nat \<Rightarrow> ('a) soc_scheme \<Rightarrow> (u32 \<times> ('a) soc_scheme) res" where
  "vaddr_ifetch c E addr len m = paddr_read c E addr len m"

definition vaddr_read :: "config \<Rightarrow> host_env \<Rightarrow> u32 \<Rightarrow> nat \<Rightarrow> ('a) soc_scheme \<Rightarrow> (u32 \<times> ('a) soc_scheme) res" where
  "vaddr_read c E addr len m = paddr_read c E addr len m"

definition vaddr_write :: "config \<Rightarrow> host_env \<Rightarrow> u32 \<Rightarrow> nat \<Rightarrow> u32 \<Rightarrow> ('a) soc_scheme \<Rightarrow> ('a) soc_scheme res" where
  "vaddr_write c E addr len data m = paddr_write c E addr len data m"

definition inst_fetch :: "config \<Rightarrow> host_env \<Rightarrow> u32 \<Rightarrow> nat \<Rightarrow> ('a) soc_scheme \<Rightarrow> (u32 \<times> u32 \<times> ('a) soc_scheme) res" where
  "inst_fetch c E pc len m =
     bindE (vaddr_ifetch c E pc len m) (\<lambda>(inst, m1). Inr (inst, pc + of_nat len, m1))"

lemmas vaddr_defs = vaddr_ifetch_def vaddr_read_def vaddr_write_def

section \<open>Guest addresses and host indices\<close>

lemma MSIZE_eq: "MSIZE = 0x8000000"
  by (simp add: MSIZE_def config_defs)

lemma guest_to_host_less: "in_pmem a \<Longrightarrow> guest_to_host a < MSIZE"
  by (simp add: in_pmem_def guest_to_host_def MSIZE_def word_less_nat_alt)

lemma host_to_guest_in_pmem: "n < MSIZE \<Longrightarrow> in_pmem (host_to_guest n)"
  by (simp add: in_pmem_def host_to_guest_def MSIZE_eq config_defs word_less_nat_alt unat_of_nat)

lemma guest_host_guest [simp]: "host_to_guest (guest_to_host a) = a"
  by (simp add: host_to_guest_def guest_to_host_def)

lemma host_guest_host: "n < MSIZE \<Longrightarrow> guest_to_host (host_to_guest n) = n"
  by (simp add: host_to_guest_def guest_to_host_def MSIZE_eq unat_of_nat)

lemma guest_to_host_add:
  "in_pmem a \<Longrightarrow> guest_to_host a + n < MSIZE \<Longrightarrow> guest_to_host (a + of_nat n) = guest_to_host a + n"
proof -
  assume "in_pmem a" and n: "guest_to_host a + n < MSIZE"
  have "a + of_nat n = host_to_guest (guest_to_host a + n)"
    by (simp add: host_to_guest_def guest_to_host_def)
  then show ?thesis using host_guest_host [OF n] by simp
qed

section \<open>The RAM is a byte store\<close>

text \<open>The RAM part of the state as a store indexed by the offset from \<^verbatim>\<open>CONFIG_MBASE\<close>.\<close>

definition ram_read :: "config \<Rightarrow> host_env \<Rightarrow> ('a) soc_scheme \<Rightarrow> nat \<Rightarrow> nat \<Rightarrow> u32 res" where
  "ram_read c E m n len =
     (if n < MSIZE then bindE (paddr_read c E (host_to_guest n) len m) (\<lambda>(v, _). Inr v) else Inl (Host_oob n))"

definition ram_write :: "config \<Rightarrow> host_env \<Rightarrow> ('a) soc_scheme \<Rightarrow> nat \<Rightarrow> nat \<Rightarrow> u32 \<Rightarrow> ('a) soc_scheme res" where
  "ram_write c E m n len v =
     (if n < MSIZE then paddr_write c E (host_to_guest n) len v m else Inl (Host_oob n))"

lemma ram_read_eq:
  "n < MSIZE \<Longrightarrow> ram_read c E m n len = host_read (cfg_rt_check c) MSIZE (pmem m) n len"
  by (cases "host_read (cfg_rt_check c) MSIZE (pmem m) n len")
    (simp_all add: ram_read_def paddr_read_def pmem_read_def host_to_guest_in_pmem host_guest_host)

lemma ram_write_eq:
  "n < MSIZE \<Longrightarrow> ram_write c E m n len v =
    bindE (host_write (cfg_rt_check c) MSIZE (pmem m) n len v) (\<lambda>p. Inr (m\<lparr>pmem := p\<rparr>))"
  by (simp add: ram_write_def paddr_write_def pmem_write_def host_to_guest_in_pmem host_guest_host)

interpretation ram: byte_store "ram_read c E" "ram_write c E" MSIZE for c E
proof unfold_locales
  fix n k a b :: nat and m m' :: "('a) soc_scheme" and v :: u32
  assume n: "n \<in> {1, 2, 4}"
  show "a + n \<le> MSIZE \<Longrightarrow> \<exists>v. ram_read c E m a n = Inr v"
    using n by (auto simp: ram_read_eq host_read_small)
  show "a + n \<le> MSIZE \<Longrightarrow> \<exists>m'. ram_write c E m a n v = Inr m'"
    using n by (auto simp: ram_write_eq host_write_small)
  assume "ram_write c E m a n v = Inr m'"
  moreover from this have a: "a < MSIZE" by (auto simp: ram_write_def split: if_splits)
  ultimately have w: "host_write (cfg_rt_check c) MSIZE (pmem m) a n v = Inr (pmem m')"
    by (auto simp: ram_write_eq res_simps)
  show "ram_read c E m' a n = Inr (take_bit (8 * n) v)"
    using host_store.rd_wr_same [OF n w] a by (simp add: ram_read_eq)
  assume k: "k \<in> {1, 2, 4}" and d: "a + n \<le> b \<or> b + k \<le> a"
  then show "ram_read c E m' b k = ram_read c E m b k"
    using host_store.rd_wr_other [OF n k w d] by (cases "b < MSIZE") (simp_all add: ram_read_eq, simp add: ram_read_def)
qed

section \<open>Guest accesses\<close>

lemma paddr_read_ram:
  assumes "in_pmem a" and "guest_to_host a + n \<le> MSIZE" and "n \<in> {1, 2, 4}"
  shows "paddr_read c E a n m = Inr (le_read (pmem m) (guest_to_host a) n, m)"
  using assms by (simp add: paddr_read_def pmem_read_def host_read_small)

lemma paddr_write_ram:
  assumes "in_pmem a" and "guest_to_host a + n \<le> MSIZE" and "n \<in> {1, 2, 4}"
  shows "paddr_write c E a n v m = Inr (m\<lparr>pmem := le_write (pmem m) (guest_to_host a) n v\<rparr>)"
  using assms by (simp add: paddr_write_def pmem_write_def host_write_small)

text \<open>
  \<^verbatim>\<open>in_pmem\<close> looks at the first byte only: an access that starts in the last bytes of the
  memory and runs over its end passes the check and leaves the host array.
\<close>

lemma paddr_write_overrun:
  assumes "in_pmem a" and "MSIZE < guest_to_host a + n" and "n \<in> {2, 4}"
  shows "paddr_write c E a n v m = Inl (Host_oob (guest_to_host a))"
  using assms by (auto simp: paddr_write_def pmem_write_def host_write_small in_object_def)

lemma paddr_read_unmapped:
  assumes "\<not> in_pmem a" and "list_all (\<lambda>e. \<not> map_inside e a) (mmio_maps m)" and "1 \<le> n" and "n \<le> 8"
  shows "paddr_read c E a n m = Inl (Out_of_bound a)"
  using assms by (simp add: paddr_read_def mmio_read_unmapped)

lemma paddr_write_unmapped:
  assumes "\<not> in_pmem a" and "list_all (\<lambda>e. \<not> map_inside e a) (mmio_maps m)" and "1 \<le> n" and "n \<le> 8"
  shows "paddr_write c E a n v m = Inl (Out_of_bound a)"
  using assms by (simp add: paddr_write_def mmio_write_unmapped)

text \<open>No access changes the address map.\<close>

lemma paddr_read_maps: "paddr_read c E a n m = Inr (v, m') \<Longrightarrow> mmio_maps m' = mmio_maps m"
  by (auto simp: paddr_read_def res_simps dest: dev.mmio_read_keeps split: if_splits)

lemma paddr_write_maps: "paddr_write c E a n v m = Inr m' \<Longrightarrow> mmio_maps m' = mmio_maps m"
  by (auto simp: paddr_write_def pmem_write_def res_simps dest: dev.mmio_write_keeps split: if_splits)

end
