(* ===== verification/Cpu.thy ===== *)
theory Cpu
  imports Memory
begin

text \<open>
  The part of the processor state every instruction set shares: the general registers and
  the program counter of \<^verbatim>\<open>CPU_state\<close> (\<^verbatim>\<open>include/isa.h\<close>), the \<^verbatim>\<open>Decode\<close> record of
  \<^verbatim>\<open>include/cpu/decode.h\<close> and the statics of \<^verbatim>\<open>src/cpu/cpu-exec.c\<close>. The \<^verbatim>\<open>Decode\<close> record
  is a local of \<^verbatim>\<open>execute\<close> that lives across its iterations; the model keeps it in the
  state. Its value before the first instruction is indeterminate in C.
\<close>

record cpu = soc +
  gpr :: "nat \<Rightarrow> u32"
  cpu_pc :: u32
  d_pc :: u32
  d_snpc :: u32
  d_dnpc :: u32
  d_inst :: u32
  g_nr_guest_inst :: u64
  g_timer :: u64
  g_print_step :: bool

definition set_gpr :: "nat \<Rightarrow> u32 \<Rightarrow> ('a) cpu_scheme \<Rightarrow> ('a) cpu_scheme" where
  "set_gpr rd v m = m\<lparr>gpr := (gpr m)(rd := v)\<rparr>"

lemma set_gpr_sel [simp]: "gpr (set_gpr rd v m) i = (if i = rd then v else gpr m i)"
  by (simp add: set_gpr_def)

text \<open>\<^verbatim>\<open>src/engine/interpreter/hostcall.c\<close>: \<^verbatim>\<open>invalid_inst\<close> fetches two words for its message.\<close>

definition invalid_inst :: "config \<Rightarrow> host_env \<Rightarrow> u32 \<Rightarrow> ('a) cpu_scheme \<Rightarrow> ('a) cpu_scheme res" where
  "invalid_inst c E thispc m =
     bindE (inst_fetch c E thispc 4 m) (\<lambda>(w0, pc1, m1).
     bindE (inst_fetch c E pc1 4 m1) (\<lambda>(w1, pc2, m2).
     Inr (set_nemu_state c NEMU_ABORT thispc (- 1) (emit (OutMsg ''invalid opcode'' [thispc, w0, w1]) m2))))"

end
