(* ===== verification/CpuBits.thy ===== *)
theory CpuBits
  imports Prelude
begin

text \<open>
  The constants of \<^verbatim>\<open>src/isa/riscv32/local-include/cpu_bits.h\<close>: the CSR address table, the
  bits of mstatus and sstatus, the exception and interrupt numbers. The tables keep the
  names of the header; the constants the emulator uses also have definitions of their own.
\<close>

unbundle bit_operations_syntax

section \<open>CSR addresses\<close>

definition csr_addrs_user :: "(string \<times> u32) list" where
  "csr_addrs_user = [
    (''CSR_USTATUS'', 0x000), (''CSR_UIE'', 0x004), (''CSR_UTVEC'', 0x005),
    (''CSR_USCRATCH'', 0x040), (''CSR_UEPC'', 0x041), (''CSR_UCAUSE'', 0x042),
    (''CSR_UTVAL'', 0x043), (''CSR_UIP'', 0x044), (''CSR_FFLAGS'', 0x001), (''CSR_FRM'', 0x002),
    (''CSR_FCSR'', 0x003), (''CSR_VSTART'', 0x008), (''CSR_VXSAT'', 0x009), (''CSR_VXRM'', 0x00a),
    (''CSR_VCSR'', 0x00f), (''CSR_VL'', 0xc20), (''CSR_VTYPE'', 0xc21), (''CSR_VLENB'', 0xc22),
    (''CSR_CYCLE'', 0xc00), (''CSR_TIME'', 0xc01), (''CSR_INSTRET'', 0xc02),
    (''CSR_HPMCOUNTER3'', 0xc03), (''CSR_HPMCOUNTER4'', 0xc04), (''CSR_HPMCOUNTER5'', 0xc05),
    (''CSR_HPMCOUNTER6'', 0xc06), (''CSR_HPMCOUNTER7'', 0xc07), (''CSR_HPMCOUNTER8'', 0xc08),
    (''CSR_HPMCOUNTER9'', 0xc09), (''CSR_HPMCOUNTER10'', 0xc0a), (''CSR_HPMCOUNTER11'', 0xc0b),
    (''CSR_HPMCOUNTER12'', 0xc0c), (''CSR_HPMCOUNTER13'', 0xc0d), (''CSR_HPMCOUNTER14'', 0xc0e),
    (''CSR_HPMCOUNTER15'', 0xc0f), (''CSR_HPMCOUNTER16'', 0xc10), (''CSR_HPMCOUNTER17'', 0xc11),
    (''CSR_HPMCOUNTER18'', 0xc12), (''CSR_HPMCOUNTER19'', 0xc13), (''CSR_HPMCOUNTER20'', 0xc14),
    (''CSR_HPMCOUNTER21'', 0xc15), (''CSR_HPMCOUNTER22'', 0xc16), (''CSR_HPMCOUNTER23'', 0xc17),
    (''CSR_HPMCOUNTER24'', 0xc18), (''CSR_HPMCOUNTER25'', 0xc19), (''CSR_HPMCOUNTER26'', 0xc1a),
    (''CSR_HPMCOUNTER27'', 0xc1b), (''CSR_HPMCOUNTER28'', 0xc1c), (''CSR_HPMCOUNTER29'', 0xc1d),
    (''CSR_HPMCOUNTER30'', 0xc1e), (''CSR_HPMCOUNTER31'', 0xc1f), (''CSR_CYCLEH'', 0xc80),
    (''CSR_TIMEH'', 0xc81), (''CSR_INSTRETH'', 0xc82), (''CSR_HPMCOUNTER3H'', 0xc83),
    (''CSR_HPMCOUNTER4H'', 0xc84), (''CSR_HPMCOUNTER5H'', 0xc85), (''CSR_HPMCOUNTER6H'', 0xc86),
    (''CSR_HPMCOUNTER7H'', 0xc87), (''CSR_HPMCOUNTER8H'', 0xc88), (''CSR_HPMCOUNTER9H'', 0xc89),
    (''CSR_HPMCOUNTER10H'', 0xc8a), (''CSR_HPMCOUNTER11H'', 0xc8b),
    (''CSR_HPMCOUNTER12H'', 0xc8c), (''CSR_HPMCOUNTER13H'', 0xc8d),
    (''CSR_HPMCOUNTER14H'', 0xc8e), (''CSR_HPMCOUNTER15H'', 0xc8f),
    (''CSR_HPMCOUNTER16H'', 0xc90), (''CSR_HPMCOUNTER17H'', 0xc91),
    (''CSR_HPMCOUNTER18H'', 0xc92), (''CSR_HPMCOUNTER19H'', 0xc93),
    (''CSR_HPMCOUNTER20H'', 0xc94), (''CSR_HPMCOUNTER21H'', 0xc95),
    (''CSR_HPMCOUNTER22H'', 0xc96), (''CSR_HPMCOUNTER23H'', 0xc97),
    (''CSR_HPMCOUNTER24H'', 0xc98), (''CSR_HPMCOUNTER25H'', 0xc99),
    (''CSR_HPMCOUNTER26H'', 0xc9a), (''CSR_HPMCOUNTER27H'', 0xc9b),
    (''CSR_HPMCOUNTER28H'', 0xc9c), (''CSR_HPMCOUNTER29H'', 0xc9d),
    (''CSR_HPMCOUNTER30H'', 0xc9e), (''CSR_HPMCOUNTER31H'', 0xc9f)]"

definition csr_addrs_system :: "(string \<times> u32) list" where
  "csr_addrs_system = [
    (''CSR_MCYCLE'', 0xb00), (''CSR_MINSTRET'', 0xb02), (''CSR_MCYCLEH'', 0xb80),
    (''CSR_MINSTRETH'', 0xb82), (''CSR_MVENDORID'', 0xf11), (''CSR_MARCHID'', 0xf12),
    (''CSR_MIMPID'', 0xf13), (''CSR_MHARTID'', 0xf14), (''CSR_MCONFIGPTR'', 0xf15),
    (''CSR_MSTATUS'', 0x300), (''CSR_MISA'', 0x301), (''CSR_MEDELEG'', 0x302),
    (''CSR_MIDELEG'', 0x303), (''CSR_MIE'', 0x304), (''CSR_MTVEC'', 0x305),
    (''CSR_MCOUNTEREN'', 0x306), (''CSR_MNSCRATCH'', 0x740), (''CSR_MNEPC'', 0x741),
    (''CSR_MNCAUSE'', 0x742), (''CSR_MNSTATUS'', 0x744), (''CSR_MSTATUSH'', 0x310),
    (''CSR_MSCRATCH'', 0x340), (''CSR_MEPC'', 0x341), (''CSR_MCAUSE'', 0x342),
    (''CSR_MTVAL'', 0x343), (''CSR_MIP'', 0x344), (''CSR_MISELECT'', 0x350),
    (''CSR_MIREG'', 0x351), (''CSR_MTOPEI'', 0x35c), (''CSR_MTOPI'', 0xfb0),
    (''CSR_MVIEN'', 0x308), (''CSR_MVIP'', 0x309), (''CSR_MIDELEGH'', 0x313),
    (''CSR_MIEH'', 0x314), (''CSR_MVIENH'', 0x318), (''CSR_MVIPH'', 0x319), (''CSR_MIPH'', 0x354),
    (''CSR_SSTATUS'', 0x100), (''CSR_SIE'', 0x104), (''CSR_STVEC'', 0x105),
    (''CSR_SCOUNTEREN'', 0x106), (''CSR_SENVCFG'', 0x10a), (''CSR_SSTATEEN0'', 0x10c),
    (''CSR_SSTATEEN1'', 0x10d), (''CSR_SSTATEEN2'', 0x10e), (''CSR_SSTATEEN3'', 0x10f),
    (''CSR_SSCRATCH'', 0x140), (''CSR_SEPC'', 0x141), (''CSR_SCAUSE'', 0x142),
    (''CSR_STVAL'', 0x143), (''CSR_SIP'', 0x144), (''CSR_STIMECMP'', 0x14d),
    (''CSR_STIMECMPH'', 0x15d), (''CSR_SPTBR'', 0x180), (''CSR_SATP'', 0x180),
    (''CSR_SISELECT'', 0x150), (''CSR_SIREG'', 0x151), (''CSR_STOPEI'', 0x15c),
    (''CSR_STOPI'', 0xdb0), (''CSR_SIEH'', 0x114), (''CSR_SIPH'', 0x154)]"

definition csr_addrs_hyper :: "(string \<times> u32) list" where
  "csr_addrs_hyper = [
    (''CSR_HSTATUS'', 0x600), (''CSR_HEDELEG'', 0x602), (''CSR_HIDELEG'', 0x603),
    (''CSR_HIE'', 0x604), (''CSR_HCOUNTEREN'', 0x606), (''CSR_HGEIE'', 0x607),
    (''CSR_HTVAL'', 0x643), (''CSR_HVIP'', 0x645), (''CSR_HIP'', 0x644), (''CSR_HTINST'', 0x64a),
    (''CSR_HGEIP'', 0xe12), (''CSR_HGATP'', 0x680), (''CSR_HTIMEDELTA'', 0x605),
    (''CSR_HTIMEDELTAH'', 0x615), (''CSR_HENVCFG'', 0x60a), (''CSR_HENVCFGH'', 0x61a),
    (''CSR_HSTATEEN0'', 0x60c), (''CSR_HSTATEEN0H'', 0x61c), (''CSR_HSTATEEN1'', 0x60d),
    (''CSR_HSTATEEN1H'', 0x61d), (''CSR_HSTATEEN2'', 0x60e), (''CSR_HSTATEEN2H'', 0x61e),
    (''CSR_HSTATEEN3'', 0x60f), (''CSR_HSTATEEN3H'', 0x61f), (''CSR_VSSTATUS'', 0x200),
    (''CSR_VSIE'', 0x204), (''CSR_VSTVEC'', 0x205), (''CSR_VSSCRATCH'', 0x240),
    (''CSR_VSEPC'', 0x241), (''CSR_VSCAUSE'', 0x242), (''CSR_VSTVAL'', 0x243),
    (''CSR_VSIP'', 0x244), (''CSR_VSATP'', 0x280), (''CSR_VSTIMECMP'', 0x24d),
    (''CSR_VSTIMECMPH'', 0x25d), (''CSR_MTINST'', 0x34a), (''CSR_MTVAL2'', 0x34b),
    (''CSR_HVIEN'', 0x608), (''CSR_HVICTL'', 0x609), (''CSR_HVIPRIO1'', 0x646),
    (''CSR_HVIPRIO2'', 0x647), (''CSR_VSISELECT'', 0x250), (''CSR_VSIREG'', 0x251),
    (''CSR_VSTOPEI'', 0x25c), (''CSR_VSTOPI'', 0xeb0), (''CSR_HIDELEGH'', 0x613),
    (''CSR_HVIENH'', 0x618), (''CSR_HVIPH'', 0x655), (''CSR_HVIPRIO1H'', 0x656),
    (''CSR_HVIPRIO2H'', 0x657), (''CSR_VSIEH'', 0x214), (''CSR_VSIPH'', 0x254),
    (''CSR_MENVCFG'', 0x30a), (''CSR_MENVCFGH'', 0x31a), (''CSR_MSTATEEN0'', 0x30c),
    (''CSR_MSTATEEN0H'', 0x31c), (''CSR_MSTATEEN1'', 0x30d), (''CSR_MSTATEEN1H'', 0x31d),
    (''CSR_MSTATEEN2'', 0x30e), (''CSR_MSTATEEN2H'', 0x31e), (''CSR_MSTATEEN3'', 0x30f),
    (''CSR_MSTATEEN3H'', 0x31f), (''CSR_MSECCFG'', 0x747), (''CSR_MSECCFGH'', 0x757),
    (''CSR_PMPCFG0'', 0x3a0), (''CSR_PMPCFG1'', 0x3a1), (''CSR_PMPCFG2'', 0x3a2),
    (''CSR_PMPCFG3'', 0x3a3), (''CSR_PMPADDR0'', 0x3b0), (''CSR_PMPADDR1'', 0x3b1),
    (''CSR_PMPADDR2'', 0x3b2), (''CSR_PMPADDR3'', 0x3b3), (''CSR_PMPADDR4'', 0x3b4),
    (''CSR_PMPADDR5'', 0x3b5), (''CSR_PMPADDR6'', 0x3b6), (''CSR_PMPADDR7'', 0x3b7),
    (''CSR_PMPADDR8'', 0x3b8), (''CSR_PMPADDR9'', 0x3b9), (''CSR_PMPADDR10'', 0x3ba),
    (''CSR_PMPADDR11'', 0x3bb), (''CSR_PMPADDR12'', 0x3bc), (''CSR_PMPADDR13'', 0x3bd),
    (''CSR_PMPADDR14'', 0x3be), (''CSR_PMPADDR15'', 0x3bf), (''CSR_TSELECT'', 0x7a0),
    (''CSR_TDATA1'', 0x7a1), (''CSR_TDATA2'', 0x7a2), (''CSR_TDATA3'', 0x7a3),
    (''CSR_TINFO'', 0x7a4), (''CSR_DCSR'', 0x7b0), (''CSR_DPC'', 0x7b1),
    (''CSR_DSCRATCH'', 0x7b2), (''CSR_DSCRATCH0'', 0x7b2), (''CSR_DSCRATCH1'', 0x7b3)]"

definition csr_addrs_perf :: "(string \<times> u32) list" where
  "csr_addrs_perf = [
    (''CSR_MHPMCOUNTER3'', 0xb03), (''CSR_MHPMCOUNTER4'', 0xb04), (''CSR_MHPMCOUNTER5'', 0xb05),
    (''CSR_MHPMCOUNTER6'', 0xb06), (''CSR_MHPMCOUNTER7'', 0xb07), (''CSR_MHPMCOUNTER8'', 0xb08),
    (''CSR_MHPMCOUNTER9'', 0xb09), (''CSR_MHPMCOUNTER10'', 0xb0a), (''CSR_MHPMCOUNTER11'', 0xb0b),
    (''CSR_MHPMCOUNTER12'', 0xb0c), (''CSR_MHPMCOUNTER13'', 0xb0d),
    (''CSR_MHPMCOUNTER14'', 0xb0e), (''CSR_MHPMCOUNTER15'', 0xb0f),
    (''CSR_MHPMCOUNTER16'', 0xb10), (''CSR_MHPMCOUNTER17'', 0xb11),
    (''CSR_MHPMCOUNTER18'', 0xb12), (''CSR_MHPMCOUNTER19'', 0xb13),
    (''CSR_MHPMCOUNTER20'', 0xb14), (''CSR_MHPMCOUNTER21'', 0xb15),
    (''CSR_MHPMCOUNTER22'', 0xb16), (''CSR_MHPMCOUNTER23'', 0xb17),
    (''CSR_MHPMCOUNTER24'', 0xb18), (''CSR_MHPMCOUNTER25'', 0xb19),
    (''CSR_MHPMCOUNTER26'', 0xb1a), (''CSR_MHPMCOUNTER27'', 0xb1b),
    (''CSR_MHPMCOUNTER28'', 0xb1c), (''CSR_MHPMCOUNTER29'', 0xb1d),
    (''CSR_MHPMCOUNTER30'', 0xb1e), (''CSR_MHPMCOUNTER31'', 0xb1f),
    (''CSR_MCOUNTINHIBIT'', 0x320), (''CSR_MHPMEVENT3'', 0x323), (''CSR_MHPMEVENT4'', 0x324),
    (''CSR_MHPMEVENT5'', 0x325), (''CSR_MHPMEVENT6'', 0x326), (''CSR_MHPMEVENT7'', 0x327),
    (''CSR_MHPMEVENT8'', 0x328), (''CSR_MHPMEVENT9'', 0x329), (''CSR_MHPMEVENT10'', 0x32a),
    (''CSR_MHPMEVENT11'', 0x32b), (''CSR_MHPMEVENT12'', 0x32c), (''CSR_MHPMEVENT13'', 0x32d),
    (''CSR_MHPMEVENT14'', 0x32e), (''CSR_MHPMEVENT15'', 0x32f), (''CSR_MHPMEVENT16'', 0x330),
    (''CSR_MHPMEVENT17'', 0x331), (''CSR_MHPMEVENT18'', 0x332), (''CSR_MHPMEVENT19'', 0x333),
    (''CSR_MHPMEVENT20'', 0x334), (''CSR_MHPMEVENT21'', 0x335), (''CSR_MHPMEVENT22'', 0x336),
    (''CSR_MHPMEVENT23'', 0x337), (''CSR_MHPMEVENT24'', 0x338), (''CSR_MHPMEVENT25'', 0x339),
    (''CSR_MHPMEVENT26'', 0x33a), (''CSR_MHPMEVENT27'', 0x33b), (''CSR_MHPMEVENT28'', 0x33c),
    (''CSR_MHPMEVENT29'', 0x33d), (''CSR_MHPMEVENT30'', 0x33e), (''CSR_MHPMEVENT31'', 0x33f),
    (''CSR_MHPMEVENT3H'', 0x723), (''CSR_MHPMEVENT4H'', 0x724), (''CSR_MHPMEVENT5H'', 0x725),
    (''CSR_MHPMEVENT6H'', 0x726), (''CSR_MHPMEVENT7H'', 0x727), (''CSR_MHPMEVENT8H'', 0x728),
    (''CSR_MHPMEVENT9H'', 0x729), (''CSR_MHPMEVENT10H'', 0x72a), (''CSR_MHPMEVENT11H'', 0x72b),
    (''CSR_MHPMEVENT12H'', 0x72c), (''CSR_MHPMEVENT13H'', 0x72d), (''CSR_MHPMEVENT14H'', 0x72e),
    (''CSR_MHPMEVENT15H'', 0x72f), (''CSR_MHPMEVENT16H'', 0x730), (''CSR_MHPMEVENT17H'', 0x731),
    (''CSR_MHPMEVENT18H'', 0x732), (''CSR_MHPMEVENT19H'', 0x733), (''CSR_MHPMEVENT20H'', 0x734),
    (''CSR_MHPMEVENT21H'', 0x735), (''CSR_MHPMEVENT22H'', 0x736), (''CSR_MHPMEVENT23H'', 0x737),
    (''CSR_MHPMEVENT24H'', 0x738), (''CSR_MHPMEVENT25H'', 0x739), (''CSR_MHPMEVENT26H'', 0x73a),
    (''CSR_MHPMEVENT27H'', 0x73b), (''CSR_MHPMEVENT28H'', 0x73c), (''CSR_MHPMEVENT29H'', 0x73d),
    (''CSR_MHPMEVENT30H'', 0x73e), (''CSR_MHPMEVENT31H'', 0x73f), (''CSR_MHPMCOUNTER3H'', 0xb83),
    (''CSR_MHPMCOUNTER4H'', 0xb84), (''CSR_MHPMCOUNTER5H'', 0xb85),
    (''CSR_MHPMCOUNTER6H'', 0xb86), (''CSR_MHPMCOUNTER7H'', 0xb87),
    (''CSR_MHPMCOUNTER8H'', 0xb88), (''CSR_MHPMCOUNTER9H'', 0xb89),
    (''CSR_MHPMCOUNTER10H'', 0xb8a), (''CSR_MHPMCOUNTER11H'', 0xb8b),
    (''CSR_MHPMCOUNTER12H'', 0xb8c), (''CSR_MHPMCOUNTER13H'', 0xb8d),
    (''CSR_MHPMCOUNTER14H'', 0xb8e), (''CSR_MHPMCOUNTER15H'', 0xb8f),
    (''CSR_MHPMCOUNTER16H'', 0xb90), (''CSR_MHPMCOUNTER17H'', 0xb91),
    (''CSR_MHPMCOUNTER18H'', 0xb92), (''CSR_MHPMCOUNTER19H'', 0xb93),
    (''CSR_MHPMCOUNTER20H'', 0xb94), (''CSR_MHPMCOUNTER21H'', 0xb95),
    (''CSR_MHPMCOUNTER22H'', 0xb96), (''CSR_MHPMCOUNTER23H'', 0xb97),
    (''CSR_MHPMCOUNTER24H'', 0xb98), (''CSR_MHPMCOUNTER25H'', 0xb99),
    (''CSR_MHPMCOUNTER26H'', 0xb9a), (''CSR_MHPMCOUNTER27H'', 0xb9b),
    (''CSR_MHPMCOUNTER28H'', 0xb9c), (''CSR_MHPMCOUNTER29H'', 0xb9d),
    (''CSR_MHPMCOUNTER30H'', 0xb9e), (''CSR_MHPMCOUNTER31H'', 0xb9f)]"

definition csr_addrs_ext :: "(string \<times> u32) list" where
  "csr_addrs_ext = [
    (''CSR_UMTE'', 0x4c0), (''CSR_UPMMASK'', 0x4c1), (''CSR_UPMBASE'', 0x4c2),
    (''CSR_MMTE'', 0x3c0), (''CSR_MPMMASK'', 0x3c1), (''CSR_MPMBASE'', 0x3c2),
    (''CSR_SMTE'', 0x1c0), (''CSR_SPMMASK'', 0x1c1), (''CSR_SPMBASE'', 0x1c2),
    (''CSR_VSMTE'', 0x2c0), (''CSR_VSPMMASK'', 0x2c1), (''CSR_VSPMBASE'', 0x2c2),
    (''CSR_SCOUNTOVF'', 0xda0), (''CSR_SEED'', 0x015), (''CSR_JVT'', 0x017)]"

definition csr_addrs :: "(string \<times> u32) list" where
  "csr_addrs = csr_addrs_user @ csr_addrs_system @ csr_addrs_hyper @ csr_addrs_perf @ csr_addrs_ext"

section \<open>Status bits\<close>

definition mstatus_bits :: "(string \<times> u64) list" where
  "mstatus_bits = [
    (''MSTATUS_UIE'', 0x00000001), (''MSTATUS_SIE'', 0x00000002), (''MSTATUS_MIE'', 0x00000008),
    (''MSTATUS_UPIE'', 0x00000010), (''MSTATUS_SPIE'', 0x00000020), (''MSTATUS_UBE'', 0x00000040),
    (''MSTATUS_MPIE'', 0x00000080), (''MSTATUS_SPP'', 0x00000100), (''MSTATUS_VS'', 0x00000600),
    (''MSTATUS_MPP'', 0x00001800), (''MSTATUS_FS'', 0x00006000), (''MSTATUS_XS'', 0x00018000),
    (''MSTATUS_MPRV'', 0x00020000), (''MSTATUS_SUM'', 0x00040000), (''MSTATUS_MXR'', 0x00080000),
    (''MSTATUS_TVM'', 0x00100000), (''MSTATUS_TW'', 0x00200000), (''MSTATUS_TSR'', 0x00400000),
    (''MSTATUS_GVA'', 0x4000000000), (''MSTATUS_MPV'', 0x8000000000),
    (''MSTATUS64_UXL'', 0x0000000300000000), (''MSTATUS64_SXL'', 0x0000000c00000000),
    (''MSTATUS32_SD'', 0x80000000), (''MSTATUS64_SD'', 0x8000000000000000)]"

definition sstatus_bits :: "(string \<times> u64) list" where
  "sstatus_bits = [
    (''SSTATUS_UIE'', 0x00000001), (''SSTATUS_SIE'', 0x00000002), (''SSTATUS_UPIE'', 0x00000010),
    (''SSTATUS_SPIE'', 0x00000020), (''SSTATUS_SPP'', 0x00000100), (''SSTATUS_VS'', 0x00000600),
    (''SSTATUS_FS'', 0x00006000), (''SSTATUS_XS'', 0x00018000), (''SSTATUS_SUM'', 0x00040000),
    (''SSTATUS_MXR'', 0x00080000), (''SSTATUS64_UXL'', 0x0000000300000000),
    (''SSTATUS32_SD'', 0x80000000), (''SSTATUS64_SD'', 0x8000000000000000)]"

section \<open>Exception and interrupt numbers\<close>

definition exception_codes :: "(string \<times> u32) list" where
  "exception_codes = [
    (''RISCV_EXCP_NONE'', -1), (''RISCV_EXCP_INST_ADDR_MIS'', 0x0),
    (''RISCV_EXCP_INST_ACCESS_FAULT'', 0x1), (''RISCV_EXCP_ILLEGAL_INST'', 0x2),
    (''RISCV_EXCP_BREAKPOINT'', 0x3), (''RISCV_EXCP_LOAD_ADDR_MIS'', 0x4),
    (''RISCV_EXCP_LOAD_ACCESS_FAULT'', 0x5), (''RISCV_EXCP_STORE_AMO_ADDR_MIS'', 0x6),
    (''RISCV_EXCP_STORE_AMO_ACCESS_FAULT'', 0x7), (''RISCV_EXCP_U_ECALL'', 0x8),
    (''RISCV_EXCP_S_ECALL'', 0x9), (''RISCV_EXCP_VS_ECALL'', 0xa), (''RISCV_EXCP_M_ECALL'', 0xb),
    (''RISCV_EXCP_INST_PAGE_FAULT'', 0xc), (''RISCV_EXCP_LOAD_PAGE_FAULT'', 0xd),
    (''RISCV_EXCP_STORE_PAGE_FAULT'', 0xf), (''RISCV_EXCP_SEMIHOST'', 0x10),
    (''RISCV_EXCP_INST_GUEST_PAGE_FAULT'', 0x14), (''RISCV_EXCP_LOAD_GUEST_ACCESS_FAULT'', 0x15),
    (''RISCV_EXCP_VIRT_INSTRUCTION_FAULT'', 0x16),
    (''RISCV_EXCP_STORE_GUEST_AMO_ACCESS_FAULT'', 0x17)]"

definition irq_numbers :: "(string \<times> nat) list" where
  "irq_numbers = [
    (''IRQ_U_SOFT'', 0), (''IRQ_S_SOFT'', 1), (''IRQ_VS_SOFT'', 2), (''IRQ_M_SOFT'', 3),
    (''IRQ_U_TIMER'', 4), (''IRQ_S_TIMER'', 5), (''IRQ_VS_TIMER'', 6), (''IRQ_M_TIMER'', 7),
    (''IRQ_U_EXT'', 8), (''IRQ_S_EXT'', 9), (''IRQ_VS_EXT'', 10), (''IRQ_M_EXT'', 11),
    (''IRQ_S_GEXT'', 12), (''IRQ_PMU_OVF'', 13), (''IRQ_LOCAL_MAX'', 16)]"

definition mip_masks :: "(string \<times> u32) list" where
  "mip_masks = map (\<lambda>(nm, irq). (nm, push_bit irq 1)) [
    (''MIP_USIP'', 0), (''MIP_SSIP'', 1), (''MIP_VSSIP'', 2), (''MIP_MSIP'', 3),
    (''MIP_UTIP'', 4), (''MIP_STIP'', 5), (''MIP_VSTIP'', 6), (''MIP_MTIP'', 7),
    (''MIP_UEIP'', 8), (''MIP_SEIP'', 9), (''MIP_VSEIP'', 10), (''MIP_MEIP'', 11),
    (''MIP_SGEIP'', 12), (''MIP_LCOFIP'', 13)]"

section \<open>The constants the emulator uses\<close>

named_theorems bits_defs \<open>constants of the header\<close>

definition CSR_MVENDORID :: u32 where [bits_defs]: "CSR_MVENDORID = 0xf11"
definition CSR_MHARTID :: u32 where [bits_defs]: "CSR_MHARTID = 0xf14"
definition CSR_MSTATUS :: u32 where [bits_defs]: "CSR_MSTATUS = 0x300"
definition CSR_MIP :: u32 where [bits_defs]: "CSR_MIP = 0x344"
definition CSR_MIE :: u32 where [bits_defs]: "CSR_MIE = 0x304"
definition CSR_MCAUSE :: u32 where [bits_defs]: "CSR_MCAUSE = 0x342"
definition CSR_MTVEC :: u32 where [bits_defs]: "CSR_MTVEC = 0x305"
definition CSR_MTVAL :: u32 where [bits_defs]: "CSR_MTVAL = 0x343"
definition CSR_MEPC :: u32 where [bits_defs]: "CSR_MEPC = 0x341"
definition CSR_MSCRATCH :: u32 where [bits_defs]: "CSR_MSCRATCH = 0x340"
definition CSR_MISA :: u32 where [bits_defs]: "CSR_MISA = 0x301"
definition CSR_MARCHID :: u32 where [bits_defs]: "CSR_MARCHID = 0xf12"
definition CSR_MIMPID :: u32 where [bits_defs]: "CSR_MIMPID = 0xf13"
definition CSR_PMPADDR0 :: u32 where [bits_defs]: "CSR_PMPADDR0 = 0x3b0"
definition CSR_PMPADDR1 :: u32 where [bits_defs]: "CSR_PMPADDR1 = 0x3b1"
definition CSR_PMPCFG0 :: u32 where [bits_defs]: "CSR_PMPCFG0 = 0x3a0"
definition CSR_TSELECT :: u32 where [bits_defs]: "CSR_TSELECT = 0x7a0"
definition CSR_TDATA1 :: u32 where [bits_defs]: "CSR_TDATA1 = 0x7a1"
definition CSR_TDATA2 :: u32 where [bits_defs]: "CSR_TDATA2 = 0x7a2"
definition CSR_TDATA3 :: u32 where [bits_defs]: "CSR_TDATA3 = 0x7a3"
definition CSR_TINFO :: u32 where [bits_defs]: "CSR_TINFO = 0x7a4"
definition CSR_DCSR :: u32 where [bits_defs]: "CSR_DCSR = 0x7b0"
definition CSR_DPC :: u32 where [bits_defs]: "CSR_DPC = 0x7b1"
definition CSR_DSCRATCH0 :: u32 where [bits_defs]: "CSR_DSCRATCH0 = 0x7b2"
definition CSR_MEDELEG :: u32 where [bits_defs]: "CSR_MEDELEG = 0x302"
definition CSR_MIDELEG :: u32 where [bits_defs]: "CSR_MIDELEG = 0x303"
definition CSR_MCOUNTEREN :: u32 where [bits_defs]: "CSR_MCOUNTEREN = 0x306"
definition CSR_SSTATUS :: u32 where [bits_defs]: "CSR_SSTATUS = 0x100"
definition CSR_SIE :: u32 where [bits_defs]: "CSR_SIE = 0x104"
definition CSR_STVEC :: u32 where [bits_defs]: "CSR_STVEC = 0x105"
definition CSR_SCOUNTEREN :: u32 where [bits_defs]: "CSR_SCOUNTEREN = 0x106"
definition CSR_SENVCFG :: u32 where [bits_defs]: "CSR_SENVCFG = 0x10a"
definition CSR_SSCRATCH :: u32 where [bits_defs]: "CSR_SSCRATCH = 0x140"
definition CSR_SEPC :: u32 where [bits_defs]: "CSR_SEPC = 0x141"
definition CSR_SCAUSE :: u32 where [bits_defs]: "CSR_SCAUSE = 0x142"
definition CSR_STVAL :: u32 where [bits_defs]: "CSR_STVAL = 0x143"
definition CSR_SIP :: u32 where [bits_defs]: "CSR_SIP = 0x144"
definition CSR_SATP :: u32 where [bits_defs]: "CSR_SATP = 0x180"
definition MSTATUS_SIE :: u32 where [bits_defs]: "MSTATUS_SIE = 0x00000002"
definition MSTATUS_MIE :: u32 where [bits_defs]: "MSTATUS_MIE = 0x00000008"
definition MSTATUS_SPIE :: u32 where [bits_defs]: "MSTATUS_SPIE = 0x00000020"
definition MSTATUS_MPIE :: u32 where [bits_defs]: "MSTATUS_MPIE = 0x00000080"
definition MSTATUS_SPP :: u32 where [bits_defs]: "MSTATUS_SPP = 0x00000100"
definition MSTATUS_MPP :: u32 where [bits_defs]: "MSTATUS_MPP = 0x00001800"
definition SSTATUS_SIE :: u32 where [bits_defs]: "SSTATUS_SIE = 0x00000002"
definition SSTATUS_SPIE :: u32 where [bits_defs]: "SSTATUS_SPIE = 0x00000020"
definition SSTATUS_SPP :: u32 where [bits_defs]: "SSTATUS_SPP = 0x00000100"
definition RISCV_EXCP_NONE :: u32 where [bits_defs]: "RISCV_EXCP_NONE = -1"
definition RISCV_EXCP_INST_ADDR_MIS :: u32 where [bits_defs]: "RISCV_EXCP_INST_ADDR_MIS = 0x0"
definition RISCV_EXCP_ILLEGAL_INST :: u32 where [bits_defs]: "RISCV_EXCP_ILLEGAL_INST = 0x2"
definition RISCV_EXCP_LOAD_ADDR_MIS :: u32 where [bits_defs]: "RISCV_EXCP_LOAD_ADDR_MIS = 0x4"
definition RISCV_EXCP_STORE_AMO_ADDR_MIS :: u32 where [bits_defs]: "RISCV_EXCP_STORE_AMO_ADDR_MIS = 0x6"
definition RISCV_EXCP_U_ECALL :: u32 where [bits_defs]: "RISCV_EXCP_U_ECALL = 0x8"
definition RISCV_EXCP_M_ECALL :: u32 where [bits_defs]: "RISCV_EXCP_M_ECALL = 0xb"
definition MIP_SSIP :: u32 where [bits_defs]: "MIP_SSIP = 0x2"
definition MIP_MTIP :: u32 where [bits_defs]: "MIP_MTIP = 0x80"

section \<open>The supervisor view of the status register\<close>

text \<open>Every sstatus bit of the header is the mstatus bit of the same name.\<close>

lemma sstatus_bits_shared:
  "list_all (\<lambda>(nm, v). map_of mstatus_bits (CHR ''M'' # tl nm) = Some v) sstatus_bits"
  by (simp add: sstatus_bits_def mstatus_bits_def)

end
