(* ===== verification/Csr.thy ===== *)
theory Csr
  imports CpuBits Config
begin

text \<open>
  Register names and the CSR index map: \<^verbatim>\<open>local-include/csr.h\<close>, \<^verbatim>\<open>local-include/reg.h\<close> and
  the tables of \<^verbatim>\<open>src/isa/riscv32/reg.c\<close>. The CSR file is an array of 64 words; a CSR
  address is translated to its position in \<open>csr_idx_map\<close>, address 63 to the slot
  \<^verbatim>\<open>ZERO_CSR\<close>, and every other address to the slot \<open>NR_CSR\<close>, whose index is also the
  error value.
\<close>

unbundle bit_operations_syntax

section \<open>Tables\<close>

definition regs :: "string list" where
  "regs = [
    ''$0'', ''ra'', ''sp'', ''gp'', ''tp'', ''t0'', ''t1'', ''t2'',
    ''s0'', ''s1'', ''a0'', ''a1'', ''a2'', ''a3'', ''a4'', ''a5'',
    ''a6'', ''a7'', ''s2'', ''s3'', ''s4'', ''s5'', ''s6'', ''s7'',
    ''s8'', ''s9'', ''s10'', ''s11'', ''t3'', ''t4'', ''t5'', ''t6'']"

definition csr_idx_map_base :: "u32 list" where
  "csr_idx_map_base = [
    CSR_MVENDORID, CSR_MHARTID, CSR_MSTATUS, CSR_MIP, CSR_MIE, CSR_MCAUSE,
    CSR_MTVEC, CSR_MTVAL, CSR_MEPC, CSR_MSCRATCH, CSR_MISA, CSR_MARCHID,
    CSR_MIMPID, CSR_PMPADDR0, CSR_PMPADDR1, CSR_PMPCFG0, CSR_TSELECT,
    CSR_TDATA1, CSR_TDATA2, CSR_TDATA3, CSR_TINFO, CSR_DCSR, CSR_DPC, CSR_DSCRATCH0]"

definition csr_idx_map_other :: "u32 list" where
  "csr_idx_map_other = [
    CSR_MEDELEG, CSR_MIDELEG, CSR_MCOUNTEREN, CSR_SSTATUS,
    CSR_SIE, CSR_STVEC, CSR_SCOUNTEREN, CSR_SENVCFG, CSR_SSCRATCH, CSR_SEPC,
    CSR_SCAUSE, CSR_STVAL, CSR_SIP, CSR_SATP]"

definition csr_idx_map :: "config \<Rightarrow> u32 list" where
  "csr_idx_map c = csr_idx_map_base @ (if cfg_priv c = RVPrivMSU then csr_idx_map_other else [])"

definition csregs_base :: "string list" where
  "csregs_base = [
    ''mvendorid'', ''mhartid'', ''mstatus'', ''mip'', ''mie'', ''mcause'', ''mtvec'',
    ''mtval'', ''mepc'', ''mscratch'', ''misa'', ''marchid'', ''mimpid'', ''pmpaddr0'', ''pmpaddr1'',
    ''pmpcfg0'', ''tselect'', ''tdata1'', ''tdata2'', ''tdata3'', ''tinfo'', ''dcsr'',
    ''dpc'', ''dscratch0'']"

definition csregs_other :: "string list" where
  "csregs_other = [
    ''medeleg'', ''mideleg'', ''mcounteren'', ''sstatus'', ''sie'', ''stvec'', ''scounteren'',
    ''senvcfg'', ''sscratch'', ''sepc'', ''scause'', ''stval'', ''sip'', ''satp'']"

definition csregs :: "config \<Rightarrow> string list" where
  "csregs c = csregs_base @ (if cfg_priv c = RVPrivMSU then csregs_other else []) @ [''Nan'']"

definition ZERO_CSR :: u32 where [bits_defs]: "ZERO_CSR = 63"

definition NR_CSR :: "config \<Rightarrow> nat" where
  "NR_CSR c = (if cfg_priv c = RVPrivMSU then 1 + 37 else 1 + 22)"

section \<open>reg.h\<close>

definition check_reg_idx :: "config \<Rightarrow> nat \<Rightarrow> nat res" where
  "check_reg_idx c idx = bindE (assertE (\<not> cfg_rt_check c \<or> idx < 32) ''idx >= 0 && idx < 32'') (\<lambda>_. Inr idx)"

fun csr_search :: "u32 list \<Rightarrow> u32 \<Rightarrow> nat \<Rightarrow> nat option" where
  "csr_search [] idx i = None"
| "csr_search (a # as) idx i = (if idx = a then Some i else csr_search as idx (Suc i))"

text \<open>The loop runs over the first \<open>NR_CSR\<close> entries of the map.\<close>

definition check_csr_idx :: "config \<Rightarrow> u32 \<Rightarrow> nat" where
  "check_csr_idx c idx =
     (if idx = ZERO_CSR then 63
      else case csr_search (take (NR_CSR c) (csr_idx_map c)) idx 0 of Some i \<Rightarrow> i | None \<Rightarrow> NR_CSR c)"

definition reg_name :: "nat \<Rightarrow> string" where
  "reg_name idx = regs ! idx"

definition csr_reg_name :: "config \<Rightarrow> nat \<Rightarrow> string" where
  "csr_reg_name c idx = csregs c ! idx"

section \<open>Lemmas\<close>

lemma length_regs [simp]: "length regs = 32"
  by (simp add: regs_def)

lemma csr_search_Some:
  "csr_search as idx k = Some i \<Longrightarrow> k \<le> i \<and> i < k + length as \<and> as ! (i - k) = idx"
  by (induction as arbitrary: k) (fastforce simp: nth_Cons' split: if_splits)+

lemma csr_search_None: "csr_search as idx k = None \<longleftrightarrow> idx \<notin> set as"
  by (induction as arbitrary: k) auto

lemma csr_search_nth: "distinct as \<Longrightarrow> i < length as \<Longrightarrow> csr_search as (as ! i) k = Some (k + i)"
proof (induction as arbitrary: i k)
  case Nil
  then show ?case by simp
next
  case (Cons a as)
  then show ?case by (cases i) (auto simp: nth_mem)
qed

lemma csr_idx_map_length:
  "length (csr_idx_map c) = (if cfg_priv c = RVPrivMSU then 38 else 24)"
  by (simp add: csr_idx_map_def csr_idx_map_base_def csr_idx_map_other_def)

lemma csr_idx_map_distinct: "distinct (csr_idx_map c)" and csr_idx_map_no_zero: "ZERO_CSR \<notin> set (csr_idx_map c)"
  by (simp_all add: csr_idx_map_def csr_idx_map_base_def csr_idx_map_other_def bits_defs)

lemma NR_CSR_le: "NR_CSR c \<le> length (csr_idx_map c)"
  by (simp add: NR_CSR_def csr_idx_map_length)

text \<open>No CSR access leaves the array: the index is the slot of a known CSR, the zero slot or the spare slot.\<close>

lemma check_csr_idx_bound: "check_csr_idx c a < 64"
proof -
  have "NR_CSR c < 64" by (simp add: NR_CSR_def)
  then show ?thesis
    by (auto simp: check_csr_idx_def dest!: csr_search_Some split: option.split)
qed

lemma check_csr_idx_known:
  "i < NR_CSR c \<Longrightarrow> check_csr_idx c (csr_idx_map c ! i) = i"
proof -
  assume i: "i < NR_CSR c"
  then have l: "i < length (csr_idx_map c)" using NR_CSR_le less_le_trans by blast
  then have "csr_idx_map c ! i \<noteq> ZERO_CSR" using csr_idx_map_no_zero nth_mem by metis
  moreover have "csr_search (take (NR_CSR c) (csr_idx_map c)) (take (NR_CSR c) (csr_idx_map c) ! i) 0 = Some (0 + i)"
    by (rule csr_search_nth) (use i l csr_idx_map_distinct in auto)
  ultimately show ?thesis using i by (simp add: check_csr_idx_def)
qed

lemma check_csr_idx_unknown:
  "a \<noteq> ZERO_CSR \<Longrightarrow> a \<notin> set (take (NR_CSR c) (csr_idx_map c)) \<Longrightarrow> check_csr_idx c a = NR_CSR c"
  using csr_search_None [of "take (NR_CSR c) (csr_idx_map c)" a 0] by (simp add: check_csr_idx_def)

lemma check_csr_idx_inj:
  assumes "a \<in> set (take (NR_CSR c) (csr_idx_map c))" and "check_csr_idx c a = check_csr_idx c b"
  shows "a = b"
proof -
  from assms(1) obtain i where i: "i < NR_CSR c" "a = csr_idx_map c ! i"
    by (auto simp: in_set_conv_nth)
  then have ci: "check_csr_idx c b = i" using assms(2) check_csr_idx_known by metis
  have nz: "NR_CSR c < 63" by (simp add: NR_CSR_def)
  then have "b \<noteq> ZERO_CSR" using ci i(1) by (auto simp: check_csr_idx_def)
  then obtain "csr_search (take (NR_CSR c) (csr_idx_map c)) b 0 = Some i"
    using ci i(1) by (auto simp: check_csr_idx_def split: option.splits)
  then have "b = take (NR_CSR c) (csr_idx_map c) ! i" using csr_search_Some by fastforce
  then show ?thesis using i by simp
qed

text \<open>
  Without supervisor mode the count is one short of the map: the last register, dscratch0,
  is not found.
\<close>

lemma dscratch0_unreachable:
  assumes "cfg_priv c \<noteq> RVPrivMSU"
  shows "CSR_DSCRATCH0 \<in> set (csr_idx_map c)" and "check_csr_idx c CSR_DSCRATCH0 = NR_CSR c"
  using assms
  by (simp_all add: csr_idx_map_def csr_idx_map_base_def NR_CSR_def check_csr_idx_def bits_defs)

end
