(* ===== verification/Amw.thy ===== *)
theory Amw
  imports Prelude
begin

text \<open>
  The reservation list of the A extension, \<^verbatim>\<open>src/isa/riscv32/atomic_mem_word.c\<close>: first the
  C functions on a heap of nodes, then the list operations the machine model uses, and the
  refinement between the two. \<^verbatim>\<open>malloc\<close> is assumed to deliver; a node is allocated at the
  next unused address.
\<close>

section \<open>The functions on the heap\<close>

record atomic_mem_word =
  mem_word :: u32
  reserved :: bool
  next_node :: "nat option"

record nheap =
  cells :: "nat \<Rightarrow> atomic_mem_word option"
  brk :: nat

definition createNode :: "nheap \<Rightarrow> u32 \<Rightarrow> bool \<Rightarrow> nat \<times> nheap" where
  "createNode h d r =
     (brk h, h\<lparr>cells := (cells h)(brk h \<mapsto> \<lparr>mem_word = d, reserved = r, next_node = None\<rparr>), brk := Suc (brk h)\<rparr>)"

text \<open>
  The loops follow \<^verbatim>\<open>next_node\<close>; on a cyclic list they do not return, and on a dangling
  pointer they are undefined: both are \<open>None\<close> here.
\<close>

partial_function (option) last_node :: "(nat \<Rightarrow> atomic_mem_word option) \<Rightarrow> nat \<Rightarrow> nat option" where
  "last_node H a = (case H a of
      None \<Rightarrow> None
    | Some n \<Rightarrow> (case next_node n of None \<Rightarrow> Some a | Some b \<Rightarrow> last_node H b))"

definition insertNode :: "nheap \<Rightarrow> nat option \<Rightarrow> u32 \<Rightarrow> bool \<Rightarrow> (nat option \<times> nheap) option" where
  "insertNode h head d r = (case createNode h d r of (p, h1) \<Rightarrow> (case head of
      None \<Rightarrow> Some (Some p, h1)
    | Some a \<Rightarrow> (case last_node (cells h1) a of
        None \<Rightarrow> None
      | Some t \<Rightarrow> (case cells h1 t of
          None \<Rightarrow> None
        | Some n \<Rightarrow> Some (head, h1\<lparr>cells := (cells h1)(t \<mapsto> n\<lparr>next_node := Some p\<rparr>)\<rparr>)))))"

partial_function (option) del_walk ::
    "(nat \<Rightarrow> atomic_mem_word option) \<Rightarrow> u32 \<Rightarrow> nat option \<Rightarrow> nat option \<Rightarrow> (nat option \<times> nat option) option" where
  "del_walk H d prev temp =
     (if temp = None then Some (prev, None)
      else Option.bind (H (the temp)) (\<lambda>n.
        if mem_word n = d then Some (prev, temp) else del_walk H d temp (next_node n)))"

definition deleteNode :: "nheap \<Rightarrow> nat option \<Rightarrow> u32 \<Rightarrow> (nat option \<times> nheap) option" where
  "deleteNode h head d = (case del_walk (cells h) d None head of
      None \<Rightarrow> None
    | Some (prev, None) \<Rightarrow> Some (head, h)
    | Some (prev, Some t) \<Rightarrow> (case cells h t of
        None \<Rightarrow> None
      | Some n \<Rightarrow> (case prev of
          None \<Rightarrow> Some (next_node n, h\<lparr>cells := (cells h)(t := None)\<rparr>)
        | Some q \<Rightarrow> (case cells h q of
            None \<Rightarrow> None
          | Some qn \<Rightarrow> Some (head, h\<lparr>cells := ((cells h)(q \<mapsto> qn\<lparr>next_node := next_node n\<rparr>))(t := None)\<rparr>)))))"

partial_function (option) searchNode :: "(nat \<Rightarrow> atomic_mem_word option) \<Rightarrow> nat option \<Rightarrow> u32 \<Rightarrow> nat option option" where
  "searchNode H head d =
     (if head = None then Some None
      else Option.bind (H (the head)) (\<lambda>n. if mem_word n = d then Some head else searchNode H (next_node n) d))"

definition updateNode :: "nheap \<Rightarrow> nat option \<Rightarrow> u32 \<Rightarrow> bool \<Rightarrow> nheap option" where
  "updateNode h node d r = (case node of
      None \<Rightarrow> Some h
    | Some a \<Rightarrow> (case cells h a of
        None \<Rightarrow> None
      | Some n \<Rightarrow> Some (h\<lparr>cells := (cells h)(a \<mapsto> n\<lparr>mem_word := d, reserved := r\<rparr>)\<rparr>)))"

section \<open>The operations on lists\<close>

type_synonym amw = "(u32 \<times> bool) list"

definition amw_insert :: "amw \<Rightarrow> u32 \<Rightarrow> bool \<Rightarrow> amw" where
  "amw_insert l d r = l @ [(d, r)]"

fun amw_search :: "amw \<Rightarrow> u32 \<Rightarrow> (u32 \<times> bool) option" where
  "amw_search [] d = None"
| "amw_search (n # l) d = (if fst n = d then Some n else amw_search l d)"

fun amw_delete :: "amw \<Rightarrow> u32 \<Rightarrow> amw" where
  "amw_delete [] d = []"
| "amw_delete (n # l) d = (if fst n = d then l else n # amw_delete l d)"

section \<open>Refinement\<close>

text \<open>\<open>chain H p as\<close>: from \<open>p\<close> the list runs through the nodes at \<open>as\<close> and ends.\<close>

fun chain :: "(nat \<Rightarrow> atomic_mem_word option) \<Rightarrow> nat option \<Rightarrow> nat list \<Rightarrow> bool" where
  "chain H p [] \<longleftrightarrow> p = None"
| "chain H p (a # as) \<longleftrightarrow> p = Some a \<and> a \<notin> set as \<and>
     (case H a of None \<Rightarrow> False | Some n \<Rightarrow> chain H (next_node n) as)"

definition contents_at :: "(nat \<Rightarrow> atomic_mem_word option) \<Rightarrow> nat \<Rightarrow> u32 \<times> bool" where
  "contents_at H a = (case H a of Some n \<Rightarrow> (mem_word n, reserved n) | None \<Rightarrow> (0, False))"

text \<open>\<open>represents h head l\<close>: the heap holds the list \<open>l\<close> at \<open>head\<close>, below the allocation mark.\<close>

definition represents :: "nheap \<Rightarrow> nat option \<Rightarrow> amw \<Rightarrow> bool" where
  "represents h head l \<longleftrightarrow> (\<exists>as. chain (cells h) head as \<and> l = map (contents_at (cells h)) as \<and> (\<forall>a\<in>set as. a < brk h))"

lemma chain_cong: "(\<And>a. a \<in> set as \<Longrightarrow> H a = G a) \<Longrightarrow> chain H p as \<longleftrightarrow> chain G p as"
  by (induction as arbitrary: p) (auto split: option.split)

lemma chain_distinct: "chain H p as \<Longrightarrow> distinct as"
  by (induction as arbitrary: p) (auto split: option.splits)

lemma contents_cong:
  "(\<And>a. a \<in> set as \<Longrightarrow> H a = G a) \<Longrightarrow> map (contents_at H) as = map (contents_at G) as"
  by (auto simp: contents_at_def)

lemma contents_at_Some: "H a = Some n \<Longrightarrow> contents_at H a = (mem_word n, reserved n)"
  by (simp add: contents_at_def)

lemma last_node_chain: "chain H (Some a) (a # as) \<Longrightarrow> last_node H a = Some (last (a # as))"
proof (induction as arbitrary: a)
  case Nil
  then show ?case by (subst last_node.simps) (auto split: option.splits)
next
  case (Cons b as)
  then show ?case by (subst last_node.simps) (auto split: option.splits)
qed

text \<open>Linking a fresh node behind the last one extends the chain.\<close>

lemma chain_snoc:
  assumes "chain H p as" and "as \<noteq> []" and "q \<notin> set as" and "H q = Some \<lparr>mem_word = d, reserved = r, next_node = None\<rparr>"
    and "H (last as) = Some n"
  shows "chain (H(last as \<mapsto> n\<lparr>next_node := Some q\<rparr>)) p (as @ [q])"
  using assms
proof (induction as arbitrary: p)
  case Nil
  then show ?case by simp
next
  case (Cons a as)
  show ?case
  proof (cases "as = []")
    case True
    then show ?thesis using Cons.prems by auto
  next
    case False
    then have l: "last as \<in> set as" "last (a # as) = last as" by auto
    let ?G = "H(last as \<mapsto> n\<lparr>next_node := Some q\<rparr>)"
    obtain m where m: "H a = Some m" "chain H (next_node m) as"
      using Cons.prems(1) by (auto split: option.splits)
    have "a \<noteq> last as" using Cons.prems(1) l by auto
    then have ga: "?G a = Some m" using m(1) by simp
    have "chain ?G (next_node m) (as @ [q])"
      by (rule Cons.IH [OF m(2) False]) (use Cons.prems l in auto)
    then have "chain ?G p (a # (as @ [q]))"
      unfolding chain.simps ga using Cons.prems(1,3) by simp
    then show ?thesis by (simp only: l(2) append_Cons)
  qed
qed

theorem insertNode_refines:
  assumes "represents h head l"
  shows "\<exists>head' h'. insertNode h head d r = Some (head', h') \<and> represents h' head' (amw_insert l d r)"
proof -
  from assms obtain as where as: "chain (cells h) head as" "l = map (contents_at (cells h)) as" "\<forall>a\<in>set as. a < brk h"
    by (auto simp: represents_def)
  let ?p = "brk h"
  let ?n = "\<lparr>mem_word = d, reserved = r, next_node = None\<rparr>"
  let ?H = "(cells h)(?p \<mapsto> ?n)"
  have p: "?p \<notin> set as" using as(3) by auto
  have c: "chain ?H head as" using as(1) p chain_cong [of as ?H "cells h" head] by fastforce
  have l: "map (contents_at ?H) as = l" using as(2) p by (auto simp: contents_at_def)
  show ?thesis
  proof (cases as)
    case Nil
    then have "head = None" using as(1) by simp
    then have "insertNode h head d r = Some (Some ?p, h\<lparr>cells := ?H, brk := Suc ?p\<rparr>)"
      by (simp add: insertNode_def createNode_def)
    moreover have "represents (h\<lparr>cells := ?H, brk := Suc ?p\<rparr>) (Some ?p) (amw_insert l d r)"
      unfolding represents_def using Nil as(2)
      by (intro exI [of _ "[?p]"]) (simp add: amw_insert_def contents_at_def)
    ultimately show ?thesis by blast
  next
    case (Cons a bs)
    then have h: "head = Some a" using as(1) by simp
    have last: "last_node ?H a = Some (last as)" using last_node_chain [of ?H a bs] c Cons h by simp
    have lin: "last as \<in> set as" using Cons by simp
    then have lne: "last as \<noteq> ?p" using p by metis
    have "chain (cells h) head as \<Longrightarrow> x \<in> set as \<Longrightarrow> \<exists>n. cells h x = Some n" for x
      by (induction as arbitrary: head) (auto split: option.splits)
    then obtain n where n: "cells h (last as) = Some n" using as(1) lin by blast
    let ?G = "?H(last as \<mapsto> n\<lparr>next_node := Some ?p\<rparr>)"
    have ins: "insertNode h head d r = Some (head, h\<lparr>cells := ?G, brk := Suc ?p\<rparr>)"
      using h last lne n by (simp add: insertNode_def createNode_def)
    have "chain ?G head (as @ [?p])"
      by (rule chain_snoc [OF c _ p]) (use Cons lne n in auto)
    moreover have "map (contents_at ?G) (as @ [?p]) = amw_insert l d r"
      using l lne n by (auto simp: amw_insert_def contents_at_def)
    ultimately have "represents (h\<lparr>cells := ?G, brk := Suc ?p\<rparr>) head (amw_insert l d r)"
      unfolding represents_def using as(3) by (intro exI [of _ "as @ [?p]"]) auto
    then show ?thesis using ins by blast
  qed
qed

lemma searchNode_chain:
  "chain H p as \<Longrightarrow> \<exists>q. searchNode H p d = Some q \<and>
     map_option (contents_at H) q = amw_search (map (contents_at H) as) d"
proof (induction as arbitrary: p)
  case Nil
  then show ?case by (subst searchNode.simps) simp
next
  case (Cons a as)
  then obtain n where n: "H a = Some n" "chain H (next_node n) as" "p = Some a"
    by (auto split: option.splits)
  then show ?case using Cons.IH [OF n(2)]
    by (subst searchNode.simps) (auto simp: contents_at_Some)
qed

theorem searchNode_refines:
  assumes "represents h head l"
  shows "\<exists>q. searchNode (cells h) head d = Some q \<and> map_option (contents_at (cells h)) q = amw_search l d"
  using assms searchNode_chain by (fastforce simp: represents_def)

text \<open>The walk of \<^verbatim>\<open>deleteNode\<close> stops at the first match, with its predecessor.\<close>

lemma del_walk_chain:
  "chain H p as \<Longrightarrow>
   (\<exists>pr. del_walk H d prev p = Some (pr, None)) \<and> d \<notin> set (map (mem_word \<circ> the \<circ> H) as) \<or>
   (\<exists>us t vs. as = us @ t # vs \<and> d \<notin> set (map (mem_word \<circ> the \<circ> H) us) \<and> mem_word (the (H t)) = d \<and>
     del_walk H d prev p = Some (if us = [] then prev else Some (last us), Some t))"
proof (induction as arbitrary: p prev)
  case Nil
  then show ?case by (subst del_walk.simps) simp
next
  case (Cons a as)
  then obtain n where n: "H a = Some n" "chain H (next_node n) as" "p = Some a"
    by (auto split: option.splits)
  show ?case
  proof (cases "mem_word n = d")
    case True
    then have "del_walk H d prev p = Some (prev, Some a)" by (subst del_walk.simps) (simp add: n)
    then show ?thesis using True n(1)
      by (intro disjI2 exI [of _ "[]"] exI [of _ a] exI [of _ as]) simp
  next
    case False
    have step: "del_walk H d prev p = del_walk H d (Some a) (next_node n)"
      using False by (subst del_walk.simps) (simp add: n)
    from Cons.IH [OF n(2), of "Some a"] show ?thesis
    proof (elim disjE conjE exE)
      fix us t vs
      assume "as = us @ t # vs" "d \<notin> set (map (mem_word \<circ> the \<circ> H) us)" "mem_word (the (H t)) = d"
        "del_walk H d (Some a) (next_node n) = Some (if us = [] then Some a else Some (last us), Some t)"
      then show ?thesis using False n(1) step
        by (intro disjI2 exI [of _ "a # us"] exI [of _ t] exI [of _ vs]) auto
    qed (use False n(1) step in auto)
  qed
qed

lemma amw_delete_split:
  "d \<notin> fst ` set us \<Longrightarrow> fst n = d \<Longrightarrow> amw_delete (us @ n # vs) d = us @ vs"
  by (induction us) auto

lemma amw_delete_none: "d \<notin> fst ` set l \<Longrightarrow> amw_delete l d = l"
  by (induction l) auto

lemma chain_all_Some: "chain H p as \<Longrightarrow> a \<in> set as \<Longrightarrow> \<exists>n. H a = Some n"
  by (induction as arbitrary: p) (auto split: option.splits)

lemma fst_contents: "chain H p as \<Longrightarrow> a \<in> set as \<Longrightarrow> fst (contents_at H a) = mem_word (the (H a))"
  using chain_all_Some [of H p as a] by (auto simp: contents_at_def)

text \<open>Unlinking an inner node keeps the rest of the chain.\<close>

lemma chain_unlink:
  assumes "chain H p (us @ q # t # vs)" and "H q = Some qn" and "H t = Some n"
  shows "chain (H(q \<mapsto> qn\<lparr>next_node := next_node n\<rparr>, t := None)) p (us @ q # vs)"
  using assms
proof (induction us arbitrary: p)
  case Nil
  let ?G = "H(q \<mapsto> qn\<lparr>next_node := next_node n\<rparr>, t := None)"
  from Nil have *: "chain H (next_node n) vs" "q \<notin> set vs" "t \<notin> set vs" "q \<noteq> t" "p = Some q" by auto
  have "chain ?G (next_node n) vs"
    using * chain_cong [of vs ?G H "next_node n"] by fastforce
  moreover have gq: "?G q = Some (qn\<lparr>next_node := next_node n\<rparr>)" using * by simp
  ultimately have "chain ?G p (q # vs)" unfolding chain.simps gq using * by simp
  then show ?case by (simp only: append_Nil)
next
  case (Cons a us)
  let ?G = "H(q \<mapsto> qn\<lparr>next_node := next_node n\<rparr>, t := None)"
  obtain m where m: "H a = Some m" "chain H (next_node m) (us @ q # t # vs)" and "p = Some a" "a \<notin> set (us @ q # t # vs)"
    using Cons.prems(1) by (auto split: option.splits)
  then have ga: "?G a = Some m" by auto
  have "chain ?G p (a # (us @ q # vs))"
    unfolding chain.simps ga
    using Cons.IH [OF m(2) Cons.prems(2,3)] \<open>p = Some a\<close> \<open>a \<notin> _\<close> by (simp del: fun_upd_apply)
  then show ?case by (simp only: append_Cons)
qed

theorem deleteNode_refines:
  assumes "represents h head l"
  shows "\<exists>head' h'. deleteNode h head d = Some (head', h') \<and> represents h' head' (amw_delete l d)"
proof -
  let ?H = "cells h"
  from assms obtain as where as: "chain ?H head as" "l = map (contents_at ?H) as" "\<forall>a\<in>set as. a < brk h"
    by (auto simp: represents_def)
  have key: "set (map (mem_word \<circ> the \<circ> ?H) us) = fst ` set (map (contents_at ?H) us)" if "set us \<subseteq> set as" for us
    using that fst_contents [OF as(1)] by (force simp: image_iff)
  from del_walk_chain [OF as(1), of d None] show ?thesis
  proof (elim disjE conjE exE)
    fix us t vs
    assume s: "as = us @ t # vs" and nu: "d \<notin> set (map (mem_word \<circ> the \<circ> ?H) us)" and "mem_word (the (?H t)) = d"
      and w: "del_walk ?H d None head = Some (if us = [] then None else Some (last us), Some t)"
    have dist: "distinct as" using as(1) by (rule chain_distinct)
    obtain n where n: "?H t = Some n" using chain_all_Some [OF as(1), of t] s by auto
    have "fst (contents_at ?H t) = d"
      using n \<open>mem_word (the (?H t)) = d\<close> by (simp add: contents_at_Some)
    moreover have "d \<notin> fst ` set (map (contents_at ?H) us)"
    proof -
      have "set us \<subseteq> set as" using s by auto
      then show ?thesis using nu key [of us] by simp
    qed
    ultimately have l': "amw_delete l d = map (contents_at ?H) (us @ vs)"
      using amw_delete_split by (simp add: as(2) s)
    show ?thesis
    proof (cases "us = []")
      case True
      then have h: "head = Some t" and c: "chain ?H (next_node n) vs" using as(1) s n by auto
      let ?h = "h\<lparr>cells := ?H(t := None)\<rparr>"
      have t: "t \<notin> set vs" using dist s by simp
      have "deleteNode h head d = Some (next_node n, ?h)" using w True n by (simp add: deleteNode_def)
      moreover have "chain (?H(t := None)) (next_node n) vs"
        using c t chain_cong [of vs "?H(t := None)" ?H "next_node n"] by fastforce
      then have "represents ?h (next_node n) (amw_delete l d)"
        unfolding represents_def using l' True as(3) s t
        by (intro exI [of _ vs]) (auto simp: contents_at_def)
      ultimately show ?thesis by blast
    next
      case False
      then obtain us' q where us: "us = us' @ [q]" by (metis rev_exhaust)
      obtain qn where q: "?H q = Some qn" using chain_all_Some [OF as(1), of q] s us by auto
      let ?G = "?H(q \<mapsto> qn\<lparr>next_node := next_node n\<rparr>, t := None)"
      have "deleteNode h head d = Some (head, h\<lparr>cells := ?G\<rparr>)"
        using w us n q by (simp add: deleteNode_def)
      moreover have "chain ?G head (us' @ q # vs)"
        by (rule chain_unlink [OF _ q n]) (use as(1) s us in simp)
      moreover have "map (contents_at ?G) (us' @ q # vs) = map (contents_at ?H) (us @ vs)"
        using dist s us q by (auto simp: contents_at_def)
      ultimately show ?thesis
        unfolding represents_def l' using as(3) s us
        by (intro exI [of _ head] exI [of _ "h\<lparr>cells := ?G\<rparr>"]) (auto intro!: exI [of _ "us' @ q # vs"])
    qed
  qed (use as key [of as] amw_delete_none [of d l] assms in \<open>auto simp: deleteNode_def\<close>)
qed

end
