(* ===== verification/Pattern.thy ===== *)
theory Pattern
  imports Prelude "HOL-Library.Char_ord"
begin

text \<open>
  The instruction pattern matcher of \<^verbatim>\<open>include/cpu/decode.h\<close>: \<^verbatim>\<open>pattern_decode\<close> turns a
  pattern string into a key, a mask and a shift, and \<^verbatim>\<open>INSTPAT\<close> tests an instruction word
  against them. The specification \<open>pat_spec\<close> reads a pattern the way a person does: every
  character other than a blank stands for one bit, the last one for bit 0, and \<open>?\<close> for any
  value. The main lemma shows that the key/mask/shift test computes exactly that.
\<close>

unbundle bit_operations_syntax

section \<open>pattern\_decode\<close>

text \<open>
  One \<^verbatim>\<open>macro(i)\<close> step on the character \<^verbatim>\<open>c\<close>: blanks are skipped, a character other than
  \<open>0\<close>, \<open>1\<close>, \<open>?\<close> fails the assertion, and the three accumulators move on. The shift is a
  count of at most 64 and is kept as a natural number.
\<close>

type_synonym pd_state = "u64 \<times> u64 \<times> nat"

definition pd_char :: "char \<Rightarrow> pd_state \<Rightarrow> pd_state res" where
  "pd_char c st = (case st of (key, msk, shift) \<Rightarrow>
     if c = CHR '' '' then Inr (key, msk, shift)
     else bindE (assertE (c = CHR ''0'' \<or> c = CHR ''1'' \<or> c = CHR ''?'')
                   ''invalid character in pattern string'')
       (\<lambda>_. Inr (push_bit 1 key OR (if c = CHR ''1'' then 1 else 0),
                 push_bit 1 msk OR (if c = CHR ''?'' then 0 else 1),
                 if c = CHR ''?'' then shift + 1 else 0)))"

fun pd_loop :: "string \<Rightarrow> pd_state \<Rightarrow> pd_state res" where
  "pd_loop [] st = Inr st"
| "pd_loop (c # cs) st = bindE (pd_char c st) (pd_loop cs)"

text \<open>
  \<^verbatim>\<open>macro64(0)\<close> runs the step for \<^verbatim>\<open>i = 0 .. 63\<close> and leaves through \<^verbatim>\<open>finish\<close> as soon as
  \<^verbatim>\<open>i >= len\<close>; a string of 64 or more characters reaches the panic after it.
\<close>

definition pattern_decode :: "string \<Rightarrow> pd_state res" where
  "pattern_decode str = bindE (pd_loop (take 64 str) (0, 0, 0))
     (\<lambda>(key, msk, shift). if 64 \<le> length str then Inl (Assert_fail ''pattern too long'')
        else Inr (drop_bit shift key, drop_bit shift msk, shift))"

text \<open>The hexadecimal variant: four bits per character, at most 15 characters.\<close>

definition hex_digit_val :: "char \<Rightarrow> u64" where
  "hex_digit_val c = (if CHR ''0'' \<le> c \<and> c \<le> CHR ''9'' then of_char c - of_char (CHR ''0'')
     else of_char c - of_char (CHR ''a'') + 10)"

definition pdh_char :: "char \<Rightarrow> pd_state \<Rightarrow> pd_state res" where
  "pdh_char c st = (case st of (key, msk, shift) \<Rightarrow>
     if c = CHR '' '' then Inr (key, msk, shift)
     else bindE (assertE ((CHR ''0'' \<le> c \<and> c \<le> CHR ''9'') \<or> (CHR ''a'' \<le> c \<and> c \<le> CHR ''f'')
                    \<or> c = CHR ''?'') ''invalid character in pattern string'')
       (\<lambda>_. Inr (push_bit 4 key OR (if c = CHR ''?'' then 0 else hex_digit_val c),
                 push_bit 4 msk OR (if c = CHR ''?'' then 0 else 15),
                 if c = CHR ''?'' then shift + 4 else 0)))"

fun pdh_loop :: "string \<Rightarrow> pd_state \<Rightarrow> pd_state res" where
  "pdh_loop [] st = Inr st"
| "pdh_loop (c # cs) st = bindE (pdh_char c st) (pdh_loop cs)"

definition pattern_decode_hex :: "string \<Rightarrow> pd_state res" where
  "pattern_decode_hex str = bindE (pdh_loop (take 16 str) (0, 0, 0))
     (\<lambda>(key, msk, shift). if 16 \<le> length str then Inl (Assert_fail ''pattern too long'')
        else Inr (drop_bit shift key, drop_bit shift msk, shift))"

section \<open>The INSTPAT test\<close>

definition instpat_test :: "pd_state \<Rightarrow> u32 \<Rightarrow> bool" where
  "instpat_test st inst = (case st of (key, msk, shift) \<Rightarrow>
     drop_bit shift (ucast inst :: u64) AND msk = key)"

definition instpat_hit :: "string \<Rightarrow> u32 \<Rightarrow> bool res" where
  "instpat_hit p inst = bindE (pattern_decode p) (\<lambda>st. Inr (instpat_test st inst))"

text \<open>
  The body of \<^verbatim>\<open>decode_exec\<close> between \<^verbatim>\<open>INSTPAT_START\<close> and \<^verbatim>\<open>INSTPAT_END\<close>: the patterns are
  tried in order, and the first that fits selects its entry and jumps to the end.
  \<open>None\<close>: no pattern fits.
\<close>

fun instpat_select :: "(string \<times> 'a) list \<Rightarrow> u32 \<Rightarrow> 'a option res" where
  "instpat_select [] inst = Inr None"
| "instpat_select ((p, x) # tab) inst =
     bindE (instpat_hit p inst) (\<lambda>hit. if hit then Inr (Some x) else instpat_select tab inst)"

section \<open>What a pattern means\<close>

definition pat_bits :: "string \<Rightarrow> string" where
  "pat_bits p = rev (filter (\<lambda>c. c \<noteq> CHR '' '') p)"

definition pat_valid :: "string \<Rightarrow> bool" where
  "pat_valid p \<longleftrightarrow> list_all (\<lambda>c. c \<in> {CHR '' '', CHR ''0'', CHR ''1'', CHR ''?''}) p"

definition pat_spec :: "string \<Rightarrow> 'a::len word \<Rightarrow> bool" where
  "pat_spec p x \<longleftrightarrow> (\<forall>j < length (pat_bits p).
     (pat_bits p ! j = CHR ''0'' \<longrightarrow> \<not> bit x j) \<and> (pat_bits p ! j = CHR ''1'' \<longrightarrow> bit x j))"

text \<open>The key and the mask of a pattern, unshifted, at any width.\<close>

definition pat_key :: "string \<Rightarrow> 'a::len word" where
  "pat_key cs = foldr (\<lambda>c k. push_bit 1 k OR (if c = CHR ''1'' then 1 else 0)) cs 0"

definition pat_mask :: "string \<Rightarrow> 'a::len word" where
  "pat_mask cs = foldr (\<lambda>c k. push_bit 1 k OR (if c = CHR ''?'' then 0 else 1)) cs 0"

lemma bit_shift_in:
  "bit (push_bit 1 k OR (if b then 1 else 0) :: 'a::len word) j \<longleftrightarrow>
     j < LENGTH('a) \<and> (if j = 0 then b else bit k (j - 1))"
  by (cases j) (auto simp: bit_or_iff bit_push_bit_iff bit_1_iff dest: bit_imp_le_length
      simp del: push_bit_Suc)

lemma bit_pat_key_iff:
  "bit (pat_key cs :: 'a::len word) j \<longleftrightarrow> j < LENGTH('a) \<and> j < length cs \<and> cs ! j = CHR ''1''"
proof (induction cs arbitrary: j)
  case Nil
  then show ?case by (simp add: pat_key_def)
next
  case (Cons c cs)
  have "(pat_key (c # cs) :: 'a word) = push_bit 1 (pat_key cs) OR (if c = CHR ''1'' then 1 else 0)"
    by (simp add: pat_key_def)
  then show ?case
    by (cases j) (auto simp only: bit_shift_in Cons.IH nth_Cons_0 nth_Cons_Suc, auto)
qed

lemma bit_pat_mask_iff:
  "bit (pat_mask cs :: 'a::len word) j \<longleftrightarrow> j < LENGTH('a) \<and> j < length cs \<and> cs ! j \<noteq> CHR ''?''"
proof (induction cs arbitrary: j)
  case Nil
  then show ?case by (simp add: pat_mask_def)
next
  case (Cons c cs)
  have "(pat_mask (c # cs) :: 'a word) = push_bit 1 (pat_mask cs) OR (if c \<noteq> CHR ''?'' then 1 else 0)"
    by (simp add: pat_mask_def)
  then show ?case
    by (cases j) (auto simp only: bit_shift_in Cons.IH nth_Cons_0 nth_Cons_Suc, auto)
qed

section \<open>pattern\_decode is right\<close>

definition pd_inv :: "string \<Rightarrow> pd_state \<Rightarrow> bool" where
  "pd_inv cs st \<longleftrightarrow> st = (pat_key cs, pat_mask cs, length (takeWhile (\<lambda>c. c = CHR ''?'') cs))"

lemma pd_inv_char:
  assumes "pd_inv cs st" and "c \<in> {CHR '' '', CHR ''0'', CHR ''1'', CHR ''?''}"
  shows "\<exists>st'. pd_char c st = Inr st' \<and> pd_inv (filter (\<lambda>c. c \<noteq> CHR '' '') [c] @ cs) st'"
  using assms by (auto simp: pd_char_def pd_inv_def pat_key_def pat_mask_def)

lemma pd_inv_loop:
  assumes "pd_inv cs st" and "pat_valid p"
  shows "\<exists>st'. pd_loop p st = Inr st' \<and> pd_inv (pat_bits p @ cs) st'"
  using assms
proof (induction p arbitrary: cs st)
  case Nil
  then show ?case by (simp add: pat_bits_def)
next
  case (Cons c p)
  from Cons.prems(2) have c: "c \<in> {CHR '' '', CHR ''0'', CHR ''1'', CHR ''?''}" and p: "pat_valid p"
    by (simp_all add: pat_valid_def)
  from pd_inv_char [OF Cons.prems(1) c] obtain st' where
    st': "pd_char c st = Inr st'" "pd_inv (filter (\<lambda>c. c \<noteq> CHR '' '') [c] @ cs) st'" by blast
  from Cons.IH [OF st'(2) p] show ?case
    using st'(1) by (auto simp: pat_bits_def)
qed

lemma pd_inv_Nil: "pd_inv [] (0, 0, 0)"
  by (simp add: pd_inv_def pat_key_def pat_mask_def)

lemma pattern_decode_eq:
  assumes "pat_valid p" and "length p < 64"
  shows "pattern_decode p =
    (let s = length (takeWhile (\<lambda>c. c = CHR ''?'') (pat_bits p))
     in Inr (drop_bit s (pat_key (pat_bits p)), drop_bit s (pat_mask (pat_bits p)), s))"
  using pd_inv_loop [OF pd_inv_Nil assms(1)] assms(2)
  by (auto simp: pattern_decode_def pd_inv_def Let_def)

lemma pat_spec_iff_mask_key:
  "length (pat_bits p) \<le> LENGTH('a) \<Longrightarrow> pat_valid p \<Longrightarrow>
   (x AND pat_mask (pat_bits p) = pat_key (pat_bits p)) \<longleftrightarrow> pat_spec p x"
  for x :: "'a::len word"
proof -
  assume len: "length (pat_bits p) \<le> LENGTH('a)" and v: "pat_valid p"
  have c: "pat_bits p ! j \<in> {CHR ''0'', CHR ''1'', CHR ''?''}" if "j < length (pat_bits p)" for j
  proof -
    from that have "pat_bits p ! j \<in> set (filter (\<lambda>c. c \<noteq> CHR '' '') p)"
      by (metis nth_mem pat_bits_def set_rev)
    then show ?thesis using v by (auto simp: pat_valid_def list_all_iff)
  qed
  show ?thesis
  proof
    assume e: "x AND pat_mask (pat_bits p) = pat_key (pat_bits p)"
    show "pat_spec p x"
      unfolding pat_spec_def
    proof (intro allI impI)
      fix j assume j: "j < length (pat_bits p)"
      have "bit (x AND pat_mask (pat_bits p)) j \<longleftrightarrow> bit (pat_key (pat_bits p) :: 'a word) j"
        by (simp add: e)
      then show "(pat_bits p ! j = CHR ''0'' \<longrightarrow> \<not> bit x j) \<and> (pat_bits p ! j = CHR ''1'' \<longrightarrow> bit x j)"
        using j len by (auto simp: bit_and_iff bit_pat_mask_iff bit_pat_key_iff)
    qed
  next
    assume s: "pat_spec p x"
    show "x AND pat_mask (pat_bits p) = pat_key (pat_bits p)"
    proof (rule bit_word_eqI)
      fix j assume "j < LENGTH('a)"
      then show "bit (x AND pat_mask (pat_bits p)) j \<longleftrightarrow> bit (pat_key (pat_bits p) :: 'a word) j"
        using s c [of j] by (auto simp: bit_and_iff bit_pat_mask_iff bit_pat_key_iff pat_spec_def)
    qed
  qed
qed

text \<open>The trailing question marks, which the shift drops, fix no bit.\<close>

lemma nth_takeWhileD: "j < length (takeWhile P cs) \<Longrightarrow> P (cs ! j)"
  by (metis nth_mem set_takeWhileD takeWhile_nth)

lemma pat_mask_trailing:
  "j < length (takeWhile (\<lambda>c. c = CHR ''?'') cs) \<Longrightarrow> \<not> bit (pat_mask cs :: 'a::len word) j"
  by (drule nth_takeWhileD) (simp add: bit_pat_mask_iff)

lemma pat_key_trailing:
  "j < length (takeWhile (\<lambda>c. c = CHR ''?'') cs) \<Longrightarrow> \<not> bit (pat_key cs :: 'a::len word) j"
  by (drule nth_takeWhileD) (simp add: bit_pat_key_iff)

lemma shifted_test_iff:
  fixes x m k :: "'a::len word"
  assumes "\<And>j. j < s \<Longrightarrow> \<not> bit m j" and "\<And>j. j < s \<Longrightarrow> \<not> bit k j"
  shows "drop_bit s x AND drop_bit s m = drop_bit s k \<longleftrightarrow> x AND m = k"
proof
  assume e: "drop_bit s x AND drop_bit s m = drop_bit s k"
  show "x AND m = k"
  proof (rule bit_word_eqI)
    fix j
    have "bit (drop_bit s x AND drop_bit s m) (j - s) \<longleftrightarrow> bit (drop_bit s k) (j - s)"
      by (simp add: e)
    then show "bit (x AND m) j \<longleftrightarrow> bit k j"
      using assms [of j] by (cases "j < s") (auto simp: bit_and_iff bit_drop_bit_eq)
  qed
next
  assume "x AND m = k"
  then show "drop_bit s x AND drop_bit s m = drop_bit s k"
    by (simp flip: drop_bit_and)
qed

lemma pat_bits_length: "length (pat_bits p) \<le> length p"
  by (simp add: pat_bits_def)

lemma pat_spec_ucast:
  "length (pat_bits p) \<le> 32 \<Longrightarrow> pat_spec p (ucast inst :: u64) \<longleftrightarrow> pat_spec p (inst :: u32)"
  by (auto simp: pat_spec_def bit_simps)

theorem instpat_hit_spec:
  assumes "pat_valid p" and "length p < 64" and "length (pat_bits p) \<le> 32"
  shows "instpat_hit p inst = Inr (pat_spec p inst)"
proof -
  let ?s = "length (takeWhile (\<lambda>c. c = CHR ''?'') (pat_bits p))"
  have "drop_bit ?s (ucast inst :: u64) AND drop_bit ?s (pat_mask (pat_bits p)) =
          drop_bit ?s (pat_key (pat_bits p)) \<longleftrightarrow>
        ucast inst AND pat_mask (pat_bits p) = (pat_key (pat_bits p) :: u64)"
    by (rule shifted_test_iff) (simp_all add: pat_mask_trailing pat_key_trailing)
  also have "\<dots> \<longleftrightarrow> pat_spec p (ucast inst :: u64)"
    using assms by (intro pat_spec_iff_mask_key) auto
  also have "\<dots> \<longleftrightarrow> pat_spec p inst"
    using assms(3) by (rule pat_spec_ucast)
  finally show ?thesis
    using assms by (simp add: instpat_hit_def pattern_decode_eq instpat_test_def Let_def)
qed

lemma instpat_hit_mask_key:
  assumes "pat_valid p" and "length p < 64" and "length (pat_bits p) \<le> 32"
  shows "instpat_hit p inst = Inr (inst AND pat_mask (pat_bits p) = pat_key (pat_bits p))"
  using assms by (simp add: instpat_hit_spec pat_spec_iff_mask_key)

end
