(* ===== verification/Riscv32.thy ===== *)
theory Riscv32
  imports Cpu Csr Amw Pattern
begin

text \<open>
  The RISC-V core, \<^verbatim>\<open>src/isa/riscv32/inst.c\<close>: operand decoding, the \<^verbatim>\<open>INSTPAT\<close> table in the
  order of the source, the effect of every instruction, the interrupt check and the trap
  entry. A statement of the C body that sets a variable of the machine is one update of
  the state here; a memory access can abort the emulator, so every step returns a result.
  The prints of the body are diagnostics and have no counterpart.
\<close>

unbundle bit_operations_syntax

section \<open>State\<close>

record rv32 = cpu +
  csrs :: "nat \<Rightarrow> u32"
  amws :: amw
  cur_pri :: u32
  have_exc :: u32
  exc_tval :: u32

definition XLEN :: nat where "XLEN = 32"
definition PRV_U :: u32 where [bits_defs]: "PRV_U = 0"
definition PRV_S :: u32 where [bits_defs]: "PRV_S = 1"
definition PRV_RESERVED :: u32 where [bits_defs]: "PRV_RESERVED = 2"
definition PRV_M :: u32 where [bits_defs]: "PRV_M = 3"

definition csr_get :: "config \<Rightarrow> u32 \<Rightarrow> ('a) rv32_scheme \<Rightarrow> u32" where
  "csr_get c a m = csrs m (check_csr_idx c a)"

definition csr_put :: "config \<Rightarrow> u32 \<Rightarrow> u32 \<Rightarrow> ('a) rv32_scheme \<Rightarrow> ('a) rv32_scheme" where
  "csr_put c a v m = m\<lparr>csrs := (csrs m)(check_csr_idx c a := v)\<rparr>"

text \<open>\<open>csr_mod\<close> is the statement \<^verbatim>\<open>csr(a) = f(csr(a))\<close>, \<open>csr_set_field\<close> the macro on a CSR.\<close>

definition csr_mod :: "config \<Rightarrow> u32 \<Rightarrow> (u32 \<Rightarrow> u32) \<Rightarrow> ('a) rv32_scheme \<Rightarrow> ('a) rv32_scheme" where
  "csr_mod c a f m = csr_put c a (f (csr_get c a m)) m"

definition csr_set_field :: "config \<Rightarrow> u32 \<Rightarrow> u32 \<Rightarrow> u32 \<Rightarrow> ('a) rv32_scheme \<Rightarrow> ('a) rv32_scheme" where
  "csr_set_field c a msk v m = csr_mod c a (\<lambda>r. set_field r msk v) m"

section \<open>The macros at the head of inst.c\<close>

definition isMonly :: "config \<Rightarrow> bool" where "isMonly c \<longleftrightarrow> cfg_priv c = RVPrivM"

definition trap_peek_exception :: "u32 \<Rightarrow> u32 \<Rightarrow> ('a) rv32_scheme \<Rightarrow> ('a) rv32_scheme" where
  "trap_peek_exception x1 x2 m = m\<lparr>have_exc := x1, exc_tval := x2\<rparr>"

definition recy_exception :: "('a) rv32_scheme \<Rightarrow> ('a) rv32_scheme" where
  "recy_exception m = trap_peek_exception RISCV_EXCP_NONE 0 m"

definition Mr :: "config \<Rightarrow> host_env \<Rightarrow> u32 \<Rightarrow> nat \<Rightarrow> ('a) rv32_scheme \<Rightarrow> (u32 \<times> ('a) rv32_scheme) res" where
  "Mr c E addr len m =
     (if cfg_misalign c \<or> addr mod of_nat len = 0 then vaddr_read c E addr len m
      else Inr (0, trap_peek_exception RISCV_EXCP_LOAD_ADDR_MIS addr m))"

definition Mw :: "config \<Rightarrow> host_env \<Rightarrow> u32 \<Rightarrow> nat \<Rightarrow> u32 \<Rightarrow> ('a) rv32_scheme \<Rightarrow> ('a) rv32_scheme res" where
  "Mw c E addr len data m =
     (if cfg_misalign c \<or> addr mod of_nat len = 0 then vaddr_write c E addr len data m
      else Inr (trap_peek_exception RISCV_EXCP_STORE_AMO_ADDR_MIS addr m))"

definition dnpc_and_check :: "u32 \<Rightarrow> ('a) rv32_scheme \<Rightarrow> ('a) rv32_scheme" where
  "dnpc_and_check target m =
     (if target mod 4 \<noteq> 0 then trap_peek_exception RISCV_EXCP_INST_ADDR_MIS target m
      else m\<lparr>d_dnpc := target\<rparr>)"

text \<open>\<^verbatim>\<open>CSR_W_MSTATUS_CHECK\<close>: the statement behind it is skipped for mstatus in an M-only build.\<close>

definition csr_write_checked :: "config \<Rightarrow> u32 \<Rightarrow> u32 \<Rightarrow> ('a) rv32_scheme \<Rightarrow> ('a) rv32_scheme" where
  "csr_write_checked c a v m = (if isMonly c \<and> a = CSR_MSTATUS then m else csr_put c a v m)"

section \<open>Operands\<close>

datatype itype = TYPE_I | TYPE_U | TYPE_S | TYPE_J | TYPE_B | TYPE_R | TYPE_CSR_II | TYPE_CSR_I | TYPE_N

definition immI :: "u32 \<Rightarrow> u32" where
  "immI i = SEXT (BITS i 31 20) 12"

definition immU :: "u32 \<Rightarrow> u32" where
  "immU i = push_bit 12 (SEXT (BITS i 31 12) 20)"

definition immS :: "u32 \<Rightarrow> u32" where
  "immS i = push_bit 5 (SEXT (BITS i 31 25) 7) OR BITS i 11 7"

definition immB :: "u32 \<Rightarrow> u32" where
  "immB i = SEXT (push_bit 12 (BITS i 31 31) OR push_bit 11 (BITS i 7 7) OR
     push_bit 5 (BITS i 30 25) OR push_bit 1 (BITS i 11 8)) 13"

definition immJ :: "u32 \<Rightarrow> u32" where
  "immJ i = SEXT (push_bit 20 (BITS i 31 31) OR push_bit 12 (BITS i 19 12) OR push_bit 11 (BITS i 20 20) OR
     push_bit 5 (BITS i 30 25) OR push_bit 1 (BITS i 24 21)) 21"

record operands =
  op_rd :: nat
  op_src1 :: u32
  op_src2 :: u32
  op_imm :: u32

text \<open>The variables are initialised to 0 in \<^verbatim>\<open>decode_exec\<close>; one entry of the table decodes them.\<close>

definition decode_operand :: "u32 \<Rightarrow> itype \<Rightarrow> ('a) cpu_scheme \<Rightarrow> operands" where
  "decode_operand i ty m =
     (let rs1 = unat (BITS i 19 15); rs2 = unat (BITS i 24 20);
          s = \<lparr>op_rd = unat (BITS i 11 7), op_src1 = 0, op_src2 = 0, op_imm = 0\<rparr>
      in case ty of
        TYPE_I \<Rightarrow> s\<lparr>op_src1 := gpr m rs1, op_imm := immI i\<rparr>
      | TYPE_U \<Rightarrow> s\<lparr>op_imm := immU i\<rparr>
      | TYPE_J \<Rightarrow> s\<lparr>op_imm := immJ i\<rparr>
      | TYPE_S \<Rightarrow> s\<lparr>op_src1 := gpr m rs1, op_src2 := gpr m rs2, op_imm := immS i\<rparr>
      | TYPE_B \<Rightarrow> s\<lparr>op_src1 := gpr m rs1, op_src2 := gpr m rs2, op_imm := immB i\<rparr>
      | TYPE_R \<Rightarrow> s\<lparr>op_src1 := gpr m rs1, op_src2 := gpr m rs2\<rparr>
      | TYPE_CSR_I \<Rightarrow> s\<lparr>op_src1 := gpr m rs1, op_imm := BITS i 31 20\<rparr>
      | TYPE_CSR_II \<Rightarrow> s\<lparr>op_src1 := of_nat rs1, op_imm := immI i\<rparr>
      | TYPE_N \<Rightarrow> s)"

section \<open>The instructions\<close>

datatype alu =
    LUI | AUIPC
  | ADDI | SLTI | SLTIU | XORI | ORI | ANDI | SRLI | SRAI
  | ADD | SUB | SLL | SLT | SLTU | XORR | SRL | SRA | ORR | ANDR
  | MUL | MULH | MULHSU | MULHU | DIV | DIVU | REM | REMU

datatype branch = BEQ | BNE | BLT | BGE | BLTU | BGEU
datatype load = LB | LH | LW | LBU | LHU
datatype store = SB | SH | SW
datatype amo = AMOSWAP | AMOADD | AMOXOR | AMOAND | AMOOR | AMOMIN | AMOMAX | AMOMINU | AMOMAXU
datatype csrop = CSRRW | CSRRC | CSRRS | CSRRWI | CSRRCI | CSRRSI

datatype op =
    Alu alu | Slli | Jal | Jalr | Branch branch | Load load | Store store | Ecall | Ebreak
  | LrW | ScW | Amo amo | Csr csrop | Sret | Mret | Wfi | Fence | Inv

section \<open>The pattern table\<close>

definition instpat_base :: "(string \<times> itype \<times> op) list" where
  "instpat_base = [
    (''??????? ????? ????? ??? ????? 01101 11'', TYPE_U, Alu LUI),
    (''??????? ????? ????? ??? ????? 00101 11'', TYPE_U, Alu AUIPC),
    (''??????? ????? ????? ??? ????? 11011 11'', TYPE_J, Jal),
    (''??????? ????? ????? 000 ????? 11001 11'', TYPE_I, Jalr),
    (''??????? ????? ????? 000 ????? 11000 11'', TYPE_B, Branch BEQ),
    (''??????? ????? ????? 001 ????? 11000 11'', TYPE_B, Branch BNE),
    (''??????? ????? ????? 100 ????? 11000 11'', TYPE_B, Branch BLT),
    (''??????? ????? ????? 101 ????? 11000 11'', TYPE_B, Branch BGE),
    (''??????? ????? ????? 110 ????? 11000 11'', TYPE_B, Branch BLTU),
    (''??????? ????? ????? 111 ????? 11000 11'', TYPE_B, Branch BGEU),
    (''??????? ????? ????? 000 ????? 00000 11'', TYPE_I, Load LB),
    (''??????? ????? ????? 001 ????? 00000 11'', TYPE_I, Load LH),
    (''??????? ????? ????? 010 ????? 00000 11'', TYPE_I, Load LW),
    (''??????? ????? ????? 100 ????? 00000 11'', TYPE_I, Load LBU),
    (''??????? ????? ????? 101 ????? 00000 11'', TYPE_I, Load LHU),
    (''??????? ????? ????? 000 ????? 01000 11'', TYPE_S, Store SB),
    (''??????? ????? ????? 001 ????? 01000 11'', TYPE_S, Store SH),
    (''??????? ????? ????? 010 ????? 01000 11'', TYPE_S, Store SW),
    (''??????? ????? ????? 000 ????? 00100 11'', TYPE_I, Alu ADDI),
    (''??????? ????? ????? 010 ????? 00100 11'', TYPE_I, Alu SLTI),
    (''??????? ????? ????? 011 ????? 00100 11'', TYPE_I, Alu SLTIU),
    (''??????? ????? ????? 100 ????? 00100 11'', TYPE_I, Alu XORI),
    (''??????? ????? ????? 110 ????? 00100 11'', TYPE_I, Alu ORI),
    (''??????? ????? ????? 111 ????? 00100 11'', TYPE_I, Alu ANDI),
    (''000000? ????? ????? 001 ????? 00100 11'', TYPE_I, Slli),
    (''0000000 ????? ????? 101 ????? 00100 11'', TYPE_I, Alu SRLI),
    (''0100000 ????? ????? 101 ????? 00100 11'', TYPE_I, Alu SRAI),
    (''0000000 ????? ????? 000 ????? 01100 11'', TYPE_R, Alu ADD),
    (''0100000 ????? ????? 000 ????? 01100 11'', TYPE_R, Alu SUB),
    (''0000000 ????? ????? 001 ????? 01100 11'', TYPE_R, Alu SLL),
    (''0000000 ????? ????? 010 ????? 01100 11'', TYPE_R, Alu SLT),
    (''0000000 ????? ????? 011 ????? 01100 11'', TYPE_R, Alu SLTU),
    (''0000000 ????? ????? 100 ????? 01100 11'', TYPE_R, Alu XORR),
    (''0000000 ????? ????? 101 ????? 01100 11'', TYPE_R, Alu SRL),
    (''0100000 ????? ????? 101 ????? 01100 11'', TYPE_R, Alu SRA),
    (''0000000 ????? ????? 110 ????? 01100 11'', TYPE_R, Alu ORR),
    (''0000000 ????? ????? 111 ????? 01100 11'', TYPE_R, Alu ANDR),
    (''0000000 00000 00000 000 00000 11100 11'', TYPE_N, Ecall),
    (''0000000 00001 00000 000 00000 11100 11'', TYPE_N, Ebreak),
    (''0000001 ????? ????? 000 ????? 01100 11'', TYPE_R, Alu MUL),
    (''0000001 ????? ????? 001 ????? 01100 11'', TYPE_R, Alu MULH),
    (''0000001 ????? ????? 010 ????? 01100 11'', TYPE_R, Alu MULHSU),
    (''0000001 ????? ????? 011 ????? 01100 11'', TYPE_R, Alu MULHU),
    (''0000001 ????? ????? 100 ????? 01100 11'', TYPE_R, Alu DIV),
    (''0000001 ????? ????? 101 ????? 01100 11'', TYPE_R, Alu DIVU),
    (''0000001 ????? ????? 110 ????? 01100 11'', TYPE_R, Alu REM),
    (''0000001 ????? ????? 111 ????? 01100 11'', TYPE_R, Alu REMU)]"

definition instpat_rva :: "(string \<times> itype \<times> op) list" where
  "instpat_rva = [
    (''00010 00 00000 ????? 010 ????? 01011 11'', TYPE_R, LrW),
    (''00011 ?? ????? ????? 010 ????? 01011 11'', TYPE_R, ScW),
    (''00001 ?? ????? ????? 010 ????? 01011 11'', TYPE_R, Amo AMOSWAP),
    (''00000 ?? ????? ????? 010 ????? 01011 11'', TYPE_R, Amo AMOADD),
    (''00100 ?? ????? ????? 010 ????? 01011 11'', TYPE_R, Amo AMOXOR),
    (''01100 ?? ????? ????? 010 ????? 01011 11'', TYPE_R, Amo AMOAND),
    (''01000 ?? ????? ????? 010 ????? 01011 11'', TYPE_R, Amo AMOOR),
    (''10000 ?? ????? ????? 010 ????? 01011 11'', TYPE_R, Amo AMOMIN),
    (''10100 ?? ????? ????? 010 ????? 01011 11'', TYPE_R, Amo AMOMAX),
    (''11000 ?? ????? ????? 010 ????? 01011 11'', TYPE_R, Amo AMOMINU),
    (''11100 ?? ????? ????? 010 ????? 01011 11'', TYPE_R, Amo AMOMAXU)]"

definition instpat_zicsr :: "(string \<times> itype \<times> op) list" where
  "instpat_zicsr = [
    (''??????? ????? ????? 001 ????? 11100 11'', TYPE_CSR_I, Csr CSRRW),
    (''??????? ????? ????? 011 ????? 11100 11'', TYPE_CSR_I, Csr CSRRC),
    (''??????? ????? ????? 010 ????? 11100 11'', TYPE_CSR_I, Csr CSRRS),
    (''??????? ????? ????? 101 ????? 11100 11'', TYPE_CSR_II, Csr CSRRWI),
    (''??????? ????? ????? 111 ????? 11100 11'', TYPE_CSR_II, Csr CSRRCI),
    (''??????? ????? ????? 110 ????? 11100 11'', TYPE_CSR_II, Csr CSRRSI),
    (''0001000 00010 00000 000 00000 11100 11'', TYPE_N, Sret),
    (''0011000 00010 00000 000 00000 11100 11'', TYPE_R, Mret),
    (''0001000 00101 00000 000 00000 11100 11'', TYPE_N, Wfi)]"

definition instpat_zifencei :: "(string \<times> itype \<times> op) list" where
  "instpat_zifencei = [
    (''0000??? ????? 00000 000 00000 00011 11'', TYPE_N, Fence),
    (''0000000 00000 00000 001 00000 00011 11'', TYPE_N, Fence),
    (''0001001 ????? ????? 000 00000 11100 11'', TYPE_N, Fence)]"

definition instpat_inv :: "(string \<times> itype \<times> op) list" where
  "instpat_inv = [
    (''0000000 00000 00000 000 00000 00000 00'', TYPE_N, Inv),
    (''??????? ????? ????? ??? ????? ????? ??'', TYPE_N, Inv)]"

definition instpat_table :: "config \<Rightarrow> (string \<times> itype \<times> op) list" where
  "instpat_table c = instpat_base @
     (if cfg_rva c then instpat_rva else []) @
     (if cfg_zicsr c then instpat_zicsr else []) @
     (if cfg_zifencei c then instpat_zifencei else []) @
     instpat_inv"

section \<open>Arithmetic\<close>

text \<open>
  The value an arithmetic instruction stores in \<^verbatim>\<open>R(rd)\<close>. Comparisons give 0 or 1, the
  products are formed in 64 bits, and the C operators \<^verbatim>\<open>/\<close> and \<^verbatim>\<open>%\<close> on \<^verbatim>\<open>sword_t\<close> truncate.
\<close>

fun alu_result :: "alu \<Rightarrow> u32 \<Rightarrow> operands \<Rightarrow> u32" where
  "alu_result LUI pc0 x = op_imm x"
| "alu_result AUIPC pc0 x = pc0 + op_imm x"
| "alu_result ADDI pc0 x = op_src1 x + op_imm x"
| "alu_result SLTI pc0 x = of_bool (op_src1 x <s op_imm x)"
| "alu_result SLTIU pc0 x = of_bool (op_src1 x < op_imm x)"
| "alu_result XORI pc0 x = op_src1 x XOR op_imm x"
| "alu_result ORI pc0 x = op_src1 x OR op_imm x"
| "alu_result ANDI pc0 x = op_src1 x AND op_imm x"
| "alu_result SRLI pc0 x = drop_bit (unat (BITS (op_imm x) 5 0)) (op_src1 x)"
| "alu_result SRAI pc0 x = signed_drop_bit (unat (BITS (op_imm x) 5 0)) (op_src1 x)"
| "alu_result ADD pc0 x = op_src1 x + op_src2 x"
| "alu_result SUB pc0 x = op_src1 x - op_src2 x"
| "alu_result SLL pc0 x = push_bit (unat (BITS (op_src2 x) 4 0)) (op_src1 x)"
| "alu_result SLT pc0 x = of_bool (op_src1 x <s op_src2 x)"
| "alu_result SLTU pc0 x = of_bool (op_src1 x < op_src2 x)"
| "alu_result XORR pc0 x = op_src1 x XOR op_src2 x"
| "alu_result SRL pc0 x = drop_bit (unat (BITS (op_src2 x) 4 0)) (op_src1 x)"
| "alu_result SRA pc0 x = signed_drop_bit (unat (BITS (op_src2 x) 4 0)) (op_src1 x)"
| "alu_result ORR pc0 x = op_src1 x OR op_src2 x"
| "alu_result ANDR pc0 x = op_src1 x AND op_src2 x"
| "alu_result MUL pc0 x = op_src1 x * op_src2 x"
| "alu_result MULH pc0 x = ucast (signed_drop_bit 32 ((scast (op_src1 x) :: u64) * scast (op_src2 x)))"
| "alu_result MULHSU pc0 x = ucast (drop_bit 32 ((scast (op_src1 x) :: u64) * ucast (op_src2 x)))"
| "alu_result MULHU pc0 x = ucast (drop_bit 32 ((ucast (op_src1 x) :: u64) * ucast (op_src2 x)))"
| "alu_result DIV pc0 x =
     (if op_src1 x = push_bit (XLEN - 1) 1 \<and> op_src2 x = - 1 then op_src1 x
      else if op_src2 x \<noteq> 0 then word_of_int (sint (op_src1 x) sdiv sint (op_src2 x)) else NOT 0)"
| "alu_result DIVU pc0 x = (if op_src2 x \<noteq> 0 then op_src1 x div op_src2 x else NOT 0)"
| "alu_result REM pc0 x =
     (if op_src1 x = push_bit (XLEN - 1) 1 \<and> op_src2 x = - 1 then 0
      else if op_src2 x \<noteq> 0 then word_of_int (sint (op_src1 x) smod sint (op_src2 x)) else op_src1 x)"
| "alu_result REMU pc0 x = (if op_src2 x \<noteq> 0 then op_src1 x mod op_src2 x else op_src1 x)"

definition exec_slli :: "operands \<Rightarrow> ('a) rv32_scheme \<Rightarrow> ('a) rv32_scheme" where
  "exec_slli x m =
     (if op_imm x AND 0x20 \<noteq> 0 then trap_peek_exception RISCV_EXCP_ILLEGAL_INST (d_inst m) m
      else set_gpr (op_rd x) (push_bit (unat (BITS (op_imm x) 6 0)) (op_src1 x)) m)"

section \<open>Control transfer\<close>

definition exec_jal :: "operands \<Rightarrow> ('a) rv32_scheme \<Rightarrow> ('a) rv32_scheme" where
  "exec_jal x m =
     (let target = d_pc m + op_imm x in
      if target mod 4 \<noteq> 0 then trap_peek_exception RISCV_EXCP_INST_ADDR_MIS target m
      else (set_gpr (op_rd x) (d_pc m + 4) m)\<lparr>d_dnpc := d_pc m + op_imm x\<rparr>)"

definition exec_jalr :: "operands \<Rightarrow> ('a) rv32_scheme \<Rightarrow> ('a) rv32_scheme" where
  "exec_jalr x m =
     (let target = (op_src1 x + op_imm x) AND NOT 1 in
      if target mod 4 \<noteq> 0
      then set_gpr (op_rd x) 0 (trap_peek_exception RISCV_EXCP_INST_ADDR_MIS target m)
      else set_gpr (op_rd x) (d_pc m + 4) (m\<lparr>d_dnpc := target\<rparr>))"

fun branch_taken :: "branch \<Rightarrow> u32 \<Rightarrow> u32 \<Rightarrow> bool" where
  "branch_taken BEQ a b \<longleftrightarrow> a = b"
| "branch_taken BNE a b \<longleftrightarrow> a \<noteq> b"
| "branch_taken BLT a b \<longleftrightarrow> a <s b"
| "branch_taken BGE a b \<longleftrightarrow> b \<le>s a"
| "branch_taken BLTU a b \<longleftrightarrow> a < b"
| "branch_taken BGEU a b \<longleftrightarrow> b \<le> a"

definition exec_branch :: "branch \<Rightarrow> operands \<Rightarrow> ('a) rv32_scheme \<Rightarrow> ('a) rv32_scheme" where
  "exec_branch b x m =
     (if branch_taken b (op_src1 x) (op_src2 x) then dnpc_and_check (d_pc m + SEXT (op_imm x) 13) m else m)"

section \<open>Loads and stores\<close>

fun load_len :: "load \<Rightarrow> nat" where
  "load_len LB = 1" | "load_len LH = 2" | "load_len LW = 4" | "load_len LBU = 1" | "load_len LHU = 2"

fun load_extend :: "load \<Rightarrow> u32 \<Rightarrow> u32" where
  "load_extend LB v = SEXT v (1 * 8)"
| "load_extend LH v = SEXT v (2 * 8)"
| "load_extend LW v = SEXT v (4 * 8)"
| "load_extend LBU v = v"
| "load_extend LHU v = v"

definition exec_load :: "config \<Rightarrow> host_env \<Rightarrow> load \<Rightarrow> operands \<Rightarrow> ('a) rv32_scheme \<Rightarrow> ('a) rv32_scheme res" where
  "exec_load c E ld x m =
     bindE (Mr c E (op_src1 x + op_imm x) (load_len ld) m) (\<lambda>(v, m1).
     Inr (set_gpr (op_rd x) (load_extend ld v) m1))"

fun store_len :: "store \<Rightarrow> nat" where
  "store_len SB = 1" | "store_len SH = 2" | "store_len SW = 4"

definition exec_store :: "config \<Rightarrow> host_env \<Rightarrow> store \<Rightarrow> operands \<Rightarrow> ('a) rv32_scheme \<Rightarrow> ('a) rv32_scheme res" where
  "exec_store c E st x m = Mw c E (op_src1 x + op_imm x) (store_len st) (op_src2 x) m"

section \<open>Atomics\<close>

definition exec_lr :: "config \<Rightarrow> host_env \<Rightarrow> operands \<Rightarrow> ('a) rv32_scheme \<Rightarrow> ('a) rv32_scheme res" where
  "exec_lr c E x m =
     bindE (Mr c E (op_src1 x) 4 m) (\<lambda>(v, m1).
     let m2 = set_gpr (op_rd x) v m1 in Inr (m2\<lparr>amws := amw_insert (amws m2) (op_src1 x) True\<rparr>))"

definition exec_sc :: "config \<Rightarrow> host_env \<Rightarrow> operands \<Rightarrow> ('a) rv32_scheme \<Rightarrow> ('a) rv32_scheme res" where
  "exec_sc c E x m = (case amw_search (amws m) (op_src1 x) of
      Some (_, True) \<Rightarrow>
        bindE (Mw c E (op_src1 x) 4 (op_src2 x) m) (\<lambda>m1.
        let m2 = set_gpr (op_rd x) 0 m1 in Inr (m2\<lparr>amws := amw_delete (amws m2) (op_src1 x)\<rparr>))
    | _ \<Rightarrow> Inr (set_gpr (op_rd x) 1 m))"

fun amo_value :: "amo \<Rightarrow> u32 \<Rightarrow> u32 \<Rightarrow> u32" where
  "amo_value AMOSWAP t s = s"
| "amo_value AMOADD t s = t + s"
| "amo_value AMOXOR t s = t XOR s"
| "amo_value AMOAND t s = t AND s"
| "amo_value AMOOR t s = t OR s"
| "amo_value AMOMIN t s = (if t <s s then t else s)"
| "amo_value AMOMAX t s = (if s <s t then t else s)"
| "amo_value AMOMINU t s = (if t < s then t else s)"
| "amo_value AMOMAXU t s = (if s < t then t else s)"

definition exec_amo :: "config \<Rightarrow> host_env \<Rightarrow> amo \<Rightarrow> operands \<Rightarrow> ('a) rv32_scheme \<Rightarrow> ('a) rv32_scheme res" where
  "exec_amo c E a x m =
     bindE (Mr c E (op_src1 x) 4 m) (\<lambda>(t, m1).
     bindE (Mw c E (op_src1 x) 4 (amo_value a t (op_src2 x)) m1) (\<lambda>m2.
     Inr (set_gpr (op_rd x) t m2)))"

section \<open>CSR and privileged instructions\<close>

fun csr_new :: "csrop \<Rightarrow> u32 \<Rightarrow> u32 \<Rightarrow> u32" where
  "csr_new CSRRW t s = s"
| "csr_new CSRRC t s = t AND NOT s"
| "csr_new CSRRS t s = t OR s"
| "csr_new CSRRWI t s = s"
| "csr_new CSRRCI t s = t AND NOT s"
| "csr_new CSRRSI t s = t OR s"

definition exec_csr :: "config \<Rightarrow> csrop \<Rightarrow> operands \<Rightarrow> ('a) rv32_scheme \<Rightarrow> ('a) rv32_scheme" where
  "exec_csr c k x m =
     (if check_csr_idx c (op_imm x) = NR_CSR c
      then trap_peek_exception RISCV_EXCP_ILLEGAL_INST (d_inst m) m
      else (let t = csr_get c (op_imm x) m
            in set_gpr (op_rd x) t (csr_write_checked c (op_imm x) (csr_new k t (op_src1 x)) m)))"

definition exec_ecall :: "config \<Rightarrow> ('a) rv32_scheme \<Rightarrow> ('a) rv32_scheme" where
  "exec_ecall c m =
     (let m1 = trap_peek_exception (RISCV_EXCP_U_ECALL + cur_pri m) (d_pc m) m
      in if gpr m1 17 = 8 then NEMUTRAP c (d_pc m1) (gpr m1 10) m1 else m1)"

definition exec_ebreak :: "config \<Rightarrow> ('a) rv32_scheme \<Rightarrow> ('a) rv32_scheme" where
  "exec_ebreak c m = (let m1 = csr_put c CSR_MEPC (d_pc m) m in NEMUTRAP c (d_pc m1) (gpr m1 10) m1)"

definition exec_sret :: "config \<Rightarrow> ('a) rv32_scheme \<Rightarrow> ('a) rv32_scheme" where
  "exec_sret c m =
     (let m1 = m\<lparr>d_dnpc := csr_get c CSR_SEPC m\<rparr>;
          m2 = csr_mod c CSR_SSTATUS (\<lambda>s. s OR push_bit 1 (get_field s SSTATUS_SPIE)) m1;
          m3 = m2\<lparr>cur_pri := get_field (csr_get c CSR_SSTATUS m2) SSTATUS_SPP\<rparr>;
          m4 = csr_mod c CSR_SSTATUS (\<lambda>s. (s AND NOT SSTATUS_SPP) OR SSTATUS_SPIE) m3
      in if isMonly c then m4
         else csr_mod c CSR_MSTATUS (\<lambda>s. (s AND NOT MSTATUS_SPP) OR SSTATUS_SPIE) m4)"

definition exec_mret :: "config \<Rightarrow> ('a) rv32_scheme \<Rightarrow> ('a) rv32_scheme" where
  "exec_mret c m =
     (let m1 = m\<lparr>d_dnpc := csr_get c CSR_MEPC m\<rparr>;
          m2 = csr_mod c CSR_MSTATUS (\<lambda>s. set_field s MSTATUS_MIE (get_field s MSTATUS_MPIE)) m1;
          m3 = csr_set_field c CSR_MSTATUS MSTATUS_MPIE 1 m2;
          m4 = m3\<lparr>cur_pri := get_field (csr_get c CSR_MSTATUS m3) MSTATUS_MPP\<rparr>
      in if isMonly c then m4 else csr_set_field c CSR_MSTATUS MSTATUS_MPP 0 m4)"

definition exec_wfi :: "config \<Rightarrow> host_env \<Rightarrow> ('a) rv32_scheme \<Rightarrow> ('a) rv32_scheme res" where
  "exec_wfi c E m =
     (let a = CONFIG_CLINT_MMIO + of_nat MTIMELO in
      bindE (Mr c E a 4 m) (\<lambda>(t, m1). Mw c E a 4 (t + 2000) m1))"

fun exec_op :: "config \<Rightarrow> host_env \<Rightarrow> op \<Rightarrow> operands \<Rightarrow> ('a) rv32_scheme \<Rightarrow> ('a) rv32_scheme res" where
  "exec_op c E (Alu a) x m = Inr (set_gpr (op_rd x) (alu_result a (d_pc m) x) m)"
| "exec_op c E Slli x m = Inr (exec_slli x m)"
| "exec_op c E Jal x m = Inr (exec_jal x m)"
| "exec_op c E Jalr x m = Inr (exec_jalr x m)"
| "exec_op c E (Branch b) x m = Inr (exec_branch b x m)"
| "exec_op c E (Load ld) x m = exec_load c E ld x m"
| "exec_op c E (Store st) x m = exec_store c E st x m"
| "exec_op c E Ecall x m = Inr (exec_ecall c m)"
| "exec_op c E Ebreak x m = Inr (exec_ebreak c m)"
| "exec_op c E LrW x m = exec_lr c E x m"
| "exec_op c E ScW x m = exec_sc c E x m"
| "exec_op c E (Amo a) x m = exec_amo c E a x m"
| "exec_op c E (Csr k) x m = Inr (exec_csr c k x m)"
| "exec_op c E Sret x m = Inr (exec_sret c m)"
| "exec_op c E Mret x m = Inr (exec_mret c m)"
| "exec_op c E Wfi x m = exec_wfi c E m"
| "exec_op c E Fence x m = Inr m"
| "exec_op c E Inv x m = Inr (trap_peek_exception RISCV_EXCP_ILLEGAL_INST (d_inst m) m)"

end
