(* ===== verification/RvTrap.thy ===== *)
theory RvTrap
  imports Riscv32
begin

text \<open>
  The interrupt check, the trap entry and the step of the RISC-V core (\<^verbatim>\<open>find_irq_type_val\<close>,
  \<^verbatim>\<open>irp_and\<close>, \<^verbatim>\<open>decode_exec\<close>, \<^verbatim>\<open>isa_exec_once\<close> of \<^verbatim>\<open>inst.c\<close>), the reset state of
  \<^verbatim>\<open>init.c\<close>, the debugger's view of the registers (\<^verbatim>\<open>reg.c\<close>) and the stubs of
  \<^verbatim>\<open>system/intr.c\<close> and \<^verbatim>\<open>system/mmu.c\<close>.
\<close>

unbundle bit_operations_syntax

section \<open>Interrupts\<close>

text \<open>
  \<^verbatim>\<open>find_irq_type_val\<close> shifts the pending bits out at the top, counting in \<open>x\<close>. The loop
  ends because the lowest set bit of \<open>y\<close> moves up: \<open>fuel\<close> bounds the rounds, and 32 are
  enough for every \<open>y\<close> (\<open>irq_loop_fuel\<close>).
\<close>

fun irq_loop :: "nat \<Rightarrow> u32 \<Rightarrow> u32 \<Rightarrow> u32 option" where
  "irq_loop 0 y x = (if y = 0 then Some (- 1) else None)"
| "irq_loop (Suc fuel) y x =
     (if y = 0 then Some (- 1)
      else if y AND push_bit (XLEN - 1) 1 = push_bit (XLEN - 1) 1 \<and> (31 - x) mod 2 \<noteq> 0 then Some (31 - x)
      else irq_loop fuel (push_bit 1 y) (x + 1))"

definition find_irq_type_val :: "u32 \<Rightarrow> u32" where
  "find_irq_type_val y = (let x = of_nat XLEN - 12 in
     case irq_loop 32 (push_bit (unat x) y) x of Some r \<Rightarrow> r | None \<Rightarrow> 0)"

definition have_IP :: "config \<Rightarrow> ('a) rv32_scheme \<Rightarrow> u32" where
  "have_IP c m = csr_get c CSR_MIE m AND csr_get c CSR_MIP m AND 0x0aaa"

definition mstatus_mie :: "config \<Rightarrow> ('a) rv32_scheme \<Rightarrow> u32" where
  "mstatus_mie c m = csr_get c CSR_MSTATUS m AND 0x8"

text \<open>The timer comparison: four loads from the CLINT, the second pair only when needed.\<close>

definition timer_expired :: "config \<Rightarrow> host_env \<Rightarrow> ('a) rv32_scheme \<Rightarrow> (bool \<times> ('a) rv32_scheme) res" where
  "timer_expired c E m =
     bindE (Mr c E (CONFIG_CLINT_MMIO + of_nat MTIMEHI) 4 m) (\<lambda>(hi, m).
     bindE (Mr c E (CONFIG_CLINT_MMIO + of_nat MTIMECMPHI) 4 m) (\<lambda>(cmphi, m).
     if cmphi < hi then Inr (True, m)
     else
       bindE (Mr c E (CONFIG_CLINT_MMIO + of_nat MTIMELO) 4 m) (\<lambda>(lo, m).
       bindE (Mr c E (CONFIG_CLINT_MMIO + of_nat MTIMECMPLO) 4 m) (\<lambda>(cmplo, m).
       Inr (cmplo < lo, m)))))"

text \<open>Entry of a machine interrupt.\<close>

definition take_irq :: "config \<Rightarrow> u32 \<Rightarrow> ('a) rv32_scheme \<Rightarrow> ('a) rv32_scheme" where
  "take_irq c irq m =
     (let m1 = csr_put c CSR_MCAUSE (irq OR push_bit (XLEN - 1) 1) m;
          m2 = csr_put c CSR_MEPC (d_pc m1) m1;
          m3 = dnpc_and_check (csr_get c CSR_MTVEC m2 + (4 * irq - 1) * get_field (csr_get c CSR_MTVEC m2) 1) m2;
          m4 = csr_mod c CSR_MSTATUS (\<lambda>s. set_field s MSTATUS_MPIE (get_field s MSTATUS_MIE)) m3;
          m5 = csr_mod c CSR_MSTATUS (\<lambda>s. s AND NOT MSTATUS_MIE) m4;
          m6 = csr_set_field c CSR_MSTATUS MSTATUS_MPP (cur_pri m5) m5
      in m6\<lparr>cur_pri := PRV_M\<rparr>)"

definition irp_and :: "config \<Rightarrow> host_env \<Rightarrow> ('a) rv32_scheme \<Rightarrow> (bool \<times> ('a) rv32_scheme) res" where
  "irp_and c E m =
     bindE (timer_expired c E m) (\<lambda>(expired, m).
     let m1 = csr_set_field c CSR_MIP MIP_MTIP (if expired then 1 else 0) m in
     if mstatus_mie c m1 = 0 then Inr (False, m1)
     else
       (let irq = find_irq_type_val (have_IP c m1) in
        if csr_get c CSR_MIDELEG m1 \<noteq> 0 \<and> cur_pri m1 = PRV_S \<and> csr_get c CSR_SSTATUS m1 AND 0x8 \<noteq> 0 \<and>
           csr_get c CSR_SIE m1 AND csr_get c CSR_SIP m1 AND 0x0aaa \<noteq> 0
        then Inr (True, m1)
        else if irq \<noteq> - 1 then Inr (True, take_irq c irq m1)
        else Inr (False, m1)))"

section \<open>Exceptions\<close>

text \<open>
  \<^verbatim>\<open>illegal_instruction\<close> is a macro: its argument \<^verbatim>\<open>exception_causes\<close> is the variable
  \<^verbatim>\<open>have_RISCVException\<close> itself, read again after \<^verbatim>\<open>dnpc_and_check\<close> may have changed it.
\<close>

definition illegal_instruction :: "config \<Rightarrow> ('a) rv32_scheme \<Rightarrow> ('a) rv32_scheme" where
  "illegal_instruction c m =
     (let m1 = csr_mod c CSR_MSTATUS (\<lambda>s. (s AND NOT MSTATUS_MPP) OR push_bit 11 (cur_pri m)) m;
          m2 = csr_put c CSR_MCAUSE (have_exc m1) m1;
          m3 = csr_put c CSR_MEPC (d_pc m2) m2;
          m4 = csr_put c CSR_MTVAL (exc_tval m3) m3;
          m5 = csr_mod c CSR_MSTATUS (\<lambda>s. s AND NOT 0x80) m4;
          m6 = csr_mod c CSR_MSTATUS (\<lambda>s. push_bit 4 (s AND 0x8) OR s) m5;
          m7 = csr_mod c CSR_MSTATUS (\<lambda>s. s AND NOT 0x8) m6;
          m8 = dnpc_and_check (csr_get c CSR_MTVEC m7) m7
      in if have_exc m8 < RISCV_EXCP_U_ECALL \<or> RISCV_EXCP_M_ECALL < have_exc m8 then m8
         else if gpr m8 17 = 93 \<or> gpr m8 17 = 0x53525354 then NEMUTRAP c (d_pc m8) (gpr m8 10) m8
         else m8)"

definition delegated :: "config \<Rightarrow> ('a) rv32_scheme \<Rightarrow> bool" where
  "delegated c m \<longleftrightarrow> cfg_priv c = RVPrivMSU \<and> cur_pri m \<le> PRV_S \<and>
     csr_get c CSR_MEDELEG m AND push_bit (unat (have_exc m)) 1 \<noteq> 0"

definition supervisor_trap :: "config \<Rightarrow> ('a) rv32_scheme \<Rightarrow> ('a) rv32_scheme" where
  "supervisor_trap c m =
     (let m1 = csr_put c CSR_SCAUSE (have_exc m) m;
          m2 = csr_put c CSR_SEPC (d_pc m1) m1;
          m3 = csr_put c CSR_STVAL (exc_tval m2) m2;
          m4 = csr_mod c CSR_SSTATUS (\<lambda>s. set_field s SSTATUS_SPIE (get_field s SSTATUS_SIE)) m3;
          m5 = csr_mod c CSR_MSTATUS (\<lambda>s. set_field s MSTATUS_SPIE (get_field s MSTATUS_SIE)) m4;
          m6 = csr_set_field c CSR_SSTATUS SSTATUS_SIE 0 m5;
          m7 = dnpc_and_check (csr_get c CSR_STVEC m6) m6;
          m8 = csr_set_field c CSR_SSTATUS SSTATUS_SPP (cur_pri m7) m7;
          m9 = m8\<lparr>cur_pri := PRV_S\<rparr>
      in csr_set_field c CSR_MSTATUS MSTATUS_SPP (cur_pri m9) m9)"

definition handle_exception :: "config \<Rightarrow> ('a) rv32_scheme \<Rightarrow> ('a) rv32_scheme" where
  "handle_exception c m =
     (if have_exc m = RISCV_EXCP_NONE then m
      else recy_exception (if delegated c m then supervisor_trap c m else illegal_instruction c m))"

section \<open>One instruction\<close>

text \<open>The tail of \<^verbatim>\<open>decode_exec\<close>: \<^verbatim>\<open>R(0) = 0\<close>, the C bit of misa, and the pending exception.\<close>

definition decode_finish :: "config \<Rightarrow> ('a) rv32_scheme \<Rightarrow> ('a) rv32_scheme" where
  "decode_finish c m =
     (let m1 = set_gpr 0 0 m;
          m2 = csr_mod c CSR_MISA (\<lambda>v. v AND NOT 0x4) m1
      in handle_exception c m2)"

definition decode_exec :: "config \<Rightarrow> host_env \<Rightarrow> ('a) rv32_scheme \<Rightarrow> ('a) rv32_scheme res" where
  "decode_exec c E m =
     (let m0 = dnpc_and_check (d_snpc m) m in
      bindE (instpat_select (instpat_table c) (d_inst m0)) (\<lambda>sel.
      bindE (case sel of
               None \<Rightarrow> Inr m0
             | Some (ty, op) \<Rightarrow> exec_op c E op (decode_operand (d_inst m0) ty m0) m0) (\<lambda>m1.
      Inr (decode_finish c m1))))"

definition isa_exec_once :: "config \<Rightarrow> host_env \<Rightarrow> ('a) rv32_scheme \<Rightarrow> ('a) rv32_scheme res" where
  "isa_exec_once c E m =
     bindE (inst_fetch c E (d_snpc m) 4 m) (\<lambda>(inst, snpc, m1).
     bindE (irp_and c E (m1\<lparr>d_inst := inst, d_snpc := snpc\<rparr>)) (\<lambda>(taken, m2).
     if taken then Inr m2 else decode_exec c E m2))"

section \<open>init.c\<close>

definition img :: "u32 list" where "img = [0x0ce6d063]"

definition csr_init :: "config \<Rightarrow> ('a) rv32_scheme \<Rightarrow> ('a) rv32_scheme" where
  "csr_init c m =
     (let m = csr_put c CSR_MSTATUS 0 m;
          m = csr_put c CSR_MHARTID 0 m;
          m = csr_put c CSR_MSTATUS 0x1800 m;
          m = csr_put c CSR_MARCHID (if cfg_difftest c = DIFFTEST_REF_MINIRV32I then 0 else 5) m;
          m = csr_put c CSR_PMPADDR0 0xffffffff m;
          m = csr_put c CSR_PMPCFG0 0x1f m;
          m = csr_put c ZERO_CSR 0 m;
          m = csr_put c CSR_TDATA1 0xf0000000 m;
          m = csr_put c CSR_TINFO 0x807c m;
          m = csr_put c CSR_DCSR 0x40000000 m;
          m = (case cfg_priv c of
                 RVPrivM \<Rightarrow> csr_put c CSR_MISA 0x40001101 m
               | RVPrivMU \<Rightarrow> csr_put c CSR_MEDELEG 0 (csr_put c CSR_MISA 0x40101101 m)
               | RVPrivMSU \<Rightarrow> csr_put c CSR_MEDELEG 0 (csr_put c CSR_MISA 0x40141101 m))
      in m\<lparr>cur_pri := PRV_M, have_exc := RISCV_EXCP_NONE, exc_tval := 0, amws := []\<rparr>)"

text \<open>\<^verbatim>\<open>CONFIG_DIFFTEST_REF_PATH\<close> has a Kconfig default, so it is always defined.\<close>

definition restart :: "config \<Rightarrow> ('a) rv32_scheme \<Rightarrow> ('a) rv32_scheme" where
  "restart c m =
     (let m1 = m\<lparr>cpu_pc := RESET_VECTOR\<rparr>
      in csr_init c (set_gpr 11 PMEM_DTB (set_gpr 10 0 (set_gpr 0 0 m1))))"

definition init_isa :: "config \<Rightarrow> ('a) rv32_scheme \<Rightarrow> ('a) rv32_scheme res" where
  "init_isa c m =
     bindE (in_object MSIZE (guest_to_host RESET_VECTOR) 4) (\<lambda>_.
     Inr (restart c (m\<lparr>pmem := le_write (pmem m) (guest_to_host RESET_VECTOR) 4 (img ! 0)\<rparr>)))"

section \<open>reg.c, intr.c, mmu.c\<close>

text \<open>The lines \<^verbatim>\<open>isa_reg_display\<close> prints: a name and a value each.\<close>

definition isa_reg_display :: "config \<Rightarrow> ('a) rv32_scheme \<Rightarrow> (string \<times> u32) list" where
  "isa_reg_display c m =
     [(''pc'', cpu_pc m)] @ map (\<lambda>i. (reg_name i, gpr m i)) [0..<length regs] @
     map (\<lambda>i. (csr_reg_name c i, csrs m i)) [0..<length (csregs c) - 1]"

text \<open>
  The search loop increments \<open>i\<close> before it tests the result of the comparison, and takes
  \<open>i \<ge> len\<close> for failure.
\<close>

fun reg_search :: "string list \<Rightarrow> string \<Rightarrow> nat \<Rightarrow> nat" where
  "reg_search [] s i = i"
| "reg_search (nm # nms) s i = (if nm = s then i + 1 else reg_search nms s (i + 1))"

definition isa_reg_str2val :: "string \<Rightarrow> ('a) rv32_scheme \<Rightarrow> u32 \<times> bool" where
  "isa_reg_str2val s m =
     (if s = ''pc'' then (cpu_pc m, True)
      else (let i = reg_search regs s 0 in
        if i \<ge> length regs then (- 1, False) else (gpr m (i - 1), True)))"

definition isa_raise_intr :: "u32 \<Rightarrow> u32 \<Rightarrow> u32" where
  "isa_raise_intr NO epc = 0"

definition INTR_EMPTY :: u32 where "INTR_EMPTY = - 1"
definition isa_query_intr :: u32 where "isa_query_intr = INTR_EMPTY"

definition MEM_RET_FAIL :: u32 where "MEM_RET_FAIL = 1"
definition isa_mmu_translate :: "u32 \<Rightarrow> nat \<Rightarrow> nat \<Rightarrow> u32" where
  "isa_mmu_translate vaddr len ty = MEM_RET_FAIL"

section \<open>A state for concrete runs\<close>

definition rv32_zero :: "host_env \<Rightarrow> rv32" where
  "rv32_zero E = \<lparr> nemu_state = NEMU_STOP, halt_pc = 0, halt_ret = 0, is_skip_ref = False,
     skip_dut_nr_inst = 0, skip_dut_one_inst = False, host_calls = 0,
     io_space = (\<lambda>_. 0), p_space = 0, mmio_maps = [], pio_maps = [],
     console = [], boot_time = 0, clint_base = 0, syscon_base = 0, rtc_base = 0, serial_base = 0,
     is_eofd = False, i8042_base = 0, kbd = kbd_init, audio_base = 0, sbuf_base = 0, sd_base = 0,
     sd = sd_init E, vgactl_base = 0, vmem = 0, frame_count = 0, dev_last = 0, alarm_handlers = [],
     pmem = (\<lambda>_. 0), gpr = (\<lambda>_. 0), cpu_pc = 0, d_pc = 0, d_snpc = 0, d_dnpc = 0, d_inst = 0,
     g_nr_guest_inst = 0, g_timer = 0, g_print_step = False,
     csrs = (\<lambda>_. 0), amws = [], cur_pri = 0, have_exc = 0, exc_tval = 0 \<rparr>"

end
