(* ===== verification/RvDecode.thy ===== *)
theory RvDecode
  imports RvTrap
begin

text \<open>
  The decode table of the RISC-V core: every pattern is well formed, its mask and key are
  computed once, and no two patterns other than the final catch-all fit one instruction.
\<close>

unbundle bit_operations_syntax

section \<open>Masks and keys of the table\<close>

definition pat_mk :: "string \<Rightarrow> u32 \<times> u32" where
  "pat_mk p = (pat_mask (pat_bits p), pat_key (pat_bits p))"

definition mk_hit :: "u32 \<times> u32 \<Rightarrow> u32 \<Rightarrow> bool" where
  "mk_hit mk inst \<longleftrightarrow> inst AND fst mk = snd mk"

definition pat_ok :: "string \<Rightarrow> bool" where
  "pat_ok p \<longleftrightarrow> pat_valid p \<and> length p < 64 \<and> length (pat_bits p) \<le> 32"

fun select_mk :: "((u32 \<times> u32) \<times> 'a) list \<Rightarrow> u32 \<Rightarrow> 'a option" where
  "select_mk [] inst = None"
| "select_mk ((mk, x) # tab) inst = (if mk_hit mk inst then Some x else select_mk tab inst)"

named_theorems mk_simps \<open>computed masks and keys\<close>

lemma instpat_base_mk [mk_simps]: "map (pat_mk \<circ> fst) instpat_base = [
    (0x7f, 0x37), (0x7f, 0x17), (0x7f, 0x6f), (0x707f, 0x67), (0x707f, 0x63), (0x707f, 0x1063),
    (0x707f, 0x4063), (0x707f, 0x5063), (0x707f, 0x6063), (0x707f, 0x7063), (0x707f, 0x3),
    (0x707f, 0x1003), (0x707f, 0x2003), (0x707f, 0x4003), (0x707f, 0x5003), (0x707f, 0x23),
    (0x707f, 0x1023), (0x707f, 0x2023), (0x707f, 0x13), (0x707f, 0x2013), (0x707f, 0x3013),
    (0x707f, 0x4013), (0x707f, 0x6013), (0x707f, 0x7013), (0xfc00707f, 0x1013),
    (0xfe00707f, 0x5013), (0xfe00707f, 0x40005013), (0xfe00707f, 0x33),
    (0xfe00707f, 0x40000033), (0xfe00707f, 0x1033), (0xfe00707f, 0x2033), (0xfe00707f, 0x3033),
    (0xfe00707f, 0x4033), (0xfe00707f, 0x5033), (0xfe00707f, 0x40005033), (0xfe00707f, 0x6033),
    (0xfe00707f, 0x7033), (0xffffffff, 0x73), (0xffffffff, 0x100073), (0xfe00707f, 0x2000033),
    (0xfe00707f, 0x2001033), (0xfe00707f, 0x2002033), (0xfe00707f, 0x2003033),
    (0xfe00707f, 0x2004033), (0xfe00707f, 0x2005033), (0xfe00707f, 0x2006033),
    (0xfe00707f, 0x2007033)]"
  unfolding instpat_base_def by code_simp

lemma instpat_rva_mk [mk_simps]: "map (pat_mk \<circ> fst) instpat_rva = [
    (0xfff0707f, 0x1000202f), (0xf800707f, 0x1800202f), (0xf800707f, 0x800202f),
    (0xf800707f, 0x202f), (0xf800707f, 0x2000202f), (0xf800707f, 0x6000202f),
    (0xf800707f, 0x4000202f), (0xf800707f, 0x8000202f), (0xf800707f, 0xa000202f),
    (0xf800707f, 0xc000202f), (0xf800707f, 0xe000202f)]"
  unfolding instpat_rva_def by code_simp

lemma instpat_zicsr_mk [mk_simps]: "map (pat_mk \<circ> fst) instpat_zicsr = [
    (0x707f, 0x1073), (0x707f, 0x3073), (0x707f, 0x2073), (0x707f, 0x5073), (0x707f, 0x7073),
    (0x707f, 0x6073), (0xffffffff, 0x10200073), (0xffffffff, 0x30200073),
    (0xffffffff, 0x10500073)]"
  unfolding instpat_zicsr_def by code_simp

lemma instpat_zifencei_mk [mk_simps]: "map (pat_mk \<circ> fst) instpat_zifencei = [
    (0xf00fffff, 0xf), (0xffffffff, 0x100f), (0xfe007fff, 0x12000073)]"
  unfolding instpat_zifencei_def by code_simp

lemma instpat_inv_mk [mk_simps]: "map (pat_mk \<circ> fst) instpat_inv = [
    (0xffffffff, 0x0), (0x0, 0x0)]"
  unfolding instpat_inv_def by code_simp

lemma instpat_ok:
  "list_all (pat_ok \<circ> fst) instpat_base" "list_all (pat_ok \<circ> fst) instpat_rva"
  "list_all (pat_ok \<circ> fst) instpat_zicsr" "list_all (pat_ok \<circ> fst) instpat_zifencei"
  "list_all (pat_ok \<circ> fst) instpat_inv"
  unfolding instpat_base_def instpat_rva_def instpat_zicsr_def instpat_zifencei_def instpat_inv_def
  by code_simp+

lemma table_ok: "list_all (pat_ok \<circ> fst) (instpat_table c)"
  using instpat_ok by (auto simp: instpat_table_def)

definition mk_table :: "config \<Rightarrow> ((u32 \<times> u32) \<times> itype \<times> op) list" where
  "mk_table c = map (\<lambda>(p, x). (pat_mk p, x)) (instpat_table c)"

lemma instpat_select_mk:
  "list_all (pat_ok \<circ> fst) tab \<Longrightarrow>
   instpat_select tab inst = Inr (select_mk (map (\<lambda>(p, x). (pat_mk p, x)) tab) inst)"
  by (induction tab inst rule: instpat_select.induct)
    (auto simp: pat_ok_def instpat_hit_mask_key mk_hit_def pat_mk_def)

lemma instpat_select_table: "instpat_select (instpat_table c) inst = Inr (select_mk (mk_table c) inst)"
  unfolding mk_table_def by (rule instpat_select_mk [OF table_ok])

section \<open>Selection\<close>

lemma select_mk_hit: "select_mk tab inst = Some x \<Longrightarrow> \<exists>mk. (mk, x) \<in> set tab \<and> mk_hit mk inst"
  by (induction tab inst rule: select_mk.induct) (auto split: if_splits)

lemma select_mk_append:
  "select_mk (as @ bs) inst = (case select_mk as inst of None \<Rightarrow> select_mk bs inst | Some x \<Rightarrow> Some x)"
  by (induction as inst rule: select_mk.induct) auto

definition mk_conflict :: "u32 \<times> u32 \<Rightarrow> u32 \<times> u32 \<Rightarrow> bool" where
  "mk_conflict a b \<longleftrightarrow> snd a AND fst b \<noteq> snd b AND fst a"

lemma mk_conflict_excl: "mk_conflict a b \<Longrightarrow> mk_hit a inst \<Longrightarrow> \<not> mk_hit b inst"
  unfolding mk_conflict_def mk_hit_def by (rule mask_key_conflict)

lemma select_mk_unique:
  assumes "sorted_wrt (\<lambda>a b. mk_conflict (fst a) (fst b)) tab" and "(mk, x) \<in> set tab" and "mk_hit mk inst"
  shows "select_mk tab inst = Some x"
  using assms
proof (induction tab inst rule: select_mk.induct)
  case (1 inst)
  then show ?case by simp
next
  case (2 mk' y tab inst)
  show ?case
  proof (cases "mk_hit mk' inst")
    case True
    have "(mk, x) \<notin> set tab"
    proof
      assume "(mk, x) \<in> set tab"
      then have "mk_conflict mk' mk" using "2.prems"(1) by auto
      then show False using True "2.prems"(3) mk_conflict_excl by blast
    qed
    then show ?thesis using "2.prems"(2) True by auto
  next
    case False
    then have "(mk, x) \<in> set tab" using "2.prems"(2,3) by auto
    then show ?thesis using 2 False by simp
  qed
qed

section \<open>No two patterns overlap\<close>

text \<open>Everything before the catch-all: the optional groups and the all-zero pattern.\<close>

definition proper_table :: "config \<Rightarrow> (string \<times> itype \<times> op) list" where
  "proper_table c = butlast (instpat_table c)"

lemma base_conflict: "sorted_wrt mk_conflict (map (pat_mk \<circ> fst) instpat_base)"
  unfolding mk_simps by code_simp

definition ext_patterns :: "(string \<times> itype \<times> op) list" where
  "ext_patterns = instpat_rva @ instpat_zicsr @ instpat_zifencei @ butlast instpat_inv"

lemma ext_conflict: "sorted_wrt mk_conflict (map (pat_mk \<circ> fst) ext_patterns)"
  unfolding ext_patterns_def map_append map_butlast mk_simps by code_simp

lemma base_ext_conflict:
  "list_all (\<lambda>a. list_all (mk_conflict a) (map (pat_mk \<circ> fst) ext_patterns)) (map (pat_mk \<circ> fst) instpat_base)"
  unfolding ext_patterns_def map_append map_butlast mk_simps by code_simp

lemma mks_conflict: "sorted_wrt mk_conflict (map (pat_mk \<circ> fst) (instpat_base @ ext_patterns))"
  unfolding map_append
  using base_conflict ext_conflict base_ext_conflict by (simp add: sorted_wrt_append list_all_iff)

lemma sorted_wrt_optional:
  "sorted_wrt P (A @ B @ C @ D @ F) \<Longrightarrow>
   sorted_wrt P (A @ (if b then B else []) @ (if c then C else []) @ (if d then D else []) @ F)"
  by (auto simp: sorted_wrt_append)

lemma proper_table_conflict: "sorted_wrt (\<lambda>a b. mk_conflict (pat_mk (fst a)) (pat_mk (fst b))) (proper_table c)"
proof -
  have full: "sorted_wrt (\<lambda>a b. mk_conflict (pat_mk (fst a)) (pat_mk (fst b)))
      (instpat_base @ instpat_rva @ instpat_zicsr @ instpat_zifencei @ butlast instpat_inv)"
    using mks_conflict by (simp only: ext_patterns_def sorted_wrt_map comp_apply)
  have "proper_table c = instpat_base @ (if cfg_rva c then instpat_rva else []) @
      (if cfg_zicsr c then instpat_zicsr else []) @ (if cfg_zifencei c then instpat_zifencei else []) @
      butlast instpat_inv"
    by (simp add: proper_table_def instpat_table_def butlast_append instpat_inv_def)
  then show ?thesis by (simp only: sorted_wrt_optional [OF full])
qed

lemma instpat_table_split:
  "instpat_table c = proper_table c @ [(''??????? ????? ????? ??? ????? ????? ??'', TYPE_N, Inv)]"
proof -
  have "instpat_table c \<noteq> []" and "last (instpat_table c) = (''??????? ????? ????? ??? ????? ????? ??'', TYPE_N, Inv)"
    by (simp_all add: instpat_table_def instpat_inv_def)
  then show ?thesis unfolding proper_table_def by (metis append_butlast_last_id)
qed

lemma mk_table_split:
  "mk_table c = map (\<lambda>(p, x). (pat_mk p, x)) (proper_table c) @
     [(pat_mk ''??????? ????? ????? ??? ????? ????? ??'', TYPE_N, Inv)]"
  by (simp add: mk_table_def instpat_table_split)

text \<open>An instruction that fits one pattern is decoded by it, wherever the pattern stands.\<close>

lemma decode_by_pattern:
  assumes "(p, x) \<in> set (proper_table c)" and "pat_spec p inst"
  shows "instpat_select (instpat_table c) inst = Inr (Some x)"
proof -
  have ok: "pat_ok p" using table_ok [of c] assms(1) by (auto simp: instpat_table_split list_all_iff)
  let ?T = "map (\<lambda>(p, x). (pat_mk p, x)) (proper_table c)"
  have "sorted_wrt (\<lambda>a b. mk_conflict (fst a) (fst b)) ?T"
    using proper_table_conflict [of c] by (simp add: sorted_wrt_map case_prod_beta)
  moreover have "(pat_mk p, x) \<in> set ?T" using assms(1) by force
  moreover have "mk_hit (pat_mk p) inst"
    using ok assms(2) pat_spec_iff_mask_key [of p inst] by (simp add: mk_hit_def pat_mk_def pat_ok_def)
  ultimately have "select_mk ?T inst = Some x" by (rule select_mk_unique)
  then show ?thesis unfolding instpat_select_table mk_table_split select_mk_append by simp
qed

text \<open>Every instruction word is decoded: what no pattern fits is the catch-all.\<close>

lemma decode_total: "\<exists>ty op. instpat_select (instpat_table c) inst = Inr (Some (ty, op))"
proof -
  have "mk_hit (pat_mk ''??????? ????? ????? ??? ????? ????? ??'') inst"
    by (simp add: mk_hit_def pat_mk_def pat_bits_def pat_mask_def pat_key_def)
  then show ?thesis
    unfolding instpat_select_table mk_table_split select_mk_append by (auto split: option.split)
qed

text \<open>Conversely the decoder only answers with an entry whose pattern the instruction fits.\<close>

lemma decode_sound:
  assumes "instpat_select (instpat_table c) inst = Inr (Some x)"
  shows "\<exists>p. (p, x) \<in> set (instpat_table c) \<and> pat_spec p inst"
proof -
  from assms obtain mk where mk: "(mk, x) \<in> set (mk_table c)" "mk_hit mk inst"
    using select_mk_hit [of "mk_table c" inst x] by (auto simp: instpat_select_table)
  then obtain p where p: "(p, x) \<in> set (instpat_table c)" "mk = pat_mk p" by (auto simp: mk_table_def)
  then have "pat_ok p" using table_ok [of c] by (auto simp: list_all_iff)
  with mk p show ?thesis
    using pat_spec_iff_mask_key [of p inst] by (auto simp: mk_hit_def pat_mk_def pat_ok_def)
qed

end
