(* ===== verification/RvArith.thy ===== *)
theory RvArith
  imports Riscv32
begin

text \<open>
  The arithmetic of the RISC-V core against the integers: products, quotients and shifts of
  \<open>alu_result\<close>, and the immediates of \<^verbatim>\<open>decode_operand\<close> against the encodings of the
  instruction formats.
\<close>

unbundle bit_operations_syntax

section \<open>Multiplication\<close>

lemma uint_ucast_u64 [simp]: "uint (ucast (a :: u32) :: u64) = uint a"
  by (rule uint_up_ucast) (simp add: is_up.rep_eq)

lemma sint_scast_u64 [simp]: "sint (scast (a :: u32) :: u64) = sint a"
  by (rule sint_up_scast) (simp add: is_up.rep_eq)

lemma sint_range_u32: "- 2147483648 \<le> sint (a :: u32)" "sint (a :: u32) \<le> 2147483647"
  using sint_range_size [of a] by (auto simp: word_size)

lemma uint_range_u32: "0 \<le> uint (a :: u32)" "uint (a :: u32) \<le> 4294967295"
  using uint_range_size [of a] by (auto simp: word_size)

text \<open>The high word of a 64-bit product, read unsigned and signed.\<close>

lemma uint_high_word: "uint (ucast (drop_bit 32 (w :: u64)) :: u32) = uint w div 2 ^ 32"
proof -
  have "uint (ucast (drop_bit 32 w) :: u32) = drop_bit 32 (uint w)"
    by (rule bit_eqI) (auto simp: bit_uint_iff bit_simps dest: bit_imp_le_length)
  then show ?thesis by (simp only: drop_bit_eq_div)
qed

lemma sint_high_word: "sint (ucast (drop_bit 32 (w :: u64)) :: u32) = sint w div 2 ^ 32"
proof -
  have "sint (ucast (drop_bit 32 w) :: u32) = drop_bit 32 (sint w)"
    by (rule bit_eqI) (auto simp: bit_sint_iff bit_simps min_def dest: bit_imp_le_length)
  then show ?thesis by (simp only: drop_bit_eq_div)
qed

lemma signed_high_word: "(ucast (signed_drop_bit 32 (w :: u64)) :: u32) = ucast (drop_bit 32 w)"
  by (rule bit_word_eqI) (auto simp: bit_simps bit_signed_drop_bit_iff)

lemma alu_mulhu: "uint (alu_result MULHU p x) = uint (op_src1 x) * uint (op_src2 x) div 2 ^ 32"
proof -
  let ?a = "op_src1 x" and ?b = "op_src2 x"
  have "uint ?a * uint ?b \<le> 4294967295 * 4294967295"
    by (intro mult_mono) (use uint_range_u32 in auto)
  then have "uint ((ucast ?a :: u64) * ucast ?b) = uint ?a * uint ?b"
    by (simp add: uint_word_ariths)
  then show ?thesis by (simp only: alu_result.simps uint_high_word)
qed

lemma sint_u64_of_int: "- (2 ^ 63) \<le> k \<Longrightarrow> k < 2 ^ 63 \<Longrightarrow> sint (word_of_int k :: u64) = k"
  by (simp add: sint_sbintrunc' signed_take_bit_int_eq_self)

lemma alu_mulh: "sint (alu_result MULH p x) = sint (op_src1 x) * sint (op_src2 x) div 2 ^ 32"
proof -
  let ?a = "op_src1 x" and ?b = "op_src2 x"
  have b: "\<bar>sint ?a * sint ?b\<bar> \<le> 2147483648 * 2147483648"
    unfolding abs_mult
    by (intro mult_mono) (use sint_range_u32 [of ?a] sint_range_u32 [of ?b] in auto)
  have "(scast ?a :: u64) * scast ?b = word_of_int (sint ?a * sint ?b)"
    by (simp only: wi_hom_mult [symmetric]) simp
  then have "sint ((scast ?a :: u64) * scast ?b) = sint ?a * sint ?b"
    using b sint_u64_of_int [of "sint ?a * sint ?b"] by auto
  then show ?thesis by (simp only: alu_result.simps signed_high_word sint_high_word)
qed

lemma alu_mulhsu: "sint (alu_result MULHSU p x) = sint (op_src1 x) * uint (op_src2 x) div 2 ^ 32"
proof -
  let ?a = "op_src1 x" and ?b = "op_src2 x"
  have b: "\<bar>sint ?a * uint ?b\<bar> \<le> 2147483648 * 4294967295"
    unfolding abs_mult
    by (intro mult_mono) (use sint_range_u32 [of ?a] uint_range_u32 [of ?b] in auto)
  have "(scast ?a :: u64) * ucast ?b = word_of_int (sint ?a * uint ?b)"
    by (simp only: wi_hom_mult [symmetric]) simp
  then have "sint ((scast ?a :: u64) * ucast ?b) = sint ?a * uint ?b"
    using b sint_u64_of_int [of "sint ?a * uint ?b"] by auto
  then show ?thesis by (simp only: alu_result.simps sint_high_word)
qed

text \<open>The low word and the high word together are the whole product.\<close>

lemma alu_mul_mulhu:
  "uint (alu_result MULHU p x) * 2 ^ 32 + uint (alu_result MUL p x) = uint (op_src1 x) * uint (op_src2 x)"
  unfolding alu_mulhu by (simp add: uint_word_ariths)

section \<open>Division\<close>

lemma alu_divu_remu:
  assumes "op_src2 x \<noteq> 0"
  shows "uint (op_src1 x) = uint (alu_result DIVU p x) * uint (op_src2 x) + uint (alu_result REMU p x)"
    and "uint (alu_result REMU p x) < uint (op_src2 x)"
proof -
  have "0 < uint (op_src2 x)" using assms uint_range_u32(1) [of "op_src2 x"] by (metis order_less_le uint_0_iff)
  then show "uint (alu_result REMU p x) < uint (op_src2 x)"
    using assms by (simp add: uint_mod_distrib)
  show "uint (op_src1 x) = uint (alu_result DIVU p x) * uint (op_src2 x) + uint (alu_result REMU p x)"
    using assms by (simp add: uint_mod_distrib uint_div_distrib)
qed

lemma alu_div_zero:
  assumes "op_src2 x = 0"
  shows "alu_result DIV p x = - 1" "alu_result DIVU p x = - 1"
    "alu_result REM p x = op_src1 x" "alu_result REMU p x = op_src1 x"
  using assms by simp_all

text \<open>The one quotient that does not fit.\<close>

lemma alu_div_overflow:
  assumes "op_src1 x = 0x80000000" and "op_src2 x = - 1"
  shows "alu_result DIV p x = 0x80000000" "alu_result REM p x = 0"
  using assms by (simp_all add: XLEN_def)

lemma sint_u32_of_int: "- (2 ^ 31) \<le> k \<Longrightarrow> k < 2 ^ 31 \<Longrightarrow> sint (word_of_int k :: u32) = k"
  by (simp add: sint_sbintrunc' signed_take_bit_int_eq_self)

lemma int_sdiv_bound:
  fixes a b :: int
  assumes "- (2 ^ 31) \<le> a" and "a < 2 ^ 31" and "\<not> (a = - (2 ^ 31) \<and> b = - 1)"
  shows "- (2 ^ 31) \<le> a sdiv b" and "a sdiv b < 2 ^ 31"
proof -
  have r: "- \<bar>a\<bar> \<le> a sdiv b" "a sdiv b \<le> \<bar>a\<bar>" using sdiv_int_range [of a b] by auto
  show "- (2 ^ 31) \<le> a sdiv b" using r assms by linarith
  show "a sdiv b < 2 ^ 31"
  proof (cases "a = - (2 ^ 31)")
    case True
    then have "a sdiv b \<noteq> - a" using assms(3) int_sdiv_negated_is_minus1 [of a b] by simp
    with r True show ?thesis by simp
  next
    case False
    with r assms show ?thesis by linarith
  qed
qed

lemma int_smod_bound:
  fixes a b :: int
  assumes "b \<noteq> 0"
  shows "\<bar>a smod b\<bar> < \<bar>b\<bar>" and "0 \<le> a \<Longrightarrow> 0 \<le> a smod b" and "a \<le> 0 \<Longrightarrow> a smod b \<le> 0"
proof -
  have m: "0 \<le> \<bar>a\<bar> mod \<bar>b\<bar>" "\<bar>a\<bar> mod \<bar>b\<bar> < \<bar>b\<bar>" using assms by auto
  show "\<bar>a smod b\<bar> < \<bar>b\<bar>" "0 \<le> a \<Longrightarrow> 0 \<le> a smod b" "a \<le> 0 \<Longrightarrow> a smod b \<le> 0"
    using m by (auto simp: smod_int_alt_def sgn_if abs_mult)
qed

text \<open>
  Signed division: quotient and remainder satisfy the division equation, the remainder is
  smaller than the divisor and has the sign of the dividend.
\<close>

lemma alu_div_rem:
  fixes p :: u32
  assumes "op_src2 x \<noteq> 0" and "\<not> (op_src1 x = 0x80000000 \<and> op_src2 x = - 1)"
  defines "a \<equiv> sint (op_src1 x)" and "b \<equiv> sint (op_src2 x)"
    and "q \<equiv> sint (alu_result DIV p x)" and "r \<equiv> sint (alu_result REM p x)"
  shows "a = q * b + r" and "\<bar>r\<bar> < \<bar>b\<bar>" and "0 \<le> a \<Longrightarrow> 0 \<le> r" and "a \<le> 0 \<Longrightarrow> r \<le> 0"
proof -
  have ov: "\<not> (op_src1 x = push_bit (XLEN - 1) 1 \<and> op_src2 x = - 1)" using assms(2) by (simp add: XLEN_def)
  have b0: "b \<noteq> 0" using assms(1) by (simp add: b_def) (metis signed_0 signed_word_eqI)
  have ra: "- (2 ^ 31) \<le> a" "a < 2 ^ 31" using sint_range_u32 [of "op_src1 x"] by (auto simp: a_def)
  have rb: "- (2 ^ 31) \<le> b" "b < 2 ^ 31" using sint_range_u32 [of "op_src2 x"] by (auto simp: b_def)
  have "\<not> (a = - (2 ^ 31) \<and> b = - 1)"
  proof
    assume "a = - (2 ^ 31) \<and> b = - 1"
    then have "sint (op_src1 x) = sint (0x80000000 :: u32)" "sint (op_src2 x) = sint (- 1 :: u32)"
      by (simp_all add: a_def b_def)
    then show False using assms(2) by (simp only: signed_word_eqI) (metis signed_word_eqI)
  qed
  note B = int_sdiv_bound [OF ra this]
  have q: "q = a sdiv b"
    using ov assms(1) sint_u32_of_int [OF B] by (auto simp: q_def a_def b_def simp del: One_nat_def)
  have "\<bar>a smod b\<bar> < \<bar>b\<bar>" by (rule int_smod_bound [OF b0])
  then have "sint (word_of_int (a smod b) :: u32) = a smod b"
    using rb by (intro sint_u32_of_int) auto
  then have r: "r = a smod b"
    using ov assms(1) by (auto simp: r_def a_def b_def simp del: One_nat_def)
  show "a = q * b + r" unfolding q r by (simp add: sdiv_mult_smod_eq)
  show "\<bar>r\<bar> < \<bar>b\<bar>" "0 \<le> a \<Longrightarrow> 0 \<le> r" "a \<le> 0 \<Longrightarrow> r \<le> 0"
    unfolding r using int_smod_bound [OF b0] by auto
qed

section \<open>Shifts\<close>

lemma shamt_less: "unat (BITS (i :: u32) 4 0) < 32"
  using unat_BITS_less [of i 4 0] by simp

lemma uint_drop_bit: "uint (drop_bit n (w :: u32)) = uint w div 2 ^ n"
proof -
  have "uint (drop_bit n w) = drop_bit n (uint w)"
    by (rule bit_eqI) (auto simp: bit_uint_iff bit_simps dest: bit_imp_le_length)
  then show ?thesis by (simp only: drop_bit_eq_div)
qed

lemma uint_push_bit: "uint (push_bit n (w :: u32)) = uint w * 2 ^ n mod 2 ^ 32"
proof -
  have "uint (push_bit n w) = take_bit 32 (push_bit n (uint w))"
    by (rule bit_eqI) (auto simp: bit_uint_iff bit_simps dest: bit_imp_le_length)
  then show ?thesis by (simp only: push_bit_eq_mult take_bit_eq_mod)
qed

lemma sint_signed_drop: "sint (signed_drop_bit n (w :: u32)) = sint w div 2 ^ n"
  by (simp only: sint_signed_drop_bit_eq drop_bit_eq_div)

lemma alu_srl: "uint (alu_result SRL p x) = uint (op_src1 x) div 2 ^ unat (BITS (op_src2 x) 4 0)"
  by (simp only: alu_result.simps uint_drop_bit)

lemma alu_sra: "sint (alu_result SRA p x) = sint (op_src1 x) div 2 ^ unat (BITS (op_src2 x) 4 0)"
  by (simp only: alu_result.simps sint_signed_drop)

lemma alu_sll: "uint (alu_result SLL p x) = uint (op_src1 x) * 2 ^ unat (BITS (op_src2 x) 4 0) mod 2 ^ 32"
  by (simp only: alu_result.simps uint_push_bit)

section \<open>Immediates\<close>

text \<open>
  The instruction formats, as an assembler fills them in: the bits of the immediate go to
  the places the RISC-V manual gives; the other bits of the word are arbitrary.
\<close>

definition put_bits :: "u32 \<Rightarrow> nat \<Rightarrow> nat \<Rightarrow> u32 \<Rightarrow> u32" where
  "put_bits w lo n v = (w AND NOT (field lo n)) OR push_bit lo (take_bit n v)"

definition enc_I :: "u32 \<Rightarrow> u32 \<Rightarrow> u32" where
  "enc_I w v = put_bits w 20 12 v"

definition enc_U :: "u32 \<Rightarrow> u32 \<Rightarrow> u32" where
  "enc_U w v = put_bits w 12 20 (drop_bit 12 v)"

definition enc_S :: "u32 \<Rightarrow> u32 \<Rightarrow> u32" where
  "enc_S w v = put_bits (put_bits w 25 7 (drop_bit 5 v)) 7 5 v"

definition enc_B :: "u32 \<Rightarrow> u32 \<Rightarrow> u32" where
  "enc_B w v = put_bits (put_bits (put_bits (put_bits w 31 1 (drop_bit 12 v)) 25 6 (drop_bit 5 v))
     8 4 (drop_bit 1 v)) 7 1 (drop_bit 11 v)"

definition enc_J :: "u32 \<Rightarrow> u32 \<Rightarrow> u32" where
  "enc_J w v = put_bits (put_bits (put_bits (put_bits w 31 1 (drop_bit 20 v)) 21 10 (drop_bit 1 v))
     20 1 (drop_bit 11 v)) 12 8 (drop_bit 12 v)"

text \<open>\<open>fits n v\<close>: the value is the sign extension of its low \<open>n\<close> bits.\<close>

definition fits :: "nat \<Rightarrow> u32 \<Rightarrow> bool" where
  "fits n v \<longleftrightarrow> SEXT v n = v"

lemma bit_put_bits_iff [bit_simps]:
  "bit (put_bits w lo n v) i \<longleftrightarrow> i < 32 \<and> (if lo \<le> i \<and> i < lo + n then bit v (i - lo) else bit w i)"
  by (auto simp: put_bits_def bit_simps dest: bit_imp_le_length)

lemma fits_eqI:
  assumes "fits n v" and "\<And>i. i < 32 \<Longrightarrow> bit w i \<longleftrightarrow> bit v (min i (n - 1))"
  shows "w = v"
proof (rule bit_word_eqI)
  fix i assume "i < LENGTH(32)"
  then have i: "i < 32" by simp
  have "bit v i = bit (SEXT v n) i" using assms(1) by (simp add: fits_def)
  also have "\<dots> = bit v (min i (n - 1))" using i by (simp add: bit_SEXT_iff)
  finally show "bit w i \<longleftrightarrow> bit v i" using assms(2) [OF i] by simp
qed

lemma immI_enc: "fits 12 v \<Longrightarrow> immI (enc_I w v) = v"
  by (erule fits_eqI) (auto simp: immI_def enc_I_def bit_simps min_def)

lemma immS_enc: "fits 12 v \<Longrightarrow> immS (enc_S w v) = v"
  by (erule fits_eqI) (auto simp: immS_def enc_S_def bit_simps min_def)

lemma immU_enc: "take_bit 12 v = 0 \<Longrightarrow> immU (enc_U w v) = v"
proof -
  assume "take_bit 12 v = 0"
  then have z: "\<not> bit v i" if "i < 12" for i
    using that by (metis bit_0_eq bit_take_bit_iff bot_apply bot_bool_def)
  show ?thesis
  proof (rule bit_word_eqI)
    fix i assume "i < LENGTH(32)"
    then show "bit (immU (enc_U w v)) i \<longleftrightarrow> bit v i"
      by (cases "i < 12") (auto simp: immU_def enc_U_def bit_simps min_def z)
  qed
qed

text \<open>Branch and jump offsets are even; bit 11 sits apart in both formats.\<close>

lemmas imm_bits = bit_SEXT_iff bit_or_iff bit_push_bit_iff bit_BITS_iff

lemma immB_enc:
  assumes "fits 13 v" and "\<not> bit v 0"
  shows "immB (enc_B w v) = v"
  using assms(1)
proof (rule fits_eqI)
  fix i :: nat assume i: "i < 32"
  define j where "j = min i 12"
  have j: "j \<le> 12" "j < 32" by (simp_all add: j_def)
  have "bit (immB (enc_B w v)) i \<longleftrightarrow> bit (immB (enc_B w v)) j"
    using i by (simp only: immB_def bit_SEXT_iff j_def) (simp add: min_def)
  also have "\<dots> \<longleftrightarrow> bit v j"
  proof -
    from j(1) consider "j = 0" | "1 \<le> j" "j \<le> 4" | "5 \<le> j" "j \<le> 10" | "j = 11" | "j = 12" by linarith
    then show ?thesis
      by cases (simp_all only: immB_def imm_bits enc_B_def bit_put_bits_iff bit_drop_bit_eq comp_apply,
          use assms(2) in \<open>auto simp: min_def\<close>)
  qed
  finally show "bit (immB (enc_B w v)) i \<longleftrightarrow> bit v (min i (13 - 1))" by (simp add: j_def)
qed

lemma immJ_enc:
  assumes "fits 21 v" and "\<not> bit v 0"
  shows "immJ (enc_J w v) = v"
  using assms(1)
proof (rule fits_eqI)
  fix i :: nat assume i: "i < 32"
  define j where "j = min i 20"
  have j: "j \<le> 20" "j < 32" by (simp_all add: j_def)
  have "bit (immJ (enc_J w v)) i \<longleftrightarrow> bit (immJ (enc_J w v)) j"
    using i by (simp only: immJ_def bit_SEXT_iff j_def) (simp add: min_def)
  also have "\<dots> \<longleftrightarrow> bit v j"
  proof -
    from j(1) consider "j = 0" | "1 \<le> j" "j \<le> 4" | "5 \<le> j" "j \<le> 10" | "j = 11" | "12 \<le> j" "j \<le> 19" | "j = 20"
      by linarith
    then show ?thesis
      by cases (simp_all only: immJ_def imm_bits enc_J_def bit_put_bits_iff bit_drop_bit_eq comp_apply,
          use assms(2) in \<open>auto simp: min_def\<close>)
  qed
  finally show "bit (immJ (enc_J w v)) i \<longleftrightarrow> bit v (min i (21 - 1))" by (simp add: j_def)
qed

end
