(* ===== verification/RvTrapProps.thy ===== *)
theory RvTrapProps
  imports RvTrap
begin

text \<open>
  The CSR file as a store, the interrupt priority search, and what trap entry and return do
  to it.
\<close>

unbundle bit_operations_syntax

section \<open>Slots of the CSRs\<close>

named_theorems csr_slots \<open>slots of the implemented CSRs\<close>

lemma csr_slots_base [csr_slots]:
  "check_csr_idx c CSR_MSTATUS = 2" "check_csr_idx c CSR_MIP = 3" "check_csr_idx c CSR_MIE = 4"
  "check_csr_idx c CSR_MCAUSE = 5" "check_csr_idx c CSR_MTVEC = 6" "check_csr_idx c CSR_MTVAL = 7"
  "check_csr_idx c CSR_MEPC = 8" "check_csr_idx c CSR_MISA = 10"
  by (cases "cfg_priv c"; simp add: check_csr_idx_def csr_idx_map_def csr_idx_map_base_def NR_CSR_def bits_defs)+

lemma csr_slots_super [csr_slots]:
  assumes "cfg_priv c = RVPrivMSU"
  shows "check_csr_idx c CSR_MEDELEG = 24" "check_csr_idx c CSR_MIDELEG = 25" "check_csr_idx c CSR_SSTATUS = 27"
    "check_csr_idx c CSR_SIE = 28" "check_csr_idx c CSR_STVEC = 29" "check_csr_idx c CSR_SEPC = 33"
    "check_csr_idx c CSR_SCAUSE = 34" "check_csr_idx c CSR_STVAL = 35" "check_csr_idx c CSR_SIP = 36"
  using assms
  by (simp_all add: check_csr_idx_def csr_idx_map_def csr_idx_map_base_def csr_idx_map_other_def NR_CSR_def bits_defs)

lemma csr_get_put: "csr_get c a (csr_put c b v m) = (if check_csr_idx c a = check_csr_idx c b then v else csr_get c a m)"
  by (simp add: csr_get_def csr_put_def)

lemma csr_get_put_same [simp]: "csr_get c a (csr_put c a v m) = v"
  by (simp add: csr_get_put)

text \<open>A write to an implemented CSR is seen there and nowhere else.\<close>

lemma csr_get_put_known:
  assumes "a \<in> set (take (NR_CSR c) (csr_idx_map c))" and "a \<noteq> b"
  shows "csr_get c a (csr_put c b v m) = csr_get c a m" and "csr_get c b (csr_put c a v m) = csr_get c b m"
  using check_csr_idx_inj [OF assms(1), of b] assms(2) by (auto simp: csr_get_put)

lemma csr_put_sel [simp]:
  "gpr (csr_put c a v m) = gpr m"
  "d_pc (csr_put c a v m) = d_pc m"
  "d_dnpc (csr_put c a v m) = d_dnpc m"
  "d_inst (csr_put c a v m) = d_inst m"
  "d_snpc (csr_put c a v m) = d_snpc m"
  "cpu_pc (csr_put c a v m) = cpu_pc m"
  "cur_pri (csr_put c a v m) = cur_pri m"
  "have_exc (csr_put c a v m) = have_exc m"
  "exc_tval (csr_put c a v m) = exc_tval m"
  "pmem (csr_put c a v m) = pmem m"
  "amws (csr_put c a v m) = amws m"
  "mmio_maps (csr_put c a v m) = mmio_maps m"
  "nemu_state (csr_put c a v m) = nemu_state m"
  "io_space (csr_put c a v m) = io_space m"
  "p_space (csr_put c a v m) = p_space m"
  "host_calls (csr_put c a v m) = host_calls m"
  "kbd (csr_put c a v m) = kbd m"
  by (simp_all add: csr_put_def)

lemma csr_mod_sel [simp]:
  "gpr (csr_mod c a f m) = gpr m"
  "d_pc (csr_mod c a f m) = d_pc m"
  "d_dnpc (csr_mod c a f m) = d_dnpc m"
  "d_inst (csr_mod c a f m) = d_inst m"
  "d_snpc (csr_mod c a f m) = d_snpc m"
  "cpu_pc (csr_mod c a f m) = cpu_pc m"
  "cur_pri (csr_mod c a f m) = cur_pri m"
  "have_exc (csr_mod c a f m) = have_exc m"
  "exc_tval (csr_mod c a f m) = exc_tval m"
  "pmem (csr_mod c a f m) = pmem m"
  "amws (csr_mod c a f m) = amws m"
  "mmio_maps (csr_mod c a f m) = mmio_maps m"
  "nemu_state (csr_mod c a f m) = nemu_state m"
  "io_space (csr_mod c a f m) = io_space m"
  "p_space (csr_mod c a f m) = p_space m"
  "host_calls (csr_mod c a f m) = host_calls m"
  "kbd (csr_mod c a f m) = kbd m"
  by (simp_all add: csr_mod_def)

lemma csr_set_field_sel [simp]:
  "gpr (csr_set_field c a k v m) = gpr m"
  "d_pc (csr_set_field c a k v m) = d_pc m"
  "d_dnpc (csr_set_field c a k v m) = d_dnpc m"
  "d_inst (csr_set_field c a k v m) = d_inst m"
  "d_snpc (csr_set_field c a k v m) = d_snpc m"
  "cpu_pc (csr_set_field c a k v m) = cpu_pc m"
  "cur_pri (csr_set_field c a k v m) = cur_pri m"
  "have_exc (csr_set_field c a k v m) = have_exc m"
  "exc_tval (csr_set_field c a k v m) = exc_tval m"
  "pmem (csr_set_field c a k v m) = pmem m"
  "amws (csr_set_field c a k v m) = amws m"
  "mmio_maps (csr_set_field c a k v m) = mmio_maps m"
  "nemu_state (csr_set_field c a k v m) = nemu_state m"
  "io_space (csr_set_field c a k v m) = io_space m"
  "p_space (csr_set_field c a k v m) = p_space m"
  "host_calls (csr_set_field c a k v m) = host_calls m"
  "kbd (csr_set_field c a k v m) = kbd m"
  by (simp_all add: csr_set_field_def)

lemma csrs_upd:
  "csrs (csr_put c a v m) = (csrs m)(check_csr_idx c a := v)"
  "csrs (csr_mod c a f m) = (csrs m)(check_csr_idx c a := f (csrs m (check_csr_idx c a)))"
  "csrs (csr_set_field c a k w m) = (csrs m)(check_csr_idx c a := set_field (csrs m (check_csr_idx c a)) k w)"
  by (simp_all add: csr_put_def csr_mod_def csr_get_def csr_set_field_def)

lemma csr_get_upd [simp]:
  "csr_get c a (m\<lparr>d_dnpc := x\<rparr>) = csr_get c a m" "csr_get c a (m\<lparr>cur_pri := y\<rparr>) = csr_get c a m"
  "csr_get c a (m\<lparr>gpr := g\<rparr>) = csr_get c a m" "csr_get c a (m\<lparr>have_exc := x, exc_tval := y\<rparr>) = csr_get c a m"
  "csr_get c a (set_gpr i v m) = csr_get c a m"
  by (simp_all add: csr_get_def set_gpr_def)

lemma dnpc_and_check_sel [simp]:
  "csr_get c a (dnpc_and_check t m) = csr_get c a m" "gpr (dnpc_and_check t m) = gpr m"
  "d_pc (dnpc_and_check t m) = d_pc m" "cur_pri (dnpc_and_check t m) = cur_pri m"
  "csrs (dnpc_and_check t m) = csrs m" "pmem (dnpc_and_check t m) = pmem m"
  by (simp_all add: dnpc_and_check_def trap_peek_exception_def csr_get_def)

lemma dnpc_and_check_aligned: "t mod 4 = 0 \<Longrightarrow> dnpc_and_check t m = m\<lparr>d_dnpc := t\<rparr>"
  by (simp add: dnpc_and_check_def)

section \<open>The interrupt priority search\<close>

text \<open>The answer: the highest odd-numbered pending bit among the low twelve, or -1.\<close>

definition irq_answer :: "u32 \<Rightarrow> nat \<Rightarrow> u32" where
  "irq_answer y n = (case find (\<lambda>i. odd i \<and> bit y i) (rev [0..<n]) of None \<Rightarrow> - 1 | Some i \<Rightarrow> of_nat i)"

lemma irq_answer_0: "irq_answer y 0 = - 1"
  by (simp add: irq_answer_def)

lemma irq_answer_Suc: "irq_answer y (Suc n) = (if odd n \<and> bit y n then of_nat n else irq_answer y n)"
  by (simp add: irq_answer_def)

lemma irq_answer_none: "(\<And>i. i < n \<Longrightarrow> \<not> bit y i) \<Longrightarrow> irq_answer y n = - 1"
  by (induction n) (simp_all add: irq_answer_0 irq_answer_Suc)

lemma top_bit_test: "w AND push_bit 31 1 = push_bit 31 1 \<longleftrightarrow> bit w 31" for w :: u32
proof
  assume "w AND push_bit 31 1 = push_bit 31 1"
  then have "bit (w AND push_bit 31 1) 31" by (simp only: bit_push_bit_iff bit_1_iff) simp
  then show "bit w 31" by (simp only: bit_and_iff)
next
  assume "bit w 31"
  show "w AND push_bit 31 1 = push_bit 31 1"
  proof (rule bit_word_eqI)
    fix i assume "i < LENGTH(32)"
    then have "31 \<le> i \<Longrightarrow> i = 31" by simp
    with \<open>bit w 31\<close> show "bit (w AND push_bit 31 1) i \<longleftrightarrow> bit (push_bit 31 1 :: u32) i"
      by (auto simp only: bit_and_iff bit_push_bit_iff)
  qed
qed

lemma word_parity: "n < 32 \<Longrightarrow> (of_nat n :: u32) mod 2 \<noteq> 0 \<longleftrightarrow> odd n"
proof -
  assume "n < 32"
  then have "unat (of_nat n :: u32) = n" by (simp add: unat_of_nat)
  then have "unat ((of_nat n :: u32) mod 2) = n mod 2" by (simp add: unat_mod_distrib)
  then show ?thesis by (metis odd_iff_mod_2_eq_one mod_2_eq_odd of_bool_eq(1) of_bool_eq(2) unat_eq_zero zero_neq_one)
qed

lemma irq_loop_eq:
  "n < 32 \<Longrightarrow> n < fuel \<Longrightarrow>
   irq_loop fuel (push_bit (31 - n) y) (of_nat (31 - n)) = Some (irq_answer y (Suc n))"
proof (induction n arbitrary: fuel)
  case 0
  then obtain f where f: "fuel = Suc f" by (cases fuel) auto
  have "push_bit 1 (push_bit 31 y) = 0"
  proof (rule bit_word_eqI)
    fix i assume "i < LENGTH(32)"
    then have "\<not> 31 \<le> i - 1" by simp
    then show "bit (push_bit 1 (push_bit 31 y)) i \<longleftrightarrow> bit 0 i" by (simp only: bit_push_bit_iff) simp
  qed
  then have "irq_loop f (push_bit 1 (push_bit 31 y)) x = Some (- 1)" for x
    by (cases f) (simp_all only: irq_loop.simps simp_thms if_True)
  then show ?case unfolding f irq_loop.simps by (simp only: irq_answer_Suc irq_answer_0) simp
next
  case (Suc n)
  then obtain f where f: "fuel = Suc f" "n < f" by (cases fuel) auto
  let ?y = "push_bit (31 - Suc n) y" and ?x = "of_nat (31 - Suc n) :: u32"
  have "31 - ?x = of_nat (31 - (31 - Suc n))" using Suc.prems(1) by (subst of_nat_diff) auto
  then have x: "31 - ?x = of_nat (Suc n)" using Suc.prems(1) by simp
  have t: "?y AND push_bit (XLEN - 1) 1 = push_bit (XLEN - 1) 1 \<longleftrightarrow> bit y (Suc n)"
    using Suc.prems(1) top_bit_test [of ?y] by (auto simp: XLEN_def bit_push_bit_iff)
  have par: "(of_nat (Suc n) :: u32) mod 2 \<noteq> 0 \<longleftrightarrow> odd (Suc n)"
    by (rule word_parity) (use Suc.prems(1) in simp)
  have "Suc (31 - Suc n) = 31 - n" using Suc.prems(1) by simp
  then have y': "push_bit 1 ?y = push_bit (31 - n) y" and x': "?x + 1 = of_nat (31 - n)"
    by (simp_all only: push_bit_push_bit plus_1_eq_Suc flip: of_nat_Suc) (simp add: add.commute flip: of_nat_Suc)
  have rec: "irq_loop f (push_bit 1 ?y) (?x + 1) = Some (irq_answer y (Suc n))"
    unfolding y' x' by (rule Suc.IH) (use Suc.prems f in auto)
  show ?case
  proof (cases "?y = 0")
    case True
    have "\<not> bit y i" if "i < Suc (Suc n)" for i
    proof -
      have "bit ?y (31 - Suc n + i) = bit y i" using that Suc.prems(1) by (auto simp: bit_push_bit_iff)
      then show ?thesis using True by simp
    qed
    then have "irq_answer y (Suc (Suc n)) = - 1" by (rule irq_answer_none)
    then show ?thesis unfolding f irq_loop.simps using True by simp
  next
    case False
    then show ?thesis
      unfolding f irq_loop.simps t par rec irq_answer_Suc [of y "Suc n"] x by auto
  qed
qed

text \<open>The loop always returns within its 32 rounds, and \<^verbatim>\<open>find_irq_type_val\<close> gives the answer.\<close>

lemma find_irq_type_val_eq: "find_irq_type_val y = irq_answer y 12"
proof -
  have e: "of_nat XLEN - 12 = (of_nat (31 - 11) :: u32)" "unat (of_nat (31 - 11) :: u32) = 31 - 11"
    by (simp_all add: XLEN_def)
  have "irq_loop 32 (push_bit (31 - 11) y) (of_nat (31 - 11)) = Some (irq_answer y (Suc 11))"
    by (rule irq_loop_eq) auto
  then show ?thesis unfolding find_irq_type_val_def e Let_def by simp
qed

lemma irq_answer_cases:
  "irq_answer y n = - 1 \<and> (\<forall>i<n. odd i \<longrightarrow> \<not> bit y i) \<or>
   (\<exists>i<n. irq_answer y n = of_nat i \<and> odd i \<and> bit y i \<and> (\<forall>j<n. i < j \<longrightarrow> odd j \<longrightarrow> \<not> bit y j))"
proof (induction n)
  case 0
  then show ?case by (simp add: irq_answer_0)
next
  case (Suc n)
  show ?case
  proof (cases "odd n \<and> bit y n")
    case True
    then show ?thesis by (intro disjI2 exI [of _ n]) (auto simp: irq_answer_Suc)
  next
    case False
    then show ?thesis using Suc by (auto simp: irq_answer_Suc less_Suc_eq)
  qed
qed

section \<open>The fields of the status registers\<close>

lemma mask_fields:
  "MSTATUS_SIE = field 1 1" "MSTATUS_MIE = field 3 1" "MSTATUS_SPIE = field 5 1" "MSTATUS_MPIE = field 7 1"
  "MSTATUS_SPP = field 8 1" "MSTATUS_MPP = field 11 2" "SSTATUS_SIE = field 1 1" "SSTATUS_SPIE = field 5 1"
  "SSTATUS_SPP = field 8 1" "MIP_MTIP = field 7 1"
  by (simp_all add: bits_defs field_def mask_eq_exp_minus_1)

lemma get_field_clear: "0 < n \<Longrightarrow> k < 32 \<Longrightarrow> get_field (r AND NOT (field k n)) (field k n) = 0"
  by (rule bit_word_eqI) (auto simp: get_field_field bit_simps dest: bit_imp_le_length)

lemma get_field_clear_other:
  assumes "0 < n'" "k' < 32" "k + n \<le> k' \<or> k' + n' \<le> k"
  shows "get_field (r AND NOT (field k n)) (field k' n') = get_field r (field k' n')"
  by (rule bit_word_eqI)
     (use assms in \<open>auto simp: get_field_field bit_simps dest: bit_imp_le_length\<close>)

lemma get_field_bit: "k < 32 \<Longrightarrow> get_field r (field k (Suc 0)) = of_bool (bit r k)"
proof -
  assume k: "k < 32"
  have "bit (take_bit 1 (drop_bit k r)) i \<longleftrightarrow> bit (of_bool (bit r k) :: u32) i" for i
    by (simp only: bit_take_bit_iff bit_drop_bit_eq comp_apply) (auto simp: bit_of_bool_iff)
  then have "get_field r (field k 1) = of_bool (bit r k)"
    using k by (simp only: get_field_field zero_less_one) (simp only: bit_eq_iff, simp)
  then show ?thesis by simp
qed

section \<open>Machine trap entry\<close>

text \<open>The status word a machine trap leaves, for an exception (\<open>illegal_instruction\<close>).\<close>

definition trap_mstatus :: "u32 \<Rightarrow> u32 \<Rightarrow> u32" where
  "trap_mstatus s pri =
     (let s1 = ((s AND NOT MSTATUS_MPP) OR push_bit 11 pri) AND NOT 0x80
      in (push_bit 4 (s1 AND 0x8) OR s1) AND NOT 0x8)"

lemma small_bits: "(w :: u32) \<le> 3 \<Longrightarrow> 2 \<le> j \<Longrightarrow> \<not> bit w j"
proof -
  assume "w \<le> 3" and j: "2 \<le> j"
  then have "unat (w div 4) = 0" by (simp add: unat_div_distrib word_le_nat_alt)
  then have "drop_bit 2 w = 0" by (simp add: drop_bit_eq_div unat_eq_zero)
  then have "\<not> bit (drop_bit 2 w) (j - 2)" by simp
  then have "\<not> bit w (2 + (j - 2))" by (simp only: bit_drop_bit_eq comp_apply) simp
  then show "\<not> bit w j" using j by (metis le_add_diff_inverse)
qed

lemma bit_trap_mstatus:
  assumes "pri \<le> 3"
  shows "bit (trap_mstatus s pri) i \<longleftrightarrow> i < 32 \<and>
    (if i = 3 then False else if i = 7 then bit s 3
     else if i = 11 \<or> i = 12 then bit pri (i - 11) else bit s i)"
proof -
  have e: "(0x80 :: u32) = field 7 1" "(0x8 :: u32) = field 3 1"
    by (simp_all add: field_def mask_eq_exp_minus_1)
  show ?thesis
    unfolding trap_mstatus_def Let_def e mask_fields
    by (cases "i < 32") (auto simp: bit_simps small_bits [OF assms] less_Suc_eq dest: bit_imp_le_length)
qed

lemma trap_mstatus_fields:
  assumes "pri \<le> 3"
  shows "get_field (trap_mstatus s pri) MSTATUS_MPP = pri"
    and "get_field (trap_mstatus s pri) MSTATUS_MPIE = get_field s MSTATUS_MIE"
    and "get_field (trap_mstatus s pri) MSTATUS_MIE = 0"
proof -
  show "get_field (trap_mstatus s pri) MSTATUS_MPP = pri"
    unfolding mask_fields
    by (rule bit_word_eqI) (auto simp: get_field_field bit_simps bit_trap_mstatus [OF assms] small_bits [OF assms] less_2_cases_iff)
  show "get_field (trap_mstatus s pri) MSTATUS_MPIE = get_field s MSTATUS_MIE"
    and "get_field (trap_mstatus s pri) MSTATUS_MIE = 0"
    unfolding mask_fields
    by (simp_all add: get_field_bit bit_trap_mstatus [OF assms])
qed

text \<open>
  What \<^verbatim>\<open>illegal_instruction\<close> does when the trap vector is aligned: the old pc, cause and value
  are saved, the interrupt enable moves to MPIE, the privilege to MPP, control goes to the
  vector. The current privilege itself is left as it was.
\<close>

lemma NEMUTRAP_sel [simp]:
  "csrs (NEMUTRAP c p v m) = csrs m" "gpr (NEMUTRAP c p v m) = gpr m" "d_dnpc (NEMUTRAP c p v m) = d_dnpc m"
  "cur_pri (NEMUTRAP c p v m) = cur_pri m" "pmem (NEMUTRAP c p v m) = pmem m" "d_pc (NEMUTRAP c p v m) = d_pc m"
  "csr_get c' a (NEMUTRAP c p v m) = csr_get c' a m" "have_exc (NEMUTRAP c p v m) = have_exc m"
  "nemu_state (NEMUTRAP c p v m) = NEMU_END" "halt_ret (NEMUTRAP c p v m) = v"
  "mmio_maps (NEMUTRAP c p v m) = mmio_maps m" "amws (NEMUTRAP c p v m) = amws m"
  by (simp_all add: NEMUTRAP_def set_nemu_state_def difftest_skip_ref_def csr_get_def split: difftest_ref.split)

definition trap_csrs :: "config \<Rightarrow> ('a) rv32_scheme \<Rightarrow> nat \<Rightarrow> u32" where
  "trap_csrs c m = (csrs m)(8 := d_pc m, 5 := have_exc m, 7 := exc_tval m, 2 := trap_mstatus (csrs m 2) (cur_pri m))"

lemma illegal_instruction_csrs: "csrs (illegal_instruction c m) = trap_csrs c m"
  by (rule ext)
    (simp add: illegal_instruction_def Let_def trap_csrs_def csrs_upd csr_slots trap_mstatus_def)

lemma illegal_instruction_keeps:
  "gpr (illegal_instruction c m) = gpr m" "pmem (illegal_instruction c m) = pmem m"
  "cur_pri (illegal_instruction c m) = cur_pri m" "d_pc (illegal_instruction c m) = d_pc m"
  "mmio_maps (illegal_instruction c m) = mmio_maps m" "amws (illegal_instruction c m) = amws m"
  by (simp_all add: illegal_instruction_def Let_def dnpc_and_check_def trap_peek_exception_def)

lemma illegal_instruction_dnpc:
  assumes "csrs m 6 mod 4 = 0"
  shows "d_dnpc (illegal_instruction c m) = csrs m 6"
  using assms
  by (simp add: illegal_instruction_def Let_def csr_get_def csrs_upd csr_slots dnpc_and_check_aligned)

text \<open>A vector with a mode bit set is rejected as a target: control stays on the next instruction.\<close>

lemma illegal_instruction_vectored:
  assumes "csrs m 6 mod 4 \<noteq> 0"
  shows "d_dnpc (illegal_instruction c m) = d_dnpc m"
  using assms
  by (simp add: illegal_instruction_def Let_def csr_get_def csrs_upd csr_slots dnpc_and_check_def
      trap_peek_exception_def)

section \<open>Interrupt entry and return\<close>

lemma take_irq_csrs:
  "csrs (take_irq c irq m) = (csrs m)(5 := irq OR 0x80000000, 8 := d_pc m,
     2 := set_field (set_field (csrs m 2) MSTATUS_MPIE (get_field (csrs m 2) MSTATUS_MIE) AND NOT MSTATUS_MIE)
            MSTATUS_MPP (cur_pri m))"
  by (rule ext)
    (simp add: take_irq_def Let_def csrs_upd csr_slots XLEN_def)

lemma take_irq_sel:
  "cur_pri (take_irq c irq m) = PRV_M" "gpr (take_irq c irq m) = gpr m" "pmem (take_irq c irq m) = pmem m"
  "d_pc (take_irq c irq m) = d_pc m" "mmio_maps (take_irq c irq m) = mmio_maps m"
  by (simp_all add: take_irq_def Let_def dnpc_and_check_def trap_peek_exception_def)

text \<open>Direct mode: all interrupts enter at the base. Vectored mode: four bytes per cause.\<close>

lemma take_irq_direct:
  assumes "csrs m 6 AND 3 = 0"
  shows "d_dnpc (take_irq c irq m) = csrs m 6"
proof -
  have z: "\<not> bit (csrs m 6) 0"
    using arg_cong [OF assms, of "\<lambda>w. bit w 0"] by (simp add: bit_simps)
  have "csrs m 6 mod 4 = take_bit 2 (csrs m 6)" by (simp add: take_bit_eq_mod)
  also have "\<dots> = csrs m 6 AND 3" by (simp add: take_bit_eq_mask mask_eq_exp_minus_1)
  finally have "csrs m 6 mod 4 = 0" using assms by simp
  moreover have "get_field (csrs m 6) 1 = 0"
    using z get_field_bit [of 0 "csrs m 6"] by (simp add: field_def mask_eq_exp_minus_1)
  ultimately show ?thesis
    by (simp add: take_irq_def Let_def csr_get_def csrs_upd csr_slots dnpc_and_check_def)
qed

lemma word_mod_4: "w mod 4 = take_bit 2 w" for w :: u32
  by (simp add: take_bit_eq_mod)

lemma word_four_mult: "(4 * z) mod 4 = 0" for z :: u32
proof -
  have "4 * z = push_bit 2 z" by (simp add: push_bit_eq_mult)
  moreover have "take_bit 2 (push_bit 2 z) = 0"
    by (rule bit_word_eqI) (simp only: bit_take_bit_iff bit_push_bit_iff, auto)
  ultimately show ?thesis by (simp only: word_mod_4)
qed

lemma take_irq_vectored:
  assumes "csrs m 6 = base + 1" and "base mod 4 = 0"
  shows "d_dnpc (take_irq c irq m) = base + 4 * irq"
proof -
  have "take_bit 2 base = 0" using assms(2) by (simp only: word_mod_4)
  moreover have "bit (take_bit 2 base) 0 \<longleftrightarrow> bit base 0" by (simp only: bit_take_bit_iff) simp
  ultimately have "even base" by (simp add: bit_0)
  then have g: "get_field (csrs m 6) 1 = 1"
    using get_field_bit [of 0 "csrs m 6"] assms(1)
    by (simp add: field_def mask_eq_exp_minus_1 bit_0)
  have "base = base div 4 * 4 + base mod 4" by (simp only: div_mult_mod_eq)
  then have "base + 4 * irq = 4 * (base div 4 + irq)" using assms(2) by (simp add: algebra_simps)
  then have "(base + 4 * irq) mod 4 = 0" by (simp only: word_four_mult)
  then show ?thesis
    using g assms(1)
    by (simp add: take_irq_def Let_def csr_get_def csrs_upd csr_slots dnpc_and_check_def algebra_simps)
qed

lemma take_irq_target:
  "csrs m 6 mod 4 = 0 \<Longrightarrow> d_dnpc (take_irq c irq m) = csrs m 6"
  "csrs m 6 mod 4 = 1 \<Longrightarrow> d_dnpc (take_irq c irq m) = csrs m 6 - 1 + 4 * irq"
proof -
  show "csrs m 6 mod 4 = 0 \<Longrightarrow> d_dnpc (take_irq c irq m) = csrs m 6"
    by (rule take_irq_direct) (simp add: word_mod_4 take_bit_eq_mask mask_eq_exp_minus_1)
  assume *: "csrs m 6 mod 4 = 1"
  have "csrs m 6 = csrs m 6 div 4 * 4 + csrs m 6 mod 4" by (simp only: div_mult_mod_eq)
  then have "csrs m 6 - 1 = 4 * (csrs m 6 div 4)" unfolding * by (simp add: algebra_simps)
  then have "(csrs m 6 - 1) mod 4 = 0" by (simp only: word_four_mult)
  then show "d_dnpc (take_irq c irq m) = csrs m 6 - 1 + 4 * irq" by (intro take_irq_vectored) simp_all
qed

text \<open>What \<^verbatim>\<open>mret\<close> does to the status word.\<close>

definition mret_mstatus :: "u32 \<Rightarrow> u32" where
  "mret_mstatus s = set_field (set_field s MSTATUS_MIE (get_field s MSTATUS_MPIE)) MSTATUS_MPIE 1"

lemma exec_mret_sel:
  "d_dnpc (exec_mret c m) = csrs m 8" "gpr (exec_mret c m) = gpr m" "pmem (exec_mret c m) = pmem m"
  "cur_pri (exec_mret c m) = get_field (csrs m 2) MSTATUS_MPP"
  "csrs (exec_mret c m) = (csrs m)(2 := (if isMonly c then mret_mstatus (csrs m 2)
     else set_field (mret_mstatus (csrs m 2)) MSTATUS_MPP 0))"
proof -
  have mpp: "get_field (mret_mstatus s) MSTATUS_MPP = get_field s MSTATUS_MPP" for s
    by (simp add: mret_mstatus_def mask_fields get_set_field_other)
  show "cur_pri (exec_mret c m) = get_field (csrs m 2) MSTATUS_MPP"
    using mpp [of "csrs m 2"]
    by (simp add: exec_mret_def Let_def csr_get_def csrs_upd csr_slots mret_mstatus_def)
qed (auto simp: exec_mret_def Let_def csr_get_def csrs_upd csr_slots mret_mstatus_def fun_eq_iff)

text \<open>
  An interrupt and the return from it: when the handler leaves mepc and mstatus as it found
  them, \<^verbatim>\<open>mret\<close> resumes the interrupted instruction with the interrupt enable and the
  privilege it had.
\<close>

lemma irq_mstatus_fields:
  fixes s pri :: u32
  defines "s' \<equiv> set_field (set_field s MSTATUS_MPIE (get_field s MSTATUS_MIE) AND NOT MSTATUS_MIE) MSTATUS_MPP pri"
  shows "get_field s' MSTATUS_MPIE = get_field s MSTATUS_MIE" and "get_field s' MSTATUS_MIE = 0"
    and "get_field s' MSTATUS_MPP = take_bit 2 pri"
  unfolding s'_def mask_fields
  by (simp_all add: get_set_field_same get_field_bit bit_set_field_iff bit_and_iff bit_not_iff bit_field_iff)

lemma irq_mret:
  assumes h: "csrs h 8 = csrs (take_irq c irq m) 8" "csrs h 2 = csrs (take_irq c irq m) 2" and "cur_pri m \<le> 3"
  shows "d_dnpc (exec_mret c h) = d_pc m" and "cur_pri (exec_mret c h) = cur_pri m"
    and "get_field (csrs (exec_mret c h) 2) MSTATUS_MIE = get_field (csrs m 2) MSTATUS_MIE"
proof -
  show "d_dnpc (exec_mret c h) = d_pc m" using h by (simp add: exec_mret_sel take_irq_csrs)
  have "take_bit 2 (cur_pri m) = cur_pri m"
    by (rule bit_word_eqI) (use small_bits [OF assms(3)] in \<open>auto simp: bit_take_bit_iff not_less\<close>, metis not_less)
  then show "cur_pri (exec_mret c h) = cur_pri m"
    using h irq_mstatus_fields by (simp add: exec_mret_sel take_irq_csrs)
  have "get_field (mret_mstatus s) MSTATUS_MIE = get_field s MSTATUS_MPIE"
    and "get_field (set_field (mret_mstatus s) MSTATUS_MPP 0) MSTATUS_MIE = get_field s MSTATUS_MPIE" for s
    by (simp_all add: mret_mstatus_def mask_fields get_field_bit bit_set_field_iff)
  then show "get_field (csrs (exec_mret c h) 2) MSTATUS_MIE = get_field (csrs m 2) MSTATUS_MIE"
    using h irq_mstatus_fields(1) by (simp add: exec_mret_sel take_irq_csrs)
qed

section \<open>Delegated exceptions\<close>

lemma supervisor_trap_csrs:
  assumes "cfg_priv c = RVPrivMSU"
  shows "csrs (supervisor_trap c m) = (csrs m)(34 := have_exc m, 33 := d_pc m, 35 := exc_tval m,
    27 := set_field (set_field (set_field (csrs m 27) SSTATUS_SPIE (get_field (csrs m 27) SSTATUS_SIE)) SSTATUS_SIE 0)
            SSTATUS_SPP (cur_pri m),
    2 := set_field (set_field (csrs m 2) MSTATUS_SPIE (get_field (csrs m 2) MSTATUS_SIE)) MSTATUS_SPP PRV_S)"
  by (rule ext) (simp add: supervisor_trap_def Let_def csrs_upd csr_slots assms)

lemma supervisor_trap_sel:
  "gpr (supervisor_trap c m) = gpr m" "pmem (supervisor_trap c m) = pmem m" "cur_pri (supervisor_trap c m) = PRV_S"
  "d_pc (supervisor_trap c m) = d_pc m" "mmio_maps (supervisor_trap c m) = mmio_maps m"
  by (simp_all add: supervisor_trap_def Let_def dnpc_and_check_def trap_peek_exception_def)

lemma supervisor_trap_dnpc:
  assumes "cfg_priv c = RVPrivMSU" and "csrs m 29 mod 4 = 0"
  shows "d_dnpc (supervisor_trap c m) = csrs m 29"
  using assms(2)
  by (simp add: supervisor_trap_def Let_def csr_get_def csrs_upd csr_slots assms(1) dnpc_and_check_aligned)

text \<open>
  The two views of SPP disagree after a trap from user mode: sstatus records the privilege
  the trap came from, mstatus the privilege it went to.
\<close>

lemma supervisor_trap_spp:
  assumes "cfg_priv c = RVPrivMSU" and "cur_pri m = PRV_U"
  shows "get_field (csrs (supervisor_trap c m) 27) SSTATUS_SPP = 0"
    and "get_field (csrs (supervisor_trap c m) 2) MSTATUS_SPP = 1"
  using assms
  by (simp_all add: supervisor_trap_csrs mask_fields get_set_field_same bits_defs)

section \<open>After an instruction\<close>

lemma recy_exception_sel [simp]:
  "gpr (recy_exception m) = gpr m" "csrs (recy_exception m) = csrs m" "pmem (recy_exception m) = pmem m"
  "cur_pri (recy_exception m) = cur_pri m" "d_dnpc (recy_exception m) = d_dnpc m" "d_pc (recy_exception m) = d_pc m"
  "mmio_maps (recy_exception m) = mmio_maps m" "amws (recy_exception m) = amws m"
  "have_exc (recy_exception m) = RISCV_EXCP_NONE"
  by (simp_all add: recy_exception_def trap_peek_exception_def)

lemma handle_exception_sel:
  "gpr (handle_exception c m) = gpr m" "pmem (handle_exception c m) = pmem m" "d_pc (handle_exception c m) = d_pc m"
  "mmio_maps (handle_exception c m) = mmio_maps m"
  by (simp_all add: handle_exception_def supervisor_trap_sel illegal_instruction_keeps)

lemma handle_exception_none: "have_exc (handle_exception c m) = RISCV_EXCP_NONE"
  by (simp add: handle_exception_def)

text \<open>The zero register reads as 0 and no exception is pending when an instruction is done.\<close>

lemma decode_finish_x0: "gpr (decode_finish c m) 0 = 0"
  by (simp add: decode_finish_def Let_def handle_exception_sel)

lemma decode_finish_exc: "have_exc (decode_finish c m) = RISCV_EXCP_NONE"
  by (simp add: decode_finish_def Let_def handle_exception_none)

lemma decode_exec_x0: "decode_exec c E m = Inr m' \<Longrightarrow> gpr m' 0 = 0"
  by (auto simp: decode_exec_def Let_def res_simps decode_finish_x0)

lemma decode_exec_exc: "decode_exec c E m = Inr m' \<Longrightarrow> have_exc m' = RISCV_EXCP_NONE"
  by (auto simp: decode_exec_def Let_def res_simps decode_finish_exc)

section \<open>Reading registers by name\<close>

lemma reg_search_nth:
  "distinct nms \<Longrightarrow> i < length nms \<Longrightarrow> reg_search nms (nms ! i) k = k + i + 1"
proof (induction nms arbitrary: i k)
  case Nil
  then show ?case by simp
next
  case (Cons nm nms)
  then show ?case by (cases i) (auto simp: nth_mem)
qed

lemma reg_search_none: "s \<notin> set nms \<Longrightarrow> reg_search nms s k = k + length nms"
  by (induction nms arbitrary: k) auto

lemma regs_distinct: "distinct regs" and pc_not_reg: "''pc'' \<notin> set regs"
  by (simp_all add: regs_def)

text \<open>Every register but the last is found; the last is reported as unknown.\<close>

lemma isa_reg_str2val_reg:
  assumes "i < 31"
  shows "isa_reg_str2val (regs ! i) m = (gpr m i, True)"
proof -
  have "regs ! i \<in> set regs" using assms by simp
  then have "regs ! i \<noteq> ''pc''" using pc_not_reg by metis
  then show ?thesis
    using assms reg_search_nth [OF regs_distinct, of i 0] by (simp add: isa_reg_str2val_def)
qed

lemma isa_reg_str2val_t6: "isa_reg_str2val ''t6'' m = (- 1, False)"
  using reg_search_nth [OF regs_distinct, of 31 0] by (simp add: isa_reg_str2val_def regs_def)

lemma isa_reg_str2val_unknown:
  assumes "s \<noteq> ''pc''" and "s \<notin> set regs"
  shows "isa_reg_str2val s m = (- 1, False)"
  using assms by (simp add: isa_reg_str2val_def reg_search_none)

end
