(* ===== verification/RvStep.thy ===== *)
theory RvStep
  imports RvDecode RvArith RvTrapProps
begin

text \<open>
  Whole steps of the RISC-V core: \<^verbatim>\<open>isa_exec_once\<close> on a machine whose devices are at their
  places, from the fetch through the interrupt check and the decode table to the effect of
  the instruction.
\<close>

unbundle bit_operations_syntax

section \<open>The CLINT on the bus\<close>

definition clint_at :: "config \<Rightarrow> nat" where
  "clint_at c = 86016 + fb_len c + (if cfg_sdcard c then 4096 else 0)"

definition bus_ok :: "config \<Rightarrow> ('a) io_scheme \<Rightarrow> bool" where
  "bus_ok c m \<longleftrightarrow> cfg_vga c \<noteq> VGA_SIZE_1600x1200 \<and> mmio_maps m = default_maps c"

lemma bus_ok_wf: "bus_ok c m \<Longrightarrow> maps_wf (mmio_maps m)"
  by (simp add: bus_ok_def default_maps_wf)

lemma clint_entry: "entry ''clint'' CONFIG_CLINT_MMIO 0x10000 (clint_at c) CB_clint \<in> set (default_maps c)"
  by (simp add: default_maps_def Let_def clint_at_def)

lemma clint_at_fits: "cfg_vga c \<noteq> VGA_SIZE_1600x1200 \<Longrightarrow> clint_at c + 0x10000 \<le> IO_SPACE_MAX"
  by (cases "cfg_vga c") (simp_all add: clint_at_def fb_len_values IO_SPACE_MAX_def)

lemma difftest_skip_ref_twice [simp]: "difftest_skip_ref c (difftest_skip_ref c m) = difftest_skip_ref c m"
  by (simp add: difftest_skip_ref_def split: difftest_ref.split)

lemma difftest_skip_ref_io [simp]:
  "io_space (difftest_skip_ref c m) = io_space m" "mmio_maps (difftest_skip_ref c m) = mmio_maps m"
  "nemu_state (difftest_skip_ref c m) = nemu_state m"
  by (simp_all add: difftest_skip_ref_def split: difftest_ref.split)

lemma difftest_skip_ref_sel [simp]:
  "gpr (difftest_skip_ref c m) = gpr m" "csrs (difftest_skip_ref c m) = csrs m" "pmem (difftest_skip_ref c m) = pmem m"
  "d_pc (difftest_skip_ref c m) = d_pc m" "d_snpc (difftest_skip_ref c m) = d_snpc m"
  "d_inst (difftest_skip_ref c m) = d_inst m" "have_exc (difftest_skip_ref c m) = have_exc m"
  "cur_pri (difftest_skip_ref c m) = cur_pri m" "amws (difftest_skip_ref c m) = amws m"
  "csr_get c a (difftest_skip_ref c m) = csr_get c a m"
  "d_dnpc (difftest_skip_ref c m) = d_dnpc m" "cpu_pc (difftest_skip_ref c m) = cpu_pc m"
  by (simp_all add: difftest_skip_ref_def csr_get_def split: difftest_ref.split)

lemma clint_offset:
  assumes "off < 0x10000"
  shows "CONFIG_CLINT_MMIO + of_nat off - CONFIG_CLINT_MMIO = of_nat off" and "unat (of_nat off :: u32) = off"
    and "\<not> in_pmem (CONFIG_CLINT_MMIO + of_nat off)"
    and "map_inside (entry ''clint'' CONFIG_CLINT_MMIO 0x10000 s CB_clint) (CONFIG_CLINT_MMIO + of_nat off)"
proof -
  show u: "unat (of_nat off :: u32) = off" using assms by (simp add: unat_of_nat)
  have s: "unat (CONFIG_CLINT_MMIO + of_nat off) = 0x11000000 + off"
    using assms u by (subst unat_add_lem [THEN iffD1]) (auto simp: config_defs)
  show "CONFIG_CLINT_MMIO + of_nat off - CONFIG_CLINT_MMIO = of_nat off" by simp
  show "\<not> in_pmem (CONFIG_CLINT_MMIO + of_nat off)"
    unfolding in_pmem_iff word_le_nat_alt s using assms by (simp add: config_defs)
  show "map_inside (entry ''clint'' CONFIG_CLINT_MMIO 0x10000 s CB_clint) (CONFIG_CLINT_MMIO + of_nat off)"
    unfolding map_inside_def word_le_nat_alt s using assms by (simp add: entry_def config_defs)
qed

lemma clint_read:
  assumes "bus_ok c m" and "off + 4 \<le> 0x10000"
  shows "paddr_read c E (CONFIG_CLINT_MMIO + of_nat off) 4 m =
    Inr (le_read (io_space m) (clint_at c + off) 4, difftest_skip_ref c m)"
proof -
  have off: "off < 0x10000" using assms(2) by simp
  have fits: "clint_at c + off + 4 \<le> IO_SPACE_MAX"
    using clint_at_fits assms by (fastforce simp: bus_ok_def)
  have "mmio_read c (dev_dispatch E) (CONFIG_CLINT_MMIO + of_nat off) 4 m =
      Inr (le_read (io_space m) (clint_at c + off) 4, difftest_skip_ref c m)"
    using mmio_read_mapped [OF bus_ok_wf [OF assms(1)] _ clint_offset(4) [OF off], of "clint_at c" 4 c "dev_dispatch E"]
      clint_entry [of c] assms(1) clint_offset(2) [OF off] fits
    by (simp add: bus_ok_def entry_def invoke_callback_def clint_io_handler_def host_read_def)
  then show ?thesis using clint_offset(3) [OF off] by (simp add: paddr_read_def)
qed

lemma clint_load:
  assumes "bus_ok c m" and "off + 4 \<le> 0x10000" and "(CONFIG_CLINT_MMIO + of_nat off) mod 4 = 0"
  shows "Mr c E (CONFIG_CLINT_MMIO + of_nat off) 4 m =
    Inr (le_read (io_space m) (clint_at c + off) 4, difftest_skip_ref c m)"
  using clint_read [OF assms(1,2)] assms(3) by (simp add: Mr_def vaddr_read_def)

section \<open>The timer\<close>

definition mtime :: "config \<Rightarrow> ('a) io_scheme \<Rightarrow> u64" where
  "mtime c m = le_read (io_space m) (clint_at c + MTIMELO) 8"

definition mtimecmp :: "config \<Rightarrow> ('a) io_scheme \<Rightarrow> u64" where
  "mtimecmp c m = le_read (io_space m) (clint_at c + MTIMECMPLO) 8"

lemma le_read_halves:
  "(le_read f a 4 :: u32) = ucast (le_read f a 8 :: u64)"
  "(le_read f (a + 4) 4 :: u32) = ucast (drop_bit 32 (le_read f a 8 :: u64))"
proof -
  show "(le_read f a 4 :: u32) = ucast (le_read f a 8 :: u64)"
    by (rule bit_word_eqI) (auto simp: bit_le_read_iff bit_simps)
  show "(le_read f (a + 4) 4 :: u32) = ucast (drop_bit 32 (le_read f a 8 :: u64))"
  proof (rule bit_word_eqI)
    fix i assume "i < LENGTH(32)"
    moreover have "(32 + i) div 8 = 4 + i div 8" and "(32 + i) mod 8 = i mod 8" by presburger+
    ultimately show "bit (le_read f (a + 4) 4 :: u32) i \<longleftrightarrow>
        bit (ucast (drop_bit 32 (le_read f a 8 :: u64)) :: u32) i"
      by (simp add: bit_le_read_iff bit_ucast_iff bit_drop_bit_eq add.assoc)
  qed
qed

definition timer_cmp :: "u64 \<Rightarrow> u64 \<Rightarrow> bool" where
  "timer_cmp t tc \<longleftrightarrow> (ucast (drop_bit 32 tc) :: u32) < ucast (drop_bit 32 t) \<or> (ucast tc :: u32) < ucast t"

lemma timer_expired_eq:
  assumes "bus_ok c m"
  shows "timer_expired c E m = Inr (timer_cmp (mtime c m) (mtimecmp c m), difftest_skip_ref c m)"
proof -
  let ?m = "difftest_skip_ref c m"
  have b: "bus_ok c ?m" using assms by (simp add: bus_ok_def)
  have al: "(CONFIG_CLINT_MMIO + of_nat off) mod 4 = 0" if "off \<in> {MTIMEHI, MTIMECMPHI, MTIMELO, MTIMECMPLO}" for off
    using that by (auto simp: config_defs MTIMEHI_def MTIMECMPHI_def MTIMELO_def MTIMECMPLO_def)
  have r: "off + 4 \<le> 0x10000" if "off \<in> {MTIMEHI, MTIMECMPHI, MTIMELO, MTIMECMPLO}" for off
    using that by (auto simp: MTIMEHI_def MTIMECMPHI_def MTIMELO_def MTIMECMPLO_def)
  note L = clint_load [OF assms r al] clint_load [OF b r al]
  have hi: "le_read f (clint_at c + MTIMEHI) 4 = (ucast (drop_bit 32 (le_read f (clint_at c + MTIMELO) 8 :: u64)) :: u32)"
    "le_read f (clint_at c + MTIMECMPHI) 4 = (ucast (drop_bit 32 (le_read f (clint_at c + MTIMECMPLO) 8 :: u64)) :: u32)"
    for f
    by (simp_all add: le_read_halves(2) [symmetric] MTIMEHI_def MTIMECMPHI_def MTIMELO_def MTIMECMPLO_def add.assoc)
  show ?thesis
    by (simp add: timer_expired_def L hi timer_cmp_def mtime_def mtimecmp_def
        le_read_halves(1) [where a = "clint_at c + MTIMELO"] le_read_halves(1) [where a = "clint_at c + MTIMECMPLO"])
qed

text \<open>The comparison is the 64-bit one exactly when the low words do not exceed while the high word is behind.\<close>

lemma nat_halves_less:
  fixes b :: nat
  assumes "l < b" and "l' < b"
  shows "h * b + l < h' * b + l' \<longleftrightarrow> h < h' \<or> h = h' \<and> l < l'"
proof -
  have *: "h * b + l < h' * b + l'" if "h < h'" and "l < b" for h h' l l'
  proof -
    have "h * b + l < Suc h * b" using that(2) by simp
    also have "\<dots> \<le> h' * b" using that(1) by (intro mult_right_mono) simp_all
    finally show ?thesis by simp
  qed
  show ?thesis
    using *[of h h' l l'] *[of h' h l' l] assms by (cases h h' rule: linorder_cases) simp_all
qed

lemma u64_less_halves:
  "tc < t \<longleftrightarrow> (ucast (drop_bit 32 tc) :: u32) < ucast (drop_bit 32 t) \<or>
     (ucast (drop_bit 32 tc) :: u32) = ucast (drop_bit 32 t) \<and> (ucast tc :: u32) < ucast t" for t tc :: u64
proof -
  have d: "unat x = unat (ucast (drop_bit 32 x) :: u32) * 2 ^ 32 + unat (ucast x :: u32)" for x :: u64
  proof -
    have "unat (ucast (drop_bit 32 x) :: u32) = unat x div 2 ^ 32"
      using unsigned_less [where 'a = nat, of x] by (simp add: unsigned_ucast_eq drop_bit_eq_div unat_div_distrib take_bit_eq_mod less_mult_imp_div_less)
    moreover have "unat (ucast x :: u32) = unat x mod 2 ^ 32"
      by (simp add: unsigned_ucast_eq take_bit_eq_mod)
    ultimately show ?thesis by (simp add: div_mult_mod_eq)
  qed
  have l: "unat (ucast x :: u32) < 2 ^ 32" for x :: u64 using unsigned_less [where 'a = nat, of "ucast x :: u32"] by simp
  show ?thesis
    unfolding word_less_nat_alt word_unat_eq_iff d [of t] d [of tc] by (rule nat_halves_less [OF l l])
qed

lemma timer_cmp_late: "tc < t \<Longrightarrow> timer_cmp t tc"
  by (auto simp: timer_cmp_def u64_less_halves)

lemma timer_cmp_exact:
  assumes "drop_bit 32 t = drop_bit 32 tc"
  shows "timer_cmp t tc \<longleftrightarrow> tc < t"
  using assms by (auto simp: timer_cmp_def u64_less_halves)

lemma timer_cmp_early: "timer_cmp 5 0x100000000" and "\<not> (0x100000000 :: u64) < 5"
  by (simp_all add: timer_cmp_def)

section \<open>Up to the decoder\<close>

text \<open>
  A machine about to execute a RAM instruction. \<open>fetched\<close> is the word
  at the pc, \<open>decode_state\<close> the state in which the instruction body runs: nothing but the fetch
  buffers, the next pc and the timer bit of mip has changed.
\<close>

definition fetched :: "('a) rv32_scheme \<Rightarrow> u32" where
  "fetched m = le_read (pmem m) (guest_to_host (d_snpc m)) 4"

definition mip_now :: "config \<Rightarrow> ('a) rv32_scheme \<Rightarrow> u32" where
  "mip_now c m = set_field (csrs m 3) MIP_MTIP (if timer_cmp (mtime c m) (mtimecmp c m) then 1 else 0)"

definition after_timer :: "config \<Rightarrow> ('a) rv32_scheme \<Rightarrow> ('a) rv32_scheme" where
  "after_timer c m = csr_set_field c CSR_MIP MIP_MTIP (if timer_cmp (mtime c m) (mtimecmp c m) then 1 else 0)
     (difftest_skip_ref c (m\<lparr>d_inst := fetched m, d_snpc := d_snpc m + 4\<rparr>))"

definition decode_state :: "config \<Rightarrow> ('a) rv32_scheme \<Rightarrow> ('a) rv32_scheme" where
  "decode_state c m = (after_timer c m)\<lparr>d_dnpc := d_snpc m + 4\<rparr>"

lemma after_timer_sel [simp]:
  "gpr (after_timer c m) = gpr m" "pmem (after_timer c m) = pmem m" "d_pc (after_timer c m) = d_pc m"
  "d_snpc (after_timer c m) = d_snpc m + 4" "d_inst (after_timer c m) = fetched m"
  "have_exc (after_timer c m) = have_exc m" "cur_pri (after_timer c m) = cur_pri m"
  "amws (after_timer c m) = amws m" "mmio_maps (after_timer c m) = mmio_maps m"
  "io_space (after_timer c m) = io_space m" "cpu_pc (after_timer c m) = cpu_pc m"
  "csrs (after_timer c m) = (csrs m)(3 := mip_now c m)" "nemu_state (after_timer c m) = nemu_state m"
  by (simp_all add: after_timer_def csrs_upd csr_slots mip_now_def)

lemma decode_state_sel [simp]:
  "gpr (decode_state c m) = gpr m" "pmem (decode_state c m) = pmem m" "d_pc (decode_state c m) = d_pc m"
  "d_dnpc (decode_state c m) = d_snpc m + 4" "d_inst (decode_state c m) = fetched m"
  "have_exc (decode_state c m) = have_exc m" "cur_pri (decode_state c m) = cur_pri m"
  "amws (decode_state c m) = amws m" "mmio_maps (decode_state c m) = mmio_maps m"
  "io_space (decode_state c m) = io_space m" "cpu_pc (decode_state c m) = cpu_pc m"
  "csrs (decode_state c m) = (csrs m)(3 := mip_now c m)" "nemu_state (decode_state c m) = nemu_state m"
  by (simp_all add: decode_state_def)

text \<open>
  No interrupt is due: machine interrupts are disabled, or none of the enabled ones is pending once
  mip has the timer bit of this step, neither for the machine nor, when interrupts are delegated, for the supervisor.
\<close>

definition no_interrupt :: "config \<Rightarrow> ('a) rv32_scheme \<Rightarrow> bool" where
  "no_interrupt c m \<longleftrightarrow> (let m1 = after_timer c m in
     mstatus_mie c m1 = 0 \<or>
     find_irq_type_val (have_IP c m1) = - 1 \<and>
     \<not> (csr_get c CSR_MIDELEG m1 \<noteq> 0 \<and> cur_pri m1 = PRV_S \<and> csr_get c CSR_SSTATUS m1 AND 0x8 \<noteq> 0 \<and>
        csr_get c CSR_SIE m1 AND csr_get c CSR_SIP m1 AND 0x0aaa \<noteq> 0))"

lemma no_interrupt_disabled: "csrs m 2 AND 8 = 0 \<Longrightarrow> no_interrupt c m"
  by (simp add: no_interrupt_def Let_def mstatus_mie_def csr_get_def csr_slots)

lemma no_interrupt_none:
  assumes "csrs m 4 AND mip_now c m AND 0x0aaa = 0" and "cur_pri m \<noteq> PRV_S"
  shows "no_interrupt c m"
proof -
  have "have_IP c (after_timer c m) = 0" using assms(1) by (simp add: have_IP_def csr_get_def csr_slots)
  then show ?thesis using assms(2) by (simp add: no_interrupt_def Let_def find_irq_type_val_eq irq_answer_none)
qed

lemma no_interrupt_cong:
  assumes "csrs m' = csrs m" and "cur_pri m' = cur_pri m" and "io_space m' = io_space m"
  shows "no_interrupt c m' = no_interrupt c m"
  using assms by (simp add: no_interrupt_def Let_def mstatus_mie_def have_IP_def csr_get_def mip_now_def mtime_def mtimecmp_def)

definition ready :: "config \<Rightarrow> ('a) rv32_scheme \<Rightarrow> bool" where
  "ready c m \<longleftrightarrow> bus_ok c m \<and> in_pmem (d_snpc m) \<and> guest_to_host (d_snpc m) + 4 \<le> MSIZE \<and>
     (d_snpc m + 4) mod 4 = 0 \<and> no_interrupt c m \<and> have_exc m = RISCV_EXCP_NONE"

lemma irp_and_eq:
  assumes "bus_ok c m" and "in_pmem (d_snpc m)" and "guest_to_host (d_snpc m) + 4 \<le> MSIZE"
  shows "isa_exec_once c E m = bindE
    (let m1 = after_timer c m in
     if mstatus_mie c m1 = 0 then Inr (False, m1)
     else
       (let irq = find_irq_type_val (have_IP c m1) in
        if csr_get c CSR_MIDELEG m1 \<noteq> 0 \<and> cur_pri m1 = PRV_S \<and> csr_get c CSR_SSTATUS m1 AND 0x8 \<noteq> 0 \<and>
           csr_get c CSR_SIE m1 AND csr_get c CSR_SIP m1 AND 0x0aaa \<noteq> 0
        then Inr (True, m1)
        else if irq \<noteq> - 1 then Inr (True, take_irq c irq m1)
        else Inr (False, m1)))
    (\<lambda>(taken, m2). if taken then Inr m2 else decode_exec c E m2)"
proof -
  let ?m = "m\<lparr>d_inst := fetched m, d_snpc := d_snpc m + 4\<rparr>"
  have f: "inst_fetch c E (d_snpc m) 4 m = Inr (fetched m, d_snpc m + 4, m)"
    by (simp add: inst_fetch_def vaddr_ifetch_def fetched_def paddr_read_ram [OF assms(2,3)])
  have "bus_ok c ?m" using assms(1) by (simp add: bus_ok_def)
  from timer_expired_eq [OF this, of E]
  have "timer_expired c E ?m = Inr (timer_cmp (mtime c m) (mtimecmp c m), difftest_skip_ref c ?m)"
    by (simp add: mtime_def mtimecmp_def)
  then show ?thesis by (simp add: isa_exec_once_def f irp_and_def after_timer_def)
qed

lemma isa_exec_once_ready:
  assumes "ready c m" and "instpat_select (instpat_table c) (fetched m) = Inr (Some (ty, op))"
  shows "isa_exec_once c E m =
    bindE (exec_op c E op (decode_operand (fetched m) ty (decode_state c m)) (decode_state c m))
      (\<lambda>m1. Inr (decode_finish c m1))"
proof -
  have "no_interrupt c m" using assms(1) by (simp add: ready_def)
  then have "isa_exec_once c E m = decode_exec c E (after_timer c m)"
    using assms(1) irp_and_eq [of c m E] unfolding no_interrupt_def ready_def Let_def
    by (cases "mstatus_mie c (after_timer c m) = 0") (simp, auto simp del: after_timer_sel)
  moreover have "dnpc_and_check (d_snpc m + 4) (after_timer c m) = decode_state c m"
    using assms(1) by (simp add: dnpc_and_check_def decode_state_def ready_def)
  ultimately show ?thesis using assms(2) by (simp add: decode_exec_def Let_def)
qed

lemma decode_operand_cong: "gpr m' = gpr m \<Longrightarrow> decode_operand i ty m' = decode_operand i ty m"
  by (simp add: decode_operand_def Let_def split: itype.split)

lemma decode_operand_state [simp]: "decode_operand i ty (decode_state c m) = decode_operand i ty m"
  by (rule decode_operand_cong) simp

section \<open>What an instruction leaves behind\<close>

lemma set_gpr_rv_sel [simp]:
  "gpr (set_gpr i v m) = (gpr m)(i := v)" "csrs (set_gpr i v m) = csrs m" "pmem (set_gpr i v m) = pmem m"
  "d_dnpc (set_gpr i v m) = d_dnpc m" "d_pc (set_gpr i v m) = d_pc m" "have_exc (set_gpr i v m) = have_exc m"
  "exc_tval (set_gpr i v m) = exc_tval m" "cur_pri (set_gpr i v m) = cur_pri m" "amws (set_gpr i v m) = amws m"
  "mmio_maps (set_gpr i v m) = mmio_maps m" "d_inst (set_gpr i v m) = d_inst m"
  "io_space (set_gpr i v m) = io_space m" "nemu_state (set_gpr i v m) = nemu_state m"
  by (simp_all add: set_gpr_def)

lemma decode_finish_plain:
  assumes "have_exc m = RISCV_EXCP_NONE"
  shows "decode_finish c m = csr_mod c CSR_MISA (\<lambda>v. v AND NOT 0x4) (set_gpr 0 0 m)"
  using assms by (simp add: decode_finish_def handle_exception_def)

lemma decode_finish_trap:
  assumes "have_exc m \<noteq> RISCV_EXCP_NONE" and "cfg_priv c \<noteq> RVPrivMSU \<or> \<not> delegated c m"
  shows "decode_finish c m =
    recy_exception (illegal_instruction c (csr_mod c CSR_MISA (\<lambda>v. v AND NOT 0x4) (set_gpr 0 0 m)))"
  using assms by (auto simp: decode_finish_def handle_exception_def delegated_def Let_def csr_mod_def
    csr_get_put csr_slots)

text \<open>
  The result of a step that completes without a trap: the registers, the RAM and the next pc are as given, the control
  registers are kept but for the timer bit of mip and the C bit of misa, and so are the privilege, the reservations,
  the address map, the I/O space and the run state.
\<close>

definition completes :: "config \<Rightarrow> ('a) rv32_scheme \<Rightarrow> (nat \<Rightarrow> u32) \<Rightarrow> bytes \<Rightarrow> u32 \<Rightarrow> ('a) rv32_scheme res \<Rightarrow> bool" where
  "completes c m g p pc r \<longleftrightarrow> (case r of Inl _ \<Rightarrow> False
     | Inr m' \<Rightarrow> gpr m' = g(0 := 0) \<and> pmem m' = p \<and> d_dnpc m' = pc \<and> d_pc m' = d_pc m \<and>
         csrs m' = (csrs m)(3 := mip_now c m, 10 := csrs m 10 AND NOT 0x4) \<and>
         have_exc m' = RISCV_EXCP_NONE \<and> cur_pri m' = cur_pri m \<and> amws m' = amws m \<and>
         mmio_maps m' = mmio_maps m \<and> io_space m' = io_space m \<and> nemu_state m' = nemu_state m)"

lemma csr_misa_neq: "check_csr_idx c CSR_MISA = 10" "check_csr_idx c CSR_MIP = 3"
  by (simp_all add: csr_slots)

lemma completesI:
  assumes "have_exc m1 = RISCV_EXCP_NONE" and "gpr m1 = g" and "pmem m1 = p" and "d_dnpc m1 = pc"
    and "d_pc m1 = d_pc m" and "csrs m1 = (csrs m)(3 := mip_now c m)" and "cur_pri m1 = cur_pri m"
    and "mmio_maps m1 = mmio_maps m" and "amws m1 = amws m" and "io_space m1 = io_space m" and "nemu_state m1 = nemu_state m"
  shows "completes c m g p pc (Inr (decode_finish c m1))"
  using assms by (simp add: completes_def decode_finish_plain csrs_upd csr_slots)

text \<open>Arithmetic: the destination gets the result, the next instruction follows.\<close>

lemma step_alu:
  assumes "ready c m" and "instpat_select (instpat_table c) (fetched m) = Inr (Some (ty, Alu a))"
  shows "completes c m
    ((gpr m)(unat (BITS (fetched m) 11 7) := alu_result a (d_pc m) (decode_operand (fetched m) ty m)))
    (pmem m) (d_snpc m + 4) (isa_exec_once c E m)"
proof -
  have rd: "op_rd (decode_operand i ty m) = unat (BITS i 11 7)" for i
    by (simp add: decode_operand_def Let_def split: itype.split)
  show ?thesis
    unfolding isa_exec_once_ready [OF assms] using assms(1)
    by (simp add: rd ready_def, intro completesI) simp_all
qed

text \<open>A conditional branch with an aligned target.\<close>

lemma step_branch:
  assumes "ready c m" and "instpat_select (instpat_table c) (fetched m) = Inr (Some (TYPE_B, Branch b))"
    and "(d_pc m + SEXT (immB (fetched m)) 13) mod 4 = 0"
  shows "completes c m (gpr m) (pmem m)
    (if branch_taken b (gpr m (unat (BITS (fetched m) 19 15))) (gpr m (unat (BITS (fetched m) 24 20)))
     then d_pc m + SEXT (immB (fetched m)) 13 else d_snpc m + 4) (isa_exec_once c E m)"
proof -
  have o: "op_src1 (decode_operand i TYPE_B m) = gpr m (unat (BITS i 19 15))"
    "op_src2 (decode_operand i TYPE_B m) = gpr m (unat (BITS i 24 20))"
    "op_imm (decode_operand i TYPE_B m) = immB i" for i
    by (simp_all add: decode_operand_def Let_def)
  show ?thesis
    unfolding isa_exec_once_ready [OF assms(1,2)] using assms(1,3)
    by (simp add: exec_branch_def o ready_def dnpc_and_check_def, intro conjI impI completesI) simp_all
qed

text \<open>Loads and stores in RAM.\<close>

lemma Mr_ram:
  assumes "in_pmem a" and "guest_to_host a + n \<le> MSIZE" and "n \<in> {1, 2, 4}" and "cfg_misalign c \<or> a mod of_nat n = 0"
  shows "Mr c E a n m = Inr (le_read (pmem m) (guest_to_host a) n, m)"
  using assms(4) by (simp add: Mr_def vaddr_read_def paddr_read_ram [OF assms(1-3)])

lemma Mw_ram:
  assumes "in_pmem a" and "guest_to_host a + n \<le> MSIZE" and "n \<in> {1, 2, 4}" and "cfg_misalign c \<or> a mod of_nat n = 0"
  shows "Mw c E a n v m = Inr (m\<lparr>pmem := le_write (pmem m) (guest_to_host a) n v\<rparr>)"
  using assms(4) by (simp add: Mw_def vaddr_write_def paddr_write_ram [OF assms(1-3)])

definition ram_access :: "config \<Rightarrow> u32 \<Rightarrow> nat \<Rightarrow> bool" where
  "ram_access c a n \<longleftrightarrow> in_pmem a \<and> guest_to_host a + n \<le> MSIZE \<and> n \<in> {1, 2, 4} \<and> (cfg_misalign c \<or> a mod of_nat n = 0)"

lemma step_load:
  assumes "ready c m" and "instpat_select (instpat_table c) (fetched m) = Inr (Some (TYPE_I, Load ld))"
    and "a = gpr m (unat (BITS (fetched m) 19 15)) + immI (fetched m)" and "ram_access c a (load_len ld)"
  shows "completes c m
    ((gpr m)(unat (BITS (fetched m) 11 7) := load_extend ld (le_read (pmem m) (guest_to_host a) (load_len ld))))
    (pmem m) (d_snpc m + 4) (isa_exec_once c E m)"
proof -
  let ?x = "decode_operand (fetched m) TYPE_I m"
  have a: "op_src1 ?x + op_imm ?x = a" and rd: "op_rd ?x = unat (BITS (fetched m) 11 7)"
    by (simp_all add: decode_operand_def Let_def assms(3))
  have "Mr c E a (load_len ld) (decode_state c m) =
      Inr (le_read (pmem m) (guest_to_host a) (load_len ld), decode_state c m)"
    using assms(4) Mr_ram [of a "load_len ld" c E "decode_state c m"] by (simp add: ram_access_def)
  then show ?thesis
    unfolding isa_exec_once_ready [OF assms(1,2)] using assms(1)
    by (simp add: exec_load_def a rd ready_def, intro completesI) simp_all
qed

lemma step_store:
  assumes "ready c m" and "instpat_select (instpat_table c) (fetched m) = Inr (Some (TYPE_S, Store st))"
    and "a = gpr m (unat (BITS (fetched m) 19 15)) + immS (fetched m)" and "ram_access c a (store_len st)"
  shows "completes c m (gpr m)
    (le_write (pmem m) (guest_to_host a) (store_len st) (gpr m (unat (BITS (fetched m) 24 20))))
    (d_snpc m + 4) (isa_exec_once c E m)"
proof -
  let ?x = "decode_operand (fetched m) TYPE_S m"
  have a: "op_src1 ?x + op_imm ?x = a" and v: "op_src2 ?x = gpr m (unat (BITS (fetched m) 24 20))"
    by (simp_all add: decode_operand_def Let_def assms(3))
  have "Mw c E a (store_len st) w (decode_state c m) =
      Inr ((decode_state c m)\<lparr>pmem := le_write (pmem m) (guest_to_host a) (store_len st) w\<rparr>)" for w
    using assms(4) Mw_ram [of a "store_len st" c E w "decode_state c m"] by (simp add: ram_access_def)
  then show ?thesis
    unfolding isa_exec_once_ready [OF assms(1,2)] using assms(1)
    by (simp add: exec_store_def a v ready_def, intro completesI) simp_all
qed

text \<open>An invalid instruction enters the machine trap handler with its own word in mtval.\<close>

lemma step_illegal:
  assumes "ready c m" and "instpat_select (instpat_table c) (fetched m) = Inr (Some (ty, Inv))"
    and "cfg_priv c \<noteq> RVPrivMSU \<or> PRV_S < cur_pri m \<or> \<not> bit (csr_get c CSR_MEDELEG m) 2"
  shows "\<exists>m'. isa_exec_once c E m = Inr m' \<and> d_dnpc m' = (if csrs m 6 mod 4 = 0 then csrs m 6 else d_snpc m + 4) \<and>
    csrs m' 8 = d_pc m \<and> csrs m' 5 = RISCV_EXCP_ILLEGAL_INST \<and> csrs m' 7 = fetched m \<and>
    csrs m' 2 = trap_mstatus (csrs m 2) (cur_pri m) \<and>
    gpr m' = (gpr m)(0 := 0) \<and> pmem m' = pmem m \<and> have_exc m' = RISCV_EXCP_NONE \<and> cur_pri m' = cur_pri m"
proof -
  let ?m = "trap_peek_exception RISCV_EXCP_ILLEGAL_INST (fetched m) (decode_state c m)"
  have "push_bit (unat RISCV_EXCP_ILLEGAL_INST) 1 = (4 :: u32)" by (simp add: bits_defs)
  moreover have "w AND 4 = 0" if "\<not> bit w 2" for w :: u32
  proof (rule bit_word_eqI)
    have "bit (4 :: u32) n \<longleftrightarrow> n = 2" if "n < 32" for n
      using bit_push_bit_iff [of 2 "1 :: u32" n] that by (auto simp: bit_1_iff)
    then show "bit (w AND 4) n \<longleftrightarrow> bit 0 n" if "n < LENGTH(32)" for n
      using that \<open>\<not> bit w 2\<close> by (auto simp: bit_and_iff)
  qed
  ultimately have del: "\<not> delegated c ?m" if "cfg_priv c = RVPrivMSU"
    using assms(3) that by (auto simp: delegated_def trap_peek_exception_def csr_get_def csr_slots)
  have e: "have_exc ?m \<noteq> RISCV_EXCP_NONE" "cfg_priv c \<noteq> RVPrivMSU \<or> \<not> delegated c ?m"
    using del by (auto simp: trap_peek_exception_def bits_defs)
  have d: "d_dnpc (illegal_instruction c m') = (if csrs m 6 mod 4 = 0 then csrs m 6 else d_dnpc m')"
    if "csrs m' 6 = csrs m 6" for m'
    using illegal_instruction_dnpc [of m' c] illegal_instruction_vectored [of m' c] that by simp
  have "isa_exec_once c E m = Inr (decode_finish c ?m)"
    unfolding isa_exec_once_ready [OF assms(1,2)] by simp
  then show ?thesis
    unfolding decode_finish_trap [OF e]
    by (simp add: illegal_instruction_csrs illegal_instruction_keeps trap_csrs_def csrs_upd csr_slots
        trap_peek_exception_def d)
qed

section \<open>The machine timer interrupt\<close>

text \<open>
  With interrupts on, the timer enabled and due and no external or software interrupt above
  it, the step does not execute the fetched instruction but enters the handler, and mepc is
  the address of that instruction.
\<close>

lemma irq_answer_7:
  assumes "bit y 7" and "\<not> bit y 9" and "\<not> bit y 11"
  shows "irq_answer y 12 = 7"
  using assms irq_answer_Suc [of y 11] irq_answer_Suc [of y 10] irq_answer_Suc [of y 9] irq_answer_Suc [of y 8]
    irq_answer_Suc [of y 7] by simp

lemma step_timer_irq:
  assumes "bus_ok c m" and "in_pmem (d_snpc m)" and "guest_to_host (d_snpc m) + 4 \<le> MSIZE"
    and due: "mtimecmp c m < mtime c m" and "bit (csrs m 2) 3" and "bit (csrs m 4) 7"
    and "\<not> bit (csrs m 4 AND csrs m 3) 9" "\<not> bit (csrs m 4 AND csrs m 3) 11"
    and "cur_pri m \<noteq> PRV_S \<or> csr_get c CSR_MIDELEG m = 0"
  shows "isa_exec_once c E m = Inr (take_irq c 7 (after_timer c m))"
proof -
  have mie: "mstatus_mie c (after_timer c m) \<noteq> 0"
  proof
    assume "mstatus_mie c (after_timer c m) = 0"
    then have "csrs m 2 AND 8 = 0" by (simp add: mstatus_mie_def csr_get_def csr_slots)
    then have "\<not> bit (csrs m 2 AND 8) 3" by simp
    then show False using assms(5) by (simp add: bit_and_iff)
  qed
  have "mip_now c m = set_field (csrs m 3) (field 7 1) 1"
    using timer_cmp_late [OF due] by (simp add: mip_now_def mask_fields)
  then have b: "bit (mip_now c m) i \<longleftrightarrow> (if i = 7 then True else bit (csrs m 3) i)" for i
    using bit_set_field_iff [of "Suc 0" "csrs m 3" 7 1 i] by (cases "i = 7") (auto dest: bit_imp_le_length)
  let ?y = "csrs m 4 AND mip_now c m AND 0x0aaa"
  have "have_IP c (after_timer c m) = ?y" by (simp add: have_IP_def csr_get_def csr_slots)
  moreover have "irq_answer ?y 12 = 7"
    by (rule irq_answer_7) (use assms(6,7,8) in \<open>simp_all add: bit_and_iff b\<close>)
  ultimately have "find_irq_type_val (have_IP c (after_timer c m)) = 7" by (simp add: find_irq_type_val_eq)
  moreover have "check_csr_idx c CSR_MIDELEG \<noteq> 3"
    by (cases "cfg_priv c")
      (simp_all add: check_csr_idx_def csr_idx_map_def csr_idx_map_base_def csr_idx_map_other_def NR_CSR_def bits_defs)
  then have "csr_get c CSR_MIDELEG (after_timer c m) = csr_get c CSR_MIDELEG m" by (simp add: csr_get_def)
  ultimately show ?thesis using irp_and_eq [OF assms(1-3), of E] mie assms(9) by (auto simp: Let_def)
qed

section \<open>Load-reserved and store-conditional\<close>

text \<open>A store-conditional after a load-reserved of the same address stores and reports success.\<close>

lemma exec_lr_ram:
  assumes "ram_access c (op_src1 x) 4"
  shows "exec_lr c E x m = Inr ((set_gpr (op_rd x) (le_read (pmem m) (guest_to_host (op_src1 x)) 4) m)
    \<lparr>amws := amws m @ [(op_src1 x, True)]\<rparr>)"
  using assms Mr_ram [of "op_src1 x" 4 c E m] by (simp add: exec_lr_def ram_access_def amw_insert_def)

lemma lr_sc_success:
  assumes "ram_access c a 4" and "op_src1 x = a" and "op_src1 y = a"
    and "exec_lr c E x m = Inr m1" and "amws m2 = amws m1"
  shows "exec_sc c E y m2 =
    (let m3 = set_gpr (op_rd y) 0 (m2\<lparr>pmem := le_write (pmem m2) (guest_to_host a) 4 (op_src2 y)\<rparr>) in
     case amw_search (amws m) a of
       None \<Rightarrow> Inr (m3\<lparr>amws := amws m\<rparr>)
     | Some (_, True) \<Rightarrow> Inr (m3\<lparr>amws := amw_delete (amws m) a @ [(a, True)]\<rparr>)
     | Some (_, False) \<Rightarrow> Inr (set_gpr (op_rd y) 1 m2))"
proof -
  have l: "amws m2 = amws m @ [(a, True)]"
    using exec_lr_ram [of c x E m] assms(1,2,4,5) by auto
  have "amw_search (l @ [(d, True)]) d = (case amw_search l d of None \<Rightarrow> Some (d, True) | Some n \<Rightarrow> Some n)" for l d
    by (induction l) auto
  then have s: "amw_search (amws m2) a = (case amw_search (amws m) a of None \<Rightarrow> Some (a, True) | Some n \<Rightarrow> Some n)"
    using l by simp
  have "amw_delete (l @ [(d, True)]) d = (if amw_search l d = None then l else amw_delete l d @ [(d, True)])" for l d
    by (induction l) auto
  then have "amw_delete (amws m2) a =
      (if amw_search (amws m) a = None then amws m else amw_delete (amws m) a @ [(a, True)])" using l by simp
  then show ?thesis
    using s assms(1,3) Mw_ram [of a 4 c E "op_src2 y" m2]
    by (simp add: exec_sc_def Let_def ram_access_def set_gpr_def split: option.split bool.split prod.split)
qed

text \<open>Without a reservation of the address the store-conditional writes nothing.\<close>

lemma sc_failure:
  assumes "amw_search (amws m) (op_src1 x) = None"
  shows "exec_sc c E x m = Inr (set_gpr (op_rd x) 1 m)"
  using assms by (simp add: exec_sc_def)

section \<open>Invariants of a step\<close>

lemma Mr_maps: "Mr c E a n m = Inr (v, m') \<Longrightarrow> mmio_maps m' = mmio_maps m"
  by (auto simp: Mr_def vaddr_read_def trap_peek_exception_def dest: paddr_read_maps split: if_splits)

lemma Mw_maps: "Mw c E a n v m = Inr m' \<Longrightarrow> mmio_maps m' = mmio_maps m"
  by (auto simp: Mw_def vaddr_write_def trap_peek_exception_def dest: paddr_write_maps split: if_splits)

lemma exec_op_maps:
  assumes "exec_op c E op x m = Inr m'"
  shows "mmio_maps m' = mmio_maps m"
proof (cases op)
  case Slli
  then show ?thesis using assms by (auto simp: exec_slli_def trap_peek_exception_def)
next
  case Jal
  then show ?thesis using assms by (auto simp: exec_jal_def trap_peek_exception_def Let_def)
next
  case Jalr
  then show ?thesis using assms by (auto simp: exec_jalr_def trap_peek_exception_def Let_def)
next
  case (Branch b)
  then show ?thesis using assms by (auto simp: exec_branch_def dnpc_and_check_def trap_peek_exception_def)
next
  case (Load ld)
  then show ?thesis using assms by (auto simp: exec_load_def res_simps dest: Mr_maps)
next
  case (Store st)
  then show ?thesis using assms by (auto simp: exec_store_def dest: Mw_maps)
next
  case LrW
  then show ?thesis using assms by (auto simp: exec_lr_def res_simps Let_def dest: Mr_maps)
next
  case ScW
  then show ?thesis
    using assms by (auto simp: exec_sc_def res_simps Let_def dest!: Mw_maps split: option.splits bool.splits)
next
  case (Amo a)
  then show ?thesis using assms by (auto simp: exec_amo_def res_simps dest!: Mr_maps Mw_maps)
next
  case (Csr k)
  then show ?thesis
    using assms by (auto simp: exec_csr_def csr_write_checked_def trap_peek_exception_def Let_def split: if_splits)
next
  case Wfi
  then show ?thesis using assms by (auto simp: exec_wfi_def res_simps Let_def dest!: Mr_maps Mw_maps)
qed (use assms in \<open>auto simp: exec_ecall_def exec_ebreak_def exec_sret_def exec_mret_def trap_peek_exception_def Let_def\<close>)

lemma decode_exec_maps: "decode_exec c E m = Inr m' \<Longrightarrow> mmio_maps m' = mmio_maps m"
  by (auto simp: decode_exec_def Let_def res_simps decode_finish_def handle_exception_sel dnpc_and_check_def
      trap_peek_exception_def dest!: exec_op_maps split: option.splits if_splits)

lemma inst_fetch_maps: "inst_fetch c E a n m = Inr (i, s, m') \<Longrightarrow> mmio_maps m' = mmio_maps m"
  by (auto simp: inst_fetch_def vaddr_ifetch_def res_simps dest: paddr_read_maps)

lemma timer_expired_maps:
  assumes "timer_expired c E m = Inr (b, m')"
  shows "mmio_maps m' = mmio_maps m"
proof -
  let ?a = "\<lambda>off. CONFIG_CLINT_MMIO + of_nat off"
  obtain hi m1 ch m2 where 1: "Mr c E (?a MTIMEHI) 4 m = Inr (hi, m1)" "Mr c E (?a MTIMECMPHI) 4 m1 = Inr (ch, m2)"
    using assms by (auto simp: timer_expired_def res_simps)
  note k = Mr_maps [OF 1(1)] Mr_maps [OF 1(2)]
  show ?thesis
  proof (cases "ch < hi")
    case True
    then show ?thesis using assms 1 k by (simp add: timer_expired_def)
  next
    case False
    then obtain lo m3 cl where 2: "Mr c E (?a MTIMELO) 4 m2 = Inr (lo, m3)" "Mr c E (?a MTIMECMPLO) 4 m3 = Inr (cl, m')"
      using assms 1 by (auto simp: timer_expired_def res_simps)
    show ?thesis using k Mr_maps [OF 2(1)] Mr_maps [OF 2(2)] by simp
  qed
qed

lemma irp_and_maps: "irp_and c E m = Inr (b, m') \<Longrightarrow> mmio_maps m' = mmio_maps m"
proof -
  assume *: "irp_and c E m = Inr (b, m')"
  then obtain e m1 where "timer_expired c E m = Inr (e, m1)" by (auto simp: irp_and_def res_simps)
  with * timer_expired_maps [OF this] show ?thesis by (auto simp: irp_and_def Let_def take_irq_sel split: if_splits)
qed

lemma isa_exec_once_maps:
  assumes "isa_exec_once c E m = Inr m'"
  shows "mmio_maps m' = mmio_maps m"
proof -
  from assms obtain i s m1 b m2 where f: "inst_fetch c E (d_snpc m) 4 m = Inr (i, s, m1)"
    and p: "irp_and c E (m1\<lparr>d_inst := i, d_snpc := s\<rparr>) = Inr (b, m2)"
    and d: "(if b then Inr m2 else decode_exec c E m2) = Inr m'"
    by (auto simp: isa_exec_once_def res_simps)
  have "mmio_maps m' = mmio_maps m2" using d decode_exec_maps [of c E m2 m'] by (auto split: if_splits)
  with inst_fetch_maps [OF f] irp_and_maps [OF p] show ?thesis by simp
qed

lemma isa_exec_once_bus: "bus_ok c m \<Longrightarrow> isa_exec_once c E m = Inr m' \<Longrightarrow> bus_ok c m'"
  using isa_exec_once_maps [of c E m m'] by (simp add: bus_ok_def)

end
