(* ===== verification/Machines.thy ===== *)
theory Machines
  imports RvStep
begin

text \<open>
  Concrete machines, for evaluating the model on given programs: RAM that holds one instruction
  at the reset vector, the devices at their places, and chosen registers.
\<close>

unbundle bit_operations_syntax

definition demo :: "u32 \<Rightarrow> rv32" where
  "demo inst = (rv32_zero quiet_env)\<lparr>mmio_maps := default_maps default_config,
     pmem := le_write (\<lambda>_. 0) 0 4 inst, cpu_pc := RESET_VECTOR, d_pc := RESET_VECTOR, d_snpc := RESET_VECTOR,
     have_exc := RISCV_EXCP_NONE, cur_pri := PRV_M\<rparr>"

lemma demo_sel [simp]:
  "mmio_maps (demo i) = default_maps default_config" "pmem (demo i) = le_write (\<lambda>_. 0) 0 4 i"
  "d_pc (demo i) = RESET_VECTOR" "d_snpc (demo i) = RESET_VECTOR" "cpu_pc (demo i) = RESET_VECTOR"
  "csrs (demo i) = (\<lambda>_. 0)" "gpr (demo i) = (\<lambda>_. 0)" "have_exc (demo i) = RISCV_EXCP_NONE" "cur_pri (demo i) = PRV_M"
  "io_space (demo i) = (\<lambda>_. 0)" "amws (demo i) = []" "nemu_state (demo i) = NEMU_STOP"
  by (simp_all add: demo_def rv32_zero_def)

lemma demo_bus: "bus_ok default_config (demo i)"
  by (simp add: bus_ok_def default_config_def)

lemma bus_ok_cong: "mmio_maps m' = mmio_maps m \<Longrightarrow> bus_ok c m' = bus_ok c m"
  by (simp add: bus_ok_def)

lemma reset_vector: "in_pmem RESET_VECTOR" "guest_to_host RESET_VECTOR = 0" "(RESET_VECTOR + 4) mod 4 = 0"
  by (simp_all add: in_pmem_def guest_to_host_def config_defs)

lemma demo_ready: "ready default_config (demo i)"
  by (simp add: ready_def no_interrupt_disabled demo_bus reset_vector MSIZE_eq)

lemma demo_fetched: "fetched (demo i) = i"
  by (simp add: fetched_def reset_vector le_read_write_same)

text \<open>The machine with given register contents, control registers and RAM.\<close>

definition demo_regs :: "u32 \<Rightarrow> (nat \<Rightarrow> u32) \<Rightarrow> (nat \<Rightarrow> u32) \<Rightarrow> rv32" where
  "demo_regs i g cs = (demo i)\<lparr>gpr := g, csrs := cs\<rparr>"

lemma demo_regs_sel [simp]:
  "gpr (demo_regs i g cs) = g" "csrs (demo_regs i g cs) = cs" "pmem (demo_regs i g cs) = le_write (\<lambda>_. 0) 0 4 i"
  "d_pc (demo_regs i g cs) = RESET_VECTOR" "d_snpc (demo_regs i g cs) = RESET_VECTOR"
  "have_exc (demo_regs i g cs) = RISCV_EXCP_NONE" "cur_pri (demo_regs i g cs) = PRV_M" "amws (demo_regs i g cs) = []"
  "mmio_maps (demo_regs i g cs) = default_maps default_config" "io_space (demo_regs i g cs) = (\<lambda>_. 0)"
  by (simp_all add: demo_regs_def)

lemma demo_regs_ready: "cs 2 AND 8 = 0 \<Longrightarrow> ready default_config (demo_regs i g cs)"
  using demo_bus by (simp add: ready_def no_interrupt_disabled bus_ok_def reset_vector MSIZE_eq)

lemma demo_regs_fetched: "fetched (demo_regs i g cs) = i"
  by (simp add: fetched_def reset_vector le_read_write_same)

text \<open>Finding a pattern of the table for a given word.\<close>

lemma decode_word:
  assumes "(p, x) \<in> set (proper_table c)" and "mk_hit (pat_mk p) inst"
  shows "instpat_select (instpat_table c) inst = Inr (Some x)"
proof -
  have "pat_ok p" using table_ok [of c] assms(1) by (auto simp: instpat_table_split list_all_iff)
  then have "pat_spec p inst"
    using assms(2) pat_spec_iff_mask_key [of p inst] by (simp add: mk_hit_def pat_mk_def pat_ok_def)
  then show ?thesis by (rule decode_by_pattern [OF assms(1)])
qed

lemma base_in_table: "x \<in> set instpat_base \<Longrightarrow> x \<in> set (proper_table c)"
  by (simp add: proper_table_def instpat_table_def butlast_append instpat_inv_def)

lemma decode_base:
  assumes "(p, x) \<in> set instpat_base" and "mk_hit (pat_mk p) inst"
  shows "instpat_select (instpat_table c) inst = Inr (Some x)"
  by (rule decode_word [OF base_in_table [OF assms(1)] assms(2)])

lemma demo_decode:
  "instpat_select (instpat_table c) 0x00500093 = Inr (Some (TYPE_I, Alu ADDI))"
  "instpat_select (instpat_table c) 0x00208463 = Inr (Some (TYPE_B, Branch BEQ))"
  "instpat_select (instpat_table c) 0x0000a103 = Inr (Some (TYPE_I, Load LW))"
  "instpat_select (instpat_table c) 0x0020a023 = Inr (Some (TYPE_S, Store SW))"
  "instpat_select (instpat_table c) 0 = Inr (Some (TYPE_N, Inv))"
proof -
  show "instpat_select (instpat_table c) 0x00500093 = Inr (Some (TYPE_I, Alu ADDI))"
    by (rule decode_base [of "''??????? ????? ????? 000 ????? 00100 11''"]) (simp add: instpat_base_def, code_simp)
  show "instpat_select (instpat_table c) 0x00208463 = Inr (Some (TYPE_B, Branch BEQ))"
    by (rule decode_base [of "''??????? ????? ????? 000 ????? 11000 11''"]) (simp add: instpat_base_def, code_simp)
  show "instpat_select (instpat_table c) 0x0000a103 = Inr (Some (TYPE_I, Load LW))"
    by (rule decode_base [of "''??????? ????? ????? 010 ????? 00000 11''"]) (simp add: instpat_base_def, code_simp)
  show "instpat_select (instpat_table c) 0x0020a023 = Inr (Some (TYPE_S, Store SW))"
    by (rule decode_base [of "''??????? ????? ????? 010 ????? 01000 11''"]) (simp add: instpat_base_def, code_simp)
  have "(''0000000 00000 00000 000 00000 00000 00'', TYPE_N, Inv) \<in> set (proper_table c)"
    by (simp add: proper_table_def instpat_table_def butlast_append instpat_inv_def)
  then show "instpat_select (instpat_table c) 0 = Inr (Some (TYPE_N, Inv))"
    by (rule decode_word) code_simp
qed

end
