(* ===== verification/MiniRv32.thy ===== *)
theory MiniRv32
  imports CpuBits HostMem DevState "HOL-Library.Signed_Division"
begin

text \<open>
  The mini-rv32ima reference, \<^verbatim>\<open>tools/rv32ima-diff/include/mini-rv32ima.h\<close>. The C structure
  \<^verbatim>\<open>MiniRV32IMAState\<close> is placed in the last 192 bytes of the RAM image, so the guest can overwrite it; the
  model keeps it there: a field is a word of the image. The switch over the opcode is one definition
  per case.
\<close>

unbundle bit_operations_syntax

section \<open>State\<close>

text \<open>
  The statics of \<^verbatim>\<open>mini-rv32ima.c\<close>: the image, its size, the options, and the run control; \<open>mi_out\<close>
  and \<open>mi_calls\<close> are what was printed and the number of host calls made.
\<close>

record mini =
  image :: bytes
  ram_amt :: u32
  fail_on_all_faults :: bool
  instct :: int
  show_help :: bool
  time_divisor :: u64
  fixed_update :: bool
  do_sleep :: bool
  single_step :: bool
  dtb_ptr :: u32
  image_file_name :: "string option"
  dtb_file_name :: "string option"
  kernel_command_line :: "string option"
  last_time :: u64
  instrs_per_flip :: u64
  mi_eofd :: bool
  mi_out :: "out_event list"
  mi_calls :: nat

definition MINIRV32_RAM_IMAGE_OFFSET :: u32 where "MINIRV32_RAM_IMAGE_OFFSET = 0x80000000"

text \<open>The fields of the structure, in its order: 32 registers, then the words below.\<close>

definition SIZEOF_STATE :: nat where "SIZEOF_STATE = 192"

definition f_pc :: nat where "f_pc = 32"
definition f_mstatus :: nat where "f_mstatus = 33"
definition f_cyclel :: nat where "f_cyclel = 34"
definition f_cycleh :: nat where "f_cycleh = 35"
definition f_timerl :: nat where "f_timerl = 36"
definition f_timerh :: nat where "f_timerh = 37"
definition f_timermatchl :: nat where "f_timermatchl = 38"
definition f_timermatchh :: nat where "f_timermatchh = 39"
definition f_mscratch :: nat where "f_mscratch = 40"
definition f_mtvec :: nat where "f_mtvec = 41"
definition f_mie :: nat where "f_mie = 42"
definition f_mip :: nat where "f_mip = 43"
definition f_mepc :: nat where "f_mepc = 44"
definition f_mtval :: nat where "f_mtval = 45"
definition f_mcause :: nat where "f_mcause = 46"
definition f_extraflags :: nat where "f_extraflags = 47"

lemmas field_defs = f_pc_def f_mstatus_def f_cyclel_def f_cycleh_def f_timerl_def f_timerh_def
  f_timermatchl_def f_timermatchh_def f_mscratch_def f_mtvec_def f_mie_def f_mip_def f_mepc_def f_mtval_def
  f_mcause_def f_extraflags_def

definition core_at :: "mini \<Rightarrow> nat \<Rightarrow> nat" where
  "core_at s i = unat (ram_amt s) - SIZEOF_STATE + 4 * i"

definition CSR :: "nat \<Rightarrow> mini \<Rightarrow> u32" where
  "CSR f s = le_read (image s) (core_at s f) 4"

definition SETCSR :: "nat \<Rightarrow> u32 \<Rightarrow> mini \<Rightarrow> mini" where
  "SETCSR f v s = s\<lparr>image := le_write (image s) (core_at s f) 4 v\<rparr>"

definition REG :: "u32 \<Rightarrow> mini \<Rightarrow> u32" where
  "REG r s = CSR (unat r) s"

definition REGSET :: "u32 \<Rightarrow> u32 \<Rightarrow> mini \<Rightarrow> mini" where
  "REGSET r v s = SETCSR (unat r) v s"

text \<open>\<^verbatim>\<open>MINIRV32_LOAD\<close> and \<^verbatim>\<open>MINIRV32_STORE\<close> with the width; the buffer has \<^verbatim>\<open>ram_amt\<close> bytes.\<close>

definition mini_load :: "nat \<Rightarrow> u32 \<Rightarrow> mini \<Rightarrow> u32 res" where
  "mini_load n ofs s = bindE (in_object (unat (ram_amt s)) (unat ofs) n) (\<lambda>_. Inr (le_read (image s) (unat ofs) n))"

definition mini_store :: "nat \<Rightarrow> u32 \<Rightarrow> u32 \<Rightarrow> mini \<Rightarrow> mini res" where
  "mini_store n ofs v s = bindE (in_object (unat (ram_amt s)) (unat ofs) n)
     (\<lambda>_. Inr (s\<lparr>image := le_write (image s) (unat ofs) n v\<rparr>))"

definition mi_emit :: "out_event \<Rightarrow> mini \<Rightarrow> mini" where
  "mi_emit ev s = s\<lparr>mi_out := mi_out s @ [ev]\<rparr>"

definition mi_host :: "(nat \<Rightarrow> 'r) \<Rightarrow> mini \<Rightarrow> 'r \<times> mini" where
  "mi_host f s = (f (mi_calls s), s\<lparr>mi_calls := Suc (mi_calls s)\<rparr>)"

section \<open>Terminal\<close>

text \<open>\<^verbatim>\<open>ReadKBByte\<close> returns the \<^verbatim>\<open>char\<close>, sign-extended, or -1.\<close>

definition mini_ReadKBByte :: "host_env \<Rightarrow> mini \<Rightarrow> u32 \<times> mini" where
  "mini_ReadKBByte E s =
     (if mi_eofd s then (0xffffffff, s)
      else case mi_host (env_stdin E) s of
        (Some ch, s1) \<Rightarrow> (scast ch, s1)
      | (None, s1) \<Rightarrow> (- 1, s1))"

definition mini_IsKBHit :: "host_env \<Rightarrow> mini \<Rightarrow> u32 \<times> mini" where
  "mini_IsKBHit E s =
     (if mi_eofd s then (- 1, s)
      else case mi_host (env_bytes_waiting E) s of (waiting, s1) \<Rightarrow>
        if waiting then (1, s1)
        else case mi_host (env_stdin_open E) s1 of (ok, s2) \<Rightarrow>
          if \<not> ok then (- 1, s2\<lparr>mi_eofd := True\<rparr>) else (0, s2))"

definition HandleControlStore :: "u32 \<Rightarrow> u32 \<Rightarrow> mini \<Rightarrow> u32 \<times> mini" where
  "HandleControlStore addy val s =
     (0, if addy = 0x10000000 then mi_emit (OutChar (ucast val)) s else s)"

definition HandleControlLoad :: "host_env \<Rightarrow> u32 \<Rightarrow> mini \<Rightarrow> u32 \<times> mini" where
  "HandleControlLoad E addy s =
     (if addy = 0x10000005 then (case mini_IsKBHit E s of (k, s1) \<Rightarrow> (0x60 OR k, s1))
      else if addy = 0x10000000 then
        (case mini_IsKBHit E s of (k, s1) \<Rightarrow> if k \<noteq> 0 then mini_ReadKBByte E s1 else (0, s1))
      else (0, s))"

text \<open>The string a guest prints through CSR 0x138: up to the first zero or the end of RAM.\<close>

definition guest_string :: "mini \<Rightarrow> u32 \<Rightarrow> u8 list" where
  "guest_string s ptr = takeWhile (\<lambda>b. b \<noteq> 0) (map (image s) [unat ptr..<unat (ram_amt s)])"

definition HandleOtherCSRWrite :: "u32 \<Rightarrow> u32 \<Rightarrow> mini \<Rightarrow> mini" where
  "HandleOtherCSRWrite csrno value s =
     (let s1 = (if csrno = 0x136 then mi_emit (OutLine ''%d'' [] [sint value]) s else s) in
      if csrno = 0x137 then mi_emit (OutLine ''%08x'' [] [uint value]) s1
      else if csrno = 0x138 then
        (let ptr = value - MINIRV32_RAM_IMAGE_OFFSET;
             s2 = (if ptr \<ge> ram_amt s1 then mi_emit (OutLine ''DEBUG PASSED INVALID PTR (%08x)'' [] [uint value]) s1 else s1)
         in s2\<lparr>mi_out := mi_out s2 @ map OutChar (guest_string s2 ptr)\<rparr>)
      else if csrno = 0x139 then mi_emit (OutChar (ucast value)) s1
      else s1)"

definition HandleOtherCSRRead :: "host_env \<Rightarrow> u32 \<Rightarrow> mini \<Rightarrow> u32 \<times> mini" where
  "HandleOtherCSRRead E csrno s =
     (if csrno = 0x140 then
        (case mini_IsKBHit E s of (k, s1) \<Rightarrow> if k = 0 then (- 1, s1) else mini_ReadKBByte E s1)
      else (0, s))"

section \<open>One instruction\<close>

text \<open>
  The locals a case of the switch leaves behind: \<^verbatim>\<open>pc\<close>, \<^verbatim>\<open>rval\<close>, \<^verbatim>\<open>rdid\<close> and \<^verbatim>\<open>trap\<close>; \<open>Ret\<close> is a
  \<^verbatim>\<open>return\<close> out of the step.
\<close>

record locals =
  l_pc :: u32
  l_rval :: u32
  l_rdid :: u32
  l_trap :: u32

datatype 's flow = Go 's mini | Ret u32 mini

definition imm12 :: "u32 \<Rightarrow> u32" where
  "imm12 ir = (let imm = drop_bit 20 ir in imm OR (if imm AND 0x800 \<noteq> 0 then 0xfffff000 else 0))"

definition rs1_of :: "u32 \<Rightarrow> mini \<Rightarrow> u32" where "rs1_of ir s = REG (drop_bit 15 ir AND 0x1f) s"
definition rs2_of :: "u32 \<Rightarrow> mini \<Rightarrow> u32" where "rs2_of ir s = REG (drop_bit 20 ir AND 0x1f) s"
definition funct3 :: "u32 \<Rightarrow> u32" where "funct3 ir = drop_bit 12 ir AND 0x7"

definition mini_jal :: "u32 \<Rightarrow> locals \<Rightarrow> locals" where
  "mini_jal ir l =
     (let rel = drop_bit 11 (ir AND 0x80000000) OR drop_bit 20 (ir AND 0x7fe00000) OR
                drop_bit 9 (ir AND 0x00100000) OR (ir AND 0x000ff000);
          rel = (if rel AND 0x00100000 \<noteq> 0 then rel OR 0xffe00000 else rel)
      in l\<lparr>l_rval := l_pc l + 4, l_pc := l_pc l + rel - 4\<rparr>)"

definition mini_jalr :: "u32 \<Rightarrow> mini \<Rightarrow> locals \<Rightarrow> locals" where
  "mini_jalr ir s l = l\<lparr>l_rval := l_pc l + 4, l_pc := ((rs1_of ir s + imm12 ir) AND NOT 1) - 4\<rparr>"

definition mini_branch :: "u32 \<Rightarrow> mini \<Rightarrow> locals \<Rightarrow> locals" where
  "mini_branch ir s l =
     (let imm = drop_bit 7 (ir AND 0xf00) OR drop_bit 20 (ir AND 0x7e000000) OR push_bit 4 (ir AND 0x80) OR
                push_bit 12 (drop_bit 31 ir);
          imm = (if imm AND 0x1000 \<noteq> 0 then imm OR 0xffffe000 else imm);
          rs1 = rs1_of ir s; rs2 = rs2_of ir s;
          target = l_pc l + imm - 4;
          l0 = l\<lparr>l_rdid := 0\<rparr>;
          take = (\<lambda>b. if b then l0\<lparr>l_pc := target\<rparr> else l0)
      in if funct3 ir = 0 then take (rs1 = rs2)
         else if funct3 ir = 1 then take (rs1 \<noteq> rs2)
         else if funct3 ir = 4 then take (rs1 <s rs2)
         else if funct3 ir = 5 then take (rs2 \<le>s rs1)
         else if funct3 ir = 6 then take (rs1 < rs2)
         else if funct3 ir = 7 then take (rs2 \<le> rs1)
         else l0\<lparr>l_trap := 2 + 1\<rparr>)"

definition mini_load_op :: "host_env \<Rightarrow> u32 \<Rightarrow> mini \<Rightarrow> locals \<Rightarrow> locals flow res" where
  "mini_load_op E ir s l =
     (let a = rs1_of ir s + imm12 ir; ofs = a - MINIRV32_RAM_IMAGE_OFFSET;
          give = (\<lambda>f r. bindE r (\<lambda>v. Inr (Go (l\<lparr>l_rval := f v\<rparr>) s)))
      in if ofs \<ge> ram_amt s - 3 then
           (if 0x10000000 \<le> a \<and> a < 0x12000000 then
              (if a = 0x1100bffc then Inr (Go (l\<lparr>l_rval := CSR f_timerh s\<rparr>) s)
               else if a = 0x1100bff8 then Inr (Go (l\<lparr>l_rval := CSR f_timerl s\<rparr>) s)
               else (case HandleControlLoad E a s of (v, s1) \<Rightarrow> Inr (Go (l\<lparr>l_rval := v\<rparr>) s1)))
            else Inr (Go (l\<lparr>l_trap := 5 + 1, l_rval := a\<rparr>) s))
         else if funct3 ir = 0 then give (signed_take_bit 7) (mini_load 1 ofs s)
         else if funct3 ir = 1 then give (signed_take_bit 15) (mini_load 2 ofs s)
         else if funct3 ir = 2 then give id (mini_load 4 ofs s)
         else if funct3 ir = 4 then give id (mini_load 1 ofs s)
         else if funct3 ir = 5 then give id (mini_load 2 ofs s)
         else Inr (Go (l\<lparr>l_trap := 2 + 1\<rparr>) s))"

definition mini_store_op :: "u32 \<Rightarrow> mini \<Rightarrow> locals \<Rightarrow> locals flow res" where
  "mini_store_op ir s l =
     (let rs1 = rs1_of ir s; rs2 = rs2_of ir s;
          imm = (drop_bit 7 ir AND 0x1f) OR drop_bit 20 (ir AND 0xfe000000);
          imm = (if imm AND 0x800 \<noteq> 0 then imm OR 0xfffff000 else imm);
          ofs = imm + (rs1 - MINIRV32_RAM_IMAGE_OFFSET);
          l0 = l\<lparr>l_rdid := 0\<rparr>;
          a = ofs + MINIRV32_RAM_IMAGE_OFFSET;
          put = (\<lambda>n. bindE (mini_store n ofs rs2 s) (\<lambda>s1. Inr (Go l0 s1)))
      in if ofs \<ge> ram_amt s - 3 then
           (if 0x10000000 \<le> a \<and> a < 0x12000000 then
              (if a = 0x11004004 then Inr (Go l0 (SETCSR f_timermatchh rs2 s))
               else if a = 0x11004000 then Inr (Go l0 (SETCSR f_timermatchl rs2 s))
               else if a = 0x11100000 then Inr (Ret rs2 (SETCSR f_pc (l_pc l + 4) s))
               else (case HandleControlStore a rs2 s of (r, s1) \<Rightarrow>
                 Inr (if r \<noteq> 0 then Ret rs2 s1 else Go l0 s1)))
            else Inr (Go (l0\<lparr>l_trap := 7 + 1, l_rval := a\<rparr>) s))
         else if funct3 ir = 0 then put 1
         else if funct3 ir = 1 then put 2
         else if funct3 ir = 2 then put 4
         else Inr (Go (l0\<lparr>l_trap := 2 + 1\<rparr>) s))"

section \<open>Arithmetic\<close>

text \<open>The two inner switches of the cases 0x13 and 0x33; the C operators on \<^verbatim>\<open>int32_t\<close> truncate.\<close>

definition mini_muldiv :: "u32 \<Rightarrow> u32 \<Rightarrow> u32 \<Rightarrow> u32" where
  "mini_muldiv f3 rs1 rs2 =
     (if f3 = 0 then rs1 * rs2
      else if f3 = 1 then ucast (signed_drop_bit 32 ((scast rs1 :: u64) * scast rs2))
      else if f3 = 2 then ucast (drop_bit 32 ((scast rs1 :: u64) * ucast rs2))
      else if f3 = 3 then ucast (drop_bit 32 ((ucast rs1 :: u64) * ucast rs2))
      else if f3 = 4 then
        (if rs2 = 0 then - 1 else if rs1 = 0x80000000 \<and> rs2 = - 1 then rs1
         else word_of_int (sint rs1 sdiv sint rs2))
      else if f3 = 5 then (if rs2 = 0 then 0xffffffff else rs1 div rs2)
      else if f3 = 6 then
        (if rs2 = 0 then rs1 else if rs1 = 0x80000000 \<and> rs2 = - 1 then 0
         else word_of_int (sint rs1 smod sint rs2))
      else (if rs2 = 0 then rs1 else rs1 mod rs2))"

definition mini_arith :: "u32 \<Rightarrow> bool \<Rightarrow> u32 \<Rightarrow> u32 \<Rightarrow> u32" where
  "mini_arith ir is_reg rs1 rs2 =
     (let f3 = funct3 ir; alt = ir AND 0x40000000 \<noteq> 0; sh = unat (rs2 AND 0x1f) in
      if f3 = 0 then (if is_reg \<and> alt then rs1 - rs2 else rs1 + rs2)
      else if f3 = 1 then push_bit sh rs1
      else if f3 = 2 then of_bool (rs1 <s rs2)
      else if f3 = 3 then of_bool (rs1 < rs2)
      else if f3 = 4 then rs1 XOR rs2
      else if f3 = 5 then (if alt then signed_drop_bit sh rs1 else drop_bit sh rs1)
      else if f3 = 6 then rs1 OR rs2
      else rs1 AND rs2)"

definition mini_alu :: "u32 \<Rightarrow> mini \<Rightarrow> u32" where
  "mini_alu ir s =
     (let imm = imm12 ir; rs1 = rs1_of ir s; is_reg = (ir AND 0x20 \<noteq> 0);
          rs2 = (if is_reg then REG (imm AND 0x1f) s else imm)
      in if is_reg \<and> ir AND 0x02000000 \<noteq> 0 then mini_muldiv (funct3 ir) rs1 rs2
         else mini_arith ir is_reg rs1 rs2)"

section \<open>System instructions\<close>

definition csr_field :: "u32 \<Rightarrow> nat option" where
  "csr_field csrno =
     (if csrno = 0x340 then Some f_mscratch else if csrno = 0x305 then Some f_mtvec
      else if csrno = 0x304 then Some f_mie else if csrno = 0x344 then Some f_mip
      else if csrno = 0x341 then Some f_mepc else if csrno = 0x300 then Some f_mstatus
      else if csrno = 0x342 then Some f_mcause else if csrno = 0x343 then Some f_mtval else None)"

definition mini_csr_read :: "host_env \<Rightarrow> u32 \<Rightarrow> u32 \<Rightarrow> mini \<Rightarrow> u32 \<times> mini" where
  "mini_csr_read E cycle csrno s = (case csr_field csrno of
      Some f \<Rightarrow> (CSR f s, s)
    | None \<Rightarrow>
        if csrno = 0xC00 then (cycle, s)
        else if csrno = 0xf11 then (0xff0ff0ff, s)
        else if csrno = 0x301 then (0x40401101, s)
        else HandleOtherCSRRead E csrno s)"

definition mini_csr_new :: "u32 \<Rightarrow> u32 \<Rightarrow> u32 \<Rightarrow> u32 \<Rightarrow> u32" where
  "mini_csr_new microop rval rs1 rs1imm =
     (if microop = 1 then rs1 else if microop = 2 then rval OR rs1
      else if microop = 3 then rval AND NOT rs1 else if microop = 5 then rs1imm
      else if microop = 6 then rval OR rs1imm else if microop = 7 then rval AND NOT rs1imm else rs1)"

definition mini_csr_write :: "u32 \<Rightarrow> u32 \<Rightarrow> mini \<Rightarrow> mini" where
  "mini_csr_write csrno v s = (case csr_field csrno of
      Some f \<Rightarrow> SETCSR f v s
    | None \<Rightarrow> HandleOtherCSRWrite csrno v s)"

definition mini_mret :: "mini \<Rightarrow> locals \<Rightarrow> locals flow" where
  "mini_mret s l =
     (let ms = CSR f_mstatus s; ef = CSR f_extraflags s;
          s1 = SETCSR f_mstatus (drop_bit 4 (ms AND 0x80) OR push_bit 11 (ef AND 3) OR 0x80) s;
          s2 = SETCSR f_extraflags ((ef AND NOT 3) OR (drop_bit 11 ms AND 3)) s1
      in Go (l\<lparr>l_rdid := 0, l_pc := CSR f_mepc s2 - 4\<rparr>) s2)"

definition mini_wfi :: "mini \<Rightarrow> locals \<Rightarrow> locals flow" where
  "mini_wfi s l =
     (let s1 = SETCSR f_mstatus (CSR f_mstatus s OR 8) s;
          s2 = SETCSR f_extraflags (CSR f_extraflags s1 OR 4) s1
      in Ret 1 (SETCSR f_pc (l_pc l + 4) s2))"

definition mini_system :: "host_env \<Rightarrow> u32 \<Rightarrow> u32 \<Rightarrow> mini \<Rightarrow> locals \<Rightarrow> locals flow" where
  "mini_system E cycle ir s l =
     (let csrno = drop_bit 20 ir; microop = funct3 ir in
      if microop AND 3 \<noteq> 0 then
        (let rs1imm = drop_bit 15 ir AND 0x1f; rs1 = REG rs1imm s in
         case mini_csr_read E cycle csrno s of (rval, s1) \<Rightarrow>
           Go (l\<lparr>l_rval := rval\<rparr>) (mini_csr_write csrno (mini_csr_new microop rval rs1 rs1imm) s1))
      else if microop = 0 then
        (if csrno = 0x105 then mini_wfi s l
         else if csrno AND 0xff = 0x02 then mini_mret s l
         else if csrno = 0 then
           Go (l\<lparr>l_rdid := 0, l_trap := (if CSR f_extraflags s AND 3 \<noteq> 0 then 11 + 1 else 8 + 1)\<rparr>) s
         else if csrno = 1 then Go (l\<lparr>l_rdid := 0, l_trap := 3 + 1\<rparr>) s
         else Go (l\<lparr>l_rdid := 0, l_trap := 2 + 1\<rparr>) s)
      else Go (l\<lparr>l_trap := 2 + 1\<rparr>) s)"

section \<open>Atomics\<close>

text \<open>
  The value to store and whether to store it; \<open>sc_fails\<close> is the result of \<^verbatim>\<open>sc.w\<close>, which compares the
  remembered bits of the offset.
\<close>

definition sc_fails :: "u32 \<Rightarrow> mini \<Rightarrow> bool" where
  "sc_fails ofs s \<longleftrightarrow> drop_bit 3 (CSR f_extraflags s) \<noteq> ofs AND 0x1fffffff"

definition mini_amo_value :: "u32 \<Rightarrow> u32 \<Rightarrow> u32 \<Rightarrow> u32 option" where
  "mini_amo_value mid rval rs2 =
     (if mid = 1 then Some rs2 else if mid = 0 then Some (rs2 + rval)
      else if mid = 4 then Some (rs2 XOR rval) else if mid = 12 then Some (rs2 AND rval)
      else if mid = 8 then Some (rs2 OR rval)
      else if mid = 16 then Some (if rs2 <s rval then rs2 else rval)
      else if mid = 20 then Some (if rval <s rs2 then rs2 else rval)
      else if mid = 24 then Some (if rs2 < rval then rs2 else rval)
      else if mid = 28 then Some (if rval < rs2 then rs2 else rval) else None)"

definition mini_amo :: "u32 \<Rightarrow> mini \<Rightarrow> locals \<Rightarrow> locals flow res" where
  "mini_amo ir s l =
     (let ofs = rs1_of ir s - MINIRV32_RAM_IMAGE_OFFSET; rs2 = rs2_of ir s; mid = drop_bit 27 ir AND 0x1f in
      if ofs \<ge> ram_amt s - 3 then
        Inr (Go (l\<lparr>l_trap := 7 + 1, l_rval := ofs + MINIRV32_RAM_IMAGE_OFFSET\<rparr>) s)
      else
        bindE (mini_load 4 ofs s) (\<lambda>rval.
        if mid = 2 then
          Inr (Go (l\<lparr>l_rval := rval\<rparr>) (SETCSR f_extraflags ((CSR f_extraflags s AND 0x07) OR push_bit 3 ofs) s))
        else if mid = 3 then
          (if sc_fails ofs s then Inr (Go (l\<lparr>l_rval := 1\<rparr>) s)
           else bindE (mini_store 4 ofs rs2 s) (\<lambda>s1. Inr (Go (l\<lparr>l_rval := 0\<rparr>) s1)))
        else (case mini_amo_value mid rval rs2 of
            None \<Rightarrow> Inr (Go (l\<lparr>l_rval := rval, l_trap := 2 + 1\<rparr>) s)
          | Some v \<Rightarrow> bindE (mini_store 4 ofs v s) (\<lambda>s1. Inr (Go (l\<lparr>l_rval := rval\<rparr>) s1)))))"

section \<open>The step\<close>

definition mini_execute :: "host_env \<Rightarrow> u32 \<Rightarrow> u32 \<Rightarrow> mini \<Rightarrow> locals \<Rightarrow> locals flow res" where
  "mini_execute E cycle ir s l =
     (let opc = ir AND 0x7f in
      if opc = 0x37 then Inr (Go (l\<lparr>l_rval := ir AND 0xfffff000\<rparr>) s)
      else if opc = 0x17 then Inr (Go (l\<lparr>l_rval := l_pc l + (ir AND 0xfffff000)\<rparr>) s)
      else if opc = 0x6F then Inr (Go (mini_jal ir l) s)
      else if opc = 0x67 then Inr (Go (mini_jalr ir s l) s)
      else if opc = 0x63 then Inr (Go (mini_branch ir s l) s)
      else if opc = 0x03 then mini_load_op E ir s l
      else if opc = 0x23 then mini_store_op ir s l
      else if opc = 0x13 \<or> opc = 0x33 then Inr (Go (l\<lparr>l_rval := mini_alu ir s\<rparr>) s)
      else if opc = 0x0f then Inr (Go (l\<lparr>l_rdid := 0\<rparr>) s)
      else if opc = 0x73 then Inr (mini_system E cycle ir s l)
      else if opc = 0x2f then mini_amo ir s l
      else Inr (Go (l\<lparr>l_trap := 2 + 1\<rparr>) s))"

text \<open>
  The loop over \<^verbatim>\<open>count\<close> instructions; it carries \<^verbatim>\<open>cycle\<close>. A trap leaves it before the register is
  written and before \<^verbatim>\<open>pc += 4\<close>; \<^verbatim>\<open>MINIRV32_POSTEXEC\<close> only acts on a trap and so never does.
\<close>

fun mini_loop :: "host_env \<Rightarrow> nat \<Rightarrow> u32 \<Rightarrow> u32 \<Rightarrow> mini \<Rightarrow> (u32 \<times> locals) flow res" where
  "mini_loop E 0 cycle pc s = Inr (Go (cycle, \<lparr>l_pc = pc, l_rval = 0, l_rdid = 0, l_trap = 0\<rparr>) s)"
| "mini_loop E (Suc n) cycle pc s =
     (let cyc = cycle + 1; ofs_pc = pc - MINIRV32_RAM_IMAGE_OFFSET;
          l0 = \<lparr>l_pc = pc, l_rval = 0, l_rdid = 0, l_trap = 0\<rparr> in
      if ofs_pc \<ge> ram_amt s then Inr (Go (cyc, l0\<lparr>l_trap := 1 + 1\<rparr>) s)
      else if ofs_pc AND 3 \<noteq> 0 then Inr (Go (cyc, l0\<lparr>l_trap := 1 + 0\<rparr>) s)
      else bindE (mini_load 4 ofs_pc s) (\<lambda>ir.
        bindE (mini_execute E cyc ir s (l0\<lparr>l_rdid := drop_bit 7 ir AND 0x1f\<rparr>)) (\<lambda>fl. case fl of
            Ret v s1 \<Rightarrow> Inr (Ret v s1)
          | Go l s1 \<Rightarrow>
              if l_trap l \<noteq> 0 then Inr (Go (cyc, l) s1)
              else mini_loop E n cyc (l_pc l + 4)
                (if l_rdid l \<noteq> 0 then REGSET (l_rdid l) (l_rval l) s1 else s1))))"

definition mini_timer :: "u32 \<Rightarrow> mini \<Rightarrow> mini" where
  "mini_timer elapsedUs s =
     (let new_timer = CSR f_timerl s + elapsedUs;
          s1 = (if new_timer < CSR f_timerl s then SETCSR f_timerh (CSR f_timerh s + 1) s else s);
          s2 = SETCSR f_timerl new_timer s1
      in if (CSR f_timerh s2 > CSR f_timermatchh s2 \<or>
             (CSR f_timerh s2 = CSR f_timermatchh s2 \<and> CSR f_timerl s2 > CSR f_timermatchl s2)) \<and>
            (CSR f_timermatchh s2 \<noteq> 0 \<or> CSR f_timermatchl s2 \<noteq> 0)
         then (let s3 = SETCSR f_extraflags (CSR f_extraflags s2 AND NOT 4) s2
               in SETCSR f_mip (CSR f_mip s3 OR push_bit 7 1) s3)
         else SETCSR f_mip (CSR f_mip s2 AND NOT (push_bit 7 1)) s2)"

definition mini_trap :: "locals \<Rightarrow> mini \<Rightarrow> u32 \<times> mini" where
  "mini_trap l s0 =
     (let trap = l_trap l;
          s = mi_emit (OutLine ''trap 0x%08x'' [] [uint trap]) s0;
          (pc, s1) =
            (if trap AND 0x80000000 \<noteq> 0
             then (l_pc l + 4, SETCSR f_mtval 0 (SETCSR f_mcause trap s))
             else (l_pc l, SETCSR f_mtval (if trap > 5 \<and> trap \<le> 8 then l_rval l else l_pc l)
                     (SETCSR f_mcause (trap - 1) s)));
          s2 = SETCSR f_mepc pc s1;
          s3 = SETCSR f_mstatus (push_bit 4 (CSR f_mstatus s2 AND 0x08) OR push_bit 11 (CSR f_extraflags s2 AND 3)) s2;
          pc2 = CSR f_mtvec s3 - 4;
          s4 = SETCSR f_extraflags (CSR f_extraflags s3 OR 3) s3
      in (pc2 + 4, s4))"

definition MiniRV32IMAStep :: "host_env \<Rightarrow> u32 \<Rightarrow> nat \<Rightarrow> mini \<Rightarrow> (u32 \<times> mini) res" where
  "MiniRV32IMAStep E elapsedUs count s0 =
     (let s = mini_timer elapsedUs s0 in
      if CSR f_extraflags s AND 4 \<noteq> 0 then Inr (1, s)
      else
        bindE (if CSR f_mip s AND push_bit 7 1 \<noteq> 0 \<and> CSR f_mie s AND push_bit 7 1 \<noteq> 0 \<and> CSR f_mstatus s AND 0x8 \<noteq> 0
               then Inr (Go (CSR f_cyclel s, \<lparr>l_pc = CSR f_pc s - 4, l_rval = 0, l_rdid = 0, l_trap = 0x80000007\<rparr>) s)
               else mini_loop E count (CSR f_cyclel s) (CSR f_pc s) s) (\<lambda>fl. case fl of
            Ret v s1 \<Rightarrow> Inr (v, s1)
          | Go (cycle, l) s1 \<Rightarrow>
              (case (if l_trap l \<noteq> 0 then mini_trap l s1 else (l_pc l, s1)) of (pc, s2) \<Rightarrow>
                let s3 = (if CSR f_cyclel s2 > cycle then SETCSR f_cycleh (CSR f_cycleh s2 + 1) s2 else s2);
                    s4 = SETCSR f_pc pc (SETCSR f_cyclel cycle s3)
                in Inr (0, s4))))"

end
