(* ===== verification/MiniEquiv.thy ===== *)
theory MiniEquiv
  imports MiniRv32 RvArith RvDecode
begin

text \<open>
  The two RISC-V interpreters of the repository side by side: for the instructions both implement, the
  cases of the mini-rv32ima switch compute what the instruction table of the emulator computes.
\<close>

unbundle bit_operations_syntax

section \<open>Fields of an instruction word\<close>

lemma key_bits: "i AND M = K \<Longrightarrow> M AND n = n \<Longrightarrow> i AND n = K AND n" for i :: "'a::len word"
  by (metis and.assoc)

lemma and_bit_zero: "i AND 2 ^ n = 0 \<longleftrightarrow> \<not> bit i n" for i :: "'a::len word"
  by (simp add: and_exp_eq_0_iff_not_bit)

lemma funct3_and: "funct3 i = drop_bit 12 (i AND 0x7000)"
  by (simp add: funct3_def drop_bit_and)

lemma high_ones: "(0xfffff000 :: u32) = NOT (mask 12)" "(0xffffe000 :: u32) = NOT (mask 13)"
  "(0xffe00000 :: u32) = NOT (mask 21)"
  by (simp_all add: mask_eq_exp_minus_1)

lemma imm12_eq: "imm12 i = immI i"
proof (rule bit_word_eqI)
  fix n :: nat assume "n < LENGTH(32)"
  moreover have "drop_bit 20 i AND 0x800 \<noteq> 0 \<longleftrightarrow> bit i 31"
    using and_bit_zero [of "drop_bit 20 i" 11] by (simp add: bit_drop_bit_eq)
  ultimately show "bit (imm12 i) n = bit (immI i) n"
    unfolding imm12_def immI_def high_ones Let_def
    by (auto simp: bit_simps min_def dest: bit_imp_le_length)
qed

lemma BITS_low5: "BITS x 4 0 = x AND 0x1f" for x :: u32
proof -
  have "(0x1f :: u32) = mask 5" by (simp add: mask_eq_exp_minus_1)
  then show ?thesis by (simp only: BITS_def BITMASK_eq_mask) simp
qed

lemma reg_field: "drop_bit k i AND 0x1f = BITS i (k + 4) k" for i :: u32
proof -
  have "(0x1f :: u32) = mask 5" by (simp add: mask_eq_exp_minus_1)
  then show ?thesis by (simp only: BITS_def BITMASK_eq_mask) simp
qed

section \<open>Arithmetic instructions\<close>

definition alu_rows :: "((u32 \<times> u32) \<times> itype \<times> alu) list" where
  "alu_rows = [
    ((0x7f, 0x37), TYPE_U, LUI), ((0x7f, 0x17), TYPE_U, AUIPC),
    ((0x707f, 0x13), TYPE_I, ADDI), ((0x707f, 0x2013), TYPE_I, SLTI), ((0x707f, 0x3013), TYPE_I, SLTIU),
    ((0x707f, 0x4013), TYPE_I, XORI), ((0x707f, 0x6013), TYPE_I, ORI), ((0x707f, 0x7013), TYPE_I, ANDI),
    ((0xfe00707f, 0x5013), TYPE_I, SRLI), ((0xfe00707f, 0x40005013), TYPE_I, SRAI),
    ((0xfe00707f, 0x33), TYPE_R, ADD), ((0xfe00707f, 0x40000033), TYPE_R, SUB), ((0xfe00707f, 0x1033), TYPE_R, SLL),
    ((0xfe00707f, 0x2033), TYPE_R, SLT), ((0xfe00707f, 0x3033), TYPE_R, SLTU), ((0xfe00707f, 0x4033), TYPE_R, XORR),
    ((0xfe00707f, 0x5033), TYPE_R, SRL), ((0xfe00707f, 0x40005033), TYPE_R, SRA), ((0xfe00707f, 0x6033), TYPE_R, ORR),
    ((0xfe00707f, 0x7033), TYPE_R, ANDR), ((0xfe00707f, 0x2000033), TYPE_R, MUL), ((0xfe00707f, 0x2001033), TYPE_R, MULH),
    ((0xfe00707f, 0x2002033), TYPE_R, MULHSU), ((0xfe00707f, 0x2003033), TYPE_R, MULHU),
    ((0xfe00707f, 0x2004033), TYPE_R, DIV), ((0xfe00707f, 0x2005033), TYPE_R, DIVU), ((0xfe00707f, 0x2006033), TYPE_R, REM),
    ((0xfe00707f, 0x2007033), TYPE_R, REMU)]"

lemma base_alu_rows:
  "list_all (\<lambda>(p, ty, op). case op of Alu a \<Rightarrow> List.member alu_rows (pat_mk p, ty, a) | _ \<Rightarrow> True) instpat_base"
  unfolding instpat_base_def by code_simp

lemma no_alu_elsewhere:
  "(p, ty, Alu a) \<in> set (instpat_table c) \<Longrightarrow> (p, ty, Alu a) \<in> set instpat_base"
  by (auto simp: instpat_table_def instpat_rva_def instpat_zicsr_def instpat_zifencei_def instpat_inv_def
      split: if_splits)

lemma decode_hit:
  assumes "instpat_select (instpat_table c) inst = Inr (Some x)"
  shows "\<exists>p. (p, x) \<in> set (instpat_table c) \<and> mk_hit (pat_mk p) inst"
proof -
  from assms obtain mk where mk: "(mk, x) \<in> set (mk_table c)" "mk_hit mk inst"
    by (auto simp: instpat_select_table dest: select_mk_hit)
  then show ?thesis by (auto simp: mk_table_def)
qed

lemma alu_decoded:
  assumes "instpat_select (instpat_table c) i = Inr (Some (ty, Alu a))"
  shows "\<exists>M K. ((M, K), ty, a) \<in> set alu_rows \<and> i AND M = K"
proof -
  obtain p where p: "(p, ty, Alu a) \<in> set instpat_base" "mk_hit (pat_mk p) i"
    using decode_hit [OF assms] no_alu_elsewhere by blast
  obtain M K where mk: "pat_mk p = (M, K)" by (cases "pat_mk p")
  have "((M, K), ty, a) \<in> set alu_rows"
    using base_alu_rows p(1) mk by (auto simp: list_all_iff List.member_iff)
  then show ?thesis using p(2) mk by (auto simp: mk_hit_def)
qed

text \<open>The operands both sides read.\<close>

definition same_regs :: "(nat \<Rightarrow> u32) \<Rightarrow> mini \<Rightarrow> bool" where
  "same_regs g s \<longleftrightarrow> (\<forall>r<32. CSR r s = g r)"

lemma rs1_same: "same_regs (gpr m) s \<Longrightarrow> rs1_of i s = gpr m (unat (BITS i 19 15))"
  using unat_BITS_less [of i 19 15] by (simp add: rs1_of_def REG_def reg_field [of 15] same_regs_def)

lemma rs2_same: "same_regs (gpr m) s \<Longrightarrow> rs2_of i s = gpr m (unat (BITS i 24 20))"
  using unat_BITS_less [of i 24 20] by (simp add: rs2_of_def REG_def reg_field [of 20] same_regs_def)

lemma imm_low5: "imm12 i AND 0x1f = BITS i 24 20"
proof -
  have "imm12 i AND 0x1f = BITS (immI i) 4 0" by (simp only: imm12_eq BITS_low5)
  also have "\<dots> = BITS i 24 20"
    by (rule bit_word_eqI) (auto simp: immI_def bit_simps min_def)
  finally show ?thesis .
qed

lemma rs2_reg_same: "same_regs (gpr m) s \<Longrightarrow> REG (imm12 i AND 0x1f) s = gpr m (unat (BITS i 24 20))"
  using unat_BITS_less [of i 24 20] by (simp add: imm_low5 REG_def same_regs_def)

lemma immU_and: "i AND 0xfffff000 = immU i"
  unfolding high_ones immU_def by (rule bit_word_eqI) (auto simp: bit_simps min_def dest: bit_imp_le_length)

lemma shamt6: "i AND 0x2000000 = 0 \<Longrightarrow> BITS (immI i) 5 0 = immI i AND 0x1f"
proof -
  assume "i AND 0x2000000 = 0"
  then have "\<not> bit i 25" using and_bit_zero [of i 25] by simp
  then show ?thesis
    unfolding BITS_low5 [symmetric]
    by (intro bit_word_eqI) (auto simp: immI_def bit_simps min_def le_Suc_eq numeral_eq_Suc)
qed

lemma opcode_bit5: "i AND 0x20 = (i AND 0x7f) AND 0x20" for i :: u32
  by (simp add: and.assoc)

lemma execute_imm:
  assumes "i AND 0x7f = 0x13" and regs: "same_regs (gpr m) s"
  shows "mini_execute E cyc i s l = Inr (Go (l\<lparr>l_rval := mini_arith i False (gpr m (unat (BITS i 19 15))) (immI i)\<rparr>) s)"
  using opcode_bit5 [of i]
  by (simp add: assms(1) mini_execute_def mini_alu_def rs1_same [OF regs] imm12_eq Let_def)

lemma execute_reg:
  assumes "i AND 0x7f = 0x33" and "i AND 0x2000000 = 0" and regs: "same_regs (gpr m) s"
  shows "mini_execute E cyc i s l =
    Inr (Go (l\<lparr>l_rval := mini_arith i True (gpr m (unat (BITS i 19 15))) (gpr m (unat (BITS i 24 20)))\<rparr>) s)"
  using opcode_bit5 [of i]
  by (simp add: assms(1,2) mini_execute_def mini_alu_def rs1_same [OF regs] rs2_reg_same [OF regs] Let_def)

lemma execute_muldiv:
  assumes "i AND 0x7f = 0x33" and "i AND 0x2000000 \<noteq> 0" and regs: "same_regs (gpr m) s"
  shows "mini_execute E cyc i s l =
    Inr (Go (l\<lparr>l_rval := mini_muldiv (funct3 i) (gpr m (unat (BITS i 19 15))) (gpr m (unat (BITS i 24 20)))\<rparr>) s)"
  using opcode_bit5 [of i] assms(2)
  by (simp add: assms(1) mini_execute_def mini_alu_def rs1_same [OF regs] rs2_reg_same [OF regs] Let_def)

lemma operand_fields [simp]:
  "op_src1 (decode_operand i TYPE_I m) = gpr m (unat (BITS i 19 15))" "op_imm (decode_operand i TYPE_I m) = immI i"
  "op_src1 (decode_operand i TYPE_R m) = gpr m (unat (BITS i 19 15))"
  "op_src2 (decode_operand i TYPE_R m) = gpr m (unat (BITS i 24 20))"
  "op_imm (decode_operand i TYPE_U m) = immU i"
  by (simp_all add: decode_operand_def Let_def)

text \<open>What a row fixes of the fields the switch looks at.\<close>

lemma funct3_row: "i AND M = K \<Longrightarrow> M AND 0x7000 = 0x7000 \<Longrightarrow> funct3 i = drop_bit 12 (K AND 0x7000)"
  using key_bits [of i M K "0x7000"] by (simp only: funct3_and)

lemma alu_row_upper:
  "i AND 0x7f = 0x37 \<Longrightarrow> mini_execute E cyc i s l = Inr (Go (l\<lparr>l_rval := immU i\<rparr>) s)"
  "i AND 0x7f = 0x17 \<Longrightarrow> mini_execute E cyc i s l = Inr (Go (l\<lparr>l_rval := l_pc l + immU i\<rparr>) s)"
  by (simp_all add: mini_execute_def Let_def immU_and)

lemma row_imm:
  assumes "i AND M = K" "M AND 0x7f = 0x7f" "M AND 0x7000 = 0x7000" "K AND 0x7f = 0x13" "same_regs (gpr m) s"
  shows "mini_execute E cyc i s l = Inr (Go (l\<lparr>l_rval := mini_arith i False (gpr m (unat (BITS i 19 15))) (immI i)\<rparr>) s)
    \<and> funct3 i = drop_bit 12 (K AND 0x7000)"
  using execute_imm [OF _ assms(5)] funct3_row [OF assms(1,3)] key_bits [OF assms(1,2)] assms(4) by simp

lemma row_reg:
  assumes "i AND 0xfe00707f = K" "K AND 0x7f = 0x33" "same_regs (gpr m) s"
  shows "K AND 0x2000000 = 0 \<Longrightarrow> mini_execute E cyc i s l =
      Inr (Go (l\<lparr>l_rval := mini_arith i True (gpr m (unat (BITS i 19 15))) (gpr m (unat (BITS i 24 20)))\<rparr>) s)"
    and "K AND 0x2000000 \<noteq> 0 \<Longrightarrow> mini_execute E cyc i s l =
      Inr (Go (l\<lparr>l_rval := mini_muldiv (funct3 i) (gpr m (unat (BITS i 19 15))) (gpr m (unat (BITS i 24 20)))\<rparr>) s)"
    and "funct3 i = drop_bit 12 (K AND 0x7000)" and "i AND 0x40000000 = K AND 0x40000000"
  using execute_reg [OF _ _ assms(3)] execute_muldiv [OF _ _ assms(3)] funct3_row [OF assms(1)]
    key_bits [OF assms(1), of "0x7f"] key_bits [OF assms(1), of "0x2000000"] key_bits [OF assms(1), of "0x40000000"] assms(2)
  by simp_all

lemma mini_alu_row:
  assumes "((M, K), ty, a) \<in> set alu_rows" and hit: "i AND M = K" and regs: "same_regs (gpr m) s"
  shows "mini_execute E cyc i s l = Inr (Go (l\<lparr>l_rval := alu_result a (l_pc l) (decode_operand i ty m)\<rparr>) s)"
proof -
  have imm: ?thesis if "ty = TYPE_I" "((M, K), ty, a) \<in> set (take 8 alu_rows)"
    using that row_imm [OF hit _ _ _ regs, of E cyc l]
    by (auto simp: alu_rows_def mini_arith_def)
  have shift: ?thesis if "ty = TYPE_I" "((M, K), ty, a) \<in> set (drop 8 alu_rows)"
    using that row_imm [OF hit _ _ _ regs, of E cyc l] key_bits [OF hit, of "0x2000000"]
      key_bits [OF hit, of "0x40000000"] shamt6 [of i]
    by (auto simp: alu_rows_def mini_arith_def)
  have reg: ?thesis if "ty = TYPE_R"
    using that assms(1) row_reg(1,2) [of i K m s E cyc l] row_reg(3,4) [of i K m s] hit regs
    by (auto simp: alu_rows_def mini_arith_def mini_muldiv_def BITS_low5 XLEN_def)
  have upper: ?thesis if "ty = TYPE_U"
    using that assms(1) hit alu_row_upper [of i E cyc s l] by (auto simp: alu_rows_def)
  have "((M, K), ty, a) \<in> set (take 8 alu_rows) \<union> set (drop 8 alu_rows)"
    using assms(1) by (metis append_take_drop_id set_append)
  moreover have "ty \<in> {TYPE_I, TYPE_R, TYPE_U}" using assms(1) by (auto simp: alu_rows_def)
  ultimately show ?thesis using imm shift reg upper by blast
qed

section \<open>Jumps and branches\<close>

fun branch_code :: "branch \<Rightarrow> u32" where
  "branch_code BEQ = 0" | "branch_code BNE = 1" | "branch_code BLT = 4" | "branch_code BGE = 5"
| "branch_code BLTU = 6" | "branch_code BGEU = 7"

lemma base_branch_rows:
  "list_all (\<lambda>(p, ty, op). case op of
      Branch b \<Rightarrow> ty = TYPE_B \<and> pat_mk p = (0x707f, push_bit 12 (branch_code b) OR 0x63)
    | Jal \<Rightarrow> ty = TYPE_J \<and> pat_mk p = (0x7f, 0x6f)
    | Jalr \<Rightarrow> ty = TYPE_I \<and> pat_mk p = (0x707f, 0x67)
    | _ \<Rightarrow> True) instpat_base"
  unfolding instpat_base_def by code_simp

lemma control_decoded:
  assumes "instpat_select (instpat_table c) i = Inr (Some (ty, op))"
  shows "op = Branch b \<Longrightarrow> ty = TYPE_B \<and> i AND 0x707f = push_bit 12 (branch_code b) OR 0x63"
    and "op = Jal \<Longrightarrow> ty = TYPE_J \<and> i AND 0x7f = 0x6f"
    and "op = Jalr \<Longrightarrow> ty = TYPE_I \<and> i AND 0x707f = 0x67"
proof -
  obtain p where p: "(p, ty, op) \<in> set (instpat_table c)" "mk_hit (pat_mk p) i"
    using decode_hit [OF assms] by blast
  have base: "(p, ty, op) \<in> set instpat_base" if "op \<in> {Branch b, Jal, Jalr}"
    using p(1) that
    by (auto simp: instpat_table_def instpat_rva_def instpat_zicsr_def instpat_zifencei_def instpat_inv_def
        split: if_splits)
  show "op = Branch b \<Longrightarrow> ty = TYPE_B \<and> i AND 0x707f = push_bit 12 (branch_code b) OR 0x63"
    "op = Jal \<Longrightarrow> ty = TYPE_J \<and> i AND 0x7f = 0x6f" "op = Jalr \<Longrightarrow> ty = TYPE_I \<and> i AND 0x707f = 0x67"
    using base base_branch_rows p(2) by (auto simp: list_all_iff mk_hit_def)
qed

lemma field_bits:
  "bit (0xf00 :: u32) n \<longleftrightarrow> 8 \<le> n \<and> n < 12" "bit (0x7e000000 :: u32) n \<longleftrightarrow> 25 \<le> n \<and> n < 31"
  "bit (0x80 :: u32) n \<longleftrightarrow> n = 7" "bit (0x80000000 :: u32) n \<longleftrightarrow> n = 31"
  "bit (0x7fe00000 :: u32) n \<longleftrightarrow> 21 \<le> n \<and> n < 31" "bit (0x00100000 :: u32) n \<longleftrightarrow> n = 20"
  "bit (0x000ff000 :: u32) n \<longleftrightarrow> 12 \<le> n \<and> n < 20"
proof -
  have "(0xf00 :: u32) = field 8 4" "(0x7e000000 :: u32) = field 25 6" "(0x80 :: u32) = field 7 1"
    "(0x80000000 :: u32) = field 31 1" "(0x7fe00000 :: u32) = field 21 10" "(0x00100000 :: u32) = field 20 1"
    "(0x000ff000 :: u32) = field 12 8"
    by (simp_all add: field_def mask_eq_exp_minus_1)
  then show "bit (0xf00 :: u32) n \<longleftrightarrow> 8 \<le> n \<and> n < 12" "bit (0x7e000000 :: u32) n \<longleftrightarrow> 25 \<le> n \<and> n < 31"
    "bit (0x80 :: u32) n \<longleftrightarrow> n = 7" "bit (0x80000000 :: u32) n \<longleftrightarrow> n = 31"
    "bit (0x7fe00000 :: u32) n \<longleftrightarrow> 21 \<le> n \<and> n < 31" "bit (0x00100000 :: u32) n \<longleftrightarrow> n = 20"
    "bit (0x000ff000 :: u32) n \<longleftrightarrow> 12 \<le> n \<and> n < 20"
    by (simp_all only: bit_field_iff) auto
qed

definition mini_immB :: "u32 \<Rightarrow> u32" where
  "mini_immB ir =
     (let imm = drop_bit 7 (ir AND 0xf00) OR drop_bit 20 (ir AND 0x7e000000) OR push_bit 4 (ir AND 0x80) OR
                push_bit 12 (drop_bit 31 ir)
      in if imm AND 0x1000 \<noteq> 0 then imm OR 0xffffe000 else imm)"

definition branch_imm_bit :: "u32 \<Rightarrow> nat \<Rightarrow> bool" where
  "branch_imm_bit i n \<longleftrightarrow> (1 \<le> n \<and> n < 5 \<and> bit i (n + 7)) \<or> (5 \<le> n \<and> n < 11 \<and> bit i (n + 20)) \<or>
      (n = 11 \<and> bit i 7) \<or> (n = 12 \<and> bit i 31)"

lemma bit_immB: "bit (immB i) n \<longleftrightarrow> n < 32 \<and> branch_imm_bit i (min n 12)"
proof -
  have k: "bit (push_bit 12 (BITS i 31 31) OR push_bit 11 (BITS i 7 7) OR push_bit 5 (BITS i 30 25) OR
      push_bit 1 (BITS i 11 8)) k \<longleftrightarrow> branch_imm_bit i k" if "k \<le> 12" for k
  proof -
    from that consider "k = 0" | "1 \<le> k" "k \<le> 4" | "5 \<le> k" "k \<le> 10" | "k = 11" | "k = 12" by linarith
    then show ?thesis
      by cases (simp_all only: branch_imm_bit_def imm_bits, auto simp: add.commute)
  qed
  show ?thesis using k [of "min n 12"] by (simp add: immB_def bit_SEXT_iff)
qed

lemma bit_mini_immB:
  assumes "n < 32"
  shows "bit (mini_immB i) n \<longleftrightarrow> branch_imm_bit i (min n 12)"
proof -
  define w where "w = drop_bit 7 (i AND 0xf00) OR drop_bit 20 (i AND 0x7e000000) OR push_bit 4 (i AND 0x80) OR
                push_bit 12 (drop_bit 31 i)"
  have low: "bit w k \<longleftrightarrow> branch_imm_bit i k" if "k < 32" for k
  proof -
    from that consider "k = 0" | "1 \<le> k" "k \<le> 4" | "5 \<le> k" "k \<le> 10" | "k = 11" | "k = 12" | "13 \<le> k" by linarith
    then show ?thesis
      by cases (simp_all only: w_def branch_imm_bit_def bit_or_iff bit_push_bit_iff bit_drop_bit_eq bit_and_iff
        field_bits comp_apply, auto simp: add.commute dest: bit_imp_le_length)
  qed
  have sign: "w AND 0x1000 \<noteq> 0 \<longleftrightarrow> bit i 31"
    using and_bit_zero [of w 12] low [of 12] by (simp add: branch_imm_bit_def)
  have "mini_immB i = (if bit i 31 then w OR 0xffffe000 else w)"
    by (simp only: mini_immB_def w_def [symmetric] Let_def sign)
  then have "bit (mini_immB i) n \<longleftrightarrow> branch_imm_bit i n \<or> (bit i 31 \<and> 13 \<le> n)"
    using low [OF assms] assms by (auto simp: high_ones bit_or_iff bit_not_iff bit_mask_iff)
  also have "\<dots> \<longleftrightarrow> branch_imm_bit i (min n 12)"
    by (auto simp: branch_imm_bit_def min_def)
  finally show ?thesis .
qed

lemma mini_immB_eq: "mini_immB i = immB i"
  by (rule bit_word_eqI) (simp add: bit_immB bit_mini_immB)

text \<open>A branch with an aligned target: the program counters agree after the \<^verbatim>\<open>pc += 4\<close> of the loop.\<close>

lemma mini_branch_row:
  assumes hit: "i AND 0x707f = push_bit 12 (branch_code b) OR 0x63"
    and regs: "same_regs (gpr m) s" and pc: "l_pc l = d_pc m" "d_dnpc m = d_pc m + 4"
    and target: "(d_pc m + SEXT (immB i) 13) mod 4 = 0"
  shows "mini_execute E cyc i s l = Inr (Go (l\<lparr>l_rdid := 0, l_pc := d_dnpc (exec_branch b (decode_operand i TYPE_B m) m) - 4\<rparr>) s)"
proof -
  have opc: "i AND 0x7f = 0x63" using key_bits [OF hit, of "0x7f"] by (cases b) simp_all
  have f3: "funct3 i = branch_code b" using funct3_row [OF hit] by (cases b) simp_all
  have imm: "SEXT (immB i) 13 = immB i"
    by (rule bit_word_eqI) (auto simp: bit_SEXT_iff bit_immB min_def)
  have "mini_branch i s l = l\<lparr>l_rdid := 0, l_pc := (if branch_taken b (gpr m (unat (BITS i 19 15))) (gpr m (unat (BITS i 24 20)))
      then d_pc m + immB i - 4 else d_pc m)\<rparr>"
    unfolding mini_branch_def mini_immB_def [symmetric, unfolded Let_def] Let_def f3 rs1_same [OF regs] rs2_same [OF regs]
      mini_immB_eq pc(1)
    by (cases b) (simp_all add: pc(1) [symmetric])
  then show ?thesis
    using target pc(2)
    by (simp add: mini_execute_def opc Let_def exec_branch_def dnpc_and_check_def decode_operand_def imm)
qed

section \<open>One round of the loop\<close>

lemma CSR_SETCSR: "CSR f (SETCSR g v s) = (if f = g then v else CSR f s)"
proof (cases "f = g")
  case True
  then show ?thesis
    by (simp add: CSR_def SETCSR_def core_at_def le_read_write_same)
next
  case False
  then have "core_at s g + 4 \<le> core_at s f \<or> core_at s f + 4 \<le> core_at s g"
    by (auto simp: core_at_def)
  then show ?thesis
    using False by (simp add: CSR_def SETCSR_def core_at_def le_read_write_other)
qed

lemma SETCSR_sel [simp]: "ram_amt (SETCSR f v s) = ram_amt s"
  by (simp add: SETCSR_def)

text \<open>The instruction the reference fetches at an address of its RAM.\<close>

definition mini_fetches :: "u32 \<Rightarrow> u32 \<Rightarrow> mini \<Rightarrow> bool" where
  "mini_fetches pc i s \<longleftrightarrow>
     (let ofs = pc - MINIRV32_RAM_IMAGE_OFFSET in
      unat ofs + 4 \<le> unat (ram_amt s) \<and> ofs AND 3 = 0 \<and> le_read (image s) (unat ofs) 4 = i)"

lemma mini_loop_one:
  assumes fetch: "mini_fetches pc i s"
    and exec: "mini_execute E (cycle + 1) i s \<lparr>l_pc = pc, l_rval = 0, l_rdid = drop_bit 7 i AND 0x1f, l_trap = 0\<rparr> =
      Inr (Go l s1)" and "l_trap l = 0"
  shows "mini_loop E (Suc n) cycle pc s =
    mini_loop E n (cycle + 1) (l_pc l + 4) (if l_rdid l \<noteq> 0 then REGSET (l_rdid l) (l_rval l) s1 else s1)"
proof -
  define ofs where "ofs = pc - MINIRV32_RAM_IMAGE_OFFSET"
  have o: "unat ofs + 4 \<le> unat (ram_amt s)" "ofs AND 3 = 0" "le_read (image s) (unat ofs) 4 = i"
    using fetch by (simp_all add: mini_fetches_def ofs_def Let_def)
  have "\<not> ofs \<ge> ram_amt s" using o(1) by (simp add: word_le_nat_alt)
  then show ?thesis
    using o exec assms(3)
    by (simp add: Let_def ofs_def [symmetric] mini_load_def)
qed

lemma same_regs_write:
  assumes "same_regs g s" and "r < 32" and "g 0 = 0"
  shows "same_regs ((g(unat r := v))(0 := 0)) (if r \<noteq> 0 then REGSET r v s else s)"
  using assms by (auto simp: same_regs_def REGSET_def CSR_SETCSR unat_eq_0)

end
