(* ===== verification/MiniEquivMem.thy ===== *)
theory MiniEquivMem
  imports MiniEquiv
begin

text \<open>
  The two interpreters on the remaining instructions of a straight program: shifts by an immediate,
  jumps, loads and stores in RAM, and fences.
\<close>

unbundle bit_operations_syntax

section \<open>Decoding\<close>

fun load_code :: "load \<Rightarrow> u32" where
  "load_code LB = 0" | "load_code LH = 1" | "load_code LW = 2" | "load_code LBU = 4" | "load_code LHU = 5"

fun store_code :: "store \<Rightarrow> u32" where
  "store_code SB = 0" | "store_code SH = 1" | "store_code SW = 2"

definition memory_row :: "itype \<Rightarrow> op \<Rightarrow> u32 \<times> u32 \<Rightarrow> bool" where
  "memory_row ty op mk \<longleftrightarrow> (case op of
      Load ld \<Rightarrow> ty = TYPE_I \<and> mk = (0x707f, push_bit 12 (load_code ld) OR 0x03)
    | Store st \<Rightarrow> ty = TYPE_S \<and> mk = (0x707f, push_bit 12 (store_code st) OR 0x23)
    | Slli \<Rightarrow> ty = TYPE_I \<and> mk = (0xfc00707f, 0x1013)
    | _ \<Rightarrow> True)"

lemma base_memory_rows: "list_all (\<lambda>(p, ty, op). memory_row ty op (pat_mk p)) instpat_base"
  unfolding instpat_base_def by code_simp

lemma memory_decoded:
  assumes "instpat_select (instpat_table c) i = Inr (Some (ty, op))"
  shows "op = Load ld \<Longrightarrow> ty = TYPE_I \<and> i AND 0x707f = push_bit 12 (load_code ld) OR 0x03"
    and "op = Store st \<Longrightarrow> ty = TYPE_S \<and> i AND 0x707f = push_bit 12 (store_code st) OR 0x23"
    and "op = Slli \<Longrightarrow> ty = TYPE_I \<and> i AND 0xfc00707f = 0x1013"
proof -
  obtain p where p: "(p, ty, op) \<in> set (instpat_table c)" "mk_hit (pat_mk p) i"
    using decode_hit [OF assms] by blast
  obtain M K where mk: "pat_mk p = (M, K)" by (cases "pat_mk p")
  then have hit: "i AND M = K" using p(2) by (simp add: mk_hit_def)
  have row: "memory_row ty op (M, K)" if "op \<in> {Load ld, Store st, Slli}"
  proof -
    have "(p, ty, op) \<in> set instpat_base"
      using p(1) that
      by (auto simp: instpat_table_def instpat_rva_def instpat_zicsr_def instpat_zifencei_def instpat_inv_def split: if_splits)
    then show ?thesis using base_memory_rows mk unfolding list_all_iff by fastforce
  qed
  show "op = Load ld \<Longrightarrow> ty = TYPE_I \<and> i AND 0x707f = push_bit 12 (load_code ld) OR 0x03"
    "op = Store st \<Longrightarrow> ty = TYPE_S \<and> i AND 0x707f = push_bit 12 (store_code st) OR 0x23"
    "op = Slli \<Longrightarrow> ty = TYPE_I \<and> i AND 0xfc00707f = 0x1013"
    using row hit by (auto simp: memory_row_def)
qed

section \<open>Immediates\<close>

definition mini_immS :: "u32 \<Rightarrow> u32" where
  "mini_immS ir =
     (let imm = (drop_bit 7 ir AND 0x1f) OR drop_bit 20 (ir AND 0xfe000000)
      in if imm AND 0x800 \<noteq> 0 then imm OR 0xfffff000 else imm)"

definition mini_immJ :: "u32 \<Rightarrow> u32" where
  "mini_immJ ir =
     (let rel = drop_bit 11 (ir AND 0x80000000) OR drop_bit 20 (ir AND 0x7fe00000) OR
                drop_bit 9 (ir AND 0x00100000) OR (ir AND 0x000ff000)
      in if rel AND 0x00100000 \<noteq> 0 then rel OR 0xffe00000 else rel)"

definition store_imm_bit :: "u32 \<Rightarrow> nat \<Rightarrow> bool" where
  "store_imm_bit i n \<longleftrightarrow> (n < 5 \<and> bit i (n + 7)) \<or> (5 \<le> n \<and> n < 12 \<and> bit i (n + 20))"

definition jump_imm_bit :: "u32 \<Rightarrow> nat \<Rightarrow> bool" where
  "jump_imm_bit i n \<longleftrightarrow> (1 \<le> n \<and> n < 11 \<and> bit i (n + 20)) \<or> (n = 11 \<and> bit i 20) \<or>
     (12 \<le> n \<and> n < 20 \<and> bit i n) \<or> (n = 20 \<and> bit i 31)"

lemma high7_bits: "bit (0xfe000000 :: u32) n \<longleftrightarrow> 25 \<le> n \<and> n < 32"
proof -
  have "(0xfe000000 :: u32) = field 25 7" by (simp add: field_def mask_eq_exp_minus_1)
  then show ?thesis by (simp only: bit_field_iff) auto
qed

lemma low5_bits: "bit (0x1f :: u32) n \<longleftrightarrow> n < 5"
proof -
  have "(0x1f :: u32) = mask 5" by (simp add: mask_eq_exp_minus_1)
  then show ?thesis by (simp only: bit_mask_iff) auto
qed

lemma bit_immS: "n < 32 \<Longrightarrow> bit (immS i) n \<longleftrightarrow> store_imm_bit i (min n 11)"
  by (simp only: immS_def imm_bits store_imm_bit_def) (auto simp: min_def add.commute)

lemma bit_immJ:
  assumes "n < 32"
  shows "bit (immJ i) n \<longleftrightarrow> jump_imm_bit i (min n 20)"
proof -
  have k: "bit (push_bit 20 (BITS i 31 31) OR push_bit 12 (BITS i 19 12) OR push_bit 11 (BITS i 20 20) OR
      push_bit 5 (BITS i 30 25) OR push_bit 1 (BITS i 24 21)) k \<longleftrightarrow> jump_imm_bit i k" if "k \<le> 20" for k
  proof -
    from that consider "k = 0" | "1 \<le> k" "k \<le> 4" | "5 \<le> k" "k \<le> 10" | "k = 11" | "12 \<le> k" "k \<le> 19" | "k = 20" by linarith
    then show ?thesis
      by cases (simp_all only: jump_imm_bit_def imm_bits, auto simp: add.commute)
  qed
  show ?thesis using assms k [of "min n 20"] by (simp add: immJ_def bit_SEXT_iff)
qed

text \<open>A word with a sign bit, extended by a conditional mask.\<close>

lemma bit_sign_mask:
  fixes w :: u32
  assumes c: "c = 2 ^ h" "m = Suc h" and "\<And>k. k < 32 \<Longrightarrow> bit w k \<longleftrightarrow> p k" and "\<And>k. h < k \<Longrightarrow> \<not> p k" and "h < 31" and "n < 32"
  shows "bit (if w AND c \<noteq> 0 then w OR NOT (mask m) else w) n \<longleftrightarrow> p (min n h)"
proof -
  have s: "w AND c \<noteq> 0 \<longleftrightarrow> p h" using and_bit_zero [of w h] assms(3) [of h] assms(5) by (simp add: c)
  have low: "bit w n \<longleftrightarrow> p n" using assms(3,6) by simp
  show ?thesis
  proof (cases "n \<le> h")
    case True
    then show ?thesis using low by (simp add: c bit_or_iff bit_not_iff bit_mask_iff)
  next
    case False
    then have "\<not> p n" "min n h = h" using assms(4) by auto
    then show ?thesis using low s False assms(6) by (simp add: c bit_or_iff bit_not_iff bit_mask_iff)
  qed
qed

lemma mini_immS_eq: "mini_immS i = immS i"
proof (rule bit_word_eqI)
  fix n assume n: "n < LENGTH(32)"
  define w where "w = (drop_bit 7 i AND 0x1f) OR drop_bit 20 (i AND 0xfe000000)"
  have low: "bit w k \<longleftrightarrow> store_imm_bit i k" if "k < 32" for k
    by (simp only: w_def store_imm_bit_def bit_or_iff bit_and_iff bit_drop_bit_eq low5_bits high7_bits comp_apply)
      (use that in \<open>auto simp: add.commute dest: bit_imp_le_length\<close>)
  have "mini_immS i = (if w AND 0x800 \<noteq> 0 then w OR NOT (mask 12) else w)"
    by (simp only: mini_immS_def w_def Let_def high_ones)
  then have "bit (mini_immS i) n \<longleftrightarrow> store_imm_bit i (min n 11)"
    by (simp only:) (rule bit_sign_mask, use low n in \<open>simp_all add: store_imm_bit_def\<close>)
  then show "bit (mini_immS i) n = bit (immS i) n" using bit_immS [of n i] n by simp
qed

lemma mini_immJ_eq: "mini_immJ i = immJ i"
proof (rule bit_word_eqI)
  fix n assume n: "n < LENGTH(32)"
  define w where "w = drop_bit 11 (i AND 0x80000000) OR drop_bit 20 (i AND 0x7fe00000) OR
                drop_bit 9 (i AND 0x00100000) OR (i AND 0x000ff000)"
  have low: "bit w k \<longleftrightarrow> jump_imm_bit i k" if "k < 32" for k
  proof -
    from that consider "k = 0" | "1 \<le> k" "k \<le> 10" | "k = 11" | "12 \<le> k" "k \<le> 19" | "k = 20" | "21 \<le> k" by linarith
    then show ?thesis
      by cases (simp_all only: w_def jump_imm_bit_def bit_or_iff bit_drop_bit_eq bit_and_iff field_bits comp_apply,
        auto simp: add.commute dest: bit_imp_le_length)
  qed
  have "mini_immJ i = (if w AND 0x00100000 \<noteq> 0 then w OR NOT (mask 21) else w)"
    by (simp only: mini_immJ_def w_def Let_def high_ones)
  then have "bit (mini_immJ i) n \<longleftrightarrow> jump_imm_bit i (min n 20)"
    by (simp only:) (rule bit_sign_mask, use low n in \<open>simp_all add: jump_imm_bit_def\<close>)
  then show "bit (mini_immJ i) n = bit (immJ i) n" using bit_immJ [of n i] n by simp
qed

section \<open>The cases of the switch\<close>

lemma mini_jal_row:
  assumes "i AND 0x7f = 0x6f"
  shows "mini_execute E cyc i s l = Inr (Go (l\<lparr>l_rval := l_pc l + 4, l_pc := l_pc l + immJ i - 4\<rparr>) s)"
proof -
  have "mini_jal i l = l\<lparr>l_rval := l_pc l + 4, l_pc := l_pc l + immJ i - 4\<rparr>"
    unfolding mini_jal_def mini_immJ_eq [symmetric] mini_immJ_def Let_def ..
  then show ?thesis using assms by (simp add: mini_execute_def)
qed

lemma mini_jalr_row:
  assumes "i AND 0x707f = 0x67" and regs: "same_regs (gpr m) s"
  shows "mini_execute E cyc i s l =
    Inr (Go (l\<lparr>l_rval := l_pc l + 4, l_pc := ((gpr m (unat (BITS i 19 15)) + immI i) AND NOT 1) - 4\<rparr>) s)"
  using key_bits [OF assms(1), of "0x7f"]
  by (simp add: mini_execute_def mini_jalr_def rs1_same [OF regs] imm12_eq)

lemma mini_slli_row:
  assumes hit: "i AND 0xfc00707f = 0x1013" and "immI i AND 0x20 = 0" and regs: "same_regs (gpr m) s"
  shows "mini_execute E cyc i s l =
    Inr (Go (l\<lparr>l_rval := push_bit (unat (BITS (immI i) 6 0)) (gpr m (unat (BITS i 19 15)))\<rparr>) s)"
proof -
  have f3: "funct3 i = 1" using funct3_row [OF hit] by simp
  have b5: "\<not> bit (immI i) 5" using assms(2) and_bit_zero [of "immI i" 5] by simp
  have "i AND 0x04000000 = 0" using key_bits [OF hit, of "0x04000000"] by simp
  then have "\<not> bit i 26" using and_bit_zero [of i 26] by simp
  then have b6: "\<not> bit (immI i) 6" by (simp add: immI_def bit_simps min_def)
  have "BITS (immI i) 6 0 = BITS (immI i) 4 0"
    by (rule bit_word_eqI) (use b5 b6 in \<open>auto simp: bit_simps le_Suc_eq numeral_eq_Suc\<close>)
  then have sh: "immI i AND 0x1f = BITS (immI i) 6 0" by (simp add: BITS_low5)
  show ?thesis
    using key_bits [OF hit, of "0x7f"] opcode_bit5 [of i]
    by (simp add: mini_execute_def mini_alu_def mini_arith_def rs1_same [OF regs] imm12_eq f3 sh Let_def)
qed

lemma mini_fence_row: "i AND 0x7f = 0x0f \<Longrightarrow> mini_execute E cyc i s l = Inr (Go (l\<lparr>l_rdid := 0\<rparr>) s)"
  by (simp add: mini_execute_def)

text \<open>Accesses inside the RAM image.\<close>

lemma inside_image:
  assumes "unat (ofs :: u32) + n + 4 \<le> unat (ram_amt s)"
  shows "\<not> ofs \<ge> ram_amt s - 3" and "unat ofs + n \<le> unat (ram_amt s)"
proof -
  have "unat (ram_amt s - 3) = unat (ram_amt s) - 3" using assms by (subst unat_sub) (simp_all add: word_le_nat_alt)
  then show "\<not> ofs \<ge> ram_amt s - 3" using assms by (simp add: word_le_nat_alt)
  show "unat ofs + n \<le> unat (ram_amt s)" using assms by simp
qed

lemma load_extend_take:
  "load_extend LB v = signed_take_bit 7 v" "load_extend LH v = signed_take_bit 15 v" "load_extend LW v = v"
  by (rule bit_word_eqI; simp add: bit_SEXT_iff bit_signed_take_bit_iff min_def)+

lemma mini_load_row:
  assumes hit: "i AND 0x707f = push_bit 12 (load_code ld) OR 0x03" and regs: "same_regs (gpr m) s"
    and ofs: "ofs = gpr m (unat (BITS i 19 15)) + immI i - MINIRV32_RAM_IMAGE_OFFSET"
    and room: "unat ofs + load_len ld + 4 \<le> unat (ram_amt s)"
  shows "mini_execute E cyc i s l =
    Inr (Go (l\<lparr>l_rval := load_extend ld (le_read (image s) (unat ofs) (load_len ld))\<rparr>) s)"
proof -
  have opc: "i AND 0x7f = 0x03" using key_bits [OF hit, of "0x7f"] by (cases ld) simp_all
  have f3: "funct3 i = load_code ld" using funct3_row [OF hit] by (cases ld) simp_all
  note in_image = inside_image [OF room]
  have "mini_load_op E i s l = Inr (Go (l\<lparr>l_rval := load_extend ld (le_read (image s) (unat ofs) (load_len ld))\<rparr>) s)"
    unfolding mini_load_op_def Let_def rs1_same [OF regs] imm12_eq ofs [symmetric] f3
    using in_image by (cases ld) (simp_all add: mini_load_def load_extend_take del: load_extend.simps(1-3))
  then show ?thesis by (simp add: mini_execute_def opc)
qed

lemma mini_store_row:
  assumes hit: "i AND 0x707f = push_bit 12 (store_code st) OR 0x23" and regs: "same_regs (gpr m) s"
    and ofs: "ofs = gpr m (unat (BITS i 19 15)) + immS i - MINIRV32_RAM_IMAGE_OFFSET"
    and room: "unat ofs + store_len st + 4 \<le> unat (ram_amt s)"
  shows "mini_execute E cyc i s l =
    Inr (Go (l\<lparr>l_rdid := 0\<rparr>)
      (s\<lparr>image := le_write (image s) (unat ofs) (store_len st) (gpr m (unat (BITS i 24 20)))\<rparr>))"
proof -
  have opc: "i AND 0x7f = 0x23" using key_bits [OF hit, of "0x7f"] by (cases st) simp_all
  have f3: "funct3 i = store_code st" using funct3_row [OF hit] by (cases st) simp_all
  note in_image = inside_image [OF room]
  have o: "mini_immS i + (gpr m (unat (BITS i 19 15)) - MINIRV32_RAM_IMAGE_OFFSET) = ofs"
    by (simp add: ofs mini_immS_eq)
  have "mini_store_op i s l =
    Inr (Go (l\<lparr>l_rdid := 0\<rparr>)
      (s\<lparr>image := le_write (image s) (unat ofs) (store_len st) (gpr m (unat (BITS i 24 20)))\<rparr>))"
    unfolding mini_store_op_def rs1_same [OF regs] rs2_same [OF regs] f3
    unfolding Let_def mini_immS_def [symmetric, unfolded Let_def] o
    using in_image by (cases st) (simp_all add: mini_store_def)
  then show ?thesis by (simp add: mini_execute_def opc)
qed

end
