(* ===== verification/Difftest.thy ===== *)
theory Difftest
  imports RvTrap
begin

text \<open>
  Differential testing, \<^verbatim>\<open>src/cpu/difftest/dut.c\<close>, \<^verbatim>\<open>src/isa/riscv32/difftest/dut.c\<close> and the stub
  reference \<^verbatim>\<open>src/cpu/difftest/ref.c\<close>. The reference is a shared object: the functions looked up in it are
  a parameter, over a state of their own that the machine carries along.
\<close>

unbundle bit_operations_syntax

section \<open>State and parameters\<close>

text \<open>A node of the watchpoint pool of \<^verbatim>\<open>watchpoint.c\<close>; pointers are indices into the pool.\<close>

record wp =
  wp_NO :: int
  wp_next :: "nat option"

text \<open>
  The statics of \<^verbatim>\<open>monitor.c\<close>, \<^verbatim>\<open>sdb.c\<close> and \<^verbatim>\<open>watchpoint.c\<close>, and the state of the reference.
\<close>

record 'r monitor = rv32 +
  ref_state :: 'r
  is_batch_mode :: bool
  log_file :: "string option"
  diff_so_file :: "string option"
  img_file :: "string option"
  bios_file :: "string option"
  kernel_file :: "string option"
  dtb_file :: "string option"
  difftest_port :: int
  wp_pool :: "wp list"
  wp_head :: "nat option"
  wp_free :: "nat option"

text \<open>The part of \<^verbatim>\<open>CPU_state\<close> a reference fills in or takes over.\<close>

record cpu_state =
  st_gpr :: "nat \<Rightarrow> u32"
  st_csr :: "nat \<Rightarrow> u32"
  st_pc :: u32

text \<open>
  What the monitor asks the host: the number \<^verbatim>\<open>scanf\<close> reads (\<open>None\<close>: it does not return 1), the
  lines \<^verbatim>\<open>readline\<close> returns until the end of input, the contents of a file (\<open>None\<close>: cannot be
  opened), and whether \<^verbatim>\<open>dlopen\<close> and every \<^verbatim>\<open>dlsym\<close> succeed. The last three fields are what the two
  stacks of the expression evaluator and the local \<^verbatim>\<open>ref_r\<close> of \<^verbatim>\<open>difftest_step\<close> hold at the start
  (indeterminate in C).
\<close>

record mon_env =
  menv_scanf :: "nat \<Rightarrow> int option"
  menv_lines :: "string list"
  menv_file :: "string \<Rightarrow> u8 list option"
  menv_dl :: "string \<Rightarrow> bool"
  menv_num_stack :: "nat \<Rightarrow> u32"
  menv_op_stack :: "nat \<Rightarrow> char"
  menv_ref_r :: cpu_state

text \<open>
  The interface of a reference: \<^verbatim>\<open>difftest_memcpy\<close> and \<^verbatim>\<open>difftest_regcpy\<close> in both directions,
  \<^verbatim>\<open>difftest_exec\<close>, \<^verbatim>\<open>difftest_init\<close>. Registers are copied into a buffer that keeps what the reference
  does not fill in. The mini-rv32ima reference does not take registers over: asked to,
  it stores its timer in the first eight bytes of the buffer (\<open>ref_time\<close>).
\<close>

record 'r ref_ops =
  ref_init :: "int \<Rightarrow> 'r \<Rightarrow> 'r res"
  ref_exec :: "'r \<Rightarrow> 'r res"
  ref_mem_to_ref :: "u32 \<Rightarrow> u8 list \<Rightarrow> 'r \<Rightarrow> 'r"
  ref_mem_to_dut :: "u32 \<Rightarrow> nat \<Rightarrow> 'r \<Rightarrow> u8 list \<times> 'r"
  ref_regs_to_ref :: "cpu_state \<Rightarrow> 'r \<Rightarrow> 'r"
  ref_regs_to_dut :: "'r \<Rightarrow> cpu_state \<Rightarrow> cpu_state"
  ref_time :: "'r \<Rightarrow> u64"

definition dut_regs :: "('a) rv32_scheme \<Rightarrow> cpu_state" where
  "dut_regs m = \<lparr>st_gpr = gpr m, st_csr = csrs m, st_pc = cpu_pc m\<rparr>"

definition ref_is_mini :: "config \<Rightarrow> bool" where
  "ref_is_mini c \<longleftrightarrow> cfg_difftest c = DIFFTEST_REF_MINIRV32I"

section \<open>The register comparison\<close>

text \<open>
  \<^verbatim>\<open>abs(dert) > 0x100\<close> on the 32-bit difference; for the least integer \<^verbatim>\<open>abs\<close> overflows, taken to
  wrap around.
\<close>

definition gpr_differs :: "u32 \<Rightarrow> u32 \<Rightarrow> bool" where
  "gpr_differs ref dut \<longleftrightarrow> (let dert = ref - dut in ref \<noteq> dut \<and> 0x100 <s (if dert <s 0 then - dert else dert))"

text \<open>A line for every difference; after the first one \<^verbatim>\<open>pc\<close> is \<^verbatim>\<open>cpu.pc\<close>. The result counts them.\<close>

fun check_list ::
    "(u32 \<Rightarrow> u32 \<Rightarrow> bool) \<Rightarrow> (string \<times> u32 \<times> u32) list \<Rightarrow> u32 \<Rightarrow> ('a) rv32_scheme \<Rightarrow> nat \<times> u32 \<times> ('a) rv32_scheme" where
  "check_list differs [] pc m = (0, pc, m)"
| "check_list differs ((name, dut, ref) # rs) pc m =
     (if differs ref dut
      then (case check_list differs rs (cpu_pc m) (emit (OutLine ''pc gpr'' [name] [uint pc, uint dut, uint ref]) m) of
              (n, pc', m') \<Rightarrow> (Suc n, pc', m'))
      else check_list differs rs pc m)"

definition gpr_pairs :: "cpu_state \<Rightarrow> ('a) rv32_scheme \<Rightarrow> (string \<times> u32 \<times> u32) list" where
  "gpr_pairs r m = map (\<lambda>i. (reg_name i, gpr m i, st_gpr r i)) [0..<32]"

definition csr_pairs :: "config \<Rightarrow> cpu_state \<Rightarrow> ('a) rv32_scheme \<Rightarrow> (string \<times> u32 \<times> u32) list" where
  "csr_pairs c r m = map (\<lambda>i. (csr_reg_name c i, csrs m i, st_csr r i)) [0..<NR_CSR c - 1]"

fun exec_ref :: "'r ref_ops \<Rightarrow> nat \<Rightarrow> ('r, 'a) monitor_scheme \<Rightarrow> ('r, 'a) monitor_scheme res" where
  "exec_ref R 0 m = Inr m"
| "exec_ref R (Suc n) m = bindE (ref_exec R (ref_state m)) (\<lambda>r. exec_ref R n (m\<lparr>ref_state := r\<rparr>))"

definition difftest_skip_ref_one :: "('a) nemu_scheme \<Rightarrow> ('a) nemu_scheme" where
  "difftest_skip_ref_one m = m\<lparr>skip_dut_one_inst := True\<rparr>"

definition difftest_skip_dut :: "'r ref_ops \<Rightarrow> nat \<Rightarrow> int \<Rightarrow> ('r, 'a) monitor_scheme \<Rightarrow> ('r, 'a) monitor_scheme res" where
  "difftest_skip_dut R nr_ref nr_dut m =
     exec_ref R nr_ref (m\<lparr>skip_dut_nr_inst := skip_dut_nr_inst m + nr_dut\<rparr>)"

text \<open>
  On a difference of the program counters the user is asked: 0 accepts the instruction, 1 lets the
  reference run one more, 2 skips the next comparison; these two still report failure, as does any
  other answer. The test \<^verbatim>\<open>error && (cpu.pc!=ref_r->pc)+4\<close> is always true there.
\<close>

definition isa_difftest_checkregs ::
    "config \<Rightarrow> mon_env \<Rightarrow> 'r ref_ops \<Rightarrow> cpu_state \<Rightarrow> u32 \<Rightarrow> ('r, 'a) monitor_scheme \<Rightarrow>
     (bool \<times> ('r, 'a) monitor_scheme) res" where
  "isa_difftest_checkregs c M R ref pc m =
     (case check_list gpr_differs (gpr_pairs ref m) pc m of (e1, pc1, m1) \<Rightarrow>
      case (if cfg_difftest c = DIFFTEST_REF_SPIKE then check_list (\<noteq>) (csr_pairs c ref m1) pc1 m1
            else (0, pc1, m1)) of (e2, pc2, m2) \<Rightarrow>
      if cpu_pc m2 \<noteq> st_pc ref then
        (case host_call (menv_scanf M) (emit (OutMsg ''gsemu pc, spike pc'' [cpu_pc m2, st_pc ref]) m2) of
           (ret, m3) \<Rightarrow> (case ret of
             None \<Rightarrow> Inr (False, m3)
           | Some skip \<Rightarrow>
               if skip = 0 then Inr (True, m3)
               else if skip = 1 then bindE (difftest_skip_dut R 1 0 m3) (\<lambda>m4. Inr (False, m4))
               else if skip = 2 then Inr (False, difftest_skip_ref_one m3)
               else Inr (False, m3)))
      else Inr (e1 + e2 = 0, m2))"

section \<open>One step\<close>

definition show_regs :: "config \<Rightarrow> ('a) rv32_scheme \<Rightarrow> ('a) rv32_scheme" where
  "show_regs c m = fold (\<lambda>(name, v). emit (OutLine ''register'' [name] [uint v, sint v])) (isa_reg_display c m) m"

definition checkregs ::
    "config \<Rightarrow> mon_env \<Rightarrow> 'r ref_ops \<Rightarrow> cpu_state \<Rightarrow> u32 \<Rightarrow> ('r, 'a) monitor_scheme \<Rightarrow> ('r, 'a) monitor_scheme res" where
  "checkregs c M R ref pc m =
     bindE (isa_difftest_checkregs c M R ref pc m) (\<lambda>(ok, m1).
     Inr (if ok then m1 else show_regs c (m1\<lparr>nemu_state := NEMU_ABORT, halt_pc := pc\<rparr>)))"

text \<open>
  \<^verbatim>\<open>ref_difftest_regcpy(&cpu, DIFFTEST_TO_REF)\<close>: the mini-rv32ima reference overwrites the first two
  general registers with its timer instead of reading them.
\<close>

definition copy_regs_to_ref :: "config \<Rightarrow> 'r ref_ops \<Rightarrow> ('r, 'a) monitor_scheme \<Rightarrow> ('r, 'a) monitor_scheme" where
  "copy_regs_to_ref c R m =
     (if ref_is_mini c
      then (let t = ref_time R (ref_state m) in
            m\<lparr>gpr := (gpr m)(0 := ucast t, 1 := ucast (drop_bit 32 t))\<rparr>)
      else m\<lparr>ref_state := ref_regs_to_ref R (dut_regs m) (ref_state m)\<rparr>)"

text \<open>
  The timer is synchronised through an 8-byte buffer: the mini-rv32ima reference stores its timer in it, any
  other reference reads a register block from it, past its end.
\<close>

definition sync_timer ::
    "config \<Rightarrow> host_env \<Rightarrow> 'r ref_ops \<Rightarrow> ('r, 'a) monitor_scheme \<Rightarrow> ('r, 'a) monitor_scheme res" where
  "sync_timer c E R m =
     (if ref_is_mini c
      then paddr_write c E (CONFIG_CLINT_MMIO + of_nat MTIMELO) 8 (ucast (ref_time R (ref_state m))) m
      else Inl (Host_oob 8))"

definition difftest_step ::
    "config \<Rightarrow> host_env \<Rightarrow> mon_env \<Rightarrow> 'r ref_ops \<Rightarrow> u32 \<Rightarrow> u32 \<Rightarrow> ('r, 'a) monitor_scheme \<Rightarrow>
     ('r, 'a) monitor_scheme res" where
  "difftest_step c E M R pc npc m =
     (if cfg_difftest c = DIFFTEST_OFF then Inr m
      else if skip_dut_one_inst m then Inr (m\<lparr>skip_dut_one_inst := False\<rparr>)
      else if skip_dut_nr_inst m > 0 then
        (let ref = ref_regs_to_dut R (ref_state m) (menv_ref_r M) in
         if st_pc ref = npc then checkregs c M R ref npc (m\<lparr>skip_dut_nr_inst := 0\<rparr>)
         else (let m1 = m\<lparr>skip_dut_nr_inst := skip_dut_nr_inst m - 1\<rparr> in
               bindE (assertE (skip_dut_nr_inst m1 \<noteq> 0) ''can not catch up with ref.pc'') (\<lambda>_. Inr m1)))
      else if is_skip_ref m then Inr ((copy_regs_to_ref c R m)\<lparr>is_skip_ref := False\<rparr>)
      else
        bindE (exec_ref R 1 m) (\<lambda>m1.
        bindE (sync_timer c E R m1) (\<lambda>m2.
        checkregs c M R (ref_regs_to_dut R (ref_state m2) (menv_ref_r M)) pc m2)))"

section \<open>Initialisation\<close>

definition put_bytes :: "bytes \<Rightarrow> nat \<Rightarrow> u8 list \<Rightarrow> bytes" where
  "put_bytes f a bs = (\<lambda>i. if a \<le> i \<and> i < a + length bs then bs ! (i - a) else f i)"

text \<open>The image the monitor loaded is copied to the reference, or, for mini-rv32ima, taken from it.\<close>

definition init_difftest ::
    "config \<Rightarrow> mon_env \<Rightarrow> 'r ref_ops \<Rightarrow> string option \<Rightarrow> nat \<Rightarrow> int \<Rightarrow> ('r, 'a) monitor_scheme \<Rightarrow>
     ('r, 'a) monitor_scheme res" where
  "init_difftest c M R ref_so img_size port m =
     (if cfg_difftest c = DIFFTEST_OFF then Inr m
      else (case ref_so of
         None \<Rightarrow> Inl (Assert_fail ''ref_so_file != NULL'')
       | Some so \<Rightarrow>
         bindE (assertE (menv_dl M so) ''dlopen'') (\<lambda>_.
         bindE (ref_init R port (ref_state m)) (\<lambda>r.
         let m1 = m\<lparr>ref_state := r\<rparr>; a = guest_to_host RESET_VECTOR in
         if ref_is_mini c then
           (case ref_mem_to_dut R RESET_VECTOR (2 ^ 64 - 1) r of (bs, r1) \<Rightarrow>
            bindE (in_object MSIZE a (length bs)) (\<lambda>_.
            let regs = ref_regs_to_dut R r1 (dut_regs m1) in
            Inr (m1\<lparr>ref_state := r1, pmem := put_bytes (pmem m1) a bs, gpr := st_gpr regs, csrs := st_csr regs, cpu_pc := st_pc regs\<rparr>)))
         else
           bindE (in_object MSIZE a img_size) (\<lambda>_.
           let r1 = ref_mem_to_ref R RESET_VECTOR (map (pmem m1) [a..<a + img_size]) r in
           Inr (m1\<lparr>ref_state := ref_regs_to_ref R (dut_regs m1) r1\<rparr>))))))"

text \<open>
  GEMU built as a reference itself, \<^verbatim>\<open>ref.c\<close>: only \<^verbatim>\<open>difftest_init\<close> is implemented, every other
  function is \<^verbatim>\<open>assert(0)\<close>.
\<close>

definition stub_difftest_init :: "config \<Rightarrow> u8 \<Rightarrow> ('a) rv32_scheme \<Rightarrow> ('a) rv32_scheme res" where
  "stub_difftest_init c fill m = init_isa c (init_mem fill m)"

definition stub_difftest_exec :: "u64 \<Rightarrow> ('a) rv32_scheme \<Rightarrow> ('a) rv32_scheme res" where
  "stub_difftest_exec n m = Inl (Assert_fail ''0'')"

definition stub_difftest_regcpy :: "bool \<Rightarrow> ('a) rv32_scheme \<Rightarrow> ('a) rv32_scheme res" where
  "stub_difftest_regcpy direction m = Inl (Assert_fail ''0'')"

definition stub_difftest_memcpy :: "u32 \<Rightarrow> nat \<Rightarrow> bool \<Rightarrow> ('a) rv32_scheme \<Rightarrow> ('a) rv32_scheme res" where
  "stub_difftest_memcpy addr n direction m = Inl (Assert_fail ''0'')"

definition stub_difftest_raise_intr :: "u32 \<Rightarrow> ('a) rv32_scheme \<Rightarrow> ('a) rv32_scheme res" where
  "stub_difftest_raise_intr NO m = Inl (Assert_fail ''0'')"

end
