(* ===== verification/CpuExec.thy ===== *)
theory CpuExec
  imports Difftest
begin

text \<open>
  The execution loop, \<^verbatim>\<open>src/cpu/cpu-exec.c\<close>. It is the same for every instruction set: the step is an
  argument, \<open>isa_exec_once c E\<close> for RISC-V, and so is the check after every instruction,
  \<open>difftest_step\<close> with its reference. The instruction trace is off.
\<close>

unbundle bit_operations_syntax

definition MAX_INST_TO_PRINT :: u64 where "MAX_INST_TO_PRINT = 10"

type_synonym 'm stepper = "'m \<Rightarrow> 'm res"

definition exec_once :: "('a) cpu_scheme stepper \<Rightarrow> u32 \<Rightarrow> ('a) cpu_scheme \<Rightarrow> ('a) cpu_scheme res" where
  "exec_once step pc m =
     bindE (step (m\<lparr>d_pc := pc, d_snpc := pc\<rparr>)) (\<lambda>m1. Inr (m1\<lparr>cpu_pc := d_dnpc m1\<rparr>))"

text \<open>One round of the loop of \<^verbatim>\<open>execute\<close>, up to its test.\<close>

definition execute_one ::
    "('a) cpu_scheme stepper \<Rightarrow> (u32 \<Rightarrow> u32 \<Rightarrow> ('a) cpu_scheme stepper) \<Rightarrow> ('a) cpu_scheme \<Rightarrow> ('a) cpu_scheme res" where
  "execute_one step check m =
     bindE (exec_once step (cpu_pc m) m) (\<lambda>m1.
     let m2 = m1\<lparr>g_nr_guest_inst := g_nr_guest_inst m1 + 1\<rparr> in check (d_pc m2) (cpu_pc m2) m2)"

fun execute ::
    "config \<Rightarrow> host_env \<Rightarrow> ('a) cpu_scheme stepper \<Rightarrow> (u32 \<Rightarrow> u32 \<Rightarrow> ('a) cpu_scheme stepper) \<Rightarrow> nat \<Rightarrow>
     ('a) cpu_scheme \<Rightarrow> ('a) cpu_scheme res" where
  "execute c E step check 0 m = Inr m"
| "execute c E step check (Suc n) m = bindE (execute_one step check m) (\<lambda>m1.
     if nemu_state m1 \<noteq> NEMU_RUNNING then Inr m1
     else bindE (device_update c E m1) (execute c E step check n))"

definition statistic :: "('a) cpu_scheme \<Rightarrow> ('a) cpu_scheme" where
  "statistic m =
     (let m1 = emit (OutLine ''host time spent = %lu us'' [] [uint (g_timer m)]) m;
          m2 = emit (OutLine ''total guest instructions = %lu'' [] [uint (g_nr_guest_inst m)]) m1
      in if g_timer m > 0
         then emit (OutLine ''simulation frequency = %lu inst/s'' []
                [uint (g_nr_guest_inst m * 1000000 div g_timer m)]) m2
         else emit (OutLine ''Finish running in less than 1 us and can not calculate the simulation frequency'' [] []) m2)"

text \<open>What \<^verbatim>\<open>Assert\<close> prints before it aborts.\<close>

definition assert_fail_msg :: "config \<Rightarrow> ('a) rv32_scheme \<Rightarrow> ('a) rv32_scheme" where
  "assert_fail_msg c m = statistic (show_regs c m)"

definition end_message :: "('a) nemu_scheme \<Rightarrow> string" where
  "end_message m =
     (if nemu_state m = NEMU_ABORT then ''ABORT''
      else if halt_ret m = 0 then ''HIT GOOD TRAP'' else ''HIT BAD TRAP'')"

definition cpu_exec ::
    "config \<Rightarrow> host_env \<Rightarrow> ('a) cpu_scheme stepper \<Rightarrow> (u32 \<Rightarrow> u32 \<Rightarrow> ('a) cpu_scheme stepper) \<Rightarrow> u64 \<Rightarrow>
     ('a) cpu_scheme \<Rightarrow> ('a) cpu_scheme res" where
  "cpu_exec c E step check n m =
     (let m0 = m\<lparr>g_print_step := (n < MAX_INST_TO_PRINT)\<rparr> in
      if nemu_state m0 = NEMU_END \<or> nemu_state m0 = NEMU_ABORT then
        Inr (emit (OutLine ''Program execution has ended. To restart the program, exit NEMU and run again.'' [] []) m0)
      else
        (case get_time E (m0\<lparr>nemu_state := NEMU_RUNNING\<rparr>) of (timer_start, m1) \<Rightarrow>
         bindE (execute c E step check (unat n) m1) (\<lambda>m2.
         case get_time E m2 of (timer_end, m3) \<Rightarrow>
           let m4 = m3\<lparr>g_timer := g_timer m3 + (timer_end - timer_start)\<rparr> in
           case nemu_state m4 of
             NEMU_RUNNING \<Rightarrow> Inr (m4\<lparr>nemu_state := NEMU_STOP\<rparr>)
           | NEMU_STOP \<Rightarrow> Inr m4
           | NEMU_QUIT \<Rightarrow> Inr (statistic m4)
           | _ \<Rightarrow> Inr (statistic (emit (OutLine ''nemu: %s at pc = 0x%08x'' [end_message m4] [uint (halt_pc m4)]) m4)))))"

text \<open>The processor the debugger drives: RISC-V with the configured reference.\<close>

definition rv_step :: "config \<Rightarrow> host_env \<Rightarrow> ('r, 'a) monitor_scheme stepper" where
  "rv_step c E = isa_exec_once c E"

definition rv_exec ::
    "config \<Rightarrow> host_env \<Rightarrow> mon_env \<Rightarrow> 'r ref_ops \<Rightarrow> u64 \<Rightarrow> ('r, 'a) monitor_scheme \<Rightarrow> ('r, 'a) monitor_scheme res" where
  "rv_exec c E M R n m = cpu_exec c E (rv_step c E) (difftest_step c E M R) n m"


end
