(* ===== verification/RvJumps.thy ===== *)
theory RvJumps
  imports RvStep
begin

text \<open>
  Whole steps of the RISC-V core on the remaining instructions of a straight program (shifts by an
  immediate, jumps, fences), and what such a step leaves alone outside the processor.
\<close>

unbundle bit_operations_syntax

section \<open>Steps\<close>

lemma op_rd_eq: "op_rd (decode_operand i ty m) = unat (BITS i 11 7)"
  by (simp add: decode_operand_def Let_def split: itype.split)

lemma step_slli:
  assumes "ready c m" and "instpat_select (instpat_table c) (fetched m) = Inr (Some (TYPE_I, Slli))"
    and "immI (fetched m) AND 0x20 = 0"
  shows "completes c m
    ((gpr m)(unat (BITS (fetched m) 11 7) :=
      push_bit (unat (BITS (immI (fetched m)) 6 0)) (gpr m (unat (BITS (fetched m) 19 15)))))
    (pmem m) (d_snpc m + 4) (isa_exec_once c E m)"
proof -
  have o: "op_src1 (decode_operand i TYPE_I m) = gpr m (unat (BITS i 19 15))"
    "op_imm (decode_operand i TYPE_I m) = immI i" for i
    by (simp_all add: decode_operand_def Let_def)
  show ?thesis
    unfolding isa_exec_once_ready [OF assms(1,2)] using assms(1,3)
    by (simp add: exec_slli_def o op_rd_eq ready_def, intro completesI) simp_all
qed

lemma step_jal:
  assumes "ready c m" and "instpat_select (instpat_table c) (fetched m) = Inr (Some (TYPE_J, Jal))"
    and "(d_pc m + immJ (fetched m)) mod 4 = 0"
  shows "completes c m ((gpr m)(unat (BITS (fetched m) 11 7) := d_pc m + 4)) (pmem m)
    (d_pc m + immJ (fetched m)) (isa_exec_once c E m)"
proof -
  have o: "op_imm (decode_operand i TYPE_J m) = immJ i" for i by (simp add: decode_operand_def Let_def)
  show ?thesis
    unfolding isa_exec_once_ready [OF assms(1,2)] using assms(1,3)
    by (simp add: exec_jal_def o op_rd_eq ready_def, intro completesI) simp_all
qed

lemma step_jalr:
  fixes m :: "('a) rv32_scheme"
  assumes "ready c m" and "instpat_select (instpat_table c) (fetched m) = Inr (Some (TYPE_I, Jalr))"
    and "t = (gpr m (unat (BITS (fetched m) 19 15)) + immI (fetched m)) AND NOT 1" and "t mod 4 = 0"
  shows "completes c m ((gpr m)(unat (BITS (fetched m) 11 7) := d_pc m + 4)) (pmem m) t (isa_exec_once c E m)"
proof -
  have o: "(op_src1 (decode_operand (fetched m) TYPE_I m) + op_imm (decode_operand (fetched m) TYPE_I m)) AND NOT 1 = t"
    unfolding assms(3) by (simp add: decode_operand_def Let_def)
  have e: "exec_jalr (decode_operand (fetched m) TYPE_I m) m' =
      set_gpr (unat (BITS (fetched m) 11 7)) (d_pc m' + 4) (m'\<lparr>d_dnpc := t\<rparr>)" for m' :: "('a) rv32_scheme"
    using assms(4) by (simp only: exec_jalr_def o Let_def op_rd_eq) simp
  show ?thesis
    unfolding isa_exec_once_ready [OF assms(1,2)] using assms(1,4)
    by (simp add: e ready_def, intro completesI) simp_all
qed

lemma step_fence:
  assumes "ready c m" and "instpat_select (instpat_table c) (fetched m) = Inr (Some (ty, Fence))"
  shows "completes c m (gpr m) (pmem m) (d_snpc m + 4) (isa_exec_once c E m)"
  unfolding isa_exec_once_ready [OF assms(1,2)] using assms(1)
  by (simp add: ready_def, intro completesI) simp_all

section \<open>What a straight step leaves alone\<close>

text \<open>The run control of the emulator and everything the monitor keeps.\<close>

definition control :: "('a) rv32_scheme \<Rightarrow> nemu_run \<times> bool \<times> int \<times> nat \<times> bytes \<times> 'a" where
  "control m = (nemu_state m, skip_dut_one_inst m, skip_dut_nr_inst m, clint_base m, io_space m, rv32.more m)"

lemma control_upd [simp]:
  "control (m\<lparr>gpr := x1\<rparr>) = control m" "control (m\<lparr>csrs := x2\<rparr>) = control m" "control (m\<lparr>d_dnpc := x3\<rparr>) = control m"
  "control (m\<lparr>pmem := x4\<rparr>) = control m" "control (m\<lparr>is_skip_ref := x5\<rparr>) = control m" "control (m\<lparr>d_pc := x6\<rparr>) = control m"
  "control (m\<lparr>d_snpc := x7\<rparr>) = control m" "control (m\<lparr>d_inst := x8\<rparr>) = control m" "control (m\<lparr>cpu_pc := x9\<rparr>) = control m"
  "control (set_gpr i v m) = control m" "control (csr_mod c a f m) = control m" "control (csr_set_field c a k w m) = control m"
  by (simp_all add: control_def set_gpr_def csr_mod_def csr_put_def csr_set_field_def)

definition straight :: "op \<Rightarrow> bool" where
  "straight op \<longleftrightarrow> (case op of Alu _ \<Rightarrow> True | Slli \<Rightarrow> True | Jal \<Rightarrow> True | Jalr \<Rightarrow> True | Branch _ \<Rightarrow> True
     | Load _ \<Rightarrow> True | Store _ \<Rightarrow> True | Fence \<Rightarrow> True | _ \<Rightarrow> False)"

text \<open>A memory access of the instruction goes to RAM.\<close>

definition ram_operand :: "config \<Rightarrow> op \<Rightarrow> operands \<Rightarrow> bool" where
  "ram_operand c op x \<longleftrightarrow> (case op of Load ld \<Rightarrow> ram_access c (op_src1 x + op_imm x) (load_len ld)
     | Store st \<Rightarrow> ram_access c (op_src1 x + op_imm x) (store_len st) | _ \<Rightarrow> True)"

lemma exec_op_control:
  assumes "straight op" and "ram_operand c op x" and "exec_op c E op x m = Inr m'" and "have_exc m' = RISCV_EXCP_NONE"
    and "have_exc m = RISCV_EXCP_NONE"
  shows "control m' = control m"
proof (cases op)
  case (Load ld)
  then show ?thesis
    using assms(2,3) Mr_ram [of "op_src1 x + op_imm x" "load_len ld" c E m]
    by (auto simp: ram_operand_def ram_access_def exec_load_def)
next
  case (Store st)
  then show ?thesis
    using assms(2,3) Mw_ram [of "op_src1 x + op_imm x" "store_len st" c E "op_src2 x" m]
    by (auto simp: ram_operand_def ram_access_def exec_store_def)
qed (use assms in \<open>auto simp: straight_def exec_slli_def exec_jal_def exec_jalr_def exec_branch_def
      dnpc_and_check_def trap_peek_exception_def Let_def bits_defs split: if_splits\<close>)

end
