(* ===== verification/Lockstep.thy ===== *)
theory Lockstep
  imports MiniEquivMem CpuExec RvJumps
begin

text \<open>
  Differential testing as a theorem: on arithmetic instructions and aligned branches, \<^verbatim>\<open>exec_once\<close> of the
  emulator and the loop of mini-rv32ima go through the same registers, the same program and the
  same program counters.
\<close>

unbundle bit_operations_syntax

section \<open>The simulation relation\<close>

text \<open>The part of the reference's RAM below its own registers.\<close>

definition guest_limit :: "mini \<Rightarrow> nat" where
  "guest_limit s = unat (ram_amt s) - SIZEOF_STATE"

definition in_step :: "('a) rv32_scheme \<Rightarrow> mini \<Rightarrow> bool" where
  "in_step m s \<longleftrightarrow> same_regs (gpr m) s \<and> gpr m 0 = 0 \<and> (\<forall>a < guest_limit s. pmem m a = image s a)"

definition at_pc :: "('a) cpu_scheme \<Rightarrow> ('a) cpu_scheme" where
  "at_pc m = m\<lparr>d_pc := cpu_pc m, d_snpc := cpu_pc m\<rparr>"

text \<open>
  The next instruction is an arithmetic one, a shift, a jump or branch to an aligned address, a load
  or store in the RAM below the limit, or a fence; it lies below the limit itself, no interrupt is enabled
  and the machine is in order.
\<close>

definition reaches :: "config \<Rightarrow> nat \<Rightarrow> u32 \<Rightarrow> nat \<Rightarrow> bool" where
  "reaches c limit a n \<longleftrightarrow> ram_access c a n \<and> guest_to_host a + n \<le> limit"

definition plain_op :: "config \<Rightarrow> nat \<Rightarrow> u32 \<Rightarrow> op \<Rightarrow> ('a) rv32_scheme \<Rightarrow> bool" where
  "plain_op c limit i op m \<longleftrightarrow> (let rs1 = gpr m (unat (BITS i 19 15)) in case op of
      Alu _ \<Rightarrow> True
    | Slli \<Rightarrow> immI i AND 0x20 = 0
    | Jal \<Rightarrow> (cpu_pc m + immJ i) mod 4 = 0
    | Jalr \<Rightarrow> ((rs1 + immI i) AND NOT 1) mod 4 = 0
    | Branch _ \<Rightarrow> (cpu_pc m + SEXT (immB i) 13) mod 4 = 0
    | Load ld \<Rightarrow> reaches c limit (rs1 + immI i) (load_len ld)
    | Store st \<Rightarrow> reaches c limit (rs1 + immS i) (store_len st)
    | Fence \<Rightarrow> i AND 0x7f = 0x0f
    | _ \<Rightarrow> False)"

definition plain :: "config \<Rightarrow> nat \<Rightarrow> ('a) rv32_scheme \<Rightarrow> bool" where
  "plain c limit m \<longleftrightarrow>
     ready c (at_pc m) \<and> guest_to_host (cpu_pc m) + 4 \<le> limit \<and>
     (let i = fetched (at_pc m) in
      case instpat_select (instpat_table c) i of
        Inr (Some (_, op)) \<Rightarrow> plain_op c limit i op m
      | _ \<Rightarrow> False)"

inductive plain_run :: "config \<Rightarrow> host_env \<Rightarrow> nat \<Rightarrow> nat \<Rightarrow> ('a) rv32_scheme \<Rightarrow> ('a) rv32_scheme \<Rightarrow> bool"
  for c E limit where
  done_run: "plain_run c E limit 0 m m"
| one_more: "plain c limit m \<Longrightarrow> exec_once (isa_exec_once c E) (cpu_pc m) m = Inr m1 \<Longrightarrow>
    plain_run c E limit n m1 m2 \<Longrightarrow> plain_run c E limit (Suc n) m m2"

lemma at_pc_sel [simp]:
  "d_pc (at_pc m) = cpu_pc m" "d_snpc (at_pc m) = cpu_pc m" "gpr (at_pc m) = gpr m"
  by (simp_all add: at_pc_def)

lemma at_pc_pmem [simp]: "pmem (at_pc m) = pmem m"
  by (simp add: at_pc_def)

section \<open>One step\<close>

lemma core_above: "r < 32 \<Longrightarrow> guest_limit s \<le> core_at s r"
  by (simp add: guest_limit_def core_at_def)

lemma REGSET_image_below: "a < guest_limit s \<Longrightarrow> r < 32 \<Longrightarrow> image (REGSET r v s) a = image s a"
  using core_above [of "unat r" s]
  by (simp add: REGSET_def SETCSR_def le_write_apply word_less_nat_alt)

lemma REGSET_limit [simp]: "guest_limit (REGSET r v s) = guest_limit s"
  by (simp add: guest_limit_def REGSET_def)

lemma pc_offset: "pc - MINIRV32_RAM_IMAGE_OFFSET = pc - CONFIG_MBASE"
  by (simp add: MINIRV32_RAM_IMAGE_OFFSET_def CONFIG_MBASE_def)

lemma aligned_offset:
  assumes "(pc + 4) mod 4 = (0 :: u32)"
  shows "(pc - CONFIG_MBASE) AND 3 = 0"
proof -
  have "(uint pc + 4) mod 2 ^ 32 mod 4 = 0"
    using assms by (simp add: word_uint_eq_iff uint_mod uint_word_ariths)
  then have "(uint pc + 4) mod 4 = 0" by (subst (asm) mod_mod_cancel) simp_all
  then have "(uint pc - 0x80000000) mod 4 = 0" by presburger
  then have "(uint pc - 0x80000000) mod 2 ^ 32 mod 4 = 0" by (subst mod_mod_cancel) simp_all
  then have "(pc - CONFIG_MBASE) mod 4 = 0"
    by (simp add: word_uint_eq_iff uint_mod uint_word_ariths CONFIG_MBASE_def)
  then show ?thesis
    using take_bit_eq_mask [of 2 "pc - CONFIG_MBASE"] by (simp add: word_mod_4 mask_eq_exp_minus_1)
qed

lemma plain_fetches:
  assumes "plain c (guest_limit s) m" and "in_step m s"
  shows "mini_fetches (cpu_pc m) (fetched (at_pc m)) s"
proof -
  have r: "ready c (at_pc m)" and l: "guest_to_host (cpu_pc m) + 4 \<le> guest_limit s"
    using assms(1) by (simp_all add: plain_def)
  have "le_read (image s) (guest_to_host (cpu_pc m)) 4 = (le_read (pmem m) (guest_to_host (cpu_pc m)) 4 :: u32)"
    by (rule le_read_cong) (use assms(2) l in \<open>simp add: in_step_def\<close>)
  moreover have "guest_limit s \<le> unat (ram_amt s)" by (simp add: guest_limit_def)
  moreover have "(cpu_pc m + 4) mod 4 = 0" using r by (simp add: ready_def)
  ultimately show ?thesis
    using l aligned_offset [of "cpu_pc m"]
    by (simp add: mini_fetches_def Let_def pc_offset fetched_def guest_to_host_def)
qed

text \<open>What one step of the emulator leaves, as a state that is again in step.\<close>

lemma completes_once:
  assumes "completes c (at_pc m) g p pc (isa_exec_once c E (at_pc m))"
  shows "\<exists>m'. exec_once (isa_exec_once c E) (cpu_pc m) m = Inr m' \<and> gpr m' = g(0 := 0) \<and> pmem m' = p \<and> cpu_pc m' = pc"
  using assms unfolding completes_def
  by (cases "isa_exec_once c E (at_pc m)") (auto simp: exec_once_def at_pc_def [symmetric])

lemma in_step_write:
  assumes "in_step m s" and "r < 32" and "gpr m' = ((gpr m)(unat r := v))(0 := 0)" and "pmem m' = pmem m"
  shows "in_step m' (if r \<noteq> 0 then REGSET r v s else s)"
proof -
  have "same_regs (gpr m') (if r \<noteq> 0 then REGSET r v s else s)"
    using same_regs_write [of "gpr m" s r v] assms by (simp add: in_step_def)
  then show ?thesis
    using assms REGSET_image_below [of _ s r v] by (auto simp: in_step_def)
qed

lemma rd_field: "drop_bit 7 i AND 0x1f = BITS i 11 7" for i :: u32
  using reg_field [of 7 i] by simp

lemma rd_small: "BITS i 11 7 < (32 :: u32)"
proof -
  have "BITS i 11 7 = drop_bit 7 i AND 31" by (simp add: rd_field)
  also have "\<dots> \<le> 31" by (rule word_and_le1)
  finally show ?thesis by (simp add: word_le_nat_alt word_less_nat_alt)
qed

text \<open>
  What both sides do with one instruction: the emulator ends in \<open>m'\<close>, the reference goes on from \<open>s'\<close>
  with the loop counters the emulator's state gives; nothing but the image of the reference changes,
  and its control registers do not.
\<close>

definition core_kept :: "mini \<Rightarrow> mini \<Rightarrow> bool" where
  "core_kept s s' \<longleftrightarrow> s' = s\<lparr>image := image s'\<rparr> \<and> (\<forall>f. 32 \<le> f \<and> f < 48 \<longrightarrow> CSR f s' = CSR f s)"

definition one_step :: "config \<Rightarrow> host_env \<Rightarrow> ('a) rv32_scheme \<Rightarrow> mini \<Rightarrow> ('a) rv32_scheme \<Rightarrow> mini \<Rightarrow> bool" where
  "one_step c E m s m' s' \<longleftrightarrow>
     exec_once (isa_exec_once c E) (cpu_pc m) m = Inr m' \<and> in_step m' s' \<and> core_kept s s' \<and>
     (\<forall>E' n cycle. mini_loop E' (Suc n) cycle (cpu_pc m) s = mini_loop E' n (cycle + 1) (cpu_pc m') s')"

lemma core_kept_limit: "core_kept s s' \<Longrightarrow> guest_limit s' = guest_limit s"
  unfolding core_kept_def guest_limit_def by (metis mini.select_convs(2) mini.surjective mini.update_convs(1))

lemma core_kept_REGSET: "r < 32 \<Longrightarrow> core_kept s (REGSET r v s)"
  by (auto simp: core_kept_def REGSET_def SETCSR_def CSR_SETCSR [unfolded SETCSR_def] word_less_nat_alt)

lemma core_kept_self: "core_kept s s"
  by (simp add: core_kept_def)

text \<open>An instruction that writes its destination register.\<close>

lemma writes_in_step:
  assumes p: "plain c (guest_limit s) m" and s: "in_step m s" and i: "i = fetched (at_pc m)"
    and emu: "completes c (at_pc m) ((gpr m)(unat (BITS i 11 7) := v)) (pmem m) pc (isa_exec_once c E (at_pc m))"
    and mini: "\<And>E' cycle l. l_pc l = cpu_pc m \<Longrightarrow>
      mini_execute E' cycle i s l = Inr (Go (l\<lparr>l_rval := v, l_pc := pc - 4\<rparr>) s)"
  shows "\<exists>m' s'. one_step c E m s m' s'"
proof -
  from completes_once [OF emu] obtain m' where m':
    "exec_once (isa_exec_once c E) (cpu_pc m) m = Inr m'"
    "gpr m' = ((gpr m)(unat (BITS i 11 7) := v))(0 := 0)" "pmem m' = pmem m" "cpu_pc m' = pc"
    by auto
  define s' where "s' = (if BITS i 11 7 \<noteq> 0 then REGSET (BITS i 11 7) v s else s)"
  have "mini_loop E' (Suc n) cycle (cpu_pc m) s = mini_loop E' n (cycle + 1) (cpu_pc m') s'" for E' n cycle
  proof -
    have "mini_execute E' (cycle + 1) i s \<lparr>l_pc = cpu_pc m, l_rval = 0, l_rdid = drop_bit 7 i AND 0x1f, l_trap = 0\<rparr> =
        Inr (Go \<lparr>l_pc = pc - 4, l_rval = v, l_rdid = BITS i 11 7, l_trap = 0\<rparr> s)"
      using mini [of "\<lparr>l_pc = cpu_pc m, l_rval = 0, l_rdid = drop_bit 7 i AND 0x1f, l_trap = 0\<rparr>" E' "cycle + 1"] by (simp add: rd_field)
    from mini_loop_one [OF plain_fetches [OF p s, folded i] this] show ?thesis by (simp add: m'(4) s'_def)
  qed
  moreover have "in_step m' s'"
    unfolding s'_def by (rule in_step_write [OF s rd_small m'(2,3)])
  moreover have "core_kept s s'" using rd_small [of i] by (simp add: s'_def core_kept_REGSET core_kept_self)
  ultimately show ?thesis using m'(1) by (auto simp: one_step_def)
qed

text \<open>An instruction without a destination register; a store changes the memory of both sides.\<close>

lemma quiet_in_step:
  assumes p: "plain c (guest_limit s) m" and s: "in_step m s" and i: "i = fetched (at_pc m)"
    and emu: "completes c (at_pc m) (gpr m) q pc (isa_exec_once c E (at_pc m))"
    and mini: "\<And>E' cycle l. l_pc l = cpu_pc m \<Longrightarrow>
      mini_execute E' cycle i s l = Inr (Go (l\<lparr>l_rdid := 0, l_pc := pc - 4\<rparr>) s')"
    and mem: "\<forall>a < guest_limit s. q a = image s' a" "core_kept s s'" "\<forall>r<32. CSR r s' = CSR r s"
  shows "\<exists>m' s'. one_step c E m s m' s'"
proof -
  from completes_once [OF emu] obtain m' where m':
    "exec_once (isa_exec_once c E) (cpu_pc m) m = Inr m'" "gpr m' = (gpr m)(0 := 0)" "pmem m' = q" "cpu_pc m' = pc"
    by auto
  have g: "gpr m' = gpr m" using s m'(2) by (auto simp: in_step_def)
  have "mini_loop E' (Suc n) cycle (cpu_pc m) s = mini_loop E' n (cycle + 1) (cpu_pc m') s'" for E' n cycle
  proof -
    have "mini_execute E' (cycle + 1) i s \<lparr>l_pc = cpu_pc m, l_rval = 0, l_rdid = drop_bit 7 i AND 0x1f, l_trap = 0\<rparr> =
        Inr (Go \<lparr>l_pc = pc - 4, l_rval = 0, l_rdid = 0, l_trap = 0\<rparr> s')"
      using mini [of "\<lparr>l_pc = cpu_pc m, l_rval = 0, l_rdid = drop_bit 7 i AND 0x1f, l_trap = 0\<rparr>" E' "cycle + 1"] by (simp add: rd_field)
    from mini_loop_one [OF plain_fetches [OF p s, folded i] this] show ?thesis by (simp add: m'(4))
  qed
  moreover have "in_step m' s'"
    using s mem core_kept_limit [OF mem(2)] by (simp add: in_step_def same_regs_def g m'(3))
  ultimately show ?thesis using m'(1) mem(2) by (auto simp: one_step_def)
qed

lemma same_pc: "l_pc l = pc \<Longrightarrow> l\<lparr>l_rval := v, l_pc := pc\<rparr> = l\<lparr>l_rval := v\<rparr>"
  "l_pc l = pc \<Longrightarrow> l\<lparr>l_rdid := r, l_pc := pc\<rparr> = l\<lparr>l_rdid := r\<rparr>"
  by (cases l, simp)+

text \<open>One lemma per kind of instruction.\<close>

lemma alu_in_step:
  assumes p: "plain c (guest_limit s) m" and s: "in_step m s" and i: "i = fetched (at_pc m)"
    and d: "instpat_select (instpat_table c) i = Inr (Some (ty, Alu a))"
  shows "\<exists>m' s'. one_step c E m s m' s'"
proof (rule writes_in_step [OF p s i])
  have "ready c (at_pc m)" using p by (simp add: plain_def)
  from step_alu [OF this d [unfolded i], of E]
  show "completes c (at_pc m) ((gpr m)(unat (BITS i 11 7) := alu_result a (cpu_pc m) (decode_operand i ty (at_pc m))))
      (pmem m) (cpu_pc m + 4) (isa_exec_once c E (at_pc m))" by (simp add: i)
next
  fix E' cycle and l :: locals assume l: "l_pc l = cpu_pc m"
  obtain M K where row: "((M, K), ty, a) \<in> set alu_rows" "i AND M = K" using alu_decoded [OF d] by auto
  have "same_regs (gpr (at_pc m)) s" using s by (simp add: in_step_def)
  from mini_alu_row [OF row this, of E' cycle l] show "mini_execute E' cycle i s l =
      Inr (Go (l\<lparr>l_rval := alu_result a (cpu_pc m) (decode_operand i ty (at_pc m)), l_pc := cpu_pc m + 4 - 4\<rparr>) s)"
    using l by (simp add: same_pc)
qed

lemma slli_in_step:
  assumes p: "plain c (guest_limit s) m" and s: "in_step m s" and i: "i = fetched (at_pc m)"
    and d: "instpat_select (instpat_table c) i = Inr (Some (ty, Slli))"
  shows "\<exists>m' s'. one_step c E m s m' s'"
proof (rule writes_in_step [OF p s i])
  note row = memory_decoded(3) [OF d refl]
  have sh: "immI i AND 0x20 = 0" and r: "ready c (at_pc m)"
    using p d by (simp_all add: plain_def plain_op_def i Let_def)
  from step_slli [OF r, of E] d row sh
  show "completes c (at_pc m) ((gpr m)(unat (BITS i 11 7) := push_bit (unat (BITS (immI i) 6 0)) (gpr m (unat (BITS i 19 15)))))
      (pmem m) (cpu_pc m + 4) (isa_exec_once c E (at_pc m))" by (simp add: i)
next
  fix E' cycle and l :: locals assume l: "l_pc l = cpu_pc m"
  have sh: "immI i AND 0x20 = 0" using p d by (simp add: plain_def plain_op_def i Let_def)
  have "same_regs (gpr m) s" using s by (simp add: in_step_def)
  from mini_slli_row [OF conjunct2 [OF memory_decoded(3) [OF d refl]] sh this, of E' cycle l]
  show "mini_execute E' cycle i s l =
      Inr (Go (l\<lparr>l_rval := push_bit (unat (BITS (immI i) 6 0)) (gpr m (unat (BITS i 19 15))), l_pc := cpu_pc m + 4 - 4\<rparr>) s)"
    using l by (simp add: same_pc)
qed

lemma jal_in_step:
  assumes p: "plain c (guest_limit s) m" and s: "in_step m s" and i: "i = fetched (at_pc m)"
    and d: "instpat_select (instpat_table c) i = Inr (Some (ty, Jal))"
  shows "\<exists>m' s'. one_step c E m s m' s'"
proof (rule writes_in_step [OF p s i])
  have ty: "ty = TYPE_J" using control_decoded(2) [OF d refl] by simp
  have t: "(cpu_pc m + immJ i) mod 4 = 0" and r: "ready c (at_pc m)"
    using p d by (simp_all add: plain_def plain_op_def i Let_def)
  from step_jal [OF r d [unfolded i ty], of E] t
  show "completes c (at_pc m) ((gpr m)(unat (BITS i 11 7) := cpu_pc m + 4)) (pmem m) (cpu_pc m + immJ i)
      (isa_exec_once c E (at_pc m))" by (simp add: i)
next
  fix E' cycle and l :: locals assume l: "l_pc l = cpu_pc m"
  from mini_jal_row [OF conjunct2 [OF control_decoded(2) [OF d refl]], of E' cycle s l]
  show "mini_execute E' cycle i s l = Inr (Go (l\<lparr>l_rval := cpu_pc m + 4, l_pc := cpu_pc m + immJ i - 4\<rparr>) s)"
    using l by simp
qed

lemma jalr_in_step:
  assumes p: "plain c (guest_limit s) m" and s: "in_step m s" and i: "i = fetched (at_pc m)"
    and d: "instpat_select (instpat_table c) i = Inr (Some (ty, Jalr))"
  shows "\<exists>m' s'. one_step c E m s m' s'"
proof (rule writes_in_step [OF p s i])
  have ty: "ty = TYPE_I" using control_decoded(3) [OF d refl] by simp
  define t where "t = (gpr m (unat (BITS i 19 15)) + immI i) AND NOT 1"
  have al: "t mod 4 = 0" and r: "ready c (at_pc m)"
    using p d unfolding t_def plain_def plain_op_def i Let_def by simp_all
  from step_jalr [OF r d [unfolded i ty] _ al, of E] t_def
  show "completes c (at_pc m) ((gpr m)(unat (BITS i 11 7) := cpu_pc m + 4)) (pmem m)
      ((gpr m (unat (BITS i 19 15)) + immI i) AND NOT 1) (isa_exec_once c E (at_pc m))"
    by (simp only: i at_pc_sel at_pc_pmem)
next
  fix E' cycle and l :: locals assume l: "l_pc l = cpu_pc m"
  have "same_regs (gpr m) s" using s by (simp add: in_step_def)
  from mini_jalr_row [OF conjunct2 [OF control_decoded(3) [OF d refl]] this, of E' cycle l]
  show "mini_execute E' cycle i s l =
      Inr (Go (l\<lparr>l_rval := cpu_pc m + 4, l_pc := ((gpr m (unat (BITS i 19 15)) + immI i) AND NOT 1) - 4\<rparr>) s)"
    by (simp only: l)
qed

lemma branch_in_step:
  assumes p: "plain c (guest_limit s) m" and s: "in_step m s" and i: "i = fetched (at_pc m)"
    and d: "instpat_select (instpat_table c) i = Inr (Some (ty, Branch b))"
  shows "\<exists>m' s'. one_step c E m s m' s'"
proof -
  define mx where "mx = (at_pc m)\<lparr>d_dnpc := cpu_pc m + 4\<rparr>"
  have mx: "gpr mx = gpr m" "d_pc mx = cpu_pc m" "d_dnpc mx = cpu_pc m + 4" by (simp_all add: mx_def)
  note cd = control_decoded(1) [OF d refl]
  have al: "(cpu_pc m + SEXT (immB i) 13) mod 4 = 0" and r: "ready c (at_pc m)"
    using p d by (simp_all add: plain_def plain_op_def i Let_def)
  define pc where "pc = d_dnpc (exec_branch b (decode_operand i TYPE_B mx) mx)"
  have pc: "pc = (if branch_taken b (gpr m (unat (BITS i 19 15))) (gpr m (unat (BITS i 24 20)))
      then cpu_pc m + SEXT (immB i) 13 else cpu_pc m + 4)"
    using al mx by (simp add: pc_def exec_branch_def decode_operand_def dnpc_and_check_def Let_def)
  have regs: "same_regs (gpr mx) s" using s by (simp add: in_step_def mx)
  show ?thesis
  proof (rule quiet_in_step [OF p s i])
    show "completes c (at_pc m) (gpr m) (pmem m) pc (isa_exec_once c E (at_pc m))"
    proof -
      have "ty = TYPE_B" using cd ..
      from step_branch [OF r d [unfolded i this], of E] al show ?thesis
        by (simp only: pc i at_pc_sel at_pc_pmem)
    qed
    show "mini_execute E' cycle i s l = Inr (Go (l\<lparr>l_rdid := 0, l_pc := pc - 4\<rparr>) s)"
      if "l_pc l = cpu_pc m" for E' cycle l
      unfolding pc_def by (rule mini_branch_row [OF conjunct2 [OF cd] regs]) (use al mx that in simp_all)
    show "\<forall>a<guest_limit s. pmem m a = image s a" using s by (simp add: in_step_def)
  qed (simp_all add: core_kept_self)
qed

lemma fence_in_step:
  assumes p: "plain c (guest_limit s) m" and s: "in_step m s" and i: "i = fetched (at_pc m)"
    and d: "instpat_select (instpat_table c) i = Inr (Some (ty, Fence))"
  shows "\<exists>m' s'. one_step c E m s m' s'"
proof (rule quiet_in_step [OF p s i])
  have r: "ready c (at_pc m)" using p by (simp add: plain_def)
  from step_fence [OF r d [unfolded i], of E]
  show "completes c (at_pc m) (gpr m) (pmem m) (cpu_pc m + 4) (isa_exec_once c E (at_pc m))" by simp
  have "i AND 0x7f = 0x0f" using p d by (simp add: plain_def plain_op_def i Let_def)
  from mini_fence_row [OF this]
  show "mini_execute E' cycle i s l = Inr (Go (l\<lparr>l_rdid := 0, l_pc := cpu_pc m + 4 - 4\<rparr>) s)"
    if "l_pc l = cpu_pc m" for E' cycle l using that by (simp add: same_pc)
  show "\<forall>a<guest_limit s. pmem m a = image s a" using s by (simp add: in_step_def)
qed (simp_all add: core_kept_self)

text \<open>Loads and stores go to the same place of the two memories.\<close>

lemma reached:
  assumes "reaches c (guest_limit s) a n" and "1 \<le> n"
  shows "unat (a - MINIRV32_RAM_IMAGE_OFFSET) = guest_to_host a" and "guest_to_host a + n + 4 \<le> unat (ram_amt s)"
    and "guest_to_host a + n \<le> guest_limit s"
proof -
  show "unat (a - MINIRV32_RAM_IMAGE_OFFSET) = guest_to_host a"
    by (simp add: guest_to_host_def pc_offset)
  show *: "guest_to_host a + n \<le> guest_limit s" using assms(1) by (simp add: reaches_def)
  then show "guest_to_host a + n + 4 \<le> unat (ram_amt s)"
    using assms(2) by (simp add: guest_limit_def SIZEOF_STATE_def)
qed

lemma core_kept_store:
  assumes "a + n \<le> guest_limit s"
  shows "core_kept s (s\<lparr>image := le_write (image s) a n v\<rparr>)"
    and "r < 32 \<Longrightarrow> CSR r (s\<lparr>image := le_write (image s) a n v\<rparr>) = CSR r s"
proof -
  have *: "CSR f (s\<lparr>image := le_write (image s) a n v\<rparr>) = CSR f s" for f
    using assms by (simp add: CSR_def core_at_def guest_limit_def le_read_write_other)
  show "core_kept s (s\<lparr>image := le_write (image s) a n v\<rparr>)" by (simp add: core_kept_def *)
  show "r < 32 \<Longrightarrow> CSR r (s\<lparr>image := le_write (image s) a n v\<rparr>) = CSR r s" by (rule *)
qed

lemma load_in_step:
  assumes p: "plain c (guest_limit s) m" and s: "in_step m s" and i: "i = fetched (at_pc m)"
    and d: "instpat_select (instpat_table c) i = Inr (Some (ty, Load ld))"
  shows "\<exists>m' s'. one_step c E m s m' s'"
proof -
  note row = memory_decoded(1) [OF d refl]
  define a where "a = gpr m (unat (BITS i 19 15)) + immI i"
  have ty: "ty = TYPE_I" using row ..
  have to: "reaches c (guest_limit s) a (load_len ld)" and r: "ready c (at_pc m)"
    using p d by (simp_all add: plain_def plain_op_def i Let_def a_def)
  have len: "1 \<le> load_len ld" by (cases ld) simp_all
  note at = reached [OF to len]
  have same: "le_read (pmem m) (guest_to_host a) (load_len ld) = (le_read (image s) (guest_to_host a) (load_len ld) :: u32)"
    by (rule le_read_cong) (use s at(3) in \<open>simp add: in_step_def\<close>)
  define v where "v = load_extend ld (le_read (image s) (guest_to_host a) (load_len ld))"
  show ?thesis
  proof (rule writes_in_step [OF p s i])
    from step_load [OF r d [unfolded i ty], of a E] to
    show "completes c (at_pc m) ((gpr m)(unat (BITS i 11 7) := v)) (pmem m) (cpu_pc m + 4) (isa_exec_once c E (at_pc m))"
      by (simp add: i a_def reaches_def v_def same [unfolded a_def i])
  next
    fix E' cycle and l :: locals assume l: "l_pc l = cpu_pc m"
    have regs: "same_regs (gpr m) s" using s by (simp add: in_step_def)
    from mini_load_row [OF conjunct2 [OF row] regs, of "a - MINIRV32_RAM_IMAGE_OFFSET" E' cycle l]
    show "mini_execute E' cycle i s l = Inr (Go (l\<lparr>l_rval := v, l_pc := cpu_pc m + 4 - 4\<rparr>) s)"
      using l at by (simp add: same_pc v_def a_def)
  qed
qed

lemma store_in_step:
  assumes p: "plain c (guest_limit s) m" and s: "in_step m s" and i: "i = fetched (at_pc m)"
    and d: "instpat_select (instpat_table c) i = Inr (Some (ty, Store st))"
  shows "\<exists>m' s'. one_step c E m s m' s'"
proof -
  note row = memory_decoded(2) [OF d refl]
  define a where "a = gpr m (unat (BITS i 19 15)) + immS i"
  define v where "v = gpr m (unat (BITS i 24 20))"
  have ty: "ty = TYPE_S" using row ..
  have to: "reaches c (guest_limit s) a (store_len st)" and r: "ready c (at_pc m)"
    using p d by (simp_all add: plain_def plain_op_def i Let_def a_def)
  have len: "1 \<le> store_len st" by (cases st) simp_all
  note at = reached [OF to len]
  define s' where "s' = s\<lparr>image := le_write (image s) (guest_to_host a) (store_len st) v\<rparr>"
  note k = core_kept_store [OF at(3), where v = v, folded s'_def]
  show ?thesis
  proof (rule quiet_in_step [OF p s i])
    from step_store [OF r d [unfolded i ty], of a E] to
    show "completes c (at_pc m) (gpr m) (le_write (pmem m) (guest_to_host a) (store_len st) v) (cpu_pc m + 4)
        (isa_exec_once c E (at_pc m))" by (simp add: i a_def reaches_def v_def)
    have regs: "same_regs (gpr m) s" using s by (simp add: in_step_def)
    show "mini_execute E' cycle i s l = Inr (Go (l\<lparr>l_rdid := 0, l_pc := cpu_pc m + 4 - 4\<rparr>) s')"
      if "l_pc l = cpu_pc m" for E' cycle l
      using mini_store_row [OF conjunct2 [OF row] regs, of "a - MINIRV32_RAM_IMAGE_OFFSET" E' cycle l] that at
      by (simp add: same_pc v_def a_def s'_def)
    show "\<forall>b<guest_limit s. le_write (pmem m) (guest_to_host a) (store_len st) v b = image s' b"
      using s by (simp add: in_step_def s'_def le_write_apply)
    show "core_kept s s'" by (rule k(1))
    show "\<forall>r<32. CSR r s' = CSR r s" using k(2) by blast
  qed
qed

lemma plain_in_step:
  assumes p: "plain c (guest_limit s) m" and s: "in_step m s"
  shows "\<exists>m' s'. one_step c E m s m' s'"
proof -
  define i where "i = fetched (at_pc m)"
  obtain ty op where d: "instpat_select (instpat_table c) i = Inr (Some (ty, op))" and o: "plain_op c (guest_limit s) i op m"
    using p by (auto simp: plain_def i_def Let_def split: sum.splits option.splits)
  note in_step_rules = alu_in_step slli_in_step jal_in_step jalr_in_step branch_in_step load_in_step store_in_step fence_in_step
  show ?thesis
    by (cases op) (use o d in_step_rules [OF p s i_def] in \<open>auto simp: plain_op_def\<close>)
qed

section \<open>Whole runs\<close>

lemma plain_run_in_step:
  "plain_run c E limit n m m' \<Longrightarrow> limit = guest_limit s \<Longrightarrow> in_step m s \<Longrightarrow>
   \<exists>s' l. mini_loop E' n cycle (cpu_pc m) s = Inr (Go (cycle + of_nat n, l) s') \<and> l_trap l = 0 \<and>
     l_pc l = cpu_pc m' \<and> in_step m' s'"
proof (induction arbitrary: s cycle rule: plain_run.induct)
  case (done_run m)
  then show ?case by auto
next
  case (one_more m m1 n m2)
  obtain m1' s1 where s1: "one_step c E m s m1' s1"
    using plain_in_step [of c s m] one_more by metis
  then have m1: "m1' = m1" and s1: "in_step m1 s1" "core_kept s s1"
    and loop: "mini_loop E' (Suc n) cycle (cpu_pc m) s = mini_loop E' n (cycle + 1) (cpu_pc m1) s1"
    using one_more.hyps(2) unfolding one_step_def by auto
  have "limit = guest_limit s1" using one_more.prems(1) core_kept_limit [OF s1(2)] by simp
  from one_more.IH [OF this s1(1), of "cycle + 1"] show ?case
    unfolding loop by (simp add: add.assoc)
qed

end
