(* ===== verification/Frames.thy ===== *)
theory Frames
  imports RvStep
begin

text \<open>
  What a step of the machine leaves alone: the counters of the execution loop and everything the
  monitor keeps. The interface \<open>io_observer\<close> extends \<open>io_handler\<close> by an observation the
  devices do not change; it holds for whatever lies outside the device state.
\<close>

section \<open>Observations the I/O map preserves\<close>

locale io_observer = io_handler disp for disp :: "(('a) io_scheme) io_dispatch" +
  fixes obs :: "('a) io_scheme \<Rightarrow> 'k"
  assumes handler_obs: "disp cb off n w m = Inr m' \<Longrightarrow> obs m' = obs m"
    and obs_io_space: "obs (m\<lparr>io_space := sp\<rparr>) = obs m"
    and obs_skip_ref: "obs (difftest_skip_ref c m) = obs m"
begin

lemma invoke_callback_obs: "invoke_callback disp cb off n w m = Inr m' \<Longrightarrow> obs m' = obs m"
  by (auto simp: invoke_callback_def handler_obs split: if_splits)

lemma find_mapid_obs: "obs (snd (find_mapid_by_addr c es a m)) = obs m"
  by (induction c es a m rule: find_mapid_by_addr.induct) (simp_all add: obs_skip_ref)

lemma mmio_read_obs:
  assumes "mmio_read c disp a n m = Inr (v, m')"
  shows "obs m' = obs m"
proof -
  obtain mp m1 where f: "fetch_mmio_map c a m = (mp, m1)" by fastforce
  then have "obs m1 = obs m" using find_mapid_obs [of c "mmio_maps m" a m] by (simp add: fetch_mmio_map_def)
  moreover have "map_read c disp a n mp m1 = Inr (v, m')" using assms f by (simp add: mmio_read_def)
  ultimately show ?thesis by (auto simp: map_read_def res_simps Let_def dest: invoke_callback_obs)
qed

lemma mmio_write_obs:
  assumes "mmio_write c disp a n v m = Inr m'"
  shows "obs m' = obs m"
proof -
  obtain mp m1 where f: "fetch_mmio_map c a m = (mp, m1)" by fastforce
  then have "obs m1 = obs m" using find_mapid_obs [of c "mmio_maps m" a m] by (simp add: fetch_mmio_map_def)
  moreover have "map_write c disp a n v mp m1 = Inr m'" using assms f by (simp add: mmio_write_def)
  ultimately show ?thesis by (auto simp: map_write_def res_simps Let_def obs_io_space dest: invoke_callback_obs)
qed

end

interpretation outside: io_observer "dev_dispatch E" "\<lambda>m. (nemu_state m, devs.more m)" for E
  by unfold_locales
    (auto dest: dev_dispatch_same_maps simp: same_maps_def difftest_skip_ref_def split: difftest_ref.split)

section \<open>The frame of a step\<close>

text \<open>The counters of the loop and the monitor's part of the machine.\<close>

definition frame :: "('a) rv32_scheme \<Rightarrow> u64 \<times> u64 \<times> bool \<times> 'a" where
  "frame m = (g_nr_guest_inst m, g_timer m, g_print_step m, rv32.more m)"

lemma frame_upd [simp]:
  "frame (m\<lparr>gpr := x1\<rparr>) = frame m" "frame (m\<lparr>cpu_pc := x2\<rparr>) = frame m" "frame (m\<lparr>d_pc := x3\<rparr>) = frame m"
  "frame (m\<lparr>d_snpc := x4\<rparr>) = frame m" "frame (m\<lparr>d_dnpc := x5\<rparr>) = frame m" "frame (m\<lparr>d_inst := x6\<rparr>) = frame m"
  "frame (m\<lparr>csrs := x7\<rparr>) = frame m" "frame (m\<lparr>amws := x8\<rparr>) = frame m" "frame (m\<lparr>cur_pri := x9\<rparr>) = frame m"
  "frame (m\<lparr>have_exc := y1\<rparr>) = frame m" "frame (m\<lparr>exc_tval := y2\<rparr>) = frame m" "frame (m\<lparr>nemu_state := y3\<rparr>) = frame m"
  "frame (m\<lparr>halt_pc := y4\<rparr>) = frame m" "frame (m\<lparr>halt_ret := y5\<rparr>) = frame m" "frame (m\<lparr>is_skip_ref := y6\<rparr>) = frame m"
  "frame (m\<lparr>skip_dut_nr_inst := y7\<rparr>) = frame m" "frame (m\<lparr>console := y8\<rparr>) = frame m" "frame (m\<lparr>pmem := y9\<rparr>) = frame m"
  by (simp_all add: frame_def)

lemma frame_ops [simp]:
  "frame (csr_put c a v m) = frame m" "frame (csr_mod c a f m) = frame m" "frame (csr_set_field c a k v m) = frame m"
  "frame (set_gpr i v m) = frame m" "frame (trap_peek_exception x y m) = frame m" "frame (recy_exception m) = frame m"
  "frame (dnpc_and_check t m) = frame m" "frame (set_nemu_state c st pc r m) = frame m" "frame (NEMUTRAP c pc r m) = frame m"
  "frame (csr_write_checked c a v m) = frame m" "frame (emit ev m) = frame m"
  by (simp_all add: csr_put_def csr_mod_def csr_set_field_def set_gpr_def trap_peek_exception_def recy_exception_def
      dnpc_and_check_def set_nemu_state_def NEMUTRAP_def difftest_skip_ref_def csr_write_checked_def emit_def
      split: difftest_ref.split)

lemma frame_more: "devs.more m' = devs.more m \<Longrightarrow> frame m' = frame m"
  by (cases m; cases m') (simp add: frame_def)

lemma paddr_read_frame: "paddr_read c E a n m = Inr (v, m') \<Longrightarrow> frame m' = frame m"
  by (auto simp: paddr_read_def res_simps dest!: outside.mmio_read_obs intro: frame_more split: if_splits)

lemma paddr_write_frame: "paddr_write c E a n v m = Inr m' \<Longrightarrow> frame m' = frame m"
  by (auto simp: paddr_write_def pmem_write_def res_simps dest!: outside.mmio_write_obs intro: frame_more split: if_splits)

lemma Mr_frame: "Mr c E a n m = Inr (v, m') \<Longrightarrow> frame m' = frame m"
  by (auto simp: Mr_def vaddr_read_def dest: paddr_read_frame split: if_splits)

lemma Mw_frame: "Mw c E a n v m = Inr m' \<Longrightarrow> frame m' = frame m"
  by (auto simp: Mw_def vaddr_write_def dest: paddr_write_frame split: if_splits)

lemmas frame_dests = Mr_frame Mw_frame

lemma exec_op_frame:
  assumes "exec_op c E op x m = Inr m'"
  shows "frame m' = frame m"
proof (cases op)
  case Slli
  then show ?thesis using assms by (auto simp: exec_slli_def)
next
  case Jal
  then show ?thesis using assms by (auto simp: exec_jal_def Let_def)
next
  case Jalr
  then show ?thesis using assms by (auto simp: exec_jalr_def Let_def)
next
  case (Branch b)
  then show ?thesis using assms by (auto simp: exec_branch_def)
next
  case (Load ld)
  then show ?thesis using assms by (auto simp: exec_load_def res_simps dest: frame_dests)
next
  case (Store st)
  then show ?thesis using assms by (auto simp: exec_store_def dest: frame_dests)
next
  case LrW
  then show ?thesis using assms by (auto simp: exec_lr_def res_simps Let_def dest: frame_dests)
next
  case ScW
  then show ?thesis
    using assms by (auto simp: exec_sc_def res_simps Let_def dest!: frame_dests split: option.splits bool.splits)
next
  case (Amo a)
  then show ?thesis using assms by (auto simp: exec_amo_def res_simps dest!: frame_dests)
next
  case (Csr k)
  then show ?thesis using assms by (auto simp: exec_csr_def Let_def split: if_splits)
next
  case Wfi
  then show ?thesis using assms by (auto simp: exec_wfi_def res_simps Let_def dest!: frame_dests)
qed (use assms in \<open>auto simp: exec_ecall_def exec_ebreak_def exec_sret_def exec_mret_def Let_def\<close>)

lemma handle_exception_frame: "frame (handle_exception c m) = frame m"
  by (simp add: handle_exception_def illegal_instruction_def supervisor_trap_def Let_def)

lemma decode_exec_frame: "decode_exec c E m = Inr m' \<Longrightarrow> frame m' = frame m"
  by (auto simp: decode_exec_def Let_def res_simps decode_finish_def handle_exception_frame
      dest!: exec_op_frame split: option.splits)

lemma timer_expired_frame:
  assumes "timer_expired c E m = Inr (b, m')"
  shows "frame m' = frame m"
proof -
  let ?a = "\<lambda>off. CONFIG_CLINT_MMIO + of_nat off"
  obtain hi m1 ch m2 where 1: "Mr c E (?a MTIMEHI) 4 m = Inr (hi, m1)" "Mr c E (?a MTIMECMPHI) 4 m1 = Inr (ch, m2)"
    using assms by (auto simp: timer_expired_def res_simps)
  note k = Mr_frame [OF 1(1)] Mr_frame [OF 1(2)]
  show ?thesis
  proof (cases "ch < hi")
    case True
    then show ?thesis using assms 1 k by (simp add: timer_expired_def)
  next
    case False
    then obtain lo m3 cl where 2: "Mr c E (?a MTIMELO) 4 m2 = Inr (lo, m3)" "Mr c E (?a MTIMECMPLO) 4 m3 = Inr (cl, m')"
      using assms 1 by (auto simp: timer_expired_def res_simps)
    show ?thesis using k Mr_frame [OF 2(1)] Mr_frame [OF 2(2)] by simp
  qed
qed

lemma irp_and_frame: "irp_and c E m = Inr (b, m') \<Longrightarrow> frame m' = frame m"
proof -
  assume *: "irp_and c E m = Inr (b, m')"
  then obtain e m1 where "timer_expired c E m = Inr (e, m1)" by (auto simp: irp_and_def res_simps)
  with * timer_expired_frame [OF this] show ?thesis
    by (auto simp: irp_and_def Let_def take_irq_def split: if_splits)
qed

lemma isa_exec_once_frame:
  assumes "isa_exec_once c E m = Inr m'"
  shows "frame m' = frame m"
proof -
  from assms obtain i s m1 b m2 where f: "inst_fetch c E (d_snpc m) 4 m = Inr (i, s, m1)"
    and p: "irp_and c E (m1\<lparr>d_inst := i, d_snpc := s\<rparr>) = Inr (b, m2)"
    and d: "(if b then Inr m2 else decode_exec c E m2) = Inr m'"
    by (auto simp: isa_exec_once_def res_simps)
  have "frame m' = frame m2" using d decode_exec_frame [of c E m2 m'] by (auto split: if_splits)
  moreover have "frame m2 = frame m1" using irp_and_frame [OF p] by simp
  moreover have "frame m1 = frame m"
    using f by (auto simp: inst_fetch_def vaddr_ifetch_def res_simps dest: paddr_read_frame)
  ultimately show ?thesis by simp
qed

section \<open>The run state\<close>

text \<open>An instruction leaves the run state alone or ends the program.\<close>

lemma paddr_read_state: "paddr_read c E a n m = Inr (v, m') \<Longrightarrow> nemu_state m' = nemu_state m"
  by (auto simp: paddr_read_def res_simps dest!: outside.mmio_read_obs split: if_splits)

lemma paddr_write_state: "paddr_write c E a n v m = Inr m' \<Longrightarrow> nemu_state m' = nemu_state m"
  by (auto simp: paddr_write_def pmem_write_def res_simps dest!: outside.mmio_write_obs split: if_splits)

lemma Mr_state: "Mr c E a n m = Inr (v, m') \<Longrightarrow> nemu_state m' = nemu_state m"
  by (auto simp: Mr_def vaddr_read_def trap_peek_exception_def dest: paddr_read_state split: if_splits)

lemma Mw_state: "Mw c E a n v m = Inr m' \<Longrightarrow> nemu_state m' = nemu_state m"
  by (auto simp: Mw_def vaddr_write_def trap_peek_exception_def dest: paddr_write_state split: if_splits)

lemmas state_dests = Mr_state Mw_state

lemma state_ops [simp]:
  "nemu_state (set_gpr i v m) = nemu_state m" "nemu_state (trap_peek_exception x y m) = nemu_state m"
  "nemu_state (recy_exception m) = nemu_state m" "nemu_state (dnpc_and_check t m) = nemu_state m"
  "nemu_state (NEMUTRAP c pc r m) = NEMU_END" "nemu_state (csr_write_checked c a v m) = nemu_state m"
  by (simp_all add: set_gpr_def trap_peek_exception_def recy_exception_def dnpc_and_check_def NEMUTRAP_def
      set_nemu_state_def csr_write_checked_def)

lemma exec_op_state:
  assumes "exec_op c E op x m = Inr m'"
  shows "nemu_state m' \<in> {nemu_state m, NEMU_END}"
proof (cases op)
  case (Load ld)
  then show ?thesis using assms by (auto simp: exec_load_def res_simps dest: state_dests)
next
  case (Store st)
  then show ?thesis using assms by (auto simp: exec_store_def dest: state_dests)
next
  case LrW
  then show ?thesis using assms by (auto simp: exec_lr_def res_simps Let_def dest: state_dests)
next
  case ScW
  then show ?thesis
    using assms by (auto simp: exec_sc_def res_simps Let_def dest!: state_dests split: option.splits bool.splits)
next
  case (Amo a)
  then show ?thesis using assms by (auto simp: exec_amo_def res_simps dest!: state_dests)
next
  case Wfi
  then show ?thesis using assms by (auto simp: exec_wfi_def res_simps Let_def dest!: state_dests)
qed (use assms in \<open>auto simp: exec_slli_def exec_jal_def exec_jalr_def exec_branch_def exec_csr_def
      exec_ecall_def exec_ebreak_def exec_sret_def exec_mret_def Let_def split: if_splits\<close>)

lemma handle_exception_state: "nemu_state (handle_exception c m) \<in> {nemu_state m, NEMU_END}"
  by (simp add: handle_exception_def illegal_instruction_def supervisor_trap_def Let_def)

lemma decode_exec_state:
  assumes "decode_exec c E m = Inr m'"
  shows "nemu_state m' \<in> {nemu_state m, NEMU_END}"
proof -
  define m0 where "m0 = dnpc_and_check (d_snpc m) m"
  obtain sel m1 where m1: "(case sel of None \<Rightarrow> Inr m0
      | Some (ty, op) \<Rightarrow> exec_op c E op (decode_operand (d_inst m0) ty m0) m0) = Inr m1" "m' = decode_finish c m1"
    using assms unfolding decode_exec_def Let_def m0_def [symmetric] by (auto simp: res_simps)
  have "nemu_state m1 \<in> {nemu_state m0, NEMU_END}"
    using m1(1) exec_op_state [of c E _ _ m0 m1] by (auto split: option.splits)
  then show ?thesis
    using m1(2) m0_def
    using handle_exception_state [of c "csr_mod c CSR_MISA (\<lambda>v. v AND NOT 0x4) (set_gpr 0 0 m1)"]
    by (auto simp: decode_finish_def Let_def)
qed

lemma timer_expired_state:
  assumes "timer_expired c E m = Inr (b, m')"
  shows "nemu_state m' = nemu_state m"
proof -
  let ?a = "\<lambda>off. CONFIG_CLINT_MMIO + of_nat off"
  obtain hi m1 ch m2 where 1: "Mr c E (?a MTIMEHI) 4 m = Inr (hi, m1)" "Mr c E (?a MTIMECMPHI) 4 m1 = Inr (ch, m2)"
    using assms by (auto simp: timer_expired_def res_simps)
  note k = Mr_state [OF 1(1)] Mr_state [OF 1(2)]
  show ?thesis
  proof (cases "ch < hi")
    case True
    then show ?thesis using assms 1 k by (simp add: timer_expired_def)
  next
    case False
    then obtain lo m3 cl where 2: "Mr c E (?a MTIMELO) 4 m2 = Inr (lo, m3)" "Mr c E (?a MTIMECMPLO) 4 m3 = Inr (cl, m')"
      using assms 1 by (auto simp: timer_expired_def res_simps)
    show ?thesis using k Mr_state [OF 2(1)] Mr_state [OF 2(2)] by simp
  qed
qed

lemma isa_exec_once_state:
  assumes "isa_exec_once c E m = Inr m'"
  shows "nemu_state m' \<in> {nemu_state m, NEMU_END}"
proof -
  from assms obtain i s m1 b m2 where f: "inst_fetch c E (d_snpc m) 4 m = Inr (i, s, m1)"
    and p: "irp_and c E (m1\<lparr>d_inst := i, d_snpc := s\<rparr>) = Inr (b, m2)"
    and d: "(if b then Inr m2 else decode_exec c E m2) = Inr m'"
    by (auto simp: isa_exec_once_def res_simps)
  have "nemu_state m' \<in> {nemu_state m2, NEMU_END}" using d decode_exec_state [of c E m2 m'] by (auto split: if_splits)
  moreover obtain e m3 where "timer_expired c E (m1\<lparr>d_inst := i, d_snpc := s\<rparr>) = Inr (e, m3)"
    using p by (auto simp: irp_and_def res_simps)
  with p timer_expired_state [OF this] have "nemu_state m2 = nemu_state m1"
    by (auto simp: irp_and_def Let_def take_irq_def split: if_splits)
  moreover have "nemu_state m1 = nemu_state m"
    using f by (auto simp: inst_fetch_def vaddr_ifetch_def res_simps dest: paddr_read_state)
  ultimately show ?thesis by simp
qed

section \<open>The devices between two steps\<close>

lemma vga_update_same_maps [keeps]: "same_maps m (vga_update_screen m)"
  by (simp add: same_maps_def vga_update_screen_def update_screen_def emit_def Let_def)

lemma device_update_keeps:
  assumes "device_update c E m = Inr m'"
  shows "same_maps m (m'\<lparr>nemu_state := nemu_state m\<rparr>)" and "nemu_state m' \<in> {nemu_state m, NEMU_QUIT}"
proof -
  obtain now m1 where t: "get_time E m = (now, m1)" by fastforce
  have m1: "same_maps m m1" using get_time_same_maps [of m E] t by simp
  have "same_maps m (m'\<lparr>nemu_state := nemu_state m\<rparr>) \<and> nemu_state m' \<in> {nemu_state m, NEMU_QUIT}"
  proof (cases "now - dev_last m1 < 1000000 div TIMER_HZ")
    case True
    then show ?thesis using assms t m1 by (simp add: device_update_def same_maps_def)
  next
    case False
    then obtain m2 where m2: "clint_update c E (vga_update_screen (m1\<lparr>dev_last := now\<rparr>)) = Inr m2"
      and ev: "sdl_event_loop (env_events E (host_calls m2)) (m2\<lparr>host_calls := Suc (host_calls m2)\<rparr>) = Inr m'"
      using assms t by (auto simp: device_update_def res_simps host_call_def)
    have "same_maps m1 (vga_update_screen (m1\<lparr>dev_last := now\<rparr>))"
      using vga_update_same_maps [of "m1\<lparr>dev_last := now\<rparr>"] by (simp add: same_maps_def)
    then have "same_maps m m2" using m1 clint_update_same_maps [OF m2] by (meson same_maps_trans)
    then show ?thesis using sdl_event_loop_keeps [OF ev] by (auto simp: same_maps_def)
  qed
  then show "same_maps m (m'\<lparr>nemu_state := nemu_state m\<rparr>)" and "nemu_state m' \<in> {nemu_state m, NEMU_QUIT}" by auto
qed

lemma device_update_more: "device_update c E m = Inr m' \<Longrightarrow> devs.more m' = devs.more m"
  using device_update_keeps(1) [of c E m m'] by (simp add: same_maps_def)

end
