(* ===== verification/Cstr.thy ===== *)
theory Cstr
  imports Prelude
begin

text \<open>
  What the monitor uses of the C language and its library on strings and arrays: accesses to an
  array of known size (outside it the run stops with \<open>Host_oob\<close>; index \<open>- 1\<close> is reported as
  offset 0), \<^verbatim>\<open>strtok\<close>, and the number readers \<^verbatim>\<open>atol\<close> and \<^verbatim>\<open>strtol\<close> of a host with a 64-bit
  \<^verbatim>\<open>long\<close>, which saturate. Strings are character lists without the terminating zero.
\<close>

section \<open>Arrays\<close>

definition arr_get :: "'a list \<Rightarrow> int \<Rightarrow> 'a res" where
  "arr_get xs i = (if 0 \<le> i \<and> i < int (length xs) then Inr (xs ! nat i) else Inl (Host_oob (nat i)))"

definition arr_set :: "'a list \<Rightarrow> int \<Rightarrow> 'a \<Rightarrow> 'a list res" where
  "arr_set xs i v = (if 0 \<le> i \<and> i < int (length xs) then Inr (xs[nat i := v]) else Inl (Host_oob (nat i)))"

lemma arr_get_in [simp]: "n < length xs \<Longrightarrow> arr_get xs (int n) = Inr (xs ! n)"
  by (simp add: arr_get_def)

lemma arr_set_in [simp]: "n < length xs \<Longrightarrow> arr_set xs (int n) v = Inr (xs[n := v])"
  by (simp add: arr_set_def)

lemma arr_get_neg [simp]: "arr_get xs (- 1) = Inl (Host_oob 0)"
  by (simp add: arr_get_def)

lemma arr_get_Inr [res_simps]:
  "arr_get xs i = Inr v \<longleftrightarrow> 0 \<le> i \<and> i < int (length xs) \<and> v = xs ! nat i"
  by (auto simp: arr_get_def)

lemma arr_set_Inr [res_simps]:
  "arr_set xs i v = Inr ys \<longleftrightarrow> 0 \<le> i \<and> i < int (length xs) \<and> ys = xs[nat i := v]"
  by (auto simp: arr_set_def)

section \<open>Characters\<close>

definition char_in :: "char \<Rightarrow> char \<Rightarrow> char \<Rightarrow> bool" where
  "char_in lo hi ch \<longleftrightarrow> (of_char lo :: nat) \<le> of_char ch \<and> of_char ch \<le> (of_char hi :: nat)"

definition is_digit :: "char \<Rightarrow> bool" where
  "is_digit ch \<longleftrightarrow> char_in CHR ''0'' CHR ''9'' ch"

text \<open>\<^verbatim>\<open>isspace\<close>, which the number readers skip at the front: blank and the codes 9 to 13.\<close>

definition is_space :: "char \<Rightarrow> bool" where
  "is_space ch \<longleftrightarrow> of_char ch = (32::nat) \<or> (9 \<le> (of_char ch :: nat) \<and> of_char ch \<le> (13::nat))"

text \<open>The value of a digit in bases up to 36, \<open>None\<close> for any other character.\<close>

definition digit_val :: "char \<Rightarrow> nat option" where
  "digit_val ch =
     (if is_digit ch then Some (of_char ch - 48)
      else if char_in CHR ''a'' CHR ''z'' ch then Some (of_char ch - 87)
      else if char_in CHR ''A'' CHR ''Z'' ch then Some (of_char ch - 55)
      else None)"

section \<open>Number readers\<close>

definition LONG_MAX :: int where "LONG_MAX = 2 ^ 63 - 1"
definition LONG_MIN :: int where "LONG_MIN = - (2 ^ 63)"

definition saturate_long :: "int \<Rightarrow> int" where
  "saturate_long v = (if v > LONG_MAX then LONG_MAX else if v < LONG_MIN then LONG_MIN else v)"

text \<open>The digits of the given base at the front of a string, most significant first.\<close>

fun digits_value :: "nat \<Rightarrow> nat \<Rightarrow> string \<Rightarrow> nat" where
  "digits_value b acc [] = acc"
| "digits_value b acc (ch # s) = (case digit_val ch of
      Some d \<Rightarrow> if d < b then digits_value b (acc * b + d) s else acc
    | None \<Rightarrow> acc)"

definition strtol_signed :: "(string \<Rightarrow> nat) \<Rightarrow> string \<Rightarrow> int" where
  "strtol_signed f s = (case dropWhile is_space s of
      [] \<Rightarrow> 0
    | ch # r \<Rightarrow> saturate_long (if ch = CHR ''-'' then - int (f r) else if ch = CHR ''+'' then int (f r) else int (f (ch # r))))"

definition strtol10 :: "string \<Rightarrow> int" where
  "strtol10 s = strtol_signed (digits_value 10 0) s"

text \<open>\<^verbatim>\<open>strtol(s, NULL, 0)\<close>: a \<^verbatim>\<open>0x\<close> prefix selects base 16, a leading 0 base 8.\<close>

definition strtol0_value :: "string \<Rightarrow> nat" where
  "strtol0_value r =
     (if take 1 r \<noteq> ''0'' then digits_value 10 0 r
      else if (take 1 (drop 1 r) = ''x'' \<or> take 1 (drop 1 r) = ''X'') \<and> drop 2 r \<noteq> [] \<and>
          (case digit_val (r ! 2) of Some d \<Rightarrow> d < 16 | None \<Rightarrow> False)
      then digits_value 16 0 (drop 2 r)
      else digits_value 8 0 r)"

definition strtol0 :: "string \<Rightarrow> int" where
  "strtol0 s = strtol_signed strtol0_value s"

definition atol :: "string \<Rightarrow> int" where
  "atol s = strtol10 s"

section \<open>strtok\<close>

text \<open>
  The pointer \<^verbatim>\<open>strtok\<close> keeps between calls is the rest of the string, passed in and returned.
\<close>

definition strtok :: "string \<Rightarrow> string \<Rightarrow> string option \<times> string" where
  "strtok seps s =
     (let s1 = dropWhile (\<lambda>ch. ch \<in> set seps) s in
      if s1 = [] then (None, [])
      else (Some (takeWhile (\<lambda>ch. ch \<notin> set seps) s1), drop 1 (dropWhile (\<lambda>ch. ch \<notin> set seps) s1)))"

section \<open>Decimal numerals\<close>

text \<open>The decimal numeral of a number, the inverse of the readers on what they accept.\<close>

definition dec_digit :: "nat \<Rightarrow> char" where
  "dec_digit d = char_of (48 + d)"

fun dec_text :: "nat \<Rightarrow> string" where
  "dec_text n = (if n < 10 then [dec_digit n] else dec_text (n div 10) @ [dec_digit (n mod 10)])"

declare dec_text.simps [simp del]

lemma of_dec_digit: "d < 10 \<Longrightarrow> of_char (dec_digit d) = 48 + d"
  by (simp add: dec_digit_def)

lemma dec_digit_is_digit [simp]: "d < 10 \<Longrightarrow> is_digit (dec_digit d)"
  by (simp add: is_digit_def char_in_def of_dec_digit)

lemma digit_val_dec_digit [simp]: "d < 10 \<Longrightarrow> digit_val (dec_digit d) = Some d"
  by (simp add: digit_val_def of_dec_digit)

lemma dec_text_digits: "list_all is_digit (dec_text n)"
proof (induction n rule: dec_text.induct)
  case (1 n)
  then show ?case by (subst dec_text.simps) auto
qed

lemma dec_text_nonempty [simp]: "dec_text n \<noteq> []"
  by (subst dec_text.simps) simp

lemma digits_value_append:
  "list_all (\<lambda>ch. \<exists>d<b. digit_val ch = Some d) s \<Longrightarrow>
     digits_value b acc (s @ t) = digits_value b (digits_value b acc s) t"
  by (induction s arbitrary: acc) auto

lemma digit_has_value: "is_digit ch \<Longrightarrow> \<exists>d<10. digit_val ch = Some d"
  by (auto simp: digit_val_def is_digit_def char_in_def intro!: exI [of _ "of_char ch - 48"])

lemma digits_value_dec_text: "digits_value 10 0 (dec_text n) = n"
proof (induction n rule: dec_text.induct)
  case (1 n)
  show ?case
  proof (cases "n < 10")
    case True
    then show ?thesis by (subst dec_text.simps) simp
  next
    case False
    have "list_all (\<lambda>ch. \<exists>d<10. digit_val ch = Some d) (dec_text (n div 10))"
      using dec_text_digits [of "n div 10"] digit_has_value by (auto simp: list_all_iff)
    then show ?thesis
      using False 1 by (subst dec_text.simps) (simp add: digits_value_append)
  qed
qed

lemma digit_not_space: "is_digit ch \<Longrightarrow> \<not> is_space ch \<and> ch \<noteq> CHR ''-'' \<and> ch \<noteq> CHR ''+''"
  by (auto simp: is_digit_def char_in_def is_space_def)

lemma atol_dec_text: "int n \<le> LONG_MAX \<Longrightarrow> atol (dec_text n) = int n"
proof -
  assume n: "int n \<le> LONG_MAX"
  obtain ch r where t: "dec_text n = ch # r" by (cases "dec_text n") auto
  have "is_digit ch" using dec_text_digits [of n] t by simp
  then show ?thesis
    using n digits_value_dec_text [of n] digit_not_space [of ch]
    by (simp add: atol_def strtol10_def strtol_signed_def t saturate_long_def LONG_MIN_def)
qed

end
