(* ===== verification/Expr.thy ===== *)
theory Expr
  imports Cstr RvTrap
begin

text \<open>
  The expression language of the debugger, \<^verbatim>\<open>src/monitor/sdb/expr.c\<close>: the rule table with the
  meaning POSIX gives the expressions in it, the tokenizer with its bracket stack and its
  fixed-size arrays, and the evaluator with its two stacks. \<^verbatim>\<open>tokens\<close> and \<^verbatim>\<open>nr_token\<close> are filled by one
  call of \<^verbatim>\<open>make_token\<close> and cleared before the next, so the tokens are passed as a value.
\<close>

section \<open>The rules\<close>

datatype tok_type = TK_NOTYPE | TK_EQ | TK_DECIMAL | TK_HEX | TK_REG | TK_WORD | TK_CHR char

text \<open>
  An item of an expression of the table: a character of a class (ranges), one or more, any
  number of them, a word boundary.
\<close>

type_synonym char_class = "(char \<times> char) list"

datatype rx = RxOne char_class | RxPlus char_class | RxStar char_class | RxBound

definition in_class :: "char_class \<Rightarrow> char \<Rightarrow> bool" where
  "in_class k ch \<longleftrightarrow> list_ex (\<lambda>(lo, hi). char_in lo hi ch) k"

abbreviation lit :: "char \<Rightarrow> rx" where "lit ch \<equiv> RxOne [(ch, ch)]"

definition class_digit :: char_class where "class_digit = [(CHR ''0'', CHR ''9'')]"
definition class_hex :: char_class where
  "class_hex = [(CHR ''0'', CHR ''9''), (CHR ''A'', CHR ''F''), (CHR ''a'', CHR ''f'')]"
definition class_alpha :: char_class where "class_alpha = [(CHR ''a'', CHR ''z''), (CHR ''A'', CHR ''Z'')]"
definition class_under :: char_class where "class_under = [(CHR ''_'', CHR ''_'')]"

definition is_word :: "char \<Rightarrow> bool" where
  "is_word ch \<longleftrightarrow> in_class (class_alpha @ class_digit @ class_under) ch"

definition rules :: "(rx list \<times> tok_type) list" where
  "rules = [
    ([RxPlus [(CHR '' '', CHR '' '')]], TK_NOTYPE),
    ([lit CHR ''+''], TK_CHR CHR ''+''),
    ([lit CHR ''-''], TK_CHR CHR ''-''),
    ([lit CHR ''*''], TK_CHR CHR ''*''),
    ([lit CHR ''/''], TK_CHR CHR ''/''),
    ([lit CHR ''(''], TK_CHR CHR ''(''),
    ([lit CHR '')''], TK_CHR CHR '')''),
    ([lit CHR ''='', lit CHR ''=''], TK_EQ),
    ([lit CHR ''0'', lit CHR ''x'', RxPlus class_hex], TK_HEX),
    ([RxBound, RxPlus class_digit, RxBound], TK_DECIMAL),
    ([lit CHR ''$'', RxPlus (class_digit @ class_alpha)], TK_REG),
    ([RxBound, RxOne (class_alpha @ class_under), RxStar (class_alpha @ class_digit @ class_under), RxBound], TK_WORD)]"

text \<open>
  The lengths of the matches of an expression at the front of a string; \<open>w\<close> tells whether the
  character before it is a word character. \<^verbatim>\<open>regexec\<close> is given \<^verbatim>\<open>e + position\<close>, so there is none
  at the start; it takes the leftmost longest match, and \<^verbatim>\<open>rm_so = 0\<close> asks that it is at the front.
\<close>

fun rx_ends :: "rx list \<Rightarrow> bool \<Rightarrow> string \<Rightarrow> nat list" where
  "rx_ends [] w s = [0]"
| "rx_ends (RxOne k # r) w [] = []"
| "rx_ends (RxOne k # r) w (ch # s) = (if in_class k ch then map Suc (rx_ends r (is_word ch) s) else [])"
| "rx_ends (RxPlus k # r) w [] = []"
| "rx_ends (RxPlus k # r) w (ch # s) =
     (if in_class k ch then map Suc (rx_ends (RxStar k # r) (is_word ch) s) else [])"
| "rx_ends (RxStar k # r) w [] = rx_ends r w []"
| "rx_ends (RxStar k # r) w (ch # s) = rx_ends r w (ch # s) @
     (if in_class k ch then map Suc (rx_ends (RxStar k # r) (is_word ch) s) else [])"
| "rx_ends (RxBound # r) w s = (if w \<noteq> (s \<noteq> [] \<and> is_word (hd s)) then rx_ends r w s else [])"

definition rx_match :: "rx list \<Rightarrow> string \<Rightarrow> nat option" where
  "rx_match r s = (case rx_ends r False s of [] \<Rightarrow> None | n # ns \<Rightarrow> Some (foldr max ns n))"

text \<open>The inner loop of \<^verbatim>\<open>make_token\<close>: the first rule that matches, with its length.\<close>

fun select_rule :: "(rx list \<times> tok_type) list \<Rightarrow> string \<Rightarrow> (tok_type \<times> nat) option" where
  "select_rule [] s = None"
| "select_rule ((r, ty) # rs) s = (case rx_match r s of Some n \<Rightarrow> Some (ty, n) | None \<Rightarrow> select_rule rs s)"

lemma rx_ends_bound: "n \<in> set (rx_ends r w s) \<Longrightarrow> n \<le> length s"
  by (induction r w s arbitrary: n rule: rx_ends.induct) (auto split: if_splits)

text \<open>Every rule of the table consumes at least one character.\<close>

fun rx_consumes :: "rx list \<Rightarrow> bool" where
  "rx_consumes [] = False"
| "rx_consumes (RxOne k # r) = True"
| "rx_consumes (RxPlus k # r) = True"
| "rx_consumes (RxStar k # r) = rx_consumes r"
| "rx_consumes (RxBound # r) = rx_consumes r"

lemma rx_ends_pos: "rx_consumes r \<Longrightarrow> n \<in> set (rx_ends r w s) \<Longrightarrow> 0 < n"
  by (induction r w s arbitrary: n rule: rx_ends.induct) (auto split: if_splits)

lemma foldr_max_in: "foldr max ns n \<in> set (n # ns)" for n :: nat
  by (induction ns) (auto simp: max_def)

lemma rx_match_in: "rx_match r s = Some n \<Longrightarrow> n \<in> set (rx_ends r False s)"
  using foldr_max_in by (auto simp: rx_match_def split: list.splits)

lemma select_rule_bounds:
  assumes "list_all (\<lambda>(r, _). rx_consumes r) rs" "select_rule rs s = Some (ty, n)"
  shows "0 < n \<and> n \<le> length s"
  using assms
proof (induction rs)
  case (Cons x rs)
  then show ?case
    by (cases x) (auto split: option.splits dest!: rx_match_in dest: rx_ends_bound rx_ends_pos)
qed simp

lemma rules_consume: "list_all (\<lambda>(r, _). rx_consumes r) rules"
  by (simp add: rules_def)

lemmas rule_bounds = select_rule_bounds [OF rules_consume]

section \<open>The tokenizer\<close>

type_synonym token = "tok_type \<times> string"

text \<open>
  \<^verbatim>\<open>make_token\<close> returns true with the tokens in the array, or prints one of three messages with a
  position and returns false.
\<close>

datatype lex_result = Tokens "token list" | Invalid_expr nat | Too_many_tokens nat | No_match nat

record lexer =
  lx_tokens :: "token list"
  bracket_stack :: string
  stack_top :: nat
  position :: nat

definition lexer_init :: lexer where
  "lexer_init = \<lparr>lx_tokens = [], bracket_stack = replicate 32 (char_of (0::nat)), stack_top = 0, position = 0\<rparr>"

text \<open>The common tail of the cases: \<open>strncpy\<close> writes \<^verbatim>\<open>substr_len\<close> characters into \<^verbatim>\<open>str[32]\<close>.\<close>

definition add_token :: "tok_type \<Rightarrow> string \<Rightarrow> lexer \<Rightarrow> (lex_result + lexer) res" where
  "add_token ty str L =
     (if length (lx_tokens L) \<ge> 32 then Inr (Inl (Too_many_tokens (position L)))
      else if length str > 32 then Inl (Host_oob 32)
      else Inr (Inr (L\<lparr>lx_tokens := lx_tokens L @ [(ty, str)]\<rparr>)))"

definition lex_one :: "tok_type \<Rightarrow> string \<Rightarrow> lexer \<Rightarrow> (lex_result + lexer) res" where
  "lex_one ty str L0 =
     (let L = L0\<lparr>position := position L0 + length str\<rparr> in
      if ty = TK_CHR CHR '')'' then
        if stack_top L = 0 then Inr (Inl (Invalid_expr (position L)))
        else bindE (arr_get (bracket_stack L) (int (stack_top L) - 1)) (\<lambda>b.
          if b \<noteq> CHR ''('' then Inr (Inl (Invalid_expr (position L)))
          else bindE (arr_set (bracket_stack L) (int (stack_top L)) (char_of (0::nat))) (\<lambda>bs.
            add_token ty str (L\<lparr>bracket_stack := bs, stack_top := stack_top L - 1\<rparr>)))
      else if ty = TK_CHR CHR ''('' then
        bindE (arr_set (bracket_stack L) (int (stack_top L)) CHR ''('') (\<lambda>bs.
          add_token ty str (L\<lparr>bracket_stack := bs, stack_top := stack_top L + 1\<rparr>))
      else if ty = TK_NOTYPE then Inr (Inr L)
      else add_token ty str L)"

function lex_loop :: "string \<Rightarrow> lexer \<Rightarrow> lex_result res" where
  "lex_loop s L =
     (if s = [] then
        Inr (if stack_top L \<noteq> 0 then Invalid_expr (position L) else Tokens (lx_tokens L))
      else (case select_rule rules s of
          None \<Rightarrow> Inr (No_match (position L))
        | Some (ty, n) \<Rightarrow> (case lex_one ty (take n s) L of
              Inl e \<Rightarrow> Inl e
            | Inr (Inl r) \<Rightarrow> Inr r
            | Inr (Inr L') \<Rightarrow> lex_loop (drop n s) L')))"
  by pat_completeness auto
termination
  by (relation "measure (\<lambda>(s, L). length s)") (auto dest!: rule_bounds)

declare lex_loop.simps [simp del]

definition make_token :: "string \<Rightarrow> lex_result res" where
  "make_token e = lex_loop e lexer_init"

section \<open>The evaluator\<close>

definition calculate :: "char \<Rightarrow> u32 \<Rightarrow> u32 \<Rightarrow> u32 res" where
  "calculate ch a b =
     (if ch = CHR ''+'' then Inr (a + b)
      else if ch = CHR ''-'' then Inr (a - b)
      else if ch = CHR ''*'' then Inr (a * b)
      else if ch = CHR ''/'' then bindE (assertE (b \<noteq> 0) ''Arithmetic Exception!'') (\<lambda>_. Inr (a div b))
      else Inr 0)"

definition is_not_num :: "tok_type \<Rightarrow> bool" where
  "is_not_num ty \<longleftrightarrow> ty \<in> {TK_CHR CHR ''+'', TK_CHR CHR ''-'', TK_CHR CHR ''*'', TK_CHR CHR ''/'', TK_NOTYPE}"

text \<open>
  The locals of \<^verbatim>\<open>tokens_calculation\<close>: two arrays of 32 with their tops, and \<^verbatim>\<open>result\<close>. What the
  arrays hold at entry is indeterminate, an argument of the model.
\<close>

record calc =
  num_stack :: "u32 list"
  num_top :: nat
  op_stack :: string
  op_top :: nat
  calc_result :: u32

definition calc_init :: "u32 list \<Rightarrow> string \<Rightarrow> calc" where
  "calc_init nums ops = \<lparr>num_stack = nums, num_top = 0, op_stack = ops, op_top = 0, calc_result = - 1\<rparr>"

definition num_push :: "u32 \<Rightarrow> calc \<Rightarrow> calc res" where
  "num_push v s = bindE (arr_set (num_stack s) (int (num_top s)) v)
     (\<lambda>ns. Inr (s\<lparr>num_stack := ns, num_top := num_top s + 1\<rparr>))"

definition num_peek :: "calc \<Rightarrow> u32 res" where
  "num_peek s = arr_get (num_stack s) (int (num_top s) - 1)"

definition num_pop :: "calc \<Rightarrow> (u32 \<times> calc) res" where
  "num_pop s = bindE (num_peek s) (\<lambda>v. Inr (v, s\<lparr>num_top := num_top s - 1\<rparr>))"

definition op_push :: "char \<Rightarrow> calc \<Rightarrow> calc res" where
  "op_push ch s = bindE (arr_set (op_stack s) (int (op_top s)) ch)
     (\<lambda>os. Inr (s\<lparr>op_stack := os, op_top := op_top s + 1\<rparr>))"

definition op_peek :: "calc \<Rightarrow> char res" where
  "op_peek s = arr_get (op_stack s) (int (op_top s) - 1)"

definition op_pop :: "calc \<Rightarrow> (char \<times> calc) res" where
  "op_pop s = bindE (op_peek s) (\<lambda>ch. Inr (ch, s\<lparr>op_top := op_top s - 1\<rparr>))"

text \<open>\<^verbatim>\<open>result = calculate(op, b, a)\<close> on the two numbers popped, without the push that follows.\<close>

definition calc_binary :: "char \<Rightarrow> calc \<Rightarrow> calc res" where
  "calc_binary ch s =
     bindE (num_pop s) (\<lambda>(a, s1). bindE (num_pop s1) (\<lambda>(b, s2).
     bindE (calculate ch b a) (\<lambda>v. Inr (s2\<lparr>calc_result := v\<rparr>))))"

text \<open>The loop of the \<^verbatim>\<open>')'\<close> case. The operand of a dereference stays on the stack.\<close>

function close_loop :: "config \<Rightarrow> host_env \<Rightarrow> calc \<Rightarrow> ('a) rv32_scheme \<Rightarrow> (calc \<times> ('a) rv32_scheme) res" where
  "close_loop c E s m =
     (if op_top s = 0 then Inr (s, m)
      else case op_pop s of Inl e \<Rightarrow> Inl e | Inr (ch, s1) \<Rightarrow>
        if ch = CHR ''('' then Inr (s1, m)
        else case
          bindE (op_peek s1) (\<lambda>below.
            if below = CHR ''#'' then
              bindE (num_peek s1) (\<lambda>a. bindE (vaddr_read c E a 4 m) (\<lambda>(v, m1).
              Inr (s1\<lparr>calc_result := v\<rparr>, m1)))
            else bindE (calc_binary ch s1) (\<lambda>s2. Inr (s2, m))) of
            Inl e \<Rightarrow> Inl e
          | Inr (s2, m1) \<Rightarrow> (case num_push (calc_result s2) s2 of
                Inl e \<Rightarrow> Inl e
              | Inr s3 \<Rightarrow> close_loop c E s3 m1))"
  by pat_completeness auto
termination
  by (relation "measure (\<lambda>(c, E, s, m). op_top s)")
    (auto simp: op_pop_def op_peek_def num_push_def calc_binary_def num_pop_def res_simps split: if_splits)

declare close_loop.simps [simp del]

text \<open>
  The loop of the \<^verbatim>\<open>'*'\<close> and \<^verbatim>\<open>'/'\<close> cases. A \<^verbatim>\<open>#\<close> on top is not popped: the loop pushes values
  until \<^verbatim>\<open>num_stack\<close> is full.
\<close>

function mul_loop :: "config \<Rightarrow> host_env \<Rightarrow> calc \<Rightarrow> ('a) rv32_scheme \<Rightarrow> (calc \<times> ('a) rv32_scheme) res" where
  "mul_loop c E s m = (case op_peek s of Inl e \<Rightarrow> Inl e | Inr ch \<Rightarrow>
      if ch = CHR ''*'' \<or> ch = CHR ''/'' \<or> ch = CHR ''#'' then
        (case
          (if ch = CHR ''#'' then
             bindE (num_peek s) (\<lambda>a. bindE (vaddr_read c E a 4 m) (\<lambda>(v, m1). Inr (s\<lparr>calc_result := v\<rparr>, m1)))
           else bindE (calc_binary ch s) (\<lambda>s1. Inr (s1\<lparr>op_top := op_top s1 - 1\<rparr>, m))) of
            Inl e \<Rightarrow> Inl e
          | Inr (s2, m1) \<Rightarrow> (case num_push (calc_result s2) s2 of
                Inl e \<Rightarrow> Inl e
              | Inr s3 \<Rightarrow> mul_loop c E s3 m1))
      else Inr (s, m))"
  by pat_completeness auto
termination
  by (relation "inv_image (less_than <*lex*> less_than)
        (\<lambda>(c, E, s, m). (op_top s, length (num_stack s) - num_top s))")
    (auto simp: op_pop_def op_peek_def num_push_def calc_binary_def num_pop_def num_peek_def res_simps
      split: if_splits)

declare mul_loop.simps [simp del]

text \<open>The loop of the \<^verbatim>\<open>'+'\<close> and \<^verbatim>\<open>'-'\<close> cases; its test excludes the \<^verbatim>\<open>#\<close> its body asks for.\<close>

function add_loop :: "config \<Rightarrow> host_env \<Rightarrow> calc \<Rightarrow> ('a) rv32_scheme \<Rightarrow> (calc \<times> ('a) rv32_scheme) res" where
  "add_loop c E s m = (case op_peek s of Inl e \<Rightarrow> Inl e | Inr ch \<Rightarrow>
      if ch = CHR ''*'' \<or> ch = CHR ''/'' then
        (case
          (if ch = CHR ''#'' then
             bindE (num_peek s) (\<lambda>a. bindE (assertE (a \<noteq> 0) ''Attempted to dereference a null pointer.'') (\<lambda>_.
             bindE (num_pop s) (\<lambda>(a, s1). bindE (vaddr_read c E a 4 m) (\<lambda>(v, m1).
             Inr (s1\<lparr>calc_result := v, op_top := op_top s1 - 1\<rparr>, m1)))))
           else bindE (calc_binary ch s) (\<lambda>s1. Inr (s1\<lparr>op_top := op_top s1 - 1\<rparr>, m))) of
            Inl e \<Rightarrow> Inl e
          | Inr (s2, m1) \<Rightarrow> (case num_push (calc_result s2) s2 of
                Inl e \<Rightarrow> Inl e
              | Inr s3 \<Rightarrow> add_loop c E s3 m1))
      else Inr (s, m))"
  by pat_completeness auto
termination
  by (relation "measure (\<lambda>(c, E, s, m). op_top s)")
    (auto simp: op_pop_def op_peek_def num_push_def calc_binary_def num_pop_def num_peek_def res_simps
      split: if_splits)

declare add_loop.simps [simp del]

text \<open>
  The loop after the last token. With one number left under a binary operator it pushes the
  value of \<^verbatim>\<open>result\<close> again, initially \<^verbatim>\<open>-1\<close>, and calculates in its next round.
\<close>

function final_loop :: "config \<Rightarrow> host_env \<Rightarrow> calc \<Rightarrow> ('a) rv32_scheme \<Rightarrow> (calc \<times> ('a) rv32_scheme) res" where
  "final_loop c E s m =
     (if op_top s > 0 \<and> num_top s > 0 then
        (case op_peek s of Inl e \<Rightarrow> Inl e | Inr ch \<Rightarrow>
          case
          (if ch = CHR ''#'' then
             bindE (num_peek s) (\<lambda>a. bindE (assertE (a \<noteq> 0) ''Attempted to dereference a null pointer.'') (\<lambda>_.
             bindE (num_pop s) (\<lambda>(a, s1). bindE (vaddr_read c E a 4 m) (\<lambda>(v, m1).
             Inr (s1\<lparr>calc_result := v, op_top := op_top s1 - 1\<rparr>, m1)))))
           else if num_top s > 1 then bindE (calc_binary ch s) (\<lambda>s1. Inr (s1\<lparr>op_top := op_top s1 - 1\<rparr>, m))
           else Inr (s, m)) of
            Inl e \<Rightarrow> Inl e
          | Inr (s2, m1) \<Rightarrow> (case num_push (calc_result s2) s2 of
                Inl e \<Rightarrow> Inl e
              | Inr s3 \<Rightarrow> final_loop c E s3 m1))
      else Inr (s, m))"
  by pat_completeness auto
termination
  by (relation "measure (\<lambda>(c, E, s, m). 2 * op_top s + (if num_top s = 1 then 1 else 0))")
    (auto simp: op_pop_def op_peek_def num_push_def calc_binary_def num_pop_def num_peek_def res_simps
      split: if_splits)

declare final_loop.simps [simp del]

text \<open>
  One token; \<open>prev\<close> is the type of the token before it. \<open>None\<close> for the stacks is the early
  return for an unknown register. The strings the number readers get must be terminated within \<^verbatim>\<open>str[32]\<close>.
\<close>

definition c_str :: "string \<Rightarrow> string res" where
  "c_str s = (if length s < 32 then Inr s else Inl (Host_oob 32))"

definition calc_token ::
    "config \<Rightarrow> host_env \<Rightarrow> tok_type option \<Rightarrow> token \<Rightarrow> calc \<Rightarrow> ('a) rv32_scheme \<Rightarrow>
     (calc option \<times> ('a) rv32_scheme) res" where
  "calc_token c E prev tok s m =
     (let ok = (\<lambda>r. bindE r (\<lambda>s'. Inr (Some s', m))); done = (\<lambda>r. bindE r (\<lambda>(s', m'). Inr (Some s', m')))
      in case fst tok of
        TK_DECIMAL \<Rightarrow> bindE (c_str (snd tok)) (\<lambda>str. ok (num_push (word_of_int (atol str)) s))
      | TK_HEX \<Rightarrow> bindE (c_str (snd tok)) (\<lambda>str. ok (num_push (word_of_int (strtol0 str)) s))
      | TK_REG \<Rightarrow> bindE (c_str (snd tok)) (\<lambda>str.
          case isa_reg_str2val (tl str) m of (v, success) \<Rightarrow>
            bindE (num_push v s) (\<lambda>s1.
              if success then Inr (Some s1, m) else Inr (None, emit (OutLine ''Reg %s is not find'' [str] []) m)))
      | TK_WORD \<Rightarrow> ok (num_push 0 s)
      | TK_CHR ch \<Rightarrow>
          if ch = CHR ''('' then ok (op_push CHR ''('' s)
          else if ch = CHR '')'' then done (close_loop c E s m)
          else if ch = CHR ''*'' \<and> (case prev of None \<Rightarrow> True | Some ty \<Rightarrow> is_not_num ty) then ok (op_push CHR ''#'' s)
          else if ch = CHR ''*'' \<or> ch = CHR ''/'' then
            done (bindE (if op_top s > 0 then mul_loop c E s m else Inr (s, m)) (\<lambda>(s1, m1).
              bindE (op_push ch s1) (\<lambda>s2. Inr (s2, m1))))
          else if ch = CHR ''-'' \<or> ch = CHR ''+'' then
            (if op_top s = 0 then ok (op_push ch s)
             else bindE (op_peek s) (\<lambda>top.
               if top = CHR ''('' \<or> top = CHR ''+'' \<or> top = CHR ''-'' then ok (op_push ch s)
               else done (add_loop c E s m)))
          else Inr (Some s, m)
      | _ \<Rightarrow> Inr (Some s, m))"

fun calc_tokens ::
    "config \<Rightarrow> host_env \<Rightarrow> tok_type option \<Rightarrow> token list \<Rightarrow> calc \<Rightarrow> ('a) rv32_scheme \<Rightarrow>
     (calc option \<times> ('a) rv32_scheme) res" where
  "calc_tokens c E prev [] s m = Inr (Some s, m)"
| "calc_tokens c E prev (tok # toks) s m = bindE (calc_token c E prev tok s m) (\<lambda>(r, m1). case r of
      None \<Rightarrow> Inr (None, m1)
    | Some s1 \<Rightarrow> calc_tokens c E (Some (fst tok)) toks s1 m1)"

text \<open>The value, the success flag and the machine: a dereference can reach a device.\<close>

definition tokens_calculation ::
    "config \<Rightarrow> host_env \<Rightarrow> u32 list \<Rightarrow> string \<Rightarrow> token list \<Rightarrow> ('a) rv32_scheme \<Rightarrow>
     (u32 \<times> bool \<times> ('a) rv32_scheme) res" where
  "tokens_calculation c E nums ops toks m =
     bindE (calc_tokens c E None toks (calc_init nums ops) m) (\<lambda>(r, m1). case r of
        None \<Rightarrow> Inr (- 1, False, m1)
      | Some s \<Rightarrow> bindE (final_loop c E s m1) (\<lambda>(s2, m2).
          Inr (num_stack s2 ! 0, True, m2)))"

definition lex_message :: "string \<Rightarrow> lex_result \<Rightarrow> ('a) devs_scheme \<Rightarrow> ('a) devs_scheme" where
  "lex_message e r m = (case r of
      Tokens toks \<Rightarrow> m
    | Invalid_expr p \<Rightarrow> emit (OutLine ''Invalid expression at position %d'' [e] [int p]) m
    | Too_many_tokens p \<Rightarrow> emit (OutLine ''The number of tokens is greater than 32 %d'' [e] [int p]) m
    | No_match p \<Rightarrow> emit (OutLine ''no match at position %d'' [e] [int p]) m)"

definition expr ::
    "config \<Rightarrow> host_env \<Rightarrow> u32 list \<Rightarrow> string \<Rightarrow> string \<Rightarrow> ('a) rv32_scheme \<Rightarrow>
     (u32 \<times> bool \<times> ('a) rv32_scheme) res" where
  "expr c E nums ops e m =
     bindE (make_token e) (\<lambda>r. case r of
        Tokens toks \<Rightarrow> tokens_calculation c E nums ops toks m
      | _ \<Rightarrow> Inr (0, False, lex_message e r m))"

end
