(* ===== verification/Sdb.thy ===== *)
theory Sdb
  imports Expr CpuExec
begin

text \<open>
  The debugger, \<^verbatim>\<open>src/monitor/sdb/sdb.c\<close> and \<^verbatim>\<open>src/monitor/sdb/watchpoint.c\<close>: the commands, the table
  they are looked up in and the loop over the lines the user enters. A command takes what \<^verbatim>\<open>strtok\<close>
  has left of the line and returns its status. \<^verbatim>\<open>c EXPR\<close> may run forever, so commands return an option:
  \<open>None\<close> is the run that does not come back.
\<close>

section \<open>Results\<close>

type_synonym 'm cmd_result = "(int \<times> 'm) res option"

definition ret :: "int \<Rightarrow> 'm \<Rightarrow> 'm cmd_result" where
  "ret v m = Some (Inr (v, m))"

definition lift_res :: "'x res \<Rightarrow> ('x \<Rightarrow> 'm cmd_result) \<Rightarrow> 'm cmd_result" where
  "lift_res r f = (case r of Inl e \<Rightarrow> Some (Inl e) | Inr x \<Rightarrow> f x)"

definition say :: "string \<Rightarrow> string list \<Rightarrow> int list \<Rightarrow> ('a) devs_scheme \<Rightarrow> ('a) devs_scheme" where
  "say fmt ss ns m = emit (OutLine fmt ss ns) m"

definition sdb_expr ::
    "config \<Rightarrow> host_env \<Rightarrow> mon_env \<Rightarrow> string \<Rightarrow> ('a) rv32_scheme \<Rightarrow> (u32 \<times> bool \<times> ('a) rv32_scheme) res" where
  "sdb_expr c E M e m =
     expr c E (map (menv_num_stack M) [0..<32]) (map (menv_op_stack M) [0..<32]) e m"

section \<open>Running\<close>

text \<open>The loop of \<^verbatim>\<open>c EXPR\<close>.\<close>

partial_function (option) run_until ::
    "config \<Rightarrow> host_env \<Rightarrow> mon_env \<Rightarrow> 'r ref_ops \<Rightarrow> u32 \<Rightarrow> ('r, 'a) monitor_scheme \<Rightarrow>
     ('r, 'a) monitor_scheme res option" where
  "run_until c E M R e m =
     (if cpu_pc m \<noteq> e \<and> (nemu_state m = NEMU_RUNNING \<or> nemu_state m = NEMU_STOP) then
        (case rv_exec c E M R 1 m of
           Inl err \<Rightarrow> Some (Inl err)
         | Inr m1 \<Rightarrow> run_until c E M R e m1)
      else Some (Inr m))"

definition cmd_c ::
    "config \<Rightarrow> host_env \<Rightarrow> mon_env \<Rightarrow> 'r ref_ops \<Rightarrow> string \<Rightarrow> ('r, 'a) monitor_scheme \<Rightarrow>
     ('r, 'a) monitor_scheme cmd_result" where
  "cmd_c c E M R rest m =
     (if is_batch_mode m then lift_res (rv_exec c E M R (- 1) m) (ret 0)
      else (case fst (strtok ''\<newline>'' rest) of
         None \<Rightarrow> lift_res (rv_exec c E M R (- 1) m) (ret 0)
       | Some arg \<Rightarrow>
           lift_res (sdb_expr c E M arg m) (\<lambda>(EXPR, SUCCESS, m1).
           if \<not> SUCCESS then ret 1 (say ''EXPR is ERROR'' [] [] m1)
           else (case run_until c E M R EXPR m1 of None \<Rightarrow> None | Some r \<Rightarrow> lift_res r (ret 0)))))"

definition cmd_q :: "('r, 'a) monitor_scheme \<Rightarrow> ('r, 'a) monitor_scheme cmd_result" where
  "cmd_q m = ret (- 1) (m\<lparr>nemu_state := NEMU_QUIT\<rparr>)"

text \<open>
  \<^verbatim>\<open>N\<close> is a \<^verbatim>\<open>word_t\<close>: cast to \<^verbatim>\<open>int64_t\<close> it is not negative, and never reaches the upper limit.
\<close>

definition bad_count :: "u32 \<Rightarrow> bool" where
  "bad_count N \<longleftrightarrow> uint N \<le> 0 \<or> 0x7fffffffffffffff \<le> uint N"

definition cmd_si ::
    "config \<Rightarrow> host_env \<Rightarrow> mon_env \<Rightarrow> 'r ref_ops \<Rightarrow> string \<Rightarrow> ('r, 'a) monitor_scheme \<Rightarrow>
     ('r, 'a) monitor_scheme cmd_result" where
  "cmd_si c E M R rest m = (case fst (strtok '' '' rest) of
      None \<Rightarrow> lift_res (rv_exec c E M R 1 m) (ret 0)
    | Some arg \<Rightarrow>
        (let N = (word_of_int (atol arg) :: u32) in
         if bad_count N then ret 1 (say ''Argument %s is not valid: Maybe it's  <= 0, too big, or a character...'' [arg] [] m)
         else lift_res (rv_exec c E M R (ucast N) m) (ret 0)))"

section \<open>Printing\<close>

definition cmd_clear :: "('r, 'a) monitor_scheme \<Rightarrow> ('r, 'a) monitor_scheme cmd_result" where
  "cmd_clear m = ret 0 (say (char_of (27::nat) # ''[H'' @ char_of (27::nat) # ''[2J'') [] [] m)"

definition cmd_info :: "config \<Rightarrow> string \<Rightarrow> ('r, 'a) monitor_scheme \<Rightarrow> ('r, 'a) monitor_scheme cmd_result" where
  "cmd_info c rest m =
     (let all = ret 0 (show_regs c (say ''print all reg info'' [] [] m)) in
      case strtok '' '' rest of
        (None, _) \<Rightarrow> all
      | (Some arg, rest1) \<Rightarrow>
          if arg = ''r'' \<or> arg = ''registers'' then
            (case fst (strtok '' '' rest1) of
               None \<Rightarrow> all
             | Some name \<Rightarrow> (case isa_reg_str2val name m of (val, success) \<Rightarrow>
                 if success then ret 0 (say ''%-4s    0x%08x    %010d'' [name] [uint val, sint val] m)
                 else ret 0 (say ''Invalid register %s''  [name] [] m)))
          else if arg = ''all-registers'' then ret 0 (show_regs c m)
          else if arg = ''w'' then ret 0 (say ''print watch point'' [] [] m)
          else if arg = ''p'' then ret 0 (say ''mode is %d'' [] [uint (cur_pri m)] m)
          else all)"

text \<open>
  One line of \<^verbatim>\<open>x\<close>: four bytes, the highest address first. C leaves the order of the four reads
  open; here they happen from the last argument to the first, as gcc evaluates them.
\<close>

definition examine_word ::
    "config \<Rightarrow> host_env \<Rightarrow> u32 \<Rightarrow> ('r, 'a) monitor_scheme \<Rightarrow> ('r, 'a) monitor_scheme res" where
  "examine_word c E a m =
     bindE (vaddr_read c E (a + 0) 1 m) (\<lambda>(b0, m1).
     bindE (vaddr_read c E (a + 1) 1 m1) (\<lambda>(b1, m2).
     bindE (vaddr_read c E (a + 2) 1 m2) (\<lambda>(b2, m3).
     bindE (vaddr_read c E (a + 3) 1 m3) (\<lambda>(b3, m4).
     Inr (say ''0x%08x :   0x%02x    0x%02x    0x%02x    0x%02x'' []
            [uint a, uint b3, uint b2, uint b1, uint b0] m4)))))"

fun examine ::
    "config \<Rightarrow> host_env \<Rightarrow> nat \<Rightarrow> u32 \<Rightarrow> ('r, 'a) monitor_scheme \<Rightarrow> ('r, 'a) monitor_scheme res" where
  "examine c E 0 a m = Inr m"
| "examine c E (Suc n) a m = bindE (examine_word c E a m) (examine c E n (a + 4))"

definition cmd_x ::
    "config \<Rightarrow> host_env \<Rightarrow> mon_env \<Rightarrow> string \<Rightarrow> ('r, 'a) monitor_scheme \<Rightarrow> ('r, 'a) monitor_scheme cmd_result" where
  "cmd_x c E M rest m = (case strtok '' '' rest of
      (None, _) \<Rightarrow> lift_res (examine c E 1 0 m) (ret 0)
    | (Some arg, rest1) \<Rightarrow>
        (let N = (word_of_int (atol arg) :: u32) in
         if bad_count N then ret 1 (say ''Argument %s is not valid: Maybe it's  <= 0, too big, or a character...'' [arg] [] m)
         else (case fst (strtok ''\<newline>'' rest1) of
             None \<Rightarrow> ret 1 (say ''EXPR is empty'' [] [] m)
           | Some e \<Rightarrow> lift_res (sdb_expr c E M e m) (\<lambda>(EXPR, SUCCESS, m1).
               if \<not> SUCCESS then ret 1 (say ''EXPR is ERROR'' [] [] m1)
               else lift_res (examine c E (unat N) EXPR m1) (ret 0)))))"

definition cmd_exp ::
    "config \<Rightarrow> host_env \<Rightarrow> mon_env \<Rightarrow> string \<Rightarrow> ('r, 'a) monitor_scheme \<Rightarrow> ('r, 'a) monitor_scheme cmd_result" where
  "cmd_exp c E M rest m = (case fst (strtok ''\<newline>'' rest) of
      None \<Rightarrow> ret 1 (say ''EXPR is empty'' [] [] m)
    | Some e \<Rightarrow> lift_res (sdb_expr c E M e m) (\<lambda>(EXPR, SUCCESS, m1).
        if \<not> SUCCESS then ret 1 (say ''EXPR is ERROR'' [] [] m1)
        else ret 0 (say ''0x%08x    %d'' [] [uint EXPR, sint EXPR] m1)))"

section \<open>The command table\<close>

datatype cmd = Cmd_help | Cmd_c | Cmd_q | Cmd_si | Cmd_clear | Cmd_info | Cmd_x | Cmd_exp

definition cmd_table :: "(string \<times> string \<times> cmd) list" where
  "cmd_table = [
    (''help'', ''Display information about all supported commands'', Cmd_help),
    (''c'', ''Continue the execution of the program'', Cmd_c),
    (''q'', ''Exit NEMU'', Cmd_q),
    (''si'', ''Single step. When N is not specified, the default is 1.'', Cmd_si),
    (''clear'', ''Clear all display on the current terminal screen.'', Cmd_clear),
    (''info'', ''Generic command for showing things about the program being debugged'', Cmd_info),
    (''x'', ''Examine memory: x/FMT ADDRESS.ADDRESS is an expression for the memory address to examine.'', Cmd_x),
    (''p'', ''Print value of expression EXP'', Cmd_exp)]"

definition describe :: "string \<times> string \<times> cmd \<Rightarrow> ('a) devs_scheme \<Rightarrow> ('a) devs_scheme" where
  "describe row m = say ''%s - %s'' [fst row, fst (snd row)] [] m"

definition cmd_help :: "string \<Rightarrow> ('r, 'a) monitor_scheme \<Rightarrow> ('r, 'a) monitor_scheme cmd_result" where
  "cmd_help rest m = (case fst (strtok '' '' rest) of
      None \<Rightarrow> ret 0 (fold describe cmd_table m)
    | Some arg \<Rightarrow> (case filter (\<lambda>row. fst row = arg) cmd_table of
          row # _ \<Rightarrow> ret 0 (describe row m)
        | [] \<Rightarrow> ret 0 (say ''Unknown command %s'' [arg] [] m)))"

fun handler ::
    "config \<Rightarrow> host_env \<Rightarrow> mon_env \<Rightarrow> 'r ref_ops \<Rightarrow> cmd \<Rightarrow> string \<Rightarrow> ('r, 'a) monitor_scheme \<Rightarrow>
     ('r, 'a) monitor_scheme cmd_result" where
  "handler c E M R Cmd_help rest m = cmd_help rest m"
| "handler c E M R Cmd_c rest m = cmd_c c E M R rest m"
| "handler c E M R Cmd_q rest m = cmd_q m"
| "handler c E M R Cmd_si rest m = cmd_si c E M R rest m"
| "handler c E M R Cmd_clear rest m = cmd_clear m"
| "handler c E M R Cmd_info rest m = cmd_info c rest m"
| "handler c E M R Cmd_x rest m = cmd_x c E M rest m"
| "handler c E M R Cmd_exp rest m = cmd_exp c E M rest m"

section \<open>The loop\<close>

definition sdb_set_batch_mode :: "('r, 'a) monitor_scheme \<Rightarrow> ('r, 'a) monitor_scheme" where
  "sdb_set_batch_mode m = m\<lparr>is_batch_mode := True\<rparr>"

text \<open>One line; the result tells whether the loop goes on.\<close>

definition sdb_line ::
    "config \<Rightarrow> host_env \<Rightarrow> mon_env \<Rightarrow> 'r ref_ops \<Rightarrow> string \<Rightarrow> ('r, 'a) monitor_scheme \<Rightarrow>
     (bool \<times> ('r, 'a) monitor_scheme) res option" where
  "sdb_line c E M R str m = (case strtok '' '' str of
      (None, _) \<Rightarrow> Some (Inr (True, m))
    | (Some cmd, rest) \<Rightarrow>
        (let m1 = sdl_clear_event_queue E m in
         case map_of cmd_table cmd of
           None \<Rightarrow> Some (Inr (True, say ''Unknown command %s'' [cmd] [] m1))
         | Some (_, k) \<Rightarrow> (case handler c E M R k rest m1 of
               None \<Rightarrow> None
             | Some (Inl e) \<Rightarrow> Some (Inl e)
             | Some (Inr (status, m2)) \<Rightarrow> Some (Inr (\<not> status < 0, m2)))))"

fun sdb_lines ::
    "config \<Rightarrow> host_env \<Rightarrow> mon_env \<Rightarrow> 'r ref_ops \<Rightarrow> string list \<Rightarrow> ('r, 'a) monitor_scheme \<Rightarrow>
     ('r, 'a) monitor_scheme res option" where
  "sdb_lines c E M R [] m = Some (Inr m)"
| "sdb_lines c E M R (str # strs) m = (case sdb_line c E M R str m of
      None \<Rightarrow> None
    | Some (Inl e) \<Rightarrow> Some (Inl e)
    | Some (Inr (go_on, m1)) \<Rightarrow> if go_on then sdb_lines c E M R strs m1 else Some (Inr m1))"

definition sdb_mainloop ::
    "config \<Rightarrow> host_env \<Rightarrow> mon_env \<Rightarrow> 'r ref_ops \<Rightarrow> ('r, 'a) monitor_scheme \<Rightarrow> ('r, 'a) monitor_scheme res option" where
  "sdb_mainloop c E M R m =
     (if is_batch_mode m then (case cmd_c c E M R '''' m of
        None \<Rightarrow> None | Some (Inl e) \<Rightarrow> Some (Inl e) | Some (Inr (_, m1)) \<Rightarrow> Some (Inr m1))
      else sdb_lines c E M R (menv_lines M) m)"

section \<open>Watchpoints\<close>

definition NR_WP :: nat where "NR_WP = 32"

definition init_wp_pool :: "('r, 'a) monitor_scheme \<Rightarrow> ('r, 'a) monitor_scheme" where
  "init_wp_pool m =
     m\<lparr>wp_pool := map (\<lambda>i. \<lparr>wp_NO = int i, wp_next = (if i = NR_WP - 1 then None else Some (i + 1))\<rparr>) [0..<NR_WP],
       wp_head := None, wp_free := Some 0\<rparr>"

text \<open>\<^verbatim>\<open>regcomp\<close> accepts every expression of the table, so \<^verbatim>\<open>init_regex\<close> leaves no trace.\<close>

definition init_sdb :: "('r, 'a) monitor_scheme \<Rightarrow> ('r, 'a) monitor_scheme" where
  "init_sdb m = init_wp_pool m"

end
