(* ===== verification/ExecProps.thy ===== *)
theory ExecProps
  imports Frames Sdb
begin

text \<open>
  The execution loop. The interface \<open>exec_loop\<close> states what the loop relies on: the step of the
  instruction set and the check after it leave the instruction counter alone and the run state
  alone, unless they end or abort the program. It is interpreted for the RISC-V core with differential testing.
\<close>

section \<open>Splitting a run\<close>

lemma execute_split:
  "execute c E step check a m = Inr m1 \<Longrightarrow> nemu_state m1 = NEMU_RUNNING \<Longrightarrow>
   execute c E step check (a + b) m = execute c E step check b m1"
proof (induction a arbitrary: m)
  case (Suc a)
  then show ?case
    by (cases "execute_one step check m") (auto simp: res_simps split: if_splits)
qed simp

section \<open>Counting instructions\<close>

locale exec_loop =
  fixes step :: "('a) cpu_scheme stepper" and check :: "u32 \<Rightarrow> u32 \<Rightarrow> ('a) cpu_scheme stepper"
  assumes step_counts: "step m = Inr m' \<Longrightarrow> g_nr_guest_inst m' = g_nr_guest_inst m"
    and check_counts: "check pc npc m = Inr m' \<Longrightarrow> g_nr_guest_inst m' = g_nr_guest_inst m"
    and step_state: "step m = Inr m' \<Longrightarrow> nemu_state m' \<in> {nemu_state m, NEMU_END, NEMU_ABORT}"
    and check_state: "check pc npc m = Inr m' \<Longrightarrow> nemu_state m' \<in> {nemu_state m, NEMU_END, NEMU_ABORT}"
begin

lemma execute_one_counts:
  "execute_one step check m = Inr m' \<Longrightarrow> g_nr_guest_inst m' = g_nr_guest_inst m + 1"
  by (auto simp: execute_one_def exec_once_def res_simps Let_def dest!: step_counts check_counts)

lemma execute_one_state:
  "execute_one step check m = Inr m' \<Longrightarrow> nemu_state m' \<in> {nemu_state m, NEMU_END, NEMU_ABORT}"
  by (auto simp: execute_one_def exec_once_def res_simps Let_def dest!: step_state check_state)

end

text \<open>Between two instructions the devices run.\<close>

lemma devs_more_cpu: "devs.more m' = devs.more m \<Longrightarrow> g_nr_guest_inst m' = g_nr_guest_inst m"
  by (cases m; cases m') simp

lemma device_update_count: "device_update c E m = Inr m' \<Longrightarrow> g_nr_guest_inst m' = g_nr_guest_inst m"
  for m :: "('a) cpu_scheme"
  by (rule devs_more_cpu) (rule device_update_more)

context exec_loop
begin

text \<open>A run executes at most the instructions asked for, and all of them if nothing stopped it.\<close>

lemma execute_count:
  "execute c E step check n m = Inr m' \<Longrightarrow> nemu_state m \<noteq> NEMU_STOP \<Longrightarrow>
   nemu_state m' \<noteq> NEMU_STOP \<and>
   (\<exists>k\<le>n. g_nr_guest_inst m' = g_nr_guest_inst m + of_nat k \<and> (nemu_state m' = NEMU_RUNNING \<longrightarrow> k = n))"
proof (induction n arbitrary: m)
  case (Suc n)
  obtain m1 where m1: "execute_one step check m = Inr m1"
    using Suc.prems(1) by (auto simp: res_simps)
  have g1: "g_nr_guest_inst m1 = g_nr_guest_inst m + 1" and s1: "nemu_state m1 \<noteq> NEMU_STOP"
    using execute_one_counts [OF m1] execute_one_state [OF m1] Suc.prems(2) by auto
  show ?case
  proof (cases "nemu_state m1 = NEMU_RUNNING")
    case False
    then have "m' = m1" using Suc.prems(1) m1 by simp
    then show ?thesis using False g1 s1 by (intro conjI exI [of _ 1]) auto
  next
    case True
    then obtain m2 where m2: "device_update c E m1 = Inr m2" "execute c E step check n m2 = Inr m'"
      using Suc.prems(1) m1 by (auto simp: res_simps)
    have g2: "g_nr_guest_inst m2 = g_nr_guest_inst m + 1" using device_update_count [OF m2(1)] g1 by simp
    have "nemu_state m2 \<noteq> NEMU_STOP"
      using device_update_keeps(2) [OF m2(1)] True by auto
    then obtain k where "nemu_state m' \<noteq> NEMU_STOP" "k \<le> n" "g_nr_guest_inst m' = g_nr_guest_inst m2 + of_nat k"
      "nemu_state m' = NEMU_RUNNING \<longrightarrow> k = n"
      using Suc.IH [OF m2(2)] by blast
    then show ?thesis using g2 by (intro conjI exI [of _ "Suc k"]) auto
  qed
qed simp

lemma cpu_exec_count:
  assumes run: "cpu_exec c E step check n m = Inr m'" and "nemu_state m \<noteq> NEMU_END" "nemu_state m \<noteq> NEMU_ABORT"
  shows "nemu_state m' \<noteq> NEMU_RUNNING \<and>
    (\<exists>k\<le>unat n. g_nr_guest_inst m' = g_nr_guest_inst m + of_nat k \<and> (nemu_state m' = NEMU_STOP \<longrightarrow> k = unat n))"
proof -
  define m0 where "m0 = m\<lparr>g_print_step := (n < MAX_INST_TO_PRINT), nemu_state := NEMU_RUNNING\<rparr>"
  obtain t1 m1 where t1: "get_time E m0 = (t1, m1)" by fastforce
  obtain m2 where m2: "execute c E step check (unat n) m1 = Inr m2"
    using run assms(2,3) t1 by (cases "execute c E step check (unat n) m1") (simp_all add: cpu_exec_def Let_def m0_def)
  obtain t2 m3 where t2: "get_time E m2 = (t2, m3)" by fastforce
  have time: "nemu_state m1 = NEMU_RUNNING" "g_nr_guest_inst m1 = g_nr_guest_inst m"
  proof -
    have s: "m1 = snd (get_time E m0)" using t1 by simp
    show "nemu_state m1 = NEMU_RUNNING" by (simp only: s get_time_keeps) (simp add: m0_def)
    have "g_nr_guest_inst m1 = g_nr_guest_inst m0" by (rule devs_more_cpu) (simp only: s get_time_keeps)
    then show "g_nr_guest_inst m1 = g_nr_guest_inst m" by (simp add: m0_def)
  qed
  have time2: "nemu_state m3 = nemu_state m2" "g_nr_guest_inst m3 = g_nr_guest_inst m2"
  proof -
    have s: "m3 = snd (get_time E m2)" using t2 by simp
    show "nemu_state m3 = nemu_state m2" by (simp only: s get_time_keeps)
    show "g_nr_guest_inst m3 = g_nr_guest_inst m2" by (rule devs_more_cpu) (simp only: s get_time_keeps)
  qed
  obtain k where k: "nemu_state m2 \<noteq> NEMU_STOP" "k \<le> unat n" "g_nr_guest_inst m2 = g_nr_guest_inst m1 + of_nat k"
      "nemu_state m2 = NEMU_RUNNING \<longrightarrow> k = unat n"
    using execute_count [OF m2] time by auto
  have keeps: "nemu_state (statistic x) = nemu_state x" "g_nr_guest_inst (statistic x) = g_nr_guest_inst x" for x :: "('a) cpu_scheme"
    by (simp_all add: statistic_def emit_def Let_def)
  have "nemu_state m' \<noteq> NEMU_RUNNING \<and> g_nr_guest_inst m' = g_nr_guest_inst m2 \<and>
      (nemu_state m' = NEMU_STOP \<longrightarrow> nemu_state m2 = NEMU_RUNNING)"
    using run assms(2,3) t1 t2 m2 time2 k(1)
    by (cases "nemu_state m2") (auto simp: cpu_exec_def Let_def m0_def keeps emit_def)
  then show ?thesis using k time(2) by auto
qed

end

text \<open>A program that has ended is not run again.\<close>

lemma cpu_exec_ended:
  assumes "nemu_state m = NEMU_END \<or> nemu_state m = NEMU_ABORT"
  shows "\<exists>m'. cpu_exec c E step check n m = Inr m' \<and> nemu_state m' = nemu_state m \<and>
    g_nr_guest_inst m' = g_nr_guest_inst m \<and> cpu_pc m' = cpu_pc m \<and> gpr m' = gpr m \<and> pmem m' = pmem m"
  using assms by (auto simp: cpu_exec_def Let_def emit_def)

section \<open>The RISC-V core with differential testing\<close>

text \<open>The comparison prints, asks, and moves the reference; it touches nothing else of the emulator.\<close>

lemma check_list_console: "\<exists>x. snd (snd (check_list d rs pc m)) = m\<lparr>console := x\<rparr>"
proof (induction d rs pc m rule: check_list.induct)
  case (1 d pc m)
  show ?case by (intro exI [of _ "console m"]) simp
next
  case (2 d name dut ref rs pc m)
  show ?case
  proof (cases "d ref dut")
    case True
    then obtain x where "snd (snd (check_list d rs (cpu_pc m) (emit (OutLine ''pc gpr'' [name] [uint pc, uint dut, uint ref]) m))) =
        (emit (OutLine ''pc gpr'' [name] [uint pc, uint dut, uint ref]) m)\<lparr>console := x\<rparr>"
      using 2(1) by blast
    then show ?thesis using True by (auto simp: emit_def split: prod.splits)
  next
    case False
    then show ?thesis using 2(2) by simp
  qed
qed

lemma emit_console_upd: "(emit ev m)\<lparr>console := x\<rparr> = m\<lparr>console := x\<rparr>"
  by (simp add: emit_def)

lemma show_regs_console: "\<exists>x. show_regs c m = m\<lparr>console := x\<rparr>"
proof -
  have "\<exists>x. fold (\<lambda>(name, v). emit (OutLine ''register'' [name] [uint v, sint v])) rs m = m\<lparr>console := x\<rparr>" for rs
  proof (induction rs arbitrary: m)
    case Nil
    show ?case by (intro exI [of _ "console m"]) simp
  next
    case (Cons a rs)
    then obtain x where "fold (\<lambda>(name, v). emit (OutLine ''register'' [name] [uint v, sint v])) rs
        (emit (OutLine ''register'' [fst a] [uint (snd a), sint (snd a)]) m) =
      (emit (OutLine ''register'' [fst a] [uint (snd a), sint (snd a)]) m)\<lparr>console := x\<rparr>" by blast
    then show ?case by (cases a) (auto simp: emit_console_upd)
  qed
  then show ?thesis by (simp add: show_regs_def)
qed

definition dut_frame :: "('r, 'a) monitor_scheme \<Rightarrow> u64 \<times> nemu_run \<times> (nat \<Rightarrow> u32) \<times> u32 \<times> (nat \<Rightarrow> u32) \<times> bytes" where
  "dut_frame m = (g_nr_guest_inst m, nemu_state m, gpr m, cpu_pc m, csrs m, pmem m)"

lemma dut_frame_upd [simp]:
  "dut_frame (m\<lparr>console := x\<rparr>) = dut_frame m" "dut_frame (m\<lparr>ref_state := r\<rparr>) = dut_frame m"
  "dut_frame (m\<lparr>skip_dut_nr_inst := k\<rparr>) = dut_frame m" "dut_frame (m\<lparr>skip_dut_one_inst := b\<rparr>) = dut_frame m"
  "dut_frame (m\<lparr>host_calls := n\<rparr>) = dut_frame m" "dut_frame (emit ev m) = dut_frame m"
  by (simp_all add: dut_frame_def emit_def)

lemma check_list_frame: "check_list d rs pc m = (n, pc', m') \<Longrightarrow> dut_frame m' = dut_frame m"
  using check_list_console [of d rs pc m] by auto

lemma exec_ref_frame: "exec_ref R n m = Inr m' \<Longrightarrow> \<exists>r. m' = m\<lparr>ref_state := r\<rparr>"
proof (induction n arbitrary: m)
  case 0
  then show ?case by (intro exI [of _ "ref_state m"]) simp
next
  case (Suc n)
  then show ?case by (fastforce simp: res_simps)
qed

lemma checkregs_dut:
  assumes "isa_difftest_checkregs c M R ref pc m = Inr (ok, m')"
  shows "dut_frame m' = dut_frame m"
proof -
  obtain e1 pc1 m1 where l1: "check_list gpr_differs (gpr_pairs ref m) pc m = (e1, pc1, m1)" by (rule prod_cases3)
  obtain e2 pc2 m2 where l2: "(if cfg_difftest c = DIFFTEST_REF_SPIKE then check_list (\<noteq>) (csr_pairs c ref m1) pc1 m1
      else (0, pc1, m1)) = (e2, pc2, m2)" by (rule prod_cases3)
  have m2: "dut_frame m2 = dut_frame m"
    using check_list_frame [OF l1] l2 check_list_frame [of "(\<noteq>)" _ pc1 m1 e2 pc2 m2] by (auto split: if_splits)
  show ?thesis
    using assms m2 unfolding isa_difftest_checkregs_def l1 l2 prod.case
    by (auto simp: host_call_def difftest_skip_ref_one_def difftest_skip_dut_def res_simps dest!: exec_ref_frame
        split: if_splits option.splits)
qed

lemma checkregs_keeps:
  assumes "checkregs c M R ref pc m = Inr m'"
  shows "g_nr_guest_inst m' = g_nr_guest_inst m \<and> nemu_state m' \<in> {nemu_state m, NEMU_ABORT}"
proof -
  obtain ok m1 where m1: "isa_difftest_checkregs c M R ref pc m = Inr (ok, m1)"
    and m': "m' = (if ok then m1 else show_regs c (m1\<lparr>nemu_state := NEMU_ABORT, halt_pc := pc\<rparr>))"
    using assms by (auto simp: checkregs_def res_simps)
  obtain x where "show_regs c (m1\<lparr>nemu_state := NEMU_ABORT, halt_pc := pc\<rparr>) =
      m1\<lparr>nemu_state := NEMU_ABORT, halt_pc := pc\<rparr>\<lparr>console := x\<rparr>"
    using show_regs_console by blast
  then show ?thesis
    using checkregs_dut [OF m1] m' by (auto simp: dut_frame_def)
qed

lemma difftest_step_keeps:
  assumes "difftest_step c E M R pc npc m = Inr m'"
  shows "g_nr_guest_inst m' = g_nr_guest_inst m \<and> nemu_state m' \<in> {nemu_state m, NEMU_ABORT}"
proof -
  have sync: "g_nr_guest_inst m2 = g_nr_guest_inst m1 \<and> nemu_state m2 = nemu_state m1" if "sync_timer c E R m1 = Inr m2" for m1 m2
    using that paddr_write_state [of c E _ 8 _ m1 m2] paddr_write_frame [of c E _ 8 _ m1 m2]
    by (auto simp: sync_timer_def frame_def split: if_splits)
  show ?thesis
    using assms
    by (auto simp: difftest_step_def Let_def res_simps copy_regs_to_ref_def dest!: checkregs_keeps sync exec_ref_frame
        split: if_splits)
qed

interpretation rv: exec_loop "rv_step c E" "difftest_step c E M R" for c E M R
proof
  show "rv_step c E m = Inr m' \<Longrightarrow> g_nr_guest_inst m' = g_nr_guest_inst m" for m m' :: "('r, 'b) monitor_scheme"
    using isa_exec_once_frame [of c E m m'] by (simp add: rv_step_def frame_def)
  show "rv_step c E m = Inr m' \<Longrightarrow> nemu_state m' \<in> {nemu_state m, NEMU_END, NEMU_ABORT}" for m m' :: "('r, 'b) monitor_scheme"
    using isa_exec_once_state [of c E m m'] by (auto simp: rv_step_def)
qed (use difftest_step_keeps in \<open>blast+\<close>)

section \<open>Events of the window\<close>

text \<open>Nobody closes the window or presses a key; whatever else SDL reports is ignored.\<close>

definition no_input :: "host_env \<Rightarrow> bool" where
  "no_input E \<longleftrightarrow> (\<forall>k. list_all ((=) SDL_OTHER) (env_events E k))"

lemma sdl_event_loop_other: "list_all ((=) SDL_OTHER) evs \<Longrightarrow> sdl_event_loop evs m = Inr m"
  by (induction evs) auto

lemma no_input_events:
  assumes "no_input E" and "host_call (env_events E) m = (evs, m')"
  shows "sdl_event_loop evs m' = Inr (m\<lparr>host_calls := host_calls m + 1\<rparr>)"
  using assms by (auto simp: no_input_def host_call_def intro!: sdl_event_loop_other)

end
