(* ===== verification/Monitor.thy ===== *)
theory Monitor
  imports Sdb
begin

text \<open>
  The start of the emulator: \<^verbatim>\<open>src/monitor/monitor.c\<close>, \<^verbatim>\<open>src/engine/interpreter/init.c\<close> and
  \<^verbatim>\<open>src/nemu-main.c\<close>, in the native build. \<^verbatim>\<open>getopt_long\<close> delivers the options one by one; the model
  takes them as it returns them, the letter with the argument.
\<close>

section \<open>Loading files\<close>

text \<open>
  The size is an \<^verbatim>\<open>unsigned int\<close>. \<^verbatim>\<open>fread\<close> of one item of that size returns 0 for an empty file, and
  the assertion fails; nothing compares the size with the room behind \<^verbatim>\<open>guest_to_host(paddr)\<close>.
\<close>

definition input_file_load ::
    "mon_env \<Rightarrow> string option \<Rightarrow> u32 \<Rightarrow> ('r, 'a) monitor_scheme \<Rightarrow> (int \<times> ('r, 'a) monitor_scheme) res" where
  "input_file_load M file_name paddr m = (case file_name of
      None \<Rightarrow> Inr (0, m)
    | Some name \<Rightarrow> (case menv_file M name of
          None \<Rightarrow> Inl (Assert_fail ''Can not open '%s' '')
        | Some bs \<Rightarrow>
            (let size = (of_nat (length bs) :: u32);
                 m1 = emit (OutLine ''The image is %s, size = %d mmap  at [0x%08x, 0x%08x]'' [name]
                        [sint size, uint paddr, uint (paddr + size)]) m;
                 a = guest_to_host paddr; n = unat size in
             bindE (in_object MSIZE a n) (\<lambda>_.
             bindE (assertE (n \<noteq> 0) ''ret == 1'') (\<lambda>_.
             Inr (uint size, m1\<lparr>pmem := put_bytes (pmem m1) a (take n bs)\<rparr>))))))"

definition no_image_message :: "('a) devs_scheme \<Rightarrow> ('a) devs_scheme" where
  "no_image_message m = emit (OutLine ''no image no bios no kernel from built in image boot'' [] []) m"

definition load_img :: "mon_env \<Rightarrow> ('r, 'a) monitor_scheme \<Rightarrow> (int \<times> ('r, 'a) monitor_scheme) res" where
  "load_img M m =
     (if img_file m = None \<and> bios_file m = None \<and> dtb_file m = None \<and> kernel_file m = None
      then Inr (4096, no_image_message m)
      else
        bindE (input_file_load M (img_file m) RESET_VECTOR m) (\<lambda>(n1, m1).
        bindE (input_file_load M (bios_file m1) (RESET_VECTOR + word_of_int n1) m1) (\<lambda>(n2, m2).
        bindE (input_file_load M (kernel_file m2) PMEM_KERNEL m2) (\<lambda>(n3, m3).
        let total = n1 + n2 + n3 in
        if total = 0 then Inr (4096, no_image_message m3)
        else bindE (input_file_load M (dtb_file m3) PMEM_DTB m3) (\<lambda>(n4, m4). Inr (total + n4, m4))))))"

section \<open>Arguments\<close>

text \<open>
  What \<^verbatim>\<open>getopt_long\<close> returns: the option letters with their arguments, 1 for an operand, anything
  else. \<^verbatim>\<open>sscanf\<close> with \<^verbatim>\<open>%d\<close> is a parameter; \<open>None\<close> leaves the variable alone.
\<close>

datatype opt =
    Opt_b | Opt_p string | Opt_m string | Opt_l string | Opt_d string | Opt_i string | Opt_k string | Opt_t string
  | Opt_image string | Opt_other

fun parse_args ::
    "(string \<Rightarrow> int option) \<Rightarrow> opt list \<Rightarrow> ('r, 'a) monitor_scheme \<Rightarrow> ('r, 'a) monitor_scheme res" where
  "parse_args scan [] m = Inr m"
| "parse_args scan (Opt_b # os) m = parse_args scan os (sdb_set_batch_mode m)"
| "parse_args scan (Opt_p s # os) m =
     parse_args scan os (case scan s of None \<Rightarrow> m | Some v \<Rightarrow> m\<lparr>difftest_port := v\<rparr>)"
| "parse_args scan (Opt_m s # os) m =
     parse_args scan os (case scan s of None \<Rightarrow> m | Some v \<Rightarrow> m\<lparr>cur_pri := word_of_int v\<rparr>)"
| "parse_args scan (Opt_l s # os) m = parse_args scan os (m\<lparr>log_file := Some s\<rparr>)"
| "parse_args scan (Opt_d s # os) m = parse_args scan os (m\<lparr>diff_so_file := Some s\<rparr>)"
| "parse_args scan (Opt_i s # os) m = parse_args scan os (m\<lparr>bios_file := Some s\<rparr>)"
| "parse_args scan (Opt_k s # os) m = parse_args scan os (m\<lparr>kernel_file := Some s\<rparr>)"
| "parse_args scan (Opt_t s # os) m = parse_args scan os (m\<lparr>dtb_file := Some s\<rparr>)"
| "parse_args scan (Opt_image s # os) m = Inr (m\<lparr>img_file := Some s\<rparr>)"
| "parse_args scan (Opt_other # os) m = Inl (Exit 0)"

section \<open>init\_monitor and main\<close>

text \<open>
  \<open>heap\<close> is the fresh I/O space, \<open>fill\<close> the byte the memory starts with. The random seed, the
  log file and the redirection of \<^verbatim>\<open>stderr\<close> have no counterpart in the state.
\<close>

definition init_monitor ::
    "config \<Rightarrow> host_env \<Rightarrow> mon_env \<Rightarrow> 'r ref_ops \<Rightarrow> bytes \<Rightarrow> u8 \<Rightarrow> (string \<Rightarrow> int option) \<Rightarrow> opt list \<Rightarrow>
     ('r, 'a) monitor_scheme \<Rightarrow> ('r, 'a) monitor_scheme res" where
  "init_monitor c E M R heap fill scan os m =
     bindE (parse_args scan os m) (\<lambda>m1.
     bindE (init_device c E heap (init_mem fill m1)) (\<lambda>m2.
     bindE (init_isa c m2) (\<lambda>m3.
     bindE (load_img M m3) (\<lambda>(img_size, m4).
     bindE (init_difftest c M R (diff_so_file m4) (nat img_size) (difftest_port m4) m4) (\<lambda>m5.
     Inr (init_sdb m5))))))"

definition engine_start ::
    "config \<Rightarrow> host_env \<Rightarrow> mon_env \<Rightarrow> 'r ref_ops \<Rightarrow> ('r, 'a) monitor_scheme \<Rightarrow> ('r, 'a) monitor_scheme res option" where
  "engine_start c E M R m = sdb_mainloop c E M R m"

definition main ::
    "config \<Rightarrow> host_env \<Rightarrow> mon_env \<Rightarrow> 'r ref_ops \<Rightarrow> bytes \<Rightarrow> u8 \<Rightarrow> (string \<Rightarrow> int option) \<Rightarrow> opt list \<Rightarrow>
     ('r, 'a) monitor_scheme \<Rightarrow> int res option" where
  "main c E M R heap fill scan os m = (case init_monitor c E M R heap fill scan os m of
      Inl e \<Rightarrow> Some (Inl e)
    | Inr m1 \<Rightarrow> (case engine_start c E M R m1 of
          None \<Rightarrow> None
        | Some (Inl e) \<Rightarrow> Some (Inl e)
        | Some (Inr m2) \<Rightarrow> Some (Inr (is_exit_status_bad m2))))"

end
