(* ===== verification/GuestExit.thy ===== *)
theory GuestExit
  imports Lockstep ExecProps Machines Monitor
begin

text \<open>
  How a guest program ends the emulator: \<^verbatim>\<open>ebreak\<close> from the step of the processor through \<^verbatim>\<open>execute\<close> and
  \<^verbatim>\<open>cpu_exec\<close> to the exit status; and the machines with a monitor used to evaluate the model.
\<close>

unbundle bit_operations_syntax

section \<open>The step\<close>

lemma step_ebreak:
  assumes "ready c m" and "instpat_select (instpat_table c) (fetched m) = Inr (Some (ty, Ebreak))"
  shows "\<exists>m'. isa_exec_once c E m = Inr m' \<and> nemu_state m' = NEMU_END \<and> halt_pc m' = d_pc m \<and> halt_ret m' = gpr m 10"
proof -
  define m1 where "m1 = exec_ebreak c (decode_state c m)"
  have "have_exc (decode_state c m) = RISCV_EXCP_NONE" using assms(1) by (simp add: ready_def)
  then have "have_exc m1 = RISCV_EXCP_NONE" "nemu_state m1 = NEMU_END" "halt_pc m1 = d_pc m" "halt_ret m1 = gpr m 10"
    by (simp_all add: m1_def exec_ebreak_def Let_def NEMUTRAP_def set_nemu_state_def difftest_skip_ref_def
      csr_put_def split: difftest_ref.split)
  then show ?thesis
    unfolding isa_exec_once_ready [OF assms]
    by (simp add: m1_def [symmetric] decode_finish_def handle_exception_def csr_mod_def csr_put_def set_gpr_def Let_def)
qed

section \<open>The loop and the exit status\<close>

text \<open>The next instruction is an \<^verbatim>\<open>ebreak\<close>, and nothing stands in its way.\<close>

definition at_ebreak :: "config \<Rightarrow> ('a) rv32_scheme \<Rightarrow> bool" where
  "at_ebreak c m \<longleftrightarrow> ready c (at_pc m) \<and>
     (case instpat_select (instpat_table c) (fetched (at_pc m)) of Inr (Some (_, Ebreak)) \<Rightarrow> True | _ \<Rightarrow> False)"

lemma execute_one_ebreak:
  assumes "at_ebreak c m" and "cfg_difftest c = DIFFTEST_OFF"
  shows "\<exists>m'. execute_one (rv_step c E) (difftest_step c E M R) m = Inr m' \<and> nemu_state m' = NEMU_END \<and>
    halt_pc m' = cpu_pc m \<and> halt_ret m' = gpr m 10"
proof -
  obtain ty where "ready c (at_pc m)" "instpat_select (instpat_table c) (fetched (at_pc m)) = Inr (Some (ty, Ebreak))"
    using assms(1) by (auto simp: at_ebreak_def split: sum.splits option.splits prod.splits op.splits)
  from step_ebreak [OF this] obtain m' where "isa_exec_once c E (at_pc m) = Inr m'" "nemu_state m' = NEMU_END"
    "halt_pc m' = cpu_pc m" "halt_ret m' = gpr m 10" by auto
  then show ?thesis
    using assms(2)
    by (simp add: execute_one_def exec_once_def rv_step_def at_pc_def [symmetric] Let_def difftest_step_def)
qed

lemma get_time_cpu:
  "cpu_pc (snd (get_time E m)) = cpu_pc m" "gpr (snd (get_time E m)) = gpr m" "pmem (snd (get_time E m)) = pmem m"
  "csrs (snd (get_time E m)) = csrs m" "have_exc (snd (get_time E m)) = have_exc m"
  "halt_pc (snd (get_time E m)) = halt_pc m" "halt_ret (snd (get_time E m)) = halt_ret m"
  "cur_pri (snd (get_time E m)) = cur_pri m" "io_space (snd (get_time E m)) = io_space m"
  for m :: "('a) rv32_scheme"
  by (simp_all add: get_time_def get_time_internal_def host_call_def Let_def split: prod.splits)

lemma at_ebreak_cong:
  assumes "mmio_maps m' = mmio_maps m" "cpu_pc m' = cpu_pc m" "csrs m' = csrs m" "have_exc m' = have_exc m" "pmem m' = pmem m"
    and "cur_pri m' = cur_pri m" "io_space m' = io_space m"
  shows "at_ebreak c m' = at_ebreak c m"
proof -
  have "no_interrupt c (at_pc m') = no_interrupt c (at_pc m)"
    by (rule no_interrupt_cong) (use assms in \<open>simp_all add: at_pc_def\<close>)
  then show ?thesis using assms(1-5) by (simp add: at_ebreak_def ready_def fetched_def bus_ok_def at_pc_def)
qed

lemma cpu_exec_ebreak:
  assumes eb: "at_ebreak c m" and off: "cfg_difftest c = DIFFTEST_OFF"
    and st: "nemu_state m \<noteq> NEMU_END" "nemu_state m \<noteq> NEMU_ABORT" and n: "0 < n"
  shows "\<exists>m'. rv_exec c E M R n m = Inr m' \<and> nemu_state m' = NEMU_END \<and> halt_pc m' = cpu_pc m \<and> halt_ret m' = gpr m 10"
proof -
  define m0 where "m0 = m\<lparr>g_print_step := (n < MAX_INST_TO_PRINT), nemu_state := NEMU_RUNNING\<rparr>"
  obtain t1 m1 where g1: "get_time E m0 = (t1, m1)" by (rule prod.exhaust)
  have m1: "m1 = snd (get_time E m0)" by (simp add: g1)
  have sel: "cpu_pc m1 = cpu_pc m" "gpr m1 = gpr m"
    by (simp_all add: m1 get_time_cpu m0_def)
  have "at_ebreak c m1 = at_ebreak c m"
    by (rule at_ebreak_cong) (simp_all add: m1 get_time_cpu m0_def)
  with eb have "at_ebreak c m1" by simp
  from execute_one_ebreak [OF this off, of E M R] obtain m2 where m2:
    "execute_one (rv_step c E) (difftest_step c E M R) m1 = Inr m2" "nemu_state m2 = NEMU_END"
    "halt_pc m2 = cpu_pc m" "halt_ret m2 = gpr m 10" using sel by auto
  have "0 < unat n" using n by (simp add: word_less_nat_alt)
  then obtain k where k: "unat n = Suc k" by (cases "unat n") auto
  have ex: "execute c E (rv_step c E) (difftest_step c E M R) (unat n) m1 = Inr m2"
    using m2 by (simp add: k)
  obtain t2 m3 where g2: "get_time E m2 = (t2, m3)" by (rule prod.exhaust)
  have m3: "m3 = snd (get_time E m2)" by (simp add: g2)
  have sel3: "nemu_state m3 = NEMU_END" "halt_pc m3 = cpu_pc m" "halt_ret m3 = gpr m 10"
    using m2 by (simp_all add: m3 get_time_cpu)
  have "rv_exec c E M R n m = Inr (statistic (emit (OutLine ''nemu: %s at pc = 0x%08x''
      [end_message (m3\<lparr>g_timer := g_timer m3 + (t2 - t1)\<rparr>)] [uint (halt_pc m3)]) (m3\<lparr>g_timer := g_timer m3 + (t2 - t1)\<rparr>)))"
    using st g1 ex g2 sel3
    by (simp add: rv_exec_def cpu_exec_def Let_def m0_def)
  then show ?thesis using sel3 by (simp add: statistic_def Let_def emit_def)
qed

section \<open>Machines with a monitor\<close>

definition quiet_mon :: mon_env where
  "quiet_mon = \<lparr>menv_scanf = (\<lambda>_. None), menv_lines = [], menv_file = (\<lambda>_. None), menv_dl = (\<lambda>_. True),
     menv_num_stack = (\<lambda>_. 0), menv_op_stack = (\<lambda>_. CHR '' ''),
     menv_ref_r = \<lparr>st_gpr = (\<lambda>_. 0), st_csr = (\<lambda>_. 0), st_pc = 0\<rparr>\<rparr>"

definition no_ref :: "unit ref_ops" where
  "no_ref = \<lparr>ref_init = (\<lambda>_ r. Inr r), ref_exec = Inr, ref_mem_to_ref = (\<lambda>_ _ r. r), ref_mem_to_dut = (\<lambda>_ _ r. ([], r)),
     ref_regs_to_ref = (\<lambda>_ r. r), ref_regs_to_dut = (\<lambda>_ s. s), ref_time = (\<lambda>_. 0)\<rparr>"

definition mon_demo :: "u32 \<Rightarrow> unit monitor" where
  "mon_demo i = rv32.extend (demo i) (monitor.fields () False None None None None None None 0 [] None None)"

lemma mon_demo_sel [simp]:
  "mmio_maps (mon_demo i) = default_maps default_config" "pmem (mon_demo i) = le_write (\<lambda>_. 0) 0 4 i"
  "cpu_pc (mon_demo i) = RESET_VECTOR" "csrs (mon_demo i) = (\<lambda>_. 0)" "gpr (mon_demo i) = (\<lambda>_. 0)"
  "have_exc (mon_demo i) = RISCV_EXCP_NONE" "nemu_state (mon_demo i) = NEMU_STOP" "g_nr_guest_inst (mon_demo i) = 0"
  "img_file (mon_demo i) = None" "bios_file (mon_demo i) = None" "kernel_file (mon_demo i) = None" "dtb_file (mon_demo i) = None"
  by (simp_all add: mon_demo_def rv32.extend_def monitor.fields_def demo_def rv32_zero_def)

lemma mon_demo_ready: "ready default_config (at_pc (mon_demo i))"
  using demo_bus [of i] by (simp add: ready_def no_interrupt_disabled bus_ok_def reset_vector MSIZE_eq at_pc_def)

lemma mon_demo_fetched: "fetched (at_pc (mon_demo i)) = i"
  by (simp add: fetched_def reset_vector le_read_write_same at_pc_def)

lemma decode_ebreak: "instpat_select (instpat_table c) 0x00100073 = Inr (Some (TYPE_N, Ebreak))"
  by (rule decode_base [of "''0000000 00001 00000 000 00000 11100 11''"]) (simp add: instpat_base_def, code_simp)

lemma mon_demo_ebreak: "at_ebreak default_config (mon_demo 0x00100073)"
  by (simp add: at_ebreak_def mon_demo_ready mon_demo_fetched decode_ebreak)

end
