(* ===== verification/MonitorProps.thy ===== *)
theory MonitorProps
  imports ExecProps Monitor
begin

text \<open>
  What the monitor does with the machine: the loop of \<^verbatim>\<open>c EXPR\<close> ends when the address is reached, the
  commands that leave the loop, and where the start-up places the files it loads.
\<close>

section \<open>Running to an address\<close>

fun run_n :: "config \<Rightarrow> host_env \<Rightarrow> mon_env \<Rightarrow> 'r ref_ops \<Rightarrow> nat \<Rightarrow> ('r, 'a) monitor_scheme \<Rightarrow> ('r, 'a) monitor_scheme res" where
  "run_n c E M R 0 m = Inr m"
| "run_n c E M R (Suc n) m = bindE (rv_exec c E M R 1 m) (run_n c E M R n)"

definition arrived :: "u32 \<Rightarrow> ('a) cpu_scheme \<Rightarrow> bool" where
  "arrived e m \<longleftrightarrow> cpu_pc m = e \<or> nemu_state m \<notin> {NEMU_RUNNING, NEMU_STOP}"

lemma run_until_step:
  "run_until c E M R e m = (if arrived e m then Some (Inr m)
     else (case rv_exec c E M R 1 m of Inl err \<Rightarrow> Some (Inl err) | Inr m1 \<Rightarrow> run_until c E M R e m1))"
  by (subst run_until.simps) (auto simp: arrived_def)

lemma run_until_arrives:
  "run_n c E M R k m = Inr m' \<Longrightarrow> arrived e m' \<Longrightarrow>
   \<exists>j\<le>k. \<exists>m''. run_n c E M R j m = Inr m'' \<and> arrived e m'' \<and> run_until c E M R e m = Some (Inr m'')"
proof (induction k arbitrary: m)
  case 0
  then show ?case by (auto simp: run_until_step)
next
  case (Suc k)
  show ?case
  proof (cases "arrived e m")
    case True
    then show ?thesis by (intro exI [of _ 0]) (auto simp: run_until_step)
  next
    case False
    obtain m1 where m1: "rv_exec c E M R 1 m = Inr m1" "run_n c E M R k m1 = Inr m'"
      using Suc.prems(1) by (auto simp: res_simps)
    then obtain j m'' where "j \<le> k" "run_n c E M R j m1 = Inr m''" "arrived e m''"
      "run_until c E M R e m1 = Some (Inr m'')"
      using Suc.IH [OF m1(2) Suc.prems(2)] by blast
    then show ?thesis using False m1(1) by (intro exI [of _ "Suc j"]) (auto simp: run_until_step)
  qed
qed

section \<open>Leaving the debugger\<close>

lemma sdb_quit:
  assumes "\<not> is_batch_mode m"
  shows "\<exists>m'. sdb_lines c E M R (''q'' # strs) m = Some (Inr m') \<and> nemu_state m' = NEMU_QUIT \<and> is_exit_status_bad m' = 0"
proof -
  have tok: "strtok '' '' ''q'' = (Some ''q'', [])" by (simp add: strtok_def)
  have cmd: "map_of cmd_table ''q'' = Some (''Exit NEMU'', Cmd_q)" by (simp add: cmd_table_def)
  show ?thesis
    by (simp add: sdb_line_def tok cmd Let_def cmd_q_def ret_def is_exit_status_bad_def)
qed

text \<open>\<^verbatim>\<open>si\<close> takes a negative count for a large one; only counts that are 0 modulo \<open>2 ^ 32\<close> are refused.\<close>

lemma bad_count_iff: "bad_count N \<longleftrightarrow> N = 0"
proof -
  have "uint N < 2 ^ 32" using uint_lt2p [of N] by simp
  then show ?thesis by (auto simp: bad_count_def uint_0_iff)
qed

section \<open>Loading files\<close>

lemma unat_of_small: "n < 2 ^ 32 \<Longrightarrow> unat (of_nat n :: u32) = n"
  by (simp add: unsigned_of_nat take_bit_nat_eq_self)

lemma guest_to_host_offset: "n < MSIZE \<Longrightarrow> guest_to_host (RESET_VECTOR + of_nat n) = n"
  by (simp add: guest_to_host_def config_defs MSIZE_def unat_of_small)

lemma input_file_load_ok:
  assumes "menv_file M name = Some bs" "bs \<noteq> []" "guest_to_host a + length bs \<le> MSIZE"
  shows "\<exists>m'. input_file_load M (Some name) a m = Inr (int (length bs), m') \<and>
    pmem m' = put_bytes (pmem m) (guest_to_host a) bs \<and> bios_file m' = bios_file m \<and> kernel_file m' = kernel_file m \<and>
    dtb_file m' = dtb_file m"
proof -
  have len: "length bs < 2 ^ 32" using assms(3) by (simp add: MSIZE_def config_defs)
  then have "unat (of_nat (length bs) :: u32) = length bs" by (simp add: unat_of_small)
  moreover have "uint (of_nat (length bs) :: u32) = int (length bs)" using len by (simp add: uint_nat unat_of_small)
  ultimately show ?thesis using assms by (simp add: input_file_load_def Let_def emit_def)
qed

lemma input_file_load_too_big:
  assumes "menv_file M name = Some bs" "MSIZE < guest_to_host a + length bs" "length bs < 2 ^ 32"
  shows "input_file_load M (Some name) a m = Inl (Host_oob (guest_to_host a))"
proof -
  have "unat (of_nat (length bs) :: u32) = length bs" using assms(3) by (simp add: unat_of_small)
  then show ?thesis using assms by (simp add: input_file_load_def Let_def in_object_def)
qed

lemma put_bytes_in: "i < length bs \<Longrightarrow> put_bytes f a bs (a + i) = bs ! i"
  by (simp add: put_bytes_def)

lemma put_bytes_out: "b < a \<or> a + length bs \<le> b \<Longrightarrow> put_bytes f a bs b = f b"
  by (auto simp: put_bytes_def)

text \<open>A file that is given has contents; one that is not given adds nothing.\<close>

definition gives :: "mon_env \<Rightarrow> string option \<Rightarrow> u8 list \<Rightarrow> bool" where
  "gives M f bs \<longleftrightarrow> (case f of None \<Rightarrow> bs = [] | Some name \<Rightarrow> menv_file M name = Some bs \<and> bs \<noteq> [])"

definition load_files :: "('r, 'a) monitor_scheme \<Rightarrow> string option \<times> string option \<times> string option" where
  "load_files m = (bios_file m, kernel_file m, dtb_file m)"

lemma put_bytes_Nil [simp]: "put_bytes f a [] = f"
  by (rule ext) (auto simp: put_bytes_def)

lemma gives_load:
  assumes "gives M f bs" and "bs \<noteq> [] \<Longrightarrow> guest_to_host a + length bs \<le> MSIZE"
  shows "\<exists>m'. input_file_load M f a m = Inr (int (length bs), m') \<and> pmem m' = put_bytes (pmem m) (guest_to_host a) bs \<and>
    load_files m' = load_files m"
proof (cases f)
  case None
  then show ?thesis using assms(1) by (simp add: gives_def input_file_load_def)
next
  case (Some name)
  then have b: "menv_file M name = Some bs" "bs \<noteq> []" using assms(1) by (simp_all add: gives_def)
  from input_file_load_ok [OF b assms(2) [OF b(2)], of m] Some show ?thesis by (auto simp: load_files_def)
qed

text \<open>The image, the firmware behind it, the kernel and the device tree at their places.\<close>

lemma load_img_files:
  assumes g: "gives M (img_file m) b1" "gives M (bios_file m) b2" "gives M (kernel_file m) b3" "gives M (dtb_file m) b4"
    and some: "b1 @ b2 @ b3 \<noteq> []"
    and fits: "length b1 + length b2 \<le> MSIZE" "guest_to_host PMEM_KERNEL + length b3 \<le> MSIZE"
      "guest_to_host PMEM_DTB + length b4 \<le> MSIZE"
  shows "\<exists>m'. load_img M m = Inr (int (length b1 + length b2 + length b3 + length b4), m') \<and>
    pmem m' = put_bytes (put_bytes (put_bytes (put_bytes (pmem m) 0 b1) (length b1) b2)
      (guest_to_host PMEM_KERNEL) b3) (guest_to_host PMEM_DTB) b4"
proof -
  have g0: "guest_to_host RESET_VECTOR = 0" by (simp add: guest_to_host_def config_defs)
  obtain m1 where m1: "input_file_load M (img_file m) RESET_VECTOR m = Inr (int (length b1), m1)"
      "pmem m1 = put_bytes (pmem m) 0 b1" "load_files m1 = load_files m"
    using gives_load [OF g(1), of RESET_VECTOR m] fits(1) g0 by auto
  let ?a = "RESET_VECTOR + word_of_int (int (length b1))"
  have g1: "guest_to_host ?a = length b1" if "b2 \<noteq> []"
  proof -
    have "0 < length b2" using that by simp
    then have "length b1 < MSIZE" using fits(1) by linarith
    then show ?thesis using guest_to_host_offset [of "length b1"] by simp
  qed
  obtain m2 where m2: "input_file_load M (bios_file m1) ?a m1 = Inr (int (length b2), m2)"
      "pmem m2 = put_bytes (pmem m1) (length b1) b2" "load_files m2 = load_files m1"
    using gives_load [of M "bios_file m1" b2 ?a m1] g(2) fits(1) g1 m1(3) by (cases "b2 = []") (auto simp: load_files_def)
  obtain m3 where m3: "input_file_load M (kernel_file m2) PMEM_KERNEL m2 = Inr (int (length b3), m3)"
      "pmem m3 = put_bytes (pmem m2) (guest_to_host PMEM_KERNEL) b3" "load_files m3 = load_files m2"
    using gives_load [of M "kernel_file m2" b3 PMEM_KERNEL m2] g(3) fits(2) m1(3) m2(3) by (auto simp: load_files_def)
  obtain m4 where m4: "input_file_load M (dtb_file m3) PMEM_DTB m3 = Inr (int (length b4), m4)"
      "pmem m4 = put_bytes (pmem m3) (guest_to_host PMEM_DTB) b4"
    using gives_load [of M "dtb_file m3" b4 PMEM_DTB m3] g(4) fits(3) m1(3) m2(3) m3(3) by (auto simp: load_files_def)
  have pos: "int (length b1) + int (length b2) + int (length b3) \<noteq> 0"
    using some by (cases b1; cases b2; cases b3) auto
  have "\<not> (img_file m = None \<and> bios_file m = None \<and> dtb_file m = None \<and> kernel_file m = None)"
    using some g by (auto simp: gives_def)
  then have "load_img M m = Inr (int (length b1 + length b2 + length b3 + length b4), m4)"
    using m1(1) m2(1) m3(1) m4(1) pos unfolding load_img_def Let_def by (simp only: if_False bindE_Inr prod.case) simp
  then show ?thesis using m1(2) m2(2) m3(2) m4(2) by simp
qed

end

