(* ===== verification/ExprProps.thy ===== *)
theory ExprProps
  imports Expr
begin

text \<open>
  What the expression evaluator does on the expressions it handles: chains of decimal numbers joined
  by \<^verbatim>\<open>+\<close> and \<^verbatim>\<open>-\<close>. The tokenizer takes such a text apart exactly, and the two stacks evaluate it
  from the right.
\<close>

section \<open>Tokenizing\<close>

lemma digit_in_class [simp]: "in_class class_digit ch \<longleftrightarrow> is_digit ch"
  by (simp add: in_class_def class_digit_def is_digit_def)

lemma digit_is_word: "is_digit ch \<Longrightarrow> is_word ch"
  by (simp add: is_word_def in_class_def class_digit_def is_digit_def)

lemma rx_ends_digits:
  assumes "list_all is_digit d" and "rest \<noteq> [] \<Longrightarrow> \<not> is_word (hd rest)"
  shows "rx_ends [RxStar class_digit, RxBound] True (d @ rest) = [length d]"
  using assms
proof (induction d)
  case Nil
  then show ?case by (cases rest) (auto dest: digit_is_word)
next
  case (Cons ch d)
  then show ?case by (simp add: digit_is_word)
qed

lemma match_decimal:
  assumes "list_all is_digit d" "d \<noteq> []" and "rest \<noteq> [] \<Longrightarrow> \<not> is_word (hd rest)"
  shows "rx_match [RxBound, RxPlus class_digit, RxBound] (d @ rest) = Some (length d)"
proof -
  obtain ch d' where d: "d = ch # d'" using assms(2) by (cases d) auto
  show ?thesis
    using assms rx_ends_digits [of d' rest] by (simp add: d rx_match_def digit_is_word)
qed

lemma char_in_single: "char_in a a ch \<longleftrightarrow> ch = a"
  by (auto simp: char_in_def)

lemma lit_class [simp]: "in_class [(a, a)] ch \<longleftrightarrow> ch = a"
  by (simp add: in_class_def char_in_single)

lemma x_is_word: "is_word CHR ''x''" "\<not> is_digit CHR ''x''"
  by (simp_all add: is_word_def in_class_def class_alpha_def class_digit_def char_in_def is_digit_def)

lemma not_digits: "\<not> is_digit CHR '' ''" "\<not> is_digit CHR ''+''" "\<not> is_digit CHR ''-''" "\<not> is_digit CHR ''*''"
  "\<not> is_digit CHR ''/''" "\<not> is_digit CHR ''(''" "\<not> is_digit CHR '')''" "\<not> is_digit CHR ''=''"
  by (simp_all add: is_digit_def char_in_def)

lemma select_decimal:
  assumes "list_all is_digit d" "d \<noteq> []" and rest: "rest \<noteq> [] \<Longrightarrow> \<not> is_word (hd rest)"
  shows "select_rule rules (d @ rest) = Some (TK_DECIMAL, length d)"
proof -
  obtain ch d' where d: "d = ch # d'" using assms(2) by (cases d) auto
  have ch: "is_digit ch" using assms(1) d by simp
  then have ne: "ch \<noteq> CHR '' ''" "ch \<noteq> CHR ''+''" "ch \<noteq> CHR ''-''" "ch \<noteq> CHR ''*''" "ch \<noteq> CHR ''/''" "ch \<noteq> CHR ''(''"
    "ch \<noteq> CHR '')''" "ch \<noteq> CHR ''=''"
    using not_digits by auto
  have hex: "rx_match [lit CHR ''0'', lit CHR ''x'', RxPlus class_hex] (d @ rest) = None"
  proof (cases "d' @ rest")
    case Nil
    then show ?thesis by (simp add: d rx_match_def)
  next
    case (Cons c2 r)
    then have "c2 \<noteq> CHR ''x''"
      using assms(1) rest x_is_word d by (cases d') auto
    then show ?thesis by (simp add: d rx_match_def Cons)
  qed
  show ?thesis
    using match_decimal [OF assms] hex ne
    by (simp add: rules_def) (simp add: d rx_match_def)
qed

lemma select_operator:
  assumes "op = CHR ''+'' \<or> op = CHR ''-''"
  shows "select_rule rules (op # rest) = Some (TK_CHR op, 1)"
  using assms by (auto simp: rules_def rx_match_def)

text \<open>A chain: a number, then operators and numbers.\<close>

definition chain_text :: "nat \<Rightarrow> (char \<times> nat) list \<Rightarrow> string" where
  "chain_text d rest = dec_text d @ concat (map (\<lambda>(op, n). op # dec_text n) rest)"

definition chain_tokens :: "nat \<Rightarrow> (char \<times> nat) list \<Rightarrow> token list" where
  "chain_tokens d rest = (TK_DECIMAL, dec_text d) # concat (map (\<lambda>(op, n). [(TK_CHR op, [op]), (TK_DECIMAL, dec_text n)]) rest)"

definition chain_ok :: "nat \<Rightarrow> (char \<times> nat) list \<Rightarrow> bool" where
  "chain_ok d rest \<longleftrightarrow> length rest \<le> 15 \<and> (\<forall>n\<in>insert d (snd ` set rest). n < 2 ^ 63) \<and>
     fst ` set rest \<subseteq> {CHR ''+'', CHR ''-''}"

lemma dec_text_length: "n < 10 ^ k \<Longrightarrow> 0 < k \<Longrightarrow> length (dec_text n) \<le> k"
proof (induction k arbitrary: n)
  case (Suc k)
  show ?case
  proof (cases "n < 10")
    case True
    then show ?thesis by (subst dec_text.simps) simp
  next
    case False
    then have "0 < k" using Suc.prems(1) by (cases k) auto
    moreover have "n div 10 < 10 ^ k" using Suc.prems(1) by (simp add: less_mult_imp_div_less mult.commute)
    ultimately show ?thesis using Suc.IH [of "n div 10"] False by (subst dec_text.simps) simp
  qed
qed simp

lemma long_text: "n < 2 ^ 63 \<Longrightarrow> length (dec_text n) < 32"
  using dec_text_length [of n 19] by simp

lemma lex_token:
  assumes "select_rule rules (t @ rest) = Some (ty, length t)" "t \<noteq> []"
    and "ty \<noteq> TK_NOTYPE" "ty \<noteq> TK_CHR CHR ''(''" "ty \<noteq> TK_CHR CHR '')''"
    and "length (lx_tokens L) < 32" "length t \<le> 32"
  shows "lex_loop (t @ rest) L = lex_loop rest (L\<lparr>position := position L + length t, lx_tokens := lx_tokens L @ [(ty, t)]\<rparr>)"
  using assms by (subst lex_loop.simps) (simp add: lex_one_def add_token_def Let_def)

lemma lex_chain:
  assumes "stack_top L = 0" "length (lx_tokens L) + 2 * length rest \<le> 32" "\<forall>n\<in>snd ` set rest. n < 2 ^ 63"
    and "fst ` set rest \<subseteq> {CHR ''+'', CHR ''-''}"
  shows "lex_loop (concat (map (\<lambda>(op, n). op # dec_text n) rest)) L =
    Inr (Tokens (lx_tokens L @ concat (map (\<lambda>(op, n). [(TK_CHR op, [op]), (TK_DECIMAL, dec_text n)]) rest)))"
  using assms
proof (induction rest arbitrary: L)
  case Nil
  then show ?case by (subst lex_loop.simps) simp
next
  case (Cons x rest)
  obtain op n where x: "x = (op, n)" by (cases x)
  let ?more = "concat (map (\<lambda>(op, n). op # dec_text n) rest)"
  have op: "op = CHR ''+'' \<or> op = CHR ''-''" and n: "n < 2 ^ 63" using Cons.prems x by auto
  then have ne: "op \<noteq> CHR ''(''" "op \<noteq> CHR '')''" by auto
  have "\<not> is_word (hd ?more)" if "?more \<noteq> []"
    using that Cons.prems(4) not_digits
    by (cases rest) (auto simp: is_word_def in_class_def class_alpha_def class_digit_def class_under_def char_in_def)
  then have num: "select_rule rules (dec_text n @ ?more) = Some (TK_DECIMAL, length (dec_text n))"
    by (intro select_decimal) (simp_all add: dec_text_digits)
  have sgn: "select_rule rules ([op] @ dec_text n @ ?more) = Some (TK_CHR op, length [op])"
    using select_operator [OF op] by simp
  show ?case
    using lex_token [OF sgn, of L] lex_token [OF num, of "L\<lparr>position := position L + 1, lx_tokens := lx_tokens L @ [(TK_CHR op, [op])]\<rparr>"]
      Cons.IH Cons.prems ne long_text [OF n]
    by (simp add: x)
qed

lemma make_token_chain: "chain_ok d rest \<Longrightarrow> make_token (chain_text d rest) = Inr (Tokens (chain_tokens d rest))"
proof -
  assume ok: "chain_ok d rest"
  let ?more = "concat (map (\<lambda>(op, n). op # dec_text n) rest)"
  have "\<not> is_word (hd ?more)" if "?more \<noteq> []"
    using that ok not_digits
    by (cases rest) (auto simp: chain_ok_def is_word_def in_class_def class_alpha_def class_digit_def class_under_def char_in_def)
  then have num: "select_rule rules (dec_text d @ ?more) = Some (TK_DECIMAL, length (dec_text d))"
    by (intro select_decimal) (simp_all add: dec_text_digits)
  show ?thesis
    using lex_token [OF num, of lexer_init] lex_chain [of "lexer_init\<lparr>position := length (dec_text d), lx_tokens := [(TK_DECIMAL, dec_text d)]\<rparr>" rest]
      ok long_text [of d]
    by (simp add: make_token_def chain_text_def chain_tokens_def lexer_init_def chain_ok_def)
qed

section \<open>The stacks\<close>

lemma num_peek_eq: "0 < num_top s \<Longrightarrow> num_top s \<le> length (num_stack s) \<Longrightarrow> num_peek s = Inr (num_stack s ! (num_top s - 1))"
  by (auto simp: num_peek_def arr_get_def nat_diff_distrib)

lemma op_peek_eq: "0 < op_top s \<Longrightarrow> op_top s \<le> length (op_stack s) \<Longrightarrow> op_peek s = Inr (op_stack s ! (op_top s - 1))"
  by (auto simp: op_peek_def arr_get_def nat_diff_distrib)

lemma num_push_eq: "num_top s < length (num_stack s) \<Longrightarrow>
    num_push v s = Inr (s\<lparr>num_stack := (num_stack s)[num_top s := v], num_top := num_top s + 1\<rparr>)"
  by (simp add: num_push_def)

lemma op_push_eq: "op_top s < length (op_stack s) \<Longrightarrow>
    op_push v s = Inr (s\<lparr>op_stack := (op_stack s)[op_top s := v], op_top := op_top s + 1\<rparr>)"
  by (simp add: op_push_def)

definition add_op :: "char \<Rightarrow> u32 \<Rightarrow> u32 \<Rightarrow> u32" where
  "add_op op a b = (if op = CHR ''+'' then a + b else a - b)"

text \<open>The value of a chain as the stacks compute it: grouped from the right.\<close>

fun chain_value :: "u32 \<Rightarrow> (char \<times> u32) list \<Rightarrow> u32" where
  "chain_value v [] = v"
| "chain_value v ((op, w) # rest) = add_op op v (chain_value w rest)"

lemma chain_value_snoc:
  "chain_value v (r @ [(o1, w1), (o2, w2)]) = chain_value v (r @ [(o1, add_op o2 w1 w2)])"
  by (induction v r rule: chain_value.induct) auto

lemma final_binary:
  assumes "num_top s = Suc (Suc k)" "op_top s = Suc k" "length (num_stack s) = 32" "length (op_stack s) = 32" "k < 31"
    and op: "op_stack s ! k = CHR ''+'' \<or> op_stack s ! k = CHR ''-''"
  shows "\<exists>s'. final_loop c E s m = final_loop c E s' m \<and> num_top s' = Suc k \<and> op_top s' = k \<and>
    num_stack s' = (num_stack s)[k := add_op (op_stack s ! k) (num_stack s ! k) (num_stack s ! Suc k)] \<and>
    op_stack s' = op_stack s"
proof -
  let ?v = "add_op (op_stack s ! k) (num_stack s ! k) (num_stack s ! Suc k)"
  have "calculate (op_stack s ! k) (num_stack s ! k) (num_stack s ! Suc k) = Inr ?v"
    using op by (auto simp: calculate_def add_op_def)
  moreover have "op_peek s = Inr (op_stack s ! k)" using assms op_peek_eq [of s] by simp
  ultimately have "final_loop c E s m = final_loop c E (s\<lparr>calc_result := ?v, op_top := k,
      num_stack := (num_stack s)[k := ?v], num_top := Suc k\<rparr>) m"
    using assms
    by (subst final_loop.simps) (auto simp: calc_binary_def num_pop_def num_peek_eq num_push_eq)
  then show ?thesis using assms by (intro exI [of _ "s\<lparr>calc_result := ?v, op_top := k,
      num_stack := (num_stack s)[k := ?v], num_top := Suc k\<rparr>"]) simp
qed

text \<open>The stacks hold the numbers \<open>v # map snd r\<close> and the operators \<open>map fst r\<close>.\<close>

definition holds_chain :: "u32 \<Rightarrow> (char \<times> u32) list \<Rightarrow> calc \<Rightarrow> bool" where
  "holds_chain v r s \<longleftrightarrow> length (num_stack s) = 32 \<and> length (op_stack s) = 32 \<and> length r < 31 \<and>
     num_top s = Suc (length r) \<and> op_top s = length r \<and>
     take (Suc (length r)) (num_stack s) = v # map snd r \<and> take (length r) (op_stack s) = map fst r \<and>
     fst ` set r \<subseteq> {CHR ''+'', CHR ''-''}"

lemma holds_chain_num:
  "holds_chain v r s \<Longrightarrow> i \<le> length r \<Longrightarrow> num_stack s ! i = (v # map snd r) ! i"
  unfolding holds_chain_def by (metis le_imp_less_Suc nth_take)

lemma holds_chain_op:
  "holds_chain v r s \<Longrightarrow> i < length r \<Longrightarrow> op_stack s ! i = fst (r ! i)"
  unfolding holds_chain_def by (metis nth_map nth_take)

lemma take_update_last: "k < length xs \<Longrightarrow> take (Suc k) (xs[k := x]) = take k xs @ [x]"
  by (simp add: take_Suc_conv_app_nth)

lemma final_chain: "holds_chain v r s \<Longrightarrow> \<exists>s'. final_loop c E s m = Inr (s', m) \<and> num_stack s' ! 0 = chain_value v r"
proof (induction "length r" arbitrary: v r s)
  case 0
  then have "op_top s = 0" "num_stack s ! 0 = v" using holds_chain_num [of v r s 0] by (simp_all add: holds_chain_def)
  then show ?case using 0 by (subst final_loop.simps) simp
next
  case (Suc k)
  then obtain r' o2 w2 where r: "r = r' @ [(o2, w2)]" "length r' = k" by (cases r rule: rev_cases) auto
  have op: "op_stack s ! k = o2" and w: "num_stack s ! Suc k = w2"
    using holds_chain_op [OF Suc.prems, of k] holds_chain_num [OF Suc.prems, of "Suc k"] r by (simp_all add: nth_append)
  have o2: "o2 = CHR ''+'' \<or> o2 = CHR ''-''" using Suc.prems r by (auto simp: holds_chain_def)
  obtain s' where s': "final_loop c E s m = final_loop c E s' m" "num_top s' = Suc k" "op_top s' = k"
      "num_stack s' = (num_stack s)[k := add_op o2 (num_stack s ! k) w2]" "op_stack s' = op_stack s"
    using final_binary [of s k c E m] Suc.prems r op w o2 by (auto simp: holds_chain_def)
  have full: "take (Suc (Suc k)) (num_stack s) = (v # map snd r') @ [w2]" "take (Suc k) (op_stack s) = map fst r' @ [o2]"
    using Suc.prems r by (simp_all add: holds_chain_def)
  have tk: "take k (num_stack s) = butlast (v # map snd r')" "take k (op_stack s) = map fst r'"
  proof -
    have "take k (num_stack s) = take k (take (Suc (Suc k)) (num_stack s))"
      "take k (op_stack s) = take k (take (Suc k) (op_stack s))" by simp_all
    then show "take k (num_stack s) = butlast (v # map snd r')" "take k (op_stack s) = map fst r'"
      unfolding full take_append butlast_conv_take using r(2) by simp_all
  qed
  let ?x = "add_op o2 (num_stack s ! k) w2"
  have nums: "take (Suc k) (num_stack s') = butlast (v # map snd r') @ [?x]"
    using tk(1) Suc.prems r by (simp add: s'(4) take_update_last holds_chain_def)
  show ?case
  proof (cases r' rule: rev_cases)
    case Nil
    then have "holds_chain ?x [] s'" using s' Suc.prems r nums by (simp add: holds_chain_def)
    moreover have "num_stack s ! k = v" using holds_chain_num [OF Suc.prems, of k] r Nil by simp
    ultimately show ?thesis using Suc.hyps(1) [of "[]" ?x s'] s'(1) r Nil by auto
  next
    case (snoc r1 y)
    then obtain o1 w1 where y: "y = (o1, w1)" by (cases y)
    have "num_stack s ! k = w1"
      using holds_chain_num [OF Suc.prems, of k] r snoc y by (auto simp: nth_append nth_Cons')
    moreover have "holds_chain v (r1 @ [(o1, ?x)]) s'"
      using s' Suc.prems r nums tk(2) snoc y by (auto simp: holds_chain_def butlast_append)
    ultimately show ?thesis
      using Suc.hyps(1) [of "r1 @ [(o1, ?x)]" v s'] s'(1) r snoc y by (auto simp: chain_value_snoc)
  qed
qed

lemma calc_chain:
  assumes "holds_chain v r s" "length r + length rest < 31" "\<forall>n\<in>snd ` set rest. n < 2 ^ 63"
    and "fst ` set rest \<subseteq> {CHR ''+'', CHR ''-''}"
  shows "\<exists>s'. calc_tokens c E prev (concat (map (\<lambda>(op, n). [(TK_CHR op, [op]), (TK_DECIMAL, dec_text n)]) rest)) s m =
      Inr (Some s', m) \<and> holds_chain v (r @ map (\<lambda>(op, n). (op, of_nat n)) rest) s'"
  using assms
proof (induction rest arbitrary: r s prev)
  case Nil
  then show ?case by simp
next
  case (Cons x rest)
  obtain op n where x: "x = (op, n)" by (cases x)
  have op: "op = CHR ''+'' \<or> op = CHR ''-''" and n: "n < 2 ^ 63" using Cons.prems x by auto
  let ?k = "length r"
  define s1 where "s1 = s\<lparr>op_stack := (op_stack s)[?k := op], op_top := Suc ?k\<rparr>"
  define s2 where "s2 = s1\<lparr>num_stack := (num_stack s)[Suc ?k := of_nat n], num_top := Suc (Suc ?k)\<rparr>"
  have push: "op_push op s = Inr s1"
    using Cons.prems(1,2) by (simp add: holds_chain_def op_push_eq s1_def)
  have peek: "op_peek s = Inr (fst (r ! (?k - 1)))" "fst (r ! (?k - 1)) \<in> {CHR ''+'', CHR ''-''}" if "r \<noteq> []"
  proof -
    have "op_peek s = Inr (op_stack s ! (?k - 1))"
      using that Cons.prems(1) op_peek_eq [of s] by (simp add: holds_chain_def)
    then show "op_peek s = Inr (fst (r ! (?k - 1)))"
      using holds_chain_op [OF Cons.prems(1), of "?k - 1"] that by simp
    show "fst (r ! (?k - 1)) \<in> {CHR ''+'', CHR ''-''}"
      using Cons.prems(1) that nth_mem [of "?k - 1" r] unfolding holds_chain_def by (meson diff_less imageI length_greater_0_conv less_numeral_extra(1) subsetD)
  qed
  have t1: "calc_token c E prev (TK_CHR op, [op]) s m = Inr (Some s1, m)" for prev
  proof (cases "r = []")
    case True
    then show ?thesis using op push Cons.prems(1) by (auto simp: calc_token_def Let_def holds_chain_def)
  next
    case False
    then have "op_top s \<noteq> 0" using Cons.prems(1) by (simp add: holds_chain_def)
    then show ?thesis using op push peek [OF False] by (auto simp: calc_token_def Let_def)
  qed
  have "int n \<le> LONG_MAX" using n by (simp add: LONG_MAX_def)
  then have t2: "calc_token c E prev (TK_DECIMAL, dec_text n) s1 m = Inr (Some s2, m)" for prev
    using Cons.prems(1,2) long_text [OF n]
    by (simp add: calc_token_def Let_def c_str_def atol_dec_text num_push_eq s1_def s2_def holds_chain_def)
  have tk: "take (Suc ?k) (num_stack s) = v # map snd r" "take ?k (op_stack s) = map fst r"
    using Cons.prems(1) by (simp_all add: holds_chain_def)
  have "holds_chain v (r @ [(op, of_nat n)]) s2"
    using Cons.prems(1,2) op tk by (auto simp: holds_chain_def s1_def s2_def take_update_last)
  then show ?case
    using Cons.IH [of "r @ [(op, of_nat n)]" s2 "Some TK_DECIMAL"] Cons.prems t1 t2 by (auto simp: x)
qed

lemma expr_chain:
  assumes "chain_ok d rest" "length nums = 32" "length ops = 32"
  shows "expr c E nums ops (chain_text d rest) m =
    Inr (chain_value (of_nat d) (map (\<lambda>(op, n). (op, of_nat n)) rest), True, m)"
proof -
  let ?r = "map (\<lambda>(op, n). (op, of_nat n)) rest"
  define s1 where "s1 = (calc_init nums ops)\<lparr>num_stack := nums[0 := of_nat d], num_top := 1\<rparr>"
  have d: "d < 2 ^ 63" using assms(1) by (simp add: chain_ok_def)
  then have "int d \<le> LONG_MAX" by (simp add: LONG_MAX_def)
  then have "calc_token c E None (TK_DECIMAL, dec_text d) (calc_init nums ops) m = Inr (Some s1, m)"
    using assms(2,3) long_text [OF d]
    by (simp add: calc_token_def Let_def c_str_def atol_dec_text num_push_eq calc_init_def s1_def)
  moreover have "holds_chain (of_nat d) [] s1"
    using assms(2,3) by (cases nums) (auto simp: holds_chain_def s1_def calc_init_def)
  ultimately obtain s2 where s2: "calc_tokens c E None (chain_tokens d rest) (calc_init nums ops) m = Inr (Some s2, m)"
      "holds_chain (of_nat d) ?r s2"
    using calc_chain [of "of_nat d" "[]" s1 rest c E "Some TK_DECIMAL" m] assms(1)
    by (auto simp: chain_tokens_def chain_ok_def)
  then obtain s3 where "final_loop c E s2 m = Inr (s3, m)" "num_stack s3 ! 0 = chain_value (of_nat d) ?r"
    using final_chain [OF s2(2)] by blast
  then show ?thesis
    using s2(1) by (simp add: expr_def make_token_chain [OF assms(1)] tokens_calculation_def)
qed

end
