(* ===== verification/TokenProps.thy ===== *)
theory TokenProps
  imports Expr
begin

text \<open>
  What the tokenizer of the debugger guarantees of its result: the array is never overrun, the text
  of a token fits its kind, nothing but blanks is lost, and the brackets are balanced.
\<close>

section \<open>What an expression of the rule table matches\<close>

fun rx_word :: "rx list \<Rightarrow> string \<Rightarrow> bool" where
  "rx_word [] t \<longleftrightarrow> t = []"
| "rx_word (RxOne k # r) t \<longleftrightarrow> t \<noteq> [] \<and> in_class k (hd t) \<and> rx_word r (tl t)"
| "rx_word (RxPlus k # r) t \<longleftrightarrow> (\<exists>u v. t = u @ v \<and> u \<noteq> [] \<and> list_all (in_class k) u \<and> rx_word r v)"
| "rx_word (RxStar k # r) t \<longleftrightarrow> (\<exists>u v. t = u @ v \<and> list_all (in_class k) u \<and> rx_word r v)"
| "rx_word (RxBound # r) t \<longleftrightarrow> rx_word r t"

lemma rx_word_star_cons: "in_class k x \<Longrightarrow> rx_word (RxStar k # r) t \<Longrightarrow> rx_word (RxStar k # r) (x # t)"
proof -
  assume k: "in_class k x" and "rx_word (RxStar k # r) t"
  then obtain u v where "t = u @ v" "list_all (in_class k) u" "rx_word r v" by auto
  with k show ?thesis by (simp, intro exI [of _ "x # u"] exI [of _ v]) simp
qed

lemma rx_word_plus_cons: "in_class k x \<Longrightarrow> rx_word (RxStar k # r) t \<Longrightarrow> rx_word (RxPlus k # r) (x # t)"
proof -
  assume k: "in_class k x" and "rx_word (RxStar k # r) t"
  then obtain u v where "t = u @ v" "list_all (in_class k) u" "rx_word r v" by auto
  with k show ?thesis by (simp, intro exI [of _ "x # u"] exI [of _ v]) simp
qed

lemma rx_word_star_none: "rx_word r t \<Longrightarrow> rx_word (RxStar k # r) t"
  by (simp, intro exI [of _ "[]"] exI [of _ t]) simp

lemma rx_ends_word: "n \<in> set (rx_ends r w s) \<Longrightarrow> rx_word r (take n s)"
proof (induction r w s arbitrary: n rule: rx_ends.induct)
  case (5 k r w ch s)
  then show ?case by (auto simp del: rx_word.simps split: if_splits intro!: rx_word_plus_cons)
next
  case (6 k r w)
  then show ?case by (auto simp del: rx_word.simps intro: rx_word_star_none)
next
  case (7 k r w ch s)
  then show ?case
    by (auto simp del: rx_word.simps split: if_splits intro!: rx_word_star_cons intro: rx_word_star_none)
qed (auto split: if_splits)

lemma select_rule_word:
  "select_rule rs s = Some (ty, n) \<Longrightarrow> \<exists>r. (r, ty) \<in> set rs \<and> rx_word r (take n s)"
proof (induction rs)
  case (Cons x rs)
  then show ?case
    by (cases x) (auto split: option.splits dest!: rx_match_in dest: rx_ends_word)
qed simp

section \<open>The texts of the tokens\<close>

definition token_text :: "tok_type \<Rightarrow> string \<Rightarrow> bool" where
  "token_text ty str = (case ty of
      TK_NOTYPE \<Rightarrow> str \<noteq> [] \<and> list_all (\<lambda>ch. ch = CHR '' '') str
    | TK_EQ \<Rightarrow> str = ''==''
    | TK_DECIMAL \<Rightarrow> str \<noteq> [] \<and> list_all (in_class class_digit) str
    | TK_HEX \<Rightarrow> take 2 str = ''0x'' \<and> drop 2 str \<noteq> [] \<and> list_all (in_class class_hex) (drop 2 str)
    | TK_REG \<Rightarrow> take 1 str = ''$'' \<and> drop 1 str \<noteq> [] \<and> list_all (in_class (class_digit @ class_alpha)) (drop 1 str)
    | TK_WORD \<Rightarrow> str \<noteq> [] \<and> in_class (class_alpha @ class_under) (hd str) \<and> list_all is_word str
    | TK_CHR ch \<Rightarrow> str = [ch] \<and> ch \<in> set ''+-*/()'')"

lemma in_class_one: "in_class [(k, k)] ch \<longleftrightarrow> ch = k"
proof -
  have "(of_char k :: nat) \<le> of_char ch \<and> of_char ch \<le> (of_char k :: nat) \<longleftrightarrow> of_char ch = (of_char k :: nat)" by linarith
  also have "\<dots> \<longleftrightarrow> ch = k" by simp
  finally show ?thesis by (simp add: in_class_def char_in_def)
qed

lemma in_class_blank: "in_class [(k, k)] = (\<lambda>ch. ch = k)"
  by (rule ext) (rule in_class_one)

lemma rx_word_end: "rx_word [RxPlus k] t \<longleftrightarrow> t \<noteq> [] \<and> list_all (in_class k) t"
  "rx_word [RxStar k] t \<longleftrightarrow> list_all (in_class k) t"
  "rx_word [RxPlus k, RxBound] t \<longleftrightarrow> t \<noteq> [] \<and> list_all (in_class k) t"
  "rx_word [RxStar k, RxBound] t \<longleftrightarrow> list_all (in_class k) t"
  by auto

lemma is_word_classes: "in_class (class_alpha @ class_under) ch \<Longrightarrow> is_word ch"
  "in_class (class_alpha @ class_digit @ class_under) = is_word"
  by (auto simp: is_word_def in_class_def fun_eq_iff)

lemma rules_text:
  assumes "(r, ty) \<in> set rules" and "rx_word r str"
  shows "token_text ty str"
proof -
  obtain x y z where "str = [] \<or> str = [x] \<or> str = x # y # z" by (cases str; cases "tl str") auto
  then show ?thesis
    using assms
    by (auto simp: rules_def token_text_def rx_word_end in_class_blank is_word_classes simp del: rx_word.simps(3,4))
qed

section \<open>The loop\<close>

fun brackets :: "nat \<Rightarrow> token list \<Rightarrow> bool" where
  "brackets d [] \<longleftrightarrow> d = 0"
| "brackets d ((ty, str) # ts) \<longleftrightarrow>
     (if ty = TK_CHR CHR ''('' then brackets (Suc d) ts
      else if ty = TK_CHR CHR '')'' then 0 < d \<and> brackets (d - 1) ts
      else brackets d ts)"

definition token_ok :: "token \<Rightarrow> bool" where
  "token_ok = (\<lambda>(ty, str). ty \<noteq> TK_NOTYPE \<and> token_text ty str \<and> length str \<le> 32)"

definition not_blank :: "char \<Rightarrow> bool" where "not_blank ch \<longleftrightarrow> ch \<noteq> CHR '' ''"

lemma class_not_blank:
  "in_class class_digit ch \<Longrightarrow> not_blank ch" "in_class class_hex ch \<Longrightarrow> not_blank ch"
  "in_class (class_digit @ class_alpha) ch \<Longrightarrow> not_blank ch" "is_word ch \<Longrightarrow> not_blank ch"
  by (auto simp: in_class_def class_digit_def class_hex_def class_alpha_def class_under_def is_word_def char_in_def not_blank_def)

lemma text_not_blank:
  assumes "token_text ty str" "ty \<noteq> TK_NOTYPE"
  shows "list_all not_blank str"
proof -
  have cls: "list_all (in_class class_digit) t \<Longrightarrow> list_all not_blank t"
    "list_all (in_class class_hex) t \<Longrightarrow> list_all not_blank t"
    "list_all (in_class (class_digit @ class_alpha)) t \<Longrightarrow> list_all not_blank t"
    "list_all is_word t \<Longrightarrow> list_all not_blank t" for t
    by (simp_all add: list_all_iff class_not_blank)
  have cut: "take n str = p \<Longrightarrow> list_all not_blank p \<Longrightarrow> list_all not_blank (drop n str) \<Longrightarrow> list_all not_blank str" for n p
    by (metis append_take_drop_id list_all_append)
  show ?thesis
  proof (cases ty)
    case TK_HEX
    then show ?thesis using assms(1) cls(2) cut [of 2 "''0x''"] by (simp add: token_text_def not_blank_def)
  next
    case TK_REG
    then show ?thesis using assms(1) cls(3) cut [of 1 "''$''"] by (simp add: token_text_def not_blank_def)
  qed (use assms cls in \<open>auto simp: token_text_def not_blank_def\<close>)
qed

lemma lex_one_cases:
  assumes "lex_one ty str L = Inr (Inr L')" and "token_text ty str"
  shows "\<exists>us. lx_tokens L' = lx_tokens L @ us \<and> list_all token_ok us \<and>
    concat (map snd us) = filter not_blank str \<and> (length (lx_tokens L) \<le> 32 \<longrightarrow> length (lx_tokens L') \<le> 32) \<and>
    (\<forall>ts. brackets (stack_top L) (us @ ts) \<longleftrightarrow> brackets (stack_top L') ts)"
proof (cases "ty = TK_NOTYPE")
  case True
  then have "lx_tokens L' = lx_tokens L" "stack_top L' = stack_top L"
    using assms(1) by (auto simp: lex_one_def Let_def)
  moreover have "filter not_blank str = []"
    using True assms(2) by (auto simp: token_text_def not_blank_def list_all_iff filter_empty_conv)
  ultimately show ?thesis by (intro exI [of _ "[]"]) simp
next
  case False
  have "filter not_blank str = str"
    using text_not_blank [OF assms(2) False] by (simp add: list_all_iff)
  moreover have "lx_tokens L' = lx_tokens L @ [(ty, str)] \<and> length (lx_tokens L) < 32 \<and> length str \<le> 32 \<and>
      stack_top L' = (if ty = TK_CHR CHR ''('' then Suc (stack_top L)
        else if ty = TK_CHR CHR '')'' then stack_top L - 1 else stack_top L) \<and>
      (ty = TK_CHR CHR '')'' \<longrightarrow> 0 < stack_top L)"
    using assms(1) False
    by (auto simp: lex_one_def Let_def add_token_def res_simps split: if_splits)
  ultimately show ?thesis using assms(2) False
    by (intro exI [of _ "[(ty, str)]"]) (auto simp: token_ok_def)
qed

lemma lex_one_no_tokens: "lex_one ty str L \<noteq> Inr (Inl (Tokens ts))"
  by (auto simp: lex_one_def Let_def add_token_def res_simps split: if_splits)

lemma lex_loop_sound:
  "lex_loop s L = Inr (Tokens ts) \<Longrightarrow> length (lx_tokens L) \<le> 32 \<Longrightarrow>
   \<exists>us. ts = lx_tokens L @ us \<and> length ts \<le> 32 \<and> list_all token_ok us \<and>
     concat (map snd us) = filter not_blank s \<and> brackets (stack_top L) us"
proof (induction s L rule: lex_loop.induct)
  case (1 s L)
  show ?case
  proof (cases "s = []")
    case True
    then show ?thesis using 1(2,3) by (auto simp: lex_loop.simps [of "[]" L] split: if_splits)
  next
    case False
    obtain ty n L' where sel: "select_rule rules s = Some (ty, n)" and
      one: "lex_one ty (take n s) L = Inr (Inr L')" and rest: "lex_loop (drop n s) L' = Inr (Tokens ts)"
      using 1(2) False by (auto simp: lex_loop.simps [of s L] lex_one_no_tokens split: option.splits sum.splits)
    have "token_text ty (take n s)"
      using select_rule_word [OF sel] rules_text by blast
    from lex_one_cases [OF one this] obtain us where us:
      "lx_tokens L' = lx_tokens L @ us" "list_all token_ok us" "concat (map snd us) = filter not_blank (take n s)"
      "length (lx_tokens L') \<le> 32" "\<And>ts. brackets (stack_top L) (us @ ts) \<longleftrightarrow> brackets (stack_top L') ts"
      using 1(3) by auto
    obtain vs where vs: "ts = lx_tokens L' @ vs" "length ts \<le> 32" "list_all token_ok vs"
      "concat (map snd vs) = filter not_blank (drop n s)" "brackets (stack_top L') vs"
      using 1(1) [OF False sel refl one refl rest us(4)] by auto
    have "filter not_blank s = filter not_blank (take n s) @ filter not_blank (drop n s)"
      by (simp flip: filter_append)
    with us vs show ?thesis by (intro exI [of _ "us @ vs"]) simp
  qed
qed

lemma make_token_sound:
  assumes "make_token e = Inr (Tokens ts)"
  shows "length ts \<le> 32 \<and> list_all token_ok ts \<and> concat (map snd ts) = filter not_blank e \<and> brackets 0 ts"
  using lex_loop_sound [OF assms [unfolded make_token_def]] by (auto simp: lexer_init_def)

end
