(* ===== verification/DifftestProps.thy ===== *)
theory DifftestProps
  imports ExecProps
begin

text \<open>
  The verdict of the register comparison: the general registers, up to the tolerance, and for Spike the control
  registers decide whether the emulator goes on.
\<close>

lemma check_list_count: "fst (check_list d rs pc m) = length (filter (\<lambda>(name, dut, ref). d ref dut) rs)"
  by (induction rs arbitrary: pc m) (auto split: prod.split, metis fst_conv)

lemma check_list_state: "cpu_pc (snd (snd (check_list d rs pc m))) = cpu_pc m"
  using check_list_console [of d rs pc m] by fastforce

lemma gpr_pairs_none:
  "length (filter (\<lambda>(name, dut, ref). gpr_differs ref dut) (gpr_pairs r m)) = 0 \<longleftrightarrow>
     (\<forall>i<32. \<not> gpr_differs (st_gpr r i) (gpr m i))"
  by (auto simp: gpr_pairs_def filter_empty_conv)

lemma csr_pairs_none:
  "length (filter (\<lambda>(name, dut, ref). ref \<noteq> dut) (csr_pairs c r m)) = 0 \<longleftrightarrow>
     (\<forall>i<NR_CSR c - 1. st_csr r i = csrs m i)"
  by (auto simp: csr_pairs_def filter_empty_conv)

text \<open>When a comparison fails: a general register is off by more than the tolerance, or, for Spike, a control register differs.\<close>

definition disagrees :: "config \<Rightarrow> cpu_state \<Rightarrow> ('a) rv32_scheme \<Rightarrow> bool" where
  "disagrees c ref m \<longleftrightarrow> (\<exists>i<32. gpr_differs (st_gpr ref i) (gpr m i)) \<or>
     cfg_difftest c = DIFFTEST_REF_SPIKE \<and> (\<exists>i<NR_CSR c - 1. st_csr ref i \<noteq> csrs m i)"

lemma isa_checkregs_verdict:
  assumes pcs: "st_pc ref = cpu_pc m"
  shows "\<exists>x. isa_difftest_checkregs c M R ref pc m = Inr (\<not> disagrees c ref m, m\<lparr>console := x\<rparr>)"
proof -
  obtain n pc1 m1 where l: "check_list gpr_differs (gpr_pairs ref m) pc m = (n, pc1, m1)" by (rule prod_cases3)
  obtain x where x: "m1 = m\<lparr>console := x\<rparr>" using check_list_console [of gpr_differs "gpr_pairs ref m" pc m] l by auto
  have n: "n = 0 \<longleftrightarrow> (\<forall>i<32. \<not> gpr_differs (st_gpr ref i) (gpr m i))"
    using check_list_count [of gpr_differs "gpr_pairs ref m" pc m] gpr_pairs_none [of ref m] l by simp
  show ?thesis
  proof (cases "cfg_difftest c = DIFFTEST_REF_SPIKE")
    case True
    obtain n' pc2 m2 where l': "check_list (\<noteq>) (csr_pairs c ref m1) pc1 m1 = (n', pc2, m2)" by (rule prod_cases3)
    obtain y where y: "m2 = m1\<lparr>console := y\<rparr>" using check_list_console [of "(\<noteq>)" "csr_pairs c ref m1" pc1 m1] l' by auto
    have "csrs m1 = csrs m" by (simp add: x)
    then have n': "n' = 0 \<longleftrightarrow> (\<forall>i<NR_CSR c - 1. st_csr ref i = csrs m i)"
      using check_list_count [of "(\<noteq>)" "csr_pairs c ref m1" pc1 m1] csr_pairs_none [of c ref m1] l' by simp
    have m2: "m2 = m\<lparr>console := y\<rparr>" by (simp add: x y)
    have "isa_difftest_checkregs c M R ref pc m = Inr (n + n' = 0, m2)"
      using True pcs l l' by (simp add: isa_difftest_checkregs_def m2)
    moreover have "(n + n' = 0) = (\<not> disagrees c ref m)" using True n n' by (auto simp: disagrees_def)
    ultimately show ?thesis by (intro exI [of _ y]) (simp only: m2)
  next
    case False
    have "isa_difftest_checkregs c M R ref pc m = Inr (n = 0, m1)"
      using False pcs l x by (simp add: isa_difftest_checkregs_def)
    moreover have "(n = 0) = (\<not> disagrees c ref m)" using False n by (auto simp: disagrees_def)
    ultimately show ?thesis by (intro exI [of _ x]) (simp only: x)
  qed
qed

lemma checkregs_verdict:
  assumes pcs: "st_pc ref = cpu_pc m"
  shows "\<exists>m'. checkregs c M R ref pc m = Inr m' \<and> gpr m' = gpr m \<and> csrs m' = csrs m \<and> cpu_pc m' = cpu_pc m \<and> pmem m' = pmem m \<and>
    (if disagrees c ref m then nemu_state m' = NEMU_ABORT \<and> halt_pc m' = pc else nemu_state m' = nemu_state m)"
proof -
  obtain x where iso: "isa_difftest_checkregs c M R ref pc m = Inr (\<not> disagrees c ref m, m\<lparr>console := x\<rparr>)"
    using isa_checkregs_verdict [OF pcs] by blast
  define m2 where "m2 = m\<lparr>console := x, nemu_state := NEMU_ABORT, halt_pc := pc\<rparr>"
  have m2: "gpr m2 = gpr m" "csrs m2 = csrs m" "cpu_pc m2 = cpu_pc m" "pmem m2 = pmem m" "nemu_state m2 = NEMU_ABORT" "halt_pc m2 = pc"
    by (simp_all add: m2_def)
  obtain y where y: "show_regs c m2 = m2\<lparr>console := y\<rparr>" using show_regs_console [of c m2] by auto
  have "checkregs c M R ref pc m = Inr (if disagrees c ref m then m2\<lparr>console := y\<rparr> else m\<lparr>console := x\<rparr>)"
    using y by (simp add: checkregs_def iso m2_def)
  then show ?thesis using m2 by simp
qed

text \<open>Registers that agree are accepted; differences within the tolerance are accepted as well.\<close>

lemma gpr_differs_same: "\<not> gpr_differs v v"
  by (simp add: gpr_differs_def Let_def)

lemma gpr_differs_tolerance: "gpr_differs (v + 0x101) v" "\<not> gpr_differs (v + 0x100) v" "\<not> gpr_differs (v - 0x100) v"
  by (simp_all add: gpr_differs_def Let_def word_sless_alt)

end
