(* ===== verification/MiniVm.thy ===== *)
theory MiniVm
  imports MiniRv32 Difftest Cstr
begin

text \<open>
  The machine around the mini-rv32ima step, \<^verbatim>\<open>tools/rv32ima-diff/src/mini-rv32ima.c\<close>, and its use as
  a reference, \<^verbatim>\<open>tools/rv32ima-diff/src/difftest.c\<close>: options, loading, the run loop, and the functions
  the emulator looks up in the shared object.
\<close>

unbundle bit_operations_syntax

section \<open>Options\<close>

text \<open>
  \<^verbatim>\<open>SimpleReadNumberInt\<close>: the prefix chooses the radix; \<^verbatim>\<open>strtoll\<close> reads the digits, and without any
  the default is returned. Spaces and signs in front of the digits are not modelled.
\<close>

definition strtoll_radix :: "nat \<Rightarrow> string \<Rightarrow> int option" where
  "strtoll_radix b s = (case s of
      [] \<Rightarrow> None
    | ch # _ \<Rightarrow> (case digit_val ch of
        Some d \<Rightarrow> if d < b then Some (saturate_long (int (digits_value b 0 s))) else None
      | None \<Rightarrow> None))"

definition SimpleReadNumberInt :: "string \<Rightarrow> int \<Rightarrow> int" where
  "SimpleReadNumberInt number def = (case number of
      [] \<Rightarrow> def
    | c0 # rest \<Rightarrow>
        (let read = (\<lambda>b s. case strtoll_radix b s of Some v \<Rightarrow> v | None \<Rightarrow> def) in
         if c0 \<noteq> CHR ''0'' then read 10 number
         else (case rest of
             [] \<Rightarrow> 0
           | nc # digits \<Rightarrow>
               if nc = CHR ''x'' then read 16 digits
               else if nc = CHR ''b'' then read 2 digits
               else read 8 rest)))"

text \<open>One option letter that takes an argument: \<^verbatim>\<open>++i < argc\<close> moves to it when there is one.\<close>

definition next_arg :: "(string option \<Rightarrow> mini \<Rightarrow> mini) \<Rightarrow> string list \<times> mini \<Rightarrow> string list \<times> mini" where
  "next_arg f x = (case x of
      ([], s) \<Rightarrow> ([], f None s)
    | (a # args, s) \<Rightarrow> (args, f (Some a) s))"

text \<open>The switch; the first component of the result is \<^verbatim>\<open>param_continue\<close>.\<close>

definition run_flag :: "char option \<Rightarrow> bool \<Rightarrow> string list \<times> mini \<Rightarrow> bool \<times> string list \<times> mini" where
  "run_flag ch cont x = (case x of (args, s) \<Rightarrow>
     let num = (\<lambda>f. next_arg (\<lambda>a s. case a of None \<Rightarrow> s | Some n \<Rightarrow> f n s) x) in
     if ch = Some CHR ''m'' then
       (cont, num (\<lambda>n s. s\<lparr>ram_amt := word_of_int (SimpleReadNumberInt n (uint (ram_amt s)))\<rparr>))
     else if ch = Some CHR ''c'' then (cont, num (\<lambda>n s. s\<lparr>instct := SimpleReadNumberInt n (- 1)\<rparr>))
     else if ch = Some CHR ''k'' then (cont, num (\<lambda>n s. s\<lparr>kernel_command_line := Some n\<rparr>))
     else if ch = Some CHR ''f'' then (cont, next_arg (\<lambda>a s. s\<lparr>image_file_name := a\<rparr>) x)
     else if ch = Some CHR ''b'' then (cont, next_arg (\<lambda>a s. s\<lparr>dtb_file_name := a\<rparr>) x)
     else if ch = Some CHR ''l'' then (True, args, s\<lparr>fixed_update := True\<rparr>)
     else if ch = Some CHR ''p'' then (True, args, s\<lparr>do_sleep := False\<rparr>)
     else if ch = Some CHR ''s'' then (True, args, s\<lparr>single_step := False\<rparr>)
     else if ch = Some CHR ''d'' then (True, args, s\<lparr>fail_on_all_faults := True\<rparr>)
     else if ch = Some CHR ''t'' then (cont, num (\<lambda>n s. s\<lparr>time_divisor := scast (word_of_int (SimpleReadNumberInt n 1) :: u32)\<rparr>))
     else if cont then (False, args, s)
     else (False, args, s\<lparr>show_help := True\<rparr>))"

text \<open>The loop over the characters of one parameter; \<open>param ! 1\<close> past the end is the terminating zero.\<close>

fun run_param :: "string \<Rightarrow> bool \<Rightarrow> string list \<times> mini \<Rightarrow> string list \<times> mini" where
  "run_param [] cont x = (if cont then snd (run_flag None cont x) else (fst x, (snd x)\<lparr>show_help := True\<rparr>))"
| "run_param (c0 # param) cont x =
     (if c0 = CHR ''-'' \<or> cont then
        (case run_flag (case param of [] \<Rightarrow> None | c1 # _ \<Rightarrow> Some c1) cont x of
           (cont', x') \<Rightarrow> if cont' then run_param param cont' x' else x')
      else (fst x, (snd x)\<lparr>show_help := True\<rparr>))"

lemma next_arg_shorter: "length (fst (next_arg f (args, s))) \<le> length args"
  by (cases args) (simp_all add: next_arg_def)

lemma run_flag_shorter: "length (fst (snd (run_flag ch cont (args, s)))) \<le> length args"
  by (simp add: run_flag_def next_arg_shorter)

lemma run_param_shorter: "length (fst (run_param p cont x)) \<le> length (fst x)"
proof (induction p cont x rule: run_param.induct)
  case (1 cont x)
  then show ?case using run_flag_shorter [of None True "fst x" "snd x"] by simp
next
  case (2 c0 param cont x)
  define ch where "ch = (case param of [] \<Rightarrow> None | c1 # _ \<Rightarrow> Some c1)"
  obtain cont' y where y: "run_flag ch cont x = (cont', y)" by (rule prod.exhaust)
  have le: "length (fst y) \<le> length (fst x)"
    using run_flag_shorter [of ch cont "fst x" "snd x"] y by simp
  have "length (fst (run_param param cont' y)) \<le> length (fst y)" if "c0 = CHR ''-'' \<or> cont" "cont'"
    using 2 [folded ch_def, OF that(1) y [symmetric]] that(2) by simp
  then show ?case using le y by (auto simp: ch_def [symmetric])
qed

function run_params :: "string list \<Rightarrow> mini \<Rightarrow> mini" where
  "run_params [] s = s"
| "run_params (p # args) s = (case run_param p False (args, s) of (args', s') \<Rightarrow> run_params args' s')"
  by pat_completeness auto
termination
proof (relation "measure (\<lambda>(args, s). length args)", goal_cases)
  case (2 p args s args' s')
  then have "args' = fst (run_param p False (args, s))" by (metis fst_conv)
  then show ?case using run_param_shorter [of p False "(args, s)"] by simp
qed simp

text \<open>\<^verbatim>\<open>argv[0]\<close> is skipped. \<open>time_divisor\<close> is an \<^verbatim>\<open>int\<close>, kept sign-extended to 64 bits.\<close>

definition init_run_config :: "string list \<Rightarrow> mini \<Rightarrow> mini res" where
  "init_run_config argv s0 =
     (let s = run_params (drop 1 argv) s0 in
      if show_help s \<or> image_file_name s = None \<or> sint (time_divisor s) \<le> 0 then Inl (Exit 1) else Inr s)"

section \<open>Loading\<close>

text \<open>
  \<^verbatim>\<open>init_vm\<close>. \<open>dtb\<close> is the array \<^verbatim>\<open>default64mbdtb\<close>, \<open>file\<close> the contents of a file. The copies into the
  image must stay inside it.
\<close>

definition mini_put :: "nat \<Rightarrow> u8 list \<Rightarrow> mini \<Rightarrow> mini res" where
  "mini_put a bs s = bindE (in_object (unat (ram_amt s)) a (length bs))
     (\<lambda>_. Inr (s\<lparr>image := put_bytes (image s) a bs\<rparr>))"

definition str_bytes :: "string \<Rightarrow> u8 list" where
  "str_bytes s = map (\<lambda>ch. of_char ch) s"

definition load_dtb :: "(string \<Rightarrow> u8 list option) \<Rightarrow> u8 list \<Rightarrow> mini \<Rightarrow> mini res" where
  "load_dtb file dtb s = (case dtb_file_name s of
      Some name \<Rightarrow>
        if name = ''disable'' then Inr s
        else (case file name of
            None \<Rightarrow> Inl (Exit (- 5))
          | Some bs \<Rightarrow>
              (let s1 = s\<lparr>dtb_ptr := ram_amt s - of_nat (length bs) - of_nat SIZEOF_STATE\<rparr> in
               if bs = [] then Inl (Exit (- 9)) else mini_put (unat (dtb_ptr s1)) bs s1))
    | None \<Rightarrow>
        (let s1 = s\<lparr>dtb_ptr := ram_amt s - of_nat (length dtb) - of_nat SIZEOF_STATE\<rparr> in
         bindE (mini_put (unat (dtb_ptr s1)) dtb s1) (\<lambda>s2. case kernel_command_line s2 of
             None \<Rightarrow> Inr s2
           | Some line \<Rightarrow> mini_put (unat (dtb_ptr s2) + 0xc0) (take 54 (str_bytes line @ replicate 54 0)) s2)))"

definition init_core :: "mini \<Rightarrow> mini" where
  "init_core s =
     (let s1 = SETCSR f_pc MINIRV32_RAM_IMAGE_OFFSET s;
          s2 = REGSET 10 0 s1;
          s3 = REGSET 11 (if dtb_ptr s2 \<noteq> 0 then dtb_ptr s2 + MINIRV32_RAM_IMAGE_OFFSET else 0) s2
      in SETCSR f_extraflags (CSR f_extraflags s3 OR 3) s3)"

text \<open>The size of the memory in the default device tree, big-endian.\<close>

definition patch_dtb :: "mini \<Rightarrow> mini res" where
  "patch_dtb s =
     (if dtb_file_name s \<noteq> None then Inr s
      else
        (let a = dtb_ptr s + 0x13c; v = dtb_ptr s in
         bindE (mini_load 4 a s) (\<lambda>w.
         if w = 0x00c0ff03 then
           mini_store 4 a (drop_bit 24 v OR push_bit 8 (drop_bit 16 v AND 0xff) OR
             push_bit 16 (drop_bit 8 v AND 0xff) OR push_bit 24 (v AND 0xff)) s
         else Inr s)))"

definition init_vm :: "(string \<Rightarrow> u8 list option) \<Rightarrow> u8 list \<Rightarrow> mini \<Rightarrow> mini res" where
  "init_vm file dtb s = (case Option.bind (image_file_name s) file of
      None \<Rightarrow> Inl (Exit (- 5))
    | Some bs \<Rightarrow>
        if length bs > unat (ram_amt s) then Inl (Exit (- 6))
        else if bs = [] then Inl (Exit (- 7))
        else bindE (mini_put 0 bs (s\<lparr>image := (\<lambda>_. 0)\<rparr>)) (\<lambda>s1.
          bindE (load_dtb file dtb s1) (\<lambda>s2.
          bindE (in_object (unat (ram_amt s2)) 0 SIZEOF_STATE) (\<lambda>_.
          patch_dtb (init_core s2)))))"

section \<open>Running\<close>

definition GetTimeMicroseconds :: "host_env \<Rightarrow> mini \<Rightarrow> u64 \<times> mini" where
  "GetTimeMicroseconds E s = (case mi_host (env_timeofday E) s of
     ((tv_sec, tv_usec), s1) \<Rightarrow> (tv_usec + tv_sec * 1000000, s1))"

definition ccount :: "mini \<Rightarrow> u64" where
  "ccount s = le_read (image s) (core_at s f_cyclel) 8"

definition set_ccount :: "u64 \<Rightarrow> mini \<Rightarrow> mini" where
  "set_ccount v s = s\<lparr>image := le_write (image s) (core_at s f_cyclel) 8 v\<rparr>"

text \<open>The loop test \<^verbatim>\<open>rt < n && (rt < instct + 1 || instct < 0)\<close>, computed in 64 bits.\<close>

definition si_continues :: "u64 \<Rightarrow> u64 \<Rightarrow> mini \<Rightarrow> bool" where
  "si_continues rt n s \<longleftrightarrow> rt < n \<and> (rt < word_of_int (instct s + 1) \<or> instct s < 0)"

text \<open>
  One round of \<^verbatim>\<open>si\<close>. The \<^verbatim>\<open>case 0x7777\<close> reloads the machine and falls through to the exit of
  \<^verbatim>\<open>case 0x5555\<close>.
\<close>

definition si_round :: "host_env \<Rightarrow> (string \<Rightarrow> u8 list option) \<Rightarrow> u8 list \<Rightarrow> mini \<Rightarrow> mini res" where
  "si_round E file dtb s =
     (case (if fixed_update s then (ccount s div time_divisor s, s)
            else (case GetTimeMicroseconds E s of (t, s1) \<Rightarrow> (t div time_divisor s, s1))) of (now, s1) \<Rightarrow>
      let elapsedUs = (ucast (now - last_time s1) :: u32);
          s2 = s1\<lparr>last_time := last_time s1 + ucast elapsedUs\<rparr> in
      bindE (MiniRV32IMAStep E elapsedUs (unat (instrs_per_flip s2)) s2) (\<lambda>(code, s3).
      if code = 0 then Inr s3
      else if code = 1 then Inr (set_ccount (ccount s3 + instrs_per_flip s3) s3)
      else if code = 3 then Inr (s3\<lparr>instct := 0\<rparr>)
      else if code = 0x7777 then bindE (init_vm file dtb s3) (\<lambda>_. Inl (Exit 0))
      else if code = 0x5555 then Inl (Exit 0)
      else Inr (mi_emit (OutLine ''Unknown failure'' [] []) s3)))"

text \<open>With \<^verbatim>\<open>instrs_per_flip = n\<close> the first round ends the loop, as \<^verbatim>\<open>rt\<close> becomes \<^verbatim>\<open>n\<close>.\<close>

fun si_loop :: "host_env \<Rightarrow> (string \<Rightarrow> u8 list option) \<Rightarrow> u8 list \<Rightarrow> nat \<Rightarrow> u64 \<Rightarrow> u64 \<Rightarrow> mini \<Rightarrow> mini option res" where
  "si_loop E file dtb 0 rt n s = Inr None"
| "si_loop E file dtb (Suc fuel) rt n s =
     (if si_continues rt n s then
        bindE (si_round E file dtb s) (\<lambda>s1. si_loop E file dtb fuel (rt + instrs_per_flip s1) n s1)
      else Inr (Some s))"

definition si :: "host_env \<Rightarrow> (string \<Rightarrow> u8 list option) \<Rightarrow> u8 list \<Rightarrow> u64 \<Rightarrow> mini \<Rightarrow> mini option res" where
  "si E file dtb n s0 =
     (let s = s0\<lparr>instrs_per_flip := n\<rparr> in
      case (if fixed_update s then (0, s)
            else (case GetTimeMicroseconds E s of (t, s1) \<Rightarrow> (t div time_divisor s1, s1))) of (t, s1) \<Rightarrow>
        si_loop E file dtb 2 0 n (s1\<lparr>last_time := t\<rparr>))"

section \<open>The shared object\<close>

text \<open>
  \<^verbatim>\<open>t_get_regs\<close>: \<^verbatim>\<open>memcpy\<close> copies the 32 registers and three bytes of \<^verbatim>\<open>pc\<close> over the first CSR slot,
  which is \<^verbatim>\<open>mvendorid\<close> and is written again below. A CSR the configuration does not know goes to the
  spare slot.
\<close>

definition t_get_regs :: "config \<Rightarrow> mini \<Rightarrow> cpu_state \<Rightarrow> cpu_state" where
  "t_get_regs c s st =
     (let put = (\<lambda>a v (f :: nat \<Rightarrow> u32). f(check_csr_idx c a := v));
          csr0 = (st_csr st 0 AND 0xff000000) OR (CSR f_pc s AND 0x00ffffff)
      in \<lparr>st_gpr = (\<lambda>i. CSR i s),
          st_csr = put CSR_MISA 0x40401101 (put CSR_MVENDORID 0xff0ff0ff (put CSR_MTVEC (CSR f_mtvec s)
            (put CSR_MTVAL (CSR f_mtval s) (put CSR_MSTATUS (CSR f_mstatus s) (put CSR_MSCRATCH (CSR f_mscratch s)
            (put CSR_MIP (CSR f_mip s) (put CSR_MIE (CSR f_mie s) (put CSR_MCAUSE (CSR f_mcause s)
            (put CSR_MEPC (CSR f_mepc s) ((st_csr st)(0 := csr0))))))))))),
          st_pc = CSR f_pc s\<rparr>)"

text \<open>
  The first copy to the emulator is the whole RAM whatever its length argument. \<open>mem_calls\<close> is
  \<^verbatim>\<open>difftest_memcpy_call_count\<close>.
\<close>

record mini_ref =
  mini_vm :: mini
  mem_calls :: nat

definition mini_memcpy :: "u32 \<Rightarrow> nat \<Rightarrow> mini_ref \<Rightarrow> u8 list \<times> mini_ref" where
  "mini_memcpy addr n r =
     (let s = mini_vm r; a = unat (addr - MINIRV32_RAM_IMAGE_OFFSET) in
      (if mem_calls r = 0 then map (image s) [0..<unat (ram_amt s)] else map (image s) [a..<a + n],
       r\<lparr>mem_calls := mem_calls r + 1\<rparr>))"

definition mini_timer_value :: "mini_ref \<Rightarrow> u64" where
  "mini_timer_value r =
     ucast (CSR f_timerl (mini_vm r)) + push_bit 32 (ucast (CSR f_timerh (mini_vm r)))"

definition mini_difftest_exec ::
    "host_env \<Rightarrow> (string \<Rightarrow> u8 list option) \<Rightarrow> u8 list \<Rightarrow> mini_ref \<Rightarrow> mini_ref res" where
  "mini_difftest_exec E file dtb r =
     bindE (si E file dtb 1 (mini_vm r)) (\<lambda>y. case y of
        None \<Rightarrow> Inl (Assert_fail ''fuel'')
      | Some s \<Rightarrow> Inr (r\<lparr>mini_vm := s\<rparr>))"

definition mini_difftest_init ::
    "(string \<Rightarrow> u8 list option) \<Rightarrow> u8 list \<Rightarrow> string \<Rightarrow> mini_ref \<Rightarrow> mini_ref res" where
  "mini_difftest_init file dtb image_name r =
     bindE (init_run_config [''difftest_init'', ''-f'', image_name, ''-p''] (mini_vm r)) (\<lambda>s.
     bindE (init_vm file dtb s) (\<lambda>s1. Inr (r\<lparr>mini_vm := s1\<rparr>)))"

text \<open>The reference the emulator drives; \<open>image_name\<close> is the environment variable.\<close>

definition mini_ops ::
    "config \<Rightarrow> host_env \<Rightarrow> (string \<Rightarrow> u8 list option) \<Rightarrow> u8 list \<Rightarrow> string \<Rightarrow> mini_ref ref_ops" where
  "mini_ops c E file dtb image_name =
     \<lparr>ref_init = (\<lambda>port r. mini_difftest_init file dtb image_name r),
      ref_exec = mini_difftest_exec E file dtb,
      ref_mem_to_ref = (\<lambda>addr bs r. r),
      ref_mem_to_dut = mini_memcpy,
      ref_regs_to_ref = (\<lambda>st r. r),
      ref_regs_to_dut = (\<lambda>r st. t_get_regs c (mini_vm r) st),
      ref_time = mini_timer_value\<rparr>"

text \<open>The values of the statics before \<^verbatim>\<open>difftest_init\<close>.\<close>

definition mini_zero :: mini where
  "mini_zero = \<lparr>image = (\<lambda>_. 0), ram_amt = 64 * 1024 * 1024, fail_on_all_faults = False, instct = - 1,
     show_help = False, time_divisor = 1, fixed_update = False, do_sleep = True, single_step = True, dtb_ptr = 0,
     image_file_name = None, dtb_file_name = None, kernel_command_line = None, last_time = 0, instrs_per_flip = 1,
     mi_eofd = False, mi_out = [], mi_calls = 0\<rparr>"

end
