(* ===== verification/MiniProps.thy ===== *)
theory MiniProps
  imports MiniVm
begin

text \<open>
  The run control of mini-rv32ima: no instruction changes the sizes the loop of \<^verbatim>\<open>si\<close> depends on, so the
  loop makes at most one round.
\<close>

section \<open>What a step keeps\<close>

definition run_opts :: "mini \<Rightarrow> u32 \<times> u64 \<times> u64 \<times> bool" where
  "run_opts s = (ram_amt s, instrs_per_flip s, time_divisor s, fixed_update s)"

fun flow_state :: "'s flow \<Rightarrow> mini" where
  "flow_state (Go l s) = s"
| "flow_state (Ret v s) = s"

lemma run_opts_upd [simp]:
  "run_opts (SETCSR f v s) = run_opts s" "run_opts (REGSET r v s) = run_opts s" "run_opts (mi_emit ev s) = run_opts s"
  "run_opts (s\<lparr>image := b\<rparr>) = run_opts s" "run_opts (s\<lparr>mi_out := x\<rparr>) = run_opts s" "run_opts (s\<lparr>mi_calls := n\<rparr>) = run_opts s"
  "run_opts (s\<lparr>mi_eofd := q\<rparr>) = run_opts s" "run_opts (s\<lparr>instct := i\<rparr>) = run_opts s"
  "run_opts (s\<lparr>last_time := t\<rparr>) = run_opts s"
  by (simp_all add: run_opts_def SETCSR_def REGSET_def mi_emit_def)

lemma mini_host_opts [simp]: "run_opts (snd (mi_host f s)) = run_opts s"
  by (simp add: mi_host_def)

lemma mini_keyboard_opts [simp]:
  "run_opts (snd (mini_ReadKBByte E s)) = run_opts s" "run_opts (snd (mini_IsKBHit E s)) = run_opts s"
  by (simp_all add: mini_ReadKBByte_def mini_IsKBHit_def mi_host_def split: option.split)

lemma mini_control_opts [simp]:
  "run_opts (snd (HandleControlLoad E a s)) = run_opts s" "run_opts (snd (HandleControlStore a w s)) = run_opts s"
  "run_opts (snd (HandleOtherCSRRead E n s)) = run_opts s"
  by (simp_all add: HandleControlLoad_def HandleControlStore_def HandleOtherCSRRead_def prod.case_eq_if)

lemma other_csr_write_opts: "run_opts (HandleOtherCSRWrite n v s) = run_opts s"
  by (simp add: HandleOtherCSRWrite_def Let_def)

lemma mini_store_opts: "mini_store n ofs v s = Inr s' \<Longrightarrow> run_opts s' = run_opts s"
  by (auto simp: mini_store_def res_simps)

lemma mini_load_op_opts: "mini_load_op E ir s l = Inr fl \<Longrightarrow> run_opts (flow_state fl) = run_opts s"
  by (auto simp: mini_load_op_def Let_def res_simps prod.case_eq_if split: if_splits)

lemma mini_store_op_opts: "mini_store_op ir s l = Inr fl \<Longrightarrow> run_opts (flow_state fl) = run_opts s"
  by (auto simp: mini_store_op_def Let_def res_simps prod.case_eq_if split: if_splits dest: mini_store_opts)

lemma mini_csr_opts [simp]: "run_opts (snd (mini_csr_read E cyc n s)) = run_opts s"
  "run_opts (mini_csr_write n v s) = run_opts s"
  by (simp_all add: mini_csr_read_def mini_csr_write_def other_csr_write_opts split: option.split)

lemma mini_system_opts: "run_opts (flow_state (mini_system E cyc ir s l)) = run_opts s"
  by (simp add: mini_system_def Let_def mini_wfi_def mini_mret_def prod.case_eq_if)

lemma mini_amo_opts: "mini_amo ir s l = Inr fl \<Longrightarrow> run_opts (flow_state fl) = run_opts s"
  by (auto simp: mini_amo_def Let_def res_simps split: if_splits option.splits dest: mini_store_opts)

lemma mini_execute_opts: "mini_execute E cyc ir s l = Inr fl \<Longrightarrow> run_opts (flow_state fl) = run_opts s"
  by (auto simp: mini_execute_def Let_def mini_system_opts split: if_splits
    dest: mini_load_op_opts mini_store_op_opts mini_amo_opts)

lemma mini_loop_opts: "mini_loop E n cyc pc s = Inr fl \<Longrightarrow> run_opts (flow_state fl) = run_opts s"
proof (induction n arbitrary: cyc pc s)
  case (Suc n)
  define ofs where "ofs = pc - MINIRV32_RAM_IMAGE_OFFSET"
  show ?case
  proof (cases "ofs \<ge> ram_amt s \<or> ofs AND 3 \<noteq> 0")
    case True
    then show ?thesis using Suc.prems by (auto simp: Let_def ofs_def [symmetric] split: if_splits)
  next
    case False
    obtain ir f where f: "mini_execute E (cyc + 1) ir s \<lparr>l_pc = pc, l_rval = 0, l_rdid = drop_bit 7 ir AND 0x1f, l_trap = 0\<rparr> = Inr f"
      and rest: "(case f of Ret v s1 \<Rightarrow> Inr (Ret v s1)
        | Go l s1 \<Rightarrow> if l_trap l \<noteq> 0 then Inr (Go (cyc + 1, l) s1)
            else mini_loop E n (cyc + 1) (l_pc l + 4) (if l_rdid l \<noteq> 0 then REGSET (l_rdid l) (l_rval l) s1 else s1)) = Inr fl"
      using Suc.prems False by (auto simp: Let_def ofs_def [symmetric] res_simps)
    have k: "run_opts (flow_state f) = run_opts s" by (rule mini_execute_opts [OF f])
    show ?thesis
    proof (cases f)
      case (Ret v s1)
      then show ?thesis using rest k by auto
    next
      case (Go l s1)
      have "run_opts (if l_rdid l \<noteq> 0 then REGSET (l_rdid l) (l_rval l) s1 else s1) = run_opts s" using k Go by simp
      then show ?thesis using rest Go Suc.IH [of "cyc + 1" "l_pc l + 4"] k by (auto split: if_splits)
    qed
  qed
qed auto

lemma mini_timer_opts: "run_opts (mini_timer e s) = run_opts s"
  by (simp add: mini_timer_def Let_def)

lemma mini_trap_opts: "mini_trap l s = (pc, s') \<Longrightarrow> run_opts s' = run_opts s"
  by (auto simp: mini_trap_def Let_def split: if_splits)

lemma MiniRV32IMAStep_opts:
  assumes "MiniRV32IMAStep E us n s = Inr (v, s')"
  shows "run_opts s' = run_opts s"
proof -
  define s0 where "s0 = mini_timer us s"
  have s0: "run_opts s0 = run_opts s" by (simp add: s0_def mini_timer_opts)
  show ?thesis
  proof (cases "CSR f_extraflags s0 AND 4 \<noteq> 0")
    case True
    then show ?thesis using assms s0 by (simp add: MiniRV32IMAStep_def s0_def [symmetric])
  next
    case False
    define irq where "irq \<longleftrightarrow> CSR f_mip s0 AND push_bit 7 1 \<noteq> 0 \<and> CSR f_mie s0 AND push_bit 7 1 \<noteq> 0 \<and> CSR f_mstatus s0 AND 0x8 \<noteq> 0"
    define r where "r = (if irq
      then Inr (Go (CSR f_cyclel s0, \<lparr>l_pc = CSR f_pc s0 - 4, l_rval = 0, l_rdid = 0, l_trap = 0x80000007\<rparr>) s0)
      else mini_loop E n (CSR f_cyclel s0) (CSR f_pc s0) s0)"
    define rest :: "(u32 \<times> locals) flow \<Rightarrow> (u32 \<times> mini) res" where "rest = (\<lambda>fl. case fl of
            Ret v s1 \<Rightarrow> Inr (v, s1)
          | Go (cycle, l) s1 \<Rightarrow>
              (case (if l_trap l \<noteq> 0 then mini_trap l s1 else (l_pc l, s1)) of (pc, s2) \<Rightarrow>
                let s3 = (if CSR f_cyclel s2 > cycle then SETCSR f_cycleh (CSR f_cycleh s2 + 1) s2 else s2);
                    s4 = SETCSR f_pc pc (SETCSR f_cyclel cycle s3)
                in Inr (0, s4)))"
    have "bindE r rest = Inr (v, s')"
      using assms False unfolding MiniRV32IMAStep_def Let_def [of "mini_timer us s"] s0_def [symmetric]
        rest_def [symmetric] by (simp add: r_def irq_def)
    then obtain fl where fl: "r = Inr fl" and out: "rest fl = Inr (v, s')" by (auto simp: res_simps)
    have k: "run_opts (flow_state fl) = run_opts s"
      using fl s0 by (auto simp: r_def split: if_splits dest: mini_loop_opts)
    show ?thesis
    proof (cases fl)
      case (Ret w s1)
      then show ?thesis using out k by (simp add: rest_def)
    next
      case (Go cl s1)
      obtain cyc l where cl: "cl = (cyc, l)" by (rule prod.exhaust)
      obtain pc s2 where t: "(if l_trap l \<noteq> 0 then mini_trap l s1 else (l_pc l, s1)) = (pc, s2)" by (rule prod.exhaust)
      have "run_opts s2 = run_opts s1" using t by (auto split: if_splits dest: mini_trap_opts)
      then show ?thesis using out k Go cl t by (auto simp: rest_def Let_def)
    qed
  qed
qed

section \<open>The loop of si\<close>

lemma si_round_opts:
  assumes "si_round E file dtb s = Inr s'"
  shows "run_opts s' = run_opts s"
proof -
  define x where "x = (if fixed_update s then (ccount s div time_divisor s, s)
      else (case GetTimeMicroseconds E s of (t, s1) \<Rightarrow> (t div time_divisor s, s1)))"
  have x: "run_opts (snd x) = run_opts s"
    by (simp add: x_def GetTimeMicroseconds_def prod.case_eq_if)
  define us where "us = (ucast (fst x - last_time (snd x)) :: u32)"
  define s2 where "s2 = (snd x)\<lparr>last_time := last_time (snd x) + ucast us\<rparr>"
  have s2: "run_opts s2 = run_opts s" using x by (simp add: s2_def)
  obtain code s3 where step: "MiniRV32IMAStep E us (unat (instrs_per_flip s2)) s2 = Inr (code, s3)" and
    out: "(if code = 0 then Inr s3
      else if code = 1 then Inr (set_ccount (ccount s3 + instrs_per_flip s3) s3)
      else if code = 3 then Inr (s3\<lparr>instct := 0\<rparr>)
      else if code = 0x7777 then bindE (init_vm file dtb s3) (\<lambda>_. Inl (Exit 0))
      else if code = 0x5555 then Inl (Exit 0)
      else Inr (mi_emit (OutLine ''Unknown failure'' [] []) s3)) = (Inr s' :: mini res)"
    using assms unfolding si_round_def x_def [symmetric]
    by (cases x) (auto simp: Let_def us_def s2_def res_simps)
  have "run_opts s3 = run_opts s" using MiniRV32IMAStep_opts [OF step] s2 by simp
  then show ?thesis using out by (auto simp: set_ccount_def res_simps split: if_splits)
qed

lemma si_loop_returns:
  assumes "instrs_per_flip s = n"
  shows "si_loop E file dtb 2 0 n s \<noteq> Inr None"
proof (cases "si_round E file dtb s")
  case (Inr s2)
  have "instrs_per_flip s2 = n" using si_round_opts [OF Inr] assms by (simp add: run_opts_def)
  then show ?thesis using Inr by (simp add: numeral_2_eq_2 si_continues_def)
qed (simp add: numeral_2_eq_2)

lemma si_returns: "si E file dtb n s \<noteq> Inr None"
proof -
  have "\<exists>s1. si E file dtb n s = si_loop E file dtb 2 0 n s1 \<and> instrs_per_flip s1 = n"
    unfolding si_def Let_def prod.case_eq_if
    by (intro exI conjI, rule refl) (simp add: GetTimeMicroseconds_def mi_host_def prod.case_eq_if)
  then show ?thesis using si_loop_returns by metis
qed

end
