(* ===== verification/Gdb.thy ===== *)
theory Gdb
  imports HostMem
begin

text \<open>
  The QEMU reference, \<^verbatim>\<open>tools/qemu-diff/src/\<close>: the client of the GDB remote protocol of \<^verbatim>\<open>protocol.c\<close>,
  the requests of \<^verbatim>\<open>gdb-host.c\<close> and the functions of the shared object in \<^verbatim>\<open>diff-test.c\<close>, built for riscv32.
  The connection is two byte streams; what the server sends is the input still to come. Sockets and
  the child process that runs QEMU are left out.
\<close>

unbundle bit_operations_syntax

section \<open>Hexadecimal digits\<close>

definition isdigit :: "u8 \<Rightarrow> bool" where "isdigit b \<longleftrightarrow> 0x30 \<le> b \<and> b \<le> 0x39"

definition isxdigit :: "u8 \<Rightarrow> bool" where
  "isxdigit b \<longleftrightarrow> isdigit b \<or> (0x41 \<le> b \<and> b \<le> 0x46) \<or> (0x61 \<le> b \<and> b \<le> 0x66)"

definition tolower :: "u8 \<Rightarrow> u8" where "tolower b = (if 0x41 \<le> b \<and> b \<le> 0x5a then b + 0x20 else b)"

definition hex_nibble :: "u8 \<Rightarrow> u8" where
  "hex_nibble hex = (if isdigit hex then hex - 0x30 else tolower hex - 0x61 + 10)"

definition hex_encode :: "u8 \<Rightarrow> u8" where
  "hex_encode digit = (if digit > 9 then 0x61 + digit - 10 else 0x30 + digit)"

definition gdb_decode_hex :: "u8 \<Rightarrow> u8 \<Rightarrow> u16" where
  "gdb_decode_hex msb lsb =
     (if \<not> isxdigit msb \<or> \<not> isxdigit lsb then 0xffff else 16 * ucast (hex_nibble msb) + ucast (hex_nibble lsb))"

text \<open>\<open>bytes\<close> up to the terminating zero; the accumulators are \<^verbatim>\<open>value\<close> and \<^verbatim>\<open>weight\<close>.\<close>

fun decode_hex_loop :: "u64 \<Rightarrow> u64 \<Rightarrow> u8 list \<Rightarrow> u64" where
  "decode_hex_loop v weight (a # b # r) =
     (if isxdigit a \<and> isxdigit b then decode_hex_loop (v + weight * ucast (gdb_decode_hex a b)) (weight * (16 * 16)) r
      else v)"
| "decode_hex_loop v weight _ = v"

definition gdb_decode_hex_str :: "u8 list \<Rightarrow> u64" where
  "gdb_decode_hex_str bs = decode_hex_loop 0 1 bs"

section \<open>Packets\<close>

record gdb_conn =
  g_in :: "u8 list"
  g_out :: "u8 list"
  g_ack :: bool

text \<open>The characters \<^verbatim>\<open>$ # } * + -\<close>.\<close>

definition DOLLAR :: u8 where "DOLLAR = 0x24"
definition HASH :: u8 where "HASH = 0x23"
definition BRACE :: u8 where "BRACE = 0x7d"
definition STAR :: u8 where "STAR = 0x2a"
definition PLUS :: u8 where "PLUS = 0x2b"
definition MINUS :: u8 where "MINUS = 0x2d"

lemmas gdb_chars = DOLLAR_def HASH_def BRACE_def STAR_def PLUS_def MINUS_def

definition gdb_begin :: "u8 list \<Rightarrow> gdb_conn" where
  "gdb_begin inp = \<lparr>g_in = inp, g_out = [PLUS], g_ack = True\<rparr>"

definition upper_hex :: "u8 \<Rightarrow> u8" where
  "upper_hex digit = (if digit > 9 then 0x41 + digit - 10 else 0x30 + digit)"

text \<open>The bytes \<^verbatim>\<open>send_packet\<close> writes; writing does not fail in the model.\<close>

definition packet :: "u8 list \<Rightarrow> u8 list" where
  "packet command =
     (let chk = sum_list command in [DOLLAR] @ command @ [HASH, upper_hex (drop_bit 4 chk), upper_hex (chk AND 0xf)])"

definition send_packet :: "u8 list \<Rightarrow> gdb_conn \<Rightarrow> gdb_conn" where
  "send_packet command conn = conn\<lparr>g_out := g_out conn @ packet command\<rparr>"

text \<open>
  The packet is sent until a \<^verbatim>\<open>+\<close> comes back. \<^verbatim>\<open>fgetc\<close> at the end of the input is not a \<^verbatim>\<open>+\<close>, so
  a closed connection makes the loop run forever, the value \<open>None\<close>.
\<close>

partial_function (option) gdb_send :: "u8 list \<Rightarrow> gdb_conn \<Rightarrow> gdb_conn option" where
  "gdb_send command conn =
     (let conn1 = send_packet command conn in
      if \<not> g_ack conn then Some conn1
      else (case g_in conn1 of
          [] \<Rightarrow> gdb_send command conn1
        | c # r \<Rightarrow> if c = PLUS then Some (conn1\<lparr>g_in := r\<rparr>) else gdb_send command (conn1\<lparr>g_in := r\<rparr>)))"

text \<open>
  The loop of \<^verbatim>\<open>recv_packet\<close> after the first \<^verbatim>\<open>$\<close>: \<open>reply\<close> is the buffer up to \<^verbatim>\<open>i\<close>, \<open>cap\<close> its
  capacity. The end of the input ends the process with status 0. A repeat count is a character
  from 29 to 126 but no packet marker; any other is put back. Within a checksum, the end of
  the input reads as \<^verbatim>\<open>(uint8_t)EOF\<close>.
\<close>

definition next_byte :: "u8 list \<Rightarrow> u8" where
  "next_byte xs = (case xs of [] \<Rightarrow> 0xff | c # _ \<Rightarrow> c)"

definition repeat_count :: "u8 list \<Rightarrow> nat option" where
  "repeat_count xs = (case xs of
      [] \<Rightarrow> None
    | c2 # _ \<Rightarrow> if c2 < 29 \<or> c2 > 126 \<or> c2 = DOLLAR \<or> c2 = HASH then None else Some (unat c2 - 29))"

function recv_loop :: "u8 list \<Rightarrow> u8 list \<Rightarrow> nat \<Rightarrow> u8 \<Rightarrow> bool \<Rightarrow> (u8 list \<times> bool \<times> u8 list) res" where
  "recv_loop [] reply cap chk escape = Inl (Exit 0)"
| "recv_loop (c # xs) reply cap chk escape =
     (if c = DOLLAR then recv_loop xs [] cap 0 False
      else if c = HASH then
        bindE (in_object (if length reply = cap then cap + 1 else cap) (length reply) 1) (\<lambda>_.
        Inr (reply, ucast chk = gdb_decode_hex (next_byte xs) (next_byte (drop 1 xs)), drop 2 xs))
      else if c = BRACE then recv_loop xs reply cap (chk + c) True
      else if c = STAR \<and> reply \<noteq> [] \<and> repeat_count xs \<noteq> None then
        (let count = the (repeat_count xs);
             cap' = (if length reply + count > cap then cap * 2 else cap) in
         case in_object cap' (length reply) count of
           Inl e \<Rightarrow> Inl e
         | Inr _ \<Rightarrow> recv_loop (tl xs) (reply @ replicate count (last reply)) cap' (chk + c + hd xs) escape)
      else
        (let cap' = (if length reply = cap then cap * 2 else cap) in
         case in_object cap' (length reply) 1 of
           Inl e \<Rightarrow> Inl e
         | Inr _ \<Rightarrow> recv_loop xs (reply @ [if escape then c XOR 0x20 else c]) cap' (chk + c) False))"
  by pat_completeness auto
termination
  by (relation "measure (\<lambda>(xs, _). length xs)") auto

declare recv_loop.simps [simp del]

definition recv_packet :: "u8 list \<Rightarrow> (u8 list \<times> bool \<times> u8 list) res" where
  "recv_packet xs = (case dropWhile (\<lambda>c. c \<noteq> DOLLAR) xs of
      [] \<Rightarrow> Inl (Exit 0)
    | _ # r \<Rightarrow> recv_loop r [] 4096 0 False)"

text \<open>The branches of the loop, one equation each.\<close>

lemma recv_loop_new: "c = DOLLAR \<Longrightarrow> recv_loop (c # xs) reply cap chk escape = recv_loop xs [] cap 0 False"
  by (simp add: recv_loop.simps)

lemma recv_loop_end:
  "c = HASH \<Longrightarrow> recv_loop (c # xs) reply cap chk escape =
     bindE (in_object (if length reply = cap then cap + 1 else cap) (length reply) 1) (\<lambda>_.
     Inr (reply, ucast chk = gdb_decode_hex (next_byte xs) (next_byte (drop 1 xs)), drop 2 xs))"
  by (simp add: recv_loop.simps gdb_chars)

lemma recv_loop_escape:
  "c = BRACE \<Longrightarrow> recv_loop (c # xs) reply cap chk escape = recv_loop xs reply cap (chk + c) True"
  by (simp add: recv_loop.simps gdb_chars)

lemma recv_loop_repeat:
  assumes "c = STAR" "reply \<noteq> []" "repeat_count xs = Some count"
  shows "recv_loop (c # xs) reply cap chk escape =
     bindE (in_object (if length reply + count > cap then cap * 2 else cap) (length reply) count) (\<lambda>_.
     recv_loop (tl xs) (reply @ replicate count (last reply)) (if length reply + count > cap then cap * 2 else cap)
       (chk + c + hd xs) escape)"
  using assms by (simp add: recv_loop.simps(2) gdb_chars Let_def bindE_def)

lemma recv_loop_char:
  assumes "c \<notin> {DOLLAR, HASH, BRACE}" "\<not> (c = STAR \<and> reply \<noteq> [] \<and> repeat_count xs \<noteq> None)"
  shows "recv_loop (c # xs) reply cap chk escape =
     bindE (in_object (if length reply = cap then cap * 2 else cap) (length reply) 1) (\<lambda>_.
     recv_loop xs (reply @ [if escape then c XOR 0x20 else c]) (if length reply = cap then cap * 2 else cap) (chk + c) False)"
proof -
  have "c \<noteq> DOLLAR" "c \<noteq> HASH" "c \<noteq> BRACE" using assms(1) by auto
  then show ?thesis by (simp only: recv_loop.simps(2) Let_def bindE_def assms(2) if_False)
qed

lemma recv_loop_induct [case_names eof new end_of escaped repeated char]:
  assumes "\<And>reply cap chk escape. P [] reply cap chk escape"
    and "\<And>c xs reply cap chk escape. c = DOLLAR \<Longrightarrow> P xs [] cap 0 False \<Longrightarrow> P (c # xs) reply cap chk escape"
    and "\<And>c xs reply cap chk escape. c = HASH \<Longrightarrow> P (c # xs) reply cap chk escape"
    and "\<And>c xs reply cap chk escape. c = BRACE \<Longrightarrow> P xs reply cap (chk + c) True \<Longrightarrow> P (c # xs) reply cap chk escape"
    and "\<And>c xs reply cap chk escape count. c = STAR \<Longrightarrow> reply \<noteq> [] \<Longrightarrow> repeat_count xs = Some count \<Longrightarrow>
      (\<And>cap'. P (tl xs) (reply @ replicate count (last reply)) cap' (chk + c + hd xs) escape) \<Longrightarrow>
      P (c # xs) reply cap chk escape"
    and "\<And>c xs reply cap chk escape. c \<notin> {DOLLAR, HASH, BRACE} \<Longrightarrow> \<not> (c = STAR \<and> reply \<noteq> [] \<and> repeat_count xs \<noteq> None) \<Longrightarrow>
      (\<And>cap'. P xs (reply @ [if escape then c XOR 0x20 else c]) cap' (chk + c) False) \<Longrightarrow> P (c # xs) reply cap chk escape"
  shows "P xs reply cap chk escape"
proof (induction "length xs" arbitrary: xs reply cap chk escape rule: less_induct)
  case (less xs reply cap chk escape)
  show ?case
  proof (cases xs)
    case (Cons c ys)
    then have IH: "P ys r k s e" "P (tl ys) r k s e" for r k s e by (auto intro: less)
    consider "c = DOLLAR" | "c = HASH" | "c = BRACE"
      | count where "c = STAR" "reply \<noteq> []" "repeat_count ys = Some count"
      | "c \<notin> {DOLLAR, HASH, BRACE}" "\<not> (c = STAR \<and> reply \<noteq> [] \<and> repeat_count ys \<noteq> None)"
      by auto
    then have "P (c # ys) reply cap chk escape"
    proof cases
      case 1
      show ?thesis by (rule assms(2) [OF 1 IH(1)])
    next
      case 2
      show ?thesis by (rule assms(3) [OF 2])
    next
      case 3
      show ?thesis by (rule assms(4) [OF 3 IH(1)])
    next
      case 4
      show ?thesis by (rule assms(5) [OF 4 IH(2)])
    next
      case 5
      show ?thesis by (rule assms(6) [OF 5 IH(1)])
    qed
    then show ?thesis by (simp only: Cons)
  qed (use assms(1) in simp)
qed

lemma recv_loop_shorter: "recv_loop xs reply cap chk escape = Inr (rep, ok, r) \<Longrightarrow> length r \<le> length xs"
proof (induction xs reply cap chk escape rule: recv_loop_induct)
  case (repeated c xs reply cap chk escape count)
  then have "length r \<le> length (tl xs)" by (simp add: recv_loop_repeat res_simps) blast
  then show ?case by simp
next
  case (char c xs reply cap chk escape)
  then show ?case by (simp add: recv_loop_char res_simps) (meson le_SucI)
qed (auto simp: recv_loop.simps(1) recv_loop_new recv_loop_end recv_loop_escape res_simps le_SucI)

lemma recv_packet_shorter: "recv_packet xs = Inr (rep, ok, r) \<Longrightarrow> length r < length xs"
  using length_dropWhile_le [of "\<lambda>c. c \<noteq> DOLLAR" xs]
  by (auto simp: recv_packet_def split: list.splits dest!: recv_loop_shorter)

text \<open>Received packets are acknowledged, and received again when the checksum is wrong.\<close>

function gdb_recv :: "gdb_conn \<Rightarrow> (u8 list \<times> gdb_conn) res" where
  "gdb_recv conn = (case recv_packet (g_in conn) of
      Inl e \<Rightarrow> Inl e
    | Inr (reply, acked, r) \<Rightarrow>
        (let conn1 = conn\<lparr>g_in := r\<rparr> in
         if \<not> g_ack conn then Inr (reply, conn1)
         else (let conn2 = conn1\<lparr>g_out := g_out conn1 @ [if acked then PLUS else MINUS]\<rparr> in
               if acked then Inr (reply, conn2) else gdb_recv conn2)))"
  by pat_completeness auto
termination
  by (relation "measure (\<lambda>conn. length (g_in conn))") (auto dest!: recv_packet_shorter)

declare gdb_recv.simps [simp del]

section \<open>Requests\<close>

text \<open>A request that may not return and may end the process.\<close>

definition request :: "u8 list \<Rightarrow> gdb_conn \<Rightarrow> (u8 list \<times> gdb_conn) res option" where
  "request command conn = map_option gdb_recv (gdb_send command conn)"

definition bindR :: "'a res option \<Rightarrow> ('a \<Rightarrow> 'b res option) \<Rightarrow> 'b res option" where
  "bindR r f = (case r of None \<Rightarrow> None | Some (Inl e) \<Rightarrow> Some (Inl e) | Some (Inr x) \<Rightarrow> f x)"

definition ascii :: "string \<Rightarrow> u8 list" where "ascii s = map of_char s"

text \<open>\<^verbatim>\<open>strcmp(reply, "OK") == 0\<close>: the reply up to its first zero.\<close>

definition reply_ok :: "u8 list \<Rightarrow> bool" where
  "reply_ok reply \<longleftrightarrow> takeWhile (\<lambda>b. b \<noteq> 0) reply = ascii ''OK''"

definition gdb_start_noack :: "gdb_conn \<Rightarrow> (string \<times> gdb_conn) res option" where
  "gdb_start_noack conn = bindR (request (ascii ''QStartNoAckMode'') conn) (\<lambda>(reply, conn1).
     let ok = (length reply = 2 \<and> reply_ok reply) in
     Some (Inr (if ok then (''OK'', conn1\<lparr>g_ack := False\<rparr>) else ([], conn1))))"

text \<open>\<^verbatim>\<open>%x\<close> of an unsigned number.\<close>

fun hex_text :: "nat \<Rightarrow> u8 list" where
  "hex_text n = (if n < 16 then [hex_encode (of_nat n)] else hex_text (n div 16) @ [hex_encode (of_nat (n mod 16))])"

declare hex_text.simps [simp del]

text \<open>Two digits for a byte, the high one first.\<close>

definition hex_bytes :: "u8 list \<Rightarrow> u8 list" where
  "hex_bytes bs = concat (map (\<lambda>b. [hex_encode (drop_bit 4 b), hex_encode (b AND 0xf)]) bs)"

definition gdb_memcpy_to_qemu_small :: "u32 \<Rightarrow> u8 list \<Rightarrow> gdb_conn \<Rightarrow> (bool \<times> gdb_conn) res option" where
  "gdb_memcpy_to_qemu_small dest src conn =
     bindR (request (ascii ''M0x'' @ hex_text (unat dest) @ ascii '','' @ hex_text (length src) @ ascii '':'' @ hex_bytes src) conn)
       (\<lambda>(reply, conn1). Some (Inr (reply_ok reply, conn1)))"

text \<open>Chunks of 1500 bytes; a failed one does not stop the copy.\<close>

function gdb_memcpy_to_qemu :: "bool \<Rightarrow> u32 \<Rightarrow> u8 list \<Rightarrow> gdb_conn \<Rightarrow> (bool \<times> gdb_conn) res option" where
  "gdb_memcpy_to_qemu ok dest src conn =
     (if length src > 1500 then
        bindR (gdb_memcpy_to_qemu_small dest (take 1500 src) conn) (\<lambda>(ok1, conn1).
        gdb_memcpy_to_qemu (ok \<and> ok1) (dest + 1500) (drop 1500 src) conn1)
      else
        bindR (gdb_memcpy_to_qemu_small dest src conn) (\<lambda>(ok1, conn1). Some (Inr (ok \<and> ok1, conn1))))"
  by pat_completeness auto
termination
  by (relation "measure (\<lambda>(ok, dest, src, conn). length src)") auto

declare gdb_memcpy_to_qemu.simps [simp del]

text \<open>
  The registers of the union, as its 77 words. \<open>junk\<close> is what the buffer of the reply holds behind
  the reply and its terminating zero (indeterminate in C); it is read when the reply is short.
\<close>

definition NR_GDB_REGS :: nat where "NR_GDB_REGS = 77"

definition reply_buffer :: "(nat \<Rightarrow> u8) \<Rightarrow> u8 list \<Rightarrow> nat \<Rightarrow> u8" where
  "reply_buffer junk reply i = (if i < length reply then reply ! i else if i = length reply then 0 else junk i)"

definition gdb_getregs :: "(nat \<Rightarrow> u8) \<Rightarrow> gdb_conn \<Rightarrow> (u32 list \<times> gdb_conn) res option" where
  "gdb_getregs junk conn = bindR (request (ascii ''g'') conn) (\<lambda>(reply, conn1).
     Some (Inr (map (\<lambda>i. ucast (gdb_decode_hex_str (map (reply_buffer junk reply) [8 * i..<8 * i + 8]))) [0..<NR_GDB_REGS],
       conn1)))"

definition word_bytes :: "u32 \<Rightarrow> u8 list" where
  "word_bytes w = map (\<lambda>k. ucast (drop_bit (8 * k) w)) [0..<4]"

definition regs_text :: "u32 list \<Rightarrow> u8 list" where
  "regs_text r = hex_bytes (concat (map word_bytes r))"

definition gdb_setregs :: "u32 list \<Rightarrow> gdb_conn \<Rightarrow> (bool \<times> gdb_conn) res option" where
  "gdb_setregs r conn = bindR (request (ascii ''G'' @ regs_text r) conn)
     (\<lambda>(reply, conn1). Some (Inr (reply_ok reply, conn1)))"

definition gdb_si :: "gdb_conn \<Rightarrow> gdb_conn res option" where
  "gdb_si conn = bindR (request (ascii ''vCont;s:1'') conn) (\<lambda>(reply, conn1). Some (Inr conn1))"

section \<open>The functions of the shared object\<close>

text \<open>\<^verbatim>\<open>DIFFTEST_REG_SIZE\<close> in words: the 32 registers and the program counter.\<close>

definition NR_DIFF_REGS :: nat where "NR_DIFF_REGS = 33"

definition qemu_difftest_memcpy :: "u32 \<Rightarrow> u8 list \<Rightarrow> bool \<Rightarrow> gdb_conn \<Rightarrow> gdb_conn res option" where
  "qemu_difftest_memcpy addr buf to_ref conn =
     (if \<not> to_ref then Some (Inl (Assert_fail ''direction == DIFFTEST_TO_REF''))
      else bindR (gdb_memcpy_to_qemu True addr buf conn) (\<lambda>(ok, conn1).
        Some (bindE (assertE ok ''ok == 1'') (\<lambda>_. Inr conn1))))"

definition qemu_difftest_regcpy :: "(nat \<Rightarrow> u8) \<Rightarrow> u32 list \<Rightarrow> bool \<Rightarrow> gdb_conn \<Rightarrow> (u32 list \<times> gdb_conn) res option" where
  "qemu_difftest_regcpy junk dut to_ref conn =
     bindR (gdb_getregs junk conn) (\<lambda>(qemu_r, conn1).
     if to_ref then
       bindR (gdb_setregs (take NR_DIFF_REGS dut @ drop NR_DIFF_REGS qemu_r) conn1) (\<lambda>(ok, conn2). Some (Inr (dut, conn2)))
     else Some (Inr (take NR_DIFF_REGS qemu_r @ drop NR_DIFF_REGS dut, conn1)))"

fun qemu_exec_loop :: "nat \<Rightarrow> gdb_conn \<Rightarrow> gdb_conn res option" where
  "qemu_exec_loop 0 conn = Some (Inr conn)"
| "qemu_exec_loop (Suc n) conn = bindR (gdb_si conn) (qemu_exec_loop n)"

definition qemu_difftest_exec :: "u64 \<Rightarrow> gdb_conn \<Rightarrow> gdb_conn res option" where
  "qemu_difftest_exec n conn = qemu_exec_loop (unat n) conn"

definition qemu_difftest_raise_intr :: "u64 \<Rightarrow> gdb_conn \<Rightarrow> gdb_conn res option" where
  "qemu_difftest_raise_intr NO conn = Some (Inl (Assert_fail ''0''))"

end
