(* ===== verification/GdbProps.thy ===== *)
theory GdbProps
  imports Gdb
begin

text \<open>
  The GDB connection: the packet buffer is never overrun, a packet sent is the packet received, and
  the registers survive their way through the text of the protocol.
\<close>

unbundle bit_operations_syntax

section \<open>The buffer\<close>

lemma repeat_count_le: "repeat_count xs = Some count \<Longrightarrow> count \<le> 97"
  by (auto simp: repeat_count_def word_less_nat_alt split: list.splits if_splits)

lemma recv_loop_no_oob:
  "length reply \<le> cap \<Longrightarrow> 4096 \<le> cap \<Longrightarrow> recv_loop xs reply cap chk escape \<noteq> Inl (Host_oob a)"
proof (induction xs reply cap chk escape rule: recv_loop_induct)
  case (repeated c xs reply cap chk escape count)
  define cap' where "cap' = (if length reply + count > cap then cap * 2 else cap)"
  have le: "length reply + count \<le> cap'" "4096 \<le> cap'"
    using repeated.prems repeat_count_le [OF repeated.hyps(3)] by (auto simp: cap'_def)
  then show ?case
    using repeated.IH [of cap'] repeated.hyps
    by (simp add: recv_loop_repeat cap'_def [symmetric] in_object_def)
next
  case (char c xs reply cap chk escape)
  define cap' where "cap' = (if length reply = cap then cap * 2 else cap)"
  have le: "length reply + 1 \<le> cap'" "4096 \<le> cap'" using char.prems by (auto simp: cap'_def)
  then show ?case
    using char.IH [of cap'] char.hyps by (simp add: recv_loop_char cap'_def [symmetric] in_object_def)
qed (auto simp: recv_loop.simps(1) recv_loop_new recv_loop_end recv_loop_escape in_object_def)

lemma recv_packet_no_oob: "recv_packet xs \<noteq> Inl (Host_oob a)"
  by (auto simp: recv_packet_def recv_loop_no_oob split: list.split)

section \<open>Digits\<close>

lemma small_byte: "d \<le> (15 :: u8) \<Longrightarrow> \<exists>n<16. d = of_nat n"
  by (rule exI [of _ "unat d"]) (simp add: word_le_nat_alt)

lemma all_digits: "(\<forall>n<16. P n) \<longleftrightarrow> P 0 \<and> P 1 \<and> P 2 \<and> P 3 \<and> P 4 \<and> P 5 \<and> P 6 \<and> P 7 \<and> P 8 \<and> P 9 \<and> P 10 \<and>
    P 11 \<and> P 12 \<and> P 13 \<and> P 14 \<and> P (15 :: nat)"
  by (simp add: eval_nat_numeral All_less_Suc) blast

lemmas digit_defs = isdigit_def isxdigit_def tolower_def hex_nibble_def hex_encode_def upper_hex_def gdb_chars

lemma digit_round_trip:
  assumes "d \<le> (15 :: u8)"
  shows "isxdigit (hex_encode d)" "isxdigit (upper_hex d)" "hex_nibble (hex_encode d) = d" "hex_nibble (upper_hex d) = d"
    "hex_encode d \<notin> {DOLLAR, HASH, BRACE, STAR}"
proof -
  have "\<forall>n<16. isxdigit (hex_encode (of_nat n)) \<and> isxdigit (upper_hex (of_nat n)) \<and>
      hex_nibble (hex_encode (of_nat n)) = of_nat n \<and> hex_nibble (upper_hex (of_nat n)) = of_nat n \<and>
      hex_encode (of_nat n) \<notin> {DOLLAR, HASH, BRACE, STAR}"
    by (simp add: all_digits digit_defs)
  then show "isxdigit (hex_encode d)" "isxdigit (upper_hex d)" "hex_nibble (hex_encode d) = d"
    "hex_nibble (upper_hex d) = d" "hex_encode d \<notin> {DOLLAR, HASH, BRACE, STAR}"
    using small_byte [OF assms] by auto
qed

lemma nat_bits: "drop_bit k (n :: nat) = n div 2 ^ k" "take_bit k (n :: nat) = n mod 2 ^ k"
  by (rule drop_bit_eq_div, rule take_bit_eq_mod)

lemma nibbles_small: "drop_bit 4 b \<le> (15 :: u8)" "b AND 0xf \<le> (15 :: u8)"
proof -
  have "unat b < 2 ^ LENGTH(8)" by (rule unsigned_less)
  then show "drop_bit 4 b \<le> (15 :: u8)"
    by (simp add: word_le_nat_alt unat_drop_bit_eq nat_bits)
  show "b AND 0xf \<le> (15 :: u8)" by (rule word_and_le1)
qed

lemma byte_of_nat: "(ucast b :: u16) = of_nat (unat b)" "(ucast b :: u64) = of_nat (unat b)" for b :: u8
  by simp_all

lemma nibbles_join: "16 * ucast (drop_bit 4 b) + ucast (b AND 0xf) = (ucast b :: u16)" for b :: u8
proof -
  have m: "b AND 0xf = take_bit 4 b" using take_bit_eq_mask [of 4 b] by (simp add: mask_eq_exp_minus_1)
  have "unat (drop_bit 4 b) = unat b div 16" "unat (b AND 0xf) = unat b mod 16"
    by (simp_all add: m unat_drop_bit_eq unsigned_take_bit_eq nat_bits)
  then have "16 * ucast (drop_bit 4 b) + ucast (b AND 0xf) = (of_nat (16 * (unat b div 16) + unat b mod 16) :: u16)"
    by (simp only: byte_of_nat(1) of_nat_add of_nat_mult of_nat_numeral)
  also have "16 * (unat b div 16) + unat b mod 16 = unat b" by simp
  finally show ?thesis by (simp only: byte_of_nat(1))
qed

lemma decode_upper: "gdb_decode_hex (upper_hex (drop_bit 4 b)) (upper_hex (b AND 0xf)) = ucast b"
  using digit_round_trip [OF nibbles_small(1)] digit_round_trip [OF nibbles_small(2)] nibbles_join [of b]
  by (simp add: gdb_decode_hex_def)

lemma decode_lower: "gdb_decode_hex (hex_encode (drop_bit 4 b)) (hex_encode (b AND 0xf)) = ucast b"
  using digit_round_trip [OF nibbles_small(1)] digit_round_trip [OF nibbles_small(2)] nibbles_join [of b]
  by (simp add: gdb_decode_hex_def)

section \<open>Packets\<close>

definition plain_byte :: "u8 \<Rightarrow> bool" where "plain_byte b \<longleftrightarrow> b \<notin> {DOLLAR, HASH, BRACE, STAR}"

lemma recv_loop_plain:
  "list_all plain_byte p \<Longrightarrow> length reply \<le> cap \<Longrightarrow> 4096 \<le> cap \<Longrightarrow>
   recv_loop (p @ HASH # d1 # d2 # r) reply cap chk False =
     Inr (reply @ p, ucast (chk + sum_list p) = gdb_decode_hex d1 d2, r)"
proof (induction p arbitrary: reply cap chk)
  case Nil
  then show ?case by (simp add: recv_loop_end in_object_def next_byte_def)
next
  case (Cons c p)
  define cap' where "cap' = (if length reply = cap then cap * 2 else cap)"
  have le: "length (reply @ [c]) \<le> cap'" "4096 \<le> cap'" using Cons.prems by (auto simp: cap'_def)
  have c: "c \<notin> {DOLLAR, HASH, BRACE}" "c \<noteq> STAR" using Cons.prems(1) by (simp_all add: plain_byte_def)
  have "recv_loop ((c # p) @ HASH # d1 # d2 # r) reply cap chk False =
      recv_loop (p @ HASH # d1 # d2 # r) (reply @ [c]) cap' (chk + c) False"
    using c le by (simp add: recv_loop_char cap'_def [symmetric] in_object_def)
  then show ?case using Cons.IH [OF _ le] Cons.prems(1) by (simp add: add.assoc)
qed

lemma recv_packet_sent:
  assumes "list_all plain_byte p" and "\<forall>c\<in>set junk. c \<noteq> DOLLAR"
  shows "recv_packet (junk @ packet p @ rest) = Inr (p, True, rest)"
proof -
  have "dropWhile (\<lambda>c. c \<noteq> DOLLAR) (junk @ packet p @ rest) = packet p @ rest"
    using assms(2) by (induction junk) (auto simp: packet_def Let_def)
  then show ?thesis
    using recv_loop_plain [OF assms(1), of "[]" 4096 _ _ rest 0]
    by (simp add: recv_packet_def packet_def Let_def decode_upper)
qed

section \<open>Requests\<close>

text \<open>The input of a request that the server answers with a packet, in both modes.\<close>

definition answer :: "bool \<Rightarrow> u8 list \<Rightarrow> u8 list" where
  "answer ack p = (if ack then [PLUS] else []) @ packet p"

lemma request_answer:
  assumes "list_all plain_byte p" and "g_in conn = answer (g_ack conn) p @ rest"
  shows "request command conn = Some (Inr (p, conn\<lparr>g_in := rest,
    g_out := g_out conn @ packet command @ (if g_ack conn then [PLUS] else [])\<rparr>))"
proof (cases "g_ack conn")
  case True
  have "gdb_send command conn = Some (conn\<lparr>g_in := packet p @ rest, g_out := g_out conn @ packet command\<rparr>)"
    using True assms(2) by (subst gdb_send.simps) (simp add: send_packet_def answer_def)
  then show ?thesis
    using True recv_packet_sent [OF assms(1), of "[]" rest]
    by (simp add: request_def gdb_recv.simps [of "conn\<lparr>g_in := packet p @ rest, g_out := g_out conn @ packet command\<rparr>"])
next
  case False
  have "gdb_send command conn = Some (conn\<lparr>g_out := g_out conn @ packet command\<rparr>)"
    using False by (subst gdb_send.simps) (simp add: send_packet_def)
  then show ?thesis
    using False assms(2) recv_packet_sent [OF assms(1), of "[]" rest]
    by (simp add: request_def answer_def gdb_recv.simps [of "conn\<lparr>g_out := g_out conn @ packet command\<rparr>"])
qed

section \<open>Registers\<close>

lemma hex_bytes_simps [simp]: "hex_bytes [] = []"
  "hex_bytes (b # bs) = hex_encode (drop_bit 4 b) # hex_encode (b AND 0xf) # hex_bytes bs"
  "hex_bytes (xs @ ys) = hex_bytes xs @ hex_bytes ys"
  by (simp_all add: hex_bytes_def)

lemma hex_bytes_concat: "hex_bytes (concat xss) = concat (map hex_bytes xss)"
  by (induction xss) simp_all

lemma hex_bytes_plain: "list_all plain_byte (hex_bytes bs)"
  using digit_round_trip(5) [OF nibbles_small(1)] digit_round_trip(5) [OF nibbles_small(2)]
  by (induction bs) (simp_all add: plain_byte_def)

lemma ucast_byte_16: "ucast (ucast b :: u16) = (ucast b :: u64)" for b :: u8
  by (rule bit_word_eqI) (auto simp: bit_ucast_iff dest: bit_imp_le_length)

lemma ucast_word_64: "ucast (ucast w :: u64) = w" for w :: u32
  by (rule bit_word_eqI) (simp add: bit_ucast_iff)

lemma decode_hex_bytes:
  "decode_hex_loop v weight (hex_bytes (b # bs)) = decode_hex_loop (v + weight * ucast b) (weight * 256) (hex_bytes bs)"
  using digit_round_trip [OF nibbles_small(1)] digit_round_trip [OF nibbles_small(2)]
  by (simp add: decode_lower ucast_byte_16)

lemma word_bytes_value: "unat w mod 256 + 256 * (unat w div 256 mod 256) + 65536 * (unat w div 65536 mod 256) +
    16777216 * (unat w div 16777216 mod 256) = unat w" for w :: u32
proof -
  define n p q r where "n = unat w" and "p = n div 256" and "q = p div 256" and "r = q div 256"
  have "n < 2 ^ LENGTH(32)" unfolding n_def by (rule unsigned_less)
  then have "r < 256" by (simp add: r_def q_def p_def less_mult_imp_div_less)
  moreover have "n div 65536 = q" "n div 16777216 = r"
    by (simp_all add: r_def q_def p_def div_mult2_eq [symmetric])
  moreover have "n = 256 * p + n mod 256" "p = 256 * q + p mod 256" "q = 256 * r + q mod 256"
    by (simp_all add: p_def q_def r_def)
  ultimately show ?thesis unfolding n_def [symmetric] p_def [symmetric] by simp
qed

lemma word_bytes_unat: "ucast (ucast (drop_bit (8 * k) w :: u32) :: u8) = (of_nat (unat w div 2 ^ (8 * k) mod 256) :: u64)"
proof -
  have "unat (ucast (drop_bit (8 * k) w) :: u8) = unat w div 2 ^ (8 * k) mod 256"
    by (simp add: unat_drop_bit_eq unsigned_ucast_eq nat_bits)
  then show ?thesis by (simp only: byte_of_nat(2))
qed

lemma decode_word_text: "gdb_decode_hex_str (hex_bytes (word_bytes w)) = ucast w"
proof -
  define n where "n = unat w"
  have b: "word_bytes w = [ucast (drop_bit (8 * 0) w), ucast (drop_bit (8 * 1) w), ucast (drop_bit (8 * 2) w), ucast (drop_bit (8 * 3) w)]"
    by (simp add: word_bytes_def upt_rec)
  have "gdb_decode_hex_str (hex_bytes (word_bytes w)) =
      of_nat (n mod 256 + 256 * (n div 256 mod 256) + 65536 * (n div 65536 mod 256) + 16777216 * (n div 16777216 mod 256))"
    unfolding gdb_decode_hex_str_def b decode_hex_bytes word_bytes_unat n_def by simp
  also have "\<dots> = of_nat n" by (simp only: word_bytes_value n_def)
  also have "\<dots> = ucast w" by (simp add: n_def of_nat_unat)
  finally show ?thesis .
qed

lemma slice_concat:
  "i < length ws \<Longrightarrow> (\<And>w. length (f w) = k) \<Longrightarrow> take k (drop (k * i) (concat (map f ws))) = f (ws ! i)"
proof (induction ws arbitrary: i)
  case (Cons w ws)
  then show ?case by (cases i) simp_all
qed simp

lemma buffer_slice: "k + j \<le> length reply \<Longrightarrow> map (reply_buffer junk reply) [k..<k + j] = take j (drop k reply)"
  by (rule nth_equalityI) (auto simp: reply_buffer_def)

lemma word_bytes_length: "length (hex_bytes (word_bytes w)) = 8"
  by (simp add: word_bytes_def upt_rec)

lemma regs_text_words: "regs_text ws = concat (map (\<lambda>w. hex_bytes (word_bytes w)) ws)"
  by (simp add: regs_text_def hex_bytes_concat comp_def)

lemma regs_text_length: "length (regs_text ws) = 8 * length ws"
  unfolding regs_text_words by (induction ws) (simp_all add: word_bytes_length)

lemma getregs_answer:
  assumes "length ws = NR_GDB_REGS" and "g_in conn = answer (g_ack conn) (regs_text ws) @ rest"
  shows "\<exists>conn'. gdb_getregs junk conn = Some (Inr (ws, conn')) \<and> g_in conn' = rest \<and> g_ack conn' = g_ack conn"
proof -
  have slice: "map (reply_buffer junk (regs_text ws)) [8 * i..<8 * i + 8] = hex_bytes (word_bytes (ws ! i))"
    if "i < NR_GDB_REGS" for i
  proof -
    have "map (reply_buffer junk (regs_text ws)) [8 * i..<8 * i + 8] = take 8 (drop (8 * i) (regs_text ws))"
      by (rule buffer_slice) (use that assms(1) in \<open>simp add: regs_text_length\<close>)
    also have "\<dots> = hex_bytes (word_bytes (ws ! i))"
      unfolding regs_text_words by (rule slice_concat) (use that assms(1) word_bytes_length in simp_all)
    finally show ?thesis .
  qed
  have "map (\<lambda>i. ucast (gdb_decode_hex_str (map (reply_buffer junk (regs_text ws)) [8 * i..<8 * i + 8]))) [0..<NR_GDB_REGS] =
      map (\<lambda>i. ws ! i) [0..<NR_GDB_REGS]"
    by (rule map_cong) (simp_all add: slice decode_word_text ucast_word_64)
  also have "\<dots> = ws" by (simp add: assms(1) [symmetric] map_nth)
  finally have regs: "map (\<lambda>i. ucast (gdb_decode_hex_str (map (reply_buffer junk (regs_text ws)) [8 * i..<8 * i + 8]))) [0..<NR_GDB_REGS] = ws" .
  have "list_all plain_byte (regs_text ws)" by (simp add: regs_text_def hex_bytes_plain)
  from request_answer [OF this assms(2), of "ascii ''g''"] show ?thesis
    by (simp add: gdb_getregs_def bindR_def regs)
qed

lemma setregs_answer:
  assumes "g_in conn = answer (g_ack conn) (ascii ''OK'') @ rest"
  shows "\<exists>conn'. gdb_setregs ws conn = Some (Inr (True, conn')) \<and> g_in conn' = rest \<and> g_ack conn' = g_ack conn \<and>
    g_out conn' = g_out conn @ packet (ascii ''G'' @ regs_text ws) @ (if g_ack conn then [PLUS] else [])"
proof -
  have "list_all plain_byte (ascii ''OK'')" by (simp add: ascii_def plain_byte_def gdb_chars)
  from request_answer [OF this assms, of "ascii ''G'' @ regs_text ws"] show ?thesis
    by (simp add: gdb_setregs_def bindR_def reply_ok_def ascii_def)
qed

end
