(* ===== verification/SmallCore.thy ===== *)
theory SmallCore
  imports ExecProps
begin

text \<open>
  What the MIPS32 and the LoongArch32R core share: a built-in image of words at the reset vector, the
  execution loop without a reference, and the effect of one instruction as the few fields that change.
\<close>

section \<open>Images of words\<close>

fun put_words :: "bytes \<Rightarrow> nat \<Rightarrow> u32 list \<Rightarrow> bytes" where
  "put_words f a [] = f"
| "put_words f a (w # ws) = put_words (le_write f a 4 w) (a + 4) ws"

lemma put_words_below: "b + n \<le> a \<Longrightarrow> le_read (put_words f a ws) b n = le_read f b n"
proof (induction ws arbitrary: f a)
  case (Cons w ws)
  then show ?case by (simp add: le_read_write_other)
qed simp

lemma put_words_read: "i < length ws \<Longrightarrow> le_read (put_words f a ws) (a + 4 * i) 4 = (ws ! i :: u32)"
proof (induction ws arbitrary: f a i)
  case (Cons w ws)
  show ?case
  proof (cases i)
    case 0
    then show ?thesis by (simp add: put_words_below le_read_write_same)
  next
    case (Suc j)
    then show ?thesis using Cons.IH [of j "le_write f a 4 w" "a + 4"] Cons.prems by (simp add: add.assoc)
  qed
qed simp

section \<open>One round of the loop\<close>

definition no_check :: "u32 \<Rightarrow> u32 \<Rightarrow> 'm stepper" where "no_check pc npc m = Inr m"

text \<open>
  The registers, memory and program counter of a state, and a step that changes nothing else it counts on: the run state
  and the place of the CLINT's registers, which the devices update between two instructions.
\<close>

type_synonym view = "(nat \<Rightarrow> u32) \<times> bytes \<times> u32"

definition view :: "('a) cpu_scheme \<Rightarrow> view" where "view m = (gpr m, pmem m, cpu_pc m)"

definition moves :: "('a) cpu_scheme \<Rightarrow> view \<Rightarrow> ('a) cpu_scheme \<Rightarrow> bool" where
  "moves m t m' \<longleftrightarrow> view m' = t \<and> nemu_state m' = nemu_state m \<and> clint_base m' = clint_base m"

definition clint_fits :: "('a) devs_scheme \<Rightarrow> bool" where
  "clint_fits m \<longleftrightarrow> clint_base m + MTIMELO + 8 \<le> IO_SPACE_MAX"

text \<open>The devices between two instructions: whatever the clock says, they only move the clock and the screen.\<close>

lemma moves_upd [simp]:
  "moves m t (m'\<lparr>host_calls := x1\<rparr>) = moves m t m'" "moves m t (m'\<lparr>boot_time := x2\<rparr>) = moves m t m'"
  "moves m t (m'\<lparr>dev_last := x3\<rparr>) = moves m t m'" "moves m t (m'\<lparr>frame_count := x4\<rparr>) = moves m t m'"
  "moves m t (m'\<lparr>console := x5\<rparr>) = moves m t m'" "moves m t (m'\<lparr>io_space := x6\<rparr>) = moves m t m'"
  by (simp_all add: moves_def view_def)

lemma moves_refl: "moves m (view m) m"
  by (simp add: moves_def)

lemma get_time_moves: "get_time E m' = (t, m'') \<Longrightarrow> moves m s m'' = moves m s m'"
  by (auto simp: get_time_def get_time_internal_def host_call_def Let_def prod.case_eq_if split: if_splits)

lemma clint_update_moves:
  assumes "moves m s m'" and "clint_fits m"
  obtains m'' where "clint_update c E m' = Inr m''" "moves m s m''"
proof (cases "cfg_difftest c = DIFFTEST_REF_MINIRV32I")
  case True
  obtain us m1 where t: "get_time E m' = (us, m1)" by fastforce
  then have "moves m s m1" using get_time_moves [OF t, of m s] assms(1) by simp
  then show ?thesis
    using that [of "m1\<lparr>io_space := le_write (io_space m1) (clint_base m1 + MTIMELO) 8 us\<rparr>"] True t assms(2)
    by (simp add: clint_update_def dev_poke_def in_object_def clint_fits_def) (simp add: moves_def)
next
  case False
  have "clint_base m' = clint_base m" using assms(1) by (simp add: moves_def)
  then have "\<exists>f. clint_update c E m' = Inr (m'\<lparr>io_space := f\<rparr>)"
    using False assms(2) by (simp add: clint_update_def dev_poke_def dev_peek_def in_object_def clint_fits_def) (rule exI, rule refl)
  then show ?thesis using that assms(1) by auto
qed

lemma device_update_moves:
  assumes "clint_fits m" and "no_input E"
  obtains m' where "device_update c E m = Inr m'" "moves m (view m) m'"
proof -
  obtain now m1 where t: "get_time E m = (now, m1)" by fastforce
  have m1: "moves m (view m) m1" using get_time_moves [OF t, of m "view m"] moves_refl by simp
  show ?thesis
  proof (cases "now - dev_last m1 < 1000000 div TIMER_HZ")
    case True
    then show ?thesis using that t m1 by (simp add: device_update_def)
  next
    case False
    define m2 where "m2 = vga_update_screen (m1\<lparr>dev_last := now\<rparr>)"
    have "moves m (view m) m2" using m1 by (simp add: m2_def vga_update_screen_def update_screen_def emit_def Let_def)
    then obtain m3 where m3: "clint_update c E m2 = Inr m3" "moves m (view m) m3"
      by (rule clint_update_moves [OF _ assms(1)])
    obtain evs m4 where h: "host_call (env_events E) m3 = (evs, m4)" by fastforce
    then have "device_update c E m = Inr (m3\<lparr>host_calls := host_calls m3 + 1\<rparr>)"
      using t False m3(1) no_input_events [OF assms(2) h] by (simp add: device_update_def m2_def)
    then show ?thesis using that m3(2) by simp
  qed
qed

lemma execute_round:
  assumes "exec_once step (cpu_pc m) m = Inr m1" and "moves m t m1" and "nemu_state m = NEMU_RUNNING"
    and "no_input E" and "clint_fits m"
  shows "\<exists>m2. execute c E step no_check (Suc n) m = execute c E step no_check n m2 \<and>
    view m2 = t \<and> nemu_state m2 = NEMU_RUNNING \<and> clint_fits m2"
proof -
  define m2 where "m2 = m1\<lparr>g_nr_guest_inst := g_nr_guest_inst m1 + 1\<rparr>"
  have m2: "view m2 = t" "clint_fits m2" "nemu_state m2 = NEMU_RUNNING"
    using assms(2,3,5) by (simp_all add: m2_def moves_def clint_fits_def view_def)
  obtain m3 where m3: "device_update c E m2 = Inr m3" "moves m2 (view m2) m3"
    by (rule device_update_moves [OF m2(2) assms(4)])
  have "execute_one step no_check m = Inr m2"
    using assms(1) by (simp add: execute_one_def Let_def no_check_def m2_def)
  then have "execute c E step no_check (Suc n) m = execute c E step no_check n m3"
    using m2 m3(1) by simp
  then show ?thesis using m3(2) m2 by (auto simp: moves_def clint_fits_def)
qed

section \<open>Programs\<close>

text \<open>
  A program that goes through the given views and then traps: \<^verbatim>\<open>cpu_exec\<close> returns in the end state with
  the value of the trap.
\<close>

definition traps_with :: "('a) cpu_scheme stepper \<Rightarrow> u32 \<Rightarrow> u32 \<Rightarrow> ('a) cpu_scheme \<Rightarrow> bool" where
  "traps_with step pc v m \<longleftrightarrow> (case exec_once step (cpu_pc m) m of
      Inl _ \<Rightarrow> False
    | Inr m1 \<Rightarrow> nemu_state m1 = NEMU_END \<and> halt_pc m1 = pc \<and> halt_ret m1 = v)"

lemma execute_program:
  assumes trap: "\<And>m. view m = tr k \<Longrightarrow> traps_with step pc v m"
    and step: "\<And>j m. j < k \<Longrightarrow> view m = tr j \<Longrightarrow> \<exists>m1. exec_once step (cpu_pc m) m = Inr m1 \<and> moves m (tr (Suc j)) m1"
    and quiet: "no_input E"
  shows "i \<le> k \<Longrightarrow> k - i < n \<Longrightarrow> view m = tr i \<Longrightarrow> nemu_state m = NEMU_RUNNING \<Longrightarrow> clint_fits m \<Longrightarrow>
    \<exists>m1. execute c E step no_check n m = Inr m1 \<and> nemu_state m1 = NEMU_END \<and> halt_pc m1 = pc \<and> halt_ret m1 = v"
proof (induction n arbitrary: i m)
  case (Suc n)
  show ?case
  proof (cases "i = k")
    case True
    then obtain m1 where m1: "exec_once step (cpu_pc m) m = Inr m1" "nemu_state m1 = NEMU_END" "halt_pc m1 = pc" "halt_ret m1 = v"
      using trap [of m] Suc.prems by (auto simp: traps_with_def split: sum.splits)
    then show ?thesis by (simp add: execute_one_def Let_def no_check_def)
  next
    case False
    then obtain m1 where m1: "exec_once step (cpu_pc m) m = Inr m1" "moves m (tr (Suc i)) m1"
      using step [of i m] Suc.prems by auto
    obtain m2 where m2: "execute c E step no_check (Suc n) m = execute c E step no_check n m2" "view m2 = tr (Suc i)"
      "nemu_state m2 = NEMU_RUNNING" "clint_fits m2"
      using execute_round [OF m1 Suc.prems(4) quiet Suc.prems(5)] by blast
    show ?thesis unfolding m2(1) by (rule Suc.IH [of "Suc i"]) (use Suc.prems False m2 in simp_all)
  qed
qed simp

lemma cpu_exec_program:
  assumes trap: "\<And>m. view m = tr k \<Longrightarrow> traps_with step pc v m"
    and step: "\<And>j m. j < k \<Longrightarrow> view m = tr j \<Longrightarrow> \<exists>m1. exec_once step (cpu_pc m) m = Inr m1 \<and> moves m (tr (Suc j)) m1"
    and quiet: "no_input E" and start: "view m = tr 0" "clint_fits m" and n: "k < unat n"
    and st: "nemu_state m \<noteq> NEMU_END" "nemu_state m \<noteq> NEMU_ABORT"
  shows "\<exists>m'. cpu_exec c E step no_check n m = Inr m' \<and> nemu_state m' = NEMU_END \<and> halt_pc m' = pc \<and> halt_ret m' = v"
proof -
  define mr where "mr = m\<lparr>g_print_step := (n < MAX_INST_TO_PRINT), nemu_state := NEMU_RUNNING\<rparr>"
  obtain t0 m0 where g0: "get_time E mr = (t0, m0)" by fastforce
  have m0: "view m0 = tr 0" "nemu_state m0 = NEMU_RUNNING" "clint_fits m0"
    using get_time_moves [OF g0, of mr "view mr"] moves_refl [of mr] start by (simp_all add: mr_def moves_def view_def clint_fits_def)
  have "\<exists>m1. execute c E step no_check (unat n) m0 = Inr m1 \<and> nemu_state m1 = NEMU_END \<and> halt_pc m1 = pc \<and> halt_ret m1 = v"
    by (rule execute_program [where tr = tr and k = k and step = step and i = 0, OF trap step quiet])
      (use m0 n in \<open>simp_all only: le0 diff_zero\<close>)
  then obtain m1 where m1: "execute c E step no_check (unat n) m0 = Inr m1" "nemu_state m1 = NEMU_END"
    "halt_pc m1 = pc" "halt_ret m1 = v" by blast
  obtain t2 m2 where g2: "get_time E m1 = (t2, m2)" by (rule prod.exhaust)
  have m2: "nemu_state m2 = NEMU_END" "halt_pc m2 = pc" "halt_ret m2 = v"
    using m1 g2 by (auto simp: get_time_def get_time_internal_def host_call_def Let_def split: prod.splits if_splits)
  define m3 where "m3 = m2\<lparr>g_timer := g_timer m2 + (t2 - t0)\<rparr>"
  have "cpu_exec c E step no_check n m = Inr (statistic (emit (OutLine ''nemu: %s at pc = 0x%08x''
      [end_message m3] [uint (halt_pc m3)]) m3))"
    using st g0 m1(1) g2 m2 by (simp add: cpu_exec_def Let_def m3_def mr_def)
  then show ?thesis using m2 by (simp add: statistic_def Let_def emit_def m3_def)
qed

section \<open>What memory accesses leave alone\<close>

definition counted :: "('a) cpu_scheme \<Rightarrow> u64 \<times> nemu_run" where
  "counted m = (g_nr_guest_inst m, nemu_state m)"

lemma counted_more: "devs.more m' = devs.more m \<Longrightarrow> nemu_state m' = nemu_state m \<Longrightarrow> counted m' = counted m"
  by (cases m; cases m') (simp add: counted_def)

lemma counted_upd [simp]:
  "counted (m\<lparr>d_pc := x1\<rparr>) = counted m" "counted (m\<lparr>d_snpc := x2\<rparr>) = counted m" "counted (m\<lparr>d_dnpc := x3\<rparr>) = counted m"
  "counted (m\<lparr>d_inst := x4\<rparr>) = counted m" "counted (set_gpr i v m) = counted m" "counted (emit ev m) = counted m"
  by (simp_all add: counted_def set_gpr_def emit_def)

lemma counted_read: "paddr_read c E a n m = Inr (v, m') \<Longrightarrow> counted m' = counted m"
  by (auto simp: paddr_read_def res_simps dest!: outside.mmio_read_obs intro: counted_more split: if_splits)

lemma counted_write: "paddr_write c E a n v m = Inr m' \<Longrightarrow> counted m' = counted m"
proof (cases "in_pmem a")
  case True
  then show "paddr_write c E a n v m = Inr m' \<Longrightarrow> counted m' = counted m"
    by (auto simp: paddr_write_def pmem_write_def res_simps counted_def)
next
  case False
  then show "paddr_write c E a n v m = Inr m' \<Longrightarrow> counted m' = counted m"
    by (auto simp: paddr_write_def dest!: outside.mmio_write_obs intro: counted_more)
qed

lemma counted_fetch: "inst_fetch c E a n m = Inr (i, s, m') \<Longrightarrow> counted m' = counted m"
  by (auto simp: inst_fetch_def vaddr_ifetch_def res_simps dest: counted_read)

text \<open>The step changes the run state only to end or abort the program.\<close>

definition step_ok :: "('a) cpu_scheme \<Rightarrow> ('a) cpu_scheme \<Rightarrow> bool" where
  "step_ok m m' \<longleftrightarrow> g_nr_guest_inst m' = g_nr_guest_inst m \<and> nemu_state m' \<in> {nemu_state m, NEMU_END, NEMU_ABORT}"

lemma step_ok_counted: "counted m' = counted m \<Longrightarrow> step_ok m m'"
  by (simp add: counted_def step_ok_def)

lemma step_ok_cong: "counted m1 = counted m \<Longrightarrow> counted m2 = counted m' \<Longrightarrow> step_ok m1 m2 = step_ok m m'"
  by (simp add: counted_def step_ok_def)

lemma step_ok_trap: "step_ok m (NEMUTRAP c pc v m)"
  by (simp add: step_ok_def NEMUTRAP_def set_nemu_state_def difftest_skip_ref_def split: difftest_ref.split)

lemma step_ok_invalid: "invalid_inst c E pc m = Inr m' \<Longrightarrow> step_ok m m'"
proof -
  assume "invalid_inst c E pc m = Inr m'"
  then obtain w0 pc1 m1 w1 pc2 m2 where f: "inst_fetch c E pc 4 m = Inr (w0, pc1, m1)" "inst_fetch c E pc1 4 m1 = Inr (w1, pc2, m2)"
    and m': "m' = set_nemu_state c NEMU_ABORT pc (- 1) (emit (OutMsg ''invalid opcode'' [pc, w0, w1]) m2)"
    by (auto simp: invalid_inst_def res_simps)
  have "counted m2 = counted m" using counted_fetch [OF f(1)] counted_fetch [OF f(2)] by simp
  then show "step_ok m m'"
    by (simp add: m' step_ok_def counted_def set_nemu_state_def difftest_skip_ref_def emit_def split: difftest_ref.split)
qed

text \<open>The shape of \<^verbatim>\<open>decode_exec\<close> in both cores: an instruction is selected, executed, and the zero register cleared.\<close>

lemma selected_ok:
  assumes "bindE r (\<lambda>sel. case sel of None \<Rightarrow> Inr (set_gpr 0 0 m0)
      | Some (ty, op) \<Rightarrow> bindE (ex ty op) (\<lambda>m1. Inr (set_gpr 0 0 m1))) = Inr m'"
    and ok: "\<And>ty op m1. ex ty op = Inr m1 \<Longrightarrow> step_ok m0 m1"
  shows "step_ok m0 m'"
proof -
  have clear: "step_ok m0 (set_gpr 0 0 m1) = step_ok m0 m1" for m1 by (rule step_ok_cong) simp_all
  obtain sel where sel: "r = Inr sel" using assms(1) by (cases r) simp_all
  show ?thesis
  proof (cases sel)
    case None
    then show ?thesis using assms(1) sel by (auto simp: clear step_ok_counted)
  next
    case (Some x)
    obtain ty op where x: "x = (ty, op)" by (rule prod.exhaust)
    obtain m1 where "ex ty op = Inr m1" "m' = set_gpr 0 0 m1"
      using assms(1) sel Some x by (auto simp: res_simps)
    then show ?thesis using ok by (simp add: clear)
  qed
qed

section \<open>Instructions in RAM\<close>

definition code_at :: "u32 \<Rightarrow> ('a) cpu_scheme \<Rightarrow> bool" where
  "code_at i m \<longleftrightarrow> in_pmem (cpu_pc m) \<and> guest_to_host (cpu_pc m) + 4 \<le> MSIZE \<and>
     le_read (pmem m) (guest_to_host (cpu_pc m)) 4 = i"

lemma fetch_code:
  assumes "code_at i m"
  shows "inst_fetch c E (cpu_pc m) 4 (m\<lparr>d_pc := cpu_pc m, d_snpc := cpu_pc m\<rparr>) =
    Inr (i, cpu_pc m + 4, m\<lparr>d_pc := cpu_pc m, d_snpc := cpu_pc m\<rparr>)"
  using assms by (simp add: inst_fetch_def vaddr_ifetch_def code_at_def paddr_read_ram)

text \<open>The state in which the instruction \<open>i\<close> at the program counter is executed.\<close>

definition fetched_at :: "u32 \<Rightarrow> ('a) cpu_scheme \<Rightarrow> ('a) cpu_scheme" where
  "fetched_at i m = m\<lparr>d_pc := cpu_pc m, d_inst := i, d_snpc := cpu_pc m + 4, d_dnpc := cpu_pc m + 4\<rparr>"

lemma fetched_at_sel [simp]:
  "gpr (fetched_at i m) = gpr m" "pmem (fetched_at i m) = pmem m" "d_pc (fetched_at i m) = cpu_pc m"
  "d_dnpc (fetched_at i m) = cpu_pc m + 4" "nemu_state (fetched_at i m) = nemu_state m"
  "clint_base (fetched_at i m) = clint_base m"
  by (simp_all add: fetched_at_def)

text \<open>How an instruction ends: the zero register is cleared and the program counter taken from \<^verbatim>\<open>dnpc\<close>.\<close>

definition finish :: "('a) cpu_scheme \<Rightarrow> ('a) cpu_scheme" where
  "finish m1 = (set_gpr 0 0 m1)\<lparr>cpu_pc := d_dnpc m1\<rparr>"

lemma finish_moves:
  assumes "gpr m1 = g" "pmem m1 = p" "d_dnpc m1 = pc" "nemu_state m1 = nemu_state m" "clint_base m1 = clint_base m"
  shows "moves m (g(0 := 0), p, pc) (finish m1)"
  using assms by (simp add: moves_def view_def finish_def set_gpr_def fun_upd_def)

lemma set_gpr_cpu_sel [simp]:
  "gpr (set_gpr i v m) = (gpr m)(i := v)" "pmem (set_gpr i v m) = pmem m" "d_dnpc (set_gpr i v m) = d_dnpc m"
  "nemu_state (set_gpr i v m) = nemu_state m" "clint_base (set_gpr i v m) = clint_base m"
  by (simp_all add: set_gpr_def)

text \<open>The trap that ends the program.\<close>

lemma finish_trap:
  "nemu_state (finish (NEMUTRAP c pc v m)) = NEMU_END" "halt_pc (finish (NEMUTRAP c pc v m)) = pc"
  "halt_ret (finish (NEMUTRAP c pc v m)) = v"
  by (simp_all add: finish_def set_gpr_def NEMUTRAP_def set_nemu_state_def)

lemma reset_low: "n < MSIZE \<Longrightarrow> guest_to_host (RESET_VECTOR + of_nat n) = n" "n < MSIZE \<Longrightarrow> in_pmem (RESET_VECTOR + of_nat n)"
proof -
  assume n: "n < MSIZE"
  then have s: "unat (of_nat n :: u32) = n" by (simp add: MSIZE_eq unsigned_of_nat take_bit_nat_eq_self)
  show "guest_to_host (RESET_VECTOR + of_nat n) = n"
    using s by (simp add: guest_to_host_def config_defs)
  show "in_pmem (RESET_VECTOR + of_nat n)"
    using s n by (simp add: in_pmem_def config_defs word_less_nat_alt MSIZE_eq)
qed

text \<open>An instruction of the image is still there after a word outside it was written.\<close>

lemma code_in_image:
  assumes "view m = (g, p, RESET_VECTOR + of_nat (4 * i))" and "i < length ws" and "length ws \<le> 8"
    and "le_read p (4 * i) 4 = (le_read (put_words f 0 ws) (4 * i) 4 :: u32)"
  shows "code_at (ws ! i) m"
proof -
  have "4 * i < MSIZE" "4 * i + 4 \<le> MSIZE" using assms(2,3) by (simp_all add: MSIZE_eq)
  then show ?thesis
    using reset_low [of "4 * i"] assms put_words_read [OF assms(2), of f 0]
    by (simp add: code_at_def view_def)
qed

end
