(* ===== verification/Mips32.thy ===== *)
theory Mips32
  imports SmallCore
begin

text \<open>
  The MIPS32 core, \<^verbatim>\<open>src/isa/mips32/\<close>: four instructions and the trap that ends the program. It has no
  control registers, no interrupts and no comparison of registers.
\<close>

unbundle bit_operations_syntax

section \<open>inst.c\<close>

datatype mips_type = Mips_I | Mips_U | Mips_N

datatype mips_op = Mips_lui | Mips_lw | Mips_sw | Mips_sdbbp | Mips_inv

definition mips_immI :: "u32 \<Rightarrow> u32" where "mips_immI i = SEXT (BITS i 15 0) 16"
definition mips_immU :: "u32 \<Rightarrow> u32" where "mips_immU i = BITS i 15 0"

definition mips_decode_operand :: "u32 \<Rightarrow> mips_type \<Rightarrow> ('a) cpu_scheme \<Rightarrow> operands" where
  "mips_decode_operand i ty m =
     (let rt = unat (BITS i 20 16); rs = unat (BITS i 25 21);
          s = \<lparr>op_rd = (if ty = Mips_U \<or> ty = Mips_I then rt else unat (BITS i 15 11)), op_src1 = 0, op_src2 = 0, op_imm = 0\<rparr>
      in case ty of
        Mips_I \<Rightarrow> s\<lparr>op_src1 := gpr m rs, op_imm := mips_immI i\<rparr>
      | Mips_U \<Rightarrow> s\<lparr>op_src1 := gpr m rs, op_imm := mips_immU i\<rparr>
      | Mips_N \<Rightarrow> s)"

definition mips_table :: "(string \<times> mips_type \<times> mips_op) list" where
  "mips_table = [
    (''001111 ????? ????? ????? ????? ??????'', Mips_U, Mips_lui),
    (''100011 ????? ????? ????? ????? ??????'', Mips_I, Mips_lw),
    (''101011 ????? ????? ????? ????? ??????'', Mips_I, Mips_sw),
    (''011100 ????? ????? ????? ????? 111111'', Mips_N, Mips_sdbbp),
    (''?????? ????? ????? ????? ????? ??????'', Mips_N, Mips_inv)]"

fun mips_exec_op :: "config \<Rightarrow> host_env \<Rightarrow> mips_op \<Rightarrow> operands \<Rightarrow> ('a) cpu_scheme \<Rightarrow> ('a) cpu_scheme res" where
  "mips_exec_op c E Mips_lui x m = Inr (set_gpr (op_rd x) (push_bit 16 (op_imm x)) m)"
| "mips_exec_op c E Mips_lw x m =
     bindE (vaddr_read c E (op_src1 x + op_imm x) 4 m) (\<lambda>(v, m1). Inr (set_gpr (op_rd x) v m1))"
| "mips_exec_op c E Mips_sw x m = vaddr_write c E (op_src1 x + op_imm x) 4 (gpr m (op_rd x)) m"
| "mips_exec_op c E Mips_sdbbp x m = Inr (NEMUTRAP c (d_pc m) (gpr m 2) m)"
| "mips_exec_op c E Mips_inv x m = invalid_inst c E (d_pc m) m"

definition mips_decode_exec :: "config \<Rightarrow> host_env \<Rightarrow> ('a) cpu_scheme \<Rightarrow> ('a) cpu_scheme res" where
  "mips_decode_exec c E m =
     (let m0 = m\<lparr>d_dnpc := d_snpc m\<rparr> in
      bindE (instpat_select mips_table (d_inst m0)) (\<lambda>sel. case sel of
          None \<Rightarrow> Inr (set_gpr 0 0 m0)
        | Some (ty, op) \<Rightarrow>
            bindE (mips_exec_op c E op (mips_decode_operand (d_inst m0) ty m0) m0) (\<lambda>m1. Inr (set_gpr 0 0 m1))))"

definition mips_exec_once :: "config \<Rightarrow> host_env \<Rightarrow> ('a) cpu_scheme stepper" where
  "mips_exec_once c E m =
     bindE (inst_fetch c E (d_snpc m) 4 m) (\<lambda>(inst, snpc, m1). mips_decode_exec c E (m1\<lparr>d_inst := inst, d_snpc := snpc\<rparr>))"

section \<open>init.c, reg.c and the stubs\<close>

definition mips_img :: "u32 list" where "mips_img = [0x3c048000, 0xac800000, 0x8c820000, 0x7000003f]"

definition mips_restart :: "('a) cpu_scheme \<Rightarrow> ('a) cpu_scheme" where
  "mips_restart m = set_gpr 0 0 (m\<lparr>cpu_pc := RESET_VECTOR\<rparr>)"

definition mips_init_isa :: "('a) cpu_scheme \<Rightarrow> ('a) cpu_scheme" where
  "mips_init_isa m = mips_restart (m\<lparr>pmem := put_words (pmem m) (guest_to_host RESET_VECTOR) mips_img\<rparr>)"

definition mips_regs :: "string list" where
  "mips_regs = [''$0'', ''at'', ''v0'', ''v1'', ''a0'', ''a1'', ''a2'', ''a3'', ''t0'', ''t1'', ''t2'', ''t3'', ''t4'', ''t5'', ''t6'', ''t7'',
    ''s0'', ''s1'', ''s2'', ''s3'', ''s4'', ''s5'', ''s6'', ''s7'', ''t8'', ''t9'', ''k0'', ''k1'', ''gp'', ''sp'', ''s8'', ''ra'']"

definition mips_isa_reg_str2val :: "string \<Rightarrow> u32" where "mips_isa_reg_str2val s = 0"

definition mips_isa_difftest_checkregs :: "u32 \<Rightarrow> bool" where "mips_isa_difftest_checkregs pc = False"

definition mips_isa_raise_intr :: "u32 \<Rightarrow> u32 \<Rightarrow> u32" where "mips_isa_raise_intr NO epc = 0"

definition mips_isa_query_intr :: u32 where "mips_isa_query_intr = INTR_EMPTY"

definition mips_isa_mmu_translate :: "u32 \<Rightarrow> nat \<Rightarrow> nat \<Rightarrow> u32" where "mips_isa_mmu_translate vaddr len ty = MEM_RET_FAIL"

section \<open>The execution loop\<close>

lemma mips_exec_op_ok: "mips_exec_op c E op x m = Inr m' \<Longrightarrow> step_ok m m'"
  by (cases op) (auto simp: res_simps vaddr_defs step_ok_trap step_ok_counted
    dest: step_ok_invalid dest!: counted_read counted_write)

lemma mips_exec_once_ok: "mips_exec_once c E m = Inr m' \<Longrightarrow> step_ok m m'"
proof -
  assume *: "mips_exec_once c E m = Inr m'"
  then obtain i s m1 where f: "inst_fetch c E (d_snpc m) 4 m = Inr (i, s, m1)"
    and d: "mips_decode_exec c E (m1\<lparr>d_inst := i, d_snpc := s\<rparr>) = Inr m'" by (auto simp: mips_exec_once_def res_simps)
  define m2 where "m2 = m1\<lparr>d_inst := i, d_snpc := s, d_dnpc := d_snpc (m1\<lparr>d_inst := i, d_snpc := s\<rparr>)\<rparr>"
  have c2: "counted m2 = counted m" using counted_fetch [OF f] by (simp add: m2_def)
  have "bindE (instpat_select mips_table (d_inst m2)) (\<lambda>sel. case sel of None \<Rightarrow> Inr (set_gpr 0 0 m2)
      | Some (ty, op) \<Rightarrow> bindE (mips_exec_op c E op (mips_decode_operand (d_inst m2) ty m2) m2) (\<lambda>m1. Inr (set_gpr 0 0 m1))) = Inr m'"
    using d unfolding mips_decode_exec_def Let_def m2_def .
  from selected_ok [OF this mips_exec_op_ok] have "step_ok m2 m'" .
  then show "step_ok m m'" using step_ok_cong [OF c2 refl] by simp
qed

interpretation mips: exec_loop "mips_exec_once c E" no_check for c E
  by unfold_locales (auto simp: step_ok_def no_check_def dest!: mips_exec_once_ok)

section \<open>Steps\<close>

lemma mips_select:
  "instpat_select mips_table 0x3c048000 = Inr (Some (Mips_U, Mips_lui))"
  "instpat_select mips_table 0xac800000 = Inr (Some (Mips_I, Mips_sw))"
  "instpat_select mips_table 0x8c820000 = Inr (Some (Mips_I, Mips_lw))"
  "instpat_select mips_table 0x7000003f = Inr (Some (Mips_N, Mips_sdbbp))"
  by code_simp+

lemma mips_operand_cong: "gpr m' = gpr m \<Longrightarrow> mips_decode_operand i ty m' = mips_decode_operand i ty m"
  by (simp add: mips_decode_operand_def Let_def split: mips_type.split)

lemma mips_step:
  assumes "code_at i m" and "instpat_select mips_table i = Inr (Some (ty, op))"
  shows "exec_once (mips_exec_once c E) (cpu_pc m) m =
    bindE (mips_exec_op c E op (mips_decode_operand i ty m) (fetched_at i m)) (\<lambda>m1. Inr (finish m1))"
proof -
  have "mips_decode_operand i ty (fetched_at i m) = mips_decode_operand i ty m" by (rule mips_operand_cong) simp
  then show ?thesis
    using fetch_code [OF assms(1), of c E] assms(2)
    by (cases "mips_exec_op c E op (mips_decode_operand i ty m) (fetched_at i m)")
      (simp_all add: exec_once_def mips_exec_once_def mips_decode_exec_def set_gpr_def fetched_at_def finish_def)
qed

lemma mips_lui_step:
  assumes "code_at i m" and "instpat_select mips_table i = Inr (Some (Mips_U, Mips_lui))"
  shows "\<exists>m1. exec_once (mips_exec_once c E) (cpu_pc m) m = Inr m1 \<and>
    moves m ((gpr m)(unat (BITS i 20 16) := push_bit 16 (mips_immU i), 0 := 0), pmem m, cpu_pc m + 4) m1"
  using mips_step [OF assms, of c E]
  by (simp add: mips_decode_operand_def Let_def finish_moves)

lemma mips_lw_step:
  assumes "code_at i m" and "instpat_select mips_table i = Inr (Some (Mips_I, Mips_lw))"
    and "a = gpr m (unat (BITS i 25 21)) + mips_immI i" "in_pmem a" "guest_to_host a + 4 \<le> MSIZE"
  shows "\<exists>m1. exec_once (mips_exec_once c E) (cpu_pc m) m = Inr m1 \<and>
    moves m ((gpr m)(unat (BITS i 20 16) := le_read (pmem m) (guest_to_host a) 4, 0 := 0), pmem m, cpu_pc m + 4) m1"
  using mips_step [OF assms(1,2), of c E] paddr_read_ram [OF assms(4,5), of c E "fetched_at i m"]
  by (simp add: mips_decode_operand_def Let_def assms(3) [symmetric] vaddr_read_def finish_moves)

lemma mips_sw_step:
  assumes "code_at i m" and "instpat_select mips_table i = Inr (Some (Mips_I, Mips_sw))"
    and "a = gpr m (unat (BITS i 25 21)) + mips_immI i" "in_pmem a" "guest_to_host a + 4 \<le> MSIZE"
  shows "\<exists>m1. exec_once (mips_exec_once c E) (cpu_pc m) m = Inr m1 \<and>
    moves m ((gpr m)(0 := 0), le_write (pmem m) (guest_to_host a) 4 (gpr m (unat (BITS i 20 16))), cpu_pc m + 4) m1"
proof -
  let ?v = "gpr m (unat (BITS i 20 16))"
  have "exec_once (mips_exec_once c E) (cpu_pc m) m =
      Inr (finish ((fetched_at i m)\<lparr>pmem := le_write (pmem m) (guest_to_host a) 4 ?v\<rparr>))"
    using mips_step [OF assms(1,2), of c E] paddr_write_ram [OF assms(4,5), of c E ?v "fetched_at i m"]
    by (simp add: mips_decode_operand_def Let_def assms(3) [symmetric] vaddr_write_def)
  then show ?thesis by (simp add: finish_moves)
qed

lemma mips_sdbbp_step:
  assumes "code_at i m" and "instpat_select mips_table i = Inr (Some (Mips_N, Mips_sdbbp))"
  shows "traps_with (mips_exec_once c E) (cpu_pc m) (gpr m 2) m"
  using mips_step [OF assms, of c E] by (simp add: traps_with_def finish_trap)

section \<open>The built-in image\<close>

text \<open>The views the four instructions go through; the store overwrites the first instruction.\<close>

definition mips_views :: "(nat \<Rightarrow> u32) \<Rightarrow> bytes \<Rightarrow> view list" where
  "mips_views g p =
     (let g1 = g(4 := RESET_VECTOR, 0 := 0); p1 = le_write p 0 4 (0 :: u32) in
      [(g, p, RESET_VECTOR), (g1, p, RESET_VECTOR + 4), (g1, p1, RESET_VECTOR + 8),
       (g1(2 := 0, 0 := 0), p1, RESET_VECTOR + 12)])"

lemma mips_fields:
  "unat (BITS (0x3c048000 :: u32) 20 16) = 4" "push_bit 16 (mips_immU 0x3c048000) = RESET_VECTOR"
  "unat (BITS (0xac800000 :: u32) 25 21) = 4" "unat (BITS (0xac800000 :: u32) 20 16) = 0" "mips_immI 0xac800000 = 0"
  "unat (BITS (0x8c820000 :: u32) 25 21) = 4" "unat (BITS (0x8c820000 :: u32) 20 16) = 2" "mips_immI 0x8c820000 = 0"
  by code_simp+

lemma mips_views_code:
  assumes "i < 4" and "view m = mips_views g (put_words f 0 mips_img) ! i"
  shows "code_at (mips_img ! i) m"
proof -
  have "i = 0 \<or> i = 1 \<or> i = 2 \<or> i = 3" using assms(1) by linarith
  then show ?thesis
    using assms(2) code_in_image [where ws = mips_img and f = f and m = m and i = i]
    by (auto simp: mips_views_def Let_def mips_img_def le_read_write_other)
qed

lemma mips_views_step:
  assumes "j < 3" and v: "view m = mips_views g (put_words f 0 mips_img) ! j"
  shows "\<exists>m1. exec_once (mips_exec_once c E) (cpu_pc m) m = Inr m1 \<and> moves m (mips_views g (put_words f 0 mips_img) ! Suc j) m1"
proof -
  note code = mips_views_code [OF _ v]
  have ram: "in_pmem RESET_VECTOR" "guest_to_host RESET_VECTOR = 0" "0 + 4 \<le> MSIZE"
    using reset_low [of 0] by (simp_all add: MSIZE_eq)
  consider "j = 0" | "j = 1" | "j = 2" using assms(1) by linarith
  then show ?thesis
  proof cases
    case 1
    with code mips_lui_step [OF _ mips_select(1), of m c E] v show ?thesis
      by (simp add: mips_views_def Let_def view_def mips_img_def mips_fields)
  next
    case 2
    with code mips_sw_step [OF _ mips_select(2), of m RESET_VECTOR c E] v ram show ?thesis
      by (simp add: mips_views_def Let_def view_def mips_img_def mips_fields add.commute)
  next
    case 3
    with code mips_lw_step [OF _ mips_select(3), of m RESET_VECTOR c E] v ram show ?thesis
      by (simp add: mips_views_def Let_def view_def mips_img_def mips_fields le_read_write_same add.commute numeral_3_eq_3 numeral_2_eq_2)
  qed
qed

lemma mips_builtin:
  assumes "nemu_state m \<noteq> NEMU_END" "nemu_state m \<noteq> NEMU_ABORT" "clint_fits m" "no_input E" "3 < unat n"
  shows "\<exists>m'. cpu_exec c E (mips_exec_once c E) no_check n (mips_init_isa m) = Inr m' \<and> nemu_state m' = NEMU_END \<and>
    halt_pc m' = RESET_VECTOR + 12 \<and> halt_ret m' = 0"
proof -
  let ?g = "(gpr m)(0 := 0)" and ?p = "put_words (pmem m) 0 mips_img"
  have start: "view (mips_init_isa m) = mips_views ?g ?p ! 0" "clint_fits (mips_init_isa m)"
    "nemu_state (mips_init_isa m) \<noteq> NEMU_END" "nemu_state (mips_init_isa m) \<noteq> NEMU_ABORT"
    using assms reset_low(1) [of 0]
    by (simp_all add: mips_init_isa_def mips_restart_def set_gpr_def clint_fits_def MSIZE_eq view_def mips_views_def Let_def)
  have trap: "traps_with (mips_exec_once c E) (RESET_VECTOR + 12) 0 m" if "view m = mips_views ?g ?p ! 3" for m :: "'a cpu_scheme"
    using mips_sdbbp_step [OF _ mips_select(4), of m c E] mips_views_code [OF _ that] that
    by (simp add: mips_views_def Let_def view_def mips_img_def)
  show ?thesis
    by (rule cpu_exec_program [where tr = "\<lambda>j. mips_views ?g ?p ! j" and k = 3, OF trap mips_views_step assms(4) start(1,2) assms(5) start(3,4)])
qed

end
