(* ===== verification/Loongarch32r.thy ===== *)
theory Loongarch32r
  imports SmallCore
begin

text \<open>
  The LoongArch32R core, \<^verbatim>\<open>src/isa/loongarch32r/\<close>: three instructions and the trap that ends the program.
\<close>

unbundle bit_operations_syntax

section \<open>inst.c\<close>

datatype la_type = La_2RI12 | La_1RI20 | La_N

datatype la_op = La_pcaddu12i | La_ld_w | La_st_w | La_break | La_inv

definition la_simm12 :: "u32 \<Rightarrow> u32" where "la_simm12 i = SEXT (BITS i 21 10) 12"
definition la_simm20 :: "u32 \<Rightarrow> u32" where "la_simm20 i = push_bit 12 (SEXT (BITS i 24 5) 20)"

definition la_decode_operand :: "u32 \<Rightarrow> la_type \<Rightarrow> ('a) cpu_scheme \<Rightarrow> operands" where
  "la_decode_operand i ty m =
     (let rj = unat (BITS i 9 5);
          s = \<lparr>op_rd = unat (BITS i 4 0), op_src1 = 0, op_src2 = 0, op_imm = 0\<rparr>
      in case ty of
        La_1RI20 \<Rightarrow> s\<lparr>op_src1 := gpr m rj, op_imm := la_simm20 i\<rparr>
      | La_2RI12 \<Rightarrow> s\<lparr>op_src1 := gpr m rj, op_imm := la_simm12 i\<rparr>
      | La_N \<Rightarrow> s)"

definition la_table :: "(string \<times> la_type \<times> la_op) list" where
  "la_table = [
    (''0001110 ????? ????? ????? ????? ?????'', La_1RI20, La_pcaddu12i),
    (''0010100010 ???????????? ????? ?????'', La_2RI12, La_ld_w),
    (''0010100110 ???????????? ????? ?????'', La_2RI12, La_st_w),
    (''0000 0000 0010 10100 ????? ????? ?????'', La_N, La_break),
    (''????????????????? ????? ????? ?????'', La_N, La_inv)]"

fun la_exec_op :: "config \<Rightarrow> host_env \<Rightarrow> la_op \<Rightarrow> operands \<Rightarrow> ('a) cpu_scheme \<Rightarrow> ('a) cpu_scheme res" where
  "la_exec_op c E La_pcaddu12i x m = Inr (set_gpr (op_rd x) (d_pc m + op_imm x) m)"
| "la_exec_op c E La_ld_w x m =
     bindE (vaddr_read c E (op_src1 x + op_imm x) 4 m) (\<lambda>(v, m1). Inr (set_gpr (op_rd x) v m1))"
| "la_exec_op c E La_st_w x m = vaddr_write c E (op_src1 x + op_imm x) 4 (gpr m (op_rd x)) m"
| "la_exec_op c E La_break x m = Inr (NEMUTRAP c (d_pc m) (gpr m 4) m)"
| "la_exec_op c E La_inv x m = invalid_inst c E (d_pc m) m"

definition la_decode_exec :: "config \<Rightarrow> host_env \<Rightarrow> ('a) cpu_scheme \<Rightarrow> ('a) cpu_scheme res" where
  "la_decode_exec c E m =
     (let m0 = m\<lparr>d_dnpc := d_snpc m\<rparr> in
      bindE (instpat_select la_table (d_inst m0)) (\<lambda>sel. case sel of
          None \<Rightarrow> Inr (set_gpr 0 0 m0)
        | Some (ty, op) \<Rightarrow>
            bindE (la_exec_op c E op (la_decode_operand (d_inst m0) ty m0) m0) (\<lambda>m1. Inr (set_gpr 0 0 m1))))"

definition la_exec_once :: "config \<Rightarrow> host_env \<Rightarrow> ('a) cpu_scheme stepper" where
  "la_exec_once c E m =
     bindE (inst_fetch c E (d_snpc m) 4 m) (\<lambda>(inst, snpc, m1). la_decode_exec c E (m1\<lparr>d_inst := inst, d_snpc := snpc\<rparr>))"

section \<open>init.c, reg.c and the stubs\<close>

definition la_img :: "u32 list" where "la_img = [0x1c00000c, 0x29804180, 0x28804184, 0x002a0000, 0xdeadbeef]"

definition la_restart :: "('a) cpu_scheme \<Rightarrow> ('a) cpu_scheme" where
  "la_restart m = set_gpr 0 0 (m\<lparr>cpu_pc := RESET_VECTOR\<rparr>)"

definition la_init_isa :: "('a) cpu_scheme \<Rightarrow> ('a) cpu_scheme" where
  "la_init_isa m = la_restart (m\<lparr>pmem := put_words (pmem m) (guest_to_host RESET_VECTOR) la_img\<rparr>)"

definition la_regs :: "string list" where
  "la_regs = [''$0'', ''ra'', ''tp'', ''sp'', ''a0'', ''a1'', ''a2'', ''a3'', ''a4'', ''a5'', ''a6'', ''a7'', ''t0'', ''t1'', ''t2'', ''t3'',
    ''t4'', ''t5'', ''t6'', ''t7'', ''t8'', ''rs'', ''fp'', ''s0'', ''s1'', ''s2'', ''s3'', ''s4'', ''s5'', ''s6'', ''s7'', ''s8'']"

definition la_isa_reg_str2val :: "string \<Rightarrow> u32" where "la_isa_reg_str2val s = 0"

definition la_isa_difftest_checkregs :: "u32 \<Rightarrow> bool" where "la_isa_difftest_checkregs pc = False"

definition la_isa_raise_intr :: "u32 \<Rightarrow> u32 \<Rightarrow> u32" where "la_isa_raise_intr NO epc = 0"

definition la_isa_query_intr :: u32 where "la_isa_query_intr = INTR_EMPTY"

definition la_isa_mmu_translate :: "u32 \<Rightarrow> nat \<Rightarrow> nat \<Rightarrow> u32" where "la_isa_mmu_translate vaddr len ty = MEM_RET_FAIL"

section \<open>The execution loop\<close>

lemma la_exec_op_ok: "la_exec_op c E op x m = Inr m' \<Longrightarrow> step_ok m m'"
  by (cases op) (auto simp: res_simps vaddr_defs step_ok_trap step_ok_counted
    dest: step_ok_invalid dest!: counted_read counted_write)

lemma la_exec_once_ok: "la_exec_once c E m = Inr m' \<Longrightarrow> step_ok m m'"
proof -
  assume *: "la_exec_once c E m = Inr m'"
  then obtain i s m1 where f: "inst_fetch c E (d_snpc m) 4 m = Inr (i, s, m1)"
    and d: "la_decode_exec c E (m1\<lparr>d_inst := i, d_snpc := s\<rparr>) = Inr m'" by (auto simp: la_exec_once_def res_simps)
  define m2 where "m2 = m1\<lparr>d_inst := i, d_snpc := s, d_dnpc := d_snpc (m1\<lparr>d_inst := i, d_snpc := s\<rparr>)\<rparr>"
  have c2: "counted m2 = counted m" using counted_fetch [OF f] by (simp add: m2_def)
  have "bindE (instpat_select la_table (d_inst m2)) (\<lambda>sel. case sel of None \<Rightarrow> Inr (set_gpr 0 0 m2)
      | Some (ty, op) \<Rightarrow> bindE (la_exec_op c E op (la_decode_operand (d_inst m2) ty m2) m2) (\<lambda>m1. Inr (set_gpr 0 0 m1))) = Inr m'"
    using d unfolding la_decode_exec_def Let_def m2_def .
  from selected_ok [OF this la_exec_op_ok] have "step_ok m2 m'" .
  then show "step_ok m m'" using step_ok_cong [OF c2 refl] by simp
qed

interpretation la: exec_loop "la_exec_once c E" no_check for c E
  by unfold_locales (auto simp: step_ok_def no_check_def dest!: la_exec_once_ok)

section \<open>Steps\<close>

lemma la_select:
  "instpat_select la_table 0x1c00000c = Inr (Some (La_1RI20, La_pcaddu12i))"
  "instpat_select la_table 0x29804180 = Inr (Some (La_2RI12, La_st_w))"
  "instpat_select la_table 0x28804184 = Inr (Some (La_2RI12, La_ld_w))"
  "instpat_select la_table 0x002a0000 = Inr (Some (La_N, La_break))"
  by code_simp+

lemma la_operand_cong: "gpr m' = gpr m \<Longrightarrow> la_decode_operand i ty m' = la_decode_operand i ty m"
  by (simp add: la_decode_operand_def Let_def split: la_type.split)

lemma la_step:
  assumes "code_at i m" and "instpat_select la_table i = Inr (Some (ty, op))"
  shows "exec_once (la_exec_once c E) (cpu_pc m) m =
    bindE (la_exec_op c E op (la_decode_operand i ty m) (fetched_at i m)) (\<lambda>m1. Inr (finish m1))"
proof -
  have "la_decode_operand i ty (fetched_at i m) = la_decode_operand i ty m" by (rule la_operand_cong) simp
  then show ?thesis
    using fetch_code [OF assms(1), of c E] assms(2)
    by (cases "la_exec_op c E op (la_decode_operand i ty m) (fetched_at i m)")
      (simp_all add: exec_once_def la_exec_once_def la_decode_exec_def set_gpr_def fetched_at_def finish_def)
qed

lemma la_pcaddu12i_step:
  assumes "code_at i m" and "instpat_select la_table i = Inr (Some (La_1RI20, La_pcaddu12i))"
  shows "\<exists>m1. exec_once (la_exec_once c E) (cpu_pc m) m = Inr m1 \<and>
    moves m ((gpr m)(unat (BITS i 4 0) := cpu_pc m + la_simm20 i, 0 := 0), pmem m, cpu_pc m + 4) m1"
  using la_step [OF assms, of c E]
  by (simp add: la_decode_operand_def Let_def finish_moves)

lemma la_ld_w_step:
  assumes "code_at i m" and "instpat_select la_table i = Inr (Some (La_2RI12, La_ld_w))"
    and "a = gpr m (unat (BITS i 9 5)) + la_simm12 i" "in_pmem a" "guest_to_host a + 4 \<le> MSIZE"
  shows "\<exists>m1. exec_once (la_exec_once c E) (cpu_pc m) m = Inr m1 \<and>
    moves m ((gpr m)(unat (BITS i 4 0) := le_read (pmem m) (guest_to_host a) 4, 0 := 0), pmem m, cpu_pc m + 4) m1"
  using la_step [OF assms(1,2), of c E] paddr_read_ram [OF assms(4,5), of c E "fetched_at i m"]
  by (simp add: la_decode_operand_def Let_def assms(3) [symmetric] vaddr_read_def finish_moves)

lemma la_st_w_step:
  assumes "code_at i m" and "instpat_select la_table i = Inr (Some (La_2RI12, La_st_w))"
    and "a = gpr m (unat (BITS i 9 5)) + la_simm12 i" "in_pmem a" "guest_to_host a + 4 \<le> MSIZE"
  shows "\<exists>m1. exec_once (la_exec_once c E) (cpu_pc m) m = Inr m1 \<and>
    moves m ((gpr m)(0 := 0), le_write (pmem m) (guest_to_host a) 4 (gpr m (unat (BITS i 4 0))), cpu_pc m + 4) m1"
proof -
  let ?v = "gpr m (unat (BITS i 4 0))"
  have "exec_once (la_exec_once c E) (cpu_pc m) m =
      Inr (finish ((fetched_at i m)\<lparr>pmem := le_write (pmem m) (guest_to_host a) 4 ?v\<rparr>))"
    using la_step [OF assms(1,2), of c E] paddr_write_ram [OF assms(4,5), of c E ?v "fetched_at i m"]
    by (simp add: la_decode_operand_def Let_def assms(3) [symmetric] vaddr_write_def)
  then show ?thesis by (simp add: finish_moves)
qed

lemma la_break_step:
  assumes "code_at i m" and "instpat_select la_table i = Inr (Some (La_N, La_break))"
  shows "traps_with (la_exec_once c E) (cpu_pc m) (gpr m 4) m"
  using la_step [OF assms, of c E] by (simp add: traps_with_def finish_trap)

section \<open>The built-in image\<close>

text \<open>The store clears the data word behind the four instructions, which the load then reads.\<close>

definition la_views :: "(nat \<Rightarrow> u32) \<Rightarrow> bytes \<Rightarrow> view list" where
  "la_views g p =
     (let g1 = g(12 := RESET_VECTOR, 0 := 0); p1 = le_write p 16 4 (0 :: u32) in
      [(g, p, RESET_VECTOR), (g1, p, RESET_VECTOR + 4), (g1, p1, RESET_VECTOR + 8),
       (g1(4 := 0, 0 := 0), p1, RESET_VECTOR + 12)])"

lemma la_fields:
  "unat (BITS (0x1c00000c :: u32) 4 0) = 12" "la_simm20 0x1c00000c = 0"
  "unat (BITS (0x29804180 :: u32) 9 5) = 12" "unat (BITS (0x29804180 :: u32) 4 0) = 0" "la_simm12 0x29804180 = 16"
  "unat (BITS (0x28804184 :: u32) 9 5) = 12" "unat (BITS (0x28804184 :: u32) 4 0) = 4" "la_simm12 0x28804184 = 16"
  by code_simp+

lemma la_views_code:
  assumes "i < 4" and "view m = la_views g (put_words f 0 la_img) ! i"
  shows "code_at (la_img ! i) m"
proof -
  have "i = 0 \<or> i = 1 \<or> i = 2 \<or> i = 3" using assms(1) by linarith
  then show ?thesis
    using assms(2) code_in_image [where ws = la_img and f = f and m = m and i = i]
    by (auto simp: la_views_def Let_def la_img_def le_read_write_other)
qed

lemma la_views_step:
  assumes "j < 3" and v: "view m = la_views g (put_words f 0 la_img) ! j"
  shows "\<exists>m1. exec_once (la_exec_once c E) (cpu_pc m) m = Inr m1 \<and> moves m (la_views g (put_words f 0 la_img) ! Suc j) m1"
proof -
  note code = la_views_code [OF _ v]
  have ram: "in_pmem (RESET_VECTOR + 16)" "guest_to_host (RESET_VECTOR + 16) = 16" "16 + 4 \<le> MSIZE"
    using reset_low [of 16] by (simp_all add: MSIZE_eq)
  consider "j = 0" | "j = 1" | "j = 2" using assms(1) by linarith
  then show ?thesis
  proof cases
    case 1
    with code la_pcaddu12i_step [OF _ la_select(1), of m c E] v show ?thesis
      by (simp add: la_views_def Let_def view_def la_img_def la_fields)
  next
    case 2
    with code la_st_w_step [OF _ la_select(2), of m "RESET_VECTOR + 16" c E] v ram show ?thesis
      by (simp add: la_views_def Let_def view_def la_img_def la_fields add.commute)
  next
    case 3
    with code la_ld_w_step [OF _ la_select(3), of m "RESET_VECTOR + 16" c E] v ram show ?thesis
      by (simp add: la_views_def Let_def view_def la_img_def la_fields le_read_write_same add.commute numeral_3_eq_3 numeral_2_eq_2)
  qed
qed

lemma la_builtin:
  assumes "nemu_state m \<noteq> NEMU_END" "nemu_state m \<noteq> NEMU_ABORT" "clint_fits m" "no_input E" "3 < unat n"
  shows "\<exists>m'. cpu_exec c E (la_exec_once c E) no_check n (la_init_isa m) = Inr m' \<and> nemu_state m' = NEMU_END \<and>
    halt_pc m' = RESET_VECTOR + 12 \<and> halt_ret m' = 0"
proof -
  let ?g = "(gpr m)(0 := 0)" and ?p = "put_words (pmem m) 0 la_img"
  have start: "view (la_init_isa m) = la_views ?g ?p ! 0" "clint_fits (la_init_isa m)"
    "nemu_state (la_init_isa m) \<noteq> NEMU_END" "nemu_state (la_init_isa m) \<noteq> NEMU_ABORT"
    using assms reset_low(1) [of 0]
    by (simp_all add: la_init_isa_def la_restart_def set_gpr_def clint_fits_def MSIZE_eq view_def la_views_def Let_def)
  have trap: "traps_with (la_exec_once c E) (RESET_VECTOR + 12) 0 m" if "view m = la_views ?g ?p ! 3" for m :: "'a cpu_scheme"
    using la_break_step [OF _ la_select(4), of m c E] la_views_code [OF _ that] that
    by (simp add: la_views_def Let_def view_def la_img_def)
  show ?thesis
    by (rule cpu_exec_program [where tr = "\<lambda>j. la_views ?g ?p ! j" and k = 3, OF trap la_views_step assms(4) start(1,2) assms(5) start(3,4)])
qed

end
