(* ===== verification/Session.thy ===== *)
theory Session
  imports Lockstep MiniProps ExecProps DifftestProps Machines
begin

text \<open>
  A session of the emulator with the mini-rv32ima reference attached: the execution loop with
  \<^verbatim>\<open>difftest_step\<close> after every instruction. On the instructions of \<open>plain\<close> the reference never
  disagrees, so the program is never aborted.
\<close>

unbundle bit_operations_syntax

section \<open>The reference\<close>

text \<open>The reference takes no interrupt (they are disabled, or the timer's is) and does not sleep.\<close>

definition calm :: "mini \<Rightarrow> bool" where
  "calm s \<longleftrightarrow> (CSR f_mstatus s AND 8 = 0 \<or> CSR f_mie s AND push_bit 7 1 = 0) \<and> CSR f_extraflags s AND 4 = 0"

definition ref_ready :: "('a) rv32_scheme \<Rightarrow> mini \<Rightarrow> bool" where
  "ref_ready m s \<longleftrightarrow> in_step m s \<and> calm s \<and> CSR f_pc s = cpu_pc m \<and> instct s < 0"

text \<open>A change of the state of the reference that is not seen by the guest.\<close>

definition unseen :: "mini \<Rightarrow> mini \<Rightarrow> bool" where
  "unseen s s' \<longleftrightarrow> ram_amt s' = ram_amt s \<and> instct s' = instct s \<and>
     (\<forall>a<guest_limit s. image s' a = image s a) \<and> (\<forall>r<32. CSR r s' = CSR r s)"

lemma unseen_refl: "unseen s s"
  by (simp add: unseen_def)

lemma unseen_trans: "unseen s s1 \<Longrightarrow> unseen s1 s2 \<Longrightarrow> unseen s s2"
  by (simp add: unseen_def guest_limit_def)

lemma unseen_limit: "unseen s s' \<Longrightarrow> guest_limit s' = guest_limit s"
  by (simp add: unseen_def guest_limit_def)

lemma unseen_in_step: "unseen s s' \<Longrightarrow> in_step m s \<Longrightarrow> in_step m s'"
  using unseen_limit [of s s'] by (simp add: unseen_def in_step_def same_regs_def)

lemma unseen_SETCSR: "32 \<le> f \<Longrightarrow> unseen s (SETCSR f v s)"
proof -
  assume f: "32 \<le> f"
  have "\<not> core_at s f \<le> a" if "a < guest_limit s" for a
    using that by (simp add: core_at_def guest_limit_def)
  then show ?thesis using f by (auto simp: unseen_def CSR_SETCSR) (simp_all add: SETCSR_def le_write_apply)
qed

lemma unseen_then: "unseen s s1 \<Longrightarrow> 32 \<le> f \<Longrightarrow> unseen s (SETCSR f v s1)"
  by (rule unseen_trans [OF _ unseen_SETCSR])

lemma unseen_if: "unseen s x \<Longrightarrow> unseen s y \<Longrightarrow> unseen s (if b then x else y)"
  by simp

lemma same_image:
  assumes "image s' = image s" and "ram_amt s' = ram_amt s"
  shows "CSR f s' = CSR f s" and "guest_limit s' = guest_limit s"
  using assms by (simp_all add: CSR_def core_at_def guest_limit_def)

lemma unseen_same_image: "image s' = image s \<Longrightarrow> ram_amt s' = ram_amt s \<Longrightarrow> instct s' = instct s \<Longrightarrow> unseen s s'"
  by (simp add: unseen_def same_image [of s' s])

text \<open>The timer of the reference.\<close>

lemma mini_timer_unseen: "unseen s (mini_timer us s)"
proof -
  define t where "t = CSR f_timerl s + us"
  define s1 where "s1 = (if t < CSR f_timerl s then SETCSR f_timerh (CSR f_timerh s + 1) s else s)"
  define s2 where "s2 = SETCSR f_timerl t s1"
  define due where "due \<longleftrightarrow> (CSR f_timerh s2 > CSR f_timermatchh s2 \<or>
             (CSR f_timerh s2 = CSR f_timermatchh s2 \<and> CSR f_timerl s2 > CSR f_timermatchl s2)) \<and>
            (CSR f_timermatchh s2 \<noteq> 0 \<or> CSR f_timermatchl s2 \<noteq> 0)"
  define s3 where "s3 = SETCSR f_extraflags (CSR f_extraflags s2 AND NOT 4) s2"
  have "mini_timer us s = (if due then SETCSR f_mip (CSR f_mip s3 OR push_bit 7 1) s3
      else SETCSR f_mip (CSR f_mip s2 AND NOT (push_bit 7 1)) s2)"
    unfolding mini_timer_def Let_def t_def [symmetric] s1_def [symmetric] s2_def [symmetric] due_def s3_def ..
  moreover have "unseen s s1" unfolding s1_def by (intro unseen_if unseen_then unseen_refl) (simp_all add: field_defs)
  then have "unseen s s2" unfolding s2_def by (rule unseen_then) (simp add: field_defs)
  moreover from this have "unseen s s3" unfolding s3_def by (rule unseen_then) (simp add: field_defs)
  ultimately show ?thesis by (auto intro!: unseen_then simp: field_defs)
qed

lemma and_not_zero: "a AND b = 0 \<Longrightarrow> (a AND NOT b) AND b = 0" for a b :: "'a::len word"
  by (simp add: and.assoc)

lemma mini_timer_core: "CSR f_pc (mini_timer us s) = CSR f_pc s" "calm s \<Longrightarrow> calm (mini_timer us s)"
proof -
  show "CSR f_pc (mini_timer us s) = CSR f_pc s"
    by (simp add: mini_timer_def Let_def CSR_SETCSR field_defs)
  have "CSR f_mstatus (mini_timer us s) = CSR f_mstatus s" "CSR f_mie (mini_timer us s) = CSR f_mie s"
    by (simp_all add: mini_timer_def Let_def CSR_SETCSR field_defs)
  moreover have "CSR f_extraflags (mini_timer us s) \<in> {CSR f_extraflags s, CSR f_extraflags s AND NOT 4}"
    by (simp add: mini_timer_def Let_def CSR_SETCSR field_defs)
  ultimately show "calm s \<Longrightarrow> calm (mini_timer us s)"
    using and_not_zero [of "CSR f_extraflags s" 4] unfolding calm_def by auto
qed

text \<open>One call of \<^verbatim>\<open>MiniRV32IMAStep\<close> for one instruction.\<close>

lemma step_follows:
  assumes p: "plain c (guest_limit s) m" and r: "ref_ready m s"
  shows "\<exists>m' s'. exec_once (isa_exec_once c E) (cpu_pc m) m = Inr m' \<and>
    MiniRV32IMAStep E' us 1 s = Inr (0, s') \<and> ref_ready m' s' \<and> guest_limit s' = guest_limit s"
proof -
  define s0 where "s0 = mini_timer us s"
  have u: "unseen s s0" unfolding s0_def by (rule mini_timer_unseen)
  have c0: "calm s0" and pc0: "CSR f_pc s0 = cpu_pc m" and i0: "in_step m s0" and n0: "instct s0 < 0"
    using r mini_timer_core(1) [of us s] mini_timer_core(2) [of s us] unseen_in_step [OF u] u by (auto simp: ref_ready_def s0_def unseen_def)
  obtain m' s1 where one: "one_step c E m s0 m' s1"
    using plain_in_step [OF p [folded unseen_limit [OF u]] i0] by blast
  have k: "core_kept s0 s1" "in_step m' s1" using one by (simp_all add: one_step_def)
  have "instct s1 = instct s0"
    using k(1) unfolding core_kept_def by (metis mini.select_convs(4) mini.surjective mini.update_convs(1))
  moreover have "CSR f_mstatus s1 = CSR f_mstatus s0" "CSR f_mie s1 = CSR f_mie s0" "CSR f_extraflags s1 = CSR f_extraflags s0"
    using k(1) by (simp_all add: core_kept_def field_defs)
  ultimately have s1: "calm s1" "instct s1 < 0" "guest_limit s1 = guest_limit s0"
    using c0 n0 core_kept_limit [OF k(1)] by (simp_all add: calm_def)
  define cyc where "cyc = CSR f_cyclel s0 + 1"
  have loop: "mini_loop E' 1 (CSR f_cyclel s0) (CSR f_pc s0) s0 =
      Inr (Go (cyc, \<lparr>l_pc = cpu_pc m', l_rval = 0, l_rdid = 0, l_trap = 0\<rparr>) s1)"
    using one mini_loop.simps(1) unfolding one_step_def One_nat_def pc0 cyc_def by simp
  define s2 where "s2 = (if CSR f_cyclel s1 > cyc then SETCSR f_cycleh (CSR f_cycleh s1 + 1) s1 else s1)"
  define s' where "s' = SETCSR f_pc (cpu_pc m') (SETCSR f_cyclel cyc s2)"
  have "MiniRV32IMAStep E' us 1 s = Inr (0, s')"
    using c0 unfolding MiniRV32IMAStep_def s0_def [symmetric] Let_def
    by (simp only: loop) (auto simp: calm_def s'_def s2_def)
  moreover have "unseen s1 s'"
    by (auto simp: s'_def s2_def field_defs intro!: unseen_trans [OF _ unseen_SETCSR] unseen_refl)
  moreover have "calm s'" using s1(1) by (simp add: calm_def s'_def s2_def CSR_SETCSR field_defs)
  moreover have "CSR f_pc s' = cpu_pc m'" by (simp add: s'_def CSR_SETCSR)
  ultimately show ?thesis
    using one k(2) s1 unseen_in_step [of s1 s' m'] unseen_limit [of s1 s'] unseen_limit [OF u]
    by (auto simp: one_step_def ref_ready_def unseen_def)
qed

text \<open>The run loop: \<^verbatim>\<open>si(1)\<close> makes one such call.\<close>

definition same_ref :: "mini \<Rightarrow> mini \<Rightarrow> bool" where
  "same_ref s s' \<longleftrightarrow> image s' = image s \<and> ram_amt s' = ram_amt s \<and> instct s' = instct s"

lemma same_ref_ready:
  assumes "same_ref s s'"
  shows "ref_ready m s' = ref_ready m s" and "guest_limit s' = guest_limit s"
proof -
  have i: "image s' = image s" and r: "ram_amt s' = ram_amt s" using assms by (simp_all add: same_ref_def)
  show "guest_limit s' = guest_limit s" by (rule same_image(2) [OF i r])
  then show "ref_ready m s' = ref_ready m s"
    using assms same_image(1) [OF i r] i by (simp add: ref_ready_def in_step_def same_regs_def calm_def same_ref_def)
qed

lemma si_round_follows:
  assumes p: "plain c (guest_limit s) m" and r: "ref_ready m s" and n: "instrs_per_flip s = 1"
  shows "\<exists>m' s'. exec_once (isa_exec_once c E) (cpu_pc m) m = Inr m' \<and> si_round E' file dtb s = Inr s' \<and>
    ref_ready m' s' \<and> guest_limit s' = guest_limit s"
proof -
  define x where "x = (if fixed_update s then (ccount s div time_divisor s, s)
      else (case GetTimeMicroseconds E' s of (t, s1) \<Rightarrow> (t div time_divisor s, s1)))"
  define us where "us = (ucast (fst x - last_time (snd x)) :: u32)"
  define s2 where "s2 = (snd x)\<lparr>last_time := last_time (snd x) + ucast us\<rparr>"
  have s2: "same_ref s s2" and n2: "instrs_per_flip s2 = 1"
    using n by (simp_all add: s2_def x_def GetTimeMicroseconds_def mi_host_def prod.case_eq_if same_ref_def)
  obtain m' s' where "exec_once (isa_exec_once c E) (cpu_pc m) m = Inr m'"
    "MiniRV32IMAStep E' us 1 s2 = Inr (0, s')" "ref_ready m' s'" "guest_limit s' = guest_limit s"
    using step_follows [of c s2 m E E' us] p r same_ref_ready [OF s2] by auto
  moreover have "si_round E' file dtb s = bindE (MiniRV32IMAStep E' us (unat (instrs_per_flip s2)) s2) (\<lambda>(code, s3).
      if code = 0 then Inr s3
      else if code = 1 then Inr (set_ccount (ccount s3 + instrs_per_flip s3) s3)
      else if code = 3 then Inr (s3\<lparr>instct := 0\<rparr>)
      else if code = 0x7777 then bindE (init_vm file dtb s3) (\<lambda>_. Inl (Exit 0))
      else if code = 0x5555 then Inl (Exit 0)
      else Inr (mi_emit (OutLine ''Unknown failure'' [] []) s3))"
    unfolding si_round_def x_def [symmetric] by (cases x) (simp add: Let_def us_def s2_def)
  ultimately show ?thesis using n2 by auto
qed

lemma si_follows:
  assumes p: "plain c (guest_limit s) m" and r: "ref_ready m s"
  shows "\<exists>m' s'. exec_once (isa_exec_once c E) (cpu_pc m) m = Inr m' \<and> si E' file dtb 1 s = Inr (Some s') \<and>
    ref_ready m' s' \<and> guest_limit s' = guest_limit s"
proof -
  have "\<exists>s1. si E' file dtb 1 s = si_loop E' file dtb 2 0 1 s1 \<and> same_ref s s1 \<and> instrs_per_flip s1 = 1"
    unfolding si_def Let_def prod.case_eq_if
    by (intro exI conjI, rule refl) (simp_all add: same_ref_def GetTimeMicroseconds_def mi_host_def prod.case_eq_if)
  then obtain s1 where e: "si E' file dtb 1 s = si_loop E' file dtb 2 0 1 s1" and s1: "same_ref s s1" "instrs_per_flip s1 = 1"
    by blast
  obtain m' s' where o: "exec_once (isa_exec_once c E) (cpu_pc m) m = Inr m'" "si_round E' file dtb s1 = Inr s'"
    "ref_ready m' s'" "guest_limit s' = guest_limit s"
    using si_round_follows [of c s1 m E E' "file" dtb]
      p r same_ref_ready [OF s1(1)] s1(2) by auto
  have "instct s1 < 0" using r s1(1) by (simp add: ref_ready_def same_ref_def)
  moreover have "instrs_per_flip s' = 1" using si_round_opts [OF o(2)] s1(2) by (simp add: run_opts_def)
  ultimately have "si_loop E' file dtb 2 0 1 s1 = Inr (Some s')"
    using o(2) by (simp add: numeral_2_eq_2 si_continues_def)
  then show ?thesis using o e by auto
qed

section \<open>The emulator\<close>

text \<open>The step of the emulator keeps the run control.\<close>


lemma exec_plain_control:
  assumes o: "plain_op c limit i op m" and d: "instpat_select (instpat_table c) i = Inr (Some (ty, op))"
    and x: "gpr mx = gpr m" "d_pc mx = cpu_pc m" and e: "exec_op c E op (decode_operand i ty mx) mx = Inr m'"
  shows "control m' = control mx \<and> is_skip_ref m' = is_skip_ref mx \<and> have_exc m' = have_exc mx"
proof (cases op)
  case (Alu a)
  then show ?thesis using e by (auto simp: set_gpr_def)
next
  case Slli
  then have "ty = TYPE_I" using memory_decoded(3) [OF d] by simp
  then show ?thesis
    using e o Slli by (auto simp: exec_slli_def set_gpr_def plain_op_def decode_operand_def Let_def)
next
  case Jal
  then have "ty = TYPE_J" using control_decoded(2) [OF d] by simp
  then show ?thesis
    using e o Jal x by (auto simp: exec_jal_def set_gpr_def plain_op_def decode_operand_def Let_def)
next
  case Jalr
  then have "ty = TYPE_I" using control_decoded(3) [OF d] by simp
  then show ?thesis
    using e o Jalr x by (auto simp: exec_jalr_def set_gpr_def plain_op_def decode_operand_def Let_def)
next
  case (Branch b)
  then have "ty = TYPE_B" using control_decoded(1) [OF d] by simp
  moreover have "(cpu_pc m + SEXT (immB i) 13) mod 4 = 0" using o Branch by (simp add: plain_op_def)
  ultimately have "m' = mx \<or> m' = mx\<lparr>d_dnpc := cpu_pc m + SEXT (immB i) 13\<rparr>"
    using e Branch x by (simp add: exec_branch_def dnpc_and_check_def decode_operand_def Let_def split: if_splits)
  then show ?thesis by auto
next
  case (Load ld)
  have "ty = TYPE_I" using memory_decoded(1) [OF d Load] ..
  then have "Mr c E (op_src1 (decode_operand i ty mx) + op_imm (decode_operand i ty mx)) (load_len ld) mx =
     Inr (le_read (pmem mx) (guest_to_host (op_src1 (decode_operand i ty mx) + op_imm (decode_operand i ty mx))) (load_len ld), mx)"
    by (intro Mr_ram) (use o Load x in \<open>simp_all add: plain_op_def reaches_def ram_access_def Let_def\<close>)
  then show ?thesis using e Load by (auto simp: exec_load_def set_gpr_def)
next
  case (Store st)
  have "ty = TYPE_S" using memory_decoded(2) [OF d Store] ..
  then have "exec_store c E st (decode_operand i ty mx) mx =
      Mw c E (gpr m (unat (BITS i 19 15)) + immS i) (store_len st) (gpr m (unat (BITS i 24 20))) mx"
    using x by (simp add: exec_store_def decode_operand_def Let_def)
  also have "\<dots> = Inr (mx\<lparr>pmem := le_write (pmem mx) (guest_to_host (gpr m (unat (BITS i 19 15)) + immS i))
      (store_len st) (gpr m (unat (BITS i 24 20)))\<rparr>)"
    by (rule Mw_ram) (use o Store in \<open>simp_all add: plain_op_def reaches_def ram_access_def Let_def\<close>)
  finally show ?thesis using e Store by auto
next
  case Fence
  then show ?thesis using e by simp
qed (use o in \<open>auto simp: plain_op_def\<close>)

lemma control_after_timer:
  assumes "cfg_difftest c = DIFFTEST_REF_MINIRV32I"
  shows "control (decode_state c m) = control m" and "\<not> is_skip_ref (decode_state c m)"
proof -
  have skip: "difftest_skip_ref c m' = m'\<lparr>is_skip_ref := False\<rparr>" for m' :: "('b) nemu_scheme"
    using assms by (simp add: difftest_skip_ref_def)
  show "control (decode_state c m) = control m" "\<not> is_skip_ref (decode_state c m)"
    by (simp_all add: decode_state_def after_timer_def skip csr_set_field_def csr_mod_def csr_put_def)
qed

lemma exec_once_control:
  assumes p: "plain c limit m" and mini: "cfg_difftest c = DIFFTEST_REF_MINIRV32I"
    and e: "exec_once (isa_exec_once c E) (cpu_pc m) m = Inr m'"
  shows "control m' = control m" and "\<not> is_skip_ref m'" and "mmio_maps m' = mmio_maps m"
proof -
  define i where "i = fetched (at_pc m)"
  define mx where "mx = decode_state c (at_pc m)"
  obtain ty op where d: "instpat_select (instpat_table c) i = Inr (Some (ty, op))" and o: "plain_op c limit i op m"
    using p by (auto simp: plain_def i_def Let_def split: sum.splits option.splits)
  have r: "ready c (at_pc m)" using p by (simp add: plain_def)
  obtain m1 where m1: "exec_op c E op (decode_operand i ty mx) mx = Inr m1"
    and m': "m' = (decode_finish c m1)\<lparr>cpu_pc := d_dnpc (decode_finish c m1)\<rparr>"
    using e isa_exec_once_ready [OF r d [unfolded i_def], of E]
    by (auto simp: exec_once_def at_pc_def [symmetric] res_simps mx_def i_def)
  have k: "control m1 = control mx \<and> is_skip_ref m1 = is_skip_ref mx \<and> have_exc m1 = have_exc mx"
    by (rule exec_plain_control [OF o d _ _ m1]) (simp_all add: mx_def)
  have "have_exc m1 = RISCV_EXCP_NONE" using k r by (simp add: mx_def ready_def)
  then have f: "decode_finish c m1 = csr_mod c CSR_MISA (\<lambda>v. v AND NOT 0x4) (set_gpr 0 0 m1)"
    by (rule decode_finish_plain)
  show "control m' = control m"
    using k control_after_timer(1) [OF mini, of "at_pc m"] by (simp add: m' f mx_def at_pc_def)
  show "\<not> is_skip_ref m'"
    using k control_after_timer(2) [OF mini, of "at_pc m"] by (simp add: m' f mx_def csr_mod_def csr_put_def set_gpr_def)
  have "mmio_maps m1 = mmio_maps m" using exec_op_maps [OF m1] by (simp add: mx_def at_pc_def)
  then show "mmio_maps m' = mmio_maps m" by (simp add: m' f)
qed

text \<open>The check after the instruction.\<close>

lemma clint_write8:
  assumes "bus_ok c m" and "off + 8 \<le> 0x10000"
  shows "paddr_write c E (CONFIG_CLINT_MMIO + of_nat off) 8 v m =
    Inr ((difftest_skip_ref c m)\<lparr>io_space := le_write (io_space m) (clint_at c + off) 4 v\<rparr>)"
proof -
  have off: "off < 0x10000" using assms(2) by simp
  have fits: "clint_at c + off + 4 \<le> IO_SPACE_MAX"
    using clint_at_fits assms by (fastforce simp: bus_ok_def)
  have "mmio_write c (dev_dispatch E) (CONFIG_CLINT_MMIO + of_nat off) 8 v m =
      Inr ((difftest_skip_ref c m)\<lparr>io_space := le_write (io_space m) (clint_at c + off) 4 v\<rparr>)"
    using mmio_write_mapped [OF bus_ok_wf [OF assms(1)] _ clint_offset(4) [OF off], of "clint_at c" 8 c "dev_dispatch E" v]
      clint_entry [of c] assms(1) clint_offset(2) [OF off] fits
    by (simp add: bus_ok_def entry_def invoke_callback_def clint_io_handler_def host_write_def)
  then show ?thesis using clint_offset(3) [OF off] by (simp add: paddr_write_def)
qed

lemma check_list_none: "(\<And>name dut ref. (name, dut, ref) \<in> set rs \<Longrightarrow> \<not> d ref dut) \<Longrightarrow> check_list d rs pc m = (0, pc, m)"
proof (induction rs)
  case (Cons r rs)
  obtain name dut ref where r: "r = (name, dut, ref)" by (rule prod_cases3)
  have "\<not> d ref dut" using Cons.prems [of name dut ref] r by simp
  moreover have "check_list d rs pc m = (0, pc, m)" by (rule Cons.IH) (use Cons.prems in auto)
  ultimately show ?case by (simp add: r)
qed simp

lemma checkregs_agree:
  assumes "cfg_difftest c \<noteq> DIFFTEST_REF_SPIKE" and "st_pc ref = cpu_pc m" and "\<And>i. i < 32 \<Longrightarrow> st_gpr ref i = gpr m i"
  shows "checkregs c M R ref pc m = Inr m"
proof -
  have "check_list gpr_differs (gpr_pairs ref m) pc m = (0, pc, m)"
    by (rule check_list_none) (use assms(3) in \<open>auto simp: gpr_pairs_def gpr_differs_same\<close>)
  then show ?thesis using assms(1,2) by (simp add: checkregs_def isa_difftest_checkregs_def)
qed

section \<open>The session\<close>

text \<open>
  The emulator is running, no instruction is to be skipped, the CLINT is at its place and the reference has
  the same registers, memory and program counter.
\<close>

definition in_session :: "config \<Rightarrow> (mini_ref, 'a) monitor_scheme \<Rightarrow> bool" where
  "in_session c m \<longleftrightarrow> nemu_state m = NEMU_RUNNING \<and> \<not> skip_dut_one_inst m \<and> skip_dut_nr_inst m = 0 \<and>
     \<not> is_skip_ref m \<and> clint_base m = clint_at c \<and> ref_ready m (mini_vm (ref_state m))"

definition session_limit :: "(mini_ref, 'a) monitor_scheme \<Rightarrow> nat" where
  "session_limit m = guest_limit (mini_vm (ref_state m))"

lemma ref_ready_cong:
  "gpr m' = gpr m \<Longrightarrow> pmem m' = pmem m \<Longrightarrow> cpu_pc m' = cpu_pc m \<Longrightarrow> ref_ready m' s = ref_ready m s"
  by (simp add: ref_ready_def in_step_def)

lemma execute_one_session:
  assumes p: "plain c (session_limit m) m" and s: "in_session c m" and mini: "cfg_difftest c = DIFFTEST_REF_MINIRV32I"
  shows "\<exists>m'. execute_one (rv_step c E) (difftest_step c E M (mini_ops c E' file dtb nm)) m = Inr m' \<and>
    in_session c m' \<and> session_limit m' = session_limit m \<and> bus_ok c m'"
proof -
  have bus: "bus_ok c m" using p by (simp add: plain_def ready_def at_pc_def bus_ok_def)
  have r: "ref_ready m (mini_vm (ref_state m))" using s by (simp add: in_session_def)
  obtain m1 v where m1: "exec_once (isa_exec_once c E) (cpu_pc m) m = Inr m1"
    and v: "si E' file dtb 1 (mini_vm (ref_state m)) = Inr (Some v)" "ref_ready m1 v"
      "guest_limit v = guest_limit (mini_vm (ref_state m))"
    using si_follows [OF p [unfolded session_limit_def] r, of E E' "file" dtb] by blast
  note k = exec_once_control [OF p mini m1]
  define m2 where "m2 = m1\<lparr>g_nr_guest_inst := g_nr_guest_inst m1 + 1\<rparr>"
  have m2: "ref_state m2 = ref_state m" "nemu_state m2 = NEMU_RUNNING" "\<not> skip_dut_one_inst m2"
    "skip_dut_nr_inst m2 = 0" "\<not> is_skip_ref m2" "clint_base m2 = clint_at c" "bus_ok c m2"
    using k s bus by (auto simp: m2_def control_def in_session_def bus_ok_def) (cases m; cases m1; simp)
  define m3 where "m3 = m2\<lparr>ref_state := (ref_state m)\<lparr>mini_vm := v\<rparr>\<rparr>"
  have x: "exec_ref (mini_ops c E' file dtb nm) 1 m2 = Inr m3"
    using v(1) m2(1) by (simp add: mini_ops_def mini_difftest_exec_def m3_def)
  obtain sp where sp: "sync_timer c E (mini_ops c E' file dtb nm) m3 = Inr (m3\<lparr>is_skip_ref := False, io_space := sp\<rparr>)"
    using clint_write8 [of c m3 MTIMELO E] m2(7) mini
    by (auto simp: sync_timer_def ref_is_mini_def MTIMELO_def difftest_skip_ref_def bus_ok_def m3_def)
  define m4 where "m4 = m3\<lparr>is_skip_ref := False, io_space := sp\<rparr>"
  have m4: "gpr m4 = gpr m1" "pmem m4 = pmem m1" "cpu_pc m4 = cpu_pc m1" "mini_vm (ref_state m4) = v"
    by (simp_all add: m4_def m3_def m2_def)
  define ref where "ref = ref_regs_to_dut (mini_ops c E' file dtb nm) (ref_state m4) (menv_ref_r M)"
  have ref: "st_pc ref = cpu_pc m4" "i < 32 \<Longrightarrow> st_gpr ref i = gpr m4 i" for i
    using v(2) by (simp_all add: ref_def mini_ops_def t_get_regs_def m4 ref_ready_def in_step_def same_regs_def Let_def)
  have "checkregs c M (mini_ops c E' file dtb nm) ref pc m4 = Inr m4" for pc
    by (rule checkregs_agree) (use mini ref in simp_all)
  then have "difftest_step c E M (mini_ops c E' file dtb nm) pc npc m2 = Inr m4" for pc npc
    using mini m2 x sp by (simp add: difftest_step_def m4_def [symmetric] ref_def [symmetric])
  then have "execute_one (rv_step c E) (difftest_step c E M (mini_ops c E' file dtb nm)) m = Inr m4"
    by (simp add: execute_one_def rv_step_def m1 m2_def Let_def)
  moreover have "in_session c m4"
    using m2 v(2) ref_ready_cong [OF m4(1-3)] by (simp add: in_session_def m4(4)) (simp add: m4_def m3_def)
  moreover have "session_limit m4 = session_limit m" using v(3) by (simp add: session_limit_def m4(4))
  moreover have "bus_ok c m4" using m2(7) by (simp add: bus_ok_def m4_def m3_def)
  ultimately show ?thesis by blast
qed

text \<open>Between two instructions the devices run; without window events they only move the clock.\<close>

text \<open>What the session needs of the machine.\<close>

definition vitals :: "(mini_ref, 'a) monitor_scheme \<Rightarrow>
    nemu_run \<times> bool \<times> int \<times> bool \<times> nat \<times> io_map list \<times> (nat \<Rightarrow> u32) \<times> bytes \<times> u32 \<times> mini_ref" where
  "vitals m = (nemu_state m, skip_dut_one_inst m, skip_dut_nr_inst m, is_skip_ref m, clint_base m, mmio_maps m,
     gpr m, pmem m, cpu_pc m, ref_state m)"

lemma vitals_session:
  assumes "vitals m' = vitals m"
  shows "in_session c m' = in_session c m" and "session_limit m' = session_limit m" and "bus_ok c m' = bus_ok c m"
  using assms ref_ready_cong [of m' m]
  by (simp_all add: vitals_def in_session_def session_limit_def bus_ok_def)

lemma vitals_upd [simp]:
  "vitals (m\<lparr>host_calls := x1\<rparr>) = vitals m" "vitals (m\<lparr>boot_time := x2\<rparr>) = vitals m"
  "vitals (m\<lparr>dev_last := x3\<rparr>) = vitals m" "vitals (m\<lparr>frame_count := x4\<rparr>) = vitals m"
  "vitals (m\<lparr>console := x5\<rparr>) = vitals m" "vitals (m\<lparr>io_space := x6\<rparr>) = vitals m"
  by (simp_all add: vitals_def)

lemma get_time_internal_vitals: "vitals (snd (get_time_internal E m)) = vitals m"
  by (simp add: get_time_internal_def host_call_def prod.case_eq_if)

lemma get_time_vitals: "vitals (snd (get_time E m)) = vitals m"
  by (simp add: get_time_def Let_def prod.case_eq_if get_time_internal_vitals)

lemma vga_update_vitals [simp]: "vitals (vga_update_screen m) = vitals m"
  by (simp add: vga_update_screen_def update_screen_def emit_def Let_def)

lemma device_update_quiet:
  fixes m :: "(mini_ref, 'a) monitor_scheme"
  assumes "bus_ok c m" and "clint_base m = clint_at c" and "cfg_difftest c = DIFFTEST_REF_MINIRV32I"
    and "no_input E"
  shows "\<exists>m'. device_update c E m = Inr m' \<and> vitals m' = vitals m"
proof -
  obtain now m1 where t: "get_time E m = (now, m1)" by fastforce
  have v1: "vitals m1 = vitals m" using get_time_vitals [of E m] t by simp
  define m2 where "m2 = vga_update_screen (m1\<lparr>dev_last := now\<rparr>)"
  have v2: "vitals m2 = vitals m" using v1 by (simp add: m2_def)
  obtain us m3 where t3: "get_time E m2 = (us, m3)" by fastforce
  have v3: "vitals m3 = vitals m" using get_time_vitals [of E m2] t3 v2 by simp
  then have base: "clint_base m3 = clint_at c" using assms(2) by (simp add: vitals_def)
  have "clint_at c + MTIMELO + 8 \<le> IO_SPACE_MAX"
    using clint_at_fits [of c] assms(1) by (fastforce simp: bus_ok_def MTIMELO_def)
  then have "clint_update c E m2 = Inr (m3\<lparr>io_space := le_write (io_space m3) (clint_at c + MTIMELO) 8 us\<rparr>)"
    using assms(3) t3 base by (simp add: clint_update_def dev_poke_def in_object_def)
  moreover obtain evs m4 where
    "host_call (env_events E) (m3\<lparr>io_space := le_write (io_space m3) (clint_at c + MTIMELO) 8 us\<rparr>) = (evs, m4)" by fastforce
  moreover note no_input_events [OF assms(4) this]
  ultimately show ?thesis
    using t v1 v3 by (simp add: device_update_def m2_def [symmetric])
qed

text \<open>A run of the loop: as long as the program stays plain, it is not aborted.\<close>

lemma execute_session:
  assumes mini: "cfg_difftest c = DIFFTEST_REF_MINIRV32I" and quiet: "no_input E"
  shows "in_session c m \<Longrightarrow> bus_ok c m \<Longrightarrow>
    (\<And>k m1. k < n \<Longrightarrow> execute c E (rv_step c E) (difftest_step c E M (mini_ops c E' file dtb nm)) k m = Inr m1 \<Longrightarrow>
       plain c (session_limit m) m1) \<Longrightarrow>
    \<exists>m'. execute c E (rv_step c E) (difftest_step c E M (mini_ops c E' file dtb nm)) n m = Inr m' \<and>
      in_session c m' \<and> bus_ok c m' \<and> session_limit m' = session_limit m"
proof (induction n arbitrary: m)
  case 0
  then show ?case by simp
next
  case (Suc n)
  let ?ex = "execute c E (rv_step c E) (difftest_step c E M (mini_ops c E' file dtb nm))"
  have "plain c (session_limit m) m" using Suc.prems(3) [of 0 m] by simp
  from execute_one_session [OF this Suc.prems(1) mini] obtain m1 where
    m1: "execute_one (rv_step c E) (difftest_step c E M (mini_ops c E' file dtb nm)) m = Inr m1"
    "in_session c m1" "session_limit m1 = session_limit m" "bus_ok c m1" by blast
  then obtain m2 where m2: "device_update c E m1 = Inr m2" "vitals m2 = vitals m1"
    using device_update_quiet [of c m1 E] mini quiet by (auto simp: in_session_def)
  note v = vitals_session(1) [OF m2(2), of c] vitals_session(2) [OF m2(2)] vitals_session(3) [OF m2(2), of c]
  have step: "?ex (Suc k) m = ?ex k m2" for k
    using m1(1,2) m2(1) by (simp add: in_session_def)
  have "plain c (session_limit m2) m3" if "k < n" "?ex k m2 = Inr m3" for k m3
    using Suc.prems(3) [of "Suc k" m3] that step [of k] v m1(3) by simp
  from Suc.IH [OF _ _ this] v m1 show ?case unfolding step by auto
qed

section \<open>A concrete session\<close>

definition session_config :: config where
  "session_config = default_config\<lparr>cfg_difftest := DIFFTEST_REF_MINIRV32I\<rparr>"

definition demo_ref :: "u32 \<Rightarrow> mini" where
  "demo_ref i = SETCSR f_pc RESET_VECTOR (mini_zero\<lparr>image := le_write (\<lambda>_. 0) 0 4 i\<rparr>)"

definition session_demo :: "u32 \<Rightarrow> mini_ref monitor" where
  "session_demo i = rv32.extend ((demo i)\<lparr>nemu_state := NEMU_RUNNING, clint_base := clint_at session_config\<rparr>)
     (monitor.fields \<lparr>mini_vm = demo_ref i, mem_calls = 0\<rparr> False None None None None None None 0 [] None None)"

lemma session_demo_sel [simp]:
  "mmio_maps (session_demo i) = default_maps default_config" "pmem (session_demo i) = le_write (\<lambda>_. 0) 0 4 i"
  "cpu_pc (session_demo i) = RESET_VECTOR" "csrs (session_demo i) = (\<lambda>_. 0)" "gpr (session_demo i) = (\<lambda>_. 0)"
  "have_exc (session_demo i) = RISCV_EXCP_NONE" "nemu_state (session_demo i) = NEMU_RUNNING"
  "skip_dut_one_inst (session_demo i) = False" "skip_dut_nr_inst (session_demo i) = 0" "is_skip_ref (session_demo i) = False"
  "clint_base (session_demo i) = clint_at session_config" "mini_vm (ref_state (session_demo i)) = demo_ref i"
  by (simp_all add: session_demo_def rv32.extend_def monitor.fields_def demo_def rv32_zero_def nemu_init_def)

lemma session_maps: "default_maps session_config = default_maps default_config"
  by (simp add: session_config_def default_maps_def fb_len_def screen_size_def SCREEN_W_def SCREEN_H_def
    screen_width_def screen_height_def default_config_def)

lemma session_demo_bus: "bus_ok session_config (session_demo i)"
  using session_maps by (simp add: bus_ok_def) (simp add: session_config_def default_config_def)

lemma demo_ref_limit: "guest_limit (demo_ref i) = 64 * 1024 * 1024 - 192"
  by (simp add: demo_ref_def guest_limit_def mini_zero_def SIZEOF_STATE_def)

lemma demo_ref_CSR: "CSR f (demo_ref i) = (if f = f_pc then RESET_VECTOR else 0)"
proof -
  define s where "s = mini_zero\<lparr>image := le_write (\<lambda>_. 0) 0 4 i\<rparr>"
  have "4 \<le> core_at s f" by (simp add: s_def core_at_def mini_zero_def SIZEOF_STATE_def)
  then have "le_read (image s) (core_at s f) 4 = (le_read (\<lambda>_. 0) (core_at s f) 4 :: u32)"
    by (simp add: s_def le_read_write_other)
  also have "\<dots> = 0" by (simp add: eval_nat_numeral)
  finally have "CSR f s = 0" by (simp add: CSR_def)
  then show ?thesis by (simp add: demo_ref_def s_def [symmetric] CSR_SETCSR)
qed

lemma session_demo_starts: "in_session session_config (session_demo i)"
proof -
  have "image (demo_ref i) a = le_write (\<lambda>_. 0) 0 4 i a" if "a < guest_limit (demo_ref i)" for a
  proof -
    have "\<not> core_at (mini_zero\<lparr>image := le_write (\<lambda>_. 0) 0 4 i\<rparr>) f_pc \<le> a"
      using that by (simp add: demo_ref_limit core_at_def mini_zero_def SIZEOF_STATE_def)
    then show ?thesis by (simp add: demo_ref_def SETCSR_def le_write_apply [of _ "core_at _ _"])
  qed
  then have "in_step (session_demo i) (demo_ref i)"
    by (auto simp: in_step_def same_regs_def demo_ref_CSR field_defs)
  moreover have "instct (demo_ref i) < 0" by (simp add: demo_ref_def mini_zero_def SETCSR_def)
  ultimately show ?thesis
    by (simp add: in_session_def ref_ready_def calm_def demo_ref_CSR) (simp add: field_defs)
qed

lemma session_demo_plain:
  assumes "instpat_select (instpat_table session_config) i = Inr (Some (TYPE_I, Alu a))"
  shows "plain session_config (session_limit (session_demo i)) (session_demo i)"
proof -
  have f: "fetched (at_pc (session_demo i)) = i"
    by (simp add: fetched_def reset_vector le_read_write_same at_pc_def)
  have "ready session_config (at_pc (session_demo i))"
    using session_demo_bus [of i] by (simp add: ready_def no_interrupt_disabled bus_ok_def reset_vector MSIZE_eq at_pc_def)
  then show ?thesis
    using assms by (simp add: plain_def f plain_op_def session_limit_def demo_ref_limit reset_vector)
qed

end
