(* ===== verification/NemuSd.thy ===== *)
theory NemuSd
  imports Sdcard
begin

text \<open>
  The Linux driver of the SD host controller, \<^verbatim>\<open>resource/sdcard/nemu.c\<close>: it runs in the guest and talks
  to the device of theory Sdcard through \<^verbatim>\<open>readl\<close> and \<^verbatim>\<open>writel\<close>. What the kernel provides (the accessors
  of the bus, the scatter-gather iterator, the flag values of its headers, registration) is a
  parameter; \<open>'b\<close> is the state behind the bus and \<open>'g\<close> that of the iterator with the buffer.
  Locks and the masking of interrupts have no state of the driver.
\<close>

unbundle bit_operations_syntax

section \<open>Register offsets and flags\<close>

definition DRV_SDCMD :: nat where "DRV_SDCMD = 0x00"
definition DRV_SDARG :: nat where "DRV_SDARG = 0x04"
definition DRV_SDRSP0 :: nat where "DRV_SDRSP0 = 0x10"
definition DRV_SDHSTS :: nat where "DRV_SDHSTS = 0x20"
definition DRV_SDDATA :: nat where "DRV_SDDATA = 0x40"

definition SDCMD_NEW_FLAG :: u32 where "SDCMD_NEW_FLAG = 0x8000"
definition SDCMD_BUSYWAIT :: u32 where "SDCMD_BUSYWAIT = 0x800"
definition SDCMD_NO_RESPONSE :: u32 where "SDCMD_NO_RESPONSE = 0x400"
definition SDCMD_LONG_RESPONSE :: u32 where "SDCMD_LONG_RESPONSE = 0x200"
definition SDCMD_WRITE_CMD :: u32 where "SDCMD_WRITE_CMD = 0x80"
definition SDCMD_READ_CMD :: u32 where "SDCMD_READ_CMD = 0x40"
definition SDCMD_CMD_MASK :: u32 where "SDCMD_CMD_MASK = 0x3f"
definition SDCDIV_MAX_CDIV :: u32 where "SDCDIV_MAX_CDIV = 0x7ff"
definition SDDATA_FIFO_WORDS :: nat where "SDDATA_FIFO_WORDS = 16"
definition SDDATA_FIFO_PIO_BURST :: nat where "SDDATA_FIFO_PIO_BURST = 8"

lemmas drv_regs = DRV_SDCMD_def DRV_SDARG_def DRV_SDRSP0_def DRV_SDHSTS_def DRV_SDDATA_def
lemmas sdcmd_flags = SDCMD_NEW_FLAG_def SDCMD_BUSYWAIT_def SDCMD_NO_RESPONSE_def SDCMD_LONG_RESPONSE_def
  SDCMD_WRITE_CMD_def SDCMD_READ_CMD_def SDCMD_CMD_MASK_def

definition EINVAL :: int where "EINVAL = 22"
definition ENOMEM :: int where "ENOMEM = 12"

section \<open>State\<close>

text \<open>
  Requests of the MMC core. The three commands and the data of a request are different objects, so a
  pointer to a command is named by its place in the request, and a command either has no data or
  that of its request (\<open>c_data\<close>). \<open>d_sg\<close> holds the lengths of the scatter-gather list.
\<close>

record mmc_command =
  c_opcode :: u32
  c_arg :: u32
  c_flags :: u32
  c_resp :: "nat \<Rightarrow> u32"
  c_error :: int
  c_data :: bool

record mmc_data =
  d_blksz :: u32
  d_blocks :: u32
  d_flags :: u32
  d_error :: int
  d_bytes_xfered :: u32
  d_sg :: "nat list"

record mmc_request =
  r_sbc :: "mmc_command option"
  r_cmd :: "mmc_command option"
  r_stop :: "mmc_command option"
  r_data :: "mmc_data option"

datatype which_cmd = W_sbc | W_cmd | W_stop

record ('b, 'g) nemu_host =
  h_bus :: 'b
  h_sg :: 'g
  h_mrq :: "mmc_request option"
  h_cmd :: "which_cmd option"
  h_data :: bool
  h_data_complete :: bool
  h_use_sbc :: bool
  h_blocks :: u32
  h_warnings :: nat
  h_done :: "mmc_request list"

text \<open>
  The kernel. \<open>k_sg_next\<close> is \<open>None\<close> where \<^verbatim>\<open>sg_miter_next\<close> returns false; \<open>k_sg_length\<close> and
  \<open>k_sg_consumed\<close> are the fields of the iterator the driver reads and sets, and \<open>k_buf_read\<close>, \<open>k_buf_write\<close>
  access a word of the memory at its \<^verbatim>\<open>addr\<close>. \<open>k_debug\<close>: debug messages are compiled in.
\<close>

record ('b, 'g) linux =
  k_readl :: "nat \<Rightarrow> 'b \<Rightarrow> (u32 \<times> 'b) res"
  k_writel :: "u32 \<Rightarrow> nat \<Rightarrow> 'b \<Rightarrow> 'b res"
  k_sg_start :: "mmc_data \<Rightarrow> bool \<Rightarrow> 'g \<Rightarrow> 'g"
  k_sg_next :: "'g \<Rightarrow> 'g option"
  k_sg_length :: "'g \<Rightarrow> nat"
  k_sg_consumed :: "nat \<Rightarrow> 'g \<Rightarrow> 'g"
  k_sg_stop :: "'g \<Rightarrow> 'g"
  k_buf_read :: "nat \<Rightarrow> 'g \<Rightarrow> u32"
  k_buf_write :: "nat \<Rightarrow> u32 \<Rightarrow> 'g \<Rightarrow> 'g"
  k_is_power_of_2 :: "u32 \<Rightarrow> bool"
  k_RSP_PRESENT :: u32
  k_RSP_136 :: u32
  k_RSP_BUSY :: u32
  k_DATA_WRITE :: u32
  k_DATA_READ :: u32
  k_debug :: bool

definition flag :: "u32 \<Rightarrow> u32 \<Rightarrow> bool" where
  "flag v f \<longleftrightarrow> v AND f \<noteq> 0"

text \<open>Accesses through the pointers of the host; a null pointer is an error.\<close>

definition null_pointer :: "'x res" where
  "null_pointer = Inl (Assert_fail ''null pointer'')"

definition the_mrq :: "('b, 'g) nemu_host \<Rightarrow> mmc_request res" where
  "the_mrq h = (case h_mrq h of None \<Rightarrow> null_pointer | Some r \<Rightarrow> Inr r)"

fun get_cmd :: "which_cmd \<Rightarrow> mmc_request \<Rightarrow> mmc_command option" where
  "get_cmd W_sbc r = r_sbc r"
| "get_cmd W_cmd r = r_cmd r"
| "get_cmd W_stop r = r_stop r"

fun map_cmd :: "which_cmd \<Rightarrow> (mmc_command \<Rightarrow> mmc_command) \<Rightarrow> mmc_request \<Rightarrow> mmc_request" where
  "map_cmd W_sbc f r = r\<lparr>r_sbc := map_option f (r_sbc r)\<rparr>"
| "map_cmd W_cmd f r = r\<lparr>r_cmd := map_option f (r_cmd r)\<rparr>"
| "map_cmd W_stop f r = r\<lparr>r_stop := map_option f (r_stop r)\<rparr>"

definition the_cmd :: "which_cmd \<Rightarrow> ('b, 'g) nemu_host \<Rightarrow> mmc_command res" where
  "the_cmd w h = bindE (the_mrq h) (\<lambda>r. case get_cmd w r of None \<Rightarrow> null_pointer | Some c \<Rightarrow> Inr c)"

definition the_data :: "('b, 'g) nemu_host \<Rightarrow> mmc_data res" where
  "the_data h = bindE (the_mrq h) (\<lambda>r. case r_data r of None \<Rightarrow> null_pointer | Some d \<Rightarrow> Inr d)"

text \<open>\<^verbatim>\<open>host->data\<close>, which must not be null.\<close>

definition host_data :: "('b, 'g) nemu_host \<Rightarrow> mmc_data res" where
  "host_data h = (if h_data h then the_data h else null_pointer)"

definition upd_data :: "(mmc_data \<Rightarrow> mmc_data) \<Rightarrow> ('b, 'g) nemu_host \<Rightarrow> ('b, 'g) nemu_host" where
  "upd_data f h = h\<lparr>h_mrq := map_option (\<lambda>r. r\<lparr>r_data := map_option f (r_data r)\<rparr>) (h_mrq h)\<rparr>"

definition upd_cmd :: "which_cmd \<Rightarrow> (mmc_command \<Rightarrow> mmc_command) \<Rightarrow> ('b, 'g) nemu_host \<Rightarrow> ('b, 'g) nemu_host" where
  "upd_cmd w f h = h\<lparr>h_mrq := map_option (map_cmd w f) (h_mrq h)\<rparr>"

definition WARN_ON :: "bool \<Rightarrow> ('b, 'g) nemu_host \<Rightarrow> ('b, 'g) nemu_host" where
  "WARN_ON b h = (if b then h\<lparr>h_warnings := h_warnings h + 1\<rparr> else h)"

definition bus_readl :: "('b, 'g) linux \<Rightarrow> nat \<Rightarrow> ('b, 'g) nemu_host \<Rightarrow> (u32 \<times> ('b, 'g) nemu_host) res" where
  "bus_readl K off h = bindE (k_readl K off (h_bus h)) (\<lambda>(v, b). Inr (v, h\<lparr>h_bus := b\<rparr>))"

definition bus_writel :: "('b, 'g) linux \<Rightarrow> u32 \<Rightarrow> nat \<Rightarrow> ('b, 'g) nemu_host \<Rightarrow> ('b, 'g) nemu_host res" where
  "bus_writel K v off h = bindE (k_writel K v off (h_bus h)) (\<lambda>b. Inr (h\<lparr>h_bus := b\<rparr>))"

section \<open>Programmed I/O\<close>

text \<open>
  The inner loops of \<^verbatim>\<open>nemu_transfer_block_pio\<close>. The number of words of a burst is computed from a constant
  \<^verbatim>\<open>edm\<close>; where it is too small the C loop would spin, which does not happen (\<open>pio_words_eq\<close>).
\<close>

definition pio_words :: "bool \<Rightarrow> nat \<Rightarrow> nat option" where
  "pio_words is_read copy_words =
     (let burst_words = min SDDATA_FIFO_PIO_BURST copy_words; edm = push_bit 4 8 :: u32;
          fill = unat (drop_bit 4 edm AND 0x1f);
          words = (if is_read then fill else SDDATA_FIFO_WORDS - fill)
      in if words < burst_words then None else Some (if words > copy_words then copy_words else words))"

definition pio_word :: "('b, 'g) linux \<Rightarrow> bool \<Rightarrow> nat \<Rightarrow> ('b, 'g) nemu_host \<Rightarrow> ('b, 'g) nemu_host res" where
  "pio_word K is_read buf h =
     (if is_read
      then bindE (bus_readl K DRV_SDDATA h) (\<lambda>(v, h1). Inr (h1\<lparr>h_sg := k_buf_write K buf v (h_sg h1)\<rparr>))
      else bus_writel K (k_buf_read K buf (h_sg h)) DRV_SDDATA h)"

fun pio_burst :: "('b, 'g) linux \<Rightarrow> bool \<Rightarrow> nat \<Rightarrow> nat \<Rightarrow> ('b, 'g) nemu_host \<Rightarrow> ('b, 'g) nemu_host res" where
  "pio_burst K is_read buf 0 h = Inr h"
| "pio_burst K is_read buf (Suc words) h =
     bindE (pio_word K is_read buf h) (\<lambda>h1. pio_burst K is_read (Suc buf) words h1)"

lemma pio_words_eq: "pio_words is_read n = Some (min 8 n)"
  by (simp add: pio_words_def SDDATA_FIFO_PIO_BURST_def SDDATA_FIFO_WORDS_def Let_def min_def)

function pio_copy :: "('b, 'g) linux \<Rightarrow> bool \<Rightarrow> nat \<Rightarrow> nat \<Rightarrow> ('b, 'g) nemu_host \<Rightarrow> ('b, 'g) nemu_host res" where
  "pio_copy K is_read buf copy_words h =
     (if copy_words = 0 then Inr h
      else (case pio_words is_read copy_words of
          None \<Rightarrow> Inl (Assert_fail ''spin'')
        | Some words \<Rightarrow> bindE (pio_burst K is_read buf words h)
            (\<lambda>h1. pio_copy K is_read (buf + words) (copy_words - words) h1)))"
  by pat_completeness auto
termination
  by (relation "measure (\<lambda>(K, is_read, buf, copy_words, h). copy_words)") (auto simp: pio_words_eq)

declare pio_copy.simps [simp del]

text \<open>
  The loop over the chunks the iterator delivers. The fuel bounds the number of chunks; a chunk is not empty, so
  one unit per byte of the block is enough.
\<close>

fun pio_chunks :: "('b, 'g) linux \<Rightarrow> bool \<Rightarrow> nat \<Rightarrow> nat \<Rightarrow> ('b, 'g) nemu_host \<Rightarrow> ('b, 'g) nemu_host res" where
  "pio_chunks K is_read 0 blksize h = (if blksize = 0 then Inr h else Inl (Assert_fail ''fuel''))"
| "pio_chunks K is_read (Suc fuel) blksize h =
     (if blksize = 0 then Inr h
      else (case k_sg_next K (h_sg h) of
          None \<Rightarrow> Inr (upd_data (\<lambda>d. d\<lparr>d_error := - EINVAL\<rparr>) h)
        | Some g \<Rightarrow>
            (let len = min (k_sg_length K g) blksize; h1 = h\<lparr>h_sg := g\<rparr> in
             if len mod 4 \<noteq> 0 then Inr (upd_data (\<lambda>d. d\<lparr>d_error := - EINVAL\<rparr>) h1)
             else bindE (pio_copy K is_read 0 (len div 4) (h1\<lparr>h_sg := k_sg_consumed K len g\<rparr>))
               (\<lambda>h2. pio_chunks K is_read fuel (blksize - len) h2))))"

definition nemu_transfer_block_pio :: "('b, 'g) linux \<Rightarrow> bool \<Rightarrow> ('b, 'g) nemu_host \<Rightarrow> ('b, 'g) nemu_host res" where
  "nemu_transfer_block_pio K is_read h =
     bindE (host_data h) (\<lambda>d.
     bindE (pio_chunks K is_read (unat (d_blksz d)) (unat (d_blksz d)) h) (\<lambda>h1.
     Inr (h1\<lparr>h_sg := k_sg_stop K (h_sg h1)\<rparr>)))"

definition nemu_transfer_pio :: "('b, 'g) linux \<Rightarrow> ('b, 'g) nemu_host \<Rightarrow> ('b, 'g) nemu_host res" where
  "nemu_transfer_pio K h =
     bindE (host_data h) (\<lambda>d. nemu_transfer_block_pio K (flag (d_flags d) (k_DATA_READ K)) h)"

text \<open>The loop \<^verbatim>\<open>for (i = 0; i < host->data->blocks; i ++)\<close>; nothing in it changes the count.\<close>

fun transfer_blocks :: "('b, 'g) linux \<Rightarrow> nat \<Rightarrow> ('b, 'g) nemu_host \<Rightarrow> ('b, 'g) nemu_host res" where
  "transfer_blocks K 0 h = Inr h"
| "transfer_blocks K (Suc n) h = bindE (nemu_transfer_pio K h) (transfer_blocks K n)"

section \<open>Commands\<close>

definition nemu_prepare_data ::
    "('b, 'g) linux \<Rightarrow> mmc_command \<Rightarrow> ('b, 'g) nemu_host \<Rightarrow> ('b, 'g) nemu_host res" where
  "nemu_prepare_data K cmd h0 =
     (let h = (WARN_ON (h_data h0) h0)\<lparr>h_data := c_data cmd\<rparr> in
      if \<not> c_data cmd then Inr h
      else bindE (the_data h) (\<lambda>d.
        let h1 = upd_data (\<lambda>d. d\<lparr>d_bytes_xfered := 0\<rparr>) (h\<lparr>h_data_complete := False\<rparr>) in
        Inr (h1\<lparr>h_sg := k_sg_start K d (flag (d_flags d) (k_DATA_READ K)) (h_sg h1), h_blocks := d_blocks d\<rparr>)))"

definition nemu_finish_request :: "('b, 'g) nemu_host \<Rightarrow> ('b, 'g) nemu_host res" where
  "nemu_finish_request h =
     bindE (the_mrq h) (\<lambda>mrq.
     Inr (h\<lparr>h_mrq := None, h_cmd := None, h_data := False, h_done := h_done h @ [mrq]\<rparr>))"

definition sdcmd_word :: "('b, 'g) linux \<Rightarrow> mmc_command \<Rightarrow> mmc_data option \<Rightarrow> u32" where
  "sdcmd_word K cmd data =
     (let s0 = c_opcode cmd AND SDCMD_CMD_MASK;
          s1 = (if \<not> flag (c_flags cmd) (k_RSP_PRESENT K) then s0 OR SDCMD_NO_RESPONSE
                else (s0 OR (if flag (c_flags cmd) (k_RSP_136 K) then SDCMD_LONG_RESPONSE else 0)) OR
                  (if flag (c_flags cmd) (k_RSP_BUSY K) then SDCMD_BUSYWAIT else 0))
      in case data of None \<Rightarrow> s1
         | Some d \<Rightarrow> (s1 OR (if flag (d_flags d) (k_DATA_WRITE K) then SDCMD_WRITE_CMD else 0)) OR
             (if flag (d_flags d) (k_DATA_READ K) then SDCMD_READ_CMD else 0))"

text \<open>The result is always \<^verbatim>\<open>true\<close>.\<close>

definition nemu_send_command :: "('b, 'g) linux \<Rightarrow> which_cmd \<Rightarrow> ('b, 'g) nemu_host \<Rightarrow> ('b, 'g) nemu_host res" where
  "nemu_send_command K w h0 =
     (let h = (WARN_ON (h_cmd h0 \<noteq> None) h0)\<lparr>h_cmd := Some w\<rparr> in
      bindE (the_cmd w h) (\<lambda>cmd.
      bindE (nemu_prepare_data K cmd h) (\<lambda>h1.
      bindE (bus_writel K (c_arg cmd) DRV_SDARG h1) (\<lambda>h2.
      bindE (if c_data cmd then bindE (the_data h2) (\<lambda>d. Inr (Some d)) else Inr None) (\<lambda>data.
      bus_writel K (sdcmd_word K cmd data OR SDCMD_NEW_FLAG) DRV_SDCMD h2)))))"

text \<open>The response registers; \<^verbatim>\<open>resp[3 - i]\<close> is the register \<^verbatim>\<open>SDRSP0 + 4 * i\<close>.\<close>

fun read_long_response :: "('b, 'g) linux \<Rightarrow> which_cmd \<Rightarrow> nat list \<Rightarrow> ('b, 'g) nemu_host \<Rightarrow> ('b, 'g) nemu_host res" where
  "read_long_response K w [] h = Inr h"
| "read_long_response K w (i # is) h =
     bindE (bus_readl K (DRV_SDRSP0 + i * 4) h) (\<lambda>(v, h1).
     read_long_response K w is (upd_cmd w (\<lambda>c. c\<lparr>c_resp := (c_resp c)(3 - i := v)\<rparr>) h1))"

definition read_response :: "('b, 'g) linux \<Rightarrow> which_cmd \<Rightarrow> ('b, 'g) nemu_host \<Rightarrow> ('b, 'g) nemu_host res" where
  "read_response K w h =
     bindE (the_cmd w h) (\<lambda>cmd.
     if flag (c_flags cmd) (k_RSP_PRESENT K) then
       (if flag (c_flags cmd) (k_RSP_136 K) then read_long_response K w [0..<4] h
        else bindE (bus_readl K DRV_SDRSP0 h) (\<lambda>(v, h1).
          Inr (upd_cmd w (\<lambda>c. c\<lparr>c_resp := (c_resp c)(0 := v)\<rparr>) h1)))
     else Inr h)"

text \<open>
  The three functions that call each other. A request goes through at most three commands, so the recursion is at most
  seven calls deep; the fuel is a bound for it (\<open>finish_command_fuel\<close>).
\<close>

fun nemu_finish_command :: "('b, 'g) linux \<Rightarrow> nat \<Rightarrow> ('b, 'g) nemu_host \<Rightarrow> ('b, 'g) nemu_host res"
  and nemu_transfer_complete :: "('b, 'g) linux \<Rightarrow> nat \<Rightarrow> ('b, 'g) nemu_host \<Rightarrow> ('b, 'g) nemu_host res"
  and nemu_finish_data :: "('b, 'g) linux \<Rightarrow> nat \<Rightarrow> ('b, 'g) nemu_host \<Rightarrow> ('b, 'g) nemu_host res" where
  "nemu_finish_command K 0 h = Inl (Assert_fail ''fuel'')"
| "nemu_finish_command K (Suc n) h =
     (case h_cmd h of
        None \<Rightarrow> null_pointer
      | Some w \<Rightarrow>
          bindE (read_response K w h) (\<lambda>h1.
          if w = W_sbc then
            bindE (nemu_send_command K W_cmd (h1\<lparr>h_cmd := None\<rparr>)) (\<lambda>h2.
            bindE (if h_data h2
                   then bindE (the_data h2) (\<lambda>d. bindE (transfer_blocks K (unat (d_blocks d)) h2) (nemu_finish_data K n))
                   else Inr h2)
              (nemu_finish_command K n))
          else if w = W_stop then nemu_finish_request h1
          else
            (let h2 = h1\<lparr>h_cmd := None\<rparr> in
             if \<not> h_data h2 then nemu_finish_request h2
             else if h_data_complete h2 then nemu_transfer_complete K n h2
             else Inr h2)))"
| "nemu_transfer_complete K 0 h = Inl (Assert_fail ''fuel'')"
| "nemu_transfer_complete K (Suc n) h =
     (let h1 = WARN_ON (\<not> h_data_complete h) h; h2 = h1\<lparr>h_data := False\<rparr> in
      bindE (the_mrq h1) (\<lambda>mrq.
      bindE (if r_stop mrq = None then Inr False
             else bindE (host_data h1) (\<lambda>data. Inr (d_error data \<noteq> 0 \<or> \<not> h_use_sbc h2))) (\<lambda>send_stop.
      if send_stop then bindE (nemu_send_command K W_stop h2) (nemu_finish_command K n)
      else nemu_finish_request h2)))"
| "nemu_finish_data K 0 h = Inl (Assert_fail ''fuel'')"
| "nemu_finish_data K (Suc n) h =
     bindE (host_data h) (\<lambda>data.
     let h1 = (upd_data (\<lambda>d. d\<lparr>d_bytes_xfered := (if d_error d \<noteq> 0 then 0 else d_blksz d * d_blocks d)\<rparr>) h)
                \<lparr>h_data_complete := True\<rparr> in
     if h_cmd h1 \<noteq> None then
       (if k_debug K then bindE (bus_readl K DRV_SDHSTS h1) (\<lambda>(v, h2). Inr h2) else Inr h1)
     else nemu_transfer_complete K n h1)"

definition reset_errors :: "mmc_request \<Rightarrow> mmc_request" where
  "reset_errors r =
     (let f = map_option (\<lambda>c. c\<lparr>c_error := 0\<rparr>) in
      r\<lparr>r_sbc := f (r_sbc r), r_cmd := f (r_cmd r), r_stop := f (r_stop r),
        r_data := map_option (\<lambda>d. d\<lparr>d_error := 0\<rparr>) (r_data r)\<rparr>)"

definition nemu_request :: "('b, 'g) linux \<Rightarrow> mmc_request \<Rightarrow> ('b, 'g) nemu_host \<Rightarrow> ('b, 'g) nemu_host res" where
  "nemu_request K mrq0 h =
     (let mrq = reset_errors mrq0 in
      if (case r_data mrq of None \<Rightarrow> False | Some d \<Rightarrow> \<not> k_is_power_of_2 K (d_blksz d)) then
        Inr (h\<lparr>h_done := h_done h @ [map_cmd W_cmd (\<lambda>c. c\<lparr>c_error := - EINVAL\<rparr>) mrq]\<rparr>)
      else
        (let h1 = (WARN_ON (h_mrq h \<noteq> None) h)\<lparr>h_mrq := Some mrq,
             h_use_sbc := (r_sbc mrq \<noteq> None \<and>
               (case r_data mrq of None \<Rightarrow> False | Some d \<Rightarrow> flag (d_flags d) (k_DATA_READ K)))\<rparr> in
         if h_use_sbc h1 then bindE (nemu_send_command K W_sbc h1) (nemu_finish_command K 7)
         else if r_cmd mrq \<noteq> None then
           bindE (nemu_send_command K W_cmd h1) (\<lambda>h2.
           bindE (if h_data h2
                  then bindE (the_data h2) (\<lambda>d. bindE (transfer_blocks K (unat (d_blocks d)) h2) (nemu_finish_data K 7))
                  else Inr h2)
             (nemu_finish_command K 7))
         else Inr h1))"

section \<open>Registration\<close>

record mmc_host =
  m_f_max :: u32
  m_f_min :: u32
  m_max_busy_timeout :: u32
  m_caps :: u32
  m_max_segs :: u32
  m_max_req_size :: u32
  m_max_seg_size :: u32
  m_max_blk_size :: u32
  m_max_blk_count :: u32
  m_ocr_avail :: u32

text \<open>
  What the kernel answers while a device is probed: the host structure it allocates (with room for the
  driver's own), the mapping of the registers or an error number, the address property of the device tree
  node, and the results of \<^verbatim>\<open>mmc_of_parse\<close> and \<^verbatim>\<open>mmc_add_host\<close>; \<open>p_caps\<close> and \<open>p_ocr\<close> are the unions of the
  capability and voltage flags the driver sets.
\<close>

record probe_env =
  p_alloc :: "mmc_host option"
  p_ioremap :: "int + nat"
  p_of_address :: "u32 option"
  p_be32 :: "u32 \<Rightarrow> u32"
  p_of_parse :: "mmc_host \<Rightarrow> int \<times> mmc_host"
  p_add_host :: "mmc_host \<Rightarrow> int"
  p_caps :: u32
  p_ocr :: u32

datatype probe_call = Alloc_host | Add_host | Free_host | Remove_host | Set_drvdata bool

text \<open>The division of \<^verbatim>\<open>~0\<close> is unsigned; a maximal frequency below 1000 Hz divides by zero.\<close>

definition nemu_add_host :: "probe_env \<Rightarrow> u32 \<Rightarrow> mmc_host \<Rightarrow> (int \<times> mmc_host) res" where
  "nemu_add_host P max_clk m0 =
     (let f_max = (if m_f_max m0 = 0 \<or> m_f_max m0 > max_clk then max_clk else m_f_max m0) in
      if f_max div 1000 = 0 then Inl (Assert_fail ''division by zero'')
      else
        (let m = m0\<lparr>m_f_max := f_max, m_f_min := max_clk div SDCDIV_MAX_CDIV,
               m_max_busy_timeout := (- 1) div (f_max div 1000), m_caps := m_caps m0 OR p_caps P,
               m_max_segs := 128, m_max_req_size := 524288, m_max_seg_size := 524288,
               m_max_blk_size := 1024, m_max_blk_count := 65535, m_ocr_avail := p_ocr P\<rparr>
         in Inr (p_add_host P m, m)))"

definition MAX_CLK :: u32 where "MAX_CLK = 1000000"

text \<open>The result and the calls that acquire or release the host, in order.\<close>

definition nemu_probe :: "probe_env \<Rightarrow> (int \<times> probe_call list) res" where
  "nemu_probe P =
     (case p_alloc P of
        None \<Rightarrow> Inr (- ENOMEM, [])
      | Some mmc \<Rightarrow>
          (let err = (\<lambda>r evs. Inr (r, Alloc_host # evs @ [Free_host])) in
           case p_ioremap P of
             Inl e \<Rightarrow> err e []
           | Inr ioaddr \<Rightarrow>
               (case p_of_address P of
                  None \<Rightarrow> err (- EINVAL) []
                | Some a \<Rightarrow>
                    (case p_of_parse P mmc of (r, mmc1) \<Rightarrow>
                       if r \<noteq> 0 then err r []
                       else bindE (nemu_add_host P MAX_CLK mmc1) (\<lambda>(r2, mmc2).
                         if r2 \<noteq> 0 then err r2 [Add_host]
                         else Inr (0, [Alloc_host, Add_host, Set_drvdata True]))))))"

definition nemu_remove :: "int \<times> probe_call list" where
  "nemu_remove = (0, [Remove_host, Free_host, Set_drvdata False])"

text \<open>A failed probe leaves no host behind, a successful one does not release it.\<close>

lemma nemu_probe_releases:
  assumes "nemu_probe P = Inr (r, evs)" and "\<And>e. p_ioremap P = Inl e \<Longrightarrow> e \<noteq> 0"
  shows "count_list evs Free_host = (if r = 0 then 0 else count_list evs Alloc_host)"
    and "r = 0 \<longleftrightarrow> Set_drvdata True \<in> set evs"
  using assms
  by (auto simp: nemu_probe_def ENOMEM_def EINVAL_def Let_def res_simps split: option.splits sum.splits prod.splits if_splits)

lemma nemu_add_host_timeout:
  assumes "nemu_add_host P MAX_CLK m = Inr (r, m')"
  shows "1000 \<le> m_f_max m' \<and> m_f_max m' \<le> MAX_CLK \<and> m_f_min m' = 488 \<and> m_max_busy_timeout m' \<noteq> 0"
proof -
  have f: "1000 \<le> f" if "f div 1000 \<noteq> 0" for f :: u32
    using that by (simp add: word_le_nat_alt word_unat_eq_iff unat_div div_eq_0_iff)
  have t: "(- 1 :: u32) div (f div 1000) \<noteq> 0" if "f div 1000 \<noteq> 0" for f :: u32
  proof -
    have "f div 1000 \<le> - 1" by simp
    then have "unat (f div 1000) \<le> unat (- 1 :: u32)" by (simp only: word_le_nat_alt)
    moreover have "unat (f div 1000) > 0" using that by (simp add: unat_gt_0)
    ultimately have "0 < unat (- 1 :: u32) div unat (f div 1000)" by (simp add: div_greater_zero_iff)
    then show ?thesis by (simp add: word_unat_eq_iff unat_div)
  qed
  show ?thesis
    using assms f t
    by (auto simp: nemu_add_host_def Let_def MAX_CLK_def SDCDIV_MAX_CDIV_def split: if_splits)
qed

end
