(* ===== verification/SdPort.thy ===== *)
theory SdPort
  imports NemuSd Devices
begin

text \<open>
  The SD card seen through the bus: what the driver's accessors \<^verbatim>\<open>readl\<close> and \<^verbatim>\<open>writel\<close> do when the
  registers they address are those of the emulator's controller. The interface \<open>sd_port\<close> states what
  the driver relies on; the controller behind the address map provides it.
\<close>

unbundle bit_operations_syntax

section \<open>The accessors on the emulator's bus\<close>

definition sd_readl :: "config \<Rightarrow> host_env \<Rightarrow> nat \<Rightarrow> ('a) devs_scheme \<Rightarrow> (u32 \<times> ('a) devs_scheme) res" where
  "sd_readl c E off m = mmio_read c (dev_dispatch E) (CONFIG_SDCARD_CTL_MMIO + of_nat off) 4 m"

definition sd_writel :: "config \<Rightarrow> host_env \<Rightarrow> u32 \<Rightarrow> nat \<Rightarrow> ('a) devs_scheme \<Rightarrow> ('a) devs_scheme res" where
  "sd_writel c E v off m = mmio_write c (dev_dispatch E) (CONFIG_SDCARD_CTL_MMIO + of_nat off) 4 v m"

section \<open>What the card is doing\<close>

definition sd_at :: "config \<Rightarrow> nat" where
  "sd_at c = 86016 + fb_len c"

text \<open>
  The card is in its place with the image \<open>f\<close>, no register block being read out; it holds the argument \<open>a\<close>;
  it delivers, or takes, the word at position \<open>p\<close>.
\<close>

definition sd_idle :: "config \<Rightarrow> u8 list \<Rightarrow> ('a) devs_scheme \<Rightarrow> bool" where
  "sd_idle c f m \<longleftrightarrow> cfg_sdcard c \<and> cfg_vga c \<noteq> VGA_SIZE_1600x1200 \<and> mmio_maps m = default_maps c \<and>
     sd_base m = sd_at c \<and> \<not> sd_read_ext_csd (sd m) \<and> sd_file (sd m) = Some f"

definition sd_armed :: "config \<Rightarrow> u8 list \<Rightarrow> u32 \<Rightarrow> ('a) devs_scheme \<Rightarrow> bool" where
  "sd_armed c f a m \<longleftrightarrow> sd_idle c f m \<and> sd_reg m SDARG = Inr a"

definition sd_moving :: "config \<Rightarrow> bool \<Rightarrow> u8 list \<Rightarrow> nat \<Rightarrow> ('a) devs_scheme \<Rightarrow> bool" where
  "sd_moving c w f p m \<longleftrightarrow> sd_idle c f m \<and> sd_write_cmd (sd m) = w \<and> sd_pos (sd m) = p"

definition data_bytes :: "u32 \<Rightarrow> u8 list" where
  "data_bytes v = map (\<lambda>i. ucast (drop_bit (8 * i) v)) [0..<4]"

lemma length_data_bytes [simp]: "length (data_bytes v) = 4"
  by (simp add: data_bytes_def)

section \<open>Registers of the card on the bus\<close>

lemma skip_ref_sd [simp]:
  "sd (difftest_skip_ref c m) = sd m" "sd_base (difftest_skip_ref c m) = sd_base m"
  "mmio_maps (difftest_skip_ref c m) = mmio_maps m" "io_space (difftest_skip_ref c m) = io_space m"
  by (simp_all add: difftest_skip_ref_def split: difftest_ref.split)

lemma sd_entry:
  "cfg_sdcard c \<Longrightarrow> entry ''sdhci'' CONFIG_SDCARD_CTL_MMIO 0x80 (sd_at c) CB_sdcard \<in> set (default_maps c)"
  by (simp add: default_maps_def Let_def sd_at_def)

lemma sd_at_fits: "cfg_vga c \<noteq> VGA_SIZE_1600x1200 \<Longrightarrow> sd_at c + 0x80 \<le> IO_SPACE_MAX"
  by (cases "cfg_vga c") (simp_all add: sd_at_def fb_len_values IO_SPACE_MAX_def)

lemma sd_offset:
  assumes "off < 0x80"
  shows "unat (of_nat off :: u32) = off"
    and "map_inside (entry ''sdhci'' CONFIG_SDCARD_CTL_MMIO 0x80 s CB_sdcard) (CONFIG_SDCARD_CTL_MMIO + of_nat off)"
proof -
  show u: "unat (of_nat off :: u32) = off" using assms by (simp add: unat_of_nat)
  have s: "unat (CONFIG_SDCARD_CTL_MMIO + of_nat off) = unat CONFIG_SDCARD_CTL_MMIO + off"
    using assms u by (subst unat_add_lem [THEN iffD1]) (auto simp: config_defs)
  show "map_inside (entry ''sdhci'' CONFIG_SDCARD_CTL_MMIO 0x80 s CB_sdcard) (CONFIG_SDCARD_CTL_MMIO + of_nat off)"
    unfolding map_inside_def word_le_nat_alt s using assms by (simp add: entry_def config_defs)
qed

lemma sd_bus_read:
  assumes "sd_idle c f m" and "off + 4 \<le> 0x80"
  shows "sd_readl c E off m = bindE (sdcard_io_handler (of_nat off) 4 False (difftest_skip_ref c m)) (\<lambda>m1.
    Inr (le_read (io_space m1) (sd_at c + off) 4, m1))"
proof -
  have off: "off < 0x80" using assms(2) by simp
  have i: "cfg_sdcard c" "cfg_vga c \<noteq> VGA_SIZE_1600x1200" "mmio_maps m = default_maps c"
    using assms(1) by (simp_all add: sd_idle_def)
  have fits: "sd_at c + off + 4 \<le> IO_SPACE_MAX" using sd_at_fits [OF i(2)] assms(2) by simp
  show ?thesis
    unfolding sd_readl_def
    using mmio_read_mapped [of m, OF _ _ sd_offset(2) [OF off], of "sd_at c" 4 c "dev_dispatch E"]
      sd_entry [OF i(1)] default_maps_wf [OF i(2)] i(3) sd_offset(1) [OF off] fits
    by (simp add: entry_def invoke_callback_def host_read_def)
qed

lemma sd_bus_write:
  assumes "sd_idle c f m" and "off + 4 \<le> 0x80"
  shows "sd_writel c E v off m = sdcard_io_handler (of_nat off) 4 True
    ((difftest_skip_ref c m)\<lparr>io_space := le_write (io_space m) (sd_at c + off) 4 v\<rparr>)"
proof -
  have off: "off < 0x80" using assms(2) by simp
  have i: "cfg_sdcard c" "cfg_vga c \<noteq> VGA_SIZE_1600x1200" "mmio_maps m = default_maps c"
    using assms(1) by (simp_all add: sd_idle_def)
  have fits: "sd_at c + off + 4 \<le> IO_SPACE_MAX" using sd_at_fits [OF i(2)] assms(2) by simp
  show ?thesis
    unfolding sd_writel_def
    using mmio_write_mapped [of m, OF _ _ sd_offset(2) [OF off], of "sd_at c" 4 c "dev_dispatch E" v]
      sd_entry [OF i(1)] default_maps_wf [OF i(2)] i(3) sd_offset(1) [OF off] fits
    by (simp add: entry_def invoke_callback_def host_write_def)
qed

section \<open>The interface\<close>

text \<open>
  An argument written is held; the commands 18 and 25 start a transfer at the block of the argument; the data register
  delivers or takes one word after the other; the commands 12 and 23 and reads of the response leave the card idle.
\<close>

locale sd_port =
  fixes rd :: "nat \<Rightarrow> 'b \<Rightarrow> (u32 \<times> 'b) res" and wr :: "u32 \<Rightarrow> nat \<Rightarrow> 'b \<Rightarrow> 'b res"
    and idle :: "u8 list \<Rightarrow> 'b \<Rightarrow> bool" and armed :: "u8 list \<Rightarrow> u32 \<Rightarrow> 'b \<Rightarrow> bool"
    and moving :: "bool \<Rightarrow> u8 list \<Rightarrow> nat \<Rightarrow> 'b \<Rightarrow> bool"
  assumes moving_idle: "moving w f p b \<Longrightarrow> idle f b"
    and port_arg: "idle f b \<Longrightarrow> \<exists>b'. wr a DRV_SDARG b = Inr b' \<and> armed f a b'"
    and port_start: "armed f a b \<Longrightarrow> v AND 0x3f = (if w then 25 else 18) \<Longrightarrow>
        \<exists>b'. wr v DRV_SDCMD b = Inr b' \<and> moving w f (unat a * 512) b'"
    and port_quiet: "armed f a b \<Longrightarrow> v AND 0x3f \<in> {12, 23} \<Longrightarrow> \<exists>b'. wr v DRV_SDCMD b = Inr b' \<and> idle f b'"
    and port_in: "moving False f p b \<Longrightarrow> p + 4 \<le> length f \<Longrightarrow>
        \<exists>b'. rd DRV_SDDATA b = Inr (bytes_word (take 4 (drop p f)), b') \<and> moving False f (p + 4) b'"
    and port_out: "moving True f p b \<Longrightarrow>
        \<exists>b'. wr v DRV_SDDATA b = Inr b' \<and> moving True (stream_write f p (data_bytes v)) (p + 4) b'"
    and port_rsp: "idle f b \<Longrightarrow> \<exists>v b'. rd DRV_SDRSP0 b = Inr (v, b') \<and> idle f b'"
begin

text \<open>The first word of a block.\<close>

lemma port_first_word:
  assumes "idle f b" and "v AND 0x3f = 18" and "unat a * 512 + 4 \<le> length f"
  shows "\<exists>b1 b2 b3. wr a DRV_SDARG b = Inr b1 \<and> wr v DRV_SDCMD b1 = Inr b2 \<and>
    rd DRV_SDDATA b2 = Inr (bytes_word (take 4 (drop (unat a * 512) f)), b3) \<and> idle f b3"
proof -
  obtain b1 where b1: "wr a DRV_SDARG b = Inr b1" "armed f a b1" using port_arg [OF assms(1)] by blast
  obtain b2 where b2: "wr v DRV_SDCMD b1 = Inr b2" "moving False f (unat a * 512) b2"
    using port_start [OF b1(2), of v False] assms(2) by auto
  obtain b3 where "rd DRV_SDDATA b2 = Inr (bytes_word (take 4 (drop (unat a * 512) f)), b3)" "idle f b3"
    using port_in [OF b2(2) assms(3)] moving_idle by blast
  with b1 b2 show ?thesis by blast
qed

end

section \<open>The controller provides it\<close>

lemma sd_idle_fits: "sd_idle c f m \<Longrightarrow> sd_base m + 0x80 \<le> IO_SPACE_MAX"
  using sd_at_fits [of c] by (simp add: sd_idle_def)

lemma sd_idle_skip [simp]: "sd_idle c f (difftest_skip_ref c m) = sd_idle c f m"
  by (simp add: sd_idle_def)

lemma sd_idle_io [simp]: "sd_idle c f (m\<lparr>io_space := sp\<rparr>) = sd_idle c f m"
  by (simp add: sd_idle_def)

lemmas sd_offs = drv_regs sd_regs Let_def

lemma sd_moving_idle: "sd_moving c w f p m \<Longrightarrow> sd_idle c f m"
  by (simp add: sd_moving_def)

lemma sd_port_arg:
  assumes "sd_idle c f m" shows "\<exists>m'. sd_writel c E a DRV_SDARG m = Inr m' \<and> sd_armed c f a m'"
  using assms sd_bus_write [OF assms, of DRV_SDARG E a] sd_idle_fits [OF assms]
  by (simp add: sd_offs sdcard_io_handler_def sd_armed_def sd_reg_def dev_peek_def le_read_write_same)
    (simp add: sd_idle_def le_read_write_same)

lemma sd_port_cmd:
  assumes "sd_armed c f a m"
  shows "sd_writel c E v DRV_SDCMD m = sdcard_handle_cmd (v AND 0x3f)
      ((difftest_skip_ref c m)\<lparr>io_space := le_write (io_space m) (sd_at c) 4 v\<rparr>)"
    and "sd_reg ((difftest_skip_ref c m)\<lparr>io_space := le_write (io_space m) (sd_at c) 4 v\<rparr>) SDARG = Inr a"
proof -
  have i: "sd_idle c f m" and a: "sd_reg m SDARG = Inr a" and b: "sd_base m = sd_at c"
    using assms by (simp_all add: sd_armed_def sd_idle_def)
  show "sd_writel c E v DRV_SDCMD m = sdcard_handle_cmd (v AND 0x3f)
      ((difftest_skip_ref c m)\<lparr>io_space := le_write (io_space m) (sd_at c) 4 v\<rparr>)"
    using sd_bus_write [OF i, of DRV_SDCMD E v] sd_idle_fits [OF i] b
    by (simp add: sd_offs sdcard_io_handler_def sd_reg_def dev_peek_def le_read_write_same)
  show "sd_reg ((difftest_skip_ref c m)\<lparr>io_space := le_write (io_space m) (sd_at c) 4 v\<rparr>) SDARG = Inr a"
    using a b sd_idle_fits [OF i] by (simp add: sd_offs sd_reg_def dev_peek_def le_read_write_other)
qed

lemma sd_port_start:
  assumes "sd_armed c f a m" and "v AND 0x3f = (if w then 25 else 18)"
  shows "\<exists>m'. sd_writel c E v DRV_SDCMD m = Inr m' \<and> sd_moving c w f (unat a * 512) m'"
  using assms sd_port_cmd(1) [OF assms(1), of E v] sd_port_cmd(2) [OF assms(1), of v]
  by (cases w) (simp_all add: sdcard_handle_cmd_def mmc_cmds prepare_rw_def sd_moving_def sd_armed_def sd_idle_def)

lemma sd_port_quiet:
  assumes "sd_armed c f a m" and "v AND 0x3f \<in> {12, 23}"
  shows "\<exists>m'. sd_writel c E v DRV_SDCMD m = Inr m' \<and> sd_idle c f m'"
  using assms sd_port_cmd(1) [OF assms(1), of E v] sd_port_cmd(2) [OF assms(1), of v]
  by (auto simp: sdcard_handle_cmd_def mmc_cmds sd_armed_def sd_idle_def)

lemma sd_port_in:
  assumes "sd_moving c False f p m" and "p + 4 \<le> length f"
  shows "\<exists>m'. sd_readl c E DRV_SDDATA m = Inr (bytes_word (take 4 (drop p f)), m') \<and> sd_moving c False f (p + 4) m'"
proof -
  have i: "sd_idle c f m" and m: "\<not> sd_read_ext_csd (sd m)" "\<not> sd_write_cmd (sd m)" "sd_file (sd m) = Some f"
      "sd_pos (sd m) = p" "sd_base m = sd_at c"
    using assms(1) by (simp_all add: sd_moving_def sd_idle_def)
  obtain m1 where m1: "sdcard_io_handler 64 4 False (difftest_skip_ref c m) = Inr m1"
      "sd_reg m1 SDDATA = Inr (bytes_word (take 4 (drop p f)))"
      "sd m1 = (sd m)\<lparr>sd_pos := p + 4, sd_addr := sd_addr (sd m) + 4\<rparr>" "sd_base m1 = sd_base m"
    using sd_data_read [of "difftest_skip_ref c m" f] m assms(2) sd_idle_fits [OF i] by auto
  have "mmio_maps m1 = mmio_maps m" using sdcard_io_handler_same_maps [OF m1(1)] by (simp add: same_maps_def)
  then have "sd_moving c False f (p + 4) m1" using i m m1 by (simp add: sd_moving_def sd_idle_def)
  moreover have "le_read (io_space m1) (sd_at c + 64) 4 = bytes_word (take 4 (drop p f))"
    using m1(2,4) m(5) sd_idle_fits [OF i] by (simp add: sd_reg_def dev_peek_def sd_regs)
  ultimately show ?thesis using sd_bus_read [OF i, of DRV_SDDATA E] m1(1) by (simp add: drv_regs)
qed

lemma sd_port_out:
  assumes "sd_moving c True f p m"
  shows "\<exists>m'. sd_writel c E v DRV_SDDATA m = Inr m' \<and> sd_moving c True (stream_write f p (data_bytes v)) (p + 4) m'"
proof -
  have i: "sd_idle c f m" and m: "\<not> sd_read_ext_csd (sd m)" "sd_write_cmd (sd m)" "sd_file (sd m) = Some f"
      "sd_pos (sd m) = p" "sd_base m = sd_at c"
    using assms(1) by (simp_all add: sd_moving_def sd_idle_def)
  have "map (\<lambda>i. le_write (io_space m) (sd_at c + 64) 4 v (sd_at c + 64 + i)) [0..<4] = data_bytes v"
    by (simp add: data_bytes_def le_write_apply)
  then show ?thesis
    using sd_bus_write [OF i, of DRV_SDDATA E v] i m sd_idle_fits [OF i]
    by (simp add: sd_offs sdcard_io_handler_def sd_data_def sd_moving_def sd_idle_def)
qed

lemma sd_port_rsp:
  assumes "sd_idle c f m" shows "\<exists>v m'. sd_readl c E DRV_SDRSP0 m = Inr (v, m') \<and> sd_idle c f m'"
  using sd_bus_read [OF assms, of DRV_SDRSP0 E] assms by (simp add: sd_offs sdcard_io_handler_def)

interpretation port: sd_port "sd_readl c E" "sd_writel c E" "sd_idle c" "sd_armed c" "sd_moving c" for c E
  by unfold_locales
    (fact sd_moving_idle sd_port_arg sd_port_start sd_port_quiet sd_port_in sd_port_out sd_port_rsp)+

end
