(* ===== verification/SdTransfer.thy ===== *)
theory SdTransfer
  imports SdPort
begin

text \<open>
  Transfers of the SD card driver over any controller that meets \<open>sd_port\<close>. The kernel's scatter-gather
  iterator enters through \<open>sg_laws\<close>, its documented behaviour; a transfer is followed word by word by an
  invariant between the card and the buffer.
\<close>

unbundle bit_operations_syntax

section \<open>The scatter-gather iterator\<close>

text \<open>
  What is visible of the iterator: the length of the list, the offsets in it at which a chunk that can be mapped ends (the
  ends of its entries and of the pages in them), the offset of the mapped chunk, its length, how much
  of it counts as consumed, and the words of the memory the list describes. \<^verbatim>\<open>sg_miter_next\<close> maps a further chunk,
  not empty and up to one of these ends, until the list is used up; \<^verbatim>\<open>sg_miter_stop\<close> moves past the consumed part.
  Nothing is said of the length of a chunk: the driver moves words only, and answers a chunk that is not made of words with
  \<open>EINVAL\<close>. A request of whole words is one where every end is a multiple of four (\<open>word_ends\<close>).
\<close>

record sg_view =
  v_total :: nat
  v_ends :: "nat list"
  v_pos :: nat
  v_len :: nat
  v_used :: nat
  v_mem :: "nat \<Rightarrow> u32"

definition sg_laws :: "('b, 'g) linux \<Rightarrow> ('g \<Rightarrow> sg_view) \<Rightarrow> bool" where
  "sg_laws K view \<longleftrightarrow>
     (\<forall>d r g. v_total (view (k_sg_start K d r g)) = sum_list (d_sg d) \<and> v_pos (view (k_sg_start K d r g)) = 0 \<and>
        v_used (view (k_sg_start K d r g)) = 0) \<and>
     (\<forall>g. v_pos (view g) + v_used (view g) < v_total (view g) \<longrightarrow>
        (\<exists>g' n. k_sg_next K g = Some g' \<and> 0 < n \<and> v_pos (view g) + v_used (view g) + n \<le> v_total (view g) \<and>
           v_pos (view g) + v_used (view g) + n \<in> set (v_ends (view g)) \<and>
           view g' = (view g)\<lparr>v_pos := v_pos (view g) + v_used (view g), v_len := n, v_used := n\<rparr>)) \<and>
     (\<forall>g. k_sg_length K g = v_len (view g)) \<and>
     (\<forall>g n. n \<le> v_len (view g) \<longrightarrow> view (k_sg_consumed K n g) = (view g)\<lparr>v_used := n\<rparr>) \<and>
     (\<forall>g. view (k_sg_stop K g) = (view g)\<lparr>v_pos := v_pos (view g) + v_used (view g), v_len := 0, v_used := 0\<rparr>) \<and>
     (\<forall>g i. 4 dvd v_pos (view g) \<longrightarrow> 4 * i + 4 \<le> v_len (view g) \<longrightarrow>
        k_buf_read K i g = v_mem (view g) (v_pos (view g) div 4 + i)) \<and>
     (\<forall>g i v. 4 dvd v_pos (view g) \<longrightarrow> 4 * i + 4 \<le> v_len (view g) \<longrightarrow>
        view (k_buf_write K i v g) = (view g)\<lparr>v_mem := (v_mem (view g))(v_pos (view g) div 4 + i := v)\<rparr>)"

definition word_ends :: "sg_view \<Rightarrow> bool" where
  "word_ends s \<longleftrightarrow> list_all ((dvd) 4) (v_ends s)"

lemma sg_laws_start:
  "sg_laws K view \<Longrightarrow> v_total (view (k_sg_start K d r g)) = sum_list (d_sg d)"
  "sg_laws K view \<Longrightarrow> v_pos (view (k_sg_start K d r g)) = 0"
  "sg_laws K view \<Longrightarrow> v_used (view (k_sg_start K d r g)) = 0"
  unfolding sg_laws_def by blast+

lemma sg_laws_next:
  assumes "sg_laws K view" and "v_pos (view g) + v_used (view g) < v_total (view g)"
    and "4 dvd v_pos (view g) + v_used (view g)" and "word_ends (view g)"
  obtains g' n where "k_sg_next K g = Some g'" "0 < n" "4 dvd n" "v_pos (view g) + v_used (view g) + n \<le> v_total (view g)"
    "view g' = (view g)\<lparr>v_pos := v_pos (view g) + v_used (view g), v_len := n, v_used := n\<rparr>"
proof -
  obtain g' n where n: "k_sg_next K g = Some g'" "0 < n" "v_pos (view g) + v_used (view g) + n \<le> v_total (view g)"
    "v_pos (view g) + v_used (view g) + n \<in> set (v_ends (view g))"
    "view g' = (view g)\<lparr>v_pos := v_pos (view g) + v_used (view g), v_len := n, v_used := n\<rparr>"
    using assms(1,2) unfolding sg_laws_def by blast
  have "4 dvd v_pos (view g) + v_used (view g) + n"
    using n(4) assms(4) by (simp add: word_ends_def list_all_iff)
  then have "4 dvd n" using assms(3) by (simp add: dvd_add_right_iff)
  with n show ?thesis by (intro that [of g' n]) simp_all
qed

lemma sg_laws_use:
  "sg_laws K view \<Longrightarrow> k_sg_length K g = v_len (view g)"
  "sg_laws K view \<Longrightarrow> n \<le> v_len (view g) \<Longrightarrow> view (k_sg_consumed K n g) = (view g)\<lparr>v_used := n\<rparr>"
  "sg_laws K view \<Longrightarrow> view (k_sg_stop K g) = (view g)\<lparr>v_pos := v_pos (view g) + v_used (view g), v_len := 0, v_used := 0\<rparr>"
  "sg_laws K view \<Longrightarrow> 4 dvd v_pos (view g) \<Longrightarrow> 4 * i + 4 \<le> v_len (view g) \<Longrightarrow>
     k_buf_read K i g = v_mem (view g) (v_pos (view g) div 4 + i)"
  "sg_laws K view \<Longrightarrow> 4 dvd v_pos (view g) \<Longrightarrow> 4 * i + 4 \<le> v_len (view g) \<Longrightarrow>
     view (k_buf_write K i v g) = (view g)\<lparr>v_mem := (v_mem (view g))(v_pos (view g) div 4 + i := v)\<rparr>"
  unfolding sg_laws_def by blast+

section \<open>Moving words\<close>

text \<open>
  \<open>word_moves\<close>: each word of the mapped chunk can be moved, and takes the relation \<open>R k\<close> between the bus and the memory,
  after \<open>k\<close> words, to \<open>R (k + 1)\<close>, up to \<open>N\<close> words.
\<close>

definition same_chunk :: "sg_view \<Rightarrow> sg_view \<Rightarrow> bool" where
  "same_chunk s t \<longleftrightarrow> v_total t = v_total s \<and> v_ends t = v_ends s \<and> v_pos t = v_pos s \<and> v_len t = v_len s \<and> v_used t = v_used s"

definition word_moves :: "('b, 'g) linux \<Rightarrow> ('g \<Rightarrow> sg_view) \<Rightarrow> bool \<Rightarrow> (nat \<Rightarrow> 'b \<Rightarrow> (nat \<Rightarrow> u32) \<Rightarrow> bool) \<Rightarrow> nat \<Rightarrow> bool" where
  "word_moves K view is_read R N \<longleftrightarrow> (\<forall>k h buf. R k (h_bus h) (v_mem (view (h_sg h))) \<longrightarrow> k < N \<longrightarrow>
     v_pos (view (h_sg h)) + 4 * buf = 4 * k \<longrightarrow> 4 * buf + 4 \<le> v_len (view (h_sg h)) \<longrightarrow>
     (\<exists>b g. pio_word K is_read buf h = Inr (h\<lparr>h_bus := b, h_sg := g\<rparr>) \<and> R (Suc k) b (v_mem (view g)) \<and>
        same_chunk (view (h_sg h)) (view g)))"

lemma moves_word:
  assumes "word_moves K view is_read R N" and "R k (h_bus h) (v_mem (view (h_sg h)))" and "k < N"
    and "v_pos (view (h_sg h)) + 4 * buf = 4 * k" and "4 * buf + 4 \<le> v_len (view (h_sg h))"
  obtains b g where "pio_word K is_read buf h = Inr (h\<lparr>h_bus := b, h_sg := g\<rparr>)" "R (Suc k) b (v_mem (view g))"
    "same_chunk (view (h_sg h)) (view g)"
  using assms unfolding word_moves_def by blast

lemma pio_burst_moves:
  assumes "word_moves K view is_read R N" and "R k (h_bus h) (v_mem (view (h_sg h)))" and "k + n \<le> N"
    and "v_pos (view (h_sg h)) + 4 * buf = 4 * k" and "4 * (buf + n) \<le> v_len (view (h_sg h))"
  shows "\<exists>b g. pio_burst K is_read buf n h = Inr (h\<lparr>h_bus := b, h_sg := g\<rparr>) \<and> R (k + n) b (v_mem (view g)) \<and>
    same_chunk (view (h_sg h)) (view g)"
  using assms(2-)
proof (induction n arbitrary: buf k h)
  case 0
  show ?case by (rule exI [of _ "h_bus h"], rule exI [of _ "h_sg h"]) (use 0 in \<open>simp add: same_chunk_def\<close>)
next
  case (Suc n)
  have k: "k < N" "4 * buf + 4 \<le> v_len (view (h_sg h))" using Suc.prems(2,4) by simp_all
  obtain b g where w: "pio_word K is_read buf h = Inr (h\<lparr>h_bus := b, h_sg := g\<rparr>)" "R (Suc k) b (v_mem (view g))"
      "same_chunk (view (h_sg h)) (view g)"
    by (rule moves_word [OF assms(1) Suc.prems(1) k(1) Suc.prems(3) k(2)])
  let ?h = "h\<lparr>h_bus := b, h_sg := g\<rparr>"
  have "R (Suc k) (h_bus ?h) (v_mem (view (h_sg ?h)))" "Suc k + n \<le> N"
      "v_pos (view (h_sg ?h)) + 4 * Suc buf = 4 * Suc k" "4 * (Suc buf + n) \<le> v_len (view (h_sg ?h))"
    using w(2,3) Suc.prems(2,3,4) by (simp_all add: same_chunk_def)
  from Suc.IH [OF this] obtain b' g' where "pio_burst K is_read (Suc buf) n ?h = Inr (h\<lparr>h_bus := b', h_sg := g'\<rparr>)"
      "R (k + Suc n) b' (v_mem (view g'))" "same_chunk (view g) (view g')" by auto
  then show ?case
    by (intro exI [of _ b'] exI [of _ g']) (use w in \<open>simp add: same_chunk_def\<close>)
qed

lemma pio_copy_moves:
  assumes "word_moves K view is_read R N" and "R k (h_bus h) (v_mem (view (h_sg h)))" and "k + n \<le> N"
    and "v_pos (view (h_sg h)) + 4 * buf = 4 * k" and "4 * (buf + n) \<le> v_len (view (h_sg h))"
  shows "\<exists>b g. pio_copy K is_read buf n h = Inr (h\<lparr>h_bus := b, h_sg := g\<rparr>) \<and> R (k + n) b (v_mem (view g)) \<and>
    same_chunk (view (h_sg h)) (view g)"
  using assms(2-)
proof (induction n arbitrary: buf k h rule: less_induct)
  case (less n)
  show ?case
  proof (cases "n = 0")
    case True
    show ?thesis
      by (rule exI [of _ "h_bus h"], rule exI [of _ "h_sg h"])
        (use True less.prems(1) in \<open>simp add: pio_copy.simps same_chunk_def\<close>)
  next
    case False
    have m: "k + min 8 n \<le> N" "4 * (buf + min 8 n) \<le> v_len (view (h_sg h))"
      using less.prems(2,4) by (auto simp: min_def)
    obtain b g where w: "pio_burst K is_read buf (min 8 n) h = Inr (h\<lparr>h_bus := b, h_sg := g\<rparr>)"
        "R (k + min 8 n) b (v_mem (view g))" "same_chunk (view (h_sg h)) (view g)"
      using pio_burst_moves [OF assms(1) less.prems(1) m(1) less.prems(3) m(2)] by blast
    have "n - min 8 n < n" and n: "n - min 8 n + min 8 n = n" using False by simp_all
    from less.IH [OF this(1), of "k + min 8 n" "h\<lparr>h_bus := b, h_sg := g\<rparr>" "buf + min 8 n"] w less.prems
    obtain b' g' where "pio_copy K is_read (buf + min 8 n) (n - min 8 n) (h\<lparr>h_bus := b, h_sg := g\<rparr>) =
        Inr (h\<lparr>h_bus := b', h_sg := g'\<rparr>)" "R (k + min 8 n + (n - min 8 n)) b' (v_mem (view g'))"
        "same_chunk (view g) (view g')"
      by (auto simp: same_chunk_def)
    moreover have "k + min 8 n + (n - min 8 n) = k + n" by simp
    ultimately show ?thesis
      using w False by (auto simp: pio_copy.simps [of K is_read buf n h] pio_words_eq same_chunk_def)
  qed
qed

definition same_list :: "sg_view \<Rightarrow> sg_view \<Rightarrow> bool" where
  "same_list s t \<longleftrightarrow> v_total t = v_total s \<and> v_ends t = v_ends s"

lemma same_list_ends: "same_list s t \<Longrightarrow> word_ends t = word_ends s"
  by (simp add: same_list_def word_ends_def)

text \<open>One unit of fuel per chunk.\<close>

lemma pio_chunks_moves:
  assumes "word_moves K view is_read R N" and "sg_laws K view" and "R k (h_bus h) (v_mem (view (h_sg h)))" and "k + n \<le> N"
    and "v_pos (view (h_sg h)) + v_used (view (h_sg h)) = 4 * k" and "4 * (k + n) \<le> v_total (view (h_sg h))"
    and "4 * n \<le> fuel" and "word_ends (view (h_sg h))"
  shows "\<exists>b g. pio_chunks K is_read fuel (4 * n) h = Inr (h\<lparr>h_bus := b, h_sg := g\<rparr>) \<and> R (k + n) b (v_mem (view g)) \<and>
    v_pos (view g) + v_used (view g) = 4 * (k + n) \<and> same_list (view (h_sg h)) (view g)"
  using assms(3-)
proof (induction fuel arbitrary: n k h)
  case 0
  show ?case by (rule exI [of _ "h_bus h"], rule exI [of _ "h_sg h"]) (use 0 in \<open>simp add: same_list_def\<close>)
next
  case (Suc fuel)
  show ?case
  proof (cases "n = 0")
    case True
    then show ?thesis
      by (intro exI [of _ "h_bus h"] exI [of _ "h_sg h"]) (use Suc.prems in \<open>simp add: same_list_def\<close>)
  next
    case False
    let ?g = "h_sg h"
    obtain g l where g: "k_sg_next K ?g = Some g" "0 < l" "4 dvd l"
        "v_pos (view ?g) + v_used (view ?g) + l \<le> v_total (view ?g)"
        "view g = (view ?g)\<lparr>v_pos := v_pos (view ?g) + v_used (view ?g), v_len := l, v_used := l\<rparr>"
      by (rule sg_laws_next [OF assms(2), of ?g]) (use Suc.prems(3,4,6) False in auto)
    obtain l4 where l4: "l = 4 * l4" using g(3) by auto
    let ?m = "min l4 n"
    have len: "k_sg_length K g = 4 * l4" using sg_laws_use(1) [OF assms(2)] g(5) l4 by simp
    have mn: "min (4 * l4) (4 * n) = 4 * ?m" by simp
    have c: "view (k_sg_consumed K (4 * ?m) g) = (view g)\<lparr>v_used := 4 * ?m\<rparr>"
      by (rule sg_laws_use(2) [OF assms(2)]) (use g(5) l4 in simp)
    have kN: "k + ?m \<le> N" using Suc.prems(2) by linarith
    let ?h1 = "h\<lparr>h_sg := k_sg_consumed K (4 * ?m) g\<rparr>"
    obtain b g' where w: "pio_copy K is_read 0 ?m ?h1 = Inr (?h1\<lparr>h_bus := b, h_sg := g'\<rparr>)"
        "R (k + ?m) b (v_mem (view g'))" "same_chunk (view (h_sg ?h1)) (view g')"
      using pio_copy_moves [OF assms(1), of k ?h1 ?m 0] Suc.prems(1,3) kN c g(5) l4 by auto
    let ?h2 = "h\<lparr>h_bus := b, h_sg := g'\<rparr>"
    have s: "v_pos (view g') + v_used (view g') = 4 * (k + ?m)" "same_list (view ?g) (view g')"
      using w(3) c g(5) Suc.prems(3) by (auto simp: same_chunk_def same_list_def)
    then have we: "word_ends (view g')" "v_total (view g') = v_total (view ?g)"
      using Suc.prems(6) same_list_ends [OF s(2)] by (simp_all add: same_list_def)
    have r: "4 * n - 4 * ?m = 4 * (n - ?m)" "k + ?m + (n - ?m) = k + n" "0 < ?m" using g(2) l4 False by auto
    then have "4 * (n - ?m) \<le> fuel" using Suc.prems(5) by linarith
    with Suc.IH [of "k + ?m" ?h2 "n - ?m"] w(2) s(1) we r(2) Suc.prems(2,4)
    obtain b' g'' where "pio_chunks K is_read fuel (4 * (n - ?m)) ?h2 = Inr (h\<lparr>h_bus := b', h_sg := g''\<rparr>)"
        "R (k + n) b' (v_mem (view g''))" "v_pos (view g'') + v_used (view g'') = 4 * (k + n)"
        "same_list (view g') (view g'')" by auto
    moreover from this(4) s(2) have "same_list (view ?g) (view g'')" by (simp add: same_list_def)
    ultimately show ?thesis
      by (intro exI [of _ b'] exI [of _ g''])
        (use False w(1) in \<open>simp add: g(1) len mn r(1) Let_def del: min_mult_distrib_left\<close>)
  qed
qed

lemma host_data_moved [simp]: "host_data (h\<lparr>h_bus := b, h_sg := g\<rparr>) = host_data h"
  by (simp add: host_data_def the_data_def the_mrq_def)

lemma transfer_block_moves:
  assumes "word_moves K view is_read R N" and "sg_laws K view" and "host_data h = Inr d" and "unat (d_blksz d) = 4 * n"
    and "R k (h_bus h) (v_mem (view (h_sg h)))" and "k + n \<le> N"
    and "v_pos (view (h_sg h)) + v_used (view (h_sg h)) = 4 * k" and "4 * (k + n) \<le> v_total (view (h_sg h))"
    and "word_ends (view (h_sg h))"
  shows "\<exists>b g. nemu_transfer_block_pio K is_read h = Inr (h\<lparr>h_bus := b, h_sg := g\<rparr>) \<and> R (k + n) b (v_mem (view g)) \<and>
    v_pos (view g) + v_used (view g) = 4 * (k + n) \<and> same_list (view (h_sg h)) (view g)"
proof -
  obtain b g where "pio_chunks K is_read (4 * n) (4 * n) h = Inr (h\<lparr>h_bus := b, h_sg := g\<rparr>)"
      "R (k + n) b (v_mem (view g))" "v_pos (view g) + v_used (view g) = 4 * (k + n)"
      "same_list (view (h_sg h)) (view g)"
    using pio_chunks_moves [OF assms(1,2,5-8) _ assms(9)] by blast
  then show ?thesis
    by (intro exI [of _ b] exI [of _ "k_sg_stop K g"])
      (use assms(3,4) sg_laws_use(3) [OF assms(2)] in \<open>simp add: nemu_transfer_block_pio_def same_list_def\<close>)
qed

lemma transfer_blocks_moves:
  assumes "word_moves K view (flag (d_flags d) (k_DATA_READ K)) R N" and "sg_laws K view" and "host_data h = Inr d"
    and "unat (d_blksz d) = 4 * n" and "R k (h_bus h) (v_mem (view (h_sg h)))" and "k + bs * n \<le> N"
    and "v_pos (view (h_sg h)) + v_used (view (h_sg h)) = 4 * k" and "4 * (k + bs * n) \<le> v_total (view (h_sg h))"
    and "word_ends (view (h_sg h))"
  shows "\<exists>b g. transfer_blocks K bs h = Inr (h\<lparr>h_bus := b, h_sg := g\<rparr>) \<and> R (k + bs * n) b (v_mem (view g))"
  using assms(3,5-)
proof (induction bs arbitrary: k h)
  case 0
  show ?case by (rule exI [of _ "h_bus h"], rule exI [of _ "h_sg h"]) (use 0 in simp)
next
  case (Suc bs)
  obtain b g where w: "nemu_transfer_block_pio K (flag (d_flags d) (k_DATA_READ K)) h = Inr (h\<lparr>h_bus := b, h_sg := g\<rparr>)"
      "R (k + n) b (v_mem (view g))" "v_pos (view g) + v_used (view g) = 4 * (k + n)"
      "same_list (view (h_sg h)) (view g)"
    using transfer_block_moves [OF assms(1,2) Suc.prems(1) assms(4) Suc.prems(2) _ Suc.prems(4)] Suc.prems(3,5,6) by auto
  note l = w(4) [unfolded same_list_def] same_list_ends [OF w(4)]
  have "host_data (h\<lparr>h_bus := b, h_sg := g\<rparr>) = Inr d" using Suc.prems(1) by simp
  with Suc.IH [of "h\<lparr>h_bus := b, h_sg := g\<rparr>" "k + n"] w l Suc.prems
  show ?case by (auto simp: nemu_transfer_pio_def algebra_simps)
qed

end
