(* ===== verification/SdDriver.thy ===== *)
theory SdDriver
  imports SdTransfer
begin

text \<open>
  Whole requests of the SD card driver: a transfer of several blocks, with or without the command that announces
  their number and the one that ends it, on any controller that meets \<open>sd_port\<close>.
\<close>

unbundle bit_operations_syntax

section \<open>Requests\<close>

text \<open>What a request keeps of a command besides the response, and requests that differ in responses only.\<close>

definition cmd_key :: "mmc_command \<Rightarrow> u32 \<times> u32 \<times> u32 \<times> bool \<times> int" where
  "cmd_key c = (c_opcode c, c_arg c, c_flags c, c_data c, c_error c)"

definition like :: "mmc_request \<Rightarrow> mmc_request \<Rightarrow> bool" where
  "like r r' \<longleftrightarrow> r_data r' = r_data r \<and> (\<forall>w. map_option cmd_key (get_cmd w r') = map_option cmd_key (get_cmd w r))"

lemma like_refl [simp]: "like r r"
  by (simp add: like_def)

lemma like_trans: "like r r1 \<Longrightarrow> like r1 r2 \<Longrightarrow> like r r2"
  by (simp add: like_def)

lemma get_cmd_data [simp]: "get_cmd w (r\<lparr>r_data := x\<rparr>) = get_cmd w r"
  by (cases w) simp_all

lemma like_data: "like r r' \<Longrightarrow> like (r\<lparr>r_data := x\<rparr>) (r'\<lparr>r_data := x\<rparr>)"
  by (simp add: like_def)

definition quiet_cmd :: "('b, 'g) linux \<Rightarrow> u32 \<Rightarrow> mmc_command \<Rightarrow> bool" where
  "quiet_cmd K op c \<longleftrightarrow> c_opcode c = op \<and> \<not> c_data c \<and> \<not> flag (c_flags c) (k_RSP_136 K)"

definition transfer_cmd :: "('b, 'g) linux \<Rightarrow> bool \<Rightarrow> u32 \<Rightarrow> mmc_command \<Rightarrow> bool" where
  "transfer_cmd K w blk c \<longleftrightarrow> c_opcode c = (if w then 25 else 18) \<and> c_data c \<and> \<not> flag (c_flags c) (k_RSP_136 K) \<and>
     c_arg c = blk"

definition transfer_request :: "('b, 'g) linux \<Rightarrow> bool \<Rightarrow> u32 \<Rightarrow> mmc_data \<Rightarrow> nat \<Rightarrow> mmc_request \<Rightarrow> bool" where
  "transfer_request K w blk d n r \<longleftrightarrow>
     (\<exists>c. r_cmd r = Some c \<and> transfer_cmd K w blk c) \<and> r_data r = Some d \<and>
     (\<forall>c. r_sbc r = Some c \<longrightarrow> quiet_cmd K 23 c) \<and> (\<forall>c. r_stop r = Some c \<longrightarrow> quiet_cmd K 12 c) \<and>
     flag (d_flags d) (k_DATA_READ K) = (\<not> w) \<and> k_is_power_of_2 K (d_blksz d) \<and>
     unat (d_blksz d) = 4 * n \<and> sum_list (d_sg d) = 4 * (unat (d_blocks d) * n)"

lemma quiet_cmd_key: "cmd_key c' = cmd_key c \<Longrightarrow> quiet_cmd K op c' = quiet_cmd K op c"
  by (simp add: cmd_key_def quiet_cmd_def)

lemma transfer_cmd_key: "cmd_key c' = cmd_key c \<Longrightarrow> transfer_cmd K w blk c' = transfer_cmd K w blk c"
  by (simp add: cmd_key_def transfer_cmd_def)

lemma like_cmd:
  "like r r' \<Longrightarrow> get_cmd w r = Some c \<Longrightarrow> \<exists>c'. get_cmd w r' = Some c' \<and> cmd_key c' = cmd_key c"
  "like r r' \<Longrightarrow> get_cmd w r' = Some c' \<Longrightarrow> \<exists>c. get_cmd w r = Some c \<and> cmd_key c = cmd_key c'"
  unfolding like_def by (metis map_option_eq_Some option.simps(9))+

lemma transfer_request_like:
  assumes "like r r'" and "transfer_request K w blk d n r" shows "transfer_request K w blk d n r'"
proof -
  have d: "r_data r' = r_data r" using assms(1) by (simp add: like_def)
  have c: "\<exists>c. r_cmd r' = Some c \<and> transfer_cmd K w blk c"
  proof -
    obtain c where c: "get_cmd W_cmd r = Some c" "transfer_cmd K w blk c"
      using assms(2) by (auto simp: transfer_request_def)
    obtain c' where "get_cmd W_cmd r' = Some c'" "cmd_key c' = cmd_key c"
      using like_cmd(1) [OF assms(1) c(1)] by blast
    then show ?thesis using transfer_cmd_key [of c' c K w blk] c(2) by simp
  qed
  have q: "quiet_cmd K op c'"
    if "get_cmd x r' = Some c'" "\<And>c. get_cmd x r = Some c \<Longrightarrow> quiet_cmd K op c" for x op c'
    using like_cmd(2) [OF assms(1) that(1)] that(2) quiet_cmd_key by metis
  have s: "quiet_cmd K 23 c'" if "r_sbc r' = Some c'" for c'
    by (rule q [of W_sbc]) (use that assms(2) in \<open>simp_all add: transfer_request_def\<close>)
  have t: "quiet_cmd K 12 c'" if "r_stop r' = Some c'" for c'
    by (rule q [of W_stop]) (use that assms(2) in \<open>simp_all add: transfer_request_def\<close>)
  show ?thesis using assms(2) d c s t by (simp add: transfer_request_def)
qed

lemma transfer_request_reset:
  assumes "transfer_request K w blk d n r"
  shows "transfer_request K w blk (d\<lparr>d_error := 0\<rparr>) n (reset_errors r)"
  using assms by (auto simp: transfer_request_def reset_errors_def Let_def transfer_cmd_def quiet_cmd_def)

text \<open>The command register holds the opcode in its low six bits.\<close>

lemma sdcmd_word_low: "(sdcmd_word K c d OR SDCMD_NEW_FLAG) AND 0x3f = c_opcode c AND 0x3f"
  by (simp add: sdcmd_word_def Let_def sdcmd_flags word_ao_dist word_bw_assocs split: option.split)

section \<open>Single steps\<close>

context sd_port
begin

lemma send_quiet:
  assumes "k_writel K = wr" and "h_cmd h = None" and "\<not> h_data h" and "h_mrq h = Some r" and "get_cmd x r = Some c"
    and "quiet_cmd K op c" and "op \<in> {12, 23}" and "idle f (h_bus h)"
  shows "\<exists>b. nemu_send_command K x h = Inr (h\<lparr>h_cmd := Some x, h_data := False, h_bus := b\<rparr>) \<and> idle f b"
proof -
  obtain b1 where b1: "wr (c_arg c) DRV_SDARG (h_bus h) = Inr b1" "armed f (c_arg c) b1"
    using port_arg [OF assms(8)] by blast
  let ?v = "sdcmd_word K c None OR SDCMD_NEW_FLAG"
  have "?v AND 0x3f \<in> {12, 23}" using assms(6,7) by (auto simp: sdcmd_word_low quiet_cmd_def)
  from port_quiet [OF b1(2) this] obtain b2 where "wr ?v DRV_SDCMD b1 = Inr b2" "idle f b2" by blast
  with assms b1 show ?thesis
    by (intro exI [of _ b2]) (simp add: nemu_send_command_def WARN_ON_def Let_def the_cmd_def the_mrq_def
        nemu_prepare_data_def bus_writel_def quiet_cmd_def)
qed

lemma send_transfer:
  assumes "k_writel K = wr" and "h_cmd h = None" and "\<not> h_data h" and "h_mrq h = Some r"
    and "transfer_request K w blk d n r" and "idle f (h_bus h)"
  shows "\<exists>b. nemu_send_command K W_cmd h = Inr (h\<lparr>h_cmd := Some W_cmd, h_data := True, h_data_complete := False,
      h_mrq := Some (r\<lparr>r_data := Some (d\<lparr>d_bytes_xfered := 0\<rparr>)\<rparr>), h_sg := k_sg_start K d (\<not> w) (h_sg h),
      h_blocks := d_blocks d, h_bus := b\<rparr>) \<and> moving w f (unat blk * 512) b"
proof -
  obtain c where c: "r_cmd r = Some c" "transfer_cmd K w blk c" using assms(5) by (auto simp: transfer_request_def)
  obtain b1 where b1: "wr blk DRV_SDARG (h_bus h) = Inr b1" "armed f blk b1"
    using port_arg [OF assms(6)] by blast
  let ?v = "sdcmd_word K c (Some (d\<lparr>d_bytes_xfered := 0\<rparr>)) OR SDCMD_NEW_FLAG"
  have "?v AND 0x3f = (if w then 25 else 18)" using c(2) by (auto simp: sdcmd_word_low transfer_cmd_def)
  from port_start [OF b1(2) this] obtain b2 where "wr ?v DRV_SDCMD b1 = Inr b2" "moving w f (unat blk * 512) b2" by blast
  with assms c b1 show ?thesis
    by (intro exI [of _ b2]) (simp add: nemu_send_command_def WARN_ON_def Let_def the_cmd_def the_mrq_def
        nemu_prepare_data_def bus_writel_def transfer_cmd_def transfer_request_def the_data_def upd_data_def)
qed

lemma read_rsp:
  assumes "k_readl K = rd" and "h_mrq h = Some r" and "get_cmd x r = Some c" and "\<not> flag (c_flags c) (k_RSP_136 K)"
    and "idle f (h_bus h)"
  shows "\<exists>r' b. read_response K x h = Inr (h\<lparr>h_mrq := Some r', h_bus := b\<rparr>) \<and> like r r' \<and> idle f b"
proof (cases "flag (c_flags c) (k_RSP_PRESENT K)")
  case True
  obtain v b where b: "rd DRV_SDRSP0 (h_bus h) = Inr (v, b)" "idle f b" using port_rsp [OF assms(5)] by blast
  let ?r = "map_cmd x (\<lambda>c. c\<lparr>c_resp := (c_resp c)(0 := v)\<rparr>) r"
  have "get_cmd y ?r = (if y = x then map_option (\<lambda>c. c\<lparr>c_resp := (c_resp c)(0 := v)\<rparr>) (get_cmd y r) else get_cmd y r)" for y
    by (cases x; cases y) simp_all
  moreover have "map_option cmd_key (map_option (\<lambda>c. c\<lparr>c_resp := (c_resp c)(0 := v)\<rparr>) p) = map_option cmd_key p" for p
    by (cases p) (simp_all add: cmd_key_def)
  moreover have "r_data ?r = r_data r" by (cases x) simp_all
  ultimately have "like r ?r" by (simp add: like_def)
  with True b assms show ?thesis
    by (intro exI [of _ ?r] exI [of _ b]) (simp add: read_response_def the_cmd_def the_mrq_def bus_readl_def upd_cmd_def)
next
  case False
  with assms show ?thesis
    by (intro exI [of _ r] exI [of _ "h_bus h"]) (simp add: read_response_def the_cmd_def the_mrq_def)
qed

section \<open>From the transfer to the end of the request\<close>

text \<open>
  The answer to the transfer command, after the data: the request ends, with the stop command where it has one and the
  number of blocks was not announced.
\<close>

lemma finish_transfer:
  assumes "k_readl K = rd" and "k_writel K = wr" and "h_cmd h = Some W_cmd" and "h_data h" and "h_data_complete h"
    and "h_mrq h = Some r" and "transfer_request K w blk d n r" and "idle f (h_bus h)"
  shows "\<exists>r' h'. nemu_finish_command K (Suc (Suc (Suc fuel))) h = Inr h' \<and> like r r' \<and> idle f (h_bus h') \<and>
    h_mrq h' = None \<and> h_cmd h' = None \<and> \<not> h_data h' \<and> h_done h' = h_done h @ [r'] \<and> h_sg h' = h_sg h \<and>
    h_warnings h' = h_warnings h"
proof -
  obtain c where c: "get_cmd W_cmd r = Some c" "\<not> flag (c_flags c) (k_RSP_136 K)"
    using assms(7) by (auto simp: transfer_request_def transfer_cmd_def)
  obtain r1 b1 where r1: "read_response K W_cmd h = Inr (h\<lparr>h_mrq := Some r1, h_bus := b1\<rparr>)" "like r r1" "idle f b1"
    using read_rsp [OF assms(1,6) c assms(8)] by blast
  have t1: "transfer_request K w blk d n r1" by (rule transfer_request_like [OF r1(2) assms(7)])
  let ?h1 = "h\<lparr>h_mrq := Some r1, h_bus := b1, h_cmd := None\<rparr>"
  have f1: "nemu_finish_command K (Suc (Suc (Suc fuel))) h = nemu_transfer_complete K (Suc (Suc fuel)) ?h1"
    using assms(3-5) r1(1) by (simp del: nemu_transfer_complete.simps)
  have d: "host_data ?h1 = Inr d"
    using assms(4) t1 by (simp add: host_data_def the_data_def the_mrq_def transfer_request_def)
  let ?stop = "r_stop r1 \<noteq> None \<and> (d_error d \<noteq> 0 \<or> \<not> h_use_sbc h)"
  let ?h2 = "?h1\<lparr>h_data := False\<rparr>"
  have f2: "nemu_transfer_complete K (Suc (Suc fuel)) ?h1 =
      (if ?stop then bindE (nemu_send_command K W_stop ?h2) (nemu_finish_command K (Suc fuel)) else nemu_finish_request ?h2)"
    using assms(5) d by (auto simp: WARN_ON_def Let_def the_mrq_def simp del: nemu_finish_command.simps)
  show ?thesis
    unfolding trans [OF f1 f2]
  proof (cases ?stop)
    case False
    then show "\<exists>r' h'. (if ?stop then bindE (nemu_send_command K W_stop ?h2) (nemu_finish_command K (Suc fuel))
        else nemu_finish_request ?h2) = Inr h' \<and> like r r' \<and> idle f (h_bus h') \<and>
      h_mrq h' = None \<and> h_cmd h' = None \<and> \<not> h_data h' \<and> h_done h' = h_done h @ [r'] \<and> h_sg h' = h_sg h \<and>
      h_warnings h' = h_warnings h"
      unfolding if_not_P [OF False] using r1 by (simp add: nemu_finish_request_def the_mrq_def)
  next
    case True
    then obtain s where s: "get_cmd W_stop r1 = Some s" "quiet_cmd K 12 s"
      using t1 by (auto simp: transfer_request_def)
    obtain b2 where b2: "nemu_send_command K W_stop ?h2 = Inr (?h2\<lparr>h_cmd := Some W_stop, h_data := False, h_bus := b2\<rparr>)"
        "idle f b2"
      using send_quiet [OF assms(2), of ?h2 r1 W_stop s 12 f] s r1(3) by auto
    let ?h3 = "?h2\<lparr>h_cmd := Some W_stop, h_data := False, h_bus := b2\<rparr>"
    obtain r3 b3 where r3: "read_response K W_stop ?h3 = Inr (?h3\<lparr>h_mrq := Some r3, h_bus := b3\<rparr>)" "like r1 r3" "idle f b3"
      using read_rsp [OF assms(1), of ?h3 r1 W_stop s f] s b2(2) by (auto simp: quiet_cmd_def)
    have "nemu_finish_command K (Suc fuel) ?h3 = nemu_finish_request (?h3\<lparr>h_mrq := Some r3, h_bus := b3\<rparr>)"
      using r3(1) by simp
    then show "\<exists>r' h'. (if ?stop then bindE (nemu_send_command K W_stop ?h2) (nemu_finish_command K (Suc fuel))
        else nemu_finish_request ?h2) = Inr h' \<and> like r r' \<and> idle f (h_bus h') \<and>
      h_mrq h' = None \<and> h_cmd h' = None \<and> \<not> h_data h' \<and> h_done h' = h_done h @ [r'] \<and> h_sg h' = h_sg h \<and>
      h_warnings h' = h_warnings h"
      unfolding if_P [OF True] using b2(1) r3 like_trans [OF r1(2) r3(2)]
      by (simp add: nemu_finish_request_def the_mrq_def del: nemu_finish_command.simps)
  qed
qed

text \<open>Sending the transfer command, its data and its end, as \<^verbatim>\<open>nemu_request\<close> and the end of command 23 do.\<close>

end

definition transfer_phase :: "('b, 'g) linux \<Rightarrow> nat \<Rightarrow> ('b, 'g) nemu_host \<Rightarrow> ('b, 'g) nemu_host res" where
  "transfer_phase K n h = bindE (nemu_send_command K W_cmd h) (\<lambda>h2.
     bindE (if h_data h2
            then bindE (the_data h2) (\<lambda>d. bindE (transfer_blocks K (unat (d_blocks d)) h2) (nemu_finish_data K n))
            else Inr h2)
       (nemu_finish_command K n))"

context sd_port
begin

text \<open>The transfer command with its data; \<open>R\<close> follows the words as in \<open>word_moves\<close>.\<close>

lemma data_command:
  assumes "k_readl K = rd" and "k_writel K = wr" and "sg_laws K view"
    and "word_ends (view (k_sg_start K d (\<not> w) (h_sg h)))" and "\<not> k_debug K"
    and "h_cmd h = None" and "\<not> h_data h" and "h_mrq h = Some r"
    and "transfer_request K w blk d n r" and "d_error d = 0" and "idle f (h_bus h)"
    and R0: "\<forall>b. moving w f (unat blk * 512) b \<longrightarrow> R 0 b (v_mem (view (k_sg_start K d (\<not> w) (h_sg h))))"
    and R: "word_moves K view (\<not> w) R (unat (d_blocks d) * n)"
    and RN: "\<forall>b m. R (unat (d_blocks d) * n) b m \<longrightarrow> idle f' b"
    and "3 \<le> m"
  shows "\<exists>r' h' b'. transfer_phase K m h = Inr h' \<and>
    like (r\<lparr>r_data := Some (d\<lparr>d_bytes_xfered := d_blksz d * d_blocks d\<rparr>)\<rparr>) r' \<and> idle f' (h_bus h') \<and>
    h_mrq h' = None \<and> h_cmd h' = None \<and> \<not> h_data h' \<and> h_done h' = h_done h @ [r'] \<and>
    R (unat (d_blocks d) * n) b' (v_mem (view (h_sg h'))) \<and> h_warnings h' = h_warnings h"
proof -
  obtain fuel where m: "m = Suc (Suc (Suc fuel))" using assms(15) by (metis numeral_3_eq_3 Suc_le_D Suc_le_mono)
  let ?N = "unat (d_blocks d) * n" and ?f = "Suc (Suc (Suc fuel))"
  let ?d0 = "d\<lparr>d_bytes_xfered := 0\<rparr>"
  let ?g = "k_sg_start K d (\<not> w) (h_sg h)"
  obtain b where b: "nemu_send_command K W_cmd h = Inr (h\<lparr>h_cmd := Some W_cmd, h_data := True, h_data_complete := False,
      h_mrq := Some (r\<lparr>r_data := Some ?d0\<rparr>), h_sg := ?g, h_blocks := d_blocks d, h_bus := b\<rparr>)"
      "moving w f (unat blk * 512) b"
    using send_transfer [OF assms(2,6-9,11)] by blast
  define h2 where "h2 = h\<lparr>h_cmd := Some W_cmd, h_data := True, h_data_complete := False,
      h_mrq := Some (r\<lparr>r_data := Some ?d0\<rparr>), h_sg := ?g, h_blocks := d_blocks d, h_bus := b\<rparr>"
  have hd: "the_data h2 = Inr ?d0" "host_data h2 = Inr ?d0" "h_data h2"
    by (simp_all add: h2_def host_data_def the_data_def the_mrq_def)
  have t: "flag (d_flags d) (k_DATA_READ K) = (\<not> w)" "unat (d_blksz d) = 4 * n" "sum_list (d_sg d) = 4 * ?N"
    using assms(9) by (simp_all add: transfer_request_def)
  have sg: "h_sg h2 = ?g" "h_bus h2 = b" by (simp_all add: h2_def)
  obtain b1 g1 where tr: "transfer_blocks K (unat (d_blocks d)) h2 = Inr (h2\<lparr>h_bus := b1, h_sg := g1\<rparr>)"
      "R ?N b1 (v_mem (view g1))"
    using transfer_blocks_moves [of K view ?d0 R ?N h2 n 0 "unat (d_blocks d)"] R assms(3,4) hd(2) t R0 b(2) sg
      sg_laws_start [OF assms(3)] by auto
  let ?d1 = "d\<lparr>d_bytes_xfered := d_blksz d * d_blocks d\<rparr>"
  define r1 where "r1 = r\<lparr>r_data := Some ?d1\<rparr>"
  define h3 where "h3 = h2\<lparr>h_bus := b1, h_sg := g1, h_mrq := Some r1, h_data_complete := True\<rparr>"
  have fd: "nemu_finish_data K ?f (h2\<lparr>h_bus := b1, h_sg := g1\<rparr>) = Inr h3"
    using hd assms(5,10) by (simp add: h3_def upd_data_def r1_def) (simp add: h2_def)
  have "transfer_request K w blk ?d1 n r1" using assms(9) by (simp add: transfer_request_def r1_def)
  then obtain r' h' where fin: "nemu_finish_command K ?f h3 = Inr h'" "like r1 r'" "idle f' (h_bus h')"
      "h_mrq h' = None" "h_cmd h' = None" "\<not> h_data h'" "h_done h' = h_done h3 @ [r']" "h_sg h' = h_sg h3"
      "h_warnings h' = h_warnings h3"
    using finish_transfer [OF assms(1,2), of h3 r1 w blk ?d1 n f' fuel] RN tr(2)
    by (auto simp: h3_def h2_def simp del: nemu_finish_command.simps)
  show ?thesis
    by (rule exI [of _ r'], rule exI [of _ h'], rule exI [of _ b1])
      (use b(1) [folded h2_def] hd tr fd fin in \<open>simp add: r1_def h3_def h2_def [THEN arg_cong, of h_done]
        h2_def [THEN arg_cong, of h_warnings] m transfer_phase_def
        del: nemu_finish_command.simps nemu_finish_data.simps\<close>)
qed

text \<open>The whole request. Seven units of fuel are enough for every request.\<close>

lemma request_moves:
  assumes "k_readl K = rd" and "k_writel K = wr" and "sg_laws K view"
    and "word_ends (view (k_sg_start K (d\<lparr>d_error := 0\<rparr>) (\<not> w) (h_sg h)))" and "\<not> k_debug K"
    and "h_cmd h = None" and "\<not> h_data h" and "h_mrq h = None"
    and "transfer_request K w blk d n r" and "idle f (h_bus h)"
    and R0: "\<forall>b. moving w f (unat blk * 512) b \<longrightarrow>
      R 0 b (v_mem (view (k_sg_start K (d\<lparr>d_error := 0\<rparr>) (\<not> w) (h_sg h))))"
    and R: "word_moves K view (\<not> w) R (unat (d_blocks d) * n)"
    and RN: "\<forall>b m. R (unat (d_blocks d) * n) b m \<longrightarrow> idle f' b"
  shows "\<exists>r' h' b'. nemu_request K r h = Inr h' \<and>
    like ((reset_errors r)\<lparr>r_data := Some (d\<lparr>d_error := 0, d_bytes_xfered := d_blksz d * d_blocks d\<rparr>)\<rparr>) r' \<and>
    idle f' (h_bus h') \<and> h_mrq h' = None \<and> h_cmd h' = None \<and> \<not> h_data h' \<and> h_done h' = h_done h @ [r'] \<and>
    R (unat (d_blocks d) * n) b' (v_mem (view (h_sg h'))) \<and> h_warnings h' = h_warnings h"
proof -
  let ?r = "reset_errors r" and ?d = "d\<lparr>d_error := 0\<rparr>"
  have t: "transfer_request K w blk ?d n ?r" by (rule transfer_request_reset [OF assms(9)])
  have p: "r_data ?r = Some ?d" "k_is_power_of_2 K (d_blksz d)" "flag (d_flags d) (k_DATA_READ K) = (\<not> w)"
    using t by (simp_all add: transfer_request_def)
  define sbc where "sbc = (r_sbc ?r \<noteq> None \<and> \<not> w)"
  define h1 where "h1 = h\<lparr>h_mrq := Some ?r, h_use_sbc := sbc\<rparr>"
  have h1: "h_cmd h1 = None" "\<not> h_data h1" "h_mrq h1 = Some ?r" "h_bus h1 = h_bus h" "h_sg h1 = h_sg h"
      "h_done h1 = h_done h" "h_warnings h1 = h_warnings h" "h_use_sbc h1 = sbc"
    using assms(6-8) by (simp_all add: h1_def)
  have R0': "\<forall>b. moving w f (unat blk * 512) b \<longrightarrow> R 0 b (v_mem (view (k_sg_start K ?d (\<not> w) (h_sg h))))"
    using R0 by simp
  have R': "word_moves K view (\<not> w) R (unat (d_blocks ?d) * n)" and RN': "\<forall>b m. R (unat (d_blocks ?d) * n) b m \<longrightarrow> idle f' b"
    and e0: "d_error ?d = 0"
    using R RN by simp_all
  show ?thesis
  proof (cases sbc)
    case False
    have "nemu_request K r h = transfer_phase K 7 h1"
      using p t False assms(8) h1(8)
      by (simp add: nemu_request_def WARN_ON_def Let_def h1_def sbc_def transfer_request_def transfer_phase_def
          del: nemu_finish_command.simps nemu_finish_data.simps) auto
    with data_command [where m = 7, OF assms(1-3) assms(4) [folded h1(5)] assms(5) h1(1-3) t e0 assms(10) [folded h1(4)] R0' [folded h1(5)] R' RN'] h1(5-7)
    show ?thesis by simp
  next
    case True
    then obtain s where s: "get_cmd W_sbc ?r = Some s" "quiet_cmd K 23 s"
      using t by (auto simp: transfer_request_def sbc_def)
    obtain b2 where b2: "nemu_send_command K W_sbc h1 = Inr (h1\<lparr>h_cmd := Some W_sbc, h_data := False, h_bus := b2\<rparr>)" "idle f b2"
      using send_quiet [OF assms(2) h1(1-3) s, of f] assms(10) h1(4) by auto
    have sw: "\<exists>y. r_sbc ?r = Some y" "\<not> w" and he: "h\<lparr>h_mrq := Some ?r, h_use_sbc := True\<rparr> = h1"
      using True by (auto simp: sbc_def h1_def)
    define h2 where "h2 = h1\<lparr>h_cmd := Some W_sbc, h_data := False, h_bus := b2\<rparr>"
    have h2: "h_mrq h2 = Some ?r" "h_bus h2 = b2" "h_cmd h2 = Some W_sbc" using h1(3) by (simp_all add: h2_def)
    obtain r3 b3 where r3: "read_response K W_sbc h2 = Inr (h2\<lparr>h_mrq := Some r3, h_bus := b3\<rparr>)" "like ?r r3" "idle f b3"
      using read_rsp [OF assms(1) h2(1) s(1), of f] s(2) b2(2) h2(2) by (auto simp: quiet_cmd_def)
    define h3 where "h3 = h2\<lparr>h_mrq := Some r3, h_bus := b3, h_cmd := None\<rparr>"
    have h3: "h_cmd h3 = None" "\<not> h_data h3" "h_mrq h3 = Some r3" "h_bus h3 = b3" "h_sg h3 = h_sg h"
        "h_done h3 = h_done h" "h_warnings h3 = h_warnings h"
      using h1(5-7) by (simp_all add: h3_def h2_def)
    have e: "nemu_request K r h = transfer_phase K 6 h3"
    proof -
      have "nemu_request K r h = nemu_finish_command K 7 h2"
        using p sw assms(8) b2(1) h1(8) True
        by (simp add: nemu_request_def WARN_ON_def Let_def he h2_def del: nemu_finish_command.simps nemu_finish_data.simps)
      moreover have "nemu_finish_command K (Suc m) h2 = transfer_phase K m h3" for m
        using r3(1) h2(3) by (simp add: h3_def transfer_phase_def del: nemu_finish_data.simps)
      from this [of 6] have "nemu_finish_command K 7 h2 = transfer_phase K 6 h3" by (simp del: nemu_finish_command.simps)
      ultimately show ?thesis by simp
    qed
    have t3: "transfer_request K w blk ?d n r3" by (rule transfer_request_like [OF r3(2) t])
    obtain r' h' b' where *: "nemu_request K r h = Inr h'"
      "like (r3\<lparr>r_data := Some (?d\<lparr>d_bytes_xfered := d_blksz d * d_blocks d\<rparr>)\<rparr>) r'" "idle f' (h_bus h')"
      "h_mrq h' = None" "h_cmd h' = None" "\<not> h_data h'" "h_done h' = h_done h @ [r']"
      "R (unat (d_blocks d) * n) b' (v_mem (view (h_sg h')))" "h_warnings h' = h_warnings h"
      using data_command [where m = 6, OF assms(1-3) assms(4) [folded h3(5)] assms(5) h3(1-3) t3 e0 r3(3) [folded h3(4)] R0' [folded h3(5)] R' RN'] h3(5-7) e
      by auto
    show ?thesis
      by (rule exI [of _ r'], rule exI [of _ h'], rule exI [of _ b'])
        (use * like_trans [OF like_data [OF r3(2)] *(2)] in simp)
  qed
qed

text \<open>What holds after \<open>k\<close> words of a read, and of a write.\<close>

end

definition image_word :: "u8 list \<Rightarrow> nat \<Rightarrow> nat \<Rightarrow> u32" where
  "image_word f base j = bytes_word (take 4 (drop (base + 4 * j) f))"

definition buf_bytes :: "(nat \<Rightarrow> u32) \<Rightarrow> nat \<Rightarrow> u8 list" where
  "buf_bytes mem n = concat (map (\<lambda>j. data_bytes (mem j)) [0..<n])"

lemma length_buf_bytes [simp]: "length (buf_bytes mem n) = 4 * n"
  by (induction n) (simp_all add: buf_bytes_def)

lemma buf_bytes_Suc: "buf_bytes mem (Suc k) = buf_bytes mem k @ data_bytes (mem k)"
  by (simp add: buf_bytes_def)

lemma stream_write_Nil: "p \<le> length f \<Longrightarrow> stream_write f p [] = f"
  by (simp add: stream_write_def)

lemma stream_write_append:
  "stream_write (stream_write f p xs) (p + length xs) ys = stream_write f p (xs @ ys)"
proof -
  have "length (take p (f @ replicate (p - length f) 0)) = p" by simp
  then show ?thesis by (simp add: stream_write_def add.commute add.left_commute)
qed

context sd_port
begin

lemma moves_read:
  fixes K :: "('b, 'g) linux"
  assumes "k_readl K = rd" and "sg_laws K view" and "base + 4 * N \<le> length f"
  shows "word_moves K view True
    (\<lambda>k b m. moving False f (base + 4 * k) b \<and> (\<forall>j<k. m j = image_word f base j)) N"
  unfolding word_moves_def
proof (intro allI impI, elim conjE)
  fix k buf and h :: "('b, 'g) nemu_host"
  let ?s = "view (h_sg h)"
  assume a: "moving False f (base + 4 * k) (h_bus h)" "\<forall>j<k. v_mem ?s j = image_word f base j" "k < N"
    "v_pos ?s + 4 * buf = 4 * k" "4 * buf + 4 \<le> v_len ?s"
  obtain b where b: "rd DRV_SDDATA (h_bus h) = Inr (image_word f base k, b)" "moving False f (base + 4 * k + 4) b"
    using port_in [OF a(1)] a(3) assms(3) unfolding image_word_def by auto
  have p: "4 dvd v_pos ?s" "v_pos ?s div 4 + buf = k" using a(4) by presburger+
  let ?g = "k_buf_write K buf (image_word f base k) (h_sg h)"
  have g: "view ?g = ?s\<lparr>v_mem := (v_mem ?s)(k := image_word f base k)\<rparr>"
    using sg_laws_use(5) [OF assms(2) p(1) a(5)] p(2) by simp
  show "\<exists>b g. pio_word K True buf h = Inr (h\<lparr>h_bus := b, h_sg := g\<rparr>) \<and>
      (moving False f (base + 4 * Suc k) b \<and> (\<forall>j<Suc k. v_mem (view g) j = image_word f base j)) \<and>
      same_chunk ?s (view g)"
    by (rule exI [of _ b], rule exI [of _ ?g])
      (use a(2) b g assms(1) in \<open>simp add: pio_word_def bus_readl_def same_chunk_def less_Suc_eq add.commute add.left_commute\<close>)
qed

lemma moves_write:
  fixes K :: "('b, 'g) linux"
  assumes "k_writel K = wr" and "sg_laws K view"
  shows "word_moves K view False
    (\<lambda>k b m. moving True (stream_write f base (buf_bytes mem k)) (base + 4 * k) b \<and> m = mem) N"
  unfolding word_moves_def
proof (intro allI impI, elim conjE)
  fix k buf and h :: "('b, 'g) nemu_host"
  let ?s = "view (h_sg h)" and ?f = "stream_write f base (buf_bytes mem k)"
  assume a: "moving True ?f (base + 4 * k) (h_bus h)" "v_mem ?s = mem" "k < N"
    "v_pos ?s + 4 * buf = 4 * k" "4 * buf + 4 \<le> v_len ?s"
  obtain b where b: "wr (mem k) DRV_SDDATA (h_bus h) = Inr b"
      "moving True (stream_write ?f (base + 4 * k) (data_bytes (mem k))) (base + 4 * k + 4) b"
    using port_out [OF a(1)] by blast
  have "4 dvd v_pos ?s" "v_pos ?s div 4 + buf = k" using a(4) by presburger+
  then have v: "k_buf_read K buf (h_sg h) = mem k" using sg_laws_use(4) [OF assms(2) _ a(5)] a(2) by simp
  have "stream_write ?f (base + 4 * k) (data_bytes (mem k)) = stream_write f base (buf_bytes mem (Suc k))"
    using stream_write_append [of f base "buf_bytes mem k" "data_bytes (mem k)"] by (simp add: buf_bytes_Suc)
  with b(2) have m: "moving True (stream_write f base (buf_bytes mem (Suc k))) (base + 4 * Suc k) b"
    by (simp add: add.commute add.left_commute)
  show "\<exists>b g. pio_word K False buf h = Inr (h\<lparr>h_bus := b, h_sg := g\<rparr>) \<and>
      (moving True (stream_write f base (buf_bytes mem (Suc k))) (base + 4 * Suc k) b \<and> v_mem (view g) = mem) \<and>
      same_chunk ?s (view g)"
    by (rule exI [of _ b], rule exI [of _ "h_sg h"])
      (use b(1) v m a(2) assms(1) in \<open>simp add: pio_word_def bus_writel_def same_chunk_def\<close>)
qed

end

section \<open>The driver on the emulator\<close>

definition linux_on :: "config \<Rightarrow> host_env \<Rightarrow> (('a) devs_scheme, 'g) linux \<Rightarrow> bool" where
  "linux_on c E K \<longleftrightarrow> k_readl K = sd_readl c E \<and> k_writel K = sd_writel c E"

definition host_free :: "('b, 'g) nemu_host \<Rightarrow> bool" where
  "host_free h \<longleftrightarrow> h_mrq h = None \<and> h_cmd h = None \<and> \<not> h_data h"

text \<open>With debug messages compiled in, the driver reads a register the controller does not have.\<close>

lemma sd_status_panics:
  assumes "sd_idle c f m" shows "sd_readl c E DRV_SDHSTS m = Inl (Assert_fail ''unhandle offset'')"
  using sd_bus_read [OF assms, of DRV_SDHSTS E] by (simp add: sd_offs sdcard_io_handler_def)

end
