(* ===== verification/Div64.thy ===== *)
theory Div64
  imports Prelude
begin

text \<open>
  \<^verbatim>\<open>src/testdemo/test.c\<close>: the division of a 64-bit number by a 32-bit one, by shifting and subtracting, of which the
  program prints one remainder. The quotient is returned through the pointer, the remainder as the result.
\<close>

unbundle bit_operations_syntax

section \<open>The program\<close>

lemma signed_positive: "0 <s b \<longleftrightarrow> 0 < unat b \<and> unat b < 2 ^ 63" for b :: u64
proof -
  have u: "uint b < 2 ^ 64" using uint_lt2p [of b] by simp
  have "uint b div 2 ^ 63 = (if 2 ^ 63 \<le> uint b then 1 else 0)"
    using u by (auto intro: div_pos_pos_trivial int_div_pos_eq [of _ _ _ "uint b - 2 ^ 63"])
  then have h: "bit (uint b) 63 \<longleftrightarrow> 2 ^ 63 \<le> uint b"
    unfolding bit_iff_odd by simp
  have s: "sint b = uint b - 2 ^ 64 * of_bool (2 ^ 63 \<le> uint b)"
    unfolding sint_uint h [symmetric] using u
    by (simp add: signed_take_bit_eq_take_bit_minus take_bit_int_eq_self)
  have "(0 <s b) = (0 < sint b)" by (simp add: word_sless_alt)
  also have "\<dots> = (0 < uint b \<and> uint b < 2 ^ 63)"
    unfolding s using u by auto
  also have "uint b = int (unat b)" by simp
  finally show ?thesis by (simp only: of_nat_0_less_iff of_nat_less_numeral_power_cancel_iff)
qed

text \<open>The loop that scales the divisor; the comparison with zero is signed.\<close>

function div_scale :: "u64 \<Rightarrow> u64 \<Rightarrow> u64 \<Rightarrow> u64 \<times> u64" where
  "div_scale rem b d = (if 0 <s b \<and> b < rem then div_scale rem (b + b) (d + d) else (b, d))"
  by pat_completeness auto
termination
  by (relation "measure (\<lambda>(rem, b, d). 2 ^ 64 - unat b)") (auto simp: signed_positive unat_word_ariths)

declare div_scale.simps [simp del]

lemma unat_half: "unat (drop_bit (Suc 0) w) = unat w div 2" for w :: u64
  by (simp add: drop_bit_Suc unat_div)

text \<open>The \<^verbatim>\<open>do\<close> loop: subtract, halve, until the factor is used up.\<close>

function div_steps :: "u64 \<Rightarrow> u64 \<Rightarrow> u64 \<Rightarrow> u64 \<Rightarrow> u64 \<times> u64" where
  "div_steps rem b d res =
     (let (rem', res') = (if rem \<ge> b then (rem - b, res + d) else (rem, res)); b' = drop_bit 1 b; d' = drop_bit 1 d in
      if d' \<noteq> 0 then div_steps rem' b' d' res' else (res', rem'))"
  by pat_completeness auto
termination
proof (relation "measure (\<lambda>(rem, b, d, res). unat d)", goal_cases)
  case (2 rem b d res x rem' res' b' d')
  then have "unat d' = unat d div 2" by (simp add: unat_half)
  moreover have "unat d' \<noteq> 0" using 2 by (simp add: unsigned_eq_0_iff)
  ultimately show ?case by simp
qed simp

declare div_steps.simps [simp del]

text \<open>A zero divisor is not greater than the high half, so the first division is reached and fails.\<close>

definition div64_32 :: "u64 \<Rightarrow> u32 \<Rightarrow> (u64 \<times> u32) res" where
  "div64_32 n base =
     (let high = ucast (drop_bit 32 n) :: u32 in
      bindE
        (if high \<ge> base then
           (if base = 0 then Inl (Assert_fail ''division by zero'')
            else (let h = high div base in Inr (push_bit 32 (ucast h), n - push_bit 32 (ucast (h * base)))))
         else Inr (0, n))
        (\<lambda>(res, rem). case div_scale rem (ucast base) 1 of
           (b, d) \<Rightarrow> (case div_steps rem b d res of (q, r) \<Rightarrow> Inr (q, ucast r))))"

text \<open>\<^verbatim>\<open>main\<close>: the number printed with \<^verbatim>\<open>%d\<close>.\<close>

definition testdemo_main :: "int res" where
  "testdemo_main = bindE (div64_32 0x7000000000000999 128) (\<lambda>(q, r). Inr (sint r))"

section \<open>It divides\<close>

text \<open>The divisor is scaled by a power of two until twice of it exceeds the dividend.\<close>

lemma div_scale_bound:
  assumes "unat rem < unat base * 2 ^ 32" and "unat b = unat base * 2 ^ k" and "unat d = 2 ^ k" and "k \<le> 32"
  shows "\<exists>k' b' d'. div_scale rem b d = (b', d') \<and> k' \<le> 32 \<and> unat b' = unat (base :: u32) * 2 ^ k' \<and> unat d' = 2 ^ k' \<and>
    unat rem < 2 * unat b'"
  using assms
proof (induction rem b d arbitrary: k rule: div_scale.induct)
  case (1 rem b d)
  show ?case
  proof (cases "0 <s b \<and> b < rem")
    case False
    have "0 < unat b" using 1(2,3) by (cases "unat base") simp_all
    then have "unat rem < 2 * unat b"
    proof (cases "b < rem")
      case True
      with False 1(2-) have "2 ^ 63 \<le> unat b" by (auto simp: signed_positive word_less_nat_alt)
      moreover have "unat rem < 2 ^ 64" by (rule order_less_le_trans [OF unsigned_less]) simp
      ultimately show ?thesis by simp
    next
      case False
      then have "unat rem \<le> unat b" by (simp add: word_less_nat_alt)
      with \<open>0 < unat b\<close> show ?thesis by linarith
    qed
    then show ?thesis using False 1(2-) by (subst div_scale.simps) auto
  next
    case True
    then have b: "0 < unat b" "unat b < 2 ^ 63" "unat b < unat rem" by (simp_all add: signed_positive word_less_nat_alt)
    have "unat base * 2 ^ k < unat base * 2 ^ 32" unfolding 1(3) [symmetric] by (rule less_trans [OF b(3) 1(2)])
    then have "(2::nat) ^ k < 2 ^ 32" by simp
    then have "k < 32" by (rule power_less_imp_less_exp [rotated]) simp
    then have "(2::nat) ^ k < 2 ^ 63" by (intro power_strict_increasing) auto
    then have "unat (b + b) = unat base * 2 ^ Suc k" "unat (d + d) = 2 ^ Suc k"
      using b(2) 1(3,4) by (simp_all add: unat_word_ariths)
    from 1(1) [OF True 1(2) this] \<open>k < 32\<close> show ?thesis using True by (subst div_scale.simps) auto
  qed
qed

text \<open>Each step keeps the dividend, and the remainder below twice the divisor.\<close>

lemma div_step:
  fixes rem b d res :: u64
  assumes "unat b = unat (base :: u32) * 2 ^ k" and "unat d = 2 ^ k" and "unat rem < 2 * unat b"
    and "unat res * unat base + unat rem = N" and "N < 2 ^ 64" and "base \<noteq> 0"
  shows "\<exists>rem' res'. (if rem \<ge> b then (rem - b, res + d) else (rem, res)) = (rem', res') \<and> unat rem' < unat b \<and>
    unat res' * unat base + unat rem' = N"
proof (cases "b \<le> rem")
  case False
  then show ?thesis using assms by (simp add: word_le_nat_alt)
next
  case True
  have le: "unat b \<le> unat rem" using True by (simp add: word_le_nat_alt)
  have r: "unat (rem - b) = unat rem - unat b" using True by (simp add: unat_sub)
  have e: "(unat res + 2 ^ k) * unat base + (unat rem - unat b) = N"
    using assms(1,4) le by (simp add: algebra_simps)
  have "0 < unat base" using assms(6) by (simp add: unat_gt_0)
  then have "unat res + 2 ^ k \<le> (unat res + 2 ^ k) * unat base" by simp
  then have "unat res + unat d < 2 ^ 64" using e assms(2,5) by linarith
  then have "unat (res + d) = unat res + 2 ^ k" using assms(2) by (simp add: unat_word_ariths)
  then show ?thesis using True r e assms(3) le by simp
qed

lemma div_steps_correct:
  assumes "unat b = unat (base :: u32) * 2 ^ k" and "unat d = 2 ^ k" and "unat rem < 2 * unat b"
    and "unat res * unat base + unat rem = N" and "N < 2 ^ 64" and "base \<noteq> 0"
  shows "\<exists>q r. div_steps rem b d res = (q, r) \<and> unat q = N div unat base \<and> unat r = N mod unat base"
  using assms(1-4)
proof (induction k arbitrary: rem b d res)
  case 0
  obtain rem' res' where s: "(if rem \<ge> b then (rem - b, res + d) else (rem, res)) = (rem', res')"
      "unat rem' < unat base" "unat res' * unat base + unat rem' = N"
    using div_step [OF 0 assms(5,6)] 0(1) by auto
  have "unat (drop_bit (Suc 0) d) = 0" using 0(2) by (simp add: unat_half)
  then have "drop_bit (Suc 0) d = 0" by (simp add: unsigned_eq_0_iff)
  then have "div_steps rem b d res = (res', rem')" using s(1) by (subst div_steps.simps) (simp add: Let_def)
  moreover have "N div unat base = unat res'" "N mod unat base = unat rem'"
    using s(2) by (simp_all flip: s(3))
  ultimately show ?case by simp
next
  case (Suc k)
  obtain rem' res' where s: "(if rem \<ge> b then (rem - b, res + d) else (rem, res)) = (rem', res')"
      "unat rem' < unat b" "unat res' * unat base + unat rem' = N"
    using div_step [OF Suc.prems assms(5,6)] by blast
  have b: "unat (drop_bit (Suc 0) b) = unat base * 2 ^ k" "unat (drop_bit (Suc 0) d) = 2 ^ k"
    using Suc.prems(1,2) by (simp_all add: unat_half)
  then have "drop_bit (Suc 0) d \<noteq> 0" by (auto simp: word_unat_eq_iff)
  then have "div_steps rem b d res = div_steps rem' (drop_bit (Suc 0) b) (drop_bit (Suc 0) d) res'"
    using s(1) by (subst div_steps.simps) (simp add: Let_def)
  moreover have "unat rem' < 2 * unat (drop_bit (Suc 0) b)" using s(2) b(1) Suc.prems(1) by simp
  ultimately show ?case using Suc.IH [OF b _ s(3)] by simp
qed

lemma div64_32_correct:
  assumes "base \<noteq> 0"
  shows "div64_32 n base = Inr (n div ucast base, ucast (n mod ucast base))"
proof -
  let ?high = "ucast (drop_bit 32 n) :: u32"
  let ?h = "?high div base"
  have n: "unat n < 2 ^ 64" by (rule order_less_le_trans [OF unsigned_less]) simp
  then have uh: "unat ?high = unat n div 2 ^ 32"
    by (simp add: unsigned_ucast_eq unsigned_drop_bit_eq drop_bit_eq_div take_bit_eq_mod less_mult_imp_div_less unat_div)
  have w32: "unat w < 2 ^ 32" for w :: u32 by (rule order_less_le_trans [OF unsigned_less]) simp
  have b0: "0 < unat base" using assms by (simp add: unat_gt_0)
  have uc: "unat (ucast w :: u64) = unat w" for w :: u32
    using w32 [of w] by (simp add: unsigned_ucast_eq take_bit_eq_mod)
  have shift: "unat (push_bit 32 (ucast w :: u64)) = unat w * 2 ^ 32" for w :: u32
    using w32 [of w] uc [of w] by (simp add: push_bit_eq_mult unat_word_ariths)
  obtain res rem where start: "(if ?high \<ge> base then
       (if base = 0 then Inl (Assert_fail ''division by zero'')
        else (let h = ?high div base in Inr (push_bit 32 (ucast h), n - push_bit 32 (ucast (h * base)))))
     else Inr (0, n)) = (Inr (res, rem) :: (u64 \<times> u64) res)" "unat rem < unat base * 2 ^ 32"
    "unat res * unat base + unat rem = unat n"
  proof (cases "?high \<ge> base")
    case False
    then have "unat n div 2 ^ 32 < unat base" using uh by (simp add: word_le_nat_alt)
    then have "unat n < unat base * 2 ^ 32" by (simp add: div_less_iff_less_mult)
    with False that [of 0 n] show ?thesis by simp
  next
    case True
    let ?H = "unat n div 2 ^ 32"
    have h: "unat ?h = ?H div unat base" by (simp add: unat_div uh)
    have le: "?H div unat base * unat base \<le> ?H" by simp
    have hb: "unat (?h * base) = ?H div unat base * unat base"
    proof -
      have "unat (?h * base) = (unat ?h * unat base) mod 2 ^ 32" by (simp add: unat_word_ariths)
      also have "\<dots> = ?H div unat base * unat base"
        unfolding h by (rule mod_less) (use le w32 [of ?high] uh in linarith)
      finally show ?thesis .
    qed
    have sub: "?H div unat base * unat base * 2 ^ 32 \<le> unat n"
      using le by (metis div_times_less_eq_dividend le_trans mult_le_mono1)
    have r: "unat (n - push_bit 32 (ucast (?h * base))) = unat n - ?H div unat base * unat base * 2 ^ 32"
      using sub by (simp add: unat_sub word_le_nat_alt shift hb)
    have "?H mod unat base + 1 \<le> unat base" using b0 by (simp add: Suc_leI)
    then have m: "?H mod unat base * 2 ^ 32 + 2 ^ 32 \<le> unat base * 2 ^ 32"
      by (metis add_mult_distrib mult_1 mult_le_mono1)
    have rest: "a \<le> x \<Longrightarrow> N = (a + m) * K + l \<Longrightarrow> N - a * K = m * K + l" for a m x K l N :: nat
      by (simp add: add_mult_distrib)
    have "unat n - ?H div unat base * unat base * 2 ^ 32 = ?H mod unat base * 2 ^ 32 + unat n mod 2 ^ 32"
      by (rule rest [OF le]) (simp only: div_mult_mod_eq)
    also have "\<dots> < unat base * 2 ^ 32" by (rule less_le_trans [OF add_strict_left_mono m]) simp
    finally have "unat n - ?H div unat base * unat base * 2 ^ 32 < unat base * 2 ^ 32" .
    with True assms r h sub shift that [of "push_bit 32 (ucast ?h)" "n - push_bit 32 (ucast (?h * base))"]
    show ?thesis by (simp add: Let_def algebra_simps)
  qed
  obtain k b d where sc: "div_scale rem (ucast base) 1 = (b, d)" "unat b = unat base * 2 ^ k" "unat d = 2 ^ k"
      "unat rem < 2 * unat b"
    using div_scale_bound [OF start(2), of "ucast base" 0 1] uc [of base] that by fastforce
  obtain q r where st: "div_steps rem b d res = (q, r)" "unat q = unat n div unat base" "unat r = unat n mod unat base"
    using div_steps_correct [OF sc(2-4) start(3) n assms] by blast
  have "q = n div ucast base" "r = n mod ucast base"
    using st(2,3) uc [of base] by (simp_all add: word_unat_eq_iff unat_div unat_mod)
  then show ?thesis using start(1) sc(1) st(1) by (simp add: div64_32_def Let_def)
qed

lemma testdemo_prints: "testdemo_main = Inr 25"
  by (simp add: testdemo_main_def div64_32_correct)

end
