(* ===== verification/Kvm.thy ===== *)
theory Kvm
  imports Memory
begin

text \<open>
  The KVM reference for x86, \<^verbatim>\<open>tools/kvm-diff/src/kvm.c\<close>: a virtual machine that executes one instruction per run
  (single stepping), with the instructions patched whose effect single stepping would show, and the functions through which
  the differential tester drives it. The kernel's KVM interface is a parameter (\<open>kvm_host\<close>); \<open>'k\<close> is its state.
\<close>

unbundle bit_operations_syntax

section \<open>Constants\<close>

definition CR0_PE :: u64 where "CR0_PE = 1"
definition CR0_PG :: u64 where "CR0_PG = push_bit 31 1"
definition RFLAGS_ID :: u32 where "RFLAGS_ID = push_bit 21 1"
definition RFLAGS_AC :: u32 where "RFLAGS_AC = push_bit 18 1"
definition RFLAGS_RF :: u32 where "RFLAGS_RF = push_bit 16 1"
definition RFLAGS_TF :: u32 where "RFLAGS_TF = push_bit 8 1"
definition RFLAGS_AF :: u32 where "RFLAGS_AF = push_bit 4 1"
definition RFLAGS_FIX_MASK :: u32 where
  "RFLAGS_FIX_MASK = (((RFLAGS_ID OR RFLAGS_AC) OR RFLAGS_RF) OR RFLAGS_TF) OR RFLAGS_AF"

lemmas rflags_defs = RFLAGS_ID_def RFLAGS_AC_def RFLAGS_RF_def RFLAGS_TF_def RFLAGS_AF_def RFLAGS_FIX_MASK_def

definition KVM_API_VERSION :: int where "KVM_API_VERSION = 12"
definition KVM_SYNC_X86_REGS :: u64 where "KVM_SYNC_X86_REGS = 1"
definition KVM_SYNC_X86_SREGS :: u64 where "KVM_SYNC_X86_SREGS = 2"

section \<open>State\<close>

text \<open>The structures of \<^verbatim>\<open>linux/kvm.h\<close>, with the fields the program uses.\<close>

record kvm_regs =
  rax :: u64
  rbx :: u64
  rcx :: u64
  rdx :: u64
  rsi :: u64
  rdi :: u64
  rsp :: u64
  rbp :: u64
  rip :: u64
  rflags :: u64

record kvm_segment =
  seg_base :: u64
  seg_limit :: u32
  seg_selector :: u16
  seg_type :: u8
  seg_present :: u8
  seg_dpl :: u8
  seg_db :: u8
  seg_s :: u8
  seg_l :: u8
  seg_g :: u8

record kvm_sregs =
  sr_cs :: kvm_segment
  sr_ds :: kvm_segment
  sr_es :: kvm_segment
  sr_fs :: kvm_segment
  sr_gs :: kvm_segment
  sr_ss :: kvm_segment
  sr_cr0 :: u64
  sr_idt_base :: u64

datatype wp_state = STATE_IDLE | STATE_INT_INST | STATE_IRET_INST

datatype kvm_exit = KVM_EXIT_DEBUG | KVM_EXIT_HLT | KVM_EXIT_OTHER int

text \<open>
  What a run changes: the memory of the machine, the page shared with the kernel (registers, which of them are
  valid or were changed, the reason of the last exit and its debug address), and the kernel's own state.
\<close>

record 'k guest =
  g_mem :: bytes
  g_mmio :: bytes
  g_regs :: kvm_regs
  g_sregs :: kvm_sregs
  g_valid_regs :: u64
  g_dirty_regs :: u64
  g_exit :: kvm_exit
  g_debug_pc :: u64
  g_kernel :: 'k

record 'k kvm =
  guest :: "'k guest"
  int_wp_state :: wp_state
  has_error_code :: bool
  wp_entry :: u32

datatype run_ret = Run_ok | Run_eintr | Run_failed

text \<open>The calls into the kernel; a negative result is an error. \<open>hv_mmap\<close> fails with False.\<close>

record 'k kvm_host =
  hv_open :: "'k \<Rightarrow> int \<times> 'k"
  hv_api_version :: "'k \<Rightarrow> int \<times> 'k"
  hv_create_vm :: "'k \<Rightarrow> int \<times> 'k"
  hv_set_tss_addr :: "u64 \<Rightarrow> 'k \<Rightarrow> int \<times> 'k"
  hv_mmap :: "nat \<Rightarrow> 'k \<Rightarrow> bool \<times> 'k"
  hv_set_memory :: "nat \<Rightarrow> u64 \<Rightarrow> nat \<Rightarrow> 'k \<Rightarrow> int \<times> 'k"
  hv_create_vcpu :: "'k \<Rightarrow> int \<times> 'k"
  hv_vcpu_mmap_size :: "'k \<Rightarrow> int \<times> 'k"
  hv_set_debug :: "bool \<Rightarrow> u32 \<Rightarrow> 'k \<Rightarrow> int \<times> 'k"
  hv_set_regs :: "kvm_regs \<Rightarrow> 'k \<Rightarrow> int \<times> 'k"
  hv_get_sregs :: "'k \<Rightarrow> int \<times> kvm_sregs \<times> 'k"
  hv_set_sregs :: "kvm_sregs \<Rightarrow> 'k \<Rightarrow> int \<times> 'k"
  hv_translate :: "u64 \<Rightarrow> 'k \<Rightarrow> int \<times> bool \<times> u64"
  hv_interrupt :: "u32 \<Rightarrow> 'k \<Rightarrow> int \<times> 'k"
  hv_run :: "'k guest \<Rightarrow> run_ret \<times> 'k guest"

definition upd_guest :: "('k guest \<Rightarrow> 'k guest) \<Rightarrow> 'k kvm \<Rightarrow> 'k kvm" where
  "upd_guest f m = m\<lparr>guest := f (guest m)\<rparr>"

definition gregs :: "'k kvm \<Rightarrow> kvm_regs" where
  "gregs m = g_regs (guest m)"

definition set_gregs :: "kvm_regs \<Rightarrow> 'k kvm \<Rightarrow> 'k kvm" where
  "set_gregs r m = upd_guest (\<lambda>g. g\<lparr>g_regs := r\<rparr>) m"

text \<open>A call into the kernel that must not fail.\<close>

definition kernel_call :: "('k \<Rightarrow> int \<times> 'k) \<Rightarrow> string \<Rightarrow> 'k kvm \<Rightarrow> (int \<times> 'k kvm) res" where
  "kernel_call f msg m = (case f (g_kernel (guest m)) of (r, k) \<Rightarrow>
     if r < 0 then Inl (Assert_fail msg) else Inr (r, upd_guest (\<lambda>g. g\<lparr>g_kernel := k\<rparr>) m))"

definition kernel_do :: "('k \<Rightarrow> int \<times> 'k) \<Rightarrow> string \<Rightarrow> 'k kvm \<Rightarrow> 'k kvm res" where
  "kernel_do f msg m = bindE (kernel_call f msg m) (\<lambda>(r, m). Inr m)"

section \<open>Calls to the machine\<close>

text \<open>The watchpoint's address is the debug register 0, which the program fills with a 32-bit address.\<close>

definition kvm_set_step_mode :: "'k kvm_host \<Rightarrow> bool \<Rightarrow> u32 \<Rightarrow> 'k kvm \<Rightarrow> 'k kvm res" where
  "kvm_set_step_mode H watch watch_addr m = kernel_do (hv_set_debug H watch watch_addr) ''KVM_SET_GUEST_DEBUG'' m"

definition kvm_setregs :: "'k kvm_host \<Rightarrow> kvm_regs \<Rightarrow> 'k kvm \<Rightarrow> 'k kvm res" where
  "kvm_setregs H r m = bindE (kernel_do (hv_set_regs H r) ''KVM_SET_REGS'' m) (kvm_set_step_mode H False 0)"

definition kvm_getsregs :: "'k kvm_host \<Rightarrow> 'k kvm \<Rightarrow> (kvm_sregs \<times> 'k kvm) res" where
  "kvm_getsregs H m = (case hv_get_sregs H (g_kernel (guest m)) of (r, s, k) \<Rightarrow>
     if r < 0 then Inl (Assert_fail ''KVM_GET_SREGS'') else Inr (s, upd_guest (\<lambda>g. g\<lparr>g_kernel := k\<rparr>) m))"

definition kvm_setsregs :: "'k kvm_host \<Rightarrow> kvm_sregs \<Rightarrow> 'k kvm \<Rightarrow> 'k kvm res" where
  "kvm_setsregs H s m = kernel_do (hv_set_sregs H s) ''KVM_SET_SREGS'' m"

text \<open>The memory mapped is anonymous, so it holds zeros; \<^verbatim>\<open>madvise\<close> has no effect on it.\<close>

definition create_mem :: "'k kvm_host \<Rightarrow> nat \<Rightarrow> u64 \<Rightarrow> nat \<Rightarrow> 'k kvm \<Rightarrow> (bytes \<times> 'k kvm) res" where
  "create_mem H slot base sz m =
     (case hv_mmap H sz (g_kernel (guest m)) of (ok, k) \<Rightarrow>
        bindE (assertE ok ''mmap mem'') (\<lambda>_.
        bindE (kernel_do (hv_set_memory H slot base sz) ''KVM_SET_USER_MEMORY_REGION''
          (upd_guest (\<lambda>g. g\<lparr>g_kernel := k\<rparr>) m)) (\<lambda>m1. Inr ((\<lambda>_. 0), m1))))"

definition vm_init :: "'k kvm_host \<Rightarrow> nat \<Rightarrow> 'k kvm \<Rightarrow> 'k kvm res" where
  "vm_init H mem_size m =
     bindE (kernel_do (hv_open H) ''open /dev/kvm'' m) (\<lambda>m.
     bindE (kernel_call (hv_api_version H) ''KVM_GET_API_VERSION'' m) (\<lambda>(v, m).
     bindE (assertE (v = KVM_API_VERSION) ''KVM api version'') (\<lambda>_.
     bindE (kernel_do (hv_create_vm H) ''KVM_CREATE_VM'' m) (\<lambda>m.
     bindE (kernel_do (hv_set_tss_addr H 0xfffbd000) ''KVM_SET_TSS_ADDR'' m) (\<lambda>m.
     bindE (create_mem H 0 0 mem_size m) (\<lambda>(mem, m).
     bindE (create_mem H 1 0xa1000000 0x1000 (upd_guest (\<lambda>g. g\<lparr>g_mem := mem\<rparr>) m)) (\<lambda>(mmio, m).
     Inr (upd_guest (\<lambda>g. g\<lparr>g_mmio := mmio\<rparr>) m))))))))"

definition vcpu_init :: "'k kvm_host \<Rightarrow> 'k kvm \<Rightarrow> 'k kvm res" where
  "vcpu_init H m =
     bindE (kernel_do (hv_create_vcpu H) ''KVM_CREATE_VCPU'' m) (\<lambda>m.
     bindE (kernel_call (hv_vcpu_mmap_size H) ''KVM_GET_VCPU_MMAP_SIZE'' m) (\<lambda>(sz, m).
     bindE (assertE (sz > 0) ''KVM_GET_VCPU_MMAP_SIZE'') (\<lambda>_.
     case hv_mmap H (nat sz) (g_kernel (guest m)) of (ok, k) \<Rightarrow>
     bindE (assertE ok ''mmap kvm_run'') (\<lambda>_.
     Inr ((upd_guest (\<lambda>g. g\<lparr>g_kernel := k, g_valid_regs := KVM_SYNC_X86_REGS OR KVM_SYNC_X86_SREGS\<rparr>) m)
       \<lparr>int_wp_state := STATE_IDLE\<rparr>)))))"

definition mbr :: "u8 list" where
  "mbr = [0x0f, 0x01, 0x15, 0x28, 0x7c, 0x00, 0x00, 0xea, 0x0e, 0x7c, 0x00, 0x00, 0x08, 0x00, 0xeb, 0xfe,
     0x00, 0x00, 0x00, 0x00, 0x00, 0x00, 0x00, 0x00, 0xff, 0xff, 0x00, 0x00, 0x00, 0x9a, 0xcf, 0x00,
     0xff, 0xff, 0x00, 0x00, 0x00, 0x92, 0xcf, 0x00, 0x17, 0x00, 0x10, 0x7c, 0x00, 0x00]"

definition setup_protected_mode :: "kvm_sregs \<Rightarrow> kvm_sregs" where
  "setup_protected_mode s =
     (let seg = \<lparr>seg_base = 0, seg_limit = 0xffffffff, seg_selector = push_bit 3 1, seg_type = 11, seg_present = 1,
            seg_dpl = 0, seg_db = 1, seg_s = 1, seg_l = 0, seg_g = 1\<rparr>;
          data = seg\<lparr>seg_type := 3, seg_selector := push_bit 3 2\<rparr>
      in s\<lparr>sr_cr0 := sr_cr0 s OR CR0_PE, sr_cs := seg, sr_ds := data, sr_es := data, sr_fs := data, sr_gs := data,
           sr_ss := data\<rparr>)"

section \<open>Patching\<close>

definition va2pa :: "'k kvm_host \<Rightarrow> 'k kvm \<Rightarrow> u64 \<Rightarrow> u64 res" where
  "va2pa H m va =
     (if sr_cr0 (g_sregs (guest m)) AND CR0_PG \<noteq> 0 then
        (case hv_translate H va (g_kernel (guest m)) of (ret, valid, pa) \<Rightarrow>
           bindE (assertE (ret = 0) ''ret == 0'') (\<lambda>_. Inr (if valid then pa else - 1)))
      else Inr va)"

text \<open>Bytes and 32-bit words of \<^verbatim>\<open>vm.mem\<close>; the index is a 32-bit number.\<close>

definition mem8 :: "'k kvm \<Rightarrow> u32 \<Rightarrow> u8 res" where
  "mem8 m a = bindE (in_object MSIZE (unat a) 1) (\<lambda>_. Inr (g_mem (guest m) (unat a)))"

definition mem32 :: "'k kvm \<Rightarrow> u32 \<Rightarrow> u32 res" where
  "mem32 m a = bindE (in_object MSIZE (unat a) 4) (\<lambda>_. Inr (le_read (g_mem (guest m)) (unat a) 4))"

definition set_mem32 :: "u32 \<Rightarrow> u32 \<Rightarrow> 'k kvm \<Rightarrow> 'k kvm res" where
  "set_mem32 a v m = bindE (in_object MSIZE (unat a) 4)
     (\<lambda>_. Inr (upd_guest (\<lambda>g. g\<lparr>g_mem := le_write (g_mem g) (unat a) 4 v\<rparr>) m))"

text \<open>The two instructions that are emulated, and whose emulation marks the registers as changed.\<close>

definition patch_pushf :: "'k kvm_host \<Rightarrow> 'k kvm \<Rightarrow> 'k kvm res" where
  "patch_pushf H m =
     (let m1 = set_gregs ((gregs m)\<lparr>rsp := rsp (gregs m) - 4\<rparr>) m in
      bindE (va2pa H m1 (rsp (gregs m1))) (\<lambda>pa.
      bindE (set_mem32 (ucast pa) (ucast (rflags (gregs m1) AND ucast (NOT RFLAGS_FIX_MASK))) m1) (\<lambda>m2.
      let m3 = set_gregs ((gregs m2)\<lparr>rflags := rflags (gregs m2) OR ucast RFLAGS_TF, rip := rip (gregs m2) + 1\<rparr>) m2
      in Inr (upd_guest (\<lambda>g. g\<lparr>g_dirty_regs := KVM_SYNC_X86_REGS\<rparr>) m3))))"

definition patch_popf :: "'k kvm_host \<Rightarrow> 'k kvm \<Rightarrow> 'k kvm res" where
  "patch_popf H m =
     bindE (va2pa H m (rsp (gregs m))) (\<lambda>pa.
     bindE (mem32 m (ucast pa)) (\<lambda>v.
     let m1 = set_gregs ((gregs m)\<lparr>rflags := ucast ((v OR RFLAGS_TF) OR 2), rsp := rsp (gregs m) + 4,
          rip := rip (gregs m) + 1\<rparr>) m
     in Inr (upd_guest (\<lambda>g. g\<lparr>g_dirty_regs := KVM_SYNC_X86_REGS\<rparr>) m1)))"

definition patching :: "'k kvm_host \<Rightarrow> 'k kvm \<Rightarrow> (bool \<times> 'k kvm) res" where
  "patching H m =
     bindE (va2pa H m (rip (gregs m))) (\<lambda>pa.
     let pc = ucast pa :: u32 in
     if pc = 0xffffffff then Inr (False, m)
     else bindE (mem8 m pc) (\<lambda>op.
       if op = 0x9c then
         (if int_wp_state m = STATE_INT_INST then Inr (False, m) else bindE (patch_pushf H m) (\<lambda>m. Inr (True, m)))
       else if op = 0x9d then
         (if int_wp_state m = STATE_INT_INST then Inr (False, m) else bindE (patch_popf H m) (\<lambda>m. Inr (True, m)))
       else if op = 0xcf then
         bindE (va2pa H m (rsp (gregs m))) (\<lambda>pa.
         bindE (mem32 m (ucast pa)) (\<lambda>eip.
         bindE (kvm_set_step_mode H True eip (m\<lparr>wp_entry := eip\<rparr>)) (\<lambda>m.
         Inr (False, m\<lparr>int_wp_state := STATE_IRET_INST\<rparr>))))
       else Inr (False, m)))"

definition fix_push_sreg :: "'k kvm_host \<Rightarrow> 'k kvm \<Rightarrow> 'k kvm res" where
  "fix_push_sreg H m =
     bindE (va2pa H m (rsp (gregs m))) (\<lambda>pa.
     bindE (mem32 m (ucast pa)) (\<lambda>v. set_mem32 (ucast pa) (v AND 0x0000ffff) m))"

definition patching_after :: "'k kvm_host \<Rightarrow> u64 \<Rightarrow> 'k kvm \<Rightarrow> 'k kvm res" where
  "patching_after H last_pc m =
     bindE (va2pa H m last_pc) (\<lambda>pa.
     let pc = ucast pa :: u32 in
     if pc = 0xffffffff then Inr m
     else bindE (mem8 m pc) (\<lambda>opcode.
       if opcode = 0x1e \<or> opcode = 0x06 then
         bindE (fix_push_sreg H m) (\<lambda>m.
         bindE (assertE (rip (gregs m) = last_pc + 1) ''rip == last_pc + 1'') (\<lambda>_. Inr m))
       else if opcode = 0x0f then
         bindE (mem8 m (pc + 1)) (\<lambda>opcode2.
         if opcode2 = 0xa0 then
           bindE (fix_push_sreg H m) (\<lambda>m.
           bindE (assertE (rip (gregs m) = last_pc + 2) ''rip == last_pc + 2'') (\<lambda>_. Inr m))
         else Inr m)
       else Inr m))"

section \<open>Execution\<close>

text \<open>After a step: the flags an interrupt has pushed are cleaned, and a watchpoint that was hit is removed.\<close>

definition after_step :: "'k kvm_host \<Rightarrow> 'k kvm \<Rightarrow> 'k kvm res" where
  "after_step H m =
     (if int_wp_state m = STATE_INT_INST then
        bindE (va2pa H m (rsp (gregs m) + (8 + (if has_error_code m then 4 else 0)))) (\<lambda>pa.
        bindE (mem32 m (ucast pa)) (\<lambda>v.
        bindE (set_mem32 (ucast pa) (v AND NOT RFLAGS_FIX_MASK) m) (\<lambda>m.
        bindE (assertE (ucast (wp_entry m) = g_debug_pc (guest m)) ''entry not match'') (\<lambda>_.
        bindE (kvm_set_step_mode H False 0 m) (\<lambda>m. Inr (m\<lparr>int_wp_state := STATE_IDLE\<rparr>))))))
      else if int_wp_state m = STATE_IRET_INST then
        bindE (assertE (ucast (wp_entry m) = g_debug_pc (guest m)) ''entry not match'') (\<lambda>_.
        bindE (kvm_set_step_mode H False 0 m) (\<lambda>m. Inr (m\<lparr>int_wp_state := STATE_IDLE\<rparr>)))
      else Inr m)"

text \<open>
  A run that a signal interrupts is repeated, with the count as it was, also where \<^verbatim>\<open>n ++\<close> wraps. The fuel bounds the
  interrupted runs of one call; without interruptions it is not used (\<open>kvm_exec_no_signal\<close>).
\<close>

function kvm_exec :: "'k kvm_host \<Rightarrow> nat \<Rightarrow> nat \<Rightarrow> 'k kvm \<Rightarrow> 'k kvm res" where
  "kvm_exec H fuel n m =
     (if n = 0 then Inr m
      else bindE (patching H m) (\<lambda>(done, m1).
        if done then kvm_exec H fuel (n - 1) m1
        else
          (let pc = rip (gregs m1) in
           case hv_run H (guest m1) of (r, g) \<Rightarrow>
             (let m2 = m1\<lparr>guest := g\<rparr> in
              case r of
                Run_failed \<Rightarrow> Inl (Assert_fail ''KVM_RUN'')
              | Run_eintr \<Rightarrow> if fuel = 0 then Inl (Assert_fail ''fuel'') else kvm_exec H (fuel - 1) n m2
              | Run_ok \<Rightarrow>
                  if g_exit g = KVM_EXIT_HLT then Inr m2
                  else if g_exit g \<noteq> KVM_EXIT_DEBUG then Inl (Assert_fail ''exit_reason'')
                  else bindE (patching_after H pc m2) (\<lambda>m3.
                    bindE (after_step H m3) (\<lambda>m4. kvm_exec H fuel (n - 1) m4))))))"
  by pat_completeness auto
termination
  by (relation "measures [\<lambda>(H, fuel, n, m). fuel, \<lambda>(H, fuel, n, m). n]") auto

declare kvm_exec.simps [simp del]

definition run_protected_mode :: "'k kvm_host \<Rightarrow> nat \<Rightarrow> 'k kvm \<Rightarrow> 'k kvm res" where
  "run_protected_mode H fuel m =
     bindE (kvm_getsregs H m) (\<lambda>(s, m).
     bindE (kvm_setsregs H (setup_protected_mode s) m) (\<lambda>m.
     bindE (kvm_setregs H \<lparr>rax = 0, rbx = 0, rcx = 0, rdx = 0, rsi = 0, rdi = 0, rsp = 0, rbp = 0, rip = 0x7c00,
       rflags = 2\<rparr> m) (\<lambda>m.
     kvm_exec H fuel 10 (upd_guest (\<lambda>g. g\<lparr>g_mem := (\<lambda>a. if 0x7c00 \<le> a \<and> a < 0x7c00 + length mbr
       then mbr ! (a - 0x7c00) else g_mem g a)\<rparr>) m))))"

section \<open>The functions of the reference\<close>

definition kvm_difftest_memcpy :: "u32 \<Rightarrow> bytes \<Rightarrow> nat \<Rightarrow> bool \<Rightarrow> 'k kvm \<Rightarrow> (bytes \<times> 'k kvm) res" where
  "kvm_difftest_memcpy addr buf n to_ref m =
     bindE (in_object MSIZE (unat addr) n) (\<lambda>_.
     if to_ref then Inr (buf, upd_guest (\<lambda>g. g\<lparr>g_mem := (\<lambda>a. if unat addr \<le> a \<and> a < unat addr + n
       then buf (a - unat addr) else g_mem g a)\<rparr>) m)
     else Inr ((\<lambda>i. if i < n then g_mem (guest m) (unat addr + i) else buf i), m))"

text \<open>\<^verbatim>\<open>x86_CPU_state\<close> belongs to the x86 core, which is not part of the sources; the fields are those copied here.\<close>

record x86_CPU_state =
  x_eax :: u32
  x_ebx :: u32
  x_ecx :: u32
  x_edx :: u32
  x_esp :: u32
  x_ebp :: u32
  x_esi :: u32
  x_edi :: u32
  x_pc :: u32

definition kvm_difftest_regcpy :: "x86_CPU_state \<Rightarrow> bool \<Rightarrow> 'k kvm \<Rightarrow> x86_CPU_state \<times> 'k kvm" where
  "kvm_difftest_regcpy x to_ref m =
     (if to_ref then
        (x, upd_guest (\<lambda>g. g\<lparr>g_regs := (g_regs g)\<lparr>rax := ucast (x_eax x), rbx := ucast (x_ebx x), rcx := ucast (x_ecx x),
            rdx := ucast (x_edx x), rsp := ucast (x_esp x), rbp := ucast (x_ebp x), rsi := ucast (x_esi x),
            rdi := ucast (x_edi x), rip := ucast (x_pc x), rflags := rflags (g_regs g) OR ucast RFLAGS_TF\<rparr>,
          g_dirty_regs := KVM_SYNC_X86_REGS\<rparr>) m)
      else
        (let r = gregs m in
         (x\<lparr>x_eax := ucast (rax r), x_ebx := ucast (rbx r), x_ecx := ucast (rcx r), x_edx := ucast (rdx r),
            x_esp := ucast (rsp r), x_ebp := ucast (rbp r), x_esi := ucast (rsi r), x_edi := ucast (rdi r),
            x_pc := ucast (rip r)\<rparr>, m)))"

definition kvm_difftest_exec :: "'k kvm_host \<Rightarrow> nat \<Rightarrow> u64 \<Rightarrow> 'k kvm \<Rightarrow> 'k kvm res" where
  "kvm_difftest_exec H fuel n m = kvm_exec H fuel (unat n) m"

text \<open>The gate's address is computed in 64 bits and kept in 32; the bytes of the entry are combined as in C.\<close>

definition gate_entry :: "'k kvm \<Rightarrow> u32 \<Rightarrow> u32 res" where
  "gate_entry m pgate =
     bindE (mem8 m pgate) (\<lambda>b0. bindE (mem8 m (pgate + 1)) (\<lambda>b1.
     bindE (mem8 m (pgate + 6)) (\<lambda>b6. bindE (mem8 m (pgate + 7)) (\<lambda>b7.
     Inr (((ucast b0 OR push_bit 8 (ucast b1)) OR push_bit 16 (ucast b6)) OR push_bit 24 (ucast b7))))))"

definition kvm_difftest_raise_intr :: "'k kvm_host \<Rightarrow> u32 \<Rightarrow> 'k kvm \<Rightarrow> 'k kvm res" where
  "kvm_difftest_raise_intr H NO m =
     (let pgate_vaddr = ucast (sr_idt_base (g_sregs (guest m)) + ucast (NO * 8)) :: u32 in
      bindE (va2pa H m (ucast pgate_vaddr)) (\<lambda>pa.
      bindE (gate_entry m (ucast pa)) (\<lambda>entry.
      bindE (kvm_set_step_mode H True entry m) (\<lambda>m1.
      let m2 = m1\<lparr>int_wp_state := STATE_INT_INST, has_error_code := (NO = 14), wp_entry := entry\<rparr> in
      if NO = 48 then
        (case hv_interrupt H NO (g_kernel (guest m2)) of (ret, k) \<Rightarrow>
           bindE (assertE (ret = 0) ''ret == 0'') (\<lambda>_. Inr (upd_guest (\<lambda>g. g\<lparr>g_kernel := k\<rparr>) m2)))
      else Inr m2))))"

definition kvm_difftest_init :: "'k kvm_host \<Rightarrow> nat \<Rightarrow> 'k kvm \<Rightarrow> 'k kvm res" where
  "kvm_difftest_init H fuel m =
     bindE (vm_init H MSIZE m) (\<lambda>m. bindE (vcpu_init H m) (run_protected_mode H fuel))"

end
