(* ===== verification/KvmProps.thy ===== *)
theory KvmProps
  imports Kvm
begin

text \<open>
  The KVM reference: the patched flag instructions, and the state of the watchpoint across runs.
\<close>

unbundle bit_operations_syntax

section \<open>Without paging\<close>

definition no_paging :: "'k kvm \<Rightarrow> bool" where
  "no_paging m \<longleftrightarrow> sr_cr0 (g_sregs (guest m)) AND CR0_PG = 0"

lemma va2pa_flat: "no_paging m \<Longrightarrow> va2pa H m va = Inr va"
  by (simp add: va2pa_def no_paging_def)

lemmas guest_simps = upd_guest_def set_gregs_def gregs_def

lemma no_paging_regs [simp]:
  "no_paging (set_gregs r m) = no_paging m" "no_paging (m\<lparr>guest := guest m\<lparr>g_mem := x\<rparr>\<rparr>) = no_paging m"
  by (simp_all add: no_paging_def guest_simps)

lemma u32_of_u64 [simp]: "ucast (ucast x :: u64) = x" for x :: u32
  by (rule bit_word_eqI) (simp add: bit_simps)

definition pushed_flags :: "u64 \<Rightarrow> u32" where
  "pushed_flags fl = ucast fl AND NOT RFLAGS_FIX_MASK"

lemma pushed_flags_eq: "ucast (fl AND ucast (NOT RFLAGS_FIX_MASK)) = pushed_flags fl"
  by (rule bit_word_eqI) (simp add: pushed_flags_def bit_and_iff bit_ucast_iff)

lemma patching_pushf:
  assumes "no_paging m" and "int_wp_state m \<noteq> STATE_INT_INST" and "rip (gregs m) = ucast (pc :: u32)"
    and "g_mem (guest m) (unat pc) = 0x9c" and "unat pc < MSIZE" and "rsp (gregs m) = ucast sp + 4"
    and "unat (sp :: u32) + 4 \<le> MSIZE"
  shows "patching H m = Inr (True, m\<lparr>guest := (guest m)\<lparr>g_mem := le_write (g_mem (guest m)) (unat sp) 4 (pushed_flags (rflags (gregs m))),
    g_regs := (gregs m)\<lparr>rsp := ucast sp, rflags := rflags (gregs m) OR ucast RFLAGS_TF, rip := rip (gregs m) + 1\<rparr>,
    g_dirty_regs := KVM_SYNC_X86_REGS\<rparr>\<rparr>)"
proof -
  have "pc \<noteq> 0xffffffff" using assms(5) by (auto simp: MSIZE_eq)
  with assms show ?thesis
    by (simp add: patching_def va2pa_flat Let_def mem8_def patch_pushf_def set_mem32_def pushed_flags_eq)
      (simp add: guest_simps)
qed

lemma patching_popf:
  assumes "no_paging m" and "int_wp_state m \<noteq> STATE_INT_INST" and "rip (gregs m) = ucast (pc :: u32)"
    and "g_mem (guest m) (unat pc) = 0x9d" and "unat pc < MSIZE" and "rsp (gregs m) = ucast sp"
    and "unat (sp :: u32) + 4 \<le> MSIZE"
  shows "patching H m = Inr (True, m\<lparr>guest := (guest m)\<lparr>
    g_regs := (gregs m)\<lparr>rsp := ucast sp + 4,
      rflags := ucast ((le_read (g_mem (guest m)) (unat sp) 4 OR RFLAGS_TF) OR 2 :: u32), rip := rip (gregs m) + 1\<rparr>,
    g_dirty_regs := KVM_SYNC_X86_REGS\<rparr>\<rparr>)"
proof -
  have "pc \<noteq> 0xffffffff" using assms(5) by (auto simp: MSIZE_eq)
  with assms show ?thesis
    by (simp add: patching_def va2pa_flat Let_def mem8_def patch_popf_def mem32_def)
      (simp add: guest_simps)
qed

text \<open>Saving and restoring the flags, as the two instructions run one after the other.\<close>

lemma kvm_exec_patched:
  "patching H m = Inr (True, m1) \<Longrightarrow> kvm_exec H fuel (Suc n) m = kvm_exec H fuel n m1"
  by (simp add: kvm_exec.simps [of H fuel "Suc n"])

lemma kvm_exec_0 [simp]: "kvm_exec H fuel 0 m = Inr m"
  by (simp add: kvm_exec.simps)

lemma pushf_then_popf:
  assumes "no_paging m" and "int_wp_state m \<noteq> STATE_INT_INST" and "rip (gregs m) = ucast (pc :: u32)"
    and "g_mem (guest m) (unat pc) = 0x9c" and "g_mem (guest m) (unat pc + 1) = 0x9d" and "unat pc + 1 < MSIZE"
    and "rsp (gregs m) = ucast sp + 4" and "unat (sp :: u32) + 4 \<le> MSIZE"
    and "unat pc + 1 < unat sp \<or> unat sp + 4 \<le> unat pc + 1"
  shows "kvm_exec H fuel 2 m = Inr (m\<lparr>guest := (guest m)\<lparr>
    g_mem := le_write (g_mem (guest m)) (unat sp) 4 (pushed_flags (rflags (gregs m))),
    g_regs := (gregs m)\<lparr>rip := rip (gregs m) + 2, rflags := ucast ((pushed_flags (rflags (gregs m)) OR RFLAGS_TF) OR 2)\<rparr>,
    g_dirty_regs := KVM_SYNC_X86_REGS\<rparr>\<rparr>)"
proof -
  let ?fl = "pushed_flags (rflags (gregs m))"
  let ?m1 = "m\<lparr>guest := (guest m)\<lparr>g_mem := le_write (g_mem (guest m)) (unat sp) 4 ?fl,
    g_regs := (gregs m)\<lparr>rsp := ucast sp, rflags := rflags (gregs m) OR ucast RFLAGS_TF, rip := rip (gregs m) + 1\<rparr>,
    g_dirty_regs := KVM_SYNC_X86_REGS\<rparr>\<rparr>"
  have p1: "patching H m = Inr (True, ?m1)"
    using assms(6) by (intro patching_pushf [where pc = pc]) (use assms in auto)
  have pc1: "unat (pc + 1) = unat pc + 1" using assms(6) by (simp add: unat_word_ariths MSIZE_eq)
  have u: "ucast pc + 1 = (ucast (pc + 1) :: u64)"
    using assms(6) pc1 by (simp add: word_unat_eq_iff unat_word_ariths unsigned_ucast_eq take_bit_nat_eq_self MSIZE_eq)
  have "patching H ?m1 = Inr (True, ?m1\<lparr>guest := (guest ?m1)\<lparr>
    g_regs := (gregs ?m1)\<lparr>rsp := ucast sp + 4,
      rflags := ucast ((le_read (g_mem (guest ?m1)) (unat sp) 4 OR RFLAGS_TF) OR 2 :: u32), rip := rip (gregs ?m1) + 1\<rparr>,
    g_dirty_regs := KVM_SYNC_X86_REGS\<rparr>\<rparr>)"
    by (rule patching_popf [of _ "pc + 1"])
      (use assms u pc1 in \<open>auto simp: no_paging_def gregs_def le_write_apply\<close>)
  then have "kvm_exec H fuel (Suc (Suc 0)) m = Inr (?m1\<lparr>guest := (guest ?m1)\<lparr>
    g_regs := (gregs ?m1)\<lparr>rsp := ucast sp + 4,
      rflags := ucast ((le_read (g_mem (guest ?m1)) (unat sp) 4 OR RFLAGS_TF) OR 2 :: u32), rip := rip (gregs ?m1) + 1\<rparr>,
    g_dirty_regs := KVM_SYNC_X86_REGS\<rparr>\<rparr>)"
    by (simp only: kvm_exec_patched [OF p1] kvm_exec_patched kvm_exec_0)
  moreover have "r\<lparr>rsp := ucast sp + 4, rflags := fl, rip := p\<rparr> = r\<lparr>rip := p, rflags := fl\<rparr>"
    if "rsp r = ucast sp + 4" for r fl p
    using that by (cases r) simp
  ultimately show ?thesis
    using assms(7) by (simp add: gregs_def le_read_write_same add.assoc numeral_2_eq_2)
qed

section \<open>The watchpoint\<close>

text \<open>
  What is documented of the kernel: a run a signal interrupts has not changed the machine, the exit for a halt
  comes only at a halt instruction (so not at the opcode of an iret), and setting the debug registers changes no
  translation.
\<close>

definition opcode_at :: "'k kvm_host \<Rightarrow> 'k kvm \<Rightarrow> u8 \<Rightarrow> bool" where
  "opcode_at H m op \<longleftrightarrow> bindE (va2pa H m (rip (gregs m)))
     (\<lambda>pa. if (ucast pa :: u32) = 0xffffffff then Inl (Host_oob 0) else mem8 m (ucast pa)) = Inr op"

definition kvm_laws :: "'k kvm_host \<Rightarrow> bool" where
  "kvm_laws H \<longleftrightarrow>
     (\<forall>g g'. hv_run H g = (Run_eintr, g') \<longrightarrow> g' = g) \<and>
     (\<forall>m g'. hv_run H (guest m) = (Run_ok, g') \<longrightarrow> g_exit g' = KVM_EXIT_HLT \<longrightarrow> \<not> opcode_at H m 0xcf) \<and>
     (\<forall>va w a k. hv_translate H va (snd (hv_set_debug H w a k)) = hv_translate H va k)"

text \<open>The watchpoint is set between two runs only where an iret is about to be executed.\<close>

definition wp_ok :: "'k kvm_host \<Rightarrow> 'k kvm \<Rightarrow> bool" where
  "wp_ok H m \<longleftrightarrow> int_wp_state m = STATE_IDLE \<or> int_wp_state m = STATE_IRET_INST \<and> opcode_at H m 0xcf"

lemma wp_okD: "wp_ok H m \<Longrightarrow> int_wp_state m \<noteq> STATE_INT_INST"
  by (auto simp: wp_ok_def)

lemma kernel_do_keeps:
  "kernel_do f msg m = Inr m' \<Longrightarrow> int_wp_state m' = int_wp_state m \<and> wp_entry m' = wp_entry m \<and>
     guest m' = (guest m)\<lparr>g_kernel := snd (f (g_kernel (guest m)))\<rparr>"
  by (auto simp: kernel_do_def kernel_call_def upd_guest_def res_simps split: prod.splits if_splits)

lemma set_mem32_state: "set_mem32 a v m = Inr m' \<Longrightarrow> int_wp_state m' = int_wp_state m"
  by (auto simp: set_mem32_def upd_guest_def res_simps)

lemma patch_state:
  "patch_pushf H m = Inr m' \<Longrightarrow> int_wp_state m' = int_wp_state m"
  "patch_popf H m = Inr m' \<Longrightarrow> int_wp_state m' = int_wp_state m"
  by (auto simp: patch_pushf_def patch_popf_def res_simps Let_def guest_simps dest!: set_mem32_state)

lemma opcode_after_debug:
  assumes "kvm_laws H" and "kvm_set_step_mode H w a m = Inr m'"
  shows "opcode_at H m' op = opcode_at H m op"
proof -
  have g: "guest m' = (guest m)\<lparr>g_kernel := snd (hv_set_debug H w a (g_kernel (guest m)))\<rparr>"
    using kernel_do_keeps [OF assms(2) [unfolded kvm_set_step_mode_def]] by simp
  have t: "hv_translate H va (snd (hv_set_debug H w a k)) = hv_translate H va k" for va k
    using assms(1) unfolding kvm_laws_def by blast
  have "va2pa H m' = va2pa H m" by (rule ext) (simp add: va2pa_def g t)
  moreover have "mem8 m' = mem8 m" by (rule ext) (simp add: mem8_def g)
  moreover have "gregs m' = gregs m" by (simp add: gregs_def g)
  ultimately show ?thesis by (simp add: opcode_at_def cong: if_cong)
qed

lemma opcode_at_cong: "guest m' = guest m \<Longrightarrow> opcode_at H m' op = opcode_at H m op"
  by (simp add: opcode_at_def va2pa_def mem8_def gregs_def cong: if_cong)

text \<open>The three instructions that are treated, and the rest.\<close>

lemma patching_cases:
  assumes "patching H m = Inr (fin, m')"
  obtains (other) "\<not> fin" "m' = m" "int_wp_state m = STATE_INT_INST \<or> \<not> opcode_at H m 0xcf"
  | (flags) "fin" "int_wp_state m' = int_wp_state m" "\<not> opcode_at H m 0xcf"
  | (iret) eip m1 where "\<not> fin" "opcode_at H m 0xcf" "kvm_set_step_mode H True eip (m\<lparr>wp_entry := eip\<rparr>) = Inr m1"
      "m' = m1\<lparr>int_wp_state := STATE_IRET_INST\<rparr>"
proof -
  obtain pa where pa: "va2pa H m (rip (gregs m)) = Inr pa" using assms by (auto simp: patching_def res_simps)
  show ?thesis
  proof (cases "(ucast pa :: u32) = 0xffffffff")
    case True
    then show ?thesis using assms pa other by (simp add: patching_def opcode_at_def)
  next
    case False
    obtain op where op: "mem8 m (ucast pa) = Inr op" using assms pa False by (auto simp: patching_def res_simps Let_def)
    have o: "opcode_at H m x \<longleftrightarrow> op = x" for x using pa op False by (simp add: opcode_at_def)
    show ?thesis
      using assms pa op False other flags iret
      by (auto simp: patching_def o res_simps Let_def dest: patch_state split: if_splits)
  qed
qed

lemma patching_wp:
  assumes "kvm_laws H" and "wp_ok H m" and "patching H m = Inr (fin, m')"
  shows "wp_ok H m' \<and> (fin \<longrightarrow> int_wp_state m' = STATE_IDLE)"
  using assms(3)
proof (cases rule: patching_cases)
  case other
  then show ?thesis using assms(2) by simp
next
  case flags
  then show ?thesis using assms(2) by (auto simp: wp_ok_def)
next
  case (iret eip m1)
  have "opcode_at H m1 0xcf = opcode_at H (m\<lparr>wp_entry := eip\<rparr>) 0xcf" by (rule opcode_after_debug [OF assms(1) iret(3)])
  moreover have "opcode_at H (m\<lparr>wp_entry := eip\<rparr>) 0xcf = opcode_at H m 0xcf"
      "opcode_at H m' 0xcf = opcode_at H m1 0xcf"
    by (rule opcode_at_cong, simp add: iret(4))+
  ultimately show ?thesis using iret by (simp add: wp_ok_def)
qed

lemma after_step_idle: "after_step H m = Inr m' \<Longrightarrow> int_wp_state m' = STATE_IDLE"
  by (cases "int_wp_state m") (auto simp: after_step_def res_simps)

lemma patching_after_state: "patching_after H pc m = Inr m' \<Longrightarrow> int_wp_state m' = int_wp_state m"
  by (auto simp: patching_after_def fix_push_sreg_def res_simps Let_def dest!: set_mem32_state split: if_splits)

text \<open>One turn of the loop.\<close>

lemma kvm_exec_turn:
  assumes "kvm_exec H fuel n m = Inr m'" and "kvm_laws H" and "wp_ok H m" and "n \<noteq> 0"
  shows "int_wp_state m' = STATE_IDLE \<or>
    (\<exists>fuel' n' m1. kvm_exec H fuel' n' m1 = Inr m' \<and> wp_ok H m1 \<and> fuel' + n' < fuel + n \<and>
       (n' = n \<or> int_wp_state m1 = STATE_IDLE))"
proof -
  obtain fin m1 where p: "patching H m = Inr (fin, m1)"
    using assms(1,4) by (auto simp: kvm_exec.simps [of H fuel n] res_simps)
  have w1: "wp_ok H m1" "fin \<longrightarrow> int_wp_state m1 = STATE_IDLE" using patching_wp [OF assms(2,3) p] by simp_all
  obtain r g where r: "hv_run H (guest m1) = (r, g)" by fastforce
  let ?m2 = "m1\<lparr>guest := g\<rparr>"
  show ?thesis
  proof (cases "fin")
    case True
    then have "kvm_exec H fuel (n - 1) m1 = Inr m'" using assms(1,4) p by (simp add: kvm_exec.simps [of H fuel n])
    moreover have "fuel + (n - 1) < fuel + n" using assms(4) by simp
    ultimately show ?thesis using w1 True by blast
  next
    case nd: False
    show ?thesis
    proof (cases r)
      case Run_failed
      then show ?thesis using assms(1,4) p nd r by (simp add: kvm_exec.simps [of H fuel n])
    next
      case Run_eintr
      have "g = guest m1" using assms(2) r Run_eintr unfolding kvm_laws_def by blast
      then have "wp_ok H ?m2" using w1(1) by simp
      moreover have "kvm_exec H (fuel - 1) n ?m2 = Inr m'" "fuel \<noteq> 0"
        using assms(1,4) p nd r Run_eintr by (auto simp: kvm_exec.simps [of H fuel n] Let_def split: if_splits)
      moreover have "fuel \<noteq> 0 \<Longrightarrow> fuel - 1 + n < fuel + n" by simp
      ultimately show ?thesis by blast
    next
      case Run_ok
      show ?thesis
      proof (cases "g_exit g = KVM_EXIT_HLT")
        case True
        then have "\<not> opcode_at H m1 0xcf" using assms(2) r Run_ok unfolding kvm_laws_def by blast
        then have "int_wp_state m1 = STATE_IDLE" using w1(1) by (simp add: wp_ok_def)
        then show ?thesis
          using assms(1,4) p nd r Run_ok True by (auto simp: kvm_exec.simps [of H fuel n])
      next
        case nh: False
        obtain m3 m4 where m: "patching_after H (rip (gregs m1)) ?m2 = Inr m3" "after_step H m3 = Inr m4"
            "kvm_exec H fuel (n - 1) m4 = Inr m'"
          using assms(1,4) p nd r Run_ok nh by (auto simp: kvm_exec.simps [of H fuel n] res_simps Let_def split: if_splits)
        have "int_wp_state m4 = STATE_IDLE" by (rule after_step_idle [OF m(2)])
        moreover have "fuel + (n - 1) < fuel + n" using assms(4) by simp
        ultimately show ?thesis using m(3) unfolding wp_ok_def by blast
      qed
    qed
  qed
qed

lemma kvm_exec_wp:
  "kvm_exec H fuel n m = Inr m' \<Longrightarrow> kvm_laws H \<Longrightarrow> wp_ok H m \<Longrightarrow> n \<noteq> 0 \<or> int_wp_state m = STATE_IDLE \<Longrightarrow>
   int_wp_state m' = STATE_IDLE"
proof (induction "fuel + n" arbitrary: fuel n m rule: less_induct)
  case less
  show ?case
  proof (cases "n = 0")
    case True
    then show ?thesis using less.prems by simp
  next
    case False
    from kvm_exec_turn [OF less.prems(1-3) False] show ?thesis
      using less.hyps less.prems(2) False by blast
  qed
qed

text \<open>Without interruptions by signals the fuel is not used.\<close>

lemma kvm_exec_no_signal:
  assumes "\<And>g g'. hv_run H g \<noteq> (Run_eintr, g')"
  shows "kvm_exec H fuel n m = kvm_exec H 0 n m"
proof (induction n arbitrary: m)
  case (Suc n)
  have f: "bindE x f = bindE x g" if "\<And>y. f y = g y" for x :: "'x res" and f g :: "'x \<Rightarrow> 'a kvm res"
    using that by (cases x) simp_all
  show ?case
    by (subst (1 2) kvm_exec.simps) (auto simp: Suc.IH Let_def assms intro!: f split: prod.splits run_ret.splits)
qed simp

text \<open>
  An interrupt raised where an iret is next: the patch of the iret, which has no guard for it, replaces the watchpoint at the
  interrupt's entry by one at the return address.
\<close>

lemma iret_drops_interrupt:
  assumes "patching H m = Inr (fin, m')" and "opcode_at H m 0xcf"
  shows "\<not> fin \<and> int_wp_state m' = STATE_IRET_INST"
  using assms(1) by (cases rule: patching_cases) (use assms in \<open>auto simp: patching_def opcode_at_def res_simps Let_def split: if_splits\<close>)

text \<open>The machine comes up without a watchpoint.\<close>

lemma kernel_do_state: "kernel_do f msg m = Inr m' \<Longrightarrow> int_wp_state m' = int_wp_state m"
  using kernel_do_keeps by blast

lemma setregs_state:
  "kvm_setregs H r m = Inr m' \<Longrightarrow> int_wp_state m' = int_wp_state m"
  "kvm_setsregs H s m = Inr m' \<Longrightarrow> int_wp_state m' = int_wp_state m"
  "kvm_getsregs H m = Inr (s, m') \<Longrightarrow> int_wp_state m' = int_wp_state m"
  by (auto simp: kvm_setregs_def kvm_setsregs_def kvm_getsregs_def kvm_set_step_mode_def res_simps upd_guest_def
      dest!: kernel_do_state split: prod.splits if_splits)

lemma vcpu_init_idle: "vcpu_init H m = Inr m' \<Longrightarrow> int_wp_state m' = STATE_IDLE"
  by (auto simp: vcpu_init_def res_simps case_prod_beta)

lemma run_protected_mode_idle:
  assumes "run_protected_mode H fuel m = Inr m'" and "kvm_laws H" and "int_wp_state m = STATE_IDLE"
  shows "int_wp_state m' = STATE_IDLE"
proof -
  obtain m1 f where "kvm_exec H fuel 10 (upd_guest f m1) = Inr m'" "int_wp_state m1 = STATE_IDLE"
    using assms(1,3) by (auto simp: run_protected_mode_def res_simps dest!: setregs_state)
  then show ?thesis
    using kvm_exec_wp [OF _ assms(2), of fuel 10 "upd_guest f m1"] by (simp add: wp_ok_def upd_guest_def)
qed

end
