(* ===== verification/GdbLink.thy ===== *)
theory GdbLink
  imports Gdb Cstr
begin

text \<open>
  Bringing up the QEMU reference: the connection to its debug port (\<^verbatim>\<open>protocol.c\<close>, \<^verbatim>\<open>gdb-host.c\<close>), the process
  \<^verbatim>\<open>difftest_init\<close> starts (\<^verbatim>\<open>diff-test.c\<close>), and the boot sector of the x86 variant (\<^verbatim>\<open>isa.c\<close>). What the operating system
  answers is a parameter; its answers to repeated calls are numbered.
\<close>

unbundle bit_operations_syntax

section \<open>The connection\<close>

text \<open>\<open>ln_stream\<close> is what the peer of the connection will have sent.\<close>

record link_env =
  ln_aton :: "string \<Rightarrow> bool"
  ln_socket :: "nat \<Rightarrow> int"
  ln_connect :: "nat \<Rightarrow> string \<Rightarrow> u16 \<Rightarrow> bool"
  ln_keepalive :: "nat \<Rightarrow> int"
  ln_nodelay :: "nat \<Rightarrow> int"
  ln_calloc :: bool
  ln_dup :: "nat \<Rightarrow> int"
  ln_fdopen_in :: "nat \<Rightarrow> bool"
  ln_fdopen_out :: "nat \<Rightarrow> bool"
  ln_stream :: "u8 list"

definition errE :: "bool \<Rightarrow> unit res" where
  "errE failed = (if failed then Inl (Exit 1) else Inr ())"

definition gdb_begin_fd :: "link_env \<Rightarrow> nat \<Rightarrow> gdb_conn res" where
  "gdb_begin_fd L k =
     bindE (errE (\<not> ln_calloc L)) (\<lambda>_.
     bindE (errE (ln_dup L k < 0)) (\<lambda>_.
     bindE (errE (\<not> ln_fdopen_in L k)) (\<lambda>_.
     bindE (errE (\<not> ln_fdopen_out L k)) (\<lambda>_. Inr (gdb_begin (ln_stream L))))))"

definition gdb_begin_inet :: "link_env \<Rightarrow> string \<Rightarrow> u16 \<Rightarrow> nat \<Rightarrow> gdb_conn option res" where
  "gdb_begin_inet L addr port k =
     bindE (errE (\<not> ln_aton L addr)) (\<lambda>_.
     bindE (errE (ln_socket L k < 0)) (\<lambda>_.
     if \<not> ln_connect L k addr port then Inr None
     else
       bindE (assertE (ln_keepalive L k = 0) ''setsockopt'') (\<lambda>_.
       bindE (assertE (ln_nodelay L k = 0) ''setsockopt'') (\<lambda>_.
       bindE (gdb_begin_fd L k) (\<lambda>conn. Inr (Some conn))))))"

text \<open>
  The loop tries until the connection is made; \<open>None\<close> when it has not been made within the attempts the fuel allows.
  The port is narrowed to 16 bits at the call.
\<close>

fun gdb_connect_qemu :: "link_env \<Rightarrow> nat \<Rightarrow> int \<Rightarrow> nat \<Rightarrow> gdb_conn res option" where
  "gdb_connect_qemu L 0 port k = None"
| "gdb_connect_qemu L (Suc fuel) port k =
     (case gdb_begin_inet L ''127.0.0.1'' (of_int port) k of
        Inl e \<Rightarrow> Some (Inl e)
      | Inr (Some conn) \<Rightarrow> Some (Inr conn)
      | Inr None \<Rightarrow> gdb_connect_qemu L fuel port (Suc k))"

text \<open>The connection is the one of the first attempt that the peer accepts.\<close>

lemma gdb_connect_first:
  assumes "\<And>j. j < n \<Longrightarrow> gdb_begin_inet L ''127.0.0.1'' (of_int port) (k + j) = Inr None"
    and "gdb_begin_inet L ''127.0.0.1'' (of_int port) (k + n) = Inr (Some conn)" and "n < fuel"
  shows "gdb_connect_qemu L fuel port k = Some (Inr conn)"
  using assms
proof (induction n arbitrary: k fuel)
  case 0
  then show ?case by (cases fuel) simp_all
next
  case (Suc n)
  obtain f where f: "fuel = Suc f" using Suc.prems(3) by (cases fuel) simp_all
  have "gdb_connect_qemu L f port (Suc k) = Some (Inr conn)"
    using Suc.IH [of "Suc k" f] Suc.prems f by (metis (no_types, lifting) Suc_less_eq add_Suc_right add_Suc_shift)
  moreover have "gdb_begin_inet L ''127.0.0.1'' (of_int port) k = Inr None" using Suc.prems(1) [of 0] by simp
  ultimately show ?case using f by simp
qed

section \<open>isa.c for x86\<close>

definition qemu_mbr :: "u8 list" where
  "qemu_mbr = [0xfa, 0x31, 0xc0, 0x8e, 0xd8, 0x8e, 0xc0, 0x8e, 0xd0, 0x0f, 0x01, 0x16, 0x44, 0x7c, 0x0f, 0x20, 0xc0,
     0x66, 0x83, 0xc8, 0x01, 0x0f, 0x22, 0xc0, 0xea, 0x1d, 0x7c, 0x08, 0x00,
     0x66, 0xb8, 0x10, 0x00, 0x8e, 0xd8, 0x8e, 0xc0, 0x8e, 0xd0, 0xeb, 0xfe, 0x8d, 0x76, 0x00,
     0x00, 0x00, 0x00, 0x00, 0x00, 0x00, 0x00, 0x00, 0xff, 0xff, 0x00, 0x00, 0x00, 0x9a, 0xcf, 0x00,
     0xff, 0xff, 0x00, 0x00, 0x00, 0x92, 0xcf, 0x00, 0x17, 0x00, 0x2c, 0x7c, 0x00, 0x00]"

text \<open>Places of \<^verbatim>\<open>eip\<close> and \<^verbatim>\<open>cs\<close> in the registers of x86.\<close>

definition X86_EIP :: nat where "X86_EIP = 8"
definition X86_CS :: nat where "X86_CS = 10"

definition init_isa_x86 :: "(nat \<Rightarrow> u8) \<Rightarrow> gdb_conn \<Rightarrow> gdb_conn res option" where
  "init_isa_x86 junk conn =
     bindR (gdb_memcpy_to_qemu True 0x7c00 qemu_mbr conn) (\<lambda>(ok, conn).
     bindR (Some (assertE ok ''ok == 1'')) (\<lambda>_.
     bindR (gdb_getregs junk conn) (\<lambda>(r, conn).
     bindR (gdb_setregs (r[X86_EIP := 0x7c00, X86_CS := 0]) conn) (\<lambda>(ok, conn).
     bindR (Some (assertE ok ''ok == 1'')) (\<lambda>_. qemu_difftest_exec 20 conn)))))"

text \<open>The boot sector's descriptor of its table points at the table inside it.\<close>

lemma qemu_mbr_gdt:
  "length qemu_mbr = 0x4a" "drop (0x7c44 - 0x7c00) qemu_mbr = [0x17, 0x00, 0x2c, 0x7c, 0x00, 0x00]"
  "take 8 (drop (0x7c2c - 0x7c00) qemu_mbr) = [0, 0, 0, 0, 0, 0, 0, 0]"
  by (simp_all add: qemu_mbr_def)

section \<open>difftest\_init\<close>

text \<open>What \<^verbatim>\<open>fork\<close> returns; in the child, whether \<^verbatim>\<open>prctl\<close> succeeds, the parent is still there, and the program starts.\<close>

datatype fork_ret = Fork_failed | In_child bool bool bool | In_parent

datatype init_outcome = Execs "string list" | Connected gdb_conn

definition ISA_QEMU_BIN :: string where "ISA_QEMU_BIN = ''qemu-system-riscv32''"
definition ISA_QEMU_ARGS :: "string list" where "ISA_QEMU_ARGS = [''-bios'', ''none'']"

definition gdb_port_arg :: "int \<Rightarrow> string" where
  "gdb_port_arg port = ''tcp::'' @ (if port < 0 then ''-'' @ dec_text (nat (- port)) else dec_text (nat port))"

text \<open>For RISC-V \<^verbatim>\<open>init_isa\<close> does nothing.\<close>

definition qemu_difftest_init :: "link_env \<Rightarrow> nat \<Rightarrow> fork_ret \<Rightarrow> int \<Rightarrow> init_outcome res option" where
  "qemu_difftest_init L fuel frk port = (case frk of
      Fork_failed \<Rightarrow> Some (Inl (Assert_fail ''fork''))
    | In_child prctl_ok parent_there exec_ok \<Rightarrow>
        Some (if \<not> prctl_ok then Inl (Assert_fail ''prctl error'')
          else if \<not> parent_there then Inl (Assert_fail ''parent has died!'')
          else if \<not> exec_ok then Inl (Assert_fail ''exec'')
          else Inr (Execs (ISA_QEMU_BIN # ISA_QEMU_ARGS @ [''-S'', ''-gdb'', gdb_port_arg port, ''-nographic'', ''-serial'',
            ''none'', ''-monitor'', ''none''])))
    | In_parent \<Rightarrow> bindR (gdb_connect_qemu L fuel port 0) (\<lambda>conn. Some (Inr (Connected conn))))"

end
