(* ===== verification/Tools.thy ===== *)
theory Tools
  imports MiniVm Cstr
begin

text \<open>
  The small parts around the emulator: its log (\<^verbatim>\<open>src/utils/log.c\<close>), the terminal's line mode (\<^verbatim>\<open>src/device/serial.c\<close>
  and \<^verbatim>\<open>mini-rv32ima.c\<close>), the state dump of the mini-rv32ima machine, and the generator of test expressions
  (\<^verbatim>\<open>tools/gen-expr/gen-expr.c\<close>).
\<close>

unbundle bit_operations_syntax

section \<open>log.c\<close>

datatype log_target = Log_stdout | Log_file string

definition init_log :: "(string \<Rightarrow> bool) \<Rightarrow> string option \<Rightarrow> (log_target \<times> out_event) res" where
  "init_log can_open fname = (case fname of
      None \<Rightarrow> Inr (Log_stdout, OutLine ''Log is written to %s'' [''stdout''] [])
    | Some f \<Rightarrow> bindE (assertE (can_open f) ''Can not open'') (\<lambda>_.
        Inr (Log_file f, OutLine ''Log is written to %s'' [f] [])))"

text \<open>The bounds are those of the configuration; without tracing nothing is logged.\<close>

definition log_enable :: "(u64 \<times> u64) option \<Rightarrow> u64 \<Rightarrow> bool" where
  "log_enable trace nr_inst = (case trace of
      None \<Rightarrow> False
    | Some (TRACE_START, TRACE_END) \<Rightarrow> nr_inst \<ge> TRACE_START \<and> nr_inst \<le> TRACE_END)"

section \<open>The terminal\<close>

text \<open>Both programs switch off line editing and echo, and switch them on again when the process ends.\<close>

record terminal =
  c_lflag :: u32
  at_exit :: "string list"
  on_sigint :: "string option"

definition ICANON :: u32 where "ICANON = 2"
definition ECHO :: u32 where "ECHO = 8"

definition ResetKeyboardInput :: "terminal \<Rightarrow> terminal" where
  "ResetKeyboardInput t = t\<lparr>c_lflag := c_lflag t OR (ICANON OR ECHO)\<rparr>"

definition CaptureKeyboardInput :: "terminal \<Rightarrow> terminal" where
  "CaptureKeyboardInput t =
     (let t1 = t\<lparr>at_exit := ''ResetKeyboardInput'' # at_exit t\<rparr>
      in t1\<lparr>c_lflag := c_lflag t1 AND NOT (ICANON OR ECHO)\<rparr>)"

definition mini_ResetKeyboardInput :: "terminal \<Rightarrow> terminal" where
  "mini_ResetKeyboardInput t = t\<lparr>c_lflag := c_lflag t OR (ICANON OR ECHO)\<rparr>"

definition mini_CaptureKeyboardInput :: "terminal \<Rightarrow> terminal" where
  "mini_CaptureKeyboardInput t =
     (let t1 = t\<lparr>at_exit := ''ResetKeyboardInput'' # at_exit t, on_sigint := Some ''CtrlC''\<rparr>
      in t1\<lparr>c_lflag := c_lflag t1 AND NOT (ICANON OR ECHO)\<rparr>)"

lemma reset_after_capture:
  assumes "c_lflag t AND (ICANON OR ECHO) = ICANON OR ECHO"
  shows "c_lflag (ResetKeyboardInput (CaptureKeyboardInput t)) = c_lflag t"
proof -
  have "(w AND NOT k) OR k = w" if "w AND k = k" for w k :: u32
  proof (rule bit_word_eqI)
    fix i
    have "bit k i \<Longrightarrow> bit w i" using arg_cong [OF that, of "\<lambda>x. bit x i"] by (simp add: bit_and_iff)
    then show "bit ((w AND NOT k) OR k) i = bit w i"
      by (auto simp: bit_or_iff bit_and_iff bit_not_iff dest: bit_imp_le_length)
  qed
  from this [OF assms] show ?thesis
    by (simp only: ResetKeyboardInput_def CaptureKeyboardInput_def Let_def) simp
qed

section \<open>The state dump of mini-rv32ima\<close>

text \<open>The instruction is shown where its four bytes are in the memory; a memory of less than 4 bytes wraps the bound.\<close>

definition DumpState :: "mini \<Rightarrow> mini res" where
  "DumpState s =
     (let pc = CSR f_pc s; pc_offset = pc - MINIRV32_RAM_IMAGE_OFFSET;
          line = (\<lambda>f xs. OutLine f [] (map uint xs)) in
      bindE (if pc_offset < ram_amt s - 3
             then bindE (mini_load 4 pc_offset s) (\<lambda>ir. Inr (line ''[0x%08x] '' [ir]))
             else Inr (line ''[xxxxxxxxxx] '' []))
        (\<lambda>word. Inr (s\<lparr>mi_out := mi_out s @ [line ''PC: %08x '' [pc], word,
           line ''Z:%08x ra:%08x sp:%08x gp:%08x tp:%08x t0:%08x t1:%08x t2:%08x s0:%08x s1:%08x a0:%08x a1:%08x a2:%08x a3:%08x a4:%08x a5:%08x ''
             (map (\<lambda>i. REG (of_nat i) s) [0..<16]),
           line ''a6:%08x a7:%08x s2:%08x s3:%08x s4:%08x s5:%08x s6:%08x s7:%08x s8:%08x s9:%08x s10:%08x s11:%08x t3:%08x t4:%08x t5:%08x t6:%08x''
             (map (\<lambda>i. REG (of_nat i) s) [16..<32])]\<rparr>)))"

section \<open>gen-expr.c\<close>

text \<open>
  The generator of the expression is a stub in the sources: it leaves an empty text. The other programs it runs are
  parameters: whether the file can be written, the result of the compiler on the program text, whether the compiled program
  can be started, and the number read from it (\<open>None\<close> where there is none, so that the variable keeps what it held).
\<close>

record gen_env =
  ge_fopen :: "nat \<Rightarrow> bool"
  ge_system :: "nat \<Rightarrow> string \<Rightarrow> int"
  ge_popen :: "nat \<Rightarrow> bool"
  ge_result :: "nat \<Rightarrow> u32 option"
  ge_garbage :: "nat \<Rightarrow> u32"

definition code_prefix :: string where
  "code_prefix = ''#include <stdio.h>'' @ [CHR 0x0A] @ ''int main() {   unsigned result = ''"

definition code_suffix :: string where
  "code_suffix = '';   printf('' @ [CHR 0x22] @ ''%u'' @ [CHR 0x22] @ '', result);   return 0; }''"

definition gen_rand_expr :: "string \<Rightarrow> string" where
  "gen_rand_expr buf = []"

definition gen_iter :: "gen_env \<Rightarrow> nat \<Rightarrow> string \<times> out_event list \<Rightarrow> (string \<times> out_event list) res" where
  "gen_iter G i st = (case st of (buf0, out) \<Rightarrow>
     (let buf = gen_rand_expr buf0; code = code_prefix @ buf @ code_suffix in
      bindE (assertE (ge_fopen G i) ''fp != NULL'') (\<lambda>_.
      if ge_system G i code \<noteq> 0 then Inr (buf, out)
      else
        bindE (assertE (ge_popen G i) ''fp != NULL'') (\<lambda>_.
        Inr (buf, out @ [OutLine ''%u %s'' [buf]
          [uint (case ge_result G i of None \<Rightarrow> ge_garbage G i | Some v \<Rightarrow> v)]])))))"

fun gen_loop :: "gen_env \<Rightarrow> nat \<Rightarrow> nat \<Rightarrow> string \<times> out_event list \<Rightarrow> (string \<times> out_event list) res" where
  "gen_loop G i 0 st = Inr st"
| "gen_loop G i (Suc n) st = bindE (gen_iter G i st) (gen_loop G (Suc i) n)"

text \<open>\<^verbatim>\<open>sscanf\<close> with \<^verbatim>\<open>%d\<close> leaves the variable alone where the text does not start with a number.\<close>

definition sscanf_d :: "string \<Rightarrow> int option" where
  "sscanf_d s =
     (let r = dropWhile is_space s; digits = (if take 1 r \<in> {''-'', ''+''} then drop 1 r else r) in
      if digits \<noteq> [] \<and> is_digit (hd digits) then Some (sint (of_int (strtol10 s) :: u32)) else None)"

definition gen_main :: "gen_env \<Rightarrow> string list \<Rightarrow> out_event list res" where
  "gen_main G argv =
     (let loop = (if length argv > 1 then (case sscanf_d (argv ! 1) of Some v \<Rightarrow> v | None \<Rightarrow> 1) else 1) in
      bindE (gen_loop G 0 (nat loop) ([], [])) (\<lambda>(buf, out). Inr out))"

text \<open>A compiler that rejects a program with an empty initialiser leaves the generator without output.\<close>

lemma gen_iter_rejected:
  assumes "ge_system G i (code_prefix @ code_suffix) \<noteq> 0" and "ge_fopen G i"
  shows "gen_iter G i (buf, out) = Inr ([], out)"
  using assms by (simp add: gen_iter_def gen_rand_expr_def)

lemma gen_loop_rejected:
  assumes "\<And>i. ge_system G i (code_prefix @ code_suffix) \<noteq> 0" and "\<And>i. ge_fopen G i"
  shows "\<exists>buf'. gen_loop G i n (buf, out) = Inr (buf', out)"
proof (induction n arbitrary: i buf)
  case (Suc n)
  then show ?case using gen_iter_rejected [OF assms, of i buf out] by simp
qed simp

lemma gen_main_prints_nothing:
  assumes "\<And>i. ge_system G i (code_prefix @ code_suffix) \<noteq> 0" and "\<And>i. ge_fopen G i"
  shows "gen_main G argv = Inr []"
proof -
  define n where "n = nat (if length argv > 1 then (case sscanf_d (argv ! 1) of Some v \<Rightarrow> v | None \<Rightarrow> 1) else 1)"
  obtain buf' where "gen_loop G 0 n ([], []) = Inr (buf', [])"
    using gen_loop_rejected [OF assms, of 0 n "[]" "[]"] by auto
  then show ?thesis unfolding gen_main_def Let_def n_def by simp
qed

end
