(* ===== verification/KExpr.thy ===== *)
theory KExpr
  imports Prelude
begin

text \<open>
  The expressions of the configuration tool, \<^verbatim>\<open>tools/kconfig/expr.h\<close> and \<^verbatim>\<open>expr.c\<close>: three-valued conditions over the symbols of a
  configuration, and their simplification. A symbol is a reference into a table; an expression is a tree, whose operands below a
  logical operator are never null, and where C allows a null pointer, which stands for \<^verbatim>\<open>y\<close>, the type is an option. The trees are
  not shared, so the copies the code takes before it rewrites a tree in place need no counterpart.
\<close>

unbundle bit_operations_syntax

section \<open>Three values\<close>

datatype tristate = T_no | T_mod | T_yes

fun tri_num :: "tristate \<Rightarrow> nat" where
  "tri_num T_no = 0"
| "tri_num T_mod = 1"
| "tri_num T_yes = 2"

instantiation tristate :: linorder
begin

definition less_eq_tristate :: "tristate \<Rightarrow> tristate \<Rightarrow> bool" where
  "a \<le> b \<longleftrightarrow> tri_num a \<le> tri_num b"

definition less_tristate :: "tristate \<Rightarrow> tristate \<Rightarrow> bool" where
  "a < b \<longleftrightarrow> tri_num a < tri_num b"

instance
proof
  fix a b :: tristate
  show "a \<le> b \<Longrightarrow> b \<le> a \<Longrightarrow> a = b" by (cases a; cases b) (simp_all add: less_eq_tristate_def)
qed (auto simp: less_eq_tristate_def less_tristate_def)

end

lemmas tri_order = less_eq_tristate_def less_tristate_def

definition EXPR_OR :: "tristate \<Rightarrow> tristate \<Rightarrow> tristate" where
  "EXPR_OR a b = (if a > b then a else b)"

definition EXPR_AND :: "tristate \<Rightarrow> tristate \<Rightarrow> tristate" where
  "EXPR_AND a b = (if a < b then a else b)"

fun EXPR_NOT :: "tristate \<Rightarrow> tristate" where
  "EXPR_NOT T_no = T_yes"
| "EXPR_NOT T_mod = T_mod"
| "EXPR_NOT T_yes = T_no"

lemma EXPR_NOT_num: "tri_num (EXPR_NOT a) = 2 - tri_num a"
  by (cases a) simp_all

section \<open>Symbols and expressions\<close>

datatype symref = symbol_yes | symbol_mod | symbol_no | symbol_empty | Sym nat

datatype symbol_type = S_UNKNOWN | S_BOOLEAN | S_TRISTATE | S_INT | S_HEX | S_STRING

datatype comparison = E_EQUAL | E_UNEQUAL | E_LTH | E_LEQ | E_GTH | E_GEQ

datatype expr_type = E_NONE | E_OR | E_AND | E_NOT | E_CMP comparison | E_LIST | E_SYMBOL | E_RANGE

datatype kexpr =
    X_sym symref
  | X_not kexpr
  | X_and kexpr kexpr
  | X_or kexpr kexpr
  | X_cmp comparison symref symref
  | X_list "kexpr option" symref
  | X_range symref symref

fun e_type :: "kexpr \<Rightarrow> expr_type" where
  "e_type (X_sym s) = E_SYMBOL"
| "e_type (X_not a) = E_NOT"
| "e_type (X_and a b) = E_AND"
| "e_type (X_or a b) = E_OR"
| "e_type (X_cmp r s t) = E_CMP r"
| "e_type (X_list a s) = E_LIST"
| "e_type (X_range s t) = E_RANGE"

text \<open>What the simplification reads of a symbol.\<close>

record sym_sort =
  k_type :: symbol_type
  k_const :: bool

type_synonym sorts = "symref \<Rightarrow> sym_sort"

section \<open>Construction\<close>

definition expr_alloc_and :: "kexpr option \<Rightarrow> kexpr option \<Rightarrow> kexpr option" where
  "expr_alloc_and a b = (case a of None \<Rightarrow> b | Some x \<Rightarrow> (case b of None \<Rightarrow> a | Some y \<Rightarrow> Some (X_and x y)))"

definition expr_alloc_or :: "kexpr option \<Rightarrow> kexpr option \<Rightarrow> kexpr option" where
  "expr_alloc_or a b = (case a of None \<Rightarrow> b | Some x \<Rightarrow> (case b of None \<Rightarrow> a | Some y \<Rightarrow> Some (X_or x y)))"

text \<open>A range cannot be copied: a message, and a null pointer in its place.\<close>

fun expr_copy :: "kexpr \<Rightarrow> kexpr option" where
  "expr_copy (X_sym s) = Some (X_sym s)"
| "expr_copy (X_not a) = map_option X_not (expr_copy a)"
| "expr_copy (X_cmp r s t) = Some (X_cmp r s t)"
| "expr_copy (X_and a b) = (case (expr_copy a, expr_copy b) of (Some a', Some b') \<Rightarrow> Some (X_and a' b') | _ \<Rightarrow> None)"
| "expr_copy (X_or a b) = (case (expr_copy a, expr_copy b) of (Some a', Some b') \<Rightarrow> Some (X_or a' b') | _ \<Rightarrow> None)"
| "expr_copy (X_list None s) = Some (X_list None s)"
| "expr_copy (X_list (Some a) s) = map_option (\<lambda>a'. X_list (Some a') s) (expr_copy a)"
| "expr_copy (X_range s t) = None"

definition expr_is_yes :: "kexpr option \<Rightarrow> bool" where
  "expr_is_yes e \<longleftrightarrow> (case e of None \<Rightarrow> True | Some x \<Rightarrow> x = X_sym symbol_yes)"

definition expr_is_no :: "kexpr option \<Rightarrow> bool" where
  "expr_is_no e \<longleftrightarrow> (case e of None \<Rightarrow> False | Some x \<Rightarrow> x = X_sym symbol_no)"

section \<open>Constants in logical operators\<close>

fun expr_eliminate_yn :: "kexpr \<Rightarrow> kexpr" where
  "expr_eliminate_yn (X_and a b) =
     (let l = expr_eliminate_yn a; r = expr_eliminate_yn b in
      if l = X_sym symbol_no then X_sym symbol_no
      else if l = X_sym symbol_yes then r
      else if r = X_sym symbol_no then X_sym symbol_no
      else if r = X_sym symbol_yes then l
      else X_and l r)"
| "expr_eliminate_yn (X_or a b) =
     (let l = expr_eliminate_yn a; r = expr_eliminate_yn b in
      if l = X_sym symbol_no then r
      else if l = X_sym symbol_yes then X_sym symbol_yes
      else if r = X_sym symbol_no then l
      else if r = X_sym symbol_yes then X_sym symbol_yes
      else X_or l r)"
| "expr_eliminate_yn e = e"

section \<open>Equality\<close>

text \<open>
  The operands of two expressions, at the level of the operator \<open>ty\<close>, are compared with each other; where two are equal, both become
  the neutral constant. \<open>eq\<close> is \<open>expr_eq\<close> on operands; the numbers are the increments of \<^verbatim>\<open>trans_count\<close>. As in the code the first
  expression is descended first, then, for each of its operands, the second.
\<close>

fun neutral :: "expr_type \<Rightarrow> kexpr \<Rightarrow> kexpr" where
  "neutral E_OR e = X_sym symbol_no"
| "neutral E_AND e = X_sym symbol_yes"
| "neutral ty e = e"

definition elim_leaves :: "(kexpr \<Rightarrow> kexpr \<Rightarrow> bool) \<Rightarrow> expr_type \<Rightarrow> kexpr \<Rightarrow> kexpr \<Rightarrow> kexpr \<times> kexpr \<times> nat" where
  "elim_leaves eq ty e1 e2 =
     (if e1 = e2 \<and> (e1 = X_sym symbol_yes \<or> e1 = X_sym symbol_no) then (e1, e2, 0)
      else if \<not> eq e1 e2 then (e1, e2, 0)
      else (neutral ty e1, neutral ty e2, 1))"

text \<open>The operands of an operator of the given type.\<close>

fun operands_of :: "expr_type \<Rightarrow> kexpr \<Rightarrow> (kexpr \<times> kexpr) option" where
  "operands_of E_AND (X_and a b) = Some (a, b)"
| "operands_of E_OR (X_or a b) = Some (a, b)"
| "operands_of ty e = None"

fun rebuild :: "expr_type \<Rightarrow> kexpr \<Rightarrow> kexpr \<Rightarrow> kexpr" where
  "rebuild E_AND a b = X_and a b"
| "rebuild ty a b = X_or a b"

lemma operands_of_Some:
  "operands_of ty e = Some (a, b) \<longleftrightarrow> (ty = E_AND \<and> e = X_and a b) \<or> (ty = E_OR \<and> e = X_or a b)"
  by (cases ty; cases e) auto

lemma operands_size [termination_simp]:
  "operands_of ty e = Some (a, b) \<Longrightarrow> size a < size e" "operands_of ty e = Some (a, b) \<Longrightarrow> size b < size e"
  by (auto simp: operands_of_Some)

function elim_right ::
    "(kexpr \<Rightarrow> kexpr \<Rightarrow> bool) \<Rightarrow> expr_type \<Rightarrow> kexpr \<Rightarrow> kexpr \<Rightarrow> kexpr \<times> kexpr \<times> nat" where
  "elim_right eq ty e1 e2 =
     (case operands_of ty e2 of
        Some (l, r) \<Rightarrow>
          (let (x, l', m) = elim_right eq ty e1 l; (y, r', n) = elim_right eq ty x r in (y, rebuild ty l' r', m + n))
      | None \<Rightarrow> elim_leaves eq ty e1 e2)"
  by pat_completeness auto
termination by (relation "measure (\<lambda>(eq, ty, e1, e2). size e2)") (auto dest: operands_size)

declare elim_right.simps [simp del]

function elim_eq_at ::
    "(kexpr \<Rightarrow> kexpr \<Rightarrow> bool) \<Rightarrow> expr_type \<Rightarrow> kexpr \<Rightarrow> kexpr \<Rightarrow> kexpr \<times> kexpr \<times> nat" where
  "elim_eq_at eq ty e1 e2 =
     (case operands_of ty e1 of
        Some (l, r) \<Rightarrow>
          (let (l', x, m) = elim_eq_at eq ty l e2; (r', y, n) = elim_eq_at eq ty r x in (rebuild ty l' r', y, m + n))
      | None \<Rightarrow> elim_right eq ty e1 e2)"
  by pat_completeness auto
termination by (relation "measure (\<lambda>(eq, ty, e1, e2). size e1)") (auto dest: operands_size)

declare elim_eq_at.simps [simp del]

definition is_logical :: "kexpr \<Rightarrow> bool" where
  "is_logical e \<longleftrightarrow> e_type e = E_AND \<or> e_type e = E_OR"

definition elim_eq_with ::
    "(kexpr \<Rightarrow> kexpr \<Rightarrow> bool) \<Rightarrow> kexpr \<Rightarrow> kexpr \<Rightarrow> kexpr \<times> kexpr \<times> nat" where
  "elim_eq_with eq e1 e2 =
     (let (a1, a2, m) = (if is_logical e1 then elim_eq_at eq (e_type e1) e1 e2 else (e1, e2, 0));
          (b1, b2, n) = (if e_type a1 \<noteq> e_type a2 \<and> is_logical a2 then elim_eq_at eq (e_type a2) a1 a2 else (a1, a2, 0))
      in (expr_eliminate_yn b1, expr_eliminate_yn b2, m + n))"

text \<open>
  \<open>expr_eq\<close> calls itself on the operands; the first argument bounds the nesting of the operators, and the size of the
  first expression is enough (\<open>expr_eq_simps\<close>). \<^verbatim>\<open>trans_count\<close> is restored at the end, so the increments of the elimination are
  dropped.
\<close>

fun expr_eq_depth :: "nat \<Rightarrow> kexpr \<Rightarrow> kexpr \<Rightarrow> bool" where
  "expr_eq_depth 0 e1 e2 = False"
| "expr_eq_depth (Suc n) e1 e2 =
     (if e_type e1 \<noteq> e_type e2 then False
      else (case (e1, e2) of
          (X_cmp r a b, X_cmp r' a' b') \<Rightarrow> a = a' \<and> b = b'
        | (X_sym a, X_sym a') \<Rightarrow> a = a'
        | (X_not a, X_not a') \<Rightarrow> expr_eq_depth n a a'
        | _ \<Rightarrow>
          (if is_logical e1 then
             (let (x, y, k) = elim_eq_with (expr_eq_depth n) e1 e2 in
              (case (x, y) of (X_sym a, X_sym b) \<Rightarrow> a = b | _ \<Rightarrow> False))
           else False)))"

definition expr_eq_nn :: "kexpr \<Rightarrow> kexpr \<Rightarrow> bool" where
  "expr_eq_nn e1 e2 = expr_eq_depth (Suc (size e1)) e1 e2"

definition expr_eq :: "kexpr option \<Rightarrow> kexpr option \<Rightarrow> bool" where
  "expr_eq e1 e2 = (case (e1, e2) of
      (Some a, Some b) \<Rightarrow> expr_eq_nn a b
    | _ \<Rightarrow> expr_is_yes e1 \<and> expr_is_yes e2)"

definition expr_eliminate_eq :: "kexpr option \<Rightarrow> kexpr option \<Rightarrow> kexpr option \<times> kexpr option \<times> nat" where
  "expr_eliminate_eq e1 e2 = (case (e1, e2) of
      (Some a, Some b) \<Rightarrow> (let (x, y, n) = elim_eq_with expr_eq_nn a b in (Some x, Some y, n))
    | _ \<Rightarrow> (e1, e2, 0))"

section \<open>Rewriting\<close>

fun expr_trans_bool :: "sorts \<Rightarrow> kexpr \<Rightarrow> kexpr" where
  "expr_trans_bool S (X_and a b) = X_and (expr_trans_bool S a) (expr_trans_bool S b)"
| "expr_trans_bool S (X_or a b) = X_or (expr_trans_bool S a) (expr_trans_bool S b)"
| "expr_trans_bool S (X_not a) = X_not (expr_trans_bool S a)"
| "expr_trans_bool S (X_cmp r a b) =
     (if r = E_UNEQUAL \<and> k_type (S a) = S_TRISTATE \<and> b = symbol_no then X_sym a else X_cmp r a b)"
| "expr_trans_bool S e = e"

text \<open>
  The symbol two operands are about: the left one of a comparison or a symbol, below at most one negation. Under the
  negation of the second operand only a symbol is allowed. An unequal pair or other operands are not joined.
\<close>

fun join_plain :: "kexpr \<Rightarrow> symref option" where
  "join_plain (X_cmp r a b) = (if r = E_EQUAL \<or> r = E_UNEQUAL then Some a else None)"
| "join_plain (X_sym a) = Some a"
| "join_plain e = None"

fun join_sym1 :: "kexpr \<Rightarrow> symref option" where
  "join_sym1 (X_not e) = join_plain e"
| "join_sym1 e = join_plain e"

fun join_sym2 :: "kexpr \<Rightarrow> symref option" where
  "join_sym2 (X_not (X_sym a)) = Some a"
| "join_sym2 (X_not e) = None"
| "join_sym2 e = join_plain e"

definition join_symbol :: "sorts \<Rightarrow> kexpr \<Rightarrow> kexpr \<Rightarrow> symref option" where
  "join_symbol S e1 e2 = (case (join_sym1 e1, join_sym2 e2) of
      (Some a, Some b) \<Rightarrow> (if a = b \<and> (k_type (S a) = S_BOOLEAN \<or> k_type (S a) = S_TRISTATE) then Some a else None)
    | _ \<Rightarrow> None)"

text \<open>Both operands are comparisons of the given kind, with the two constants in either order.\<close>

definition cmp_pair :: "comparison \<Rightarrow> symref \<Rightarrow> symref \<Rightarrow> kexpr \<Rightarrow> kexpr \<Rightarrow> bool" where
  "cmp_pair r x y e1 e2 = (case (e1, e2) of
      (X_cmp r1 a b, X_cmp r2 a' b') \<Rightarrow> r1 = r \<and> r2 = r \<and> (b = x \<and> b' = y \<or> b = y \<and> b' = x)
    | _ \<Rightarrow> False)"

definition expr_join_or :: "sorts \<Rightarrow> kexpr \<Rightarrow> kexpr \<Rightarrow> kexpr option" where
  "expr_join_or S e1 e2 =
     (if expr_eq_nn e1 e2 then expr_copy e1
      else (case join_symbol S e1 e2 of
          None \<Rightarrow> None
        | Some a \<Rightarrow>
            if k_type (S a) = S_TRISTATE \<and> cmp_pair E_EQUAL symbol_yes symbol_mod e1 e2 then Some (X_cmp E_UNEQUAL a symbol_no)
            else if k_type (S a) = S_TRISTATE \<and> cmp_pair E_EQUAL symbol_yes symbol_no e1 e2 then Some (X_cmp E_UNEQUAL a symbol_mod)
            else if k_type (S a) = S_TRISTATE \<and> cmp_pair E_EQUAL symbol_mod symbol_no e1 e2 then Some (X_cmp E_UNEQUAL a symbol_yes)
            else if k_type (S a) = S_BOOLEAN \<and> (e1 = X_not (X_sym a) \<and> e2 = X_sym a \<or> e2 = X_not (X_sym a) \<and> e1 = X_sym a)
              then Some (X_sym symbol_yes)
            else None))"

text \<open>One operand is a symbol, the other its comparison of the given kind with the given symbol.\<close>

definition sym_and_cmp :: "comparison \<Rightarrow> symref \<Rightarrow> kexpr \<Rightarrow> kexpr \<Rightarrow> bool" where
  "sym_and_cmp r x e1 e2 = (case (e1, e2) of
      (X_sym a, X_cmp r' a' b) \<Rightarrow> r' = r \<and> b = x
    | (X_cmp r' a' b, X_sym a) \<Rightarrow> r' = r \<and> b = x
    | _ \<Rightarrow> False)"

text \<open>\<^verbatim>\<open>(a='b') && (a!='c')\<close> in either order: the symbols \<open>b\<close> and \<open>c\<close>, which must be constants.\<close>

definition eq_and_uneq :: "sorts \<Rightarrow> kexpr \<Rightarrow> kexpr \<Rightarrow> (symref \<times> symref) option" where
  "eq_and_uneq S e1 e2 = (case (e1, e2) of
      (X_cmp E_EQUAL a b, X_cmp E_UNEQUAL a' c) \<Rightarrow> (if k_const (S c) \<and> k_const (S b) then Some (b, c) else None)
    | (X_cmp E_UNEQUAL a' c, X_cmp E_EQUAL a b) \<Rightarrow> (if k_const (S c) \<and> k_const (S b) then Some (b, c) else None)
    | _ \<Rightarrow> None)"

definition expr_join_and :: "sorts \<Rightarrow> kexpr \<Rightarrow> kexpr \<Rightarrow> kexpr option" where
  "expr_join_and S e1 e2 =
     (if expr_eq_nn e1 e2 then expr_copy e1
      else (case join_symbol S e1 e2 of
          None \<Rightarrow> None
        | Some a \<Rightarrow>
            if sym_and_cmp E_EQUAL symbol_yes e1 e2 then Some (X_cmp E_EQUAL a symbol_yes)
            else if sym_and_cmp E_UNEQUAL symbol_no e1 e2 then Some (X_sym a)
            else if sym_and_cmp E_UNEQUAL symbol_mod e1 e2 then Some (X_cmp E_EQUAL a symbol_yes)
            else if k_type (S a) = S_TRISTATE then
              (case eq_and_uneq S e1 e2 of
                 Some (b, c) \<Rightarrow> Some (if b \<noteq> c then X_cmp E_EQUAL a b else X_sym symbol_no)
               | None \<Rightarrow>
                   if cmp_pair E_UNEQUAL symbol_yes symbol_no e1 e2 then Some (X_cmp E_EQUAL a symbol_mod)
                   else if cmp_pair E_UNEQUAL symbol_yes symbol_mod e1 e2 then Some (X_cmp E_EQUAL a symbol_no)
                   else if cmp_pair E_UNEQUAL symbol_mod symbol_no e1 e2 then Some (X_cmp E_EQUAL a symbol_yes)
                   else None)
            else None))"

section \<open>Duplicates\<close>

text \<open>
  \<^verbatim>\<open>expr_eliminate_dups1\<close> walks one tree with two pointers into it. The pointers are paths through the operands of the operator
  \<open>ty\<close>; two pointers are equal when the paths are. The state is the tree with \<^verbatim>\<open>trans_count\<close>.
\<close>

datatype side = Lft | Rgt

type_synonym path = "side list"

fun expr_at :: "path \<Rightarrow> kexpr \<Rightarrow> kexpr option" where
  "expr_at [] e = Some e"
| "expr_at (Lft # p) (X_and a b) = expr_at p a"
| "expr_at (Rgt # p) (X_and a b) = expr_at p b"
| "expr_at (Lft # p) (X_or a b) = expr_at p a"
| "expr_at (Rgt # p) (X_or a b) = expr_at p b"
| "expr_at (d # p) e = None"

fun put_at :: "path \<Rightarrow> kexpr \<Rightarrow> kexpr \<Rightarrow> kexpr" where
  "put_at [] x e = x"
| "put_at (Lft # p) x (X_and a b) = X_and (put_at p x a) b"
| "put_at (Rgt # p) x (X_and a b) = X_and a (put_at p x b)"
| "put_at (Lft # p) x (X_or a b) = X_or (put_at p x a) b"
| "put_at (Rgt # p) x (X_or a b) = X_or a (put_at p x b)"
| "put_at (d # p) x e = e"

text \<open>The two operands are joined: one becomes the neutral constant, the other the joined expression.\<close>

definition join_with :: "sorts \<Rightarrow> expr_type \<Rightarrow> kexpr \<Rightarrow> kexpr \<Rightarrow> kexpr option" where
  "join_with S ty x y = (if ty = E_OR then expr_join_or S x y else if ty = E_AND then expr_join_and S x y else None)"

definition join_leaves :: "sorts \<Rightarrow> expr_type \<Rightarrow> path \<Rightarrow> path \<Rightarrow> kexpr \<times> nat \<Rightarrow> (kexpr \<times> nat) option" where
  "join_leaves S ty p q st = (case st of (e, n) \<Rightarrow>
     (case (expr_at p e, expr_at q e) of
        (Some x, Some y) \<Rightarrow>
          Some (case join_with S ty x y of
              Some z \<Rightarrow> (put_at q z (put_at p (neutral ty x) e), n + 1)
            | None \<Rightarrow> (e, n))
      | _ \<Rightarrow> None))"

text \<open>
  The operand at the first pointer is itself rewritten with both pointers on it; all accesses of that call are inside the
  operand, so it works on the operand alone. A pointer that leads nowhere, which does not happen, would be \<open>None\<close>.
\<close>

partial_function (option) expr_eliminate_dups1 ::
    "sorts \<Rightarrow> expr_type \<Rightarrow> path \<Rightarrow> path \<Rightarrow> kexpr \<times> nat \<Rightarrow> (kexpr \<times> nat) option" where
  "expr_eliminate_dups1 S ty p q st =
     Option.bind (expr_at p (fst st)) (\<lambda>x. Option.bind (expr_at q (fst st)) (\<lambda>y.
     if e_type x = ty then
       Option.bind (expr_eliminate_dups1 S ty (p @ [Lft]) q st) (expr_eliminate_dups1 S ty (p @ [Rgt]) q)
     else if e_type y = ty then
       Option.bind (expr_eliminate_dups1 S ty p (q @ [Lft]) st) (expr_eliminate_dups1 S ty p (q @ [Rgt]))
     else if p = q then Some st
     else
       Option.bind (if is_logical x then
           Option.bind (expr_eliminate_dups1 S (e_type x) [] [] (x, snd st)) (\<lambda>(x', n). Some (put_at p x' (fst st), n))
         else Some st)
       (join_leaves S ty p q)))"

definition dups_pass :: "sorts \<Rightarrow> kexpr \<Rightarrow> (kexpr \<times> nat) option" where
  "dups_pass S e = (if is_logical e then expr_eliminate_dups1 S (e_type e) [] [] (e, 0) else Some (e, 0))"

partial_function (option) dups_loop :: "sorts \<Rightarrow> kexpr \<Rightarrow> kexpr option" where
  "dups_loop S e = Option.bind (dups_pass S e)
     (\<lambda>(e', n). if n = 0 then Some e' else dups_loop S (expr_eliminate_yn e'))"

text \<open>\<^verbatim>\<open>trans_count\<close> is set to zero for every pass and restored at the end. The outer option is the value of the loop.\<close>

definition expr_eliminate_dups :: "sorts \<Rightarrow> kexpr option \<Rightarrow> kexpr option option" where
  "expr_eliminate_dups S e = (case e of None \<Rightarrow> Some None | Some x \<Rightarrow> map_option Some (dups_loop S x))"

section \<open>Negations and comparisons\<close>

text \<open>A measure that decreases when a negation moves inwards.\<close>

fun weight :: "kexpr \<Rightarrow> nat" where
  "weight (X_not a) = 2 * weight a"
| "weight (X_and a b) = weight a + weight b + 1"
| "weight (X_or a b) = weight a + weight b + 1"
| "weight (X_cmp r a b) = 2"
| "weight e = 1"

definition transform_cmp :: "sorts \<Rightarrow> comparison \<Rightarrow> symref \<Rightarrow> symref \<Rightarrow> kexpr" where
  "transform_cmp S r a b =
     (if k_type (S a) \<noteq> S_BOOLEAN then X_cmp r a b
      else if r = E_EQUAL then
        (if b = symbol_no then X_not (X_sym a)
         else if b = symbol_mod then X_sym symbol_no
         else if b = symbol_yes then X_sym a else X_cmp r a b)
      else if r = E_UNEQUAL then
        (if b = symbol_no then X_sym a
         else if b = symbol_mod then X_sym symbol_yes
         else if b = symbol_yes then X_not (X_sym a) else X_cmp r a b)
      else X_cmp r a b)"

fun negate_cmp :: "comparison \<Rightarrow> comparison" where
  "negate_cmp E_EQUAL = E_UNEQUAL"
| "negate_cmp E_UNEQUAL = E_EQUAL"
| "negate_cmp E_LEQ = E_GTH"
| "negate_cmp E_GEQ = E_LTH"
| "negate_cmp E_LTH = E_GEQ"
| "negate_cmp E_GTH = E_LEQ"

definition negate_sym :: "symref \<Rightarrow> kexpr" where
  "negate_sym a =
     (if a = symbol_yes then X_sym symbol_no
      else if a = symbol_mod then X_sym symbol_mod
      else if a = symbol_no then X_sym symbol_yes
      else X_not (X_sym a))"

function (sequential) expr_transform :: "sorts \<Rightarrow> kexpr \<Rightarrow> kexpr" where
  "expr_transform S (X_cmp r a b) = transform_cmp S r a b"
| "expr_transform S (X_and a b) = X_and (expr_transform S a) (expr_transform S b)"
| "expr_transform S (X_or a b) = X_or (expr_transform S a) (expr_transform S b)"
| "expr_transform S (X_not a) = (case expr_transform S a of
      X_not x \<Rightarrow> expr_transform S x
    | X_cmp r s t \<Rightarrow> X_cmp (negate_cmp r) s t
    | X_or x y \<Rightarrow> expr_transform S (X_and (X_not x) (X_not y))
    | X_and x y \<Rightarrow> expr_transform S (X_or (X_not x) (X_not y))
    | X_sym s \<Rightarrow> negate_sym s
    | x \<Rightarrow> X_not x)"
| "expr_transform S e = e"
  by pat_completeness auto

lemma weight_pos [simp]: "0 < weight e"
  by (induction e rule: weight.induct) simp_all

lemma transform_weight: "expr_transform_dom (S, e) \<Longrightarrow> weight (expr_transform S e) \<le> weight e"
proof (induction rule: expr_transform.pinduct)
  case (1 S r a b)
  then show ?case by (simp add: expr_transform.psimps transform_cmp_def)
next
  case (4 S a)
  note IH = "4.IH"(1)
  show ?case
  proof (cases "expr_transform S a")
    case (X_not x)
    then show ?thesis using 4 by (force simp: expr_transform.psimps)
  next
    case (X_or x y)
    then show ?thesis using 4 by (force simp: expr_transform.psimps)
  next
    case (X_and x y)
    then show ?thesis using 4 by (force simp: expr_transform.psimps)
  next
    case (X_sym s)
    then show ?thesis using 4 by (simp add: expr_transform.psimps negate_sym_def)
  qed (use 4 in \<open>simp_all add: expr_transform.psimps\<close>)
qed (simp_all add: expr_transform.psimps)

termination expr_transform
proof (relation "measure (\<lambda>(S, e). weight e)", goal_cases)
  case (7 S a x)
  then have "2 * weight x \<le> weight a" using transform_weight [of S a] by simp
  moreover have "0 < weight a" by simp
  ultimately show ?case by (simp del: weight_pos)
qed (auto dest!: transform_weight)

text \<open>An inserted comparison with \<open>sy\<close>; \<open>ty\<close> is \<^verbatim>\<open>E_EQUAL\<close> or \<^verbatim>\<open>E_UNEQUAL\<close>. The result may be null.\<close>
definition negate_if :: "comparison \<Rightarrow> kexpr \<Rightarrow> kexpr" where
  "negate_if ty e = (if ty = E_UNEQUAL then X_not e else e)"

fun trans_compare_nn :: "kexpr \<Rightarrow> comparison \<Rightarrow> symref \<Rightarrow> kexpr option" where
  "trans_compare_nn (X_and a b) ty sy = (case (trans_compare_nn a E_EQUAL sy, trans_compare_nn b E_EQUAL sy) of
      (Some x, Some y) \<Rightarrow>
        Some (negate_if ty (if sy = symbol_yes then X_and x y else if sy = symbol_no then X_or x y else X_and a b))
    | _ \<Rightarrow> None)"
| "trans_compare_nn (X_or a b) ty sy = (case (trans_compare_nn a E_EQUAL sy, trans_compare_nn b E_EQUAL sy) of
      (Some x, Some y) \<Rightarrow>
        Some (negate_if ty (if sy = symbol_yes then X_or x y else if sy = symbol_no then X_and x y else X_or a b))
    | _ \<Rightarrow> None)"
| "trans_compare_nn (X_not a) ty sy = trans_compare_nn a (if ty = E_EQUAL then E_UNEQUAL else E_EQUAL) sy"
| "trans_compare_nn (X_cmp r a b) ty sy =
     (if ty = E_EQUAL then
        (if sy = symbol_yes then Some (X_cmp r a b)
         else if sy = symbol_mod then Some (X_sym symbol_no)
         else if sy = symbol_no then Some (X_not (X_cmp r a b)) else None)
      else
        (if sy = symbol_yes then Some (X_not (X_cmp r a b))
         else if sy = symbol_mod then Some (X_sym symbol_yes)
         else if sy = symbol_no then Some (X_cmp r a b) else None))"
| "trans_compare_nn (X_sym a) ty sy = Some (X_cmp ty a sy)"
| "trans_compare_nn e ty sy = None"

definition expr_trans_compare :: "kexpr option \<Rightarrow> comparison \<Rightarrow> symref \<Rightarrow> kexpr option" where
  "expr_trans_compare e ty sy = (case e of
      None \<Rightarrow> Some (negate_if ty (X_sym sy))
    | Some x \<Rightarrow> trans_compare_nn x ty sy)"

section \<open>Symbols in expressions\<close>

fun expr_contains_symbol :: "kexpr \<Rightarrow> symref \<Rightarrow> bool" where
  "expr_contains_symbol (X_and a b) sy = (expr_contains_symbol a sy \<or> expr_contains_symbol b sy)"
| "expr_contains_symbol (X_or a b) sy = (expr_contains_symbol a sy \<or> expr_contains_symbol b sy)"
| "expr_contains_symbol (X_sym a) sy = (a = sy)"
| "expr_contains_symbol (X_cmp r a b) sy = (a = sy \<or> b = sy)"
| "expr_contains_symbol (X_not a) sy = expr_contains_symbol a sy"
| "expr_contains_symbol e sy = False"

fun expr_depends_symbol :: "kexpr \<Rightarrow> symref \<Rightarrow> bool" where
  "expr_depends_symbol (X_and a b) sy = (expr_depends_symbol a sy \<or> expr_depends_symbol b sy)"
| "expr_depends_symbol (X_sym a) sy = (a = sy)"
| "expr_depends_symbol (X_cmp r a b) sy =
     (a = sy \<and> (r = E_EQUAL \<and> (b = symbol_yes \<or> b = symbol_mod) \<or> r = E_UNEQUAL \<and> b = symbol_no))"
| "expr_depends_symbol e sy = False"

section \<open>Printing\<close>

text \<open>The cases of \<^verbatim>\<open>expr_compare_type\<close> fall through from a type to the next.\<close>

definition below_list :: "expr_type \<Rightarrow> int" where "below_list t = (if t = E_NONE then 1 else - 1)"
definition below_or :: "expr_type \<Rightarrow> int" where "below_or t = (if t = E_LIST then 1 else below_list t)"
definition below_and :: "expr_type \<Rightarrow> int" where "below_and t = (if t = E_OR then 1 else below_or t)"
definition below_not :: "expr_type \<Rightarrow> int" where "below_not t = (if t = E_AND then 1 else below_and t)"
definition below_equal :: "expr_type \<Rightarrow> int" where "below_equal t = (if t = E_NOT then 1 else below_not t)"

definition below_order :: "expr_type \<Rightarrow> int" where
  "below_order t = (if t = E_CMP E_EQUAL \<or> t = E_CMP E_UNEQUAL then 1 else below_equal t)"

definition expr_compare_type :: "expr_type \<Rightarrow> expr_type \<Rightarrow> int" where
  "expr_compare_type t1 t2 =
     (if t1 = t2 then 0
      else (case t1 of
          E_CMP r \<Rightarrow> (if r = E_EQUAL \<or> r = E_UNEQUAL then below_equal t2 else below_order t2)
        | E_NOT \<Rightarrow> below_not t2
        | E_AND \<Rightarrow> below_and t2
        | E_OR \<Rightarrow> below_or t2
        | E_LIST \<Rightarrow> below_list t2
        | _ \<Rightarrow> - 1))"

text \<open>The calls of the output function: the symbol, if there is one, and the text. A name may be null.\<close>

type_synonym print_call = "symref option \<times> string option"

definition print_left :: "(symref \<Rightarrow> string option) \<Rightarrow> symref \<Rightarrow> print_call" where
  "print_left nm s = (case nm s of Some t \<Rightarrow> (Some s, Some t) | None \<Rightarrow> (None, Some ''<choice>''))"

fun cmp_text :: "comparison \<Rightarrow> string" where
  "cmp_text E_EQUAL = ''=''"
| "cmp_text E_UNEQUAL = ''!=''"
| "cmp_text E_LTH = ''<''"
| "cmp_text E_LEQ = ''<=''"
| "cmp_text E_GTH = ''>''"
| "cmp_text E_GEQ = ''>=''"

definition bracketed :: "bool \<Rightarrow> print_call list \<Rightarrow> print_call list" where
  "bracketed b cs = (if b then [(None, Some ''('')] @ cs @ [(None, Some '')'')] else cs)"

fun expr_print_nn :: "(symref \<Rightarrow> string option) \<Rightarrow> kexpr \<Rightarrow> expr_type \<Rightarrow> print_call list" where
  "expr_print_nn nm (X_sym s) prev = bracketed (expr_compare_type prev E_SYMBOL > 0) [print_left nm s]"
| "expr_print_nn nm (X_not a) prev = bracketed (expr_compare_type prev E_NOT > 0)
     ((None, Some ''!'') # expr_print_nn nm a E_NOT)"
| "expr_print_nn nm (X_cmp r s t) prev = bracketed (expr_compare_type prev (E_CMP r) > 0)
     [print_left nm s, (None, Some (cmp_text r)), (Some t, nm t)]"
| "expr_print_nn nm (X_or a b) prev = bracketed (expr_compare_type prev E_OR > 0)
     (expr_print_nn nm a E_OR @ [(None, Some '' || '')] @ expr_print_nn nm b E_OR)"
| "expr_print_nn nm (X_and a b) prev = bracketed (expr_compare_type prev E_AND > 0)
     (expr_print_nn nm a E_AND @ [(None, Some '' && '')] @ expr_print_nn nm b E_AND)"
| "expr_print_nn nm (X_list None s) prev = bracketed (expr_compare_type prev E_LIST > 0) [(Some s, nm s)]"
| "expr_print_nn nm (X_list (Some a) s) prev = bracketed (expr_compare_type prev E_LIST > 0)
     ([(Some s, nm s), (None, Some '' ^ '')] @ expr_print_nn nm a E_LIST)"
| "expr_print_nn nm (X_range s t) prev = bracketed (expr_compare_type prev E_RANGE > 0)
     [(None, Some ''[''), (Some s, nm s), (None, Some '' ''), (Some t, nm t), (None, Some '']'')]"

definition expr_print :: "(symref \<Rightarrow> string option) \<Rightarrow> kexpr option \<Rightarrow> expr_type \<Rightarrow> print_call list" where
  "expr_print nm e prev = (case e of None \<Rightarrow> [(None, Some ''y'')] | Some x \<Rightarrow> expr_print_nn nm x prev)"

text \<open>\<^verbatim>\<open>expr_fprint\<close> writes the texts one after the other.\<close>

definition expr_fprint :: "(symref \<Rightarrow> string option) \<Rightarrow> kexpr option \<Rightarrow> string" where
  "expr_fprint nm e = concat (map (\<lambda>(s, t). case t of Some x \<Rightarrow> x | None \<Rightarrow> []) (expr_print nm e E_NONE))"

end
