(* ===== verification/KSym.thy ===== *)
theory KSym
  imports KExpr Cstr
begin

text \<open>
  The symbols of a configuration, \<^verbatim>\<open>tools/kconfig/symbol.c\<close>, with \<^verbatim>\<open>expr_calc_value\<close> of \<^verbatim>\<open>expr.c\<close> and the predicates of \<^verbatim>\<open>lkc.h\<close>:
  how the value of a symbol follows from its properties, from the values of the symbols in its conditions and from what
  the user has set. The state is the table of all symbols. A string is a pointer with its text: two are
  the same pointer when their numbers agree. A null pointer that is read is an error.
\<close>

unbundle bit_operations_syntax

section \<open>Symbols\<close>

definition SYMBOL_CONST :: u32 where "SYMBOL_CONST = 0x0001"
definition SYMBOL_CHECK :: u32 where "SYMBOL_CHECK = 0x0008"
definition SYMBOL_CHOICE :: u32 where "SYMBOL_CHOICE = 0x0010"
definition SYMBOL_CHOICEVAL :: u32 where "SYMBOL_CHOICEVAL = 0x0020"
definition SYMBOL_VALID :: u32 where "SYMBOL_VALID = 0x0080"
definition SYMBOL_WRITE :: u32 where "SYMBOL_WRITE = 0x0200"
definition SYMBOL_CHANGED :: u32 where "SYMBOL_CHANGED = 0x0400"
definition SYMBOL_NO_WRITE :: u32 where "SYMBOL_NO_WRITE = 0x1000"
definition SYMBOL_CHECKED :: u32 where "SYMBOL_CHECKED = 0x2000"
definition SYMBOL_DEF_USER :: u32 where "SYMBOL_DEF_USER = 0x10000"
definition SYMBOL_NEED_SET_CHOICE_VALUES :: u32 where "SYMBOL_NEED_SET_CHOICE_VALUES = 0x100000"

lemmas symbol_flags = SYMBOL_CONST_def SYMBOL_CHECK_def SYMBOL_CHOICE_def SYMBOL_CHOICEVAL_def SYMBOL_VALID_def SYMBOL_WRITE_def
  SYMBOL_CHANGED_def SYMBOL_NO_WRITE_def SYMBOL_CHECKED_def SYMBOL_DEF_USER_def SYMBOL_NEED_SET_CHOICE_VALUES_def

text \<open>What the pointer \<^verbatim>\<open>val\<close> of a value leads to: nothing, a symbol (for a choice), or a string.\<close>

datatype kval = V_null | V_sym symref | V_str nat string

record symbol_value =
  v_val :: kval
  v_tri :: tristate

datatype prop_type = P_UNKNOWN | P_PROMPT | P_COMMENT | P_MENU | P_DEFAULT | P_CHOICE | P_SELECT | P_IMPLY | P_RANGE | P_SYMBOL

record property =
  p_type :: prop_type
  p_text :: "string option"
  p_visible :: "kexpr option"
  p_visible_tri :: tristate
  p_expr :: "kexpr option"
  p_menu :: "nat option"

text \<open>The three dependencies of a symbol: \<^verbatim>\<open>dir_dep\<close>, \<^verbatim>\<open>rev_dep\<close> and \<^verbatim>\<open>implied\<close>.\<close>

datatype dep_kind = D_dir | D_rev | D_implied

record symbol =
  s_name :: "(nat \<times> string) option"
  s_type :: symbol_type
  s_curr :: symbol_value
  s_def_user :: symbol_value
  s_visible :: tristate
  s_flags :: u32
  s_prop :: "property list"
  s_dep :: "dep_kind \<Rightarrow> kexpr option"
  s_dep_tri :: "dep_kind \<Rightarrow> tristate"

text \<open>
  The table; \<open>k_hash\<close> lists the symbols of the hash table in the order of its buckets, \<open>k_menu_changed\<close> holds the
  \<^verbatim>\<open>MENU_CHANGED\<close> bits, \<open>k_next\<close> the number of the next string allocated, \<open>k_unmet\<close> the symbols for
  which the warning about unmet dependencies was printed. Of \<^verbatim>\<open>sym_warn_unmet_dep\<close> this is all that is modelled: the
  conditions it evaluates for its text are those whose values were calculated just before.
\<close>

record kconf =
  k_sym :: "symref \<Rightarrow> symbol"
  k_hash :: "symref list"
  k_modules_sym :: symref
  k_modules_val :: tristate
  k_menu_changed :: "nat \<Rightarrow> bool"
  k_next :: nat
  k_unmet :: "symref list"
  k_changes :: int

definition upd_sym :: "symref \<Rightarrow> (symbol \<Rightarrow> symbol) \<Rightarrow> kconf \<Rightarrow> kconf" where
  "upd_sym s f K = K\<lparr>k_sym := (k_sym K)(s := f (k_sym K s))\<rparr>"

definition flag_on :: "symref \<Rightarrow> u32 \<Rightarrow> kconf \<Rightarrow> bool" where
  "flag_on s f K \<longleftrightarrow> s_flags (k_sym K s) AND f \<noteq> 0"

definition set_flag :: "symref \<Rightarrow> u32 \<Rightarrow> kconf \<Rightarrow> kconf" where
  "set_flag s f K = upd_sym s (\<lambda>x. x\<lparr>s_flags := s_flags x OR f\<rparr>) K"

definition clear_flag :: "symref \<Rightarrow> u32 \<Rightarrow> kconf \<Rightarrow> kconf" where
  "clear_flag s f K = upd_sym s (\<lambda>x. x\<lparr>s_flags := s_flags x AND NOT f\<rparr>) K"

definition sym_get_tristate_value :: "symref \<Rightarrow> kconf \<Rightarrow> tristate" where
  "sym_get_tristate_value s K = v_tri (s_curr (k_sym K s))"

definition sym_is_choice :: "symref \<Rightarrow> kconf \<Rightarrow> bool" where
  "sym_is_choice s K = flag_on s SYMBOL_CHOICE K"

definition sym_is_choice_value :: "symref \<Rightarrow> kconf \<Rightarrow> bool" where
  "sym_is_choice_value s K = flag_on s SYMBOL_CHOICEVAL K"

definition sym_has_value :: "symref \<Rightarrow> kconf \<Rightarrow> bool" where
  "sym_has_value s K = flag_on s SYMBOL_DEF_USER K"

definition sym_get_type :: "symref \<Rightarrow> kconf \<Rightarrow> symbol_type" where
  "sym_get_type s K =
     (let ty = s_type (k_sym K s) in
      if ty = S_TRISTATE then
        (if sym_is_choice_value s K \<and> s_visible (k_sym K s) = T_yes then S_BOOLEAN
         else if k_modules_val K = T_no then S_BOOLEAN else ty)
      else ty)"

fun sym_type_name :: "symbol_type \<Rightarrow> string" where
  "sym_type_name S_BOOLEAN = ''bool''"
| "sym_type_name S_TRISTATE = ''tristate''"
| "sym_type_name S_INT = ''integer''"
| "sym_type_name S_HEX = ''hex''"
| "sym_type_name S_STRING = ''string''"
| "sym_type_name S_UNKNOWN = ''unknown''"

section \<open>Properties\<close>

definition null_deref :: "'x res" where
  "null_deref = Inl (Assert_fail ''null pointer'')"

definition deref :: "'x option \<Rightarrow> 'x res" where
  "deref p = (case p of None \<Rightarrow> null_deref | Some x \<Rightarrow> Inr x)"

definition sym_get_choice_prop :: "symref \<Rightarrow> kconf \<Rightarrow> property option" where
  "sym_get_choice_prop s K = List.find (\<lambda>p. p_type p = P_CHOICE) (s_prop (k_sym K s))"

text \<open>\<^verbatim>\<open>prop_get_symbol\<close>; the left part of a list is an expression, which is not asked for its symbol.\<close>

definition prop_get_symbol :: "property \<Rightarrow> symref option" where
  "prop_get_symbol p = (case p_expr p of Some (X_sym s) \<Rightarrow> Some s | _ \<Rightarrow> None)"

text \<open>The symbols of a choice, in the order of \<^verbatim>\<open>expr_list_for_each_sym\<close>.\<close>

fun list_syms :: "kexpr \<Rightarrow> symref list" where
  "list_syms (X_list None s) = [s]"
| "list_syms (X_list (Some e) s) = s # list_syms e"
| "list_syms e = []"

definition choice_syms :: "property \<Rightarrow> symref list" where
  "choice_syms p = (case p_expr p of None \<Rightarrow> [] | Some e \<Rightarrow> list_syms e)"

fun prop_get_type_name :: "prop_type \<Rightarrow> string" where
  "prop_get_type_name P_PROMPT = ''prompt''"
| "prop_get_type_name P_COMMENT = ''comment''"
| "prop_get_type_name P_MENU = ''menu''"
| "prop_get_type_name P_DEFAULT = ''default''"
| "prop_get_type_name P_CHOICE = ''choice''"
| "prop_get_type_name P_SELECT = ''select''"
| "prop_get_type_name P_IMPLY = ''imply''"
| "prop_get_type_name P_RANGE = ''range''"
| "prop_get_type_name P_SYMBOL = ''symbol''"
| "prop_get_type_name P_UNKNOWN = ''unknown''"

section \<open>Marks for the front ends\<close>

definition sym_set_changed :: "symref \<Rightarrow> kconf \<Rightarrow> kconf" where
  "sym_set_changed s K =
     (let K1 = set_flag s SYMBOL_CHANGED K in
      K1\<lparr>k_menu_changed := (\<lambda>m. m \<in> set (List.map_filter p_menu (s_prop (k_sym K1 s))) \<or> k_menu_changed K1 m)\<rparr>)"

definition sym_set_all_changed :: "kconf \<Rightarrow> kconf" where
  "sym_set_all_changed K = fold sym_set_changed (k_hash K) K"

section \<open>Numbers in strings\<close>

text \<open>\<^verbatim>\<open>strcmp\<close>, of which the sign matters.\<close>

fun strcmp :: "string \<Rightarrow> string \<Rightarrow> int" where
  "strcmp [] [] = 0"
| "strcmp [] (d # ds) = - 1"
| "strcmp (c # cs) [] = 1"
| "strcmp (c # cs) (d # ds) =
     (if c = d then strcmp cs ds else if (of_char c :: nat) < of_char d then - 1 else 1)"

text \<open>
  \<^verbatim>\<open>strtoll\<close> and \<^verbatim>\<open>strtoull\<close> up to the range of their results: the value, and the rest of the string behind it. Where there is no
  number the rest is the whole string.
\<close>

definition digit_in :: "nat \<Rightarrow> char \<Rightarrow> bool" where
  "digit_in b ch \<longleftrightarrow> (case digit_val ch of Some d \<Rightarrow> d < b | None \<Rightarrow> False)"

definition num_base :: "nat \<Rightarrow> string \<Rightarrow> nat \<times> string" where
  "num_base base r =
     (if (base = 16 \<or> base = 0) \<and> take 1 r = ''0'' \<and> (take 1 (drop 1 r) = ''x'' \<or> take 1 (drop 1 r) = ''X'') \<and>
         drop 2 r \<noteq> [] \<and> digit_in 16 (r ! 2) then (16, drop 2 r)
      else if base = 0 then (if take 1 r = ''0'' then 8 else 10, r)
      else (base, r))"

definition strto_value :: "nat \<Rightarrow> string \<Rightarrow> int \<times> string" where
  "strto_value base s =
     (let t = dropWhile is_space s; neg = (take 1 t = ''-''); u = (if neg \<or> take 1 t = ''+'' then drop 1 t else t) in
      case num_base base u of (b, r) \<Rightarrow>
        (let ds = takeWhile (digit_in b) r in
         if ds = [] then (0, s)
         else ((if neg then - int (digits_value b 0 ds) else int (digits_value b 0 ds)), dropWhile (digit_in b) r)))"

definition strtoll :: "nat \<Rightarrow> string \<Rightarrow> int" where
  "strtoll base s = saturate_long (fst (strto_value base s))"

datatype string_value_kind = K_string | K_signed | K_unsigned

text \<open>The value is kept in 64 bits, as in the union.\<close>

definition expr_parse_string :: "string \<Rightarrow> symbol_type \<Rightarrow> string_value_kind \<times> u64" where
  "expr_parse_string s ty =
     (if ty = S_BOOLEAN \<or> ty = S_TRISTATE then
        (K_signed, if s = ''n'' then 0 else if s = ''m'' then 1 else if s = ''y'' then 2 else - 1)
      else
        (let base = (if ty = S_INT then 10 else if ty = S_HEX then 16 else 0);
             kind = (if ty = S_HEX then K_unsigned else K_signed) in
         case strto_value base s of (v, tail) \<Rightarrow>
           (let in_range = (if kind = K_unsigned then \<bar>v\<bar> < 2 ^ 64 else LONG_MIN \<le> v \<and> v \<le> LONG_MAX);
                used = take (length s - length tail) s in
            (if in_range \<and> tail = [] \<and> used \<noteq> [] \<and> digit_in 16 (last used) then kind else K_string, word_of_int v))))"

text \<open>The order of two values with their types; a negative, zero or positive number.\<close>

definition expr_compare_values :: "string \<Rightarrow> symbol_type \<Rightarrow> string \<Rightarrow> symbol_type \<Rightarrow> int" where
  "expr_compare_values str1 ty1 str2 ty2 =
     (let (k1, l) = (if ty1 \<noteq> S_STRING \<or> ty2 \<noteq> S_STRING then expr_parse_string str1 ty1 else (K_string, 0));
          (k2, r) = (if ty1 \<noteq> S_STRING \<or> ty2 \<noteq> S_STRING then expr_parse_string str2 ty2 else (K_string, 0))
      in if k1 = K_string \<or> k2 = K_string then strcmp str1 str2
         else if k1 = K_unsigned \<or> k2 = K_unsigned then of_bool (l > r) - of_bool (l < r)
         else of_bool (r <s l) - of_bool (l <s r))"

section \<open>Evaluation\<close>

text \<open>
  The functions from here on take \<^verbatim>\<open>sym_calc_value\<close>, which they call and which calls them, as an argument. The text of a
  value that is not a string is an error.
\<close>

type_synonym calculator = "symref \<Rightarrow> kconf \<Rightarrow> kconf res"

definition val_text :: "kval \<Rightarrow> string res" where
  "val_text v = (case v of V_str i t \<Rightarrow> Inr t | _ \<Rightarrow> null_deref)"

definition sym_get_string_value :: "calculator \<Rightarrow> symref \<Rightarrow> kconf \<Rightarrow> (string \<times> kconf) res" where
  "sym_get_string_value calc s K =
     (if s_type (k_sym K s) = S_BOOLEAN \<or> s_type (k_sym K s) = S_TRISTATE then
        (case sym_get_tristate_value s K of
           T_no \<Rightarrow> Inr (''n'', K)
         | T_mod \<Rightarrow> bindE (calc (k_modules_sym K) K) (\<lambda>K1.
             Inr (if sym_get_tristate_value (k_modules_sym K1) K1 = T_no then ''n'' else ''m'', K1))
         | T_yes \<Rightarrow> Inr (''y'', K))
      else bindE (val_text (v_val (s_curr (k_sym K s)))) (\<lambda>t. Inr (t, K)))"

fun relation_value :: "comparison \<Rightarrow> int \<Rightarrow> tristate" where
  "relation_value E_EQUAL r = (if r \<noteq> 0 then T_no else T_yes)"
| "relation_value E_GEQ r = (if r \<ge> 0 then T_yes else T_no)"
| "relation_value E_GTH r = (if r > 0 then T_yes else T_no)"
| "relation_value E_LEQ r = (if r \<le> 0 then T_yes else T_no)"
| "relation_value E_LTH r = (if r < 0 then T_yes else T_no)"
| "relation_value E_UNEQUAL r = (if r \<noteq> 0 then T_yes else T_no)"

fun calc_value_nn :: "calculator \<Rightarrow> kexpr \<Rightarrow> kconf \<Rightarrow> (tristate \<times> kconf) res" where
  "calc_value_nn calc (X_sym s) K = bindE (calc s K) (\<lambda>K1. Inr (sym_get_tristate_value s K1, K1))"
| "calc_value_nn calc (X_and a b) K =
     bindE (calc_value_nn calc a K) (\<lambda>(v1, K1). bindE (calc_value_nn calc b K1) (\<lambda>(v2, K2). Inr (EXPR_AND v1 v2, K2)))"
| "calc_value_nn calc (X_or a b) K =
     bindE (calc_value_nn calc a K) (\<lambda>(v1, K1). bindE (calc_value_nn calc b K1) (\<lambda>(v2, K2). Inr (EXPR_OR v1 v2, K2)))"
| "calc_value_nn calc (X_not a) K = bindE (calc_value_nn calc a K) (\<lambda>(v, K1). Inr (EXPR_NOT v, K1))"
| "calc_value_nn calc (X_cmp r a b) K =
     bindE (calc a K) (\<lambda>K1. bindE (calc b K1) (\<lambda>K2.
     bindE (sym_get_string_value calc a K2) (\<lambda>(str1, K3). bindE (sym_get_string_value calc b K3) (\<lambda>(str2, K4).
     Inr (relation_value r (expr_compare_values str1 (s_type (k_sym K4 a)) str2 (s_type (k_sym K4 b))), K4)))))"
| "calc_value_nn calc e K = Inr (T_no, K)"

definition expr_calc_value :: "calculator \<Rightarrow> kexpr option \<Rightarrow> kconf \<Rightarrow> (tristate \<times> kconf) res" where
  "expr_calc_value calc e K = (case e of None \<Rightarrow> Inr (T_yes, K) | Some x \<Rightarrow> calc_value_nn calc x K)"

section \<open>Visible properties\<close>

definition set_visible_tri :: "symref \<Rightarrow> nat \<Rightarrow> tristate \<Rightarrow> kconf \<Rightarrow> kconf" where
  "set_visible_tri s i v K = upd_sym s (\<lambda>x. x\<lparr>s_prop := (s_prop x)[i := (s_prop x ! i)\<lparr>p_visible_tri := v\<rparr>]\<rparr>) K"

text \<open>The first property of a type that is visible, among those at the given places of the list.\<close>

fun first_visible :: "calculator \<Rightarrow> prop_type \<Rightarrow> symref \<Rightarrow> nat list \<Rightarrow> kconf \<Rightarrow> (property option \<times> kconf) res" where
  "first_visible calc ty s [] K = Inr (None, K)"
| "first_visible calc ty s (i # is) K =
     (let p = s_prop (k_sym K s) ! i in
      if p_type p \<noteq> ty then first_visible calc ty s is K
      else bindE (expr_calc_value calc (p_visible p) K) (\<lambda>(v, K1).
        let K2 = set_visible_tri s i v K1 in
        if v \<noteq> T_no then Inr (Some (s_prop (k_sym K2 s) ! i), K2) else first_visible calc ty s is K2))"

definition prop_places :: "symref \<Rightarrow> kconf \<Rightarrow> nat list" where
  "prop_places s K = [0..<length (s_prop (k_sym K s))]"

definition sym_get_default_prop :: "calculator \<Rightarrow> symref \<Rightarrow> kconf \<Rightarrow> (property option \<times> kconf) res" where
  "sym_get_default_prop calc s K = first_visible calc P_DEFAULT s (prop_places s K) K"

definition sym_get_range_prop :: "calculator \<Rightarrow> symref \<Rightarrow> kconf \<Rightarrow> (property option \<times> kconf) res" where
  "sym_get_range_prop calc s K = first_visible calc P_RANGE s (prop_places s K) K"

section \<open>Ranges\<close>

definition type_base :: "symbol_type \<Rightarrow> nat option" where
  "type_base ty = (if ty = S_INT then Some 10 else if ty = S_HEX then Some 16 else None)"

definition sym_get_range_val :: "calculator \<Rightarrow> symref \<Rightarrow> nat \<Rightarrow> kconf \<Rightarrow> (int \<times> kconf) res" where
  "sym_get_range_val calc s base K =
     bindE (calc s K) (\<lambda>K1.
     let b = (case type_base (s_type (k_sym K1 s)) of Some x \<Rightarrow> x | None \<Rightarrow> base) in
     bindE (val_text (v_val (s_curr (k_sym K1 s)))) (\<lambda>t. Inr (strtoll b t, K1)))"

fun low_hex :: "nat \<Rightarrow> string" where
  "low_hex n =
     (let d = (\<lambda>k. if k < 10 then dec_digit k else char_of (87 + k)) in
      if n < 16 then [d n] else low_hex (n div 16) @ [d (n mod 16)])"

declare low_hex.simps [simp del]

definition int_text :: "int \<Rightarrow> string" where
  "int_text v = (if v < 0 then ''-'' @ dec_text (nat (- v)) else dec_text (nat v))"

definition range_bounds :: "property \<Rightarrow> (symref \<times> symref) res" where
  "range_bounds p = (case p_expr p of Some (X_range a b) \<Rightarrow> Inr (a, b) | _ \<Rightarrow> null_deref)"

definition sym_validate_range :: "calculator \<Rightarrow> symref \<Rightarrow> kconf \<Rightarrow> kconf res" where
  "sym_validate_range calc s K = (case type_base (s_type (k_sym K s)) of
      None \<Rightarrow> Inr K
    | Some base \<Rightarrow>
        bindE (sym_get_range_prop calc s K) (\<lambda>(p, K1). case p of
            None \<Rightarrow> Inr K1
          | Some p \<Rightarrow>
              bindE (range_bounds p) (\<lambda>(lo, hi).
              bindE (val_text (v_val (s_curr (k_sym K1 s)))) (\<lambda>t.
              let val = strtoll base t;
                  store = (\<lambda>val2 K. let str = (if s_type (k_sym K s) = S_INT then int_text val2
                      else ''0x'' @ low_hex (unat (word_of_int val2 :: u64))) in
                    Inr ((upd_sym s (\<lambda>x. x\<lparr>s_curr := (s_curr x)\<lparr>v_val := V_str (k_next K) str\<rparr>\<rparr>) K)\<lparr>k_next := k_next K + 1\<rparr>))
              in bindE (sym_get_range_val calc lo base K1) (\<lambda>(val2, K2).
                 if val \<ge> val2 then
                   bindE (sym_get_range_val calc hi base K2) (\<lambda>(val3, K3). if val \<le> val3 then Inr K3 else store val3 K3)
                 else store val2 K2)))))"

section \<open>Visibility\<close>

text \<open>The prompts are the properties with a text.\<close>

fun prompts_visible ::
    "calculator \<Rightarrow> symref \<Rightarrow> symref option \<Rightarrow> nat list \<Rightarrow> tristate \<Rightarrow> kconf \<Rightarrow> (tristate \<times> kconf) res" where
  "prompts_visible calc s choice [] tri K = Inr (tri, K)"
| "prompts_visible calc s choice (i # is) tri K =
     (let p = s_prop (k_sym K s) ! i in
      if p_text p = None then prompts_visible calc s choice is tri K
      else bindE (expr_calc_value calc (p_visible p) K) (\<lambda>(v, K1).
        let v' = (case choice of
              Some c \<Rightarrow> if s_type (k_sym K1 s) = S_TRISTATE \<and> v = T_mod \<and> sym_get_tristate_value c K1 = T_yes then T_no else v
            | None \<Rightarrow> v)
        in prompts_visible calc s choice is (EXPR_OR tri v') (set_visible_tri s i v' K1)))"

definition calc_dep :: "calculator \<Rightarrow> dep_kind \<Rightarrow> tristate \<Rightarrow> symref \<Rightarrow> kconf \<Rightarrow> kconf res" where
  "calc_dep calc d dflt s K =
     bindE (case s_dep (k_sym K s) d of None \<Rightarrow> Inr (dflt, K) | Some e \<Rightarrow> calc_value_nn calc e K) (\<lambda>(v, K1).
     let tri = (if v = T_mod \<and> sym_get_type s K1 = S_BOOLEAN then T_yes else v) in
     Inr (if s_dep_tri (k_sym K1 s) d \<noteq> tri
          then sym_set_changed s (upd_sym s (\<lambda>x. x\<lparr>s_dep_tri := (s_dep_tri x)(d := tri)\<rparr>) K1) else K1))"

definition sym_calc_visibility :: "calculator \<Rightarrow> symref \<Rightarrow> kconf \<Rightarrow> kconf res" where
  "sym_calc_visibility calc s K =
     bindE (if sym_is_choice_value s K then bindE (deref (sym_get_choice_prop s K)) (\<lambda>p. Inr (prop_get_symbol p))
            else Inr None) (\<lambda>choice.
     bindE (prompts_visible calc s choice (prop_places s K) T_no K) (\<lambda>(v, K1).
     let tri = (if v = T_mod \<and> (s_type (k_sym K1 s) \<noteq> S_TRISTATE \<or> k_modules_val K1 = T_no) then T_yes else v);
         K2 = (if s_visible (k_sym K1 s) \<noteq> tri then sym_set_changed s (upd_sym s (\<lambda>x. x\<lparr>s_visible := tri\<rparr>) K1) else K1)
     in if sym_is_choice_value s K2 then Inr K2
        else bindE (calc_dep calc D_dir T_yes s K2) (\<lambda>K3.
          bindE (calc_dep calc D_rev T_no s K3) (calc_dep calc D_implied T_no s))))"

section \<open>Choices\<close>

fun default_choice :: "calculator \<Rightarrow> symref \<Rightarrow> nat list \<Rightarrow> kconf \<Rightarrow> (symref option \<times> kconf) res" where
  "default_choice calc s [] K = Inr (None, K)"
| "default_choice calc s (i # is) K =
     (let p = s_prop (k_sym K s) ! i in
      if p_type p \<noteq> P_DEFAULT then default_choice calc s is K
      else bindE (expr_calc_value calc (p_visible p) K) (\<lambda>(v, K1).
        let K2 = set_visible_tri s i v K1 in
        if v = T_no then default_choice calc s is K2
        else bindE (deref (prop_get_symbol (s_prop (k_sym K2 s) ! i))) (\<lambda>d.
          if s_visible (k_sym K2 d) \<noteq> T_no then Inr (Some d, K2) else default_choice calc s is K2)))"

definition sym_choice_default :: "calculator \<Rightarrow> symref \<Rightarrow> kconf \<Rightarrow> (symref option \<times> kconf) res" where
  "sym_choice_default calc s K =
     bindE (default_choice calc s (prop_places s K) K) (\<lambda>(d, K1). case d of
         Some x \<Rightarrow> Inr (Some x, K1)
       | None \<Rightarrow> bindE (deref (sym_get_choice_prop s K1))
           (\<lambda>p. Inr (List.find (\<lambda>d. s_visible (k_sym K1 d) \<noteq> T_no) (choice_syms p), K1)))"

text \<open>The visibilities of the values of a choice, and the flags all visible ones have.\<close>

fun choice_visibilities :: "calculator \<Rightarrow> symref list \<Rightarrow> u32 \<Rightarrow> kconf \<Rightarrow> (u32 \<times> kconf) res" where
  "choice_visibilities calc [] flags K = Inr (flags, K)"
| "choice_visibilities calc (d # ds) flags K =
     bindE (sym_calc_visibility calc d K) (\<lambda>K1.
     choice_visibilities calc ds (if s_visible (k_sym K1 d) \<noteq> T_no then flags AND s_flags (k_sym K1 d) else flags) K1)"

definition sym_calc_choice :: "calculator \<Rightarrow> symref \<Rightarrow> kconf \<Rightarrow> (symref option \<times> kconf) res" where
  "sym_calc_choice calc s K =
     bindE (deref (sym_get_choice_prop s K)) (\<lambda>p.
     bindE (choice_visibilities calc (choice_syms p) (s_flags (k_sym K s)) K) (\<lambda>(flags, K1).
     let K2 = upd_sym s (\<lambda>x. x\<lparr>s_flags := s_flags x AND (flags OR NOT SYMBOL_DEF_USER)\<rparr>) K1;
         fall_back = bindE (sym_choice_default calc s K2) (\<lambda>(d, K3). Inr (d, if d = None
             then upd_sym s (\<lambda>x. x\<lparr>s_curr := (s_curr x)\<lparr>v_tri := T_no\<rparr>\<rparr>) K3 else K3))
     in case v_val (s_def_user (k_sym K2 s)) of
          V_null \<Rightarrow> fall_back
        | V_sym d \<Rightarrow> if s_visible (k_sym K2 d) \<noteq> T_no then Inr (Some d, K2) else fall_back
        | V_str i t \<Rightarrow> null_deref))"

text \<open>\<^verbatim>\<open>set_all_choice_values\<close> of \<^verbatim>\<open>confdata.c\<close>.\<close>

definition set_all_choice_values :: "symref \<Rightarrow> kconf \<Rightarrow> kconf res" where
  "set_all_choice_values c K =
     bindE (deref (sym_get_choice_prop c K)) (\<lambda>p.
     let K1 = fold (\<lambda>d K. if \<not> sym_has_value d K
             then upd_sym d (\<lambda>x. x\<lparr>s_def_user := (s_def_user x)\<lparr>v_tri := T_no\<rparr>\<rparr>) K else K) (choice_syms p) K
     in Inr (clear_flag c (SYMBOL_VALID OR SYMBOL_NEED_SET_CHOICE_VALUES) (set_flag c SYMBOL_DEF_USER K1)))"

section \<open>The value of a symbol\<close>

definition set_curr :: "symref \<Rightarrow> symbol_value \<Rightarrow> kconf \<Rightarrow> kconf" where
  "set_curr s v K = upd_sym s (\<lambda>x. x\<lparr>s_curr := v\<rparr>) K"

text \<open>A choice value that asks for it first has its choice calculated.\<close>

definition calc_choice_first :: "calculator \<Rightarrow> symref \<Rightarrow> kconf \<Rightarrow> kconf res" where
  "calc_choice_first calc s K =
     (if sym_is_choice_value s K \<and> flag_on s SYMBOL_NEED_SET_CHOICE_VALUES K then
        (let K1 = clear_flag s SYMBOL_NEED_SET_CHOICE_VALUES K in
         bindE (deref (sym_get_choice_prop s K1)) (\<lambda>p. case prop_get_symbol p of None \<Rightarrow> Inr K1 | Some c \<Rightarrow> calc c K1))
      else Inr K)"

text \<open>
  The value before it is raised by the symbols that select this one: what the user has set, as far as the symbol is visible, or
  the default, raised by the symbols that imply it.
\<close>

text \<open>\<^verbatim>\<open>EXPR_AND\<close> is a macro: where its first argument is the smaller one, that is evaluated again.\<close>

definition calc_and :: "calculator \<Rightarrow> kexpr option \<Rightarrow> tristate \<Rightarrow> kconf \<Rightarrow> (tristate \<times> kconf) res" where
  "calc_and calc e t K =
     bindE (expr_calc_value calc e K) (\<lambda>(v, K1). if v < t then expr_calc_value calc e K1 else Inr (t, K1))"

definition default_tri :: "calculator \<Rightarrow> symref \<Rightarrow> tristate \<Rightarrow> kconf \<Rightarrow> (tristate \<times> kconf) res" where
  "default_tri calc s t0 K0 =
     (let K = (if s_dep_tri (k_sym K0 s) D_rev \<noteq> T_no then set_flag s SYMBOL_WRITE K0 else K0) in
      if sym_is_choice s K then Inr (t0, K)
      else bindE (sym_get_default_prop calc s K) (\<lambda>(p, K1).
        bindE (case p of
            None \<Rightarrow> Inr (t0, K1)
          | Some p \<Rightarrow> bindE (calc_and calc (p_expr p) (p_visible_tri p) K1) (\<lambda>(t, K2).
              Inr (t, if t \<noteq> T_no then set_flag s SYMBOL_WRITE K2 else K2)))
          (\<lambda>(t, K2).
            let im = s_dep_tri (k_sym K2 s) D_implied in
            Inr (if im \<noteq> T_no
                 then (EXPR_AND (EXPR_OR t im) (s_dep_tri (k_sym K2 s) D_dir), set_flag s SYMBOL_WRITE K2)
                 else (t, K2)))))"

definition calc_tri :: "calculator \<Rightarrow> symref \<Rightarrow> tristate \<Rightarrow> kconf \<Rightarrow> (tristate \<times> kconf) res" where
  "calc_tri calc s t0 K =
     bindE
       (if sym_is_choice_value s K \<and> s_visible (k_sym K s) = T_yes then
          bindE (deref (sym_get_choice_prop s K)) (\<lambda>p. bindE (deref (prop_get_symbol p)) (\<lambda>c.
          Inr (if v_val (s_curr (k_sym K c)) = V_sym s then T_yes else T_no, K)))
        else
          bindE (if s_visible (k_sym K s) \<noteq> T_no \<and> sym_has_value s K
                 then Inr (EXPR_AND (v_tri (s_def_user (k_sym K s))) (s_visible (k_sym K s)), K)
                 else default_tri calc s t0 K) (\<lambda>(t, K1).
          let rev = s_dep_tri (k_sym K1 s) D_rev;
              K2 = (if s_dep_tri (k_sym K1 s) D_dir < rev then K1\<lparr>k_unmet := k_unmet K1 @ [s]\<rparr> else K1)
          in Inr (EXPR_OR t rev, K2)))
       (\<lambda>(t, K1). Inr (if t = T_mod \<and> sym_get_type s K1 = S_BOOLEAN then T_yes else t, K1))"

text \<open>The value of a symbol with a string: what the user has set, or the value of the symbol its default names.\<close>

definition calc_str :: "calculator \<Rightarrow> symref \<Rightarrow> kval \<Rightarrow> kconf \<Rightarrow> (kval \<times> kconf) res" where
  "calc_str calc s dflt K =
     (if s_visible (k_sym K s) \<noteq> T_no \<and> sym_has_value s K then Inr (v_val (s_def_user (k_sym K s)), K)
      else bindE (sym_get_default_prop calc s K) (\<lambda>(p, K1). case p of
          None \<Rightarrow> Inr (dflt, K1)
        | Some p \<Rightarrow> (case prop_get_symbol p of
              None \<Rightarrow> Inr (dflt, K1)
            | Some d \<Rightarrow> bindE (calc d (set_flag s SYMBOL_WRITE K1)) (\<lambda>K2. Inr (v_val (s_curr (k_sym K2 d)), K2)))))"

text \<open>After the value is stored: the marks of a changed symbol, and those a choice gives to its values.\<close>

definition note_change :: "symref \<Rightarrow> symbol_value \<Rightarrow> kconf \<Rightarrow> kconf" where
  "note_change s oldval K =
     (if oldval \<noteq> s_curr (k_sym K s) then
        (let K1 = sym_set_changed s K in
         if k_modules_sym K1 = s
         then (let K2 = sym_set_all_changed K1 in K2\<lparr>k_modules_val := sym_get_tristate_value (k_modules_sym K2) K2\<rparr>)
         else K1)
      else K)"

definition mark_choice_values :: "symref \<Rightarrow> kconf \<Rightarrow> kconf res" where
  "mark_choice_values s K =
     (if sym_is_choice s K then
        bindE (deref (sym_get_choice_prop s K)) (\<lambda>p.
        Inr (fold (\<lambda>d K. let K1 = (if flag_on s SYMBOL_WRITE K \<and> s_visible (k_sym K d) \<noteq> T_no
                 then set_flag d SYMBOL_WRITE K else K)
               in if flag_on s SYMBOL_CHANGED K1 then sym_set_changed d K1 else K1) (choice_syms p) K))
      else Inr K)"

text \<open>
  \<open>calc_body\<close> is \<^verbatim>\<open>sym_calc_value\<close> for a symbol that is not valid, behind the calculation of the choice; the constants
  \<^verbatim>\<open>symbol_no.curr\<close> and \<^verbatim>\<open>symbol_empty.curr\<close> are read from the table.
\<close>

definition calc_body :: "calculator \<Rightarrow> symref \<Rightarrow> kconf \<Rightarrow> kconf res" where
  "calc_body calc s K0 =
     (let K = set_flag s SYMBOL_VALID K0; oldval = s_curr (k_sym K s); ty = s_type (k_sym K s) in
      if ty = S_UNKNOWN then
        Inr (set_curr s \<lparr>v_val = (case s_name (k_sym K s) of None \<Rightarrow> V_null | Some (i, t) \<Rightarrow> V_str i t), v_tri = T_no\<rparr> K)
      else
        (let newval = (if ty = S_BOOLEAN \<or> ty = S_TRISTATE then s_curr (k_sym K symbol_no) else s_curr (k_sym K symbol_empty)) in
         bindE (sym_calc_visibility calc s (clear_flag s SYMBOL_WRITE K)) (\<lambda>K1.
         let K2 = set_curr s newval (if s_visible (k_sym K1 s) \<noteq> T_no then set_flag s SYMBOL_WRITE K1 else K1) in
         bindE (if sym_get_type s K2 = S_BOOLEAN \<or> sym_get_type s K2 = S_TRISTATE
                then bindE (calc_tri calc s (v_tri newval) K2) (\<lambda>(t, K3). Inr (newval\<lparr>v_tri := t\<rparr>, K3))
                else bindE (calc_str calc s (v_val newval) K2) (\<lambda>(v, K3). Inr (newval\<lparr>v_val := v\<rparr>, K3))) (\<lambda>(v, K3).
         let K4 = set_curr s v K3 in
         bindE (if sym_is_choice s K4 \<and> v_tri v = T_yes then
                  bindE (sym_calc_choice calc s K4) (\<lambda>(d, K5). Inr (upd_sym s (\<lambda>x. x\<lparr>s_curr := (s_curr x)
                    \<lparr>v_val := (case d of None \<Rightarrow> V_null | Some c \<Rightarrow> V_sym c)\<rparr>\<rparr>) K5))
                else Inr K4) (\<lambda>K5.
         bindE (sym_validate_range calc s K5) (\<lambda>K6.
         bindE (mark_choice_values s (note_change s oldval K6)) (\<lambda>K7.
         let K8 = (if flag_on s SYMBOL_NO_WRITE K7 then clear_flag s SYMBOL_WRITE K7 else K7) in
         if flag_on s SYMBOL_NEED_SET_CHOICE_VALUES K8 then set_all_choice_values s K8 else Inr K8)))))))"

text \<open>
  The recursion through the conditions. Every nested call is for a symbol that is not valid, or takes back a request to set the
  values of a choice, so the depth is bounded; the fuel is a bound for it (\<open>calc_value_returns\<close>).
\<close>

fun sym_calc_value :: "nat \<Rightarrow> symref \<Rightarrow> kconf \<Rightarrow> kconf res" where
  "sym_calc_value 0 s K = Inl (Assert_fail ''fuel'')"
| "sym_calc_value (Suc n) s K =
     (if flag_on s SYMBOL_VALID K then Inr K
      else bindE (calc_choice_first (sym_calc_value n) s K) (calc_body (sym_calc_value n) s))"

declare sym_calc_value.simps(2) [simp del]

end
