(* ===== verification/KSet.thy ===== *)
theory KSet
  imports KSym
begin

text \<open>
  The operations of \<^verbatim>\<open>symbol.c\<close> on the settings of the user: which values a symbol accepts, setting, toggling and the defaults; the hash
  table of the symbols by name; and the escapes of a string. Those that calculate take \<^verbatim>\<open>sym_calc_value\<close> as an argument, as in theory KSym.
\<close>

unbundle bit_operations_syntax

section \<open>Settings of a tristate symbol\<close>

text \<open>The count of changes; the callback that tells a front end is left out.\<close>

definition sym_set_change_count :: "int \<Rightarrow> kconf \<Rightarrow> kconf" where
  "sym_set_change_count n K = K\<lparr>k_changes := n\<rparr>"

definition sym_add_change_count :: "int \<Rightarrow> kconf \<Rightarrow> kconf" where
  "sym_add_change_count n K = sym_set_change_count (n + k_changes K) K"

definition conf_get_changed :: "kconf \<Rightarrow> bool" where
  "conf_get_changed K \<longleftrightarrow> k_changes K \<noteq> 0"

definition sym_clear_all_valid :: "calculator \<Rightarrow> kconf \<Rightarrow> kconf res" where
  "sym_clear_all_valid calc K =
     (let K1 = sym_add_change_count 1 (fold (\<lambda>s. clear_flag s SYMBOL_VALID) (k_hash K) K) in calc (k_modules_sym K1) K1)"

definition sym_tristate_within_range :: "symref \<Rightarrow> tristate \<Rightarrow> kconf \<Rightarrow> bool" where
  "sym_tristate_within_range s val K =
     (let ty = sym_get_type s K; vis = s_visible (k_sym K s); rev = s_dep_tri (k_sym K s) D_rev in
      if vis = T_no then False
      else if ty \<noteq> S_BOOLEAN \<and> ty \<noteq> S_TRISTATE then False
      else if ty = S_BOOLEAN \<and> val = T_mod then False
      else if vis \<le> rev then False
      else if sym_is_choice_value s K \<and> vis = T_yes then val = T_yes
      else val \<ge> rev \<and> val \<le> vis)"

text \<open>A choice value that is set to y is recorded in its choice, whose visible values then count as set by the user.\<close>

definition set_choice_of :: "symref \<Rightarrow> kconf \<Rightarrow> kconf res" where
  "set_choice_of s K =
     bindE (deref (sym_get_choice_prop s K)) (\<lambda>p. bindE (deref (prop_get_symbol p)) (\<lambda>cs.
     let K1 = set_flag cs SYMBOL_DEF_USER (upd_sym cs (\<lambda>x. x\<lparr>s_def_user := (s_def_user x)\<lparr>v_val := V_sym s\<rparr>\<rparr>) K) in
     bindE (deref (sym_get_choice_prop cs K1)) (\<lambda>q.
       Inr (fold (\<lambda>d K. if s_visible (k_sym K d) \<noteq> T_no then set_flag d SYMBOL_DEF_USER K else K) (choice_syms q) K1))))"

definition sym_set_tristate_value :: "calculator \<Rightarrow> symref \<Rightarrow> tristate \<Rightarrow> kconf \<Rightarrow> (bool \<times> kconf) res" where
  "sym_set_tristate_value calc s val K =
     (let oldval = sym_get_tristate_value s K in
      if oldval \<noteq> val \<and> \<not> sym_tristate_within_range s val K then Inr (False, K)
      else
        (let K1 = (if sym_has_value s K then K else sym_set_changed s (set_flag s SYMBOL_DEF_USER K)) in
         bindE (if sym_is_choice_value s K1 \<and> val = T_yes then set_choice_of s K1 else Inr K1) (\<lambda>K2.
         let K3 = upd_sym s (\<lambda>x. x\<lparr>s_def_user := (s_def_user x)\<lparr>v_tri := val\<rparr>\<rparr>) K2 in
         if oldval \<noteq> val then bindE (sym_clear_all_valid calc K3) (\<lambda>K4. Inr (True, K4)) else Inr (True, K3))))"

fun next_tri :: "tristate \<Rightarrow> tristate" where
  "next_tri T_no = T_mod"
| "next_tri T_mod = T_yes"
| "next_tri T_yes = T_no"

text \<open>The loop tries the values after the old one, until one is taken or it is back at the old one, with the third.\<close>

fun toggle_loop :: "calculator \<Rightarrow> symref \<Rightarrow> tristate \<Rightarrow> nat \<Rightarrow> tristate \<Rightarrow> kconf \<Rightarrow> (tristate \<times> kconf) res" where
  "toggle_loop calc s oldval 0 v K = Inr (v, K)"
| "toggle_loop calc s oldval (Suc n) v K =
     (let v1 = next_tri v in
      bindE (sym_set_tristate_value calc s v1 K) (\<lambda>(taken, K1).
        if taken \<or> v1 = oldval then Inr (v1, K1) else toggle_loop calc s oldval n v1 K1))"

definition sym_toggle_tristate_value :: "calculator \<Rightarrow> symref \<Rightarrow> kconf \<Rightarrow> (tristate \<times> kconf) res" where
  "sym_toggle_tristate_value calc s K =
     (let oldval = sym_get_tristate_value s K in toggle_loop calc s oldval 3 oldval K)"

definition sym_is_changeable :: "symref \<Rightarrow> kconf \<Rightarrow> bool" where
  "sym_is_changeable s K \<longleftrightarrow> s_visible (k_sym K s) > s_dep_tri (k_sym K s) D_rev"

section \<open>Settings of a symbol with a string\<close>

definition hex_prefix :: "string \<Rightarrow> bool" where
  "hex_prefix str \<longleftrightarrow> take 2 str = ''0x'' \<or> take 2 str = ''0X''"

fun tri_letter :: "string \<Rightarrow> tristate option" where
  "tri_letter [] = None"
| "tri_letter (c # r) =
     (if c = CHR ''y'' \<or> c = CHR ''Y'' then Some T_yes
      else if c = CHR ''m'' \<or> c = CHR ''M'' then Some T_mod
      else if c = CHR ''n'' \<or> c = CHR ''N'' then Some T_no else None)"

fun sym_string_valid :: "symbol_type \<Rightarrow> string \<Rightarrow> bool" where
  "sym_string_valid S_STRING str = True"
| "sym_string_valid S_INT str =
     (case (if take 1 str = ''-'' then drop 1 str else str) of
        [] \<Rightarrow> False
      | ch # r \<Rightarrow> is_digit ch \<and> \<not> (ch = CHR ''0'' \<and> r \<noteq> []) \<and> list_all is_digit r)"
| "sym_string_valid S_HEX str =
     (let t = (if hex_prefix str then drop 2 str else str) in t \<noteq> [] \<and> list_all (digit_in 16) t)"
| "sym_string_valid S_UNKNOWN str = False"
| "sym_string_valid _ str = (tri_letter str \<noteq> None)"

definition sym_string_within_range :: "calculator \<Rightarrow> symref \<Rightarrow> string \<Rightarrow> kconf \<Rightarrow> (bool \<times> kconf) res" where
  "sym_string_within_range calc s str K =
     (let ty = s_type (k_sym K s) in
      case type_base ty of
        Some base \<Rightarrow>
          if \<not> sym_string_valid ty str then Inr (False, K)
          else bindE (sym_get_range_prop calc s K) (\<lambda>(p, K1). case p of
              None \<Rightarrow> Inr (True, K1)
            | Some p \<Rightarrow> bindE (range_bounds p) (\<lambda>(lo, hi).
                let val = strtoll base str in
                bindE (sym_get_range_val calc lo base K1) (\<lambda>(l, K2).
                if val \<ge> l then bindE (sym_get_range_val calc hi base K2) (\<lambda>(h, K3). Inr (val \<le> h, K3)) else Inr (False, K2))))
      | None \<Rightarrow>
          if ty = S_STRING then Inr (sym_string_valid ty str, K)
          else if ty = S_BOOLEAN \<or> ty = S_TRISTATE then
            Inr (case tri_letter str of Some v \<Rightarrow> sym_tristate_within_range s v K | None \<Rightarrow> False, K)
          else Inr (False, K))"

text \<open>A new string for the setting of the user.\<close>

definition store_def_user :: "symref \<Rightarrow> string \<Rightarrow> kconf \<Rightarrow> kconf" where
  "store_def_user s str K =
     (upd_sym s (\<lambda>x. x\<lparr>s_def_user := (s_def_user x)\<lparr>v_val := V_str (k_next K) str\<rparr>\<rparr>) K)\<lparr>k_next := k_next K + 1\<rparr>"

definition sym_set_string_value :: "calculator \<Rightarrow> symref \<Rightarrow> string \<Rightarrow> kconf \<Rightarrow> (bool \<times> kconf) res" where
  "sym_set_string_value calc s newval K =
     (if s_type (k_sym K s) = S_BOOLEAN \<or> s_type (k_sym K s) = S_TRISTATE then
        (case tri_letter newval of Some v \<Rightarrow> sym_set_tristate_value calc s v K | None \<Rightarrow> Inr (False, K))
      else bindE (sym_string_within_range calc s newval K) (\<lambda>(ok, K0).
        if \<not> ok then Inr (False, K0)
        else
          (let K1 = (if sym_has_value s K0 then K0 else sym_set_changed s (set_flag s SYMBOL_DEF_USER K0));
               store = (\<lambda>str. bindE (sym_clear_all_valid calc (store_def_user s str K1)) (\<lambda>K2. Inr (True, K2)))
           in if s_type (k_sym K1 s) = S_HEX \<and> \<not> hex_prefix newval then store (''0x'' @ newval)
              else (case v_val (s_def_user (k_sym K1 s)) of
                  V_null \<Rightarrow> store newval
                | V_str i t \<Rightarrow> if strcmp t newval \<noteq> 0 then store newval else Inr (True, K1)
                | V_sym c \<Rightarrow> null_deref))))"

section \<open>The default of a symbol\<close>

definition default_of :: "calculator \<Rightarrow> symref \<Rightarrow> kconf \<Rightarrow> ((tristate \<times> kval) \<times> kconf) res" where
  "default_of calc s K =
     (let val = v_tri (s_curr (k_sym K symbol_no)); str = v_val (s_curr (k_sym K symbol_empty)) in
      bindE (sym_get_default_prop calc s K) (\<lambda>(p, K1). case p of
          None \<Rightarrow> Inr ((val, str), K1)
        | Some p \<Rightarrow>
            if s_type (k_sym K1 s) = S_BOOLEAN \<or> s_type (k_sym K1 s) = S_TRISTATE then
              bindE (calc_and calc (p_expr p) (p_visible_tri p) K1) (\<lambda>(t, K2). Inr ((t, str), K2))
            else (case prop_get_symbol p of
                None \<Rightarrow> Inr ((val, str), K1)
              | Some d \<Rightarrow> bindE (calc d K1) (\<lambda>K2. Inr ((val, v_val (s_curr (k_sym K2 d))), K2)))))"

definition sym_get_string_default :: "calculator \<Rightarrow> symref \<Rightarrow> kconf \<Rightarrow> (string \<times> kconf) res" where
  "sym_get_string_default calc s K =
     bindE (sym_calc_visibility calc s K) (\<lambda>K1. bindE (calc (k_modules_sym K1) K1) (\<lambda>K2.
     bindE (default_of calc s K2) (\<lambda>((val0, str), K3).
     let x = k_sym K3 s;
         val1 = EXPR_OR val0 (s_dep_tri x D_rev);
         val2 = (if val1 = T_mod \<and> \<not> sym_is_choice_value s K3 \<and> sym_get_tristate_value (k_modules_sym K3) K3 = T_no then T_yes else val1);
         val3 = (if s_type x = S_BOOLEAN \<and> val2 = T_mod then T_yes else val2);
         val = (if val3 < s_dep_tri x D_implied then s_dep_tri x D_implied else val3)
     in if s_type x = S_BOOLEAN \<or> s_type x = S_TRISTATE
        then Inr (case val of T_no \<Rightarrow> ''n'' | T_mod \<Rightarrow> ''m'' | T_yes \<Rightarrow> ''y'', K3)
        else if s_type x = S_UNKNOWN then Inr ('''', K3)
        else bindE (val_text str) (\<lambda>t. Inr (t, K3)))))"

section \<open>Symbols by name\<close>

definition SYMBOL_HASHSIZE :: nat where "SYMBOL_HASHSIZE = 9973"

text \<open>The characters are signed.\<close>

definition strhash :: "string \<Rightarrow> u32" where
  "strhash s = foldl (\<lambda>h ch. (h XOR scast (of_char ch :: u8)) * 0x01000193) 2166136261 s"

definition name_hash :: "string option \<Rightarrow> nat" where
  "name_hash name = (case name of None \<Rightarrow> 0 | Some t \<Rightarrow> unat (strhash t) mod SYMBOL_HASHSIZE)"

definition sym_name :: "symref \<Rightarrow> kconf \<Rightarrow> string option" where
  "sym_name s K = map_option snd (s_name (k_sym K s))"

text \<open>The chain of a bucket: names do not change, so the symbols in it are those whose name has its hash.\<close>

definition hash_chain :: "nat \<Rightarrow> kconf \<Rightarrow> symref list" where
  "hash_chain h K = filter (\<lambda>s. name_hash (sym_name s K) = h) (k_hash K)"

definition constant_named :: "string \<Rightarrow> symref option" where
  "constant_named name = (if name = ''y'' then Some symbol_yes else if name = ''m'' then Some symbol_mod
     else if name = ''n'' then Some symbol_no else None)"

definition sym_find :: "string \<Rightarrow> kconf \<Rightarrow> symref option" where
  "sym_find name K = (case constant_named name of
      Some c \<Rightarrow> Some c
    | None \<Rightarrow> List.find (\<lambda>s. sym_name s K = Some name \<and> \<not> flag_on s SYMBOL_CONST K) (hash_chain (name_hash (Some name)) K))"

text \<open>A new symbol goes to the front of its chain; it is given the number of symbols so far.\<close>

definition new_symbol :: "string option \<Rightarrow> u32 \<Rightarrow> kconf \<Rightarrow> symref \<times> kconf" where
  "new_symbol name flags K =
     (let s = Sym (length (k_hash K)); h = name_hash name; before = (\<lambda>t. name_hash (sym_name t K) < h);
          zero = \<lparr>v_val = V_null, v_tri = T_no\<rparr>;
          x = \<lparr>s_name = map_option (\<lambda>t. (k_next K, t)) name, s_type = S_UNKNOWN, s_curr = zero, s_def_user = zero, s_visible = T_no,
               s_flags = flags, s_prop = [], s_dep = (\<lambda>_. None), s_dep_tri = (\<lambda>_. T_no)\<rparr>
      in (s, K\<lparr>k_sym := (k_sym K)(s := x), k_hash := takeWhile before (k_hash K) @ s # dropWhile before (k_hash K),
               k_next := k_next K + 1\<rparr>))"

definition sym_lookup :: "string option \<Rightarrow> u32 \<Rightarrow> kconf \<Rightarrow> symref \<times> kconf" where
  "sym_lookup name flags K = (case name of
      None \<Rightarrow> new_symbol None flags K
    | Some t \<Rightarrow> (case constant_named t of
          Some c \<Rightarrow> (c, K)
        | None \<Rightarrow> (case List.find (\<lambda>s. sym_name s K = Some t \<and>
                (if flags \<noteq> 0 then flag_on s flags K else \<not> flag_on s (SYMBOL_CONST OR SYMBOL_CHOICE) K)) (hash_chain (name_hash name) K) of
            Some s \<Rightarrow> (s, K)
          | None \<Rightarrow> new_symbol name flags K)))"

section \<open>Escapes\<close>

definition needs_escape :: "char \<Rightarrow> bool" where
  "needs_escape ch \<longleftrightarrow> ch = CHR 0x22 \<or> ch = CHR 0x5C"

fun escaped :: "string \<Rightarrow> string" where
  "escaped [] = []"
| "escaped (ch # r) = (if needs_escape ch then [CHR 0x5C, ch] else [ch]) @ escaped r"

definition sym_escape_string_value :: "string \<Rightarrow> string" where
  "sym_escape_string_value s = CHR 0x22 # escaped s @ [CHR 0x22]"

end
