(* ===== verification/KConf.thy ===== *)
theory KConf
  imports KSet
begin

text \<open>
  The configuration file, \<^verbatim>\<open>tools/kconfig/confdata.c\<close>: the lines written for a symbol, the reader of a file for the settings of the user
  (\<^verbatim>\<open>S_DEF_USER\<close>), and the operations on the settings of all symbols. The text of a file is an argument or a result: which file is
  opened, and the directories, the dependency files and the messages, are left out; warnings are counted. \<open>pre\<close> is the prefix of the names,
  \<^verbatim>\<open>CONFIG_\<close> unless the environment sets another.
\<close>

unbundle bit_operations_syntax

definition SYMBOL_ALLNOCONFIG_Y :: u32 where "SYMBOL_ALLNOCONFIG_Y = 0x200000"

definition newline :: string where "newline = [CHR 0x0A]"

section \<open>Writing\<close>

type_synonym printer = "symbol_type \<Rightarrow> string \<Rightarrow> string \<Rightarrow> string"

text \<open>The argument \<^verbatim>\<open>arg\<close> of the printer is a flag, to leave out symbols that are not set.\<close>

definition kconfig_print_symbol :: "string \<Rightarrow> bool \<Rightarrow> printer" where
  "kconfig_print_symbol pre skip_unset ty name val =
     (if (ty = S_BOOLEAN \<or> ty = S_TRISTATE) \<and> take 1 val = ''n''
      then (if skip_unset then '''' else ''# '' @ pre @ name @ '' is not set'' @ newline)
      else pre @ name @ ''='' @ val @ newline)"

definition header_print_symbol :: "string \<Rightarrow> printer" where
  "header_print_symbol pre ty name val =
     (if ty = S_BOOLEAN \<or> ty = S_TRISTATE then
        (if take 1 val = ''n'' then ''''
         else ''#define '' @ pre @ name @ (if take 1 val = ''m'' then ''_MODULE'' else '''') @ '' 1'' @ newline)
      else if ty = S_HEX then
        ''#define '' @ pre @ name @ '' '' @ (if hex_prefix val then '''' else ''0x'') @ val @ newline
      else if ty = S_STRING \<or> ty = S_INT then ''#define '' @ pre @ name @ '' '' @ val @ newline
      else '''')"

text \<open>A comment, one line of it for each line of the text.\<close>

fun comment_lines :: "string \<Rightarrow> string list" where
  "comment_lines [] = [[]]"
| "comment_lines (c # r) =
     (if c = CHR 0x0A then [] # comment_lines r
      else (case comment_lines r of [] \<Rightarrow> [[c]] | l # ls \<Rightarrow> (c # l) # ls))"

definition comment_text :: "string \<Rightarrow> string \<Rightarrow> string" where
  "comment_text mark val = concat (map (\<lambda>l. mark @ (if l = [] then '''' else '' '' @ l) @ newline) (comment_lines val))"

definition kconfig_print_comment :: "string \<Rightarrow> string" where
  "kconfig_print_comment val = comment_text ''#'' val"

definition header_print_comment :: "string \<Rightarrow> string" where
  "header_print_comment val = ''/*'' @ newline @ comment_text '' *'' val @ '' */'' @ newline"

definition conf_write_symbol :: "calculator \<Rightarrow> printer \<Rightarrow> symref \<Rightarrow> kconf \<Rightarrow> (string \<times> kconf) res" where
  "conf_write_symbol calc pr s K =
     (let ty = s_type (k_sym K s) in
      if ty = S_UNKNOWN then Inr ('''', K)
      else bindE (sym_get_string_value calc s K) (\<lambda>(str, K1).
        bindE (deref (sym_name s K1)) (\<lambda>name.
        Inr (pr ty name (if ty = S_STRING then sym_escape_string_value str else str), K1))))"

text \<open>The part of \<^verbatim>\<open>conf_write_autoconf\<close> that writes the symbols: what goes to \<^verbatim>\<open>auto.conf\<close>, and what to \<^verbatim>\<open>autoconf.h\<close>.\<close>

fun autoconf_symbols :: "calculator \<Rightarrow> string \<Rightarrow> symref list \<Rightarrow> kconf \<Rightarrow> ((string \<times> string) \<times> kconf) res" where
  "autoconf_symbols calc pre [] K = Inr (('''', ''''), K)"
| "autoconf_symbols calc pre (s # ss) K =
     bindE (calc s K) (\<lambda>K1.
       if \<not> flag_on s SYMBOL_WRITE K1 \<or> sym_name s K1 = None then autoconf_symbols calc pre ss K1
       else bindE (conf_write_symbol calc (kconfig_print_symbol pre True) s K1) (\<lambda>(a, K2).
            bindE (conf_write_symbol calc (header_print_symbol pre) s K2) (\<lambda>(h, K3).
            bindE (autoconf_symbols calc pre ss K3) (\<lambda>((as, hs), K4). Inr ((a @ as, h @ hs), K4)))))"

text \<open>The mark of a symbol that \<^verbatim>\<open>conf_write\<close> has written.\<close>

definition SYMBOL_WRITTEN :: u32 where "SYMBOL_WRITTEN = 0x0800"

section \<open>Reading\<close>

text \<open>
  A string up to the closing quote, without the escapes; there is none when the quote is missing. A backslash that ends the
  value counts as a missing quote here (the code goes on behind the terminator).
\<close>

fun unquote :: "string \<Rightarrow> string option" where
  "unquote [] = None"
| "unquote (c # r) =
     (if c = CHR 0x22 then Some []
      else if c = CHR 0x5C then (case r of [] \<Rightarrow> None | d # r' \<Rightarrow> map_option ((#) d) (unquote r'))
      else map_option ((#) c) (unquote r))"

text \<open>The table, and the number of warnings.\<close>

record conf_reader =
  r_table :: kconf
  r_warnings :: nat

definition on_table :: "(kconf \<Rightarrow> kconf) \<Rightarrow> conf_reader \<Rightarrow> conf_reader" where
  "on_table f R = R\<lparr>r_table := f (r_table R)\<rparr>"

definition conf_warning :: "conf_reader \<Rightarrow> conf_reader" where
  "conf_warning R = R\<lparr>r_warnings := r_warnings R + 1\<rparr>"

definition set_user_tri :: "symref \<Rightarrow> tristate \<Rightarrow> kconf \<Rightarrow> kconf" where
  "set_user_tri s v K = upd_sym s (\<lambda>x. x\<lparr>s_def_user := (s_def_user x)\<lparr>v_tri := v\<rparr>\<rparr>) K"

text \<open>\<^verbatim>\<open>conf_set_sym_val\<close>; the first component is whether it failed.\<close>

definition conf_set_sym_val :: "symref \<Rightarrow> string \<Rightarrow> conf_reader \<Rightarrow> bool \<times> conf_reader" where
  "conf_set_sym_val s p R =
     (let ty = s_type (k_sym (r_table R) s);
          set_tri = (\<lambda>v. (False, on_table (\<lambda>K. set_flag s SYMBOL_DEF_USER (set_user_tri s v K)) R));
          set_str = (\<lambda>str. if sym_string_valid ty str
            then (False, on_table (\<lambda>K. set_flag s SYMBOL_DEF_USER (store_def_user s str K)) R)
            else (True, conf_warning R))
      in case ty of
          S_TRISTATE \<Rightarrow> if take 1 p = ''m'' then set_tri T_mod else if take 1 p = ''y'' then set_tri T_yes
            else if take 1 p = ''n'' then set_tri T_no else (True, conf_warning R)
        | S_BOOLEAN \<Rightarrow> if take 1 p = ''y'' then set_tri T_yes
            else if take 1 p = ''n'' then set_tri T_no else (True, conf_warning R)
        | S_STRING \<Rightarrow> if take 1 p \<noteq> [CHR 0x22] then (False, R)
            else (case unquote (drop 1 p) of None \<Rightarrow> (True, conf_warning R) | Some t \<Rightarrow> set_str t)
        | S_INT \<Rightarrow> set_str p
        | S_HEX \<Rightarrow> set_str p
        | S_UNKNOWN \<Rightarrow> (False, R))"

text \<open>A choice follows the values read for its symbols.\<close>

definition note_choice_value :: "symref \<Rightarrow> conf_reader \<Rightarrow> conf_reader res" where
  "note_choice_value s R =
     (if sym_is_choice_value s (r_table R) then
        bindE (deref (sym_get_choice_prop s (r_table R))) (\<lambda>p. bindE (deref (prop_get_symbol p)) (\<lambda>cs.
        let v = v_tri (s_def_user (k_sym (r_table R) s));
            old = v_tri (s_def_user (k_sym (r_table R) cs));
            R1 = (case v of
                T_no \<Rightarrow> R
              | T_mod \<Rightarrow> if old = T_yes then on_table (clear_flag cs SYMBOL_DEF_USER) (conf_warning R) else R
              | T_yes \<Rightarrow> on_table (upd_sym cs (\<lambda>x. x\<lparr>s_def_user := (s_def_user x)\<lparr>v_val := V_sym s\<rparr>\<rparr>))
                  (if old \<noteq> T_no then conf_warning R else R))
        in Inr (on_table (set_user_tri cs (EXPR_OR (v_tri (s_def_user (k_sym (r_table R1) cs))) (v_tri (s_def_user (k_sym (r_table R1) s))))) R1)))
      else Inr R)"

definition override_warning :: "symref \<Rightarrow> conf_reader \<Rightarrow> conf_reader" where
  "override_warning s R = (if sym_has_value s (r_table R) then conf_warning R else R)"

text \<open>
  One line, with its newline: a comment that names a symbol which is not set, a setting, or neither. A line \<^verbatim>\<open>#\<close> that ends
  the file without a newline is taken for a comment here (the code compares what the buffer had behind it).
\<close>

definition read_unset :: "string \<Rightarrow> string \<Rightarrow> conf_reader \<Rightarrow> conf_reader res" where
  "read_unset pre line R =
     (let t = drop 2 line; u = drop (length pre) t; name = takeWhile (\<lambda>c. c \<noteq> CHR '' '') u; p = dropWhile (\<lambda>c. c \<noteq> CHR '' '') u in
      if take (length pre) t \<noteq> pre \<or> p = [] \<or> take 10 (drop 1 p) \<noteq> ''is not set'' then Inr R
      else (case sym_find name (r_table R) of
          None \<Rightarrow> Inr (on_table (sym_add_change_count 1) R)
        | Some s \<Rightarrow>
            (let R1 = override_warning s R; ty = s_type (k_sym (r_table R1) s)
             in note_choice_value s (if ty = S_BOOLEAN \<or> ty = S_TRISTATE
                  then on_table (\<lambda>K. set_flag s SYMBOL_DEF_USER (set_user_tri s T_no K)) R1 else R1))))"

definition line_value :: "string \<Rightarrow> string" where
  "line_value p =
     (let v = takeWhile (\<lambda>c. c \<noteq> CHR 0x0A) p in
      if CHR 0x0A \<in> set p \<and> v \<noteq> [] \<and> last v = CHR 0x0D then butlast v else v)"

definition read_setting :: "string \<Rightarrow> string \<Rightarrow> conf_reader \<Rightarrow> conf_reader res" where
  "read_setting pre line R =
     (let u = drop (length pre) line; name = takeWhile (\<lambda>c. c \<noteq> CHR ''='') u; p = dropWhile (\<lambda>c. c \<noteq> CHR ''='') u in
      if p = [] then Inr R
      else (case sym_find name (r_table R) of
          None \<Rightarrow> Inr (on_table (sym_add_change_count 1) R)
        | Some s \<Rightarrow>
            (case conf_set_sym_val s (line_value (drop 1 p)) (override_warning s R) of
               (failed, R1) \<Rightarrow> if failed then Inr R1 else note_choice_value s R1)))"

definition read_line :: "string \<Rightarrow> string \<Rightarrow> conf_reader \<Rightarrow> conf_reader res" where
  "read_line pre line R =
     (if take 1 line = ''#'' then read_unset pre line R
      else if take (length pre) line = pre then read_setting pre line R
      else if take 1 line \<noteq> [CHR 0x0D] \<and> take 1 line \<noteq> newline then Inr (conf_warning R)
      else Inr R)"

text \<open>The lines of a file; the last one may lack its newline.\<close>

fun file_lines :: "string \<Rightarrow> string list" where
  "file_lines [] = []"
| "file_lines (c # r) =
     (if c = CHR 0x0A then [c] # file_lines r
      else (case file_lines r of [] \<Rightarrow> [[c]] | l # ls \<Rightarrow> (c # l) # ls))"

fun read_lines :: "string \<Rightarrow> string list \<Rightarrow> conf_reader \<Rightarrow> conf_reader res" where
  "read_lines pre [] R = Inr R"
| "read_lines pre (l # ls) R = bindE (read_line pre l R) (read_lines pre ls)"

text \<open>What is set to begin with, and the reading, in \<^verbatim>\<open>conf_read_simple\<close>.\<close>

definition reset_setting :: "symref \<Rightarrow> kconf \<Rightarrow> kconf" where
  "reset_setting s K =
     (let K1 = clear_flag s (SYMBOL_DEF_USER OR SYMBOL_VALID) (set_flag s SYMBOL_CHANGED K);
          K2 = (if sym_is_choice s K1 then set_flag s SYMBOL_DEF_USER K1 else K1)
      in upd_sym s (\<lambda>x. x\<lparr>s_def_user := \<lparr>v_val = V_null, v_tri = T_no\<rparr>\<rparr>) K2)"

definition conf_read_simple :: "string \<Rightarrow> string \<Rightarrow> kconf \<Rightarrow> conf_reader res" where
  "conf_read_simple pre text K =
     read_lines pre (file_lines text) \<lparr>r_table = fold reset_setting (k_hash K) K, r_warnings = 0\<rparr>"

text \<open>Whether the value read for a symbol and the one calculated agree, for all symbols; the number of those that do not.\<close>

definition setting_agrees :: "symref \<Rightarrow> kconf \<Rightarrow> bool res" where
  "setting_agrees s K =
     (if sym_is_choice s K \<or> flag_on s SYMBOL_NO_WRITE K then Inr True
      else if sym_has_value s K \<and> flag_on s SYMBOL_WRITE K then
        (if s_type (k_sym K s) = S_BOOLEAN \<or> s_type (k_sym K s) = S_TRISTATE
         then Inr (v_tri (s_def_user (k_sym K s)) = sym_get_tristate_value s K)
         else bindE (val_text (v_val (s_curr (k_sym K s)))) (\<lambda>a. bindE (val_text (v_val (s_def_user (k_sym K s)))) (\<lambda>b.
           Inr (strcmp a b = 0))))
      else Inr (\<not> sym_has_value s K \<and> \<not> flag_on s SYMBOL_WRITE K))"

fun count_unsaved :: "calculator \<Rightarrow> symref list \<Rightarrow> nat \<Rightarrow> kconf \<Rightarrow> (nat \<times> kconf) res" where
  "count_unsaved calc [] n K = Inr (n, K)"
| "count_unsaved calc (s # ss) n K =
     bindE (calc s K) (\<lambda>K1. bindE (setting_agrees s K1) (\<lambda>ok. count_unsaved calc ss (if ok then n else n + 1) K1))"

fun drop_settings :: "calculator \<Rightarrow> symref list \<Rightarrow> nat \<Rightarrow> kconf \<Rightarrow> (nat \<times> kconf) res" where
  "drop_settings calc [] n K = Inr (n, K)"
| "drop_settings calc (s # ss) n K =
     (if sym_has_value s K \<and> \<not> sym_is_choice_value s K then
        (let K1 = (if s_visible (k_sym K s) = T_no \<and> n = 0 then clear_flag s SYMBOL_DEF_USER K else K);
             ty = s_type (k_sym K1 s) in
         if ty = S_STRING \<or> ty = S_INT \<or> ty = S_HEX then
           bindE (val_text (v_val (s_def_user (k_sym K1 s)))) (\<lambda>str.
           bindE (sym_string_within_range calc s str K1) (\<lambda>(ok, K2).
             if ok then drop_settings calc ss n K2
             else drop_settings calc ss (n + 1) (clear_flag s (SYMBOL_VALID OR SYMBOL_DEF_USER) K2)))
         else drop_settings calc ss n K1)
      else drop_settings calc ss n K)"

definition conf_read :: "calculator \<Rightarrow> string \<Rightarrow> string \<Rightarrow> kconf \<Rightarrow> kconf res" where
  "conf_read calc pre text K =
     bindE (conf_read_simple pre text (sym_set_change_count 0 K)) (\<lambda>R.
     bindE (calc (k_modules_sym (r_table R)) (r_table R)) (\<lambda>K1.
     bindE (count_unsaved calc (k_hash K1) 0 K1) (\<lambda>(n, K2).
     bindE (drop_settings calc (k_hash K2) n K2) (\<lambda>(n', K3).
     Inr (sym_add_change_count (if r_warnings R \<noteq> 0 \<or> n' \<noteq> 0 then 1 else 0) K3)))))"

section \<open>The settings of all symbols\<close>

datatype conf_def_mode = def_default | def_yes | def_mod | def_y2m | def_m2y | def_no

text \<open>The modes that do not ask for random values.\<close>

definition new_setting :: "conf_def_mode \<Rightarrow> symref \<Rightarrow> bool \<times> kconf \<Rightarrow> bool \<times> kconf" where
  "new_setting mode s st = (case st of (changed, K) \<Rightarrow>
     if sym_has_value s K \<or> flag_on s SYMBOL_VALID K then (changed, K)
     else if sym_get_type s K = S_BOOLEAN \<or> sym_get_type s K = S_TRISTATE then
       (let set = (\<lambda>v. (True, set_flag s SYMBOL_DEF_USER (set_user_tri s v K))) in
        case mode of
          def_yes \<Rightarrow> set T_yes
        | def_mod \<Rightarrow> set T_mod
        | def_no \<Rightarrow> set (if flag_on s SYMBOL_ALLNOCONFIG_Y K then T_yes else T_no)
        | _ \<Rightarrow> (True, K))
     else (changed, K))"

fun set_choices :: "calculator \<Rightarrow> symref list \<Rightarrow> bool \<Rightarrow> kconf \<Rightarrow> (bool \<times> kconf) res" where
  "set_choices calc [] changed K = Inr (changed, K)"
| "set_choices calc (c # cs) changed K =
     (if sym_has_value c K \<or> \<not> sym_is_choice c K then set_choices calc cs changed K
      else bindE (calc c K) (\<lambda>K1. bindE (set_all_choice_values c K1) (set_choices calc cs True)))"

definition conf_set_all_new_symbols :: "calculator \<Rightarrow> conf_def_mode \<Rightarrow> kconf \<Rightarrow> (bool \<times> kconf) res" where
  "conf_set_all_new_symbols calc mode K =
     (case fold (new_setting mode) (k_hash K) (False, K) of (changed, K1) \<Rightarrow>
        bindE (sym_clear_all_valid calc K1) (\<lambda>K2.
        let K3 = fold (\<lambda>c K. if (sym_is_choice c K \<and> \<not> sym_has_value c K) \<or> sym_is_choice_value c K
              then set_flag c SYMBOL_NEED_SET_CHOICE_VALUES K else K) (k_hash K2) K2
        in set_choices calc (k_hash K3) changed K3))"

definition conf_rewrite_mod_or_yes :: "calculator \<Rightarrow> conf_def_mode \<Rightarrow> kconf \<Rightarrow> kconf res" where
  "conf_rewrite_mod_or_yes calc mode K =
     (let old_val = (if mode = def_y2m then T_yes else T_mod); new_val = (if mode = def_y2m then T_mod else T_yes) in
      sym_clear_all_valid calc (fold (\<lambda>s K. if sym_get_type s K = S_TRISTATE \<and> v_tri (s_def_user (k_sym K s)) = old_val
        then set_user_tri s new_val K else K) (k_hash K) K))"

end
