(* ===== verification/KMenu.thy ===== *)
theory KMenu
  imports KConf
begin

text \<open>
  The menu tree, \<^verbatim>\<open>tools/kconfig/menu.c\<close>, as far as it decides what is written, and the writers of whole configurations in
  \<^verbatim>\<open>confdata.c\<close>: \<^verbatim>\<open>conf_write\<close> and \<^verbatim>\<open>conf_write_defconfig\<close>. The links between the menus are a tree; how the parser builds it is left out.
\<close>

unbundle bit_operations_syntax

section \<open>Menus\<close>

text \<open>
  A menu with a symbol: the place of its prompt among the properties of the symbol, the condition \<^verbatim>\<open>visibility\<close>, the menus below.
  A menu without one (a menu, a comment, an if): the text of its prompt with its condition. The field \<^verbatim>\<open>visible.tri\<close> of such a
  prompt is set just before it is read, and is left out.
\<close>

datatype menu =
    Sym_menu symref "nat option" "kexpr option" "menu list"
  | Text_menu "(string \<times> kexpr option) option" "kexpr option" "menu list"

fun menu_list :: "menu \<Rightarrow> menu list" where
  "menu_list (Sym_menu s p v ms) = ms"
| "menu_list (Text_menu p v ms) = ms"

definition prompt_at :: "symref \<Rightarrow> nat \<Rightarrow> kconf \<Rightarrow> property res" where
  "prompt_at s i K = (if i < length (s_prop (k_sym K s)) then Inr (s_prop (k_sym K s) ! i) else null_deref)"

fun menu_has_prompt :: "menu \<Rightarrow> bool" where
  "menu_has_prompt (Sym_menu s p v ms) = (p \<noteq> None)"
| "menu_has_prompt (Text_menu p v ms) = (p \<noteq> None)"

fun menu_get_prompt :: "menu \<Rightarrow> kconf \<Rightarrow> string option res" where
  "menu_get_prompt (Sym_menu s p v ms) K = (case p of
      Some i \<Rightarrow> bindE (prompt_at s i K) (\<lambda>q. Inr (p_text q))
    | None \<Rightarrow> Inr (sym_name s K))"
| "menu_get_prompt (Text_menu p v ms) K = Inr (map_option fst p)"

text \<open>Whether the condition \<^verbatim>\<open>visibility\<close> lets a menu be shown.\<close>

definition visibility_holds :: "calculator \<Rightarrow> kexpr option \<Rightarrow> kconf \<Rightarrow> (bool \<times> kconf) res" where
  "visibility_holds calc v K = (case v of
      None \<Rightarrow> Inr (True, K)
    | Some e \<Rightarrow> bindE (expr_calc_value calc (Some e) K) (\<lambda>(t, K1). Inr (t \<noteq> T_no, K1)))"

fun menu_is_visible :: "calculator \<Rightarrow> menu \<Rightarrow> kconf \<Rightarrow> (bool \<times> kconf) res"
  and some_visible :: "calculator \<Rightarrow> menu list \<Rightarrow> kconf \<Rightarrow> (bool \<times> kconf) res" where
  "menu_is_visible calc (Text_menu p v ms) K = (case p of
      None \<Rightarrow> Inr (False, K)
    | Some (txt, cond) \<Rightarrow> bindE (visibility_holds calc v K) (\<lambda>(ok, K1).
        if \<not> ok then Inr (False, K1)
        else bindE (expr_calc_value calc cond K1) (\<lambda>(t, K2). Inr (t \<noteq> T_no, K2))))"
| "menu_is_visible calc (Sym_menu s p v ms) K = (case p of
      None \<Rightarrow> Inr (False, K)
    | Some i \<Rightarrow> bindE (visibility_holds calc v K) (\<lambda>(ok, K1).
        if \<not> ok then Inr (False, K1)
        else bindE (calc s K1) (\<lambda>K2. bindE (prompt_at s i K2) (\<lambda>q.
          if p_visible_tri q \<noteq> T_no then Inr (True, K2)
          else if sym_get_tristate_value s K2 = T_no then Inr (False, K2)
          else bindE (some_visible calc ms K2) (\<lambda>(any, K3).
            Inr (any, if any then set_flag s SYMBOL_DEF_USER K3 else K3))))))"
| "some_visible calc [] K = Inr (False, K)"
| "some_visible calc (m # ms) K =
     bindE (menu_is_visible calc m K) (\<lambda>(ok, K1). if ok then Inr (True, K1) else some_visible calc ms K1)"

definition menu_is_empty :: "calculator \<Rightarrow> menu \<Rightarrow> kconf \<Rightarrow> (bool \<times> kconf) res" where
  "menu_is_empty calc m K = bindE (some_visible calc (menu_list m) K) (\<lambda>(any, K1). Inr (\<not> any, K1))"

section \<open>The configuration\<close>

text \<open>The comment at the start of a file; the buffer has room for 255 characters.\<close>

definition conf_write_heading :: "(string \<Rightarrow> string) \<Rightarrow> menu \<Rightarrow> string res" where
  "conf_write_heading print_comment root = (case root of
      Text_menu (Some (title, c)) v ms \<Rightarrow>
        Inr (print_comment (take 255 (newline @ ''Automatically generated file; DO NOT EDIT.'' @ newline @ title @ newline)))
    | _ \<Rightarrow> null_deref)"

text \<open>
  What a menu contributes before the menus below it: the title of a visible menu, or the line of a symbol that is written and was not
  yet. \<open>nl\<close> is \<^verbatim>\<open>need_newline\<close>.
\<close>

fun write_entry :: "calculator \<Rightarrow> string \<Rightarrow> bool \<Rightarrow> menu \<Rightarrow> kconf \<Rightarrow> (string \<times> bool \<times> kconf) res" where
  "write_entry calc pre nl (Text_menu p v ms) K =
     bindE (menu_is_visible calc (Text_menu p v ms) K) (\<lambda>(vis, K1).
       if \<not> vis then Inr ('''', nl, K1)
       else bindE (bindE (menu_get_prompt (Text_menu p v ms) K1) deref) (\<lambda>str.
         Inr (newline @ ''#'' @ newline @ ''# '' @ str @ newline @ ''#'' @ newline, False, K1)))"
| "write_entry calc pre nl (Sym_menu s p v ms) K =
     (if sym_is_choice s K \<or> flag_on s SYMBOL_WRITTEN K then Inr ('''', nl, K)
      else bindE (calc s K) (\<lambda>K1.
        if \<not> flag_on s SYMBOL_WRITE K1 then Inr ('''', nl, K1)
        else bindE (conf_write_symbol calc (kconfig_print_symbol pre False) s (set_flag s SYMBOL_WRITTEN K1)) (\<lambda>(a, K2).
          Inr ((if nl then newline else '''') @ a, False, K2))))"

text \<open>What it contributes when the last menu below it has been left.\<close>

fun write_end :: "calculator \<Rightarrow> bool \<Rightarrow> menu \<Rightarrow> kconf \<Rightarrow> (string \<times> bool \<times> kconf) res" where
  "write_end calc nl (Sym_menu s p v ms) K = Inr ('''', nl, K)"
| "write_end calc nl (Text_menu p v ms) K =
     bindE (menu_is_visible calc (Text_menu p v ms) K) (\<lambda>(vis, K1).
       if \<not> vis then Inr ('''', nl, K1)
       else bindE (bindE (menu_get_prompt (Text_menu p v ms) K1) deref) (\<lambda>str. Inr (''# end of '' @ str @ newline, True, K1)))"

definition then_write :: "(string \<times> bool \<times> kconf) res \<Rightarrow> (bool \<Rightarrow> kconf \<Rightarrow> (string \<times> bool \<times> kconf) res) \<Rightarrow> (string \<times> bool \<times> kconf) res" where
  "then_write r f = bindE r (\<lambda>(a, nl, K). bindE (f nl K) (\<lambda>(b, nl', K'). Inr (a @ b, nl', K')))"

fun write_menu :: "calculator \<Rightarrow> string \<Rightarrow> bool \<Rightarrow> menu \<Rightarrow> kconf \<Rightarrow> (string \<times> bool \<times> kconf) res"
  and write_menus :: "calculator \<Rightarrow> string \<Rightarrow> bool \<Rightarrow> menu list \<Rightarrow> kconf \<Rightarrow> (string \<times> bool \<times> kconf) res" where
  "write_menu calc pre nl (Sym_menu s p v ms) K =
     then_write (write_entry calc pre nl (Sym_menu s p v ms) K) (\<lambda>nl K. write_menus calc pre nl ms K)"
| "write_menu calc pre nl (Text_menu p v ms) K =
     then_write (write_entry calc pre nl (Text_menu p v ms) K) (\<lambda>nl K.
       if ms = [] then Inr ('''', nl, K)
       else then_write (write_menus calc pre nl ms K) (\<lambda>nl K. write_end calc nl (Text_menu p v ms) K))"
| "write_menus calc pre nl [] K = Inr ('''', nl, K)"
| "write_menus calc pre nl (m # ms) K = then_write (write_menu calc pre nl m K) (\<lambda>nl K. write_menus calc pre nl ms K)"

text \<open>
  What \<^verbatim>\<open>conf_write\<close> asks of the file system, and what becomes of the file: \<open>f_same\<close> compares the text with the old content. Behind the
  last menu the code asks once more whether the root menu is visible, before it sees that it is the root.
\<close>

record conf_files =
  f_is_dir :: bool
  f_no_parent :: bool
  f_overwrite :: bool
  f_no_open :: bool
  f_same :: "string \<Rightarrow> bool"
  f_no_rename :: bool

datatype conf_file = File_kept | File_is string | File_gone

definition write_config :: "calculator \<Rightarrow> string \<Rightarrow> menu \<Rightarrow> kconf \<Rightarrow> (string \<times> kconf) res" where
  "write_config calc pre root K =
     bindE (conf_write_heading kconfig_print_comment root) (\<lambda>h.
     bindE (if conf_get_changed K then Inr K else sym_clear_all_valid calc K) (\<lambda>K1.
     bindE (write_menus calc pre False (menu_list root) K1) (\<lambda>(text, nl, K2).
     bindE (if menu_list root = [] then Inr (False, K2) else menu_is_visible calc root K2) (\<lambda>(vis, K3).
     Inr (h @ text, fold (\<lambda>s. clear_flag s SYMBOL_WRITTEN) (k_hash K3) K3)))))"

definition conf_write :: "calculator \<Rightarrow> string \<Rightarrow> conf_files \<Rightarrow> menu \<Rightarrow> string \<Rightarrow> kconf \<Rightarrow> ((int \<times> conf_file) \<times> kconf) res" where
  "conf_write calc pre F root name K =
     (if name = [] \<or> f_is_dir F \<or> f_no_parent F then Inr ((- 1, File_kept), K)
      else if f_no_open F then Inr ((1, File_kept), K)
      else bindE (write_config calc pre root K) (\<lambda>(text, K1).
        if f_overwrite F then Inr ((0, File_is text), sym_set_change_count 0 K1)
        else if f_same F text then Inr ((0, File_kept), sym_set_change_count 0 K1)
        else if f_no_rename F then Inr ((1, File_gone), K1)
        else Inr ((0, File_is text), sym_set_change_count 0 K1)))"

section \<open>The minimal configuration\<close>

definition SYMBOL_OPTIONAL :: u32 where "SYMBOL_OPTIONAL = 0x0100"

definition sym_is_optional :: "symref \<Rightarrow> kconf \<Rightarrow> bool" where
  "sym_is_optional s K = flag_on s SYMBOL_OPTIONAL K"

text \<open>The menus in the order of the walk.\<close>

fun menu_walk :: "menu \<Rightarrow> menu list" where
  "menu_walk (Sym_menu s p v ms) = Sym_menu s p v ms # concat (map menu_walk ms)"
| "menu_walk (Text_menu p v ms) = Text_menu p v ms # concat (map menu_walk ms)"

text \<open>A choice value that is y because it is the default of its choice.\<close>

definition default_of_choice :: "calculator \<Rightarrow> symref \<Rightarrow> kconf \<Rightarrow> (bool \<times> kconf) res" where
  "default_of_choice calc s K =
     (if \<not> sym_is_choice_value s K then Inr (False, K)
      else bindE (deref (sym_get_choice_prop s K)) (\<lambda>p. bindE (deref (prop_get_symbol p)) (\<lambda>cs.
        bindE (sym_choice_default calc cs K) (\<lambda>(ds, K1).
        Inr (\<not> sym_is_optional cs K1 \<and> ds = Some s \<and> s_type (k_sym K1 s) = S_BOOLEAN \<and> sym_get_tristate_value s K1 = T_yes, K1)))))"

fun defconfig_entry :: "calculator \<Rightarrow> string \<Rightarrow> menu \<Rightarrow> kconf \<Rightarrow> (string \<times> kconf) res" where
  "defconfig_entry calc pre (Text_menu p v ms) K =
     bindE (menu_is_visible calc (Text_menu p v ms) K) (\<lambda>(vis, K1). Inr ('''', K1))"
| "defconfig_entry calc pre (Sym_menu s p v ms) K =
     (if sym_is_choice s K then Inr ('''', K)
      else bindE (calc s K) (\<lambda>K1.
        if \<not> flag_on s SYMBOL_WRITE K1 then Inr ('''', K1)
        else (let K2 = clear_flag s SYMBOL_WRITE K1 in
          if \<not> sym_is_changeable s K2 then Inr ('''', K2)
          else bindE (sym_get_string_value calc s K2) (\<lambda>(str, K3). bindE (sym_get_string_default calc s K3) (\<lambda>(dflt, K4).
            if strcmp str dflt = 0 then Inr ('''', K4)
            else bindE (default_of_choice calc s K4) (\<lambda>(skip, K5).
              if skip then Inr ('''', K5)
              else conf_write_symbol calc (kconfig_print_symbol pre False) s K5))))))"

fun defconfig_entries :: "calculator \<Rightarrow> string \<Rightarrow> menu list \<Rightarrow> kconf \<Rightarrow> (string \<times> kconf) res" where
  "defconfig_entries calc pre [] K = Inr ('''', K)"
| "defconfig_entries calc pre (m # ms) K =
     bindE (defconfig_entry calc pre m K) (\<lambda>(a, K1). bindE (defconfig_entries calc pre ms K1) (\<lambda>(b, K2). Inr (a @ b, K2)))"

definition conf_write_defconfig :: "calculator \<Rightarrow> string \<Rightarrow> bool \<Rightarrow> menu \<Rightarrow> kconf \<Rightarrow> ((int \<times> string option) \<times> kconf) res" where
  "conf_write_defconfig calc pre opened root K =
     (if \<not> opened then Inr ((1, None), K)
      else bindE (sym_clear_all_valid calc K) (\<lambda>K1.
        bindE (defconfig_entries calc pre (concat (map menu_walk (menu_list root))) K1) (\<lambda>(text, K2). Inr ((0, Some text), K2))))"

end
