(* ===== verification/KSymProps.thy ===== *)
theory KSymProps
  imports KSym
begin

text \<open>
  The calculation of values ends, also where symbols depend on each other in a circle: the interface \<open>bounded_calc\<close> states what
  the functions that calculate properties rely on, and \<^verbatim>\<open>sym_calc_value\<close> provides it at every depth.
\<close>

unbundle bit_operations_syntax

section \<open>What is left to calculate\<close>

text \<open>
  A symbol that is not valid counts one, a pending request to set the values of its choice two; setting them takes back
  the request and the validity together.
\<close>

definition pending :: "kconf \<Rightarrow> symref \<Rightarrow> nat" where
  "pending K s = (if flag_on s SYMBOL_VALID K then 0 else 1) + (if flag_on s SYMBOL_NEED_SET_CHOICE_VALUES K then 2 else 0)"

definition budget :: "nat \<Rightarrow> kconf \<Rightarrow> bool" where
  "budget m K \<longleftrightarrow> finite {s. pending K s \<noteq> 0} \<and> (\<Sum>s \<in> {s. pending K s \<noteq> 0}. pending K s) < m"

definition settles :: "kconf \<Rightarrow> kconf \<Rightarrow> bool" where
  "settles K K' \<longleftrightarrow> (\<forall>s. pending K' s \<le> pending K s)"

lemma settles_refl [simp]: "settles K K"
  by (simp add: settles_def)

lemma settles_trans: "settles K K1 \<Longrightarrow> settles K1 K2 \<Longrightarrow> settles K K2"
  by (meson settles_def order_trans)

lemma settles_sum:
  assumes "settles K K'" and "finite {s. pending K s \<noteq> 0}"
  shows "finite {s. pending K' s \<noteq> 0}"
    and "(\<Sum>s \<in> {s. pending K' s \<noteq> 0}. pending K' s) = (\<Sum>s \<in> {s. pending K s \<noteq> 0}. pending K' s)"
proof -
  have sub: "{s. pending K' s \<noteq> 0} \<subseteq> {s. pending K s \<noteq> 0}"
    using assms(1) unfolding settles_def by (metis (mono_tags, lifting) Collect_mono le_zero_eq)
  then show "finite {s. pending K' s \<noteq> 0}" using assms(2) by (rule finite_subset)
  show "(\<Sum>s \<in> {s. pending K' s \<noteq> 0}. pending K' s) = (\<Sum>s \<in> {s. pending K s \<noteq> 0}. pending K' s)"
    by (rule sum.mono_neutral_left [OF assms(2) sub]) auto
qed

lemma budget_settles: "budget m K \<Longrightarrow> settles K K' \<Longrightarrow> budget m K'"
proof -
  assume b: "budget m K" and s: "settles K K'"
  have "(\<Sum>s \<in> {s. pending K s \<noteq> 0}. pending K' s) \<le> (\<Sum>s \<in> {s. pending K s \<noteq> 0}. pending K s)"
    by (rule sum_mono) (use s in \<open>simp add: settles_def\<close>)
  then show "budget m K'" using b settles_sum [OF s] by (simp add: budget_def)
qed

lemma budget_less:
  assumes "budget (Suc m) K" and "settles K K'" and "pending K' s < pending K s"
  shows "budget m K'"
proof -
  have f: "finite {s. pending K s \<noteq> 0}" using assms(1) by (simp add: budget_def)
  have "(\<Sum>s \<in> {s. pending K s \<noteq> 0}. pending K' s) < (\<Sum>s \<in> {s. pending K s \<noteq> 0}. pending K s)"
    by (rule sum_strict_mono_ex1 [OF f]) (use assms(2,3) in \<open>auto simp: settles_def intro!: exI [of _ s]\<close>)
  then show ?thesis using assms(1) settles_sum [OF assms(2) f] by (simp add: budget_def)
qed

section \<open>Updates of the table\<close>

lemma upd_sym_simps [simp]:
  "k_sym (upd_sym s f K) t = (if t = s then f (k_sym K s) else k_sym K t)"
  by (simp add: upd_sym_def)

lemma pending_upd_sym: "pending (upd_sym s f K) t =
    (if t = s then (if s_flags (f (k_sym K s)) AND SYMBOL_VALID \<noteq> 0 then 0 else 1) +
       (if s_flags (f (k_sym K s)) AND SYMBOL_NEED_SET_CHOICE_VALUES \<noteq> 0 then 2 else 0) else pending K t)"
  by (simp add: pending_def flag_on_def)

lemma settles_upd: "s_flags (f (k_sym K s)) = s_flags (k_sym K s) \<Longrightarrow> settles K (upd_sym s f K)"
  by (simp add: settles_def pending_upd_sym) (simp add: pending_def flag_on_def)

lemma and_or_zero: "f AND b = 0 \<Longrightarrow> (w OR f) AND b = w AND b" for w :: u32
  by (simp add: bit.conj_disj_distrib2)

lemma and_not_disjoint: "(f AND b = 0) \<Longrightarrow> (w AND NOT f) AND b = w AND b" for w :: u32
proof (rule bit_word_eqI)
  fix n assume "f AND b = 0"
  then have "\<not> bit (f AND b) n" by simp
  then show "bit ((w AND NOT f) AND b) n = bit (w AND b) n"
    by (auto simp: bit_and_iff bit_not_iff dest: bit_imp_le_length)
qed

lemma or_zero: "a OR b = 0 \<longleftrightarrow> a = 0 \<and> b = 0" for a b :: u32
  by (metis bit.disj_zero_right word_bw_same(2) word_oa_dist2 word_ao_absorbs(2) word_ao_absorbs(1) word_log_esimps(1))

lemma settles_set:
  assumes "f AND SYMBOL_NEED_SET_CHOICE_VALUES = 0"
  shows "settles K (set_flag s f K)"
  unfolding settles_def set_flag_def
  by (auto simp: pending_upd_sym and_or_zero [OF assms]) (auto simp: pending_def flag_on_def bit.conj_disj_distrib2 or_zero)

lemma settles_clear:
  assumes "f AND SYMBOL_VALID = 0"
  shows "settles K (clear_flag s f K)"
proof -
  have n: "(w AND NOT f) AND SYMBOL_NEED_SET_CHOICE_VALUES \<noteq> 0 \<Longrightarrow> w AND SYMBOL_NEED_SET_CHOICE_VALUES \<noteq> 0" for w
    by (metis word_bw_assocs(1) word_bw_comms(1) word_log_esimps(1))
  show ?thesis
    unfolding settles_def clear_flag_def
    using n [of "s_flags (k_sym K s)"]
    by (auto simp: pending_upd_sym and_not_disjoint [OF assms]) (auto simp: pending_def flag_on_def)
qed

lemma flags_apart [simp]:
  "SYMBOL_VALID AND SYMBOL_NEED_SET_CHOICE_VALUES = 0" "SYMBOL_WRITE AND SYMBOL_NEED_SET_CHOICE_VALUES = 0"
  "SYMBOL_CHANGED AND SYMBOL_NEED_SET_CHOICE_VALUES = 0" "SYMBOL_DEF_USER AND SYMBOL_NEED_SET_CHOICE_VALUES = 0"
  "SYMBOL_WRITE AND SYMBOL_VALID = 0" "SYMBOL_NEED_SET_CHOICE_VALUES AND SYMBOL_VALID = 0"
  "SYMBOL_DEF_USER AND SYMBOL_VALID = 0"
  by (simp_all add: symbol_flags)

lemma settles_table [simp]: "settles K (K\<lparr>k_menu_changed := a\<rparr>)" "settles K (K\<lparr>k_next := b\<rparr>)" "settles K (K\<lparr>k_unmet := c\<rparr>)"
  "settles K (K\<lparr>k_modules_val := d\<rparr>)" "settles K (K\<lparr>k_changes := e\<rparr>)"
  by (simp_all add: settles_def pending_def flag_on_def)

section \<open>Computations that end\<close>

text \<open>
  The result \<open>r\<close> of a computation in a table no less settled than \<open>K0\<close>: it is a null pointer that is read, or leaves such a table, which
  \<open>st\<close> finds in it; in particular it is not out of fuel.
\<close>

definition ends :: "kconf \<Rightarrow> ('a \<Rightarrow> kconf) \<Rightarrow> 'a res \<Rightarrow> bool" where
  "ends K0 st r \<longleftrightarrow> r = null_deref \<or> (\<exists>x. r = Inr x \<and> settles K0 (st x))"

named_theorems ends_intro \<open>rules for computations that end\<close>

lemma ends_Inr [ends_intro]: "settles K0 (st x) \<Longrightarrow> ends K0 st (Inr x)"
  by (simp add: ends_def)

lemma ends_null [ends_intro]: "ends K0 st null_deref"
  by (simp add: ends_def)

lemma bindE_null [simp]: "bindE null_deref f = null_deref"
  by (simp add: null_deref_def)

lemma ends_bind: "ends K0 st1 r \<Longrightarrow> (\<And>x. settles K0 (st1 x) \<Longrightarrow> ends K0 st (f x)) \<Longrightarrow> ends K0 st (bindE r f)"
  unfolding ends_def by (metis bindE_Inr bindE_null)

lemma ends_bind_pair [ends_intro]:
  "ends K0 snd r \<Longrightarrow> (\<And>a K. settles K0 K \<Longrightarrow> ends K0 st (f (a, K))) \<Longrightarrow> ends K0 st (bindE r f)"
  by (erule ends_bind) auto

lemma ends_bind_table [ends_intro]:
  "ends K0 (\<lambda>x. x) r \<Longrightarrow> (\<And>K. settles K0 K \<Longrightarrow> ends K0 st (f K)) \<Longrightarrow> ends K0 st (bindE r f)"
  by (rule ends_bind)

lemma ends_bind_pure: "r = null_deref \<or> (\<exists>x. r = Inr x) \<Longrightarrow> (\<And>x. ends K0 st (f x)) \<Longrightarrow> ends K0 st (bindE r f)"
  by (metis bindE_Inr bindE_null ends_null)

lemma ends_bind_deref [ends_intro]: "(\<And>x. ends K0 st (f x)) \<Longrightarrow> ends K0 st (bindE (deref p) f)"
  by (rule ends_bind_pure) (simp add: deref_def split: option.split)

lemma ends_bind_text [ends_intro]: "(\<And>x. ends K0 st (f x)) \<Longrightarrow> ends K0 st (bindE (val_text v) f)"
  by (rule ends_bind_pure) (simp add: val_text_def split: kval.split)

lemma ends_bind_range [ends_intro]: "(\<And>x. ends K0 st (f x)) \<Longrightarrow> ends K0 st (bindE (range_bounds q) f)"
  by (rule ends_bind_pure) (simp add: range_bounds_def split: option.split kexpr.split)

subsection \<open>Updates that settle\<close>

lemma settles_upd_after [ends_intro]:
  "settles K0 K \<Longrightarrow> s_flags (f (k_sym K s)) = s_flags (k_sym K s) \<Longrightarrow> settles K0 (upd_sym s f K)"
  by (erule settles_trans) (rule settles_upd)

lemma settles_set_after [ends_intro]:
  "settles K0 K \<Longrightarrow> f AND SYMBOL_NEED_SET_CHOICE_VALUES = 0 \<Longrightarrow> settles K0 (set_flag s f K)"
  by (erule settles_trans) (rule settles_set)

lemma settles_clear_after [ends_intro]: "settles K0 K \<Longrightarrow> f AND SYMBOL_VALID = 0 \<Longrightarrow> settles K0 (clear_flag s f K)"
  by (erule settles_trans) (rule settles_clear)

lemma settles_table_after [ends_intro]:
  "settles K0 K \<Longrightarrow> settles K0 (K\<lparr>k_menu_changed := a\<rparr>)" "settles K0 K \<Longrightarrow> settles K0 (K\<lparr>k_next := b\<rparr>)"
  "settles K0 K \<Longrightarrow> settles K0 (K\<lparr>k_unmet := c\<rparr>)" "settles K0 K \<Longrightarrow> settles K0 (K\<lparr>k_modules_val := d\<rparr>)"
  by (auto elim: settles_trans)

lemma settles_visible_tri [ends_intro]: "settles K0 K \<Longrightarrow> settles K0 (set_visible_tri s i v K)"
  by (simp add: set_visible_tri_def settles_upd_after)

lemma settles_set_changed [ends_intro]: "settles K0 K \<Longrightarrow> settles K0 (sym_set_changed s K)"
  unfolding sym_set_changed_def Let_def by (intro settles_table_after settles_set_after) simp_all

lemma settles_set_curr [ends_intro]: "settles K0 K \<Longrightarrow> settles K0 (set_curr s v K)"
  by (simp add: set_curr_def settles_upd_after)

lemma settles_fold: "settles K0 K \<Longrightarrow> (\<And>x K. settles K0 K \<Longrightarrow> settles K0 (f x K)) \<Longrightarrow> settles K0 (fold f xs K)"
  by (induction xs arbitrary: K) auto

lemma settles_all_changed [ends_intro]: "settles K0 K \<Longrightarrow> settles K0 (sym_set_all_changed K)"
  unfolding sym_set_all_changed_def by (erule settles_fold) (rule settles_set_changed)

lemma settles_note_change [ends_intro]: "settles K0 K \<Longrightarrow> settles K0 (note_change s v K)"
  by (auto simp: note_change_def Let_def intro!: ends_intro)

lemma settles_user_flags [ends_intro]:
  "settles K0 K \<Longrightarrow> settles K0 (upd_sym s (\<lambda>x. x\<lparr>s_flags := s_flags x AND (fl OR NOT SYMBOL_DEF_USER)\<rparr>) K)"
proof -
  have "(w AND (fl OR NOT SYMBOL_DEF_USER)) AND b = w AND b" if "SYMBOL_DEF_USER AND b = 0" for w b
  proof (rule bit_word_eqI)
    fix n
    have "\<not> bit (SYMBOL_DEF_USER AND b) n" using that by simp
    then show "bit ((w AND (fl OR NOT SYMBOL_DEF_USER)) AND b) n = bit (w AND b) n"
      by (auto simp: bit_and_iff bit_or_iff bit_not_iff dest: bit_imp_le_length)
  qed
  then have "settles K (upd_sym s (\<lambda>x. x\<lparr>s_flags := s_flags x AND (fl OR NOT SYMBOL_DEF_USER)\<rparr>) K)"
    by (auto simp: settles_def pending_upd_sym) (auto simp: pending_def flag_on_def)
  then show "settles K0 K \<Longrightarrow> ?thesis" by (rule settles_trans [rotated])
qed

text \<open>Setting the values of a choice takes back its validity with the request, which counts for more.\<close>

lemma settles_set_all_choice_values:
  assumes "settles K0 K" and "flag_on s SYMBOL_NEED_SET_CHOICE_VALUES K"
  shows "ends K0 (\<lambda>x. x) (set_all_choice_values s K)"
proof -
  let ?f = "\<lambda>d K. if \<not> sym_has_value d K then upd_sym d (\<lambda>x. x\<lparr>s_def_user := (s_def_user x)\<lparr>v_tri := T_no\<rparr>\<rparr>) K else K"
  let ?c = "SYMBOL_VALID OR SYMBOL_NEED_SET_CHOICE_VALUES"
  have "settles K (clear_flag s ?c (set_flag s SYMBOL_DEF_USER (fold ?f ds K)))" for ds
  proof -
    have 1: "settles K (set_flag s SYMBOL_DEF_USER (fold ?f ds K))"
      by (intro settles_set_after settles_fold) (auto intro!: ends_intro)
    have 2: "(w AND NOT ?c) AND SYMBOL_NEED_SET_CHOICE_VALUES = 0" for w :: u32
      by (rule bit_word_eqI) (auto simp: bit_and_iff bit_or_iff bit_not_iff)
    show ?thesis
      using 1 2 assms(2)
      by (simp add: settles_def clear_flag_def pending_upd_sym) (auto simp: pending_def)
  qed
  then show ?thesis
    unfolding set_all_choice_values_def Let_def
    by (intro ends_bind_deref ends_Inr) (rule settles_trans [OF assms(1)])
qed

lemma settles_mark_choice_values [ends_intro]: "settles K0 K \<Longrightarrow> ends K0 (\<lambda>x. x) (mark_choice_values s K)"
  unfolding mark_choice_values_def Let_def
  by (auto intro!: ends_intro settles_fold)

section \<open>Calculations with a bounded depth\<close>

locale bounded_calc =
  fixes m :: nat and calc :: calculator
  assumes calc_ends: "budget m K0 \<Longrightarrow> settles K0 K \<Longrightarrow> ends K0 (\<lambda>x. x) (calc s K)"
begin

lemma string_value_ends: "budget m K0 \<Longrightarrow> settles K0 K \<Longrightarrow> ends K0 snd (sym_get_string_value calc s K)"
  unfolding sym_get_string_value_def
  by (auto split: tristate.split intro!: ends_intro calc_ends)

lemma value_nn_ends: "budget m K0 \<Longrightarrow> settles K0 K \<Longrightarrow> ends K0 snd (calc_value_nn calc e K)"
  by (induction e arbitrary: K) (auto intro!: ends_intro calc_ends string_value_ends)

lemma expr_value_ends: "budget m K0 \<Longrightarrow> settles K0 K \<Longrightarrow> ends K0 snd (expr_calc_value calc e K)"
  by (cases e) (auto simp: expr_calc_value_def intro!: ends_intro value_nn_ends)

lemma first_visible_ends: "budget m K0 \<Longrightarrow> settles K0 K \<Longrightarrow> ends K0 snd (first_visible calc ty s is K)"
proof (induction "is" arbitrary: ty K)
  case (Cons i "is")
  show ?case
    using Cons.prems
    by (auto simp: Let_def intro!: ends_intro expr_value_ends Cons.IH)
qed (auto intro!: ends_intro)

lemma default_prop_ends: "budget m K0 \<Longrightarrow> settles K0 K \<Longrightarrow> ends K0 snd (sym_get_default_prop calc s K)"
  unfolding sym_get_default_prop_def by (rule first_visible_ends)

lemma range_prop_ends: "budget m K0 \<Longrightarrow> settles K0 K \<Longrightarrow> ends K0 snd (sym_get_range_prop calc s K)"
  unfolding sym_get_range_prop_def by (rule first_visible_ends)

lemma range_val_ends: "budget m K0 \<Longrightarrow> settles K0 K \<Longrightarrow> ends K0 snd (sym_get_range_val calc s b K)"
  unfolding sym_get_range_val_def Let_def
  by (auto intro!: ends_intro calc_ends)

lemma validate_range_ends: "budget m K0 \<Longrightarrow> settles K0 K \<Longrightarrow> ends K0 (\<lambda>x. x) (sym_validate_range calc s K)"
  unfolding sym_validate_range_def Let_def
  by (auto split: option.split intro!: ends_intro range_prop_ends range_val_ends)

lemma prompts_ends: "budget m K0 \<Longrightarrow> settles K0 K \<Longrightarrow> ends K0 snd (prompts_visible calc s c is t K)"
  by (induction "is" arbitrary: t K) (auto simp: Let_def intro!: ends_intro expr_value_ends)

lemma dep_ends: "budget m K0 \<Longrightarrow> settles K0 K \<Longrightarrow> ends K0 (\<lambda>x. x) (calc_dep calc d t s K)"
  unfolding calc_dep_def Let_def
  by (auto split: option.split intro!: ends_intro value_nn_ends)

lemma visibility_ends: "budget m K0 \<Longrightarrow> settles K0 K \<Longrightarrow> ends K0 (\<lambda>x. x) (sym_calc_visibility calc s K)"
  unfolding sym_calc_visibility_def Let_def
  by (rule ends_bind_pure, simp add: deref_def split: option.split)
    (auto intro!: ends_intro prompts_ends dep_ends)

lemma default_choice_ends: "budget m K0 \<Longrightarrow> settles K0 K \<Longrightarrow> ends K0 snd (default_choice calc s is K)"
proof (induction "is" arbitrary: K)
  case (Cons i "is")
  show ?case
    using Cons.prems
    by (auto simp: Let_def intro!: ends_intro expr_value_ends Cons.IH)
qed (auto intro!: ends_intro)

lemma choice_default_ends: "budget m K0 \<Longrightarrow> settles K0 K \<Longrightarrow> ends K0 snd (sym_choice_default calc s K)"
  unfolding sym_choice_default_def
  by (auto split: option.split intro!: ends_intro default_choice_ends)

lemma choice_visibilities_ends: "budget m K0 \<Longrightarrow> settles K0 K \<Longrightarrow> ends K0 snd (choice_visibilities calc ds f K)"
proof (induction ds arbitrary: f K)
  case (Cons d ds)
  show ?case
    unfolding choice_visibilities.simps
    by (rule ends_bind_table [OF visibility_ends [OF Cons.prems]], rule Cons.IH [OF Cons.prems(1)])
qed (auto intro!: ends_intro)

text \<open>The flags a choice keeps are those of its visible values, apart from the user's.\<close>

lemma choice_ends: "budget m K0 \<Longrightarrow> settles K0 K \<Longrightarrow> ends K0 snd (sym_calc_choice calc s K)"
  unfolding sym_calc_choice_def Let_def
  by (auto split: kval.split intro!: ends_intro choice_visibilities_ends choice_default_ends settles_user_flags)

lemma and_ends: "budget m K0 \<Longrightarrow> settles K0 K \<Longrightarrow> ends K0 snd (calc_and calc e t K)"
  unfolding calc_and_def
  by (auto intro!: ends_intro expr_value_ends)

lemma default_tri_ends: "budget m K0 \<Longrightarrow> settles K0 K \<Longrightarrow> ends K0 snd (default_tri calc s t K)"
  unfolding default_tri_def Let_def
  by (auto split: option.split intro!: ends_intro default_prop_ends and_ends)

lemma tri_ends: "budget m K0 \<Longrightarrow> settles K0 K \<Longrightarrow> ends K0 snd (calc_tri calc s t K)"
  unfolding calc_tri_def Let_def
  by (auto intro!: ends_intro default_tri_ends)

lemma str_ends: "budget m K0 \<Longrightarrow> settles K0 K \<Longrightarrow> ends K0 snd (calc_str calc s v K)"
  unfolding calc_str_def
  by (auto split: option.split intro!: ends_intro default_prop_ends calc_ends)

lemma body_ends:
  assumes "budget m K0" and "settles K0 (set_flag s SYMBOL_VALID K)"
  shows "ends K0 (\<lambda>x. x) (calc_body calc s K)"
proof -
  note rules = visibility_ends [OF assms(1)] tri_ends [OF assms(1)] str_ends [OF assms(1)] choice_ends [OF assms(1)]
    validate_range_ends [OF assms(1)]
  show ?thesis
    using assms(2)
    unfolding calc_body_def Let_def
    by (auto intro!: ends_intro rules settles_set_all_choice_values)
qed

end

section \<open>The calculation of a value ends\<close>

lemma pending_valid: "\<not> flag_on s SYMBOL_VALID K \<Longrightarrow> pending (set_flag s SYMBOL_VALID K) s < pending K s"
  by (simp add: set_flag_def pending_upd_sym and_or_zero) (simp add: pending_def flag_on_def bit.conj_disj_distrib2 or_zero symbol_flags)

lemma pending_need: "flag_on s SYMBOL_NEED_SET_CHOICE_VALUES K \<Longrightarrow> 
    pending (clear_flag s SYMBOL_NEED_SET_CHOICE_VALUES K) s < pending K s"
  by (simp add: clear_flag_def pending_upd_sym and_not_disjoint) (simp add: pending_def flag_on_def and.assoc)

lemma ends_from: "settles K0 K \<Longrightarrow> ends K st r \<Longrightarrow> ends K0 st r"
  by (auto simp: ends_def intro: settles_trans)

lemma value_ends: "bounded_calc n (sym_calc_value n)"
proof (induction n)
  case 0
  show ?case by unfold_locales (simp add: budget_def)
next
  case (Suc n)
  note calc_ends = bounded_calc.calc_ends [OF Suc.IH] and body_ends = bounded_calc.body_ends [OF Suc.IH]
  have step: "ends K (\<lambda>x. x) (sym_calc_value (Suc n) s K)" if b: "budget (Suc n) K" for s K
  proof -
    let ?K = "set_flag s SYMBOL_VALID K" and ?C = "clear_flag s SYMBOL_NEED_SET_CHOICE_VALUES K"
    show ?thesis
    proof (cases "flag_on s SYMBOL_VALID K")
      case invalid: False
      show ?thesis
      proof (cases "sym_is_choice_value s K \<and> flag_on s SYMBOL_NEED_SET_CHOICE_VALUES K")
        case True
        have C: "settles K ?C" by (simp add: settles_clear)
        have b': "budget n ?C" by (rule budget_less [OF b C]) (use True pending_need in blast)
        have "ends ?C (\<lambda>x. x) (calc_choice_first (sym_calc_value n) s K)"
          using True by (auto simp: calc_choice_first_def Let_def split: option.split
              intro!: ends_bind_deref ends_Inr calc_ends [OF b' settles_refl])
        then have "ends ?C (\<lambda>x. x) (sym_calc_value (Suc n) s K)"
          using invalid by (auto simp: sym_calc_value.simps intro!: ends_bind_table body_ends [OF b'] settles_set_after)
        then show ?thesis by (rule ends_from [OF C])
      next
        case False
        have V: "settles K ?K" by (simp add: settles_set)
        have b': "budget n ?K" by (rule budget_less [OF b V pending_valid [OF invalid]])
        have "calc_choice_first (sym_calc_value n) s K = Inr K"
          unfolding calc_choice_first_def by (rule if_not_P [OF False])
        then show ?thesis
          using invalid ends_from [OF V body_ends [OF b' settles_refl]] by (simp add: sym_calc_value.simps)
      qed
    qed (simp add: sym_calc_value.simps ends_Inr)
  qed
  show ?case by unfold_locales (blast intro: ends_from step budget_settles)
qed

interpretation calculation: bounded_calc n "sym_calc_value n" for n
  by (rule value_ends)

lemma budget_finite:
  assumes "finite A" and "\<forall>s. s \<notin> A \<longrightarrow> pending K s = 0" and "3 * card A < n"
  shows "budget n K"
proof -
  have sub: "{s. pending K s \<noteq> 0} \<subseteq> A" using assms(2) by (meson mem_Collect_eq subsetI)
  have "(\<Sum>s \<in> {s. pending K s \<noteq> 0}. pending K s) \<le> (\<Sum>s \<in> A. pending K s)"
    by (rule sum_mono2 [OF assms(1) sub]) simp
  also have "\<dots> \<le> (\<Sum>s \<in> A. 3)"
    by (intro sum_mono) (simp add: pending_def)
  also have "\<dots> = 3 * card A" by simp
  also have "\<dots> < n" by (rule assms(3))
  finally show ?thesis unfolding budget_def using finite_subset [OF sub assms(1)] by (rule conjI [rotated])
qed

end
