(* ===== verification/KExprProps.thy ===== *)
theory KExprProps
  imports KExpr
begin

text \<open>
  The simplifications of theory KExpr keep the value of an expression, and end. The interface \<open>kvalues\<close> states what they rely on:
  the values of the symbols and of their comparisons. An expression is \<open>plain\<close> if its conditions are over symbols with a
  three-valued type, and tristate symbols are compared with no other constant than y, m and n; every
  simplification keeps that.
\<close>

section \<open>Values\<close>

fun cmp_holds :: "comparison \<Rightarrow> int \<Rightarrow> bool" where
  "cmp_holds E_EQUAL r \<longleftrightarrow> r = 0"
| "cmp_holds E_UNEQUAL r \<longleftrightarrow> r \<noteq> 0"
| "cmp_holds E_LTH r \<longleftrightarrow> r < 0"
| "cmp_holds E_LEQ r \<longleftrightarrow> r \<le> 0"
| "cmp_holds E_GTH r \<longleftrightarrow> r > 0"
| "cmp_holds E_GEQ r \<longleftrightarrow> r \<ge> 0"

fun expr_value :: "(symref \<Rightarrow> tristate) \<Rightarrow> (symref \<Rightarrow> symref \<Rightarrow> int) \<Rightarrow> kexpr \<Rightarrow> tristate" where
  "expr_value tri cp (X_sym s) = tri s"
| "expr_value tri cp (X_and a b) = EXPR_AND (expr_value tri cp a) (expr_value tri cp b)"
| "expr_value tri cp (X_or a b) = EXPR_OR (expr_value tri cp a) (expr_value tri cp b)"
| "expr_value tri cp (X_not a) = EXPR_NOT (expr_value tri cp a)"
| "expr_value tri cp (X_cmp r a b) = (if cmp_holds r (cp a b) then T_yes else T_no)"
| "expr_value tri cp e = T_no"

lemma cmp_holds_negate [simp]: "cmp_holds (negate_cmp r) c \<longleftrightarrow> \<not> cmp_holds r c"
  by (cases r) auto

definition three_valued :: "sorts \<Rightarrow> symref \<Rightarrow> bool" where
  "three_valued S a \<longleftrightarrow> k_type (S a) = S_BOOLEAN \<or> k_type (S a) = S_TRISTATE \<or> a = symbol_yes \<or> a = symbol_mod \<or> a = symbol_no"

fun plain_expr :: "sorts \<Rightarrow> kexpr \<Rightarrow> bool" where
  "plain_expr S (X_sym s) = three_valued S s"
| "plain_expr S (X_and a b) \<longleftrightarrow> plain_expr S a \<and> plain_expr S b"
| "plain_expr S (X_or a b) \<longleftrightarrow> plain_expr S a \<and> plain_expr S b"
| "plain_expr S (X_not a) = plain_expr S a"
| "plain_expr S (X_cmp r a b) \<longleftrightarrow>
     (k_type (S a) = S_TRISTATE \<and> k_const (S b) \<longrightarrow> b = symbol_yes \<or> b = symbol_mod \<or> b = symbol_no)"
| "plain_expr S e = False"

lemma plain_copy: "plain_expr S e \<Longrightarrow> expr_copy e = Some e"
  by (induction S e rule: plain_expr.induct) auto

text \<open>The operator of a level, and its neutral element.\<close>

fun level_op :: "expr_type \<Rightarrow> tristate \<Rightarrow> tristate \<Rightarrow> tristate" where
  "level_op E_OR = EXPR_OR"
| "level_op ty = EXPR_AND"

definition level_type :: "expr_type \<Rightarrow> bool" where
  "level_type ty \<longleftrightarrow> ty = E_AND \<or> ty = E_OR"

lemma EXPR_OR_max: "EXPR_OR a b = max a b"
  by (auto simp: EXPR_OR_def max_def)

lemma EXPR_AND_min: "EXPR_AND a b = min a b"
  by (auto simp: EXPR_AND_def min_def)

lemma EXPR_NOT_anti [simp]: "EXPR_NOT (EXPR_NOT a) = a"
  "EXPR_NOT (EXPR_OR a b) = EXPR_AND (EXPR_NOT a) (EXPR_NOT b)"
  "EXPR_NOT (EXPR_AND a b) = EXPR_OR (EXPR_NOT a) (EXPR_NOT b)"
  by (cases a; cases b; simp add: EXPR_OR_def EXPR_AND_def tri_order)+

lemma tri_ops [simp]:
  "EXPR_AND T_yes a = a" "EXPR_AND a T_yes = a" "EXPR_AND T_no a = T_no" "EXPR_AND a T_no = T_no"
  "EXPR_OR T_yes a = T_yes" "EXPR_OR a T_yes = T_yes" "EXPR_OR T_no a = a" "EXPR_OR a T_no = a"
  "EXPR_AND a a = a" "EXPR_OR a a = a"
  by (cases a; simp add: EXPR_OR_def EXPR_AND_def tri_order)+

lemma level_op_ac:
  "level_op ty (level_op ty a b) c = level_op ty a (level_op ty b c)" "level_op ty a b = level_op ty b a"
  "level_op ty a (level_op ty b c) = level_op ty b (level_op ty a c)"
  by (cases "ty = E_OR"; cases ty; simp add: EXPR_OR_max EXPR_AND_min max.assoc min.assoc max.commute min.commute
      max.left_commute min.left_commute)+

section \<open>Positions in a level\<close>

text \<open>\<open>node_at\<close>: the path leads through operators of the level; \<open>skel\<close> is the shape of the level.\<close>

fun node_at :: "expr_type \<Rightarrow> path \<Rightarrow> kexpr \<Rightarrow> bool" where
  "node_at ty [] e = True"
| "node_at ty (d # p) e = (case operands_of ty e of
      None \<Rightarrow> False
    | Some (a, b) \<Rightarrow> node_at ty p (case d of Lft \<Rightarrow> a | Rgt \<Rightarrow> b))"

declare node_at.simps(2) [simp del]

datatype shape = Leaf | Node shape shape

function skel :: "expr_type \<Rightarrow> kexpr \<Rightarrow> shape" where
  "skel ty e = (case operands_of ty e of None \<Rightarrow> Leaf | Some (a, b) \<Rightarrow> Node (skel ty a) (skel ty b))"
  by pat_completeness auto
termination by (relation "measure (\<lambda>(ty, e). size e)") (auto dest: operands_size)

declare skel.simps [simp del]

lemma operands_of_type: "level_type ty \<Longrightarrow> operands_of ty e = None \<longleftrightarrow> e_type e \<noteq> ty"
  by (cases e) (auto simp: level_type_def)

lemma skel_Leaf: "level_type ty \<Longrightarrow> skel ty e = Leaf \<longleftrightarrow> e_type e \<noteq> ty"
  by (subst skel.simps) (auto simp: operands_of_type [symmetric] split: option.split)

lemma operands_rebuild: "operands_of ty e = Some (a, b) \<Longrightarrow> e = rebuild ty a b"
  "level_type ty \<Longrightarrow> operands_of ty (rebuild ty a b) = Some (a, b)"
  by (auto simp: operands_of_Some level_type_def)

lemma at_rebuild [simp]:
  "level_type ty \<Longrightarrow> expr_at (d # p) (rebuild ty a b) = expr_at p (case d of Lft \<Rightarrow> a | Rgt \<Rightarrow> b)"
  "level_type ty \<Longrightarrow> put_at (Lft # p) x (rebuild ty a b) = rebuild ty (put_at p x a) b"
  "level_type ty \<Longrightarrow> put_at (Rgt # p) x (rebuild ty a b) = rebuild ty a (put_at p x b)"
  "level_type ty \<Longrightarrow> size (rebuild ty a b) = Suc (size a + size b)"
  "level_type ty \<Longrightarrow> skel ty (rebuild ty a b) = Node (skel ty a) (skel ty b)"
  by (cases d; auto simp: level_type_def skel.simps)+

lemma node_rebuild [simp]:
  "level_type ty \<Longrightarrow> node_at ty (d # p) (rebuild ty a b) = node_at ty p (case d of Lft \<Rightarrow> a | Rgt \<Rightarrow> b)"
  by (simp add: operands_rebuild(2) node_at.simps(2))

lemma node_Cons:
  assumes "node_at ty (d # p) e"
  obtains a b where "e = rebuild ty a b" "node_at ty p (case d of Lft \<Rightarrow> a | Rgt \<Rightarrow> b)"
  using assms by (auto simp: node_at.simps(2) dest: operands_rebuild(1) split: option.splits)

lemma node_at_expr: "level_type ty \<Longrightarrow> node_at ty p e \<Longrightarrow> \<exists>x. expr_at p e = Some x"
proof (induction p arbitrary: e)
  case (Cons d p)
  then show ?case by (elim node_Cons) simp
qed simp

text \<open>The shape below a position.\<close>

fun shape_at :: "path \<Rightarrow> shape \<Rightarrow> shape option" where
  "shape_at [] s = Some s"
| "shape_at (d # p) Leaf = None"
| "shape_at (d # p) (Node a b) = shape_at p (case d of Lft \<Rightarrow> a | Rgt \<Rightarrow> b)"

lemma node_at_shape: "level_type ty \<Longrightarrow> node_at ty p e \<longleftrightarrow> shape_at p (skel ty e) \<noteq> None"
proof (induction p arbitrary: e)
  case (Cons d p)
  show ?case
  proof (cases "operands_of ty e")
    case None
    then show ?thesis by (simp add: skel.simps node_at.simps(2))
  next
    case (Some ab)
    then show ?thesis using Cons by (cases ab; cases d) (simp_all add: skel.simps node_at.simps(2))
  qed
qed simp

lemma shape_at_expr:
  "level_type ty \<Longrightarrow> node_at ty p e \<Longrightarrow> expr_at p e = Some x \<Longrightarrow> shape_at p (skel ty e) = Some (skel ty x)"
proof (induction p arbitrary: e)
  case (Cons d p)
  then obtain a b where "e = rebuild ty a b" "node_at ty p (case d of Lft \<Rightarrow> a | Rgt \<Rightarrow> b)" by (elim node_Cons)
  then show ?case using Cons by (cases d) simp_all
qed simp

lemma shape_at_append: "shape_at (p @ q) s = Option.bind (shape_at p s) (shape_at q)"
  by (induction p s rule: shape_at.induct) simp_all

lemma node_down:
  assumes "level_type ty" and "node_at ty p e" and "expr_at p e = Some x" and "e_type x = ty"
  shows "node_at ty (p @ [d]) e"
proof -
  have "shape_at p (skel ty e) = Some (skel ty x)" using shape_at_expr assms by blast
  moreover have "skel ty x \<noteq> Leaf" using assms(1,4) by (simp add: skel_Leaf)
  ultimately show ?thesis using assms(1) by (cases "skel ty x") (auto simp: node_at_shape shape_at_append)
qed

lemma put_at_props:
  assumes "level_type ty" and "node_at ty p e" and "expr_at p e = Some x"
  shows "expr_at p (put_at p z e) = Some z" "size (put_at p z e) + size x = size e + size z"
    "skel ty x = skel ty z \<Longrightarrow> skel ty (put_at p z e) = skel ty e" "put_at p x e = e"
    "p \<noteq> [] \<Longrightarrow> size x < size e"
  using assms(2,3)
proof (induction p arbitrary: e)
  case (Cons d p)
  {
    case 1
    then show ?case using Cons(1) assms(1) by (elim node_Cons; cases d) auto
  next
    case 2
    then show ?case using Cons(2) assms(1) by (elim node_Cons; cases d) fastforce+
  next
    case 3
    then show ?case using Cons(3) assms(1) by (elim node_Cons; cases d) auto
  next
    case 4
    then show ?case using Cons(4) assms(1) by (elim node_Cons; cases d) auto
  next
    case 5
    then show ?case using Cons(5) assms(1) by (elim node_Cons; cases d; cases p) fastforce+
  }
qed simp_all

text \<open>Different operands of a level are apart: a change of one leaves the other alone.\<close>

lemma put_at_other:
  assumes "level_type ty" and "node_at ty p e" and "node_at ty q e" and "expr_at p e = Some x" and "expr_at q e = Some y"
    and "e_type x \<noteq> ty" and "e_type y \<noteq> ty" and "p \<noteq> q"
  shows "expr_at q (put_at p z e) = Some y"
  using assms(2-5,8)
proof (induction p arbitrary: q e)
  case Nil
  then show ?case using assms(6) operands_of_type [OF assms(1), of x] by (cases q) (auto simp: node_at.simps(2))
next
  case (Cons d p)
  then obtain a b where e: "e = rebuild ty a b" "node_at ty p (case d of Lft \<Rightarrow> a | Rgt \<Rightarrow> b)" by (elim node_Cons)
  show ?case
  proof (cases q)
    case Nil
    then show ?thesis using Cons.prems e assms(1,7) by (auto simp: level_type_def)
  next
    case (Cons d' q')
    then show ?thesis using Cons.prems Cons.IH e assms(1) by (cases d; cases d') auto
  qed
qed

lemma expr_copy_id: "expr_copy e = Some e' \<Longrightarrow> e' = e"
  by (induction e arbitrary: e' rule: expr_copy.induct) (auto split: option.splits)

lemma join_with_result:
  "join_with S ty x y = Some z \<Longrightarrow> level_type ty \<and> (z = x \<or> (\<exists>r a b. z = X_cmp r a b) \<or> (\<exists>a. z = X_sym a))"
  by (auto simp: join_with_def level_type_def expr_join_or_def expr_join_and_def dest: expr_copy_id
      split: if_splits option.splits)

lemma expr_at_append: "expr_at (p @ q) e = Option.bind (expr_at p e) (expr_at q)"
  by (induction p e rule: expr_at.induct) simp_all

text \<open>A constant below a logical operator, which the elimination of constants removes.\<close>

definition is_yn :: "kexpr \<Rightarrow> bool" where
  "is_yn e \<longleftrightarrow> e = X_sym symbol_yes \<or> e = X_sym symbol_no"

fun has_const :: "kexpr \<Rightarrow> bool" where
  "has_const (X_and a b) \<longleftrightarrow> is_yn a \<or> is_yn b \<or> has_const a \<or> has_const b"
| "has_const (X_or a b) \<longleftrightarrow> is_yn a \<or> is_yn b \<or> has_const a \<or> has_const b"
| "has_const e \<longleftrightarrow> False"

lemma has_constI: "expr_at p e = Some x \<Longrightarrow> p \<noteq> [] \<Longrightarrow> is_yn x \<Longrightarrow> has_const e"
proof (induction p e rule: expr_at.induct)
  case (2 p a b) then show ?case by (cases p) auto
next
  case (3 p a b) then show ?case by (cases p) auto
next
  case (4 p a b) then show ?case by (cases p) auto
next
  case (5 p a b) then show ?case by (cases p) auto
qed simp_all

lemma eliminate_yn_size: "size (expr_eliminate_yn e) \<le> size e \<and> (has_const e \<longrightarrow> size (expr_eliminate_yn e) < size e)"
proof (induction e rule: expr_eliminate_yn.induct)
  case (1 a b)
  then show ?case by (auto simp: Let_def is_yn_def)
next
  case (2 a b)
  then show ?case by (auto simp: Let_def is_yn_def)
qed simp_all

lemma put_at_const: "has_const x' \<Longrightarrow> expr_at p e = Some x \<Longrightarrow> has_const (put_at p x' e)"
  by (induction p e rule: expr_at.induct) auto

text \<open>Replacing two operands, one of them by the neutral constant.\<close>

lemma join_put_props:
  assumes ty: "level_type ty" and p: "node_at ty p e" "expr_at p e = Some x" "e_type x \<noteq> ty"
    and q: "node_at ty q e" "expr_at q e = Some y" "e_type y \<noteq> ty" and pq: "p \<noteq> q"
    and z: "join_with S ty x y = Some z"
    and e2: "e2 = put_at q z (put_at p (neutral ty x) e)"
  shows "skel ty e2 = skel ty e" and "size e2 \<le> size e" and "has_const e2"
proof -
  let ?e2 = "put_at q z (put_at p (neutral ty x) e)"
  let ?e1 = "put_at p (neutral ty x) e"
  have nt: "e_type (neutral ty x) \<noteq> ty" "size (neutral ty x) = 0"
      "is_yn (neutral ty x)"
    using ty by (auto simp: level_type_def is_yn_def)
  have leaf: "skel ty a = Leaf" if "e_type a \<noteq> ty" for a using that ty by (simp add: skel_Leaf)
  have zt: "e_type z \<noteq> ty" and zs: "size z \<le> size x"
    using join_with_result [OF z] p(3) ty by (auto simp: level_type_def)
  have s1: "skel ty ?e1 = skel ty e" using put_at_props(3) [OF ty p(1,2)] leaf p(3) nt(1) by simp
  have n1: "node_at ty p ?e1" "node_at ty q ?e1" using p(1) q(1) ty s1 by (simp_all add: node_at_shape)
  have a1: "expr_at p ?e1 = Some (neutral ty x)" "expr_at q ?e1 = Some y"
    using put_at_props(1) [OF ty p(1,2)] put_at_other [OF ty p(1) q(1) p(2) q(2) p(3) q(3) pq] by auto
  show "skel ty e2 = skel ty e" unfolding e2 using put_at_props(3) [OF ty n1(2) a1(2)] leaf q(3) zt s1 by simp
  show "size e2 \<le> size e"
    unfolding e2 using put_at_props(2) [OF ty p(1,2), of "neutral ty x"] put_at_props(2) [OF ty n1(2) a1(2), of z] zs nt(2) by simp
  have "expr_at p ?e2 = Some (neutral ty x)"
    by (rule put_at_other [OF ty n1(2,1) a1(2,1) q(3) nt(1) pq [symmetric]])
  moreover have "p \<noteq> []" using p(2,3) q(1) pq operands_of_type [OF ty, of x] by (cases q) (auto simp: node_at.simps(2))
  ultimately show "has_const e2" unfolding e2 using nt(3) by (blast intro: has_constI)
qed

section \<open>The equation of expr\_eq\<close>

text \<open>The comparison of operands is only used on operands smaller than the first expression.\<close>

lemma neutral_size: "level_type ty \<Longrightarrow> size (neutral ty e) = 0"
  by (auto simp: level_type_def)

definition agree :: "nat \<Rightarrow> (kexpr \<Rightarrow> kexpr \<Rightarrow> bool) \<Rightarrow> (kexpr \<Rightarrow> kexpr \<Rightarrow> bool) \<Rightarrow> bool" where
  "agree k eq eq' \<longleftrightarrow> (\<forall>a b. size a \<le> k \<longrightarrow> eq a b = eq' a b)"

lemma agree_mono: "agree k eq eq' \<Longrightarrow> m \<le> k \<Longrightarrow> agree m eq eq'"
  by (simp add: agree_def)

lemma elim_right_cong:
  assumes "level_type ty"
  shows "agree (size e1) eq eq' \<Longrightarrow>
    elim_right eq ty e1 e2 = elim_right eq' ty e1 e2 \<and> size (fst (elim_right eq ty e1 e2)) \<le> size e1"
proof (induction e2 arbitrary: e1 rule: measure_induct_rule [of size])
  case (less e2)
  show ?case
  proof (cases "operands_of ty e2")
    case None
    then show ?thesis
      using less.prems neutral_size [OF assms] by (auto simp: elim_right.simps elim_leaves_def agree_def)
  next
    case (Some lr)
    then obtain l r where lr: "operands_of ty e2 = Some (l, r)" by (cases lr) auto
    obtain x l' m where 1: "elim_right eq ty e1 l = (x, l', m)" by (metis prod_cases3)
    have x: "elim_right eq' ty e1 l = (x, l', m)" "size x \<le> size e1"
      using less.IH [OF operands_size(1) [OF lr] less.prems] 1 by auto
    obtain y r' k where 2: "elim_right eq ty x r = (y, r', k)" by (metis prod_cases3)
    have "elim_right eq' ty x r = (y, r', k)" "size y \<le> size x"
      using less.IH [OF operands_size(2) [OF lr] agree_mono [OF less.prems x(2)]] 2 by auto
    then show ?thesis
      using x 1 2 lr elim_right.simps [of eq ty e1 e2] elim_right.simps [of eq' ty e1 e2] by simp
  qed
qed

lemma elim_eq_at_cong:
  assumes "level_type ty"
  shows "agree (size e1) eq eq' \<Longrightarrow> elim_eq_at eq ty e1 e2 = elim_eq_at eq' ty e1 e2"
proof (induction e1 arbitrary: e2 rule: measure_induct_rule [of size])
  case (less e1)
  show ?case
  proof (cases "operands_of ty e1")
    case None
    then show ?thesis using elim_right_cong [OF assms less.prems] by (simp add: elim_eq_at.simps)
  next
    case (Some lr)
    then obtain l r where lr: "operands_of ty e1 = Some (l, r)" by (cases lr) auto
    have "elim_eq_at eq ty l b = elim_eq_at eq' ty l b" "elim_eq_at eq ty r b = elim_eq_at eq' ty r b" for b
      using less.IH operands_size [OF lr] agree_mono [OF less.prems] less_imp_le_nat by blast+
    then show ?thesis using lr elim_eq_at.simps [of eq ty e1 e2] elim_eq_at.simps [of eq' ty e1 e2] by simp
  qed
qed

lemma elim_eq_at_top_cong:
  assumes "level_type ty" and "operands_of ty e1 = Some (l, r)" and "agree k eq eq'" and "size e1 = Suc k"
  shows "elim_eq_at eq ty e1 e2 = elim_eq_at eq' ty e1 e2"
proof -
  have "size l \<le> k" "size r \<le> k" using operands_size [OF assms(2)] assms(4) by simp_all
  then have "elim_eq_at eq ty l b = elim_eq_at eq' ty l b" "elim_eq_at eq ty r b = elim_eq_at eq' ty r b" for b
    using elim_eq_at_cong [OF assms(1)] agree_mono [OF assms(3)] by blast+
  then show ?thesis
    using assms(2) elim_eq_at.simps [of eq ty e1 e2] elim_eq_at.simps [of eq' ty e1 e2] by simp
qed

lemma elim_right_type:
  "level_type ty \<Longrightarrow> e_type e2 = ty \<Longrightarrow> elim_right eq ty e1 e2 = (x, y, n) \<Longrightarrow> e_type y = ty"
  by (subst (asm) elim_right.simps) (auto simp: level_type_def operands_of_type split: option.splits prod.splits)

lemma elim_eq_at_type:
  "level_type ty \<Longrightarrow> e_type e2 = ty \<Longrightarrow> elim_eq_at eq ty e1 e2 = (x, y, n) \<Longrightarrow> e_type y = ty \<and> (e_type e1 = ty \<longrightarrow> e_type x = ty)"
proof (induction e1 arbitrary: e2 x y n rule: measure_induct_rule [of size])
  case (less e1)
  show ?case
  proof (cases "operands_of ty e1")
    case None
    then show ?thesis
      using less.prems elim_right_type [OF less.prems(1,2)] operands_of_type [OF less.prems(1), of e1]
        elim_eq_at.simps [of eq ty e1 e2] by auto
  next
    case (Some lr)
    then obtain l r where lr: "operands_of ty e1 = Some (l, r)" by (cases lr) auto
    obtain l' z m where 1: "elim_eq_at eq ty l e2 = (l', z, m)" by (metis prod_cases3)
    obtain r' w k where 2: "elim_eq_at eq ty r z = (r', w, k)" by (metis prod_cases3)
    have "x = rebuild ty l' r'" "y = w" using less.prems(3) 1 2 lr by (subst (asm) elim_eq_at.simps, simp)+
    then show ?thesis
      using less.IH [OF operands_size(1) [OF lr] less.prems(1,2) 1] less.IH [OF operands_size(2) [OF lr] less.prems(1) _ 2] less.prems(1)
      by (auto simp: level_type_def)
  qed
qed

lemma elim_eq_with_cong:
  assumes "is_logical e1" and "e_type e1 = e_type e2" and "agree k eq eq'" and "size e1 = Suc k"
  shows "elim_eq_with eq e1 e2 = elim_eq_with eq' e1 e2"
proof -
  have ty: "level_type (e_type e1)" using assms(1) by (auto simp: is_logical_def level_type_def)
  then obtain l r where lr: "operands_of (e_type e1) e1 = Some (l, r)"
    using operands_of_type [OF ty, of e1] by auto
  obtain x y n where xy: "elim_eq_at eq (e_type e1) e1 e2 = (x, y, n)" by (metis prod_cases3)
  have "e_type x = e_type y" using elim_eq_at_type [OF ty _ xy] assms(2) by simp
  moreover have "elim_eq_at eq' (e_type e1) e1 e2 = (x, y, n)"
    using elim_eq_at_top_cong [OF ty lr assms(3,4), of e2] xy by simp
  ultimately show ?thesis using xy assms(1) by (simp add: elim_eq_with_def)
qed

lemma logical_size: "is_logical e \<Longrightarrow> \<exists>k. size e = Suc k"
  by (cases e) (auto simp: is_logical_def)

lemma expr_eq_depth_enough:
  "size e1 < n \<Longrightarrow> size e1 < m \<Longrightarrow> expr_eq_depth n e1 e2 = expr_eq_depth m e1 e2"
proof (induction n arbitrary: m e1 e2)
  case (Suc n)
  obtain k where m: "m = Suc k" using Suc.prems(2) by (cases m) simp_all
  have ag: "agree j (expr_eq_depth n) (expr_eq_depth k)" if "size e1 = Suc j" for j
    unfolding agree_def
  proof (intro allI impI)
    fix a b :: kexpr assume "size a \<le> j"
    then show "expr_eq_depth n a b = expr_eq_depth k a b" using Suc.IH [of a k b] Suc.prems that m by simp
  qed
  have "elim_eq_with (expr_eq_depth n) e1 e2 = elim_eq_with (expr_eq_depth k) e1 e2"
    if l: "is_logical e1" "e_type e1 = e_type e2"
    using logical_size [OF l(1)] elim_eq_with_cong [OF l ag] by blast
  moreover have "expr_eq_depth n a b = expr_eq_depth k a b" if "e1 = X_not a" for a b
    using Suc.IH [of a k b] Suc.prems m that by simp
  ultimately show ?case unfolding m by (cases e1; cases e2) simp_all
qed simp

lemma expr_eq_nn_eq:
  "expr_eq_nn e1 e2 =
     (if e_type e1 \<noteq> e_type e2 then False
      else (case (e1, e2) of
          (X_cmp r a b, X_cmp r' a' b') \<Rightarrow> a = a' \<and> b = b'
        | (X_sym a, X_sym a') \<Rightarrow> a = a'
        | (X_not a, X_not a') \<Rightarrow> expr_eq_nn a a'
        | _ \<Rightarrow>
          (if is_logical e1 then
             (let (x, y, k) = elim_eq_with expr_eq_nn e1 e2 in
              (case (x, y) of (X_sym a, X_sym b) \<Rightarrow> a = b | _ \<Rightarrow> False))
           else False)))"
proof -
  have d: "expr_eq_depth (size e1) a b = expr_eq_nn a b" if "size a < size e1" for a b
    unfolding expr_eq_nn_def by (rule expr_eq_depth_enough) (use that in simp_all)
  have ag: "agree j (expr_eq_depth (size e1)) expr_eq_nn" if "size e1 = Suc j" for j
    unfolding agree_def using d that by auto
  have "elim_eq_with (expr_eq_depth (size e1)) e1 e2 = elim_eq_with expr_eq_nn e1 e2"
    if l: "is_logical e1" "e_type e1 = e_type e2"
    using logical_size [OF l(1)] elim_eq_with_cong [OF l ag] by blast
  moreover have "expr_eq_depth (size e1) a b = expr_eq_nn a b" if "e1 = X_not a" for a b
    using d that by simp
  ultimately show ?thesis unfolding expr_eq_nn_def [of e1 e2] by (cases e1; cases e2) simp_all
qed

section \<open>Soundness\<close>

locale kvalues =
  fixes S :: sorts and tri :: "symref \<Rightarrow> tristate" and cp :: "symref \<Rightarrow> symref \<Rightarrow> int"
  assumes tri_const: "tri symbol_yes = T_yes" "tri symbol_mod = T_mod" "tri symbol_no = T_no"
    and tri_bool: "k_type (S a) = S_BOOLEAN \<Longrightarrow> tri a \<noteq> T_mod"
    and cp_yes: "three_valued S a \<Longrightarrow> cp a symbol_yes = 0 \<longleftrightarrow> tri a = T_yes"
    and cp_mod: "three_valued S a \<Longrightarrow> cp a symbol_mod = 0 \<longleftrightarrow> tri a = T_mod"
    and cp_no: "three_valued S a \<Longrightarrow> cp a symbol_no = 0 \<longleftrightarrow> tri a = T_no"
begin

abbreviation val :: "kexpr \<Rightarrow> tristate" where
  "val \<equiv> expr_value tri cp"

definition same :: "kexpr \<Rightarrow> kexpr \<Rightarrow> bool" where
  "same e e' \<longleftrightarrow> (plain_expr S e \<longrightarrow> plain_expr S e' \<and> val e' = val e)"

lemma same_refl [simp]: "same e e"
  by (simp add: same_def)

lemma same_trans: "same a b \<Longrightarrow> same b c \<Longrightarrow> same a c"
  by (simp add: same_def)

lemma same_cong: "same a a' \<Longrightarrow> same b b' \<Longrightarrow> same (X_and a b) (X_and a' b')"
  "same a a' \<Longrightarrow> same b b' \<Longrightarrow> same (X_or a b) (X_or a' b')" "same a a' \<Longrightarrow> same (X_not a) (X_not a')"
  by (simp_all add: same_def)

section \<open>Constants\<close>

lemma three_valued_const [simp]: "three_valued S symbol_yes" "three_valued S symbol_no" "three_valued S symbol_mod"
  by (simp_all add: three_valued_def)

lemmas cp_const = cp_yes cp_mod cp_no

lemma val_eliminate_yn [simp]: "val (expr_eliminate_yn e) = val e"
  by (induction e rule: expr_eliminate_yn.induct) (auto simp: Let_def tri_const)

lemma plain_eliminate_yn: "plain_expr S e \<Longrightarrow> plain_expr S (expr_eliminate_yn e)"
  by (induction e rule: expr_eliminate_yn.induct) (auto simp: Let_def)

lemma eliminate_yn_same: "same e (expr_eliminate_yn e)"
  by (simp add: same_def plain_eliminate_yn)

section \<open>Equality\<close>

lemma elim_leaves_factor:
  assumes "\<And>a b. eq a b \<Longrightarrow> val a = val b" and "level_type ty" and "elim_leaves eq ty e1 e2 = (x, y, n)"
  shows "\<exists>c. val e1 = level_op ty c (val x) \<and> val e2 = level_op ty c (val y)"
proof (cases "eq e1 e2 \<and> \<not> (e1 = e2 \<and> (e1 = X_sym symbol_yes \<or> e1 = X_sym symbol_no))")
  case True
  then have "x = neutral ty e1" "y = neutral ty e2" "val e1 = val e2"
    using assms by (auto simp: elim_leaves_def split: if_splits)
  then have "val e1 = level_op ty (val e1) (val x) \<and> val e2 = level_op ty (val e1) (val y)"
    using assms(2) by (auto simp: level_type_def tri_const)
  then show ?thesis by blast
next
  case False
  then have "x = e1" "y = e2" using assms(3) by (auto simp: elim_leaves_def split: if_splits)
  moreover have "\<exists>c. \<forall>a. level_op ty c a = a"
    using assms(2) by (cases "ty = E_OR") (auto simp: level_type_def intro: exI [of _ T_no] exI [of _ T_yes])
  ultimately show ?thesis by metis
qed

lemma val_rebuild:
  "operands_of ty e = Some (a, b) \<Longrightarrow> val e = level_op ty (val a) (val b)"
  "level_type ty \<Longrightarrow> val (rebuild ty a b) = level_op ty (val a) (val b)"
  by (auto simp: operands_of_Some level_type_def)

lemma elim_right_factor:
  assumes "\<And>a b. eq a b \<Longrightarrow> val a = val b" and "level_type ty"
  shows "elim_right eq ty e1 e2 = (x, y, n) \<Longrightarrow> \<exists>c. val e1 = level_op ty c (val x) \<and> val e2 = level_op ty c (val y)"
proof (induction e2 arbitrary: e1 x y n rule: measure_induct_rule [of size])
  case (less e2)
  show ?case
  proof (cases "operands_of ty e2")
    case None
    then show ?thesis using less.prems elim_leaves_factor [OF assms] by (simp add: elim_right.simps)
  next
    case (Some lr)
    obtain l r where lr: "operands_of ty e2 = Some (l, r)" using Some by (cases lr) auto
    obtain z l' m where 1: "elim_right eq ty e1 l = (z, l', m)" by (metis prod_cases3)
    obtain w r' k where 2: "elim_right eq ty z r = (w, r', k)" by (metis prod_cases3)
    have xy: "x = w" "y = rebuild ty l' r'" using less.prems 1 2 lr by (subst (asm) elim_right.simps, simp)+
    obtain c where c: "val e1 = level_op ty c (val z)" "val l = level_op ty c (val l')"
      using less.IH [OF operands_size(1) [OF lr] 1] by blast
    obtain d where d: "val z = level_op ty d (val w)" "val r = level_op ty d (val r')"
      using less.IH [OF operands_size(2) [OF lr] 2] by blast
    have "val e1 = level_op ty (level_op ty c d) (val x) \<and> val e2 = level_op ty (level_op ty c d) (val y)"
      using c d xy val_rebuild(1) [OF lr] val_rebuild(2) [OF assms(2)] by (simp add: level_op_ac)
    then show ?thesis by blast
  qed
qed

lemma elim_eq_at_factor:
  assumes "\<And>a b. eq a b \<Longrightarrow> val a = val b" and "level_type ty"
  shows "elim_eq_at eq ty e1 e2 = (x, y, n) \<Longrightarrow> \<exists>c. val e1 = level_op ty c (val x) \<and> val e2 = level_op ty c (val y)"
proof (induction e1 arbitrary: e2 x y n rule: measure_induct_rule [of size])
  case (less e1)
  show ?case
  proof (cases "operands_of ty e1")
    case None
    then show ?thesis using less.prems elim_right_factor [OF assms] by (simp add: elim_eq_at.simps)
  next
    case (Some lr)
    obtain l r where lr: "operands_of ty e1 = Some (l, r)" using Some by (cases lr) auto
    obtain l' z m where 1: "elim_eq_at eq ty l e2 = (l', z, m)" by (metis prod_cases3)
    obtain r' w k where 2: "elim_eq_at eq ty r z = (r', w, k)" by (metis prod_cases3)
    have xy: "x = rebuild ty l' r'" "y = w" using less.prems 1 2 lr by (subst (asm) elim_eq_at.simps, simp)+
    obtain c where c: "val l = level_op ty c (val l')" "val e2 = level_op ty c (val z)"
      using less.IH [OF operands_size(1) [OF lr] 1] by blast
    obtain d where d: "val r = level_op ty d (val r')" "val z = level_op ty d (val w)"
      using less.IH [OF operands_size(2) [OF lr] 2] by blast
    have "val e1 = level_op ty (level_op ty c d) (val x) \<and> val e2 = level_op ty (level_op ty c d) (val y)"
      using c d xy val_rebuild(1) [OF lr] val_rebuild(2) [OF assms(2)] by (simp add: level_op_ac)
    then show ?thesis by blast
  qed
qed

lemma elim_eq_with_same:
  assumes "\<And>a b. eq a b \<Longrightarrow> val a = val b" and "elim_eq_with eq e1 e2 = (x, y, n)" and "val x = val y"
  shows "val e1 = val e2"
proof -
  have ll: "is_logical e \<Longrightarrow> level_type (e_type e)" for e by (auto simp: is_logical_def level_type_def)
  obtain a1 a2 m where a: "(if is_logical e1 then elim_eq_at eq (e_type e1) e1 e2 else (e1, e2, 0)) = (a1, a2, m)"
    by (metis prod_cases3)
  obtain b1 b2 k where b: "(if e_type a1 \<noteq> e_type a2 \<and> is_logical a2 then elim_eq_at eq (e_type a2) a1 a2 else (a1, a2, 0)) = (b1, b2, k)"
    by (metis prod_cases3)
  have "val b1 = val b2" using assms(2,3) a b by (auto simp: elim_eq_with_def)
  then have "val a1 = val a2"
    using b elim_eq_at_factor [OF assms(1) ll, of eq a2 a1 a2 b1 b2 k] by (fastforce split: if_splits)
  then show ?thesis
    using a elim_eq_at_factor [OF assms(1) ll, of eq e1 e1 e2 a1 a2 m] by (fastforce split: if_splits)
qed

lemma expr_eq_depth_val: "expr_eq_depth n e1 e2 \<Longrightarrow> val e1 = val e2"
proof (induction n arbitrary: e1 e2)
  case (Suc n)
  note eq = elim_eq_with_same [of "expr_eq_depth n", OF Suc.IH]
  show ?case
    using Suc.prems Suc.IH eq [of e1 e2]
    by (cases e1; cases e2) (force simp: is_logical_def split: prod.splits kexpr.splits if_splits)+
qed simp

lemma expr_eq_val: "expr_eq_nn e1 e2 \<Longrightarrow> val e1 = val e2"
  unfolding expr_eq_nn_def by (rule expr_eq_depth_val)

section \<open>Joining two operands\<close>

lemma join_symbol_Some:
  "join_symbol S e1 e2 = Some a \<Longrightarrow>
     join_sym1 e1 = Some a \<and> join_sym2 e2 = Some a \<and> (k_type (S a) = S_BOOLEAN \<or> k_type (S a) = S_TRISTATE)"
  by (auto simp: join_symbol_def split: option.splits if_splits)

lemma three_valued_join: "join_symbol S e1 e2 = Some a \<Longrightarrow> three_valued S a"
  by (auto dest: join_symbol_Some simp: three_valued_def)

lemma cmp_pair_Some:
  "cmp_pair r x y e1 e2 \<Longrightarrow> \<exists>a a' b b'. e1 = X_cmp r a b \<and> e2 = X_cmp r a' b' \<and> (b = x \<and> b' = y \<or> b = y \<and> b' = x)"
  by (auto simp: cmp_pair_def split: kexpr.splits)

lemma sym_and_cmp_Some:
  "sym_and_cmp r x e1 e2 \<Longrightarrow> \<exists>a a'. e1 = X_sym a \<and> e2 = X_cmp r a' x \<or> e1 = X_cmp r a' x \<and> e2 = X_sym a"
  by (auto simp: sym_and_cmp_def split: kexpr.splits)

lemma eq_and_uneq_Some:
  "eq_and_uneq S e1 e2 = Some (b, c) \<Longrightarrow> k_const (S b) \<and> k_const (S c) \<and>
     (\<exists>a a'. e1 = X_cmp E_EQUAL a b \<and> e2 = X_cmp E_UNEQUAL a' c \<or> e1 = X_cmp E_UNEQUAL a' c \<and> e2 = X_cmp E_EQUAL a b)"
  by (auto simp: eq_and_uneq_def split: kexpr.splits comparison.splits if_splits)

lemma eq_join: "expr_eq_nn e1 e2 \<Longrightarrow> expr_copy e1 = Some z \<Longrightarrow> plain_expr S e1 \<Longrightarrow> z = e1 \<and> val e2 = val e1"
  using plain_copy expr_eq_val by fastforce

lemma join_or_same:
  assumes "expr_join_or S e1 e2 = Some z"
  shows "same (X_or e1 e2) z"
  unfolding same_def
proof
  assume p: "plain_expr S (X_or e1 e2)"
  show "plain_expr S z \<and> val z = val (X_or e1 e2)"
  proof (cases "expr_eq_nn e1 e2")
    case True
    then show ?thesis using assms p eq_join [OF True] by (simp add: expr_join_or_def)
  next
    case False
    then obtain a where a: "join_symbol S e1 e2 = Some a"
      using assms by (auto simp: expr_join_or_def split: option.splits)
    note cs = cp_const [OF three_valued_join [OF a]]
    have b: "k_type (S a) = S_BOOLEAN \<Longrightarrow> tri a = T_no \<or> tri a = T_yes"
      using tri_bool [of a] by (cases "tri a") auto
    show ?thesis
      using assms False a join_symbol_Some [OF a] b
      by (auto simp: expr_join_or_def cs tri_const dest!: cmp_pair_Some split: if_splits; cases "tri a"; simp)
  qed
qed

lemma join_and_same:
  assumes "expr_join_and S e1 e2 = Some z"
  shows "same (X_and e1 e2) z"
  unfolding same_def
proof
  assume p: "plain_expr S (X_and e1 e2)"
  show "plain_expr S z \<and> val z = val (X_and e1 e2)"
  proof (cases "expr_eq_nn e1 e2")
    case True
    then show ?thesis using assms p eq_join [OF True] by (simp add: expr_join_and_def)
  next
    case False
    then obtain a where a: "join_symbol S e1 e2 = Some a"
      using assms by (auto simp: expr_join_and_def split: option.splits)
    note ja = join_symbol_Some [OF a]
    note cs = cp_const [OF three_valued_join [OF a]]
    consider (sym) x r where "sym_and_cmp r x e1 e2"
        "r = E_EQUAL \<and> x = symbol_yes \<and> z = X_cmp E_EQUAL a symbol_yes \<or> r = E_UNEQUAL \<and> x = symbol_no \<and> z = X_sym a \<or>
         r = E_UNEQUAL \<and> x = symbol_mod \<and> z = X_cmp E_EQUAL a symbol_yes"
      | (const) b c where "k_type (S a) = S_TRISTATE" "eq_and_uneq S e1 e2 = Some (b, c)"
          "z = (if b \<noteq> c then X_cmp E_EQUAL a b else X_sym symbol_no)"
      | (pair) x y where "cmp_pair E_UNEQUAL x y e1 e2"
          "x = symbol_yes \<and> y = symbol_no \<and> z = X_cmp E_EQUAL a symbol_mod \<or>
           x = symbol_yes \<and> y = symbol_mod \<and> z = X_cmp E_EQUAL a symbol_no \<or>
           x = symbol_mod \<and> y = symbol_no \<and> z = X_cmp E_EQUAL a symbol_yes"
      using assms False a by (auto simp: expr_join_and_def split: if_splits option.splits)
    then show ?thesis
    proof cases
      case sym
      show ?thesis
        using sym_and_cmp_Some [OF sym(1)] sym(2) ja three_valued_join [OF a]
        by (cases "tri a") (auto simp: cs tri_const)
    next
      case const
      then have "b = symbol_yes \<or> b = symbol_mod \<or> b = symbol_no" "c = symbol_yes \<or> c = symbol_mod \<or> c = symbol_no"
        using eq_and_uneq_Some [OF const(2)] p ja by auto
      then show ?thesis
        using eq_and_uneq_Some [OF const(2)] const(1,3) ja by (cases "tri a") (auto simp: cs tri_const)
    next
      case pair
      then show ?thesis
        using cmp_pair_Some [OF pair(1)] pair(2) ja by (cases "tri a") (auto simp: cs tri_const)
    qed
  qed
qed

lemma join_with_same:
  "join_with S ty x y = Some z \<Longrightarrow> level_type ty \<and> same (rebuild ty x y) z"
  by (auto simp: join_with_def level_type_def join_or_same join_and_same split: if_splits)

section \<open>Duplicates\<close>

lemma unit_exists: "level_type ty \<Longrightarrow> \<exists>u. \<forall>a. level_op ty u a = a"
  by (cases "ty = E_OR") (auto simp: level_type_def intro: exI [of _ T_no] exI [of _ T_yes])

lemma val_at:
  assumes "level_type ty"
  shows "node_at ty p e \<Longrightarrow> expr_at p e = Some x \<Longrightarrow>
    \<exists>c. val e = level_op ty c (val x) \<and> (\<forall>z. val (put_at p z e) = level_op ty c (val z))"
proof (induction p arbitrary: e)
  case Nil
  then show ?case using unit_exists [OF assms] by auto metis
next
  case (Cons d p)
  obtain a b where e: "e = rebuild ty a b" "node_at ty p (case d of Lft \<Rightarrow> a | Rgt \<Rightarrow> b)"
    using Cons.prems(1) by (elim node_Cons)
  obtain c where c: "val (case d of Lft \<Rightarrow> a | Rgt \<Rightarrow> b) = level_op ty c (val x)"
      "\<forall>z. val (put_at p z (case d of Lft \<Rightarrow> a | Rgt \<Rightarrow> b)) = level_op ty c (val z)"
    using Cons.IH [OF e(2)] Cons.prems(2) e(1) assms by auto
  then show ?case
    using e(1) assms
    by (cases d; intro exI [of _ "level_op ty c (val (case d of Lft \<Rightarrow> b | Rgt \<Rightarrow> a))"]) (simp_all add: val_rebuild level_op_ac)
qed

lemma val_two:
  assumes "level_type ty" and "e_type x \<noteq> ty" and "e_type y \<noteq> ty"
  shows "node_at ty p e \<Longrightarrow> node_at ty q e \<Longrightarrow> expr_at p e = Some x \<Longrightarrow> expr_at q e = Some y \<Longrightarrow> p \<noteq> q \<Longrightarrow>
    \<exists>c. val e = level_op ty c (level_op ty (val x) (val y)) \<and>
      (\<forall>z w. val (put_at q w (put_at p z e)) = level_op ty c (level_op ty (val z) (val w)))"
proof (induction p arbitrary: q e)
  case Nil
  then show ?case using assms(2) operands_of_type [OF assms(1), of x] by (cases q) (auto simp: node_at.simps(2))
next
  case (Cons d p)
  obtain a b where e: "e = rebuild ty a b" "node_at ty p (case d of Lft \<Rightarrow> a | Rgt \<Rightarrow> b)"
    using Cons.prems(1) by (elim node_Cons)
  show ?case
  proof (cases q)
    case Nil
    then show ?thesis using Cons.prems(1,4) assms(3) operands_of_type [OF assms(1), of y] by (auto simp: node_at.simps(2))
  next
    case q: (Cons d' q')
    have nq: "node_at ty q' (case d' of Lft \<Rightarrow> a | Rgt \<Rightarrow> b)" using Cons.prems(2) q e(1) assms(1) by simp
    have xa: "expr_at p (case d of Lft \<Rightarrow> a | Rgt \<Rightarrow> b) = Some x" "expr_at q' (case d' of Lft \<Rightarrow> a | Rgt \<Rightarrow> b) = Some y"
      using Cons.prems(3,4) q e(1) assms(1) by simp_all
    show ?thesis
    proof (cases "d = d'")
      case True
      obtain c where "val (case d of Lft \<Rightarrow> a | Rgt \<Rightarrow> b) = level_op ty c (level_op ty (val x) (val y))"
          "\<forall>z w. val (put_at q' w (put_at p z (case d of Lft \<Rightarrow> a | Rgt \<Rightarrow> b))) = level_op ty c (level_op ty (val z) (val w))"
        using Cons.IH [OF e(2) _ xa(1), of q'] nq xa(2) True Cons.prems(5) q by auto
      then show ?thesis
        using e(1) assms(1) q True
        by (cases d; intro exI [of _ "level_op ty c (val (case d of Lft \<Rightarrow> b | Rgt \<Rightarrow> a))"]) (simp_all add: val_rebuild level_op_ac)
    next
      case False
      obtain c where c: "val (case d of Lft \<Rightarrow> a | Rgt \<Rightarrow> b) = level_op ty c (val x)"
          "\<forall>z. val (put_at p z (case d of Lft \<Rightarrow> a | Rgt \<Rightarrow> b)) = level_op ty c (val z)"
        using val_at [OF assms(1) e(2) xa(1)] by blast
      obtain c' where c': "val (case d' of Lft \<Rightarrow> a | Rgt \<Rightarrow> b) = level_op ty c' (val y)"
          "\<forall>z. val (put_at q' z (case d' of Lft \<Rightarrow> a | Rgt \<Rightarrow> b)) = level_op ty c' (val z)"
        using val_at [OF assms(1) nq xa(2)] by blast
      show ?thesis
        using c c' e(1) assms(1) q False
        by (cases d; cases d'; intro exI [of _ "level_op ty c c'"]) (simp_all add: val_rebuild level_op_ac)
    qed
  qed
qed

lemma plain_put:
  assumes "level_type ty"
  shows "node_at ty p e \<Longrightarrow> expr_at p e = Some x \<Longrightarrow> plain_expr S e \<Longrightarrow>
    plain_expr S x \<and> (\<forall>z. plain_expr S z \<longrightarrow> plain_expr S (put_at p z e))"
proof (induction p arbitrary: e)
  case (Cons d p)
  then obtain a b where e: "e = rebuild ty a b" "node_at ty p (case d of Lft \<Rightarrow> a | Rgt \<Rightarrow> b)" by (elim node_Cons)
  have pl: "plain_expr S (rebuild ty x y) \<longleftrightarrow> plain_expr S x \<and> plain_expr S y" for x y
    using assms by (auto simp: level_type_def)
  show ?case using Cons.IH [OF e(2)] Cons.prems e(1) assms by (cases d) (auto simp: pl)
qed simp

lemma put_same:
  assumes "level_type ty" and "node_at ty p e" and "expr_at p e = Some x" and "same x x'"
  shows "same e (put_at p x' e)"
  using val_at [OF assms(1-3)] plain_put [OF assms(1-3)] assms(4) by (auto simp: same_def)

definition dup_step :: "expr_type \<Rightarrow> kexpr \<times> nat \<Rightarrow> kexpr \<times> nat \<Rightarrow> bool" where
  "dup_step ty st st' \<longleftrightarrow> same (fst st) (fst st') \<and> skel ty (fst st') = skel ty (fst st) \<and> size (fst st') \<le> size (fst st) \<and>
     (st' = st \<or> snd st < snd st' \<and> has_const (fst st'))"

lemma dup_step_refl [simp]: "dup_step ty st st"
  by (simp add: dup_step_def)

lemma dup_step_trans: "dup_step ty a b \<Longrightarrow> dup_step ty b c \<Longrightarrow> dup_step ty a c"
  by (auto simp: dup_step_def intro: same_trans)

lemma dup_step_node: "level_type ty \<Longrightarrow> dup_step ty st st' \<Longrightarrow> node_at ty p (fst st') = node_at ty p (fst st)"
  by (simp add: dup_step_def node_at_shape)

lemma join_leaves_step:
  assumes ty: "level_type ty" and p: "node_at ty p (fst st)" "expr_at p (fst st) = Some x" "e_type x \<noteq> ty"
    and q: "node_at ty q (fst st)" "expr_at q (fst st) = Some y" "e_type y \<noteq> ty" and pq: "p \<noteq> q"
    and j: "join_leaves S ty p q st = Some st'"
  shows "dup_step ty st st'"
proof (cases "join_with S ty x y")
  case None
  then have "st' = st" using j p(2) q(2) by (cases st) (simp add: join_leaves_def)
  then show ?thesis by simp
next
  case (Some z)
  obtain e n where st: "st = (e, n)" by (cases st)
  let ?e2 = "put_at q z (put_at p (neutral ty x) e)"
  have st': "st' = (?e2, n + 1)" using j p(2) q(2) Some st by (simp add: join_leaves_def)
  have "same e ?e2"
    unfolding same_def
  proof
    assume pl: "plain_expr S e"
    have px: "plain_expr S x" "plain_expr S y" using plain_put [OF ty] p q pl st by auto
    have "plain_expr S (rebuild ty x y)" using px ty by (auto simp: level_type_def)
    then have z: "plain_expr S z" "val z = level_op ty (val x) (val y)"
      using join_with_same [OF Some] ty by (auto simp: same_def val_rebuild)
    have nt: "plain_expr S (neutral ty x)" "level_op ty (val (neutral ty x)) a = a" for a
      using ty by (auto simp: level_type_def tri_const)
    have leaf: "skel ty x = Leaf" "skel ty (neutral ty x) = Leaf"
      using p(3) ty by (simp_all add: skel_Leaf) (auto simp: level_type_def)
    have sk: "skel ty (put_at p (neutral ty x) e) = skel ty e"
      by (rule put_at_props(3) [OF ty]) (use p st ty leaf in auto)
    have n1: "node_at ty q (put_at p (neutral ty x) e)" using q(1) st sk ty by (simp add: node_at_shape)
    have a1: "expr_at q (put_at p (neutral ty x) e) = Some y" using put_at_other [OF ty] p q pq st by auto
    have "plain_expr S ?e2"
      using plain_put [OF ty, of p e x] plain_put [OF ty n1 a1] p st pl z(1) nt(1) by simp
    moreover have "val ?e2 = val e"
      using val_two [OF ty p(3) q(3), of p e q] p q st pq z(2) nt(2) by auto
    ultimately show "plain_expr S ?e2 \<and> val ?e2 = val e" by simp
  qed
  then show ?thesis
    using join_put_props [OF ty _ _ p(3) _ _ q(3) pq Some refl, of e] p q st st' by (simp add: dup_step_def)
qed

lemma dup_step_inner:
  assumes ty: "level_type ty" and p: "node_at ty p e" "expr_at p e = Some x" "e_type x \<noteq> ty"
    and l: "level_type (e_type x)" and d: "dup_step (e_type x) (x, n) (x', n')"
  shows "dup_step ty (e, n) (put_at p x' e, n') \<and> e_type x' \<noteq> ty \<and> expr_at p (put_at p x' e) = Some x'"
proof -
  have "skel (e_type x) x' \<noteq> Leaf"
    using d l by (simp add: dup_step_def skel_Leaf)
  then have t: "e_type x' = e_type x" using l by (simp add: skel_Leaf)
  have leaf: "skel ty x = skel ty x'" using p(3) t ty skel_Leaf [OF ty] by metis
  have "size (put_at p x' e) \<le> size e"
    using put_at_props(2) [OF ty p(1,2), of x'] d by (simp add: dup_step_def)
  moreover have "x' = x \<and> n' = n \<or> n < n' \<and> has_const (put_at p x' e)"
    using d put_at_const [OF _ p(2)] by (auto simp: dup_step_def)
  ultimately show ?thesis
    using put_at_props(1,3,4) [OF ty p(1,2)] leaf put_same [OF ty p(1,2)] d t p(3)
    by (auto simp: dup_step_def)
qed

lemma dups1_sound:
  assumes "expr_eliminate_dups1 S' ty p q st = Some st'"
  shows "S' = S \<longrightarrow> level_type ty \<longrightarrow> node_at ty p (fst st) \<longrightarrow> node_at ty q (fst st) \<longrightarrow> dup_step ty st st'"
proof (induction rule: expr_eliminate_dups1.raw_induct [OF _ assms])
  case (1 d1 S' ty p q st st')
  show ?case
  proof (intro impI)
    assume S': "S' = S" and ty: "level_type ty" and np: "node_at ty p (fst st)" and nq: "node_at ty q (fst st)"
    obtain x y where x: "expr_at p (fst st) = Some x" and y: "expr_at q (fst st) = Some y"
      using node_at_expr [OF ty] np nq by blast
    note res = 1(2) [unfolded x y S', simplified]
    note IH = 1(1) [rule_format]
    consider (descend_p) "e_type x = ty" | (descend_q) "e_type x \<noteq> ty" "e_type y = ty"
      | (here) "e_type x \<noteq> ty" "e_type y \<noteq> ty" "p = q" | (pair) "e_type x \<noteq> ty" "e_type y \<noteq> ty" "p \<noteq> q" by blast
    then show "dup_step ty st st'"
    proof cases
      case descend_p
      then obtain s1 where s1: "d1 S ty (p @ [Lft]) q st = Some s1" "d1 S ty (p @ [Rgt]) q s1 = Some st'"
        using res by (auto simp: bind_eq_Some_conv)
      have n: "node_at ty (p @ [d]) (fst st)" for d by (rule node_down [OF ty np x descend_p])
      have 1: "dup_step ty st s1" by (rule IH [OF s1(1) refl ty n nq])
      have "dup_step ty s1 st'"
        by (rule IH [OF s1(2) refl ty]) (simp_all add: dup_step_node [OF ty 1] n nq)
      with 1 show ?thesis by (rule dup_step_trans)
    next
      case descend_q
      then obtain s1 where s1: "d1 S ty p (q @ [Lft]) st = Some s1" "d1 S ty p (q @ [Rgt]) s1 = Some st'"
        using res by (auto simp: bind_eq_Some_conv)
      have n: "node_at ty (q @ [d]) (fst st)" for d by (rule node_down [OF ty nq y descend_q(2)])
      have 1: "dup_step ty st s1" by (rule IH [OF s1(1) refl ty np n])
      have "dup_step ty s1 st'"
        by (rule IH [OF s1(2) refl ty]) (simp_all add: dup_step_node [OF ty 1] n np)
      with 1 show ?thesis by (rule dup_step_trans)
    next
      case here
      then show ?thesis using res by simp
    next
      case pair
      obtain e n where st: "st = (e, n)" by (cases st)
      show ?thesis
      proof (cases "is_logical x")
        case False
        then show ?thesis
          using res pair join_leaves_step [OF ty np x pair(1) nq y pair(2,3)] by simp
      next
        case True
        then have lx: "level_type (e_type x)" by (auto simp: is_logical_def level_type_def)
        obtain x' n' where d: "d1 S (e_type x) [] [] (x, n) = Some (x', n')"
            "join_leaves S ty p q (put_at p x' e, n') = Some st'"
          using res pair True st by (auto simp: bind_eq_Some_conv)
        have "dup_step (e_type x) (x, n) (x', n')" by (rule IH [OF d(1) refl lx]) simp_all
        then have i: "dup_step ty (e, n) (put_at p x' e, n')" "e_type x' \<noteq> ty" "expr_at p (put_at p x' e) = Some x'"
          using dup_step_inner [OF ty _ _ pair(1) lx, of p e n x' n'] np x st by auto
        have q': "expr_at q (put_at p x' e) = Some y"
          using put_at_other [OF ty _ _ _ _ pair(1,2,3)] np nq x y st by auto
        have "dup_step ty (put_at p x' e, n') st'"
          by (rule join_leaves_step [OF ty _ _ i(2) _ _ pair(2,3) d(2)])
            (use dup_step_node [OF ty i(1)] np nq st i(3) q' in auto)
        with i(1) st show ?thesis by (auto intro: dup_step_trans)
      qed
    qed
  qed
qed

text \<open>The walk ends: it goes down the shape of the level, and a nested walk is on a smaller expression.\<close>

fun shape_size :: "shape \<Rightarrow> nat" where
  "shape_size Leaf = 0"
| "shape_size (Node a b) = Suc (shape_size a + shape_size b)"

lemma shape_down:
  assumes "level_type ty" and "node_at ty p e" and "expr_at p e = Some x" and "e_type x = ty"
  obtains a b where "shape_at p (skel ty e) = Some (Node a b)" "shape_at (p @ [Lft]) (skel ty e) = Some a"
    "shape_at (p @ [Rgt]) (skel ty e) = Some b"
proof -
  have "shape_at p (skel ty e) = Some (skel ty x)" "skel ty x \<noteq> Leaf"
    using shape_at_expr [OF assms(1-3)] skel_Leaf [OF assms(1)] assms(4) by auto
  then show ?thesis by (cases "skel ty x") (auto simp: shape_at_append intro: that)
qed

lemma dups1_returns:
  "level_type ty \<Longrightarrow> size (fst st) < k \<Longrightarrow> shape_at p (skel ty (fst st)) = Some a \<Longrightarrow>
     shape_at q (skel ty (fst st)) = Some b \<Longrightarrow> \<exists>st'. expr_eliminate_dups1 S ty p q st = Some st'"
proof (induction k arbitrary: ty st p q a b)
  case (Suc k)
  note outer = Suc.IH
  from Suc.prems show ?case
  proof (induction "shape_size a + shape_size b" arbitrary: st p q a b rule: less_induct)
    case less
    note ty = less.prems(1)
    have n: "node_at ty p (fst st)" "node_at ty q (fst st)" using less.prems by (simp_all add: node_at_shape)
    obtain x y where x: "expr_at p (fst st) = Some x" and y: "expr_at q (fst st) = Some y"
      using node_at_expr [OF ty] n by blast
    consider (descend_p) "e_type x = ty" | (descend_q) "e_type x \<noteq> ty" "e_type y = ty"
      | (here) "e_type x \<noteq> ty" "e_type y \<noteq> ty" "p = q" | (pair) "e_type x \<noteq> ty" "e_type y \<noteq> ty" "p \<noteq> q" by blast
    then show ?case
    proof cases
      case descend_p
      obtain a1 a2 where a: "shape_at p (skel ty (fst st)) = Some (Node a1 a2)"
          "shape_at (p @ [Lft]) (skel ty (fst st)) = Some a1" "shape_at (p @ [Rgt]) (skel ty (fst st)) = Some a2"
        using shape_down [OF ty n(1) x descend_p] .
      then have aa: "a = Node a1 a2" using less.prems(3) by simp
      obtain s1 where s1: "expr_eliminate_dups1 S ty (p @ [Lft]) q st = Some s1"
        using less.hyps [OF _ ty less.prems(2) a(2) less.prems(4)] aa by auto
      have d: "dup_step ty st s1"
        using dups1_sound [OF s1] refl ty n(2) node_down [OF ty n(1) x descend_p] by blast
      have "\<exists>s2. expr_eliminate_dups1 S ty (p @ [Rgt]) q s1 = Some s2"
        using less.hyps [OF _ ty, of a2 b s1 "p @ [Rgt]" q] aa d less.prems(2,4) a(3) by (simp add: dup_step_def)
      then show ?thesis using s1 descend_p x y by (subst expr_eliminate_dups1.simps) simp
    next
      case descend_q
      obtain b1 b2 where b: "shape_at q (skel ty (fst st)) = Some (Node b1 b2)"
          "shape_at (q @ [Lft]) (skel ty (fst st)) = Some b1" "shape_at (q @ [Rgt]) (skel ty (fst st)) = Some b2"
        using shape_down [OF ty n(2) y descend_q(2)] .
      then have bb: "b = Node b1 b2" using less.prems(4) by simp
      obtain s1 where s1: "expr_eliminate_dups1 S ty p (q @ [Lft]) st = Some s1"
        using less.hyps [OF _ ty less.prems(2,3) b(2)] bb by auto
      have d: "dup_step ty st s1"
        using dups1_sound [OF s1] refl ty n(1) node_down [OF ty n(2) y descend_q(2)] by blast
      have "\<exists>s2. expr_eliminate_dups1 S ty p (q @ [Rgt]) s1 = Some s2"
        using less.hyps [OF _ ty, of a b2 s1 p "q @ [Rgt]"] bb d less.prems(2,3) b(3) by (simp add: dup_step_def)
      then show ?thesis using s1 descend_q x y by (subst expr_eliminate_dups1.simps) simp
    next
      case here
      then show ?thesis using x y by (subst expr_eliminate_dups1.simps) simp
    next
      case pair
      obtain e m where st: "st = (e, m)" by (cases st)
      have jl: "\<exists>st'. join_leaves S ty p q (e', m') = Some st'" if "expr_at p e' = Some x'" "expr_at q e' = Some y'" for e' m' x' y'
        using that by (simp add: join_leaves_def)
      show ?thesis
      proof (cases "is_logical x")
        case False
        then show ?thesis using x y pair st jl by (subst expr_eliminate_dups1.simps) simp
      next
        case True
        then have lx: "level_type (e_type x)" by (auto simp: is_logical_def level_type_def)
        have "p \<noteq> []"
          using pair x n(2) operands_of_type [OF ty, of x] by (cases q) (auto simp: node_at.simps(2))
        then have "size x < k" using put_at_props(5) [OF ty n(1) x] less.prems(2) by simp
        then obtain x' m' where i: "expr_eliminate_dups1 S (e_type x) [] [] (x, m) = Some (x', m')"
          using outer [OF lx, of "(x, m)" "[]" _ "[]"] by auto
        have "expr_at q (put_at p x' e) = Some y" "expr_at p (put_at p x' e) = Some x'"
          using put_at_other [OF ty n x y pair] put_at_props(1) [OF ty n(1) x] st by simp_all
        then show ?thesis using i x y pair st True jl by (subst expr_eliminate_dups1.simps) simp
      qed
    qed
  qed
qed simp

lemma dups_pass_sound:
  obtains e' n where "dups_pass S e = Some (e', n)" "same e e'" "size e' \<le> size e" "e' = e \<and> n = 0 \<or> 0 < n \<and> has_const e'"
proof (cases "is_logical e")
  case True
  then have ty: "level_type (e_type e)" by (auto simp: is_logical_def level_type_def)
  obtain st' where st': "expr_eliminate_dups1 S (e_type e) [] [] (e, 0) = Some st'"
    using dups1_returns [OF ty, of "(e, 0)" "Suc (size e)" "[]" _ "[]"] by auto
  show ?thesis
    using that [of "fst st'" "snd st'"] dups1_sound [OF st'] st' True ty by (auto simp: dups_pass_def dup_step_def)
qed (use that in \<open>auto simp: dups_pass_def\<close>)

lemma dups_loop_sound:
  "\<exists>e'. dups_loop S e = Some e' \<and> same e e' \<and> size e' \<le> size e \<and> dups_pass S e' = Some (e', 0)"
proof (induction e rule: measure_induct_rule [of size])
  case (less e)
  obtain e1 n where e1: "dups_pass S e = Some (e1, n)" "same e e1" "size e1 \<le> size e" "e1 = e \<and> n = 0 \<or> 0 < n \<and> has_const e1"
    using dups_pass_sound .
  show ?case
  proof (cases "n = 0")
    case True
    then show ?thesis using e1 by (subst dups_loop.simps) auto
  next
    case False
    have "size (expr_eliminate_yn e1) < size e" using e1 False eliminate_yn_size [of e1] by auto
    then obtain e' where e': "dups_loop S (expr_eliminate_yn e1) = Some e'" "same (expr_eliminate_yn e1) e'"
        "size e' \<le> size (expr_eliminate_yn e1)" "dups_pass S e' = Some (e', 0)"
      using less.IH by blast
    have "same e e'" using e1(2) eliminate_yn_same [of e1] e'(2) by (blast intro: same_trans)
    moreover have "dups_loop S e = Some e'" using e1(1) False e'(1) by (subst dups_loop.simps) simp
    ultimately show ?thesis using e' \<open>size (expr_eliminate_yn e1) < size e\<close> by auto
  qed
qed

section \<open>Operands in common\<close>

lemma level_op_mono: "a \<le> b \<Longrightarrow> level_op ty c a \<le> level_op ty c b"
  by (cases ty) (simp_all add: EXPR_OR_max EXPR_AND_min max.coboundedI2 min.coboundedI2)

text \<open>An expression from which the operands in common with another leave only y is implied by the other one.\<close>

lemma elim_eq_with_implies:
  assumes "elim_eq_with expr_eq_nn e1 e2 = (X_sym symbol_yes, y, n)"
  shows "val e2 \<le> val e1"
proof -
  have ll: "is_logical e \<Longrightarrow> level_type (e_type e)" for e by (auto simp: is_logical_def level_type_def)
  obtain a1 a2 m where a: "(if is_logical e1 then elim_eq_at expr_eq_nn (e_type e1) e1 e2 else (e1, e2, 0)) = (a1, a2, m)"
    by (metis prod_cases3)
  obtain b1 b2 k where b: "(if e_type a1 \<noteq> e_type a2 \<and> is_logical a2 then elim_eq_at expr_eq_nn (e_type a2) a1 a2 else (a1, a2, 0)) = (b1, b2, k)"
    by (metis prod_cases3)
  have "expr_eliminate_yn b1 = X_sym symbol_yes" using assms a b by (auto simp: elim_eq_with_def)
  then have b1: "val b1 = T_yes" using val_eliminate_yn [of b1] tri_const by simp
  have top: "t \<le> T_yes" for t by (cases t) (simp_all add: tri_order)
  have "val a2 \<le> val a1"
  proof (cases "e_type a1 \<noteq> e_type a2 \<and> is_logical a2")
    case True
    then obtain c where "val a1 = level_op (e_type a2) c (val b1)" "val a2 = level_op (e_type a2) c (val b2)"
      using b elim_eq_at_factor [of expr_eq_nn, OF expr_eq_val ll, of a2 a1 a2 b1 b2 k] by auto
    then show ?thesis using level_op_mono [OF top] b1 by simp
  qed (use b b1 top in auto)
  then show ?thesis
  proof (cases "is_logical e1")
    case True
    then obtain c where "val e1 = level_op (e_type e1) c (val a1)" "val e2 = level_op (e_type e1) c (val a2)"
      using a elim_eq_at_factor [of expr_eq_nn, OF expr_eq_val ll, of e1 e1 e2 a1 a2 m] by auto
    then show ?thesis using level_op_mono \<open>val a2 \<le> val a1\<close> by simp
  qed (use a in auto)
qed

section \<open>Negations\<close>

lemma transform_cmp_same: "same (X_cmp r a b) (transform_cmp S r a b)"
proof -
  have "three_valued S a" if "k_type (S a) = S_BOOLEAN" using that by (simp add: three_valued_def)
  note cs = cp_const [OF this]
  show ?thesis
    using tri_bool [of a] by (cases "tri a") (auto simp: same_def transform_cmp_def cs tri_const three_valued_def)
qed

lemma negate_sym_same: "same (X_not (X_sym a)) (negate_sym a)"
  by (auto simp: same_def negate_sym_def tri_const)

lemma de_morgan_same:
  "same (X_not (X_not a)) a" "same (X_not (X_or a b)) (X_and (X_not a) (X_not b))"
  "same (X_not (X_and a b)) (X_or (X_not a) (X_not b))" "same (X_not (X_cmp r s t)) (X_cmp (negate_cmp r) s t)"
  by (simp_all add: same_def)

lemma transform_not_same:
  assumes "same a (expr_transform S' a)" and "S' = S"
    and "\<And>x. expr_transform S' a = X_not x \<Longrightarrow> same x (expr_transform S' x)"
    and "\<And>x y. expr_transform S' a = X_or x y \<Longrightarrow> same (X_and (X_not x) (X_not y)) (expr_transform S' (X_and (X_not x) (X_not y)))"
    and "\<And>x y. expr_transform S' a = X_and x y \<Longrightarrow> same (X_or (X_not x) (X_not y)) (expr_transform S' (X_or (X_not x) (X_not y)))"
  shows "same (X_not a) (expr_transform S' (X_not a))"
proof (rule same_trans [OF same_cong(3) [OF assms(1)]])
  show "same (X_not (expr_transform S' a)) (expr_transform S' (X_not a))"
  proof (cases "expr_transform S' a")
    case (X_not x)
    then show ?thesis using assms(3) de_morgan_same(1) by (auto intro: same_trans)
  next
    case (X_or x y)
    then show ?thesis using assms(4) [OF X_or] de_morgan_same(2) [of x y] by (auto simp del: expr_transform.simps(2) intro: same_trans)
  next
    case (X_and x y)
    then show ?thesis using assms(5) [OF X_and] de_morgan_same(3) [of x y] by (auto simp del: expr_transform.simps(3) intro: same_trans)
  next
    case (X_sym s)
    then show ?thesis by (simp add: negate_sym_same)
  next
    case (X_cmp r s t)
    then show ?thesis using de_morgan_same(4) by simp
  qed simp_all
qed

lemma transform_same: "S' = S \<Longrightarrow> same e (expr_transform S' e)"
proof (induction S' e rule: expr_transform.induct)
  case (1 S' r a b)
  then show ?case using transform_cmp_same by simp
next
  case (2 S' a b)
  then show ?case by (simp add: same_cong)
next
  case (3 S' a b)
  then show ?case by (simp add: same_cong)
next
  case (4 S' a)
  show ?case by (rule transform_not_same) (use 4 in auto)
qed simp_all

section \<open>Comparisons with a constant\<close>

text \<open>No operand of a negation is m.\<close>

fun crisp :: "kexpr \<Rightarrow> bool" where
  "crisp (X_not a) \<longleftrightarrow> crisp a \<and> val a \<noteq> T_mod"
| "crisp (X_and a b) \<longleftrightarrow> crisp a \<and> crisp b"
| "crisp (X_or a b) \<longleftrightarrow> crisp a \<and> crisp b"
| "crisp e \<longleftrightarrow> True"

lemma trans_compare_val:
  "plain_expr S e \<Longrightarrow> crisp e \<Longrightarrow> ty = E_EQUAL \<or> ty = E_UNEQUAL \<Longrightarrow> sy = symbol_yes \<or> sy = symbol_no \<Longrightarrow>
    \<exists>x. trans_compare_nn e ty sy = Some x \<and> plain_expr S x \<and>
      val x = (if (val e = tri sy) = (ty = E_EQUAL) then T_yes else T_no)"
proof (induction e arbitrary: ty)
  case (X_sym a)
  then show ?case using tri_const by (auto simp: cp_const)
next
  case (X_not a)
  from X_not.prems obtain x where x: "trans_compare_nn a (if ty = E_EQUAL then E_UNEQUAL else E_EQUAL) sy = Some x"
      "plain_expr S x"
      "val x = (if (val a = tri sy) = ((if ty = E_EQUAL then E_UNEQUAL else E_EQUAL) = E_EQUAL) then T_yes else T_no)"
    using X_not.IH [of "if ty = E_EQUAL then E_UNEQUAL else E_EQUAL"] by auto
  then show ?case using X_not.prems tri_const by (cases "val a") (auto split: if_splits)
next
  case (X_and a b)
  from X_and.prems obtain x y where x: "trans_compare_nn a E_EQUAL sy = Some x" "plain_expr S x"
      "val x = (if val a = tri sy then T_yes else T_no)"
    and y: "trans_compare_nn b E_EQUAL sy = Some y" "plain_expr S y" "val y = (if val b = tri sy then T_yes else T_no)"
    using X_and.IH [of E_EQUAL] by auto
  show ?case
    using x y X_and.prems tri_const
    by (cases "val a"; cases "val b") (auto simp: negate_if_def EXPR_AND_def EXPR_OR_def tri_order)
next
  case (X_or a b)
  from X_or.prems obtain x y where x: "trans_compare_nn a E_EQUAL sy = Some x" "plain_expr S x"
      "val x = (if val a = tri sy then T_yes else T_no)"
    and y: "trans_compare_nn b E_EQUAL sy = Some y" "plain_expr S y" "val y = (if val b = tri sy then T_yes else T_no)"
    using X_or.IH [of E_EQUAL] by auto
  show ?case
    using x y X_or.prems tri_const
    by (cases "val a"; cases "val b") (auto simp: negate_if_def EXPR_AND_def EXPR_OR_def tri_order)
next
  case (X_cmp r a b)
  then show ?case using tri_const by auto
qed simp_all

text \<open>The condition of a menu entry, rewritten as \<^verbatim>\<open>menu_finalize\<close> does it to compare it with that of another entry.\<close>

lemma visible_condition:
  assumes "plain_expr S e" and "crisp e"
  shows "\<exists>x y. expr_trans_compare (Some e) E_UNEQUAL symbol_no = Some x \<and>
    expr_eliminate_dups S (Some (expr_transform S x)) = Some (Some y) \<and> val y = (if val e = T_no then T_no else T_yes)"
proof -
  obtain x where x: "trans_compare_nn e E_UNEQUAL symbol_no = Some x" "plain_expr S x"
      "val x = (if val e = T_no then T_no else T_yes)"
    using trans_compare_val [OF assms, of E_UNEQUAL symbol_no] tri_const by auto
  obtain y where "dups_loop S (expr_transform S x) = Some y" "same (expr_transform S x) y"
    using dups_loop_sound by blast
  then show ?thesis
    using x transform_same [OF refl, of x] by (auto simp: expr_trans_compare_def expr_eliminate_dups_def same_def)
qed

end

text \<open>Two results of the insertion of comparisons: with m the comparisons below a conjunction are dropped, and a negated symbol becomes a comparison of the symbol.\<close>

lemma trans_compare_examples:
  "expr_trans_compare (Some (X_and (X_sym a) (X_sym b))) E_EQUAL symbol_mod = Some (X_and (X_sym a) (X_sym b))"
  "expr_trans_compare (Some (X_not (X_sym a))) E_UNEQUAL symbol_no = Some (X_cmp E_EQUAL a symbol_no)"
  by (simp_all add: expr_trans_compare_def negate_if_def)

end
