(* ===== verification/KTable.thy ===== *)
theory KTable
  imports KSymProps KExprProps
begin

text \<open>
  The values of the symbols of a table and of the expressions over them: a table whose values are consistent provides the interface
  \<open>kvalues\<close>, and \<^verbatim>\<open>expr_calc_value\<close> computes \<open>expr_value\<close> where all symbols are calculated. So the simplifications of theory
  KExpr do not change what a condition evaluates to.
\<close>

unbundle bit_operations_syntax

section \<open>What a table says of its symbols\<close>

definition sorts_of :: "kconf \<Rightarrow> sorts" where
  "sorts_of K s = \<lparr>k_type = s_type (k_sym K s), k_const = flag_on s SYMBOL_CONST K\<rparr>"

definition tri_of :: "kconf \<Rightarrow> symref \<Rightarrow> tristate" where
  "tri_of K s = sym_get_tristate_value s K"

text \<open>The text \<^verbatim>\<open>sym_get_string_value\<close> gives for a symbol.\<close>

definition text_of :: "kconf \<Rightarrow> symref \<Rightarrow> string" where
  "text_of K s =
     (if s_type (k_sym K s) = S_BOOLEAN \<or> s_type (k_sym K s) = S_TRISTATE then
        (case tri_of K s of T_no \<Rightarrow> ''n'' | T_mod \<Rightarrow> (if tri_of K (k_modules_sym K) = T_no then ''n'' else ''m'') | T_yes \<Rightarrow> ''y'')
      else (case v_val (s_curr (k_sym K s)) of V_str i t \<Rightarrow> t | _ \<Rightarrow> ''''))"

definition cmp_of :: "kconf \<Rightarrow> symref \<Rightarrow> symref \<Rightarrow> int" where
  "cmp_of K a b = expr_compare_values (text_of K a) (s_type (k_sym K a)) (text_of K b) (s_type (k_sym K b))"

definition constant_in :: "kconf \<Rightarrow> symref \<Rightarrow> string \<Rightarrow> tristate \<Rightarrow> bool" where
  "constant_in K s t v \<longleftrightarrow> s_type (k_sym K s) = S_UNKNOWN \<and> text_of K s = t \<and> tri_of K s = v"

text \<open>The constants are as they were initialised; a bool symbol is not m, and none is where modules are disabled.\<close>

definition consistent :: "kconf \<Rightarrow> bool" where
  "consistent K \<longleftrightarrow> constant_in K symbol_yes ''y'' T_yes \<and> constant_in K symbol_mod ''m'' T_mod \<and> constant_in K symbol_no ''n'' T_no \<and>
     (\<forall>s. s_type (k_sym K s) = S_BOOLEAN \<longrightarrow> tri_of K s \<noteq> T_mod) \<and>
     (\<forall>s. s_type (k_sym K s) = S_TRISTATE \<and> tri_of K (k_modules_sym K) = T_no \<longrightarrow> tri_of K s \<noteq> T_mod)"

fun tri_name :: "tristate \<Rightarrow> string" where
  "tri_name T_no = ''n''"
| "tri_name T_mod = ''m''"
| "tri_name T_yes = ''y''"

lemma tri_name_eq [simp]: "tri_name a = tri_name b \<longleftrightarrow> a = b"
  by (cases a; cases b) simp_all

lemma constant_text: "consistent K \<Longrightarrow> c = symbol_yes \<or> c = symbol_mod \<or> c = symbol_no \<Longrightarrow>
    text_of K c = tri_name (tri_of K c) \<and> s_type (k_sym K c) = S_UNKNOWN"
  by (auto simp: consistent_def constant_in_def)

lemma three_valued_text:
  assumes "consistent K" and "three_valued (sorts_of K) s"
  shows "text_of K s = tri_name (tri_of K s)"
proof (cases "s_type (k_sym K s) = S_BOOLEAN \<or> s_type (k_sym K s) = S_TRISTATE")
  case True
  then have "tri_of K s = T_mod \<Longrightarrow> tri_of K (k_modules_sym K) \<noteq> T_no" using assms(1) unfolding consistent_def by blast
  then show ?thesis using True by (cases "tri_of K s") (simp_all add: text_of_def)
next
  case False
  then have "s = symbol_yes \<or> s = symbol_mod \<or> s = symbol_no" using assms(2) by (simp add: three_valued_def sorts_of_def)
  then show ?thesis using constant_text [OF assms(1)] by blast
qed

lemma tri_name_digits:
  assumes "c = CHR ''n'' \<or> c = CHR ''m'' \<or> c = CHR ''y''"
  shows "\<not> is_space c" "b \<le> 10 \<Longrightarrow> \<not> digit_in b c" "c \<noteq> CHR ''-''" "c \<noteq> CHR ''+''" "c \<noteq> CHR ''0''"
  using assms by (elim disjE; simp add: is_space_def digit_in_def digit_val_def is_digit_def char_in_def)+

lemma tri_name_char:
  obtains c where "tri_name v = [c]" "c = CHR ''n'' \<or> c = CHR ''m'' \<or> c = CHR ''y''"
  by (cases v) auto

lemma strto_word: "b \<le> 10 \<Longrightarrow> strto_value b (tri_name v) = (0, tri_name v)"
  by (rule tri_name_char [of v]) (simp add: strto_value_def num_base_def Let_def tri_name_digits)

lemma parse_word: "ty \<noteq> S_BOOLEAN \<Longrightarrow> ty \<noteq> S_TRISTATE \<Longrightarrow> ty \<noteq> S_HEX \<Longrightarrow> fst (expr_parse_string (tri_name v) ty) = K_string"
  using tri_name_char [of v] by (auto simp: expr_parse_string_def strto_word Let_def)

lemma strcmp_zero: "strcmp a b = 0 \<longleftrightarrow> a = b"
  by (induction a b rule: strcmp.induct) auto

text \<open>The comparison with one of the constants y, m and n is that of the texts.\<close>

lemma compare_constant:
  assumes "consistent K" and "three_valued (sorts_of K) s" and "c = symbol_yes \<or> c = symbol_mod \<or> c = symbol_no"
  shows "cmp_of K s c = 0 \<longleftrightarrow> tri_of K s = tri_of K c"
proof -
  have "fst (expr_parse_string (text_of K c) (s_type (k_sym K c))) = K_string"
    using constant_text [OF assms(1,3)] by (simp add: parse_word)
  then have "cmp_of K s c = strcmp (text_of K s) (text_of K c)"
    using constant_text [OF assms(1,3)]
    by (auto simp: cmp_of_def expr_compare_values_def split: prod.split)
  then show ?thesis
    using three_valued_text [OF assms(1,2)] constant_text [OF assms(1,3)] by (simp add: strcmp_zero)
qed

section \<open>Tables\<close>

definition demo_symbol :: "symbol_type \<Rightarrow> nat \<Rightarrow> string \<Rightarrow> symbol_value \<Rightarrow> u32 \<Rightarrow> symbol" where
  "demo_symbol ty i nm v fl = \<lparr>s_name = Some (i, nm), s_type = ty, s_curr = v, s_def_user = v, s_visible = T_no, s_flags = fl,
     s_prop = [], s_dep = (\<lambda>_. None), s_dep_tri = (\<lambda>_. T_no)\<rparr>"

text \<open>The table before a file is read: the constants of \<^verbatim>\<open>symbol.c\<close>, and no other symbol.\<close>

definition initial_symbol :: "symref \<Rightarrow> symbol" where
  "initial_symbol s = (case s of
      symbol_yes \<Rightarrow> demo_symbol S_UNKNOWN 0 ''y'' \<lparr>v_val = V_str 0 ''y'', v_tri = T_yes\<rparr> (SYMBOL_CONST OR SYMBOL_VALID)
    | symbol_mod \<Rightarrow> demo_symbol S_UNKNOWN 1 ''m'' \<lparr>v_val = V_str 1 ''m'', v_tri = T_mod\<rparr> (SYMBOL_CONST OR SYMBOL_VALID)
    | symbol_no \<Rightarrow> demo_symbol S_UNKNOWN 2 ''n'' \<lparr>v_val = V_str 2 ''n'', v_tri = T_no\<rparr> (SYMBOL_CONST OR SYMBOL_VALID)
    | _ \<Rightarrow> demo_symbol S_UNKNOWN 3 '''' \<lparr>v_val = V_str 3 '''', v_tri = T_no\<rparr> SYMBOL_VALID)"

definition initial_table :: kconf where
  "initial_table = \<lparr>k_sym = initial_symbol, k_hash = [], k_modules_sym = symbol_no, k_modules_val = T_no,
     k_menu_changed = (\<lambda>_. False), k_next = 4, k_unmet = [], k_changes = 0\<rparr>"

lemma initial_types: "s_type (initial_symbol s) = S_UNKNOWN"
  by (simp add: initial_symbol_def demo_symbol_def split: symref.split)

lemma initial_consistent: "consistent initial_table"
  by (simp add: consistent_def constant_in_def text_of_def tri_of_def sym_get_tristate_value_def initial_table_def initial_types)
    (simp add: initial_symbol_def demo_symbol_def)

typedef table = "{K. consistent K}"
  using initial_consistent by blast

interpretation table_values: kvalues "sorts_of (Rep_table T)" "tri_of (Rep_table T)" "cmp_of (Rep_table T)" for T
proof -
  have c: "consistent (Rep_table T)" using Rep_table by blast
  have "tri_of (Rep_table T) symbol_yes = T_yes" "tri_of (Rep_table T) symbol_mod = T_mod" "tri_of (Rep_table T) symbol_no = T_no"
    "\<And>a. k_type (sorts_of (Rep_table T) a) = S_BOOLEAN \<Longrightarrow> tri_of (Rep_table T) a \<noteq> T_mod"
    using c by (auto simp: consistent_def constant_in_def sorts_of_def)
  then show "kvalues (sorts_of (Rep_table T)) (tri_of (Rep_table T)) (cmp_of (Rep_table T))"
    by unfold_locales (simp_all add: compare_constant [OF c])
qed

lemma table_cases:
  assumes "consistent K"
  obtains T where "K = Rep_table T"
  using Abs_table_inverse [of K] assms by (metis mem_Collect_eq)

section \<open>Evaluation\<close>

text \<open>The symbols of an expression, and those whose text is compared.\<close>

fun symbols :: "kexpr \<Rightarrow> symref set" where
  "symbols (X_sym s) = {s}"
| "symbols (X_not a) = symbols a"
| "symbols (X_and a b) = symbols a \<union> symbols b"
| "symbols (X_or a b) = symbols a \<union> symbols b"
| "symbols (X_cmp r a b) = {a, b}"
| "symbols e = {}"

text \<open>A symbol whose value can be read: calculated, and with a text where its type asks for one.\<close>

definition calculated :: "kconf \<Rightarrow> symref \<Rightarrow> bool" where
  "calculated K s \<longleftrightarrow> flag_on s SYMBOL_VALID K \<and>
     (s_type (k_sym K s) = S_BOOLEAN \<or> s_type (k_sym K s) = S_TRISTATE \<or> (\<exists>i t. v_val (s_curr (k_sym K s)) = V_str i t))"

lemma calc_valid: "flag_on s SYMBOL_VALID K \<Longrightarrow> sym_calc_value (Suc n) s K = Inr K"
  by (simp add: sym_calc_value.simps)

lemma string_value_read:
  assumes "calculated K s" and "calculated K (k_modules_sym K)"
  shows "sym_get_string_value (sym_calc_value (Suc n)) s K = Inr (text_of K s, K)"
  using assms
  by (auto simp: calc_valid sym_get_string_value_def text_of_def tri_of_def calculated_def val_text_def split: tristate.split)

lemma relation_holds: "relation_value r c = (if cmp_holds r c then T_yes else T_no)"
  by (cases r) auto

lemma value_nn_read:
  assumes "calculated K (k_modules_sym K)"
  shows "\<forall>s \<in> symbols e. calculated K s \<Longrightarrow>
    calc_value_nn (sym_calc_value (Suc n)) e K = Inr (expr_value (tri_of K) (cmp_of K) e, K)"
proof (induction e)
  case (X_cmp r a b)
  then have v: "flag_on a SYMBOL_VALID K" "flag_on b SYMBOL_VALID K" and c: "calculated K a" "calculated K b"
    by (auto simp: calculated_def)
  show ?case
    using v string_value_read [OF c(1) assms] string_value_read [OF c(2) assms]
    by (simp add: calc_valid relation_holds cmp_of_def)
qed (auto simp: calc_valid calculated_def tri_of_def)

lemma expr_value_read:
  assumes "calculated K (k_modules_sym K)" and "\<forall>s \<in> symbols e. calculated K s"
  shows "expr_calc_value (sym_calc_value (Suc n)) (Some e) K = Inr (expr_value (tri_of K) (cmp_of K) e, K)"
  using value_nn_read [OF assms] by (simp add: expr_calc_value_def)

end
