(* ===== verification/KConfProps.thy ===== *)
theory KConfProps
  imports KConf KTable
begin

text \<open>
  What is written for the symbols of a configuration is read back as the settings of the user: a string with its escapes, a
  line, and the text of all symbols.
\<close>

unbundle bit_operations_syntax

section \<open>Strings\<close>

lemma unquote_escaped: "unquote (escaped t @ CHR 0x22 # r) = Some t"
  by (induction t) (auto simp: needs_escape_def)

lemma escaped_newline: "CHR 0x0A \<notin> set t \<Longrightarrow> CHR 0x0A \<notin> set (escaped t)"
  by (induction t) (auto simp: needs_escape_def)

definition plain_chars :: "string \<Rightarrow> bool" where
  "plain_chars t \<longleftrightarrow> CHR 0x0A \<notin> set t \<and> CHR 0x0D \<notin> set t"

lemma digits_plain: "list_all is_digit t \<Longrightarrow> plain_chars t" "list_all (digit_in 16) t \<Longrightarrow> plain_chars t"
  by (induction t) (auto simp: plain_chars_def is_digit_def char_in_def digit_in_def digit_val_def)

lemma valid_plain: "sym_string_valid ty t \<Longrightarrow> ty = S_INT \<or> ty = S_HEX \<Longrightarrow> plain_chars t"
proof (elim disjE)
  assume v: "sym_string_valid ty t"
  show ?thesis if "ty = S_INT"
  proof (cases "take 1 t = ''-''")
    case True
    then obtain r where r: "t = CHR ''-'' # r" by (cases t) auto
    then have "list_all is_digit r" using v that by (auto split: list.splits)
    then show ?thesis using digits_plain(1) r by (auto simp: plain_chars_def)
  next
    case False
    then have "list_all is_digit t" using v that by (auto split: list.splits)
    then show ?thesis by (rule digits_plain(1))
  qed
  show ?thesis if "ty = S_HEX"
  proof (cases "hex_prefix t")
    case True
    then have "list_all (digit_in 16) (drop 2 t)" "plain_chars (take 2 t)"
      using v that by (auto simp: Let_def hex_prefix_def plain_chars_def)
    then show ?thesis using digits_plain(2) append_take_drop_id [of 2 t] unfolding plain_chars_def by (metis Un_iff set_append)
  next
    case False
    then have "list_all (digit_in 16) t" using v that by (auto simp: Let_def)
    then show ?thesis by (rule digits_plain(2))
  qed
qed

lemma tri_name_plain: "plain_chars (tri_name v) \<and> tri_name v \<noteq> []"
  by (cases v) (simp_all add: plain_chars_def)

section \<open>The value written for a symbol\<close>

text \<open>A symbol that can be read back: its name is one of the file, and its text is of its type.\<close>

definition value_text :: "kconf \<Rightarrow> symref \<Rightarrow> string" where
  "value_text K s = (if s_type (k_sym K s) = S_STRING then sym_escape_string_value (text_of K s) else text_of K s)"

text \<open>The choice a symbol is a value of.\<close>

definition choice_of :: "symref \<Rightarrow> kconf \<Rightarrow> symref option" where
  "choice_of s K = (if sym_is_choice_value s K then Option.bind (sym_get_choice_prop s K) prop_get_symbol else None)"

definition writable :: "kconf \<Rightarrow> symref \<Rightarrow> bool" where
  "writable K s \<longleftrightarrow> (\<exists>name. sym_name s K = Some name \<and> sym_find name K = Some s \<and> s \<in> set (k_hash K) \<and>
     CHR 0x0A \<notin> set name \<and> CHR ''='' \<notin> set name \<and> CHR '' '' \<notin> set name) \<and>
     \<not> sym_is_choice s K \<and>
     (sym_is_choice_value s K \<longrightarrow> (s_type (k_sym K s) = S_BOOLEAN \<or> s_type (k_sym K s) = S_TRISTATE) \<and>
        (case choice_of s K of None \<Rightarrow> False | Some cs \<Rightarrow> sym_is_choice cs K \<and> cs \<in> set (k_hash K))) \<and>
     (case s_type (k_sym K s) of
        S_UNKNOWN \<Rightarrow> False
      | S_STRING \<Rightarrow> CHR 0x0A \<notin> set (text_of K s)
      | S_INT \<Rightarrow> sym_string_valid S_INT (text_of K s)
      | S_HEX \<Rightarrow> sym_string_valid S_HEX (text_of K s)
      | _ \<Rightarrow> True)"

definition line_of :: "string \<Rightarrow> kconf \<Rightarrow> symref \<Rightarrow> string" where
  "line_of pre K s = kconfig_print_symbol pre False (s_type (k_sym K s)) (the (sym_name s K)) (value_text K s)"

lemma write_symbol:
  assumes "calculated K s" and "calculated K (k_modules_sym K)" and "writable K s"
  shows "conf_write_symbol (sym_calc_value (Suc n)) (kconfig_print_symbol pre False) s K = Inr (line_of pre K s, K)"
proof -
  have "s_type (k_sym K s) \<noteq> S_UNKNOWN" using assms(3) by (auto simp: writable_def)
  then show ?thesis
    using string_value_read [OF assms(1,2)] assms(3)
    by (auto simp: conf_write_symbol_def line_of_def value_text_def writable_def deref_def Let_def)
qed

text \<open>The hash table finds the first symbol of the name.\<close>

lemma find_filter: "(\<And>x. P x \<Longrightarrow> Q x) \<Longrightarrow> List.find P (filter Q xs) = List.find P xs"
  by (induction xs) auto

lemma sym_find_list: "constant_named name = None \<Longrightarrow>
    sym_find name K = List.find (\<lambda>s. sym_name s K = Some name \<and> \<not> flag_on s SYMBOL_CONST K) (k_hash K)"
  unfolding sym_find_def hash_chain_def by (simp, rule find_filter, simp)

section \<open>Reading a line\<close>

definition named_flags :: u32 where
  "named_flags = SYMBOL_CONST OR SYMBOL_CHOICE OR SYMBOL_CHOICEVAL"

definition names_kept :: "kconf \<Rightarrow> kconf \<Rightarrow> bool" where
  "names_kept K0 K \<longleftrightarrow> k_hash K = k_hash K0 \<and> (\<forall>t. s_name (k_sym K t) = s_name (k_sym K0 t) \<and>
     s_prop (k_sym K t) = s_prop (k_sym K0 t) \<and> s_type (k_sym K t) = s_type (k_sym K0 t) \<and> s_flags (k_sym K t) AND named_flags = s_flags (k_sym K0 t) AND named_flags)"

definition user_is :: "kconf \<Rightarrow> symref \<Rightarrow> kconf \<Rightarrow> bool" where
  "user_is K0 s K \<longleftrightarrow> sym_has_value s K \<and>
     (if s_type (k_sym K0 s) = S_BOOLEAN \<or> s_type (k_sym K0 s) = S_TRISTATE then v_tri (s_def_user (k_sym K s)) = tri_of K0 s
      else \<exists>i. v_val (s_def_user (k_sym K s)) = V_str i (text_of K0 s))"

lemma masked_flag: "m AND f = f \<Longrightarrow> w AND m = w' AND m \<Longrightarrow> w AND f = w' AND f" for f :: u32
  by (metis and.assoc)

lemma names_kept_flag:
  assumes "names_kept K0 K" shows "flag_on t SYMBOL_CONST K = flag_on t SYMBOL_CONST K0" "sym_is_choice_value t K = sym_is_choice_value t K0"
    "sym_is_choice t K = sym_is_choice t K0"
proof -
  have f: "named_flags AND SYMBOL_CONST = SYMBOL_CONST" "named_flags AND SYMBOL_CHOICEVAL = SYMBOL_CHOICEVAL"
      "named_flags AND SYMBOL_CHOICE = SYMBOL_CHOICE"
    by (simp_all add: named_flags_def symbol_flags)
  have w: "s_flags (k_sym K t) AND named_flags = s_flags (k_sym K0 t) AND named_flags" using assms by (simp add: names_kept_def)
  show "flag_on t SYMBOL_CONST K = flag_on t SYMBOL_CONST K0" "sym_is_choice_value t K = sym_is_choice_value t K0"
      "sym_is_choice t K = sym_is_choice t K0"
    using masked_flag [OF f(1) w] masked_flag [OF f(2) w] masked_flag [OF f(3) w]
    by (simp_all add: flag_on_def sym_is_choice_value_def sym_is_choice_def)
qed

lemma names_kept_choice: "names_kept K0 K \<Longrightarrow> choice_of t K = choice_of t K0"
  using names_kept_flag(2) [of K0 K t] by (simp add: choice_of_def sym_get_choice_prop_def names_kept_def)

lemma names_kept_find: "names_kept K0 K \<Longrightarrow> sym_find name K = sym_find name K0"
proof -
  assume k: "names_kept K0 K"
  have n: "sym_name t K = sym_name t K0" for t using k by (simp add: sym_name_def names_kept_def)
  have ch: "hash_chain h K = hash_chain h K0" for h using k n by (simp add: hash_chain_def names_kept_def)
  show ?thesis unfolding sym_find_def n names_kept_flag(1) [OF k] ch by (rule refl)
qed

lemma names_kept_user:
  assumes "names_kept K0 K"
  shows "names_kept K0 (set_flag s SYMBOL_DEF_USER (set_user_tri s v K))" "names_kept K0 (set_flag s SYMBOL_DEF_USER (store_def_user s t K))"
proof -
  have "(w OR SYMBOL_DEF_USER) AND named_flags = w AND named_flags" for w :: u32
    by (rule and_or_zero) (simp add: named_flags_def symbol_flags)
  then show "names_kept K0 (set_flag s SYMBOL_DEF_USER (set_user_tri s v K))" "names_kept K0 (set_flag s SYMBOL_DEF_USER (store_def_user s t K))"
    using assms by (simp_all add: names_kept_def set_flag_def set_user_tri_def store_def_user_def) (simp_all add: upd_sym_def)
qed

lemma has_value_set: "sym_has_value s (set_flag s SYMBOL_DEF_USER K)"
  by (simp add: sym_has_value_def flag_on_def set_flag_def bit.conj_disj_distrib2 or_zero symbol_flags)

lemma user_set:
  "s_type (k_sym K0 s) = S_BOOLEAN \<or> s_type (k_sym K0 s) = S_TRISTATE \<Longrightarrow> v = tri_of K0 s \<Longrightarrow>
    user_is K0 s (set_flag s SYMBOL_DEF_USER (set_user_tri s v K))"
  "s_type (k_sym K0 s) \<noteq> S_BOOLEAN \<Longrightarrow> s_type (k_sym K0 s) \<noteq> S_TRISTATE \<Longrightarrow> t = text_of K0 s \<Longrightarrow>
    user_is K0 s (set_flag s SYMBOL_DEF_USER (store_def_user s t K))"
  by (simp_all add: user_is_def has_value_set) (simp_all add: set_flag_def set_user_tri_def store_def_user_def upd_sym_def)

text \<open>The effect of a line: the setting of one symbol, and no warning.\<close>

definition sets :: "kconf \<Rightarrow> symref \<Rightarrow> conf_reader \<Rightarrow> conf_reader res \<Rightarrow> bool" where
  "sets K0 s R r \<longleftrightarrow> (\<exists>K'. r = Inr (R\<lparr>r_table := K'\<rparr>) \<and> user_is K0 s K' \<and> names_kept K0 K' \<and>
     (\<forall>t. t \<noteq> s \<longrightarrow> k_sym K' t = k_sym (r_table R) t))"

lemma sets_tri:
  assumes "names_kept K0 (r_table R)" and "s_type (k_sym K0 s) = S_BOOLEAN \<or> s_type (k_sym K0 s) = S_TRISTATE"
  shows "sets K0 s R (Inr (on_table (\<lambda>K. set_flag s SYMBOL_DEF_USER (set_user_tri s (tri_of K0 s) K)) R))"
  using names_kept_user(1) [OF assms(1)] user_set(1) [OF assms(2) refl]
  by (auto simp: sets_def on_table_def set_flag_def set_user_tri_def intro!: exI)

lemma sets_str:
  assumes "names_kept K0 (r_table R)" and "s_type (k_sym K0 s) \<noteq> S_BOOLEAN" "s_type (k_sym K0 s) \<noteq> S_TRISTATE"
  shows "sets K0 s R (Inr (on_table (\<lambda>K. set_flag s SYMBOL_DEF_USER (store_def_user s (text_of K0 s) K)) R))"
  using names_kept_user(2) [OF assms(1)] user_set(2) [OF assms(2,3) refl]
  by (auto simp: sets_def on_table_def set_flag_def store_def_user_def upd_sym_def intro!: exI)

lemma take_While_stop: "c \<notin> set xs \<Longrightarrow> takeWhile (\<lambda>d. d \<noteq> c) (xs @ c # ys) = xs \<and> dropWhile (\<lambda>d. d \<noteq> c) (xs @ c # ys) = c # ys"
  by (induction xs) auto

lemma line_value_plain: "CHR 0x0A \<notin> set v \<Longrightarrow> v \<noteq> [] \<and> last v \<noteq> CHR 0x0D \<Longrightarrow> line_value (v @ newline) = v"
  using take_While_stop [of "CHR 0x0A" v "[]"] by (simp add: line_value_def newline_def Let_def)

text \<open>The value of a setting, read for a symbol of its type.\<close>

lemma set_value_read:
  assumes "consistent K0" and "writable K0 s" and "names_kept K0 (r_table R)"
    and "s_type (k_sym K0 s) = S_BOOLEAN \<or> s_type (k_sym K0 s) = S_TRISTATE \<Longrightarrow> tri_of K0 s \<noteq> T_no"
  shows "\<exists>R'. conf_set_sym_val s (value_text K0 s) R = (False, R') \<and> sets K0 s R (Inr R')"
proof -
  have ty: "s_type (k_sym (r_table R) s) = s_type (k_sym K0 s)" using assms(3) by (simp add: names_kept_def)
  show ?thesis
  proof (cases "s_type (k_sym K0 s) = S_BOOLEAN \<or> s_type (k_sym K0 s) = S_TRISTATE")
    case True
    then have "text_of K0 s = tri_name (tri_of K0 s)"
      by (intro three_valued_text [OF assms(1)]) (auto simp: three_valued_def sorts_of_def)
    moreover have "s_type (k_sym K0 s) = S_BOOLEAN \<Longrightarrow> tri_of K0 s \<noteq> T_mod" using assms(1) by (simp add: consistent_def)
    ultimately show ?thesis
      using True assms(4) sets_tri [OF assms(3) True] ty
      by (cases "tri_of K0 s") (auto simp: conf_set_sym_val_def Let_def value_text_def)
  next
    case False
    then have "conf_set_sym_val s (value_text K0 s) R =
        (False, on_table (\<lambda>K. set_flag s SYMBOL_DEF_USER (store_def_user s (text_of K0 s) K)) R)"
      using assms(2) ty unquote_escaped [of "text_of K0 s" "[]"]
      by (auto simp: conf_set_sym_val_def writable_def value_text_def sym_escape_string_value_def Let_def split: symbol_type.splits)
    then show ?thesis using sets_str [OF assms(3)] False by auto
  qed
qed

lemma value_text_ends:
  assumes "consistent K0" and "writable K0 s"
  shows "CHR 0x0A \<notin> set (value_text K0 s)" "value_text K0 s \<noteq> [] \<and> last (value_text K0 s) \<noteq> CHR 0x0D"
proof -
  have "CHR 0x0A \<notin> set (value_text K0 s) \<and> value_text K0 s \<noteq> [] \<and> last (value_text K0 s) \<noteq> CHR 0x0D"
  proof (cases "s_type (k_sym K0 s) = S_STRING")
    case True
    then show ?thesis
      using assms(2) escaped_newline [of "text_of K0 s"]
      by (auto simp: value_text_def sym_escape_string_value_def writable_def)
  next
    case False
    have "plain_chars (text_of K0 s) \<and> text_of K0 s \<noteq> []"
    proof (cases "s_type (k_sym K0 s) = S_BOOLEAN \<or> s_type (k_sym K0 s) = S_TRISTATE")
      case True
      then have "text_of K0 s = tri_name (tri_of K0 s)"
        by (intro three_valued_text [OF assms(1)]) (auto simp: three_valued_def sorts_of_def)
      then show ?thesis by (simp only: tri_name_plain simp_thms)
    next
      case f: False
      then have "s_type (k_sym K0 s) = S_INT \<or> s_type (k_sym K0 s) = S_HEX"
          "sym_string_valid (s_type (k_sym K0 s)) (text_of K0 s)"
        using assms(2) False by (auto simp: writable_def split: symbol_type.splits)
      then show ?thesis using valid_plain by (auto simp: Let_def hex_prefix_def)
    qed
    then have t: "plain_chars (text_of K0 s)" "text_of K0 s \<noteq> []" "last (text_of K0 s) \<in> set (text_of K0 s)" by simp_all
    then have "last (text_of K0 s) \<noteq> CHR 0x0D" unfolding plain_chars_def by metis
    then show ?thesis using False t(1,2) by (simp add: value_text_def plain_chars_def)
  qed
  then show "CHR 0x0A \<notin> set (value_text K0 s)" "value_text K0 s \<noteq> [] \<and> last (value_text K0 s) \<noteq> CHR 0x0D" by auto
qed

text \<open>A prefix of the names that is neither taken for a comment, nor for the words \<^verbatim>\<open>Automatically\<close> and \<^verbatim>\<open>end of\<close> of the comments.\<close>

definition prefix_ok :: "string \<Rightarrow> bool" where
  "prefix_ok pre \<longleftrightarrow> pre \<noteq> [] \<and> hd pre \<notin> {CHR ''#'', CHR ''A'', CHR ''e''} \<and> CHR 0x0A \<notin> set pre"

definition shows_unset :: "kconf \<Rightarrow> symref \<Rightarrow> bool" where
  "shows_unset K s \<longleftrightarrow> (s_type (k_sym K s) = S_BOOLEAN \<or> s_type (k_sym K s) = S_TRISTATE) \<and> tri_of K s = T_no"

lemma line_of_form:
  assumes "consistent K0"
  shows "line_of pre K0 s = (if shows_unset K0 s then ''# '' @ pre @ the (sym_name s K0) @ '' is not set'' @ newline
    else pre @ the (sym_name s K0) @ ''='' @ value_text K0 s @ newline)"
proof (cases "s_type (k_sym K0 s) = S_BOOLEAN \<or> s_type (k_sym K0 s) = S_TRISTATE")
  case True
  then have "text_of K0 s = tri_name (tri_of K0 s)"
    by (intro three_valued_text [OF assms]) (auto simp: three_valued_def sorts_of_def)
  then show ?thesis
    using True by (cases "tri_of K0 s") (auto simp: line_of_def kconfig_print_symbol_def value_text_def shows_unset_def)
qed (auto simp: line_of_def kconfig_print_symbol_def shows_unset_def)

text \<open>
  Choices. While a file is read, a choice has the largest value of those of its symbols that were read. There is no warning when
  a choice of which a symbol is y has every other one at n.
\<close>

definition choices_settled :: "kconf \<Rightarrow> bool" where
  "choices_settled K \<longleftrightarrow> (\<forall>s t cs. s \<noteq> t \<longrightarrow> choice_of s K = Some cs \<longrightarrow> choice_of t K = Some cs \<longrightarrow>
     tri_of K s = T_yes \<longrightarrow> tri_of K t = T_no)"

definition user_tri :: "symref \<Rightarrow> kconf \<Rightarrow> tristate" where
  "user_tri s K = v_tri (s_def_user (k_sym K s))"

definition choices_at :: "kconf \<Rightarrow> symref set \<Rightarrow> kconf \<Rightarrow> bool" where
  "choices_at K0 P K \<longleftrightarrow> (\<forall>cs \<in> set (k_hash K0). sym_is_choice cs K0 \<longrightarrow>
     user_tri cs K = T_no \<or> (\<exists>t \<in> P. choice_of t K0 = Some cs \<and> tri_of K0 t = user_tri cs K))"

lemma choices_at_more: "choices_at K0 P K \<Longrightarrow> P \<subseteq> Q \<Longrightarrow> \<forall>t. sym_is_choice t K0 \<longrightarrow> user_tri t K' = user_tri t K \<Longrightarrow> choices_at K0 Q K'"
  unfolding choices_at_def by fastforce

lemma choice_warnless:
  assumes "choices_settled K0" and "choices_at K0 P K" and "s \<notin> P" and "choice_of s K0 = Some cs" "sym_is_choice cs K0" "cs \<in> set (k_hash K0)"
  shows "tri_of K0 s = T_yes \<Longrightarrow> user_tri cs K = T_no" "tri_of K0 s = T_mod \<Longrightarrow> user_tri cs K \<noteq> T_yes"
proof -
  consider "user_tri cs K = T_no" | t where "t \<in> P" "choice_of t K0 = Some cs" "tri_of K0 t = user_tri cs K"
    using assms(2,5,6) unfolding choices_at_def by blast
  then have "(tri_of K0 s = T_yes \<longrightarrow> user_tri cs K = T_no) \<and> (tri_of K0 s = T_mod \<longrightarrow> user_tri cs K \<noteq> T_yes)"
  proof cases
    case 2
    then have "s \<noteq> t" using assms(3) by auto
    then show ?thesis using assms(1,4) 2 unfolding choices_settled_def by (metis tristate.distinct(1) tristate.distinct(3))
  qed simp
  then show "tri_of K0 s = T_yes \<Longrightarrow> user_tri cs K = T_no" "tri_of K0 s = T_mod \<Longrightarrow> user_tri cs K \<noteq> T_yes" by auto
qed

lemma names_kept_upd: "names_kept K0 K \<Longrightarrow> names_kept K0 (upd_sym cs (\<lambda>x. x\<lparr>s_def_user := f x\<rparr>) K)"
  by (simp add: names_kept_def upd_sym_def)

definition line_reads :: "kconf \<Rightarrow> symref set \<Rightarrow> symref \<Rightarrow> conf_reader \<Rightarrow> conf_reader res \<Rightarrow> bool" where
  "line_reads K0 P s R r \<longleftrightarrow> (\<exists>K'. r = Inr (R\<lparr>r_table := K'\<rparr>) \<and> user_is K0 s K' \<and> names_kept K0 K' \<and>
     choices_at K0 (insert s P) K' \<and> (\<forall>t. t \<noteq> s \<longrightarrow> \<not> sym_is_choice t K0 \<longrightarrow> k_sym K' t = k_sym (r_table R) t))"

lemma note_reads:
  assumes ok: "choices_settled K0" and w: "writable K0 s" and k: "names_kept K0 K" and u: "user_is K0 s K"
    and at: "choices_at K0 P K" and new: "s \<notin> P"
  shows "\<exists>K'. note_choice_value s (R\<lparr>r_table := K\<rparr>) = Inr (R\<lparr>r_table := K'\<rparr>) \<and> user_is K0 s K' \<and> names_kept K0 K' \<and>
    choices_at K0 (insert s P) K' \<and> (\<forall>t. \<not> sym_is_choice t K0 \<longrightarrow> k_sym K' t = k_sym K t)"
proof (cases "sym_is_choice_value s K0")
  case False
  then have "note_choice_value s (R\<lparr>r_table := K\<rparr>) = Inr (R\<lparr>r_table := K\<rparr>)"
    using names_kept_flag(2) [OF k] by (simp add: note_choice_value_def)
  then show ?thesis using k u choices_at_more [OF at, of "insert s P" K] by blast
next
  case True
  then obtain cs where cs: "choice_of s K0 = Some cs" "sym_is_choice cs K0" "cs \<in> set (k_hash K0)"
    using w by (auto simp: writable_def split: option.splits)
  have ty: "s_type (k_sym K0 s) = S_BOOLEAN \<or> s_type (k_sym K0 s) = S_TRISTATE" and ne: "cs \<noteq> s"
    using w True cs(2) by (auto simp: writable_def)
  have v: "user_tri s K = tri_of K0 s" using u ty by (simp add: user_is_def user_tri_def)
  obtain p where p: "sym_get_choice_prop s K = Some p" "prop_get_symbol p = Some cs"
    using cs(1) names_kept_choice [OF k, of s] names_kept_flag(2) [OF k, of s] True by (auto simp: choice_of_def bind_eq_Some_conv)
  note nw = choice_warnless [OF ok at new cs]
  let ?j = "EXPR_OR (user_tri cs K) (tri_of K0 s)"
  define K' where "K' = upd_sym cs (\<lambda>x. x\<lparr>s_def_user := (if tri_of K0 s = T_yes then (s_def_user x)\<lparr>v_val := V_sym s, v_tri := ?j\<rparr>
    else (s_def_user x)\<lparr>v_tri := ?j\<rparr>)\<rparr>) K"
  have nt: "note_choice_value s (R\<lparr>r_table := K\<rparr>) = Inr (R\<lparr>r_table := K'\<rparr>)"
    using True names_kept_flag(2) [OF k, of s] p v nw ne
    by (cases "tri_of K0 s")
      (simp_all add: note_choice_value_def deref_def Let_def on_table_def set_user_tri_def upd_sym_def user_tri_def K'_def)
  have same: "k_sym K' t = k_sym K t" if "t \<noteq> cs" for t using that by (simp add: K'_def upd_sym_def)
  have tri: "user_tri cs K' = ?j" by (simp add: K'_def upd_sym_def user_tri_def)
  have "choices_at K0 (insert s P) K'"
    unfolding choices_at_def
  proof (intro ballI impI)
    fix t assume t: "t \<in> set (k_hash K0)" "sym_is_choice t K0"
    then have at_t: "user_tri t K = T_no \<or> (\<exists>x \<in> P. choice_of x K0 = Some t \<and> tri_of K0 x = user_tri t K)"
      using at by (auto simp: choices_at_def)
    show "user_tri t K' = T_no \<or> (\<exists>x \<in> insert s P. choice_of x K0 = Some t \<and> tri_of K0 x = user_tri t K')"
    proof (cases "t = cs")
      case True
      have "?j = user_tri cs K \<or> ?j = tri_of K0 s" by (simp add: EXPR_OR_def)
      then show ?thesis using at_t cs(1) tri True by auto
    next
      case False
      then show ?thesis using at_t same by (auto simp: user_tri_def)
    qed
  qed
  moreover have "names_kept K0 K'" unfolding K'_def by (rule names_kept_upd [OF k])
  moreover have "user_is K0 s K'" using u same [OF ne [symmetric]] by (simp add: user_is_def sym_has_value_def flag_on_def)
  moreover have "\<forall>t. \<not> sym_is_choice t K0 \<longrightarrow> k_sym K' t = k_sym K t" using same cs(2) by metis
  ultimately show ?thesis using nt by blast
qed

lemma line_read_back:
  assumes c: "consistent K0" and w: "writable K0 s" and k: "names_kept K0 (r_table R)" and pre: "prefix_ok pre"
    and u: "\<not> sym_has_value s (r_table R)" and ok: "choices_settled K0" and at: "choices_at K0 P (r_table R)" and new: "s \<notin> P"
  shows "line_reads K0 P s R (read_line pre (line_of pre K0 s) R)"
proof -
  obtain name where name: "sym_name s K0 = Some name" "sym_find name K0 = Some s" "CHR ''='' \<notin> set name" "CHR '' '' \<notin> set name"
    using w by (auto simp: writable_def)
  have find: "sym_find name (r_table R) = Some s" using names_kept_find [OF k] name(2) by simp
  have ty: "s_type (k_sym (r_table R) s) = s_type (k_sym K0 s)" using k by (simp add: names_kept_def)
  have ov: "override_warning s R = R" using u by (simp add: override_warning_def)
  have nch: "\<not> sym_is_choice s K0" using w by (simp add: writable_def)
  have step: "line_reads K0 P s R (bindE r (note_choice_value s))" if st: "sets K0 s R r" for r
  proof -
    obtain K1 where K1: "r = Inr (R\<lparr>r_table := K1\<rparr>)" "user_is K0 s K1" "names_kept K0 K1"
        "\<forall>t. t \<noteq> s \<longrightarrow> k_sym K1 t = k_sym (r_table R) t"
      using st by (auto simp: sets_def)
    have "choices_at K0 P K1"
      by (rule choices_at_more [OF at subset_refl]) (use K1(4) nch in \<open>auto simp: user_tri_def\<close>)
    from note_reads [OF ok w K1(3,2) this new, of R] K1(1,4) show ?thesis by (auto simp: line_reads_def)
  qed
  show ?thesis
  proof (cases "shows_unset K0 s")
    case True
    then have t: "s_type (k_sym K0 s) = S_BOOLEAN \<or> s_type (k_sym K0 s) = S_TRISTATE" "tri_of K0 s = T_no"
      by (simp_all add: shows_unset_def)
    have line: "line_of pre K0 s = ''# '' @ pre @ name @ '' is not set'' @ newline"
      using True name(1) by (simp add: line_of_form [OF c])
    have "read_line pre (line_of pre K0 s) R =
        note_choice_value s (on_table (\<lambda>K. set_flag s SYMBOL_DEF_USER (set_user_tri s T_no K)) R)"
      using take_While_stop [OF name(4), of "''is not set'' @ newline"] find ov t(1) ty
      by (auto simp: line read_line_def read_unset_def Let_def newline_def)
    then show ?thesis using step [OF sets_tri [OF k t(1)]] t(2) by simp
  next
    case False
    have line: "line_of pre K0 s = pre @ name @ CHR ''='' # value_text K0 s @ newline"
      using False name(1) by (simp add: line_of_form [OF c])
    have h: "take 1 (line_of pre K0 s) \<noteq> ''#''" unfolding line using pre by (cases pre) (auto simp: prefix_ok_def)
    obtain R' where R': "conf_set_sym_val s (value_text K0 s) R = (False, R')" "sets K0 s R (Inr R')"
      using set_value_read [OF c w k] False by (auto simp: shows_unset_def)
    have "read_line pre (line_of pre K0 s) R = note_choice_value s R'"
      using h take_While_stop [OF name(3), of "value_text K0 s @ newline"] find ov R'(1) line_value_plain [OF value_text_ends [OF c w]]
      by (auto simp: line read_line_def read_setting_def Let_def)
    then show ?thesis using step [OF R'(2)] by simp
  qed
qed

section \<open>The text of all symbols\<close>

lemma file_lines_line: "CHR 0x0A \<notin> set l \<Longrightarrow> file_lines (l @ newline @ r) = (l @ newline) # file_lines r"
  by (induction l) (auto simp: newline_def)

lemma line_of_newline:
  assumes "consistent K0" and "writable K0 s" and "prefix_ok pre"
  obtains l where "line_of pre K0 s = l @ newline" "CHR 0x0A \<notin> set l"
proof -
  have "CHR 0x0A \<notin> set (the (sym_name s K0))" using assms(2) by (auto simp: writable_def)
  then show ?thesis
    using that [of "if shows_unset K0 s then ''# '' @ pre @ the (sym_name s K0) @ '' is not set''
        else pre @ the (sym_name s K0) @ ''='' @ value_text K0 s"]
      assms(3) value_text_ends [OF assms(1,2)]
    by (simp add: line_of_form [OF assms(1)] prefix_ok_def)
qed

text \<open>
  A file is a list of items: a line that has no effect on the reader, or the line of a symbol. The symbols of an item list are
  \<open>written\<close>.
\<close>

fun item_text :: "string \<Rightarrow> kconf \<Rightarrow> string + symref \<Rightarrow> string" where
  "item_text pre K (Inl l) = l"
| "item_text pre K (Inr s) = line_of pre K s"

fun written :: "(string + symref) list \<Rightarrow> symref list" where
  "written [] = []"
| "written (Inl l # its) = written its"
| "written (Inr s # its) = s # written its"

lemma written_append [simp]: "written (a @ b) = written a @ written b"
  by (induction a rule: written.induct) simp_all

definition idle_line :: "string \<Rightarrow> string \<Rightarrow> bool" where
  "idle_line pre l \<longleftrightarrow> (\<exists>x. l = x @ newline \<and> CHR 0x0A \<notin> set x) \<and> (\<forall>R. read_line pre l R = Inr R)"

fun item_ok :: "string \<Rightarrow> kconf \<Rightarrow> string + symref \<Rightarrow> bool" where
  "item_ok pre K (Inl l) = idle_line pre l"
| "item_ok pre K (Inr s) = writable K s"

lemma item_line:
  assumes "consistent K0" and "prefix_ok pre" and "item_ok pre K0 it"
  obtains l where "item_text pre K0 it = l @ newline" "CHR 0x0A \<notin> set l"
  using assms by (cases it) (auto simp: idle_line_def elim: line_of_newline)

lemma file_lines_written:
  "consistent K0 \<Longrightarrow> prefix_ok pre \<Longrightarrow> \<forall>it \<in> set its. item_ok pre K0 it \<Longrightarrow>
    file_lines (concat (map (item_text pre K0) its)) = map (item_text pre K0) its"
proof (induction its)
  case (Cons it its)
  obtain l where "item_text pre K0 it = l @ newline" "CHR 0x0A \<notin> set l"
    using item_line [OF Cons.prems(1,2)] Cons.prems(3) by auto
  then show ?case using Cons file_lines_line by simp
qed simp

lemma user_same: "k_sym K' s = k_sym K s \<Longrightarrow> user_is K0 s K' = user_is K0 s K \<and> sym_has_value s K' = sym_has_value s K"
  by (simp add: user_is_def sym_has_value_def flag_on_def)

lemma written_writable: "\<forall>it \<in> set its. item_ok pre K0 it \<Longrightarrow> s \<in> set (written its) \<Longrightarrow> writable K0 s"
  by (induction its rule: written.induct) auto

lemma read_all:
  assumes c: "consistent K0" and pre: "prefix_ok pre" and ok: "choices_settled K0"
  shows "distinct (written its) \<Longrightarrow> \<forall>it \<in> set its. item_ok pre K0 it \<Longrightarrow> \<forall>s \<in> set (written its). \<not> sym_has_value s (r_table R) \<Longrightarrow>
    names_kept K0 (r_table R) \<Longrightarrow> choices_at K0 P (r_table R) \<Longrightarrow> P \<inter> set (written its) = {} \<Longrightarrow>
    \<exists>K'. read_lines pre (map (item_text pre K0) its) R = Inr (R\<lparr>r_table := K'\<rparr>) \<and> (\<forall>s \<in> set (written its). user_is K0 s K') \<and>
      (\<forall>t. t \<notin> set (written its) \<longrightarrow> \<not> sym_is_choice t K0 \<longrightarrow> k_sym K' t = k_sym (r_table R) t)"
proof (induction its arbitrary: R P rule: written.induct)
  case 1
  show ?case by (rule exI [of _ "r_table R"]) simp
next
  case (2 l its)
  then show ?case by (auto simp: idle_line_def)
next
  case (3 s its)
  obtain K1 where K1: "read_line pre (line_of pre K0 s) R = Inr (R\<lparr>r_table := K1\<rparr>)" "user_is K0 s K1" "names_kept K0 K1"
      "\<forall>t. t \<noteq> s \<longrightarrow> \<not> sym_is_choice t K0 \<longrightarrow> k_sym K1 t = k_sym (r_table R) t" "choices_at K0 (insert s P) K1"
    using line_read_back [OF c _ "3.prems"(4) pre _ ok "3.prems"(5), of s] "3.prems"(2,3,6) by (auto simp: line_reads_def)
  have nch: "\<not> sym_is_choice t K0" if "t \<in> set (written (Inr s # its))" for t
    using written_writable [OF "3.prems"(2) that] by (simp add: writable_def)
  have "\<not> sym_has_value t K1" if "t \<in> set (written its)" for t
  proof -
    have "t \<noteq> s" "\<not> sym_has_value t (r_table R)" "\<not> sym_is_choice t K0" using "3.prems"(1,3) nch [of t] that by auto
    then show ?thesis using K1(4) user_same [of K1 t "r_table R"] by auto
  qed
  then obtain K' where K': "read_lines pre (map (item_text pre K0) its) (R\<lparr>r_table := K1\<rparr>) = Inr (R\<lparr>r_table := K'\<rparr>)"
      "\<forall>t \<in> set (written its). user_is K0 t K'"
      "\<forall>t. t \<notin> set (written its) \<longrightarrow> \<not> sym_is_choice t K0 \<longrightarrow> k_sym K' t = k_sym K1 t"
    using "3.IH" [of "R\<lparr>r_table := K1\<rparr>" "insert s P"] "3.prems"(1,2,6) K1(3,5) by auto
  have "user_is K0 s K'" using K'(3) K1(2) "3.prems"(1) nch [of s] user_same [of K' s K1] by simp
  then show ?case using K1 K' by (auto intro!: exI [of _ K'])
qed

lemma reset_kept:
  assumes "names_kept K0 K" shows "names_kept K0 (reset_setting t K)"
proof -
  have 1: "(w OR SYMBOL_CHANGED) AND named_flags = w AND named_flags" "(w OR SYMBOL_DEF_USER) AND named_flags = w AND named_flags"
      "(w AND NOT (SYMBOL_DEF_USER OR SYMBOL_VALID)) AND named_flags = w AND named_flags" for w :: u32
    by (rule and_or_zero and_not_disjoint, simp add: named_flags_def symbol_flags)+
  show ?thesis
    using assms 1 by (simp add: names_kept_def reset_setting_def Let_def clear_flag_def) (simp add: upd_sym_def set_flag_def)
qed

lemma reset_other: "t \<noteq> s \<Longrightarrow> k_sym (reset_setting t K) s = k_sym K s"
  by (simp add: reset_setting_def Let_def clear_flag_def set_flag_def)

lemma and_zero_bit: "a AND b = 0 \<Longrightarrow> bit a k \<Longrightarrow> \<not> bit b k" for a b :: u32
  by (metis bit_0_eq bit_and_iff bot_apply bot_bool_def)

lemma flags_disjoint: "SYMBOL_CHANGED AND SYMBOL_CHOICE = 0" "SYMBOL_DEF_USER AND SYMBOL_CHOICE = 0" "SYMBOL_VALID AND SYMBOL_CHOICE = 0"
  by (simp_all add: symbol_flags)

lemma reset_this:
  assumes "\<not> sym_is_choice s K" shows "\<not> sym_has_value s (reset_setting s K)"
proof -
  have 1: "(w OR SYMBOL_CHANGED) AND NOT (SYMBOL_DEF_USER OR SYMBOL_VALID) AND SYMBOL_DEF_USER = 0"
      "(w OR SYMBOL_CHANGED) AND NOT (SYMBOL_DEF_USER OR SYMBOL_VALID) AND SYMBOL_CHOICE = w AND SYMBOL_CHOICE" for w :: u32
  proof -
    have "bit SYMBOL_CHANGED k \<Longrightarrow> \<not> bit SYMBOL_CHOICE k" "bit SYMBOL_DEF_USER k \<Longrightarrow> \<not> bit SYMBOL_CHOICE k"
        "bit SYMBOL_VALID k \<Longrightarrow> \<not> bit SYMBOL_CHOICE k" for k
      using and_zero_bit flags_disjoint by blast+
    then show "(w OR SYMBOL_CHANGED) AND NOT (SYMBOL_DEF_USER OR SYMBOL_VALID) AND SYMBOL_DEF_USER = 0"
        "(w OR SYMBOL_CHANGED) AND NOT (SYMBOL_DEF_USER OR SYMBOL_VALID) AND SYMBOL_CHOICE = w AND SYMBOL_CHOICE"
      by (auto intro!: bit_word_eqI simp: bit_and_iff bit_or_iff bit_not_iff)
  qed
  then show ?thesis
    using assms by (simp add: reset_setting_def Let_def sym_has_value_def sym_is_choice_def flag_on_def clear_flag_def set_flag_def and.assoc)
qed

lemma reset_all:
  "names_kept K0 K \<Longrightarrow> \<not> sym_is_choice s K0 \<Longrightarrow> names_kept K0 (fold reset_setting ts K) \<and>
    (s \<in> set ts \<or> \<not> sym_has_value s K \<longrightarrow> \<not> sym_has_value s (fold reset_setting ts K))"
proof (induction ts arbitrary: K)
  case (Cons t ts)
  have "\<not> sym_has_value s (reset_setting t K)" if "s = t \<or> \<not> sym_has_value s K"
  proof (cases "s = t")
    case True
    then show ?thesis using reset_this names_kept_flag(3) [OF Cons.prems(1)] Cons.prems(2) by metis
  next
    case False
    then show ?thesis using that reset_other [of t s K] by (simp add: sym_has_value_def flag_on_def)
  qed
  then show ?case using Cons.IH [OF reset_kept [OF Cons.prems(1)] Cons.prems(2), of t] by auto
qed simp

text \<open>Reading a text written for one table into another one with the same symbols.\<close>

lemma reset_tri: "s \<in> set ts \<or> user_tri s K = T_no \<Longrightarrow> user_tri s (fold reset_setting ts K) = T_no"
proof (induction ts arbitrary: K)
  case (Cons t ts)
  have "user_tri t (reset_setting t K) = T_no" by (simp add: user_tri_def reset_setting_def Let_def upd_sym_def)
  then have "s \<in> set ts \<or> user_tri s (reset_setting t K) = T_no"
    using Cons.prems reset_other [of t s K] by (cases "s = t") (auto simp: user_tri_def)
  then show ?case using Cons.IH by simp
qed simp

lemma read_written:
  assumes "consistent K0" and "prefix_ok pre" and "distinct (written its)" and "\<forall>it \<in> set its. item_ok pre K0 it" and "names_kept K0 K"
    and "choices_settled K0"
  shows "\<exists>R. conf_read_simple pre (concat (map (item_text pre K0) its)) K = Inr R \<and> r_warnings R = 0 \<and>
    (\<forall>s \<in> set (written its). user_is K0 s (r_table R))"
proof -
  let ?R = "\<lparr>r_table = fold reset_setting (k_hash K) K, r_warnings = 0\<rparr>"
  have h: "k_hash K = k_hash K0" using assms(5) by (simp add: names_kept_def)
  have 1: "names_kept K0 (fold reset_setting ts K)" for ts
    using assms(5) by (induction ts arbitrary: K) (simp_all add: reset_kept)
  have 2: "\<not> sym_has_value s (fold reset_setting (k_hash K) K)" if "s \<in> set (written its)" for s
    using written_writable [OF assms(4) that] reset_all [OF assms(5), of s] h by (auto simp: writable_def)
  have 3: "choices_at K0 {} (fold reset_setting (k_hash K) K)"
    using reset_tri [of _ "k_hash K" K] h by (simp add: choices_at_def)
  obtain K' where "read_lines pre (map (item_text pre K0) its) ?R = Inr (?R\<lparr>r_table := K'\<rparr>)" "\<forall>s \<in> set (written its). user_is K0 s K'"
    using read_all [OF assms(1,2,6,3,4), of ?R "{}"] 1 2 3 by auto
  then show ?thesis
    using file_lines_written [OF assms(1,2,4)] by (simp add: conf_read_simple_def)
qed

end
