(* ===== verification/KMenuProps.thy ===== *)
theory KMenuProps
  imports KMenu KConfProps
begin

text \<open>
  The text \<^verbatim>\<open>conf_write\<close> writes for a tree of menus: lines that have no effect on the reader, and one line for each symbol to be
  written, however often it appears in the menus. So what is written is read back.
\<close>

unbundle bit_operations_syntax

section \<open>Lines without effect\<close>

definition title_ok :: "string \<Rightarrow> string \<Rightarrow> bool" where
  "title_ok pre t \<longleftrightarrow> CHR 0x0A \<notin> set t \<and> take (length pre) t \<noteq> pre"

lemma title_ok_take: "title_ok pre t \<Longrightarrow> title_ok pre (take n t)"
proof -
  assume t: "title_ok pre t"
  have "take (length pre) t = pre" if "take (length pre) (take n t) = pre"
  proof -
    from that have "length pre \<le> n" by (metis length_take min.cobounded1 min.cobounded2 take_take le_trans)
    with that show ?thesis by (simp add: min_def)
  qed
  with t show ?thesis by (auto simp: title_ok_def dest: in_set_takeD)
qed

lemma idle_comment:
  assumes "title_ok pre t" and "prefix_ok pre"
  shows "idle_line pre (''# '' @ t @ newline)"
proof -
  have "take (length pre) (t @ newline) \<noteq> pre"
  proof (cases "length pre \<le> length t")
    case True
    then show ?thesis using assms(1) by (simp add: title_ok_def)
  next
    case False
    then have "take (length pre) (t @ newline) = t @ newline" by (simp add: newline_def)
    then show ?thesis using assms(2) by (auto simp: prefix_ok_def newline_def)
  qed
  then have "read_line pre (''# '' @ t @ newline) R = Inr R" for R
    by (simp add: read_line_def read_unset_def Let_def)
  then show ?thesis using assms(1) by (auto simp: idle_line_def title_ok_def intro: exI [of _ "''# '' @ t"])
qed

lemma idle_hash: "prefix_ok pre \<Longrightarrow> idle_line pre (''#'' @ newline)"
  by (auto simp: idle_line_def read_line_def read_unset_def Let_def newline_def prefix_ok_def)

lemma idle_blank: "prefix_ok pre \<Longrightarrow> idle_line pre newline"
  by (cases pre) (auto simp: idle_line_def read_line_def newline_def prefix_ok_def)

lemma title_ok_end: "prefix_ok pre \<Longrightarrow> title_ok pre t \<Longrightarrow> title_ok pre (''end of '' @ t)"
  by (cases pre) (auto simp: title_ok_def prefix_ok_def)

text \<open>The heading.\<close>

lemma comment_lines_first: "comment_lines v \<noteq> [] \<and> hd (comment_lines v) = takeWhile (\<lambda>c. c \<noteq> CHR 0x0A) v"
  by (induction v) (auto split: list.splits)

lemma comment_lines_append: "CHR 0x0A \<notin> set x \<Longrightarrow> comment_lines (x @ CHR 0x0A # r) = x # comment_lines r"
  by (induction x) auto

lemma takeWhile_take: "takeWhile P (take m xs) = take m (takeWhile P xs)"
  by (induction xs arbitrary: m) (auto simp: take_Cons split: nat.split)

lemma comment_lines_split: "comment_lines v = takeWhile (\<lambda>c. c \<noteq> CHR 0x0A) v # tl (comment_lines v)"
  using comment_lines_first [of v] by (metis list.collapse)

lemma comment_lines_later: "l \<in> set (tl (comment_lines (take n v))) \<Longrightarrow> \<exists>l' \<in> set (tl (comment_lines v)). \<exists>k. l = take k l'"
proof (induction v arbitrary: n)
  case (Cons c v)
  show ?case
  proof (cases n)
    case (Suc m)
    have s: "comment_lines (take m v) = take m (takeWhile (\<lambda>c. c \<noteq> CHR 0x0A) v) # tl (comment_lines (take m v))"
      "comment_lines v = takeWhile (\<lambda>c. c \<noteq> CHR 0x0A) v # tl (comment_lines v)"
      using comment_lines_split [of "take m v"] comment_lines_split [of v] by (simp_all add: takeWhile_take)
    show ?thesis
    proof (cases "c = CHR 0x0A")
      case True
      then have "l \<in> set (comment_lines (take m v))" using Cons.prems Suc by simp
      then show ?thesis using Cons.IH True s by (metis comment_lines.simps(2) list.sel(3) list.set_intros set_ConsD)
    next
      case False
      have "tl (comment_lines (c # w)) = tl (comment_lines w)" for w using False by (auto split: list.splits)
      then show ?thesis using Cons Suc by simp
    qed
  qed (use Cons.prems in simp)
qed simp

lemma comment_lines_take:
  assumes "l \<in> set (comment_lines (take n v))"
  obtains l' k where "l' \<in> set (comment_lines v)" "l = take k l'"
proof -
  consider "l = take n (takeWhile (\<lambda>c. c \<noteq> CHR 0x0A) v)" | "l \<in> set (tl (comment_lines (take n v)))"
    using assms comment_lines_split [of "take n v"] by (metis set_ConsD takeWhile_take)
  then show thesis
    using comment_lines_later [of l n v] comment_lines_split [of v] that by cases (metis list.set_intros)+
qed

lemma written_idle: "written (map (\<lambda>l. Inl (f l)) ls) = []"
  by (induction ls) simp_all

lemma heading_items:
  assumes "prefix_ok pre" and "title_ok pre title"
  obtains its where "conf_write_heading kconfig_print_comment (Text_menu (Some (title, c)) v ms) = Inr (concat (map (item_text pre K) its))"
    "\<forall>it \<in> set its. item_ok pre K it" "written its = []"
proof -
  let ?v = "newline @ ''Automatically generated file; DO NOT EDIT.'' @ newline @ title @ newline"
  let ?its = "map (\<lambda>l. Inl (''#'' @ (if l = [] then '''' else '' '' @ l) @ newline)) (comment_lines (take 255 ?v)) :: (string + symref) list"
  have "title_ok pre ''Automatically generated file; DO NOT EDIT.''"
    using assms(1) by (cases pre) (auto simp: title_ok_def prefix_ok_def)
  moreover have "title_ok pre []" using assms(1) by (auto simp: title_ok_def prefix_ok_def)
  moreover have "comment_lines ?v = [[], ''Automatically generated file; DO NOT EDIT.'', title, []]"
  proof -
    have "comment_lines (newline @ x @ newline @ title @ newline) = [[], x, title, []]" if "CHR 0x0A \<notin> set x" for x
      using comment_lines_append [OF that, of "title @ newline"] comment_lines_append [of title "[]"] assms(2)
      by (simp add: newline_def title_ok_def)
    then show ?thesis by this simp
  qed
  ultimately have "\<forall>l \<in> set (comment_lines ?v). title_ok pre l" using assms(2) by simp
  then have t: "title_ok pre l" if "l \<in> set (comment_lines (take 255 ?v))" for l
    using comment_lines_take [OF that] title_ok_take by metis
  have "idle_line pre (''#'' @ (if l = [] then '''' else '' '' @ l) @ newline)" if "title_ok pre l" for l
    using idle_comment [OF that assms(1)] idle_hash [OF assms(1)] by simp
  then have "\<forall>it \<in> set ?its. item_ok pre K it" using t by auto
  moreover have "written ?its = []" by (rule written_idle)
  moreover have "concat (map (item_text pre K) ?its) = kconfig_print_comment (take 255 ?v)"
    by (simp add: kconfig_print_comment_def comment_text_def comp_def)
  ultimately show thesis using that [of ?its] by (simp add: conf_write_heading_def)
qed

section \<open>While the configuration is written\<close>

text \<open>While the symbols are written, only their marks change; those of \<open>W\<close> have been written.\<close>

definition written_from :: "kconf \<Rightarrow> symref set \<Rightarrow> kconf \<Rightarrow> bool" where
  "written_from K0 W K \<longleftrightarrow> k_modules_sym K = k_modules_sym K0 \<and> (\<forall>t. flag_on t SYMBOL_WRITTEN K \<longleftrightarrow> t \<in> W) \<and>
     (\<forall>t. \<exists>f. k_sym K t = (k_sym K0 t)\<lparr>s_flags := f\<rparr> \<and> f AND NOT SYMBOL_WRITTEN = s_flags (k_sym K0 t) AND NOT SYMBOL_WRITTEN)"

lemma written_refl: "\<forall>t. \<not> flag_on t SYMBOL_WRITTEN K \<Longrightarrow> written_from K {} K"
  unfolding written_from_def by (metis empty_iff symbol.surjective symbol.update_convs(6))

lemma written_mark:
  assumes w: "written_from K0 W K" shows "written_from K0 (insert s W) (set_flag s SYMBOL_WRITTEN K)"
proof -
  have a: "(f OR SYMBOL_WRITTEN) AND NOT SYMBOL_WRITTEN = f AND NOT SYMBOL_WRITTEN" "(f OR SYMBOL_WRITTEN) AND SYMBOL_WRITTEN \<noteq> 0" for f :: u32
    by (rule bit_word_eqI, auto simp: bit_and_iff bit_or_iff bit_not_iff, simp add: bit.conj_disj_distrib2 or_zero SYMBOL_WRITTEN_def)
  show ?thesis
    unfolding written_from_def
  proof (intro conjI allI)
    show "k_modules_sym (set_flag s SYMBOL_WRITTEN K) = k_modules_sym K0"
      using w by (simp add: written_from_def set_flag_def upd_sym_def)
    fix t
    show "flag_on t SYMBOL_WRITTEN (set_flag s SYMBOL_WRITTEN K) \<longleftrightarrow> t \<in> insert s W"
      using w a(2) by (cases "t = s") (auto simp: written_from_def flag_on_def set_flag_def)
    obtain f where "k_sym K t = (k_sym K0 t)\<lparr>s_flags := f\<rparr>" "f AND NOT SYMBOL_WRITTEN = s_flags (k_sym K0 t) AND NOT SYMBOL_WRITTEN"
      using w by (auto simp: written_from_def)
    then show "\<exists>f. k_sym (set_flag s SYMBOL_WRITTEN K) t = (k_sym K0 t)\<lparr>s_flags := f\<rparr> \<and>
        f AND NOT SYMBOL_WRITTEN = s_flags (k_sym K0 t) AND NOT SYMBOL_WRITTEN"
      by (cases "t = s") (auto simp: set_flag_def a(1))
  qed
qed

lemma written_reads:
  assumes "written_from K0 W K"
  shows "text_of K t = text_of K0 t" "s_type (k_sym K t) = s_type (k_sym K0 t)" "sym_name t K = sym_name t K0"
    "calculated K t = calculated K0 t" "sym_is_choice t K = sym_is_choice t K0" "flag_on t SYMBOL_WRITE K = flag_on t SYMBOL_WRITE K0"
    "flag_on t SYMBOL_VALID K = flag_on t SYMBOL_VALID K0" "k_modules_sym K = k_modules_sym K0"
    "flag_on t SYMBOL_WRITTEN K \<longleftrightarrow> t \<in> W"
proof -
  have w: "\<exists>f. k_sym K t = (k_sym K0 t)\<lparr>s_flags := f\<rparr> \<and>
     f AND NOT SYMBOL_WRITTEN = s_flags (k_sym K0 t) AND NOT SYMBOL_WRITTEN" for t
    using assms by (simp add: written_from_def)
  then have f: "s_type (k_sym K t) = s_type (k_sym K0 t)" "s_curr (k_sym K t) = s_curr (k_sym K0 t)" "s_name (k_sym K t) = s_name (k_sym K0 t)"
    "s_flags (k_sym K t) AND NOT SYMBOL_WRITTEN = s_flags (k_sym K0 t) AND NOT SYMBOL_WRITTEN" for t
    by (metis symbol.select_convs symbol.surjective symbol.update_convs(6))+
  show m: "k_modules_sym K = k_modules_sym K0" using assms by (simp add: written_from_def)
  have tri: "tri_of K u = tri_of K0 u" for u by (simp add: tri_of_def sym_get_tristate_value_def f)
  show "text_of K t = text_of K0 t" unfolding text_of_def tri m f by (rule refl)
  show "s_type (k_sym K t) = s_type (k_sym K0 t)" "sym_name t K = sym_name t K0" by (simp_all add: f sym_name_def)
  have g: "flag_on t g K = flag_on t g K0" if "NOT SYMBOL_WRITTEN AND g = g" for g
    using masked_flag [OF that f(4) [of t]] by (simp add: flag_on_def)
  show v: "flag_on t SYMBOL_VALID K = flag_on t SYMBOL_VALID K0" "flag_on t SYMBOL_WRITE K = flag_on t SYMBOL_WRITE K0"
    "sym_is_choice t K = sym_is_choice t K0"
    unfolding sym_is_choice_def by (rule g, simp add: SYMBOL_WRITTEN_def symbol_flags)+
  show "calculated K t = calculated K0 t" unfolding calculated_def v f by (rule refl)
  show "flag_on t SYMBOL_WRITTEN K \<longleftrightarrow> t \<in> W" using assms by (simp add: written_from_def)
qed

text \<open>Where everything is calculated, asking whether a menu is visible changes nothing.\<close>

lemma text_menu_visible:
  assumes "\<forall>t. calculated K t"
  shows "\<exists>b. menu_is_visible (sym_calc_value (Suc n)) (Text_menu p v ms) K = Inr (b, K) \<and> (b \<longrightarrow> p \<noteq> None)"
proof -
  have e: "\<exists>t. expr_calc_value (sym_calc_value (Suc n)) e K = Inr (t, K)" for e
  proof (cases e)
    case None
    then show ?thesis by (simp add: expr_calc_value_def)
  next
    case (Some x)
    then show ?thesis using expr_value_read [of K x n] assms by auto
  qed
  obtain t where "visibility_holds (sym_calc_value (Suc n)) v K = Inr (t, K)"
    using e [of v] by (cases v) (auto simp: visibility_holds_def)
  moreover have "\<exists>t. expr_calc_value (sym_calc_value (Suc n)) c K = Inr (t, K)" for c by (rule e)
  ultimately show ?thesis
    by (cases p; cases t) (auto, metis (lifting) bindE_Inr prod.case)
qed

section \<open>The text of the menus\<close>

text \<open>
  What has been written by a part of \<^verbatim>\<open>conf_write\<close>: items that can be read, with new symbols; those of \<open>S\<close> are written, by now.
\<close>

definition writes :: "string \<Rightarrow> kconf \<Rightarrow> symref set \<Rightarrow> symref set \<Rightarrow> (string \<times> bool \<times> kconf) res \<Rightarrow> bool" where
  "writes pre K0 S W r \<longleftrightarrow> (\<exists>its nl K. r = Inr (concat (map (item_text pre K0) its), nl, K) \<and>
     written_from K0 (W \<union> set (written its)) K \<and> distinct (written its) \<and> set (written its) \<inter> W = {} \<and>
     (\<forall>it \<in> set its. item_ok pre K0 it) \<and> S \<subseteq> W \<union> set (written its))"

lemma writes_items:
  assumes "written_from K0 (W \<union> set (written its)) K" and "distinct (written its)" and "set (written its) \<inter> W = {}"
    and "\<forall>it \<in> set its. item_ok pre K0 it" and "S \<subseteq> W \<union> set (written its)" and "text = concat (map (item_text pre K0) its)"
  shows "writes pre K0 S W (Inr (text, nl, K))"
  using assms unfolding writes_def by blast

lemma writes_idle: "written_from K0 W K \<Longrightarrow> S \<subseteq> W \<Longrightarrow> \<forall>l \<in> set ls. idle_line pre l \<Longrightarrow> text = concat ls \<Longrightarrow>
    writes pre K0 S W (Inr (text, nl, K))"
  using written_idle [of "\<lambda>l. l" ls] by (intro writes_items [where its = "map Inl ls"]) (auto simp: comp_def)

lemma then_writes:
  assumes "writes pre K0 S W r"
    and "\<And>W' nl K. W \<subseteq> W' \<Longrightarrow> written_from K0 W' K \<Longrightarrow> writes pre K0 S' W' (g nl K)"
  shows "writes pre K0 (S \<union> S') W (then_write r g)"
proof -
  obtain its nl K where r: "r = Inr (concat (map (item_text pre K0) its), nl, K)" "written_from K0 (W \<union> set (written its)) K"
      "distinct (written its)" "set (written its) \<inter> W = {}" "\<forall>it \<in> set its. item_ok pre K0 it" "S \<subseteq> W \<union> set (written its)"
    using assms(1) unfolding writes_def by blast
  obtain its' nl' K' where g: "g nl K = Inr (concat (map (item_text pre K0) its'), nl', K')"
      "written_from K0 (W \<union> set (written its) \<union> set (written its')) K'"
      "distinct (written its')" "set (written its') \<inter> (W \<union> set (written its)) = {}" "\<forall>it \<in> set its'. item_ok pre K0 it"
      "S' \<subseteq> W \<union> set (written its) \<union> set (written its')"
    using assms(2) [OF _ r(2), of nl] unfolding writes_def by blast
  have "then_write r g = Inr (concat (map (item_text pre K0) its) @ concat (map (item_text pre K0) its'), nl', K')"
    by (simp add: then_write_def r(1) g(1))
  then show ?thesis
    using r g by (auto intro!: writes_items [where its = "its @ its'"] simp: Un_assoc)
qed

text \<open>The menus: the symbols to be written can be, and the titles are not like the name of a symbol.\<close>

fun menu_ok :: "string \<Rightarrow> kconf \<Rightarrow> menu \<Rightarrow> bool" where
  "menu_ok pre K (Sym_menu s p v ms) \<longleftrightarrow>
     (sym_is_choice s K \<or> \<not> flag_on s SYMBOL_WRITE K \<or> writable K s) \<and> (\<forall>m \<in> set ms. menu_ok pre K m)"
| "menu_ok pre K (Text_menu p v ms) \<longleftrightarrow> (\<forall>t c. p = Some (t, c) \<longrightarrow> title_ok pre t) \<and> (\<forall>m \<in> set ms. menu_ok pre K m)"

fun menu_symbols :: "kconf \<Rightarrow> menu \<Rightarrow> symref set" where
  "menu_symbols K (Sym_menu s p v ms) =
     (if sym_is_choice s K \<or> \<not> flag_on s SYMBOL_WRITE K then {} else {s}) \<union> (\<Union>m \<in> set ms. menu_symbols K m)"
| "menu_symbols K (Text_menu p v ms) = (\<Union>m \<in> set ms. menu_symbols K m)"

lemma entry_writes:
  assumes c: "\<forall>t. calculated K0 t" and pre: "prefix_ok pre" and w: "written_from K0 W K" and ok: "menu_ok pre K0 (Text_menu p v ms)"
  shows "writes pre K0 {} W (write_entry (sym_calc_value (Suc n)) pre nl (Text_menu p v ms) K)"
    "writes pre K0 {} W (write_end (sym_calc_value (Suc n)) nl (Text_menu p v ms) K)"
proof -
  have cK: "\<forall>t. calculated K t" using c written_reads(4) [OF w] by simp
  obtain b where b: "menu_is_visible (sym_calc_value (Suc n)) (Text_menu p v ms) K = Inr (b, K)" "b \<Longrightarrow> p \<noteq> None"
    using text_menu_visible [OF cK] by blast
  have "idle_line pre (''# '' @ str @ newline)" "idle_line pre (''# '' @ (''end of '' @ str) @ newline)" if "p = Some (str, c)" for str c
    using ok that idle_comment [OF _ pre] title_ok_end [OF pre, of str] by (simp, fastforce)
  note idle = this idle_hash [OF pre] idle_blank [OF pre]
  show "writes pre K0 {} W (write_entry (sym_calc_value (Suc n)) pre nl (Text_menu p v ms) K)"
  proof (cases b)
    case True
    then obtain str c where p: "p = Some (str, c)" using b(2) by auto
    have "writes pre K0 {} W (Inr (newline @ ''#'' @ newline @ ''# '' @ str @ newline @ ''#'' @ newline, False, K))"
      using idle(1,3,4) p by (intro writes_idle [OF w, of _ "[newline, ''#'' @ newline, ''# '' @ str @ newline, ''#'' @ newline]"]) simp_all
    then show ?thesis using True b(1) p by (simp add: deref_def)
  qed (use b(1) in \<open>simp add: writes_idle [OF w, of _ "[]"]\<close>)
  show "writes pre K0 {} W (write_end (sym_calc_value (Suc n)) nl (Text_menu p v ms) K)"
  proof (cases b)
    case True
    then obtain str c where p: "p = Some (str, c)" using b(2) by auto
    have "writes pre K0 {} W (Inr (''# end of '' @ str @ newline, True, K))"
      using idle(2) p by (intro writes_idle [OF w, of _ "[''# end of '' @ str @ newline]"]) simp_all
    then show ?thesis using True b(1) p by (simp add: deref_def)
  qed (use b(1) in \<open>simp add: writes_idle [OF w, of _ "[]"]\<close>)
qed

lemma symbol_writes:
  assumes c: "\<forall>t. calculated K0 t" and w: "written_from K0 W K" and ok: "menu_ok pre K0 (Sym_menu s p v ms)" and pre_ok: "prefix_ok pre"
  shows "writes pre K0 (if sym_is_choice s K0 \<or> \<not> flag_on s SYMBOL_WRITE K0 then {} else {s}) W
    (write_entry (sym_calc_value (Suc n)) pre nl (Sym_menu s p v ms) K)"
proof -
  let ?K = "set_flag s SYMBOL_WRITTEN K"
  note r0 = written_reads [OF w] and w1 = written_mark [OF w, of s]
  note r = written_reads [OF w1]
  have calc: "sym_calc_value (Suc n) s K = Inr K" using r0(7) c by (intro calc_valid) (simp add: calculated_def)
  consider "sym_is_choice s K0 \<or> s \<in> W" | "\<not> (sym_is_choice s K0 \<or> s \<in> W)" "\<not> flag_on s SYMBOL_WRITE K0"
    | "\<not> (sym_is_choice s K0 \<or> s \<in> W)" "flag_on s SYMBOL_WRITE K0" "writable K0 s"
    using ok by auto
  then show ?thesis
  proof cases
    case 1
    then show ?thesis using r0(5,9) by (auto intro!: writes_idle [OF w, of _ "[]"])
  next
    case 2
    then show ?thesis using r0(5,6,9) calc by (auto intro!: writes_idle [OF w, of _ "[]"])
  next
    case 3
    have t: "sym_get_string_value (sym_calc_value (Suc n)) s ?K = Inr (text_of K0 s, ?K)"
    proof -
      have "calculated ?K s" "calculated ?K (k_modules_sym ?K)" using r(4,8) c by simp_all
      then show ?thesis using string_value_read r(1) by metis
    qed
    obtain nm where nm: "sym_name s K0 = Some nm" using 3(3) by (auto simp: writable_def)
    have u: "s_type (k_sym K0 s) \<noteq> S_UNKNOWN" using 3(3) by (auto simp: writable_def)
    have "conf_write_symbol (sym_calc_value (Suc n)) (kconfig_print_symbol pre False) s ?K = Inr (line_of pre K0 s, ?K)"
      unfolding conf_write_symbol_def Let_def r(2,3) if_not_P [OF u] t bindE_Inr prod.case nm deref_def option.case
      by (simp add: line_of_def value_text_def nm)
    then have e: "write_entry (sym_calc_value (Suc n)) pre nl (Sym_menu s p v ms) K = Inr ((if nl then newline else '''') @ line_of pre K0 s, False, ?K)"
      using 3 r0(5,6,9) calc by simp
    have "writes pre K0 {s} W (Inr ((if nl then newline else '''') @ line_of pre K0 s, False, ?K))"
      using w1 3 pre_ok idle_blank [OF pre_ok]
      by (intro writes_items [where its = "(if nl then [Inl newline] else []) @ [Inr s]"]) auto
    then show ?thesis using e 3 by simp
  qed
qed

lemma list_writes:
  assumes "\<And>m W nl K. m \<in> set ms \<Longrightarrow> written_from K0 W K \<Longrightarrow> writes pre K0 (S m) W (write_menu calc pre nl m K)"
  shows "written_from K0 W K \<Longrightarrow> writes pre K0 (\<Union>m \<in> set ms. S m) W (write_menus calc pre nl ms K)"
  using assms
proof (induction ms arbitrary: W nl K)
  case Nil
  then show ?case by (auto intro: writes_idle [where ls = "[]"])
next
  case (Cons m ms)
  have "writes pre K0 (S m \<union> (\<Union>m \<in> set ms. S m)) W (then_write (write_menu calc pre nl m K) (\<lambda>nl K. write_menus calc pre nl ms K))"
    by (rule then_writes) (use Cons in auto)
  then show ?case by simp
qed

lemma menu_writes:
  assumes c: "\<forall>t. calculated K0 t" and pre: "prefix_ok pre"
  shows "written_from K0 W K \<Longrightarrow> menu_ok pre K0 m \<Longrightarrow> writes pre K0 (menu_symbols K0 m) W (write_menu (sym_calc_value (Suc n)) pre nl m K)"
proof (induction m arbitrary: W nl K)
  case (Sym_menu s p v ms)
  note IH = Sym_menu.IH
  show ?case
    unfolding write_menu.simps menu_symbols.simps
    by (rule then_writes [OF symbol_writes [OF c Sym_menu.prems pre]], rule list_writes) (use Sym_menu in auto)
next
  case (Text_menu p v ms)
  have e: "writes pre K0 {} W' (write_end (sym_calc_value (Suc n)) nl (Text_menu p v ms) K)" if "written_from K0 W' K" for W' nl K
    by (rule entry_writes(2) [OF c pre that Text_menu.prems(2)])
  have l: "writes pre K0 (\<Union>m \<in> set ms. menu_symbols K0 m) W' (write_menus (sym_calc_value (Suc n)) pre nl ms K)"
    if "written_from K0 W' K" for W' nl K
    by (rule list_writes) (use Text_menu that in auto)
  have i: "writes pre K0 {} W' (Inr ('''', nl, K))" if "written_from K0 W' K" for W' nl K
    using that by (auto intro: writes_idle [where ls = "[]"])
  have "writes pre K0 ({} \<union> (\<Union>m \<in> set ms. menu_symbols K0 m)) W (write_menu (sym_calc_value (Suc n)) pre nl (Text_menu p v ms) K)"
    unfolding write_menu.simps
  proof (rule then_writes [OF entry_writes(1) [OF c pre Text_menu.prems]])
    fix W' nl K assume w: "written_from K0 W' K"
    show "writes pre K0 (\<Union>m \<in> set ms. menu_symbols K0 m) W' (if ms = [] then Inr ('''', nl, K)
        else then_write (write_menus (sym_calc_value (Suc n)) pre nl ms K) (\<lambda>nl K. write_end (sym_calc_value (Suc n)) nl (Text_menu p v ms) K))"
      using i [OF w] then_writes [OF l [OF w], of "{}"] e by auto
  qed
  then show ?case by simp
qed

section \<open>The file\<close>

text \<open>A file system in which the file can be written, and does not have the text already.\<close>

definition files_ok :: "conf_files \<Rightarrow> bool" where
  "files_ok F \<longleftrightarrow> \<not> f_is_dir F \<and> \<not> f_no_parent F \<and> \<not> f_no_open F \<and> (f_overwrite F \<or> (\<forall>t. \<not> f_same F t) \<and> \<not> f_no_rename F)"

lemma config_written:
  assumes c: "\<forall>t. calculated K t" and pre: "prefix_ok pre" and ok: "menu_ok pre K (Text_menu (Some (title, d)) v ms)"
    and "\<forall>t. \<not> flag_on t SYMBOL_WRITTEN K" and "conf_get_changed K"
  obtains its K' where "write_config (sym_calc_value (Suc n)) pre (Text_menu (Some (title, d)) v ms) K = Inr (concat (map (item_text pre K) its), K')"
    "distinct (written its)" "\<forall>it \<in> set its. item_ok pre K it" "menu_symbols K (Text_menu (Some (title, d)) v ms) \<subseteq> set (written its)"
proof -
  let ?root = "Text_menu (Some (title, d)) v ms"
  obtain hs where h: "conf_write_heading kconfig_print_comment ?root = Inr (concat (map (item_text pre K) hs))"
      "\<forall>it \<in> set hs. item_ok pre K it" "written hs = []"
    using heading_items [OF pre, of title d v ms K] ok by auto
  have "writes pre K (\<Union>m \<in> set ms. menu_symbols K m) {} (write_menus (sym_calc_value (Suc n)) pre False ms K)"
    by (rule list_writes [OF menu_writes [OF c pre] written_refl [OF assms(4)]]) (use ok in auto)
  then obtain its nl K1 where i: "write_menus (sym_calc_value (Suc n)) pre False ms K = Inr (concat (map (item_text pre K) its), nl, K1)"
      "written_from K (set (written its)) K1" "distinct (written its)" "\<forall>it \<in> set its. item_ok pre K it"
      "(\<Union>m \<in> set ms. menu_symbols K m) \<subseteq> set (written its)"
    unfolding writes_def by auto
  have "\<forall>t. calculated K1 t" using c written_reads(4) [OF i(2)] by simp
  then obtain b where b: "menu_is_visible (sym_calc_value (Suc n)) ?root K1 = Inr (b, K1)" using text_menu_visible by blast
  obtain K' where "write_config (sym_calc_value (Suc n)) pre ?root K = Inr (concat (map (item_text pre K) (hs @ its)), K')"
    unfolding write_config_def h(1) bindE_Inr menu_list.simps if_P [OF assms(5)] i(1) prod.case b
    by (cases "ms = []") auto
  then show thesis using that [of "hs @ its"] h(2,3) i(3,4,5) by auto
qed

lemma config_file:
  assumes "files_ok F" and "name \<noteq> []" and "write_config calc pre root K = Inr (text, K1)"
  shows "\<exists>K'. conf_write calc pre F root name K = Inr ((0, File_is text), K')"
  using assms by (auto simp: conf_write_def files_ok_def)

end
