(* ===== verification/KValue.thy ===== *)
theory KValue
  imports KTable
begin

text \<open>
  The value of a bool or tristate symbol outside choices, when the symbols it depends on are calculated: \<open>symbol_spec\<close> says it
  from the conditions of its properties, as the language describes it, and \<^verbatim>\<open>sym_calc_value\<close> computes it.
\<close>

unbundle bit_operations_syntax

section \<open>The value as the language describes it\<close>

definition cond_value :: "kconf \<Rightarrow> kexpr option \<Rightarrow> tristate" where
  "cond_value K e = (case e of None \<Rightarrow> T_yes | Some x \<Rightarrow> expr_value (tri_of K) (cmp_of K) x)"

text \<open>m becomes y where there is no m.\<close>

definition no_m :: "bool \<Rightarrow> tristate \<Rightarrow> tristate" where
  "no_m b t = (if b \<and> t = T_mod then T_yes else t)"

definition without_m :: "kconf \<Rightarrow> symref \<Rightarrow> bool" where
  "without_m K s \<longleftrightarrow> s_type (k_sym K s) = S_BOOLEAN \<or> k_modules_val K = T_no"

definition prompts_spec :: "kconf \<Rightarrow> symref \<Rightarrow> tristate" where
  "prompts_spec K s = no_m (without_m K s)
     (fold (\<lambda>p t. max t (cond_value K (p_visible p))) (filter (\<lambda>p. p_text p \<noteq> None) (s_prop (k_sym K s))) T_no)"

definition dep_spec :: "kconf \<Rightarrow> symref \<Rightarrow> dep_kind \<Rightarrow> tristate" where
  "dep_spec K s d = no_m (without_m K s)
     (case s_dep (k_sym K s) d of None \<Rightarrow> (if d = D_dir then T_yes else T_no) | Some e \<Rightarrow> expr_value (tri_of K) (cmp_of K) e)"

definition default_spec :: "kconf \<Rightarrow> property list \<Rightarrow> tristate" where
  "default_spec K ps = (case List.find (\<lambda>p. p_type p = P_DEFAULT \<and> cond_value K (p_visible p) \<noteq> T_no) ps of
      None \<Rightarrow> T_no
    | Some p \<Rightarrow> min (cond_value K (p_expr p)) (cond_value K (p_visible p)))"

definition symbol_spec :: "kconf \<Rightarrow> symref \<Rightarrow> tristate" where
  "symbol_spec K s =
     (let vis = prompts_spec K s; dir = dep_spec K s D_dir; im = dep_spec K s D_implied; rev = dep_spec K s D_rev;
          t = default_spec K (s_prop (k_sym K s));
          base = (if vis \<noteq> T_no \<and> sym_has_value s K then min (v_tri (s_def_user (k_sym K s))) vis
                  else if im \<noteq> T_no then min (max t im) dir else t)
      in no_m (without_m K s) (max base rev))"

section \<open>What the calculation leaves\<close>

text \<open>
  Up to the new value the calculation changes only the symbol itself, and of that neither the conditions nor the settings;
  \<open>v\<close> and \<open>d\<close> are its visibility and the values of its dependencies.
\<close>

definition static :: "property \<Rightarrow> prop_type \<times> string option \<times> kexpr option \<times> kexpr option" where
  "static p = (p_type p, p_text p, p_visible p, p_expr p)"

definition kept_flags :: u32 where
  "kept_flags = SYMBOL_VALID OR SYMBOL_CHOICE OR SYMBOL_CHOICEVAL OR SYMBOL_DEF_USER OR SYMBOL_NEED_SET_CHOICE_VALUES"

definition fixed_part :: "symbol \<Rightarrow> symbol_type \<times> symbol_value \<times> (dep_kind \<Rightarrow> kexpr option) \<times> u32" where
  "fixed_part x = (s_type x, s_def_user x, s_dep x, s_flags x AND kept_flags)"

definition sym_frame :: "symref \<Rightarrow> tristate \<Rightarrow> (dep_kind \<Rightarrow> tristate) \<Rightarrow> kconf \<Rightarrow> kconf \<Rightarrow> bool" where
  "sym_frame s v d K K' \<longleftrightarrow> (\<forall>t. t \<noteq> s \<longrightarrow> k_sym K' t = k_sym K t) \<and> k_modules_sym K' = k_modules_sym K \<and>
     k_modules_val K' = k_modules_val K \<and> fixed_part (k_sym K' s) = fixed_part (k_sym K s) \<and>
     map static (s_prop (k_sym K' s)) = map static (s_prop (k_sym K s)) \<and>
     s_visible (k_sym K' s) = v \<and> s_dep_tri (k_sym K' s) = d"

lemma flags_kept: "f AND kept_flags = 0 \<Longrightarrow> (w OR f) AND kept_flags = w AND kept_flags"
  "f AND kept_flags = 0 \<Longrightarrow> (w AND NOT f) AND kept_flags = w AND kept_flags" for w :: u32
  by (simp_all add: and_or_zero and_not_disjoint)

lemma flag_on_kept:
  assumes "sym_frame s v d K K'" and "f AND kept_flags = f"
  shows "flag_on s f K' = flag_on s f K"
proof -
  have *: "w AND f = (w AND kept_flags) AND f" for w :: u32
    by (subst assms(2) [symmetric]) (simp only: and.assoc and.commute [of f])
  have "s_flags (k_sym K' s) AND kept_flags = s_flags (k_sym K s) AND kept_flags"
    using assms(1) by (simp add: sym_frame_def fixed_part_def)
  then show ?thesis unfolding flag_on_def by (subst (1 2) *) simp
qed

lemma frame_flags:
  assumes "sym_frame s v d K K'"
  shows "sym_is_choice s K' = sym_is_choice s K" "sym_is_choice_value s K' = sym_is_choice_value s K"
    "sym_has_value s K' = sym_has_value s K"
    "flag_on s SYMBOL_NEED_SET_CHOICE_VALUES K' = flag_on s SYMBOL_NEED_SET_CHOICE_VALUES K"
    "flag_on s SYMBOL_VALID K' = flag_on s SYMBOL_VALID K"
  unfolding sym_is_choice_def sym_is_choice_value_def sym_has_value_def
  by (rule flag_on_kept [OF assms], simp add: kept_flags_def symbol_flags)+

lemma frame_type: "sym_frame s v d K K' \<Longrightarrow> s_type (k_sym K' t) = s_type (k_sym K t)"
  by (cases "t = s") (auto simp: sym_frame_def fixed_part_def)

named_theorems frame_intro \<open>steps within a frame\<close>

lemma frame_refl: "sym_frame s (s_visible (k_sym K s)) (s_dep_tri (k_sym K s)) K K"
  by (simp add: sym_frame_def)

lemma frame_set [frame_intro]: "sym_frame s v d K K' \<Longrightarrow> f AND kept_flags = 0 \<Longrightarrow> sym_frame s v d K (set_flag s f K')"
  by (simp add: sym_frame_def set_flag_def fixed_part_def flags_kept) (simp add: upd_sym_def)

lemma frame_clear [frame_intro]: "sym_frame s v d K K' \<Longrightarrow> f AND kept_flags = 0 \<Longrightarrow> sym_frame s v d K (clear_flag s f K')"
  by (simp add: sym_frame_def clear_flag_def fixed_part_def flags_kept) (simp add: upd_sym_def)

lemma frame_curr [frame_intro]: "sym_frame s v d K K' \<Longrightarrow> sym_frame s v d K (set_curr s x K')"
  by (simp add: sym_frame_def set_curr_def fixed_part_def) (simp add: upd_sym_def)

lemma frame_visible: "sym_frame s v d K K' \<Longrightarrow> sym_frame s v' d K (upd_sym s (\<lambda>x. x\<lparr>s_visible := v'\<rparr>) K')"
  by (simp add: sym_frame_def fixed_part_def) (simp add: upd_sym_def)

lemma frame_dep: "sym_frame s v d K K' \<Longrightarrow> sym_frame s v (d(k := t)) K (upd_sym s (\<lambda>x. x\<lparr>s_dep_tri := (s_dep_tri x)(k := t)\<rparr>) K')"
  by (simp add: sym_frame_def fixed_part_def) (simp add: upd_sym_def)

lemma frame_table [frame_intro]: "sym_frame s v d K K' \<Longrightarrow> sym_frame s v d K (K'\<lparr>k_menu_changed := m\<rparr>)"
  "sym_frame s v d K K' \<Longrightarrow> sym_frame s v d K (K'\<lparr>k_unmet := u\<rparr>)"
  by (simp_all add: sym_frame_def)

lemma flags_kept_apart [simp]: "SYMBOL_WRITE AND kept_flags = 0" "SYMBOL_CHANGED AND kept_flags = 0"
  by (simp_all add: kept_flags_def symbol_flags)

lemma frame_changed [frame_intro]: "sym_frame s v d K K' \<Longrightarrow> sym_frame s v d K (sym_set_changed s K')"
  unfolding sym_set_changed_def Let_def by (intro frame_intro) simp_all

lemma frame_visible_tri [frame_intro]:
  assumes "sym_frame s v d K K'" shows "sym_frame s v d K (set_visible_tri s i t K')"
proof -
  have "map static (ps[i := (ps ! i)\<lparr>p_visible_tri := t\<rparr>]) = map static ps" for ps
    by (rule nth_equalityI, simp, rename_tac j, case_tac "j = i") (simp_all add: static_def)
  then show ?thesis
    using assms by (simp add: sym_frame_def set_visible_tri_def fixed_part_def) (simp add: upd_sym_def)
qed

lemma frame_prop:
  assumes "sym_frame s v d K K'" and "i < length (s_prop (k_sym K s))"
  shows "static (s_prop (k_sym K' s) ! i) = static (s_prop (k_sym K s) ! i)" "i < length (s_prop (k_sym K' s))"
  using assms unfolding sym_frame_def by (metis length_map nth_map)+

section \<open>Conditions of a symbol\<close>

text \<open>
  A symbol outside choices whose conditions can be read: every other symbol is calculated, and none of its conditions reads the
  symbol itself.
\<close>

definition reads :: "symref \<Rightarrow> kexpr option \<Rightarrow> bool" where
  "reads s e = (case e of None \<Rightarrow> False | Some x \<Rightarrow> s \<in> symbols x)"

definition prepared :: "kconf \<Rightarrow> symref \<Rightarrow> bool" where
  "prepared K s \<longleftrightarrow> (\<forall>t. t \<noteq> s \<longrightarrow> calculated K t) \<and> k_modules_sym K \<noteq> s \<and> (\<forall>d. \<not> reads s (s_dep (k_sym K s) d)) \<and>
     (\<forall>p \<in> set (s_prop (k_sym K s)). \<not> reads s (p_visible p) \<and> (p_type p = P_DEFAULT \<longrightarrow> \<not> reads s (p_expr p))) \<and>
     (s_type (k_sym K s) = S_BOOLEAN \<or> s_type (k_sym K s) = S_TRISTATE) \<and>
     \<not> sym_is_choice s K \<and> \<not> sym_is_choice_value s K \<and> \<not> flag_on s SYMBOL_NEED_SET_CHOICE_VALUES K"

lemma expr_value_cong:
  "(\<And>t. t \<in> symbols e \<Longrightarrow> tri t = tri' t) \<Longrightarrow> (\<And>a b. a \<in> symbols e \<Longrightarrow> b \<in> symbols e \<Longrightarrow> cp a b = cp' a b) \<Longrightarrow>
    expr_value tri cp e = expr_value tri' cp' e"
  by (induction e) auto

lemma frame_reads:
  assumes "sym_frame s v d K K'" and "k_modules_sym K \<noteq> s" and "t \<noteq> s"
  shows "calculated K' t = calculated K t" "tri_of K' t = tri_of K t" "text_of K' t = text_of K t"
  using assms
  by (simp_all add: sym_frame_def calculated_def flag_on_def tri_of_def sym_get_tristate_value_def text_of_def)

lemma value_in_frame:
  assumes "prepared K s" and "sym_frame s v d K K'" and "s \<notin> symbols e"
  shows "calc_value_nn (sym_calc_value (Suc n)) e K' = Inr (expr_value (tri_of K) (cmp_of K) e, K')"
proof -
  have m: "k_modules_sym K \<noteq> s" "k_modules_sym K' = k_modules_sym K" using assms by (auto simp: prepared_def sym_frame_def)
  note r = frame_reads [OF assms(2) m(1)]
  have c: "t \<noteq> s \<Longrightarrow> calculated K t" for t using assms(1) by (simp add: prepared_def)
  have "calculated K' (k_modules_sym K')" "\<forall>t \<in> symbols e. calculated K' t"
    using assms(3) m r(1) c by metis+
  moreover have "expr_value (tri_of K') (cmp_of K') e = expr_value (tri_of K) (cmp_of K) e"
  proof (rule expr_value_cong)
    show "tri_of K' t = tri_of K t" if "t \<in> symbols e" for t using that assms(3) r(2) [of t] by blast
    show "cmp_of K' a b = cmp_of K a b" if "a \<in> symbols e" "b \<in> symbols e" for a b
    proof -
      have "a \<noteq> s" "b \<noteq> s" using that assms(3) by auto
      then show ?thesis using r(3) frame_type [OF assms(2)] by (simp add: cmp_of_def)
    qed
  qed
  ultimately show ?thesis using value_nn_read by metis
qed

lemma cond_in_frame:
  assumes "prepared K s" and "sym_frame s v d K K'" and "\<not> reads s e"
  shows "expr_calc_value (sym_calc_value (Suc n)) e K' = Inr (cond_value K e, K')"
  using assms value_in_frame
  by (auto simp: expr_calc_value_def cond_value_def reads_def split: option.split)

lemma boolean_in_frame:
  assumes "prepared K s" and "sym_frame s v d K K'"
  shows "sym_get_type s K' = S_BOOLEAN \<longleftrightarrow> without_m K s" "sym_get_type s K' = S_BOOLEAN \<or> sym_get_type s K' = S_TRISTATE"
  using assms frame_flags(2) [OF assms(2)] frame_type [OF assms(2), of s]
  by (auto simp: prepared_def sym_get_type_def without_m_def Let_def sym_frame_def)

section \<open>The parts of the calculation\<close>

text \<open>A property, at a place in the list.\<close>

lemma prop_in_frame:
  assumes "prepared K s" and "sym_frame s v d K K'" and "i < length (s_prop (k_sym K s))"
  defines "p \<equiv> s_prop (k_sym K s) ! i" and "p' \<equiv> s_prop (k_sym K' s) ! i"
  shows "p_type p' = p_type p" "p_text p' = p_text p" "p_expr p' = p_expr p"
    "expr_calc_value (sym_calc_value (Suc n)) (p_visible p') K' = Inr (cond_value K (p_visible p), K')"
proof -
  have st: "static p' = static p" using frame_prop(1) [OF assms(2,3)] by (simp add: p_def p'_def)
  then show "p_type p' = p_type p" "p_text p' = p_text p" "p_expr p' = p_expr p" by (simp_all add: static_def)
  have "\<not> reads s (p_visible p)" using assms(1,3) by (auto simp: prepared_def p_def)
  then show "expr_calc_value (sym_calc_value (Suc n)) (p_visible p') K' = Inr (cond_value K (p_visible p), K')"
    using cond_in_frame [OF assms(1,2)] st by (simp add: static_def)
qed

lemma prompts_in_frame:
  assumes "prepared K s"
  shows "sym_frame s v d K K' \<Longrightarrow> \<forall>i \<in> set is. i < length (s_prop (k_sym K s)) \<Longrightarrow>
    \<exists>K1. sym_frame s v d K K1 \<and> prompts_visible (sym_calc_value (Suc n)) s None is t K' =
      Inr (fold (\<lambda>p t. max t (cond_value K (p_visible p))) (filter (\<lambda>p. p_text p \<noteq> None) (map (nth (s_prop (k_sym K s))) is)) t, K1)"
proof (induction "is" arbitrary: t K')
  case (Cons i "is")
  note p = prop_in_frame [OF assms Cons.prems(1), of i]
  show ?case
    using Cons.IH [OF frame_visible_tri [OF Cons.prems(1)]] Cons.IH [OF Cons.prems(1)] Cons.prems(2) p
    by (simp add: EXPR_OR_max)
qed auto

lemma dep_in_frame:
  assumes "prepared K s" and "sym_frame s v d K K'"
  shows "\<exists>K1. sym_frame s v (d(k := dep_spec K s k)) K K1 \<and>
    calc_dep (sym_calc_value (Suc n)) k (if k = D_dir then T_yes else T_no) s K' = Inr K1"
proof -
  have e: "s_dep (k_sym K' s) k = s_dep (k_sym K s) k" using assms(2) by (simp add: sym_frame_def fixed_part_def)
  let ?t = "case s_dep (k_sym K s) k of None \<Rightarrow> (if k = D_dir then T_yes else T_no) | Some e \<Rightarrow> expr_value (tri_of K) (cmp_of K) e"
  have v: "(case s_dep (k_sym K' s) k of None \<Rightarrow> Inr ((if k = D_dir then T_yes else T_no), K')
      | Some e \<Rightarrow> calc_value_nn (sym_calc_value (Suc n)) e K') = Inr (?t, K')"
  proof (cases "s_dep (k_sym K s) k")
    case (Some x)
    then have "s \<notin> symbols x" using assms(1) by (auto simp: prepared_def reads_def split: option.splits)
    then show ?thesis using e Some value_in_frame [OF assms] by simp
  qed (use e in simp)
  have t: "(if ?t = T_mod \<and> sym_get_type s K' = S_BOOLEAN then T_yes else ?t) = dep_spec K s k"
    using boolean_in_frame(1) [OF assms] by (simp add: dep_spec_def no_m_def)
  have d: "s_dep_tri (k_sym K' s) = d" using assms(2) by (simp add: sym_frame_def)
  show ?thesis
    unfolding calc_dep_def v bindE_Inr Let_def prod.case t
    using assms(2) d frame_changed [OF frame_dep [OF assms(2)], of k "dep_spec K s k"]
    by (auto simp: fun_upd_idem)
qed

lemma default_in_frame:
  assumes "prepared K s"
  shows "sym_frame s v d K K' \<Longrightarrow> \<forall>i \<in> set is. i < length (s_prop (k_sym K s)) \<Longrightarrow>
    \<exists>K1 r. sym_frame s v d K K1 \<and> first_visible (sym_calc_value (Suc n)) P_DEFAULT s is K' = Inr (r, K1) \<and>
      (case List.find (\<lambda>p. p_type p = P_DEFAULT \<and> cond_value K (p_visible p) \<noteq> T_no) (map (nth (s_prop (k_sym K s))) is) of
         None \<Rightarrow> r = None
       | Some p \<Rightarrow> p \<in> set (s_prop (k_sym K s)) \<and> (\<exists>p'. r = Some p' \<and> p_expr p' = p_expr p \<and>
           p_visible_tri p' = cond_value K (p_visible p)))"
proof (induction "is" arbitrary: K')
  case (Cons i "is")
  note p = prop_in_frame [OF assms Cons.prems(1), of i]
  let ?p = "s_prop (k_sym K s) ! i"
  have i: "i < length (s_prop (k_sym K s))" using Cons.prems(2) by simp
  then have mem: "?p \<in> set (s_prop (k_sym K s))" by simp
  let ?K2 = "set_visible_tri s i (cond_value K (p_visible ?p)) K'"
  have K2: "sym_frame s v d K ?K2" by (rule frame_visible_tri [OF Cons.prems(1)])
  show ?case
  proof (cases "p_type ?p = P_DEFAULT \<and> cond_value K (p_visible ?p) \<noteq> T_no")
    case True
    have "s_prop (k_sym ?K2 s) ! i = (s_prop (k_sym K' s) ! i)\<lparr>p_visible_tri := cond_value K (p_visible ?p)\<rparr>"
      using frame_prop(2) [OF Cons.prems(1) i] by (simp add: set_visible_tri_def)
    then show ?thesis using True p [OF i] K2 mem by (auto simp: Let_def)
  next
    case False
    then show ?thesis using Cons.IH [OF K2] Cons.IH [OF Cons.prems(1)] Cons.prems(2) p [OF i] by (auto simp: Let_def)
  qed
qed auto

lemma all_places [simp]: "map (nth (s_prop (k_sym K s))) (prop_places s K) = s_prop (k_sym K s)"
  "\<forall>i \<in> set (prop_places s K). i < length (s_prop (k_sym K s))"
  by (simp_all add: prop_places_def map_nth)

lemma places_in_frame: "sym_frame s v d K K' \<Longrightarrow> prop_places s K' = prop_places s K"
  unfolding sym_frame_def prop_places_def by (metis length_map)

section \<open>Visibility and value\<close>

lemma visibility_in_frame:
  assumes "prepared K s" and "sym_frame s v d K K'"
  shows "\<exists>K1. sym_calc_visibility (sym_calc_value (Suc n)) s K' = Inr K1 \<and> sym_frame s (prompts_spec K s) (dep_spec K s) K K1"
proof -
  let ?c = "sym_calc_value (Suc n)"
  have ch: "sym_frame s v d K K1 \<Longrightarrow> \<not> sym_is_choice_value s K1" for v d K1
    using assms(1) frame_flags(2) by (auto simp: prepared_def)
  let ?t = "fold (\<lambda>p t. max t (cond_value K (p_visible p))) (filter (\<lambda>p. p_text p \<noteq> None) (s_prop (k_sym K s))) T_no"
  obtain K1 where K1: "sym_frame s v d K K1" "prompts_visible ?c s None (prop_places s K) T_no K' = Inr (?t, K1)"
    using prompts_in_frame [OF assms, of "prop_places s K" n T_no] by auto
  let ?v = "prompts_spec K s"
  have ty: "s_type (k_sym K1 s) \<noteq> S_TRISTATE \<or> k_modules_val K1 = T_no \<longleftrightarrow> without_m K s"
    using assms(1) K1(1) frame_type [OF K1(1), of s] by (auto simp: prepared_def without_m_def sym_frame_def)
  have t: "(if ?t = T_mod \<and> (s_type (k_sym K1 s) \<noteq> S_TRISTATE \<or> k_modules_val K1 = T_no) then T_yes else ?t) = ?v"
    unfolding ty by (simp add: prompts_spec_def no_m_def)
  let ?K2 = "if s_visible (k_sym K1 s) \<noteq> ?v then sym_set_changed s (upd_sym s (\<lambda>x. x\<lparr>s_visible := ?v\<rparr>) K1) else K1"
  have K2: "sym_frame s ?v d K ?K2"
    using K1(1) frame_changed [OF frame_visible [OF K1(1)], of ?v] by (auto simp: sym_frame_def)
  obtain K3 where K3: "sym_frame s ?v (d(D_dir := dep_spec K s D_dir)) K K3" "calc_dep ?c D_dir T_yes s ?K2 = Inr K3"
    using dep_in_frame [OF assms(1) K2, of D_dir n] by auto
  obtain K4 where K4: "sym_frame s ?v (d(D_dir := dep_spec K s D_dir, D_rev := dep_spec K s D_rev)) K K4" "calc_dep ?c D_rev T_no s K3 = Inr K4"
    using dep_in_frame [OF assms(1) K3(1), of D_rev n] by auto
  obtain K5 where K5: "sym_frame s ?v (d(D_dir := dep_spec K s D_dir, D_rev := dep_spec K s D_rev, D_implied := dep_spec K s D_implied)) K K5"
      "calc_dep ?c D_implied T_no s K4 = Inr K5"
    using dep_in_frame [OF assms(1) K4(1), of D_implied n] by auto
  have "d(D_dir := dep_spec K s D_dir, D_rev := dep_spec K s D_rev, D_implied := dep_spec K s D_implied) = dep_spec K s"
    by (rule ext, rename_tac k, case_tac k) auto
  moreover have "sym_calc_visibility ?c s K' = Inr K5"
    unfolding sym_calc_visibility_def places_in_frame [OF assms(2)] if_not_P [OF ch [OF assms(2)]] bindE_Inr K1(2) prod.case
      Let_def t if_not_P [OF ch [OF K2]] K3(2) K4(2)
    by (rule K5(2))
  ultimately show ?thesis using K5(1) by auto
qed

lemma default_tri_in_frame:
  assumes "prepared K s" and "sym_frame s (prompts_spec K s) (dep_spec K s) K K'"
  shows "\<exists>K1. sym_frame s (prompts_spec K s) (dep_spec K s) K K1 \<and> default_tri (sym_calc_value (Suc n)) s T_no K' =
    Inr (let t = default_spec K (s_prop (k_sym K s)); im = dep_spec K s D_implied
      in if im \<noteq> T_no then min (max t im) (dep_spec K s D_dir) else t, K1)"
proof -
  let ?c = "sym_calc_value (Suc n)" and ?F = "sym_frame s (prompts_spec K s) (dep_spec K s) K"
  define K0 where "K0 = (if s_dep_tri (k_sym K' s) D_rev \<noteq> T_no then set_flag s SYMBOL_WRITE K' else K')"
  have K0: "?F K0" using assms(2) by (auto simp: K0_def intro!: frame_intro)
  have nc: "\<not> sym_is_choice s K0" using assms(1) frame_flags(1) [OF K0] by (simp add: prepared_def)
  let ?ps = "s_prop (k_sym K s)"
  let ?find = "List.find (\<lambda>p. p_type p = P_DEFAULT \<and> cond_value K (p_visible p) \<noteq> T_no) ?ps"
  obtain K1 r where K1: "?F K1" "sym_get_default_prop ?c s K0 = Inr (r, K1)"
    and r: "case ?find of None \<Rightarrow> r = None | Some p \<Rightarrow> p \<in> set ?ps \<and>
      (\<exists>p'. r = Some p' \<and> p_expr p' = p_expr p \<and> p_visible_tri p' = cond_value K (p_visible p))"
    using default_in_frame [OF assms(1) K0, of "prop_places s K" n] places_in_frame [OF K0]
    by (auto simp: sym_get_default_prop_def)
  have "\<exists>K2. ?F K2 \<and> (case r of None \<Rightarrow> Inr (T_no, K1)
      | Some p \<Rightarrow> bindE (calc_and ?c (p_expr p) (p_visible_tri p) K1) (\<lambda>(t, K2).
          Inr (t, if t \<noteq> T_no then set_flag s SYMBOL_WRITE K2 else K2))) = Inr (default_spec K ?ps, K2)"
  proof (cases ?find)
    case (Some p)
    then have p: "p \<in> set ?ps" "p_type p = P_DEFAULT" using r by (auto simp: find_Some_iff)
    then have "\<not> reads s (p_expr p)" using assms(1) by (auto simp: prepared_def)
    from cond_in_frame [OF assms(1) K1(1) this]
    have "calc_and ?c (p_expr p) (cond_value K (p_visible p)) K1 = Inr (default_spec K ?ps, K1)"
      using Some by (auto simp: calc_and_def default_spec_def min_def)
    then show ?thesis using r Some K1(1) by (auto intro!: frame_intro)
  qed (use r K1 in \<open>auto simp: default_spec_def\<close>)
  then obtain K2 where K2: "?F K2" "(case r of None \<Rightarrow> Inr (T_no, K1)
      | Some p \<Rightarrow> bindE (calc_and ?c (p_expr p) (p_visible_tri p) K1) (\<lambda>(t, K2).
          Inr (t, if t \<noteq> T_no then set_flag s SYMBOL_WRITE K2 else K2))) = Inr (default_spec K ?ps, K2)" by blast
  have d: "s_dep_tri (k_sym K2 s) = dep_spec K s" using K2(1) by (simp add: sym_frame_def)
  have "default_tri ?c s T_no K' = Inr (if dep_spec K s D_implied \<noteq> T_no
      then (EXPR_AND (EXPR_OR (default_spec K ?ps) (dep_spec K s D_implied)) (dep_spec K s D_dir), set_flag s SYMBOL_WRITE K2)
      else (default_spec K ?ps, K2))"
    unfolding default_tri_def K0_def [symmetric] Let_def if_not_P [OF nc] K1(2) bindE_Inr prod.case K2(2) d
    by (rule refl)
  then show ?thesis
    using K2(1) frame_set [OF K2(1), of SYMBOL_WRITE] by (auto simp: Let_def EXPR_AND_min EXPR_OR_max)
qed

text \<open>The value of a calculated symbol is \<open>symbol_spec\<close>.\<close>

lemma tri_in_frame:
  assumes "prepared K s" and "sym_frame s (prompts_spec K s) (dep_spec K s) K K'"
  shows "\<exists>K1. sym_frame s (prompts_spec K s) (dep_spec K s) K K1 \<and> calc_tri (sym_calc_value (Suc n)) s T_no K' = Inr (symbol_spec K s, K1)"
proof -
  let ?c = "sym_calc_value (Suc n)" and ?F = "sym_frame s (prompts_spec K s) (dep_spec K s) K"
  have nc: "\<not> (sym_is_choice_value s K' \<and> s_visible (k_sym K' s) = T_yes)"
    using assms(1) frame_flags(2) [OF assms(2)] by (simp add: prepared_def)
  have f: "s_visible (k_sym K' s) = prompts_spec K s" "sym_has_value s K' = sym_has_value s K"
      "s_def_user (k_sym K' s) = s_def_user (k_sym K s)"
    using assms(2) frame_flags(3) [OF assms(2)] by (auto simp: sym_frame_def fixed_part_def)
  let ?im = "dep_spec K s D_implied" and ?t = "default_spec K (s_prop (k_sym K s))"
  let ?base = "if prompts_spec K s \<noteq> T_no \<and> sym_has_value s K then min (v_tri (s_def_user (k_sym K s))) (prompts_spec K s)
      else if ?im \<noteq> T_no then min (max ?t ?im) (dep_spec K s D_dir) else ?t"
  obtain K1 where K1: "?F K1" "(if s_visible (k_sym K' s) \<noteq> T_no \<and> sym_has_value s K'
      then Inr (EXPR_AND (v_tri (s_def_user (k_sym K' s))) (s_visible (k_sym K' s)), K') else default_tri ?c s T_no K') = Inr (?base, K1)"
  proof (cases "prompts_spec K s \<noteq> T_no \<and> sym_has_value s K")
    case True
    then show ?thesis using that [of K'] assms(2) f by (simp add: EXPR_AND_min)
  next
    case False
    obtain K1 where "?F K1" "default_tri ?c s T_no K' = Inr (if ?im \<noteq> T_no then min (max ?t ?im) (dep_spec K s D_dir) else ?t, K1)"
      using default_tri_in_frame [OF assms, of n] by (auto simp: Let_def)
    then show ?thesis using that [of K1] False f by simp
  qed
  have d: "s_dep_tri (k_sym K1 s) = dep_spec K s" using K1(1) by (simp add: sym_frame_def)
  let ?K2 = "if dep_spec K s D_dir < dep_spec K s D_rev then K1\<lparr>k_unmet := k_unmet K1 @ [s]\<rparr> else K1"
  have K2: "?F ?K2" using K1(1) frame_table(2) [OF K1(1)] by auto
  have "calc_tri ?c s T_no K' = Inr (if EXPR_OR ?base (dep_spec K s D_rev) = T_mod \<and> sym_get_type s ?K2 = S_BOOLEAN then T_yes
      else EXPR_OR ?base (dep_spec K s D_rev), ?K2)"
    unfolding calc_tri_def if_not_P [OF nc] K1(2) bindE_Inr prod.case Let_def d by (rule refl)
  then show ?thesis
    using K2 boolean_in_frame(1) [OF assms(1) K2] by (auto simp: symbol_spec_def no_m_def Let_def EXPR_OR_max)
qed

lemma set_flag_parts [simp]:
  "k_sym (set_flag s f K) t = (if t = s then (k_sym K s)\<lparr>s_flags := s_flags (k_sym K s) OR f\<rparr> else k_sym K t)"
  "k_modules_sym (set_flag s f K) = k_modules_sym K" "k_modules_val (set_flag s f K) = k_modules_val K"
  by (simp_all add: set_flag_def) (simp_all add: upd_sym_def)

lemma valid_parts:
  "tri_of (set_flag s SYMBOL_VALID K) = tri_of K" "cmp_of (set_flag s SYMBOL_VALID K) = cmp_of K"
  by (simp_all add: fun_eq_iff tri_of_def sym_get_tristate_value_def cmp_of_def text_of_def)

lemma valid_flags: "flag_on t f K = flag_on t f (set_flag s SYMBOL_VALID K)" if "SYMBOL_VALID AND f = 0"
  using that by (simp add: flag_on_def and_or_zero)

lemma valid_spec: "symbol_spec (set_flag s SYMBOL_VALID K) s = symbol_spec K s"
proof -
  let ?V = "set_flag s SYMBOL_VALID K"
  have "SYMBOL_VALID AND SYMBOL_DEF_USER = 0" by (simp add: symbol_flags)
  then have h: "sym_has_value s ?V = sym_has_value s K" using valid_flags unfolding sym_has_value_def by blast
  have c: "cond_value ?V = cond_value K" unfolding cond_value_def valid_parts by (rule refl)
  have w: "without_m ?V s = without_m K s" by (simp add: without_m_def)
  have x: "s_prop (k_sym ?V s) = s_prop (k_sym K s)" "s_dep (k_sym ?V s) = s_dep (k_sym K s)"
      "s_def_user (k_sym ?V s) = s_def_user (k_sym K s)" by simp_all
  show ?thesis
    unfolding symbol_spec_def prompts_spec_def dep_spec_def default_spec_def c w h x valid_parts by (rule refl)
qed

lemma valid_ready: "prepared K s \<Longrightarrow> prepared (set_flag s SYMBOL_VALID K) s"
proof -
  assume r: "prepared K s"
  have "SYMBOL_VALID AND SYMBOL_CHOICE = 0" "SYMBOL_VALID AND SYMBOL_CHOICEVAL = 0" by (simp_all add: symbol_flags)
  note f = valid_flags [OF this(1), of s K s] valid_flags [OF this(2), of s K s]
    valid_flags [of SYMBOL_NEED_SET_CHOICE_VALUES s K s]
  have "calculated (set_flag s SYMBOL_VALID K) t" if "t \<noteq> s" for t
    using r that by (simp add: prepared_def calculated_def flag_on_def)
  then show ?thesis using r f by (simp add: prepared_def sym_is_choice_def sym_is_choice_value_def)
qed

lemma valid_on: "flag_on s SYMBOL_VALID (set_flag s SYMBOL_VALID K)"
  by (simp add: flag_on_def bit.conj_disj_distrib2 or_zero symbol_flags)

lemma value_spec:
  assumes r: "prepared K s" and nv: "\<not> flag_on s SYMBOL_VALID K" and no: "tri_of K symbol_no = T_no" and ne: "s \<noteq> symbol_no"
  shows "\<exists>K'. sym_calc_value (Suc (Suc n)) s K = Inr K' \<and> tri_of K' s = symbol_spec K s \<and> flag_on s SYMBOL_VALID K' \<and>
    (\<forall>t. t \<noteq> s \<longrightarrow> k_sym K' t = k_sym K t)"
proof -
  let ?c = "sym_calc_value (Suc n)"
  define V where "V = set_flag s SYMBOL_VALID K"
  have rV: "prepared V s" unfolding V_def by (rule valid_ready [OF r])
  have spec: "symbol_spec V s = symbol_spec K s" unfolding V_def by (rule valid_spec)
  let ?F = "sym_frame s (prompts_spec V s) (dep_spec V s) V"
  have first: "calc_choice_first ?c s K = Inr K" using r by (simp add: calc_choice_first_def prepared_def)
  let ?new = "s_curr (k_sym V symbol_no)"
  have new: "v_tri ?new = T_no" using no ne by (simp add: V_def tri_of_def sym_get_tristate_value_def)
  have ty: "s_type (k_sym V s) \<noteq> S_UNKNOWN" "s_type (k_sym V s) = S_BOOLEAN \<or> s_type (k_sym V s) = S_TRISTATE"
    using rV by (auto simp: prepared_def)
  have "sym_frame s (s_visible (k_sym V s)) (s_dep_tri (k_sym V s)) V (clear_flag s SYMBOL_WRITE V)"
    by (rule frame_clear [OF frame_refl]) simp
  then obtain K1 where K1: "sym_calc_visibility ?c s (clear_flag s SYMBOL_WRITE V) = Inr K1" "?F K1"
    using visibility_in_frame [OF rV] by blast
  define K2 where "K2 = set_curr s ?new (if s_visible (k_sym K1 s) \<noteq> T_no then set_flag s SYMBOL_WRITE K1 else K1)"
  have K2: "?F K2" using K1(2) by (auto simp: K2_def intro!: frame_intro)
  obtain K3 where K3: "?F K3" "calc_tri ?c s T_no K2 = Inr (symbol_spec K s, K3)"
    using tri_in_frame [OF rV K2] spec by auto
  define K4 where "K4 = set_curr s (?new\<lparr>v_tri := symbol_spec K s\<rparr>) K3"
  have K4: "?F K4" using K3(1) by (auto simp: K4_def intro!: frame_intro)
  have c4: "\<not> (sym_is_choice s K4 \<and> v_tri (?new\<lparr>v_tri := symbol_spec K s\<rparr>) = T_yes)"
    using rV frame_flags(1) [OF K4] by (simp add: prepared_def)
  have range: "sym_validate_range ?c s K4 = Inr K4"
    using ty(2) frame_type [OF K4, of s] by (auto simp: sym_validate_range_def type_base_def)
  define K6 where "K6 = note_change s (s_curr (k_sym V s)) K4"
  have m: "k_modules_sym (sym_set_changed s K4) \<noteq> s" using frame_changed [OF K4] rV by (auto simp: sym_frame_def prepared_def)
  have K6: "?F K6" "s_curr (k_sym K6 s) = ?new\<lparr>v_tri := symbol_spec K s\<rparr>"
    using K4 frame_changed [OF K4] m
    by (auto simp: K6_def note_change_def Let_def sym_set_changed_def K4_def set_curr_def)
  have mark: "mark_choice_values s K6 = Inr K6"
    using rV frame_flags(1) [OF K6(1)] by (simp add: mark_choice_values_def prepared_def)
  define K8 where "K8 = (if flag_on s SYMBOL_NO_WRITE K6 then clear_flag s SYMBOL_WRITE K6 else K6)"
  have K8: "?F K8" "s_curr (k_sym K8 s) = ?new\<lparr>v_tri := symbol_spec K s\<rparr>"
    using K6 frame_clear [OF K6(1), of SYMBOL_WRITE] by (auto simp: K8_def clear_flag_def)
  have need: "\<not> flag_on s SYMBOL_NEED_SET_CHOICE_VALUES K8" using rV frame_flags(4) [OF K8(1)] by (simp add: prepared_def)
  have "calc_body ?c s K = Inr K8"
    unfolding calc_body_def V_def [symmetric] Let_def if_not_P [OF ty(1)] if_P [OF ty(2)] K1(1) bindE_Inr K2_def [symmetric]
      if_P [OF boolean_in_frame(2) [OF rV K2]] new K3(2) prod.case K4_def [symmetric] if_not_P [OF c4] range K6_def [symmetric]
      mark K8_def [symmetric] if_not_P [OF need]
    by (rule refl)
  then have "sym_calc_value (Suc (Suc n)) s K = Inr K8" using nv first by (simp add: sym_calc_value.simps(2) [of "Suc n"])
  moreover have "flag_on s SYMBOL_VALID K8" using frame_flags(5) [OF K8(1)] valid_on by (simp add: V_def)
  moreover have "tri_of K8 s = symbol_spec K s" using K8(2) by (simp add: tri_of_def sym_get_tristate_value_def)
  moreover have "\<forall>t. t \<noteq> s \<longrightarrow> k_sym K8 t = k_sym K t" using K8(1) by (simp add: sym_frame_def V_def)
  ultimately show ?thesis by blast
qed

end
