(* ===== verification/KSetProps.thy ===== *)
theory KSetProps
  imports KConf KValue
begin

text \<open>
  Which values a user can set: \<^verbatim>\<open>sym_tristate_within_range\<close> accepts those that the symbol then takes.
\<close>

unbundle bit_operations_syntax

definition with_user :: "symref \<Rightarrow> tristate \<Rightarrow> kconf \<Rightarrow> kconf" where
  "with_user s v K = set_flag s SYMBOL_DEF_USER (set_user_tri s v K)"

lemma with_user_parts [simp]:
  "tri_of (with_user s v K) = tri_of K" "cmp_of (with_user s v K) = cmp_of K" "without_m (with_user s v K) t = without_m K t"
  "s_prop (k_sym (with_user s v K) t) = s_prop (k_sym K t)" "s_dep (k_sym (with_user s v K) t) = s_dep (k_sym K t)"
  "sym_has_value s (with_user s v K)" "v_tri (s_def_user (k_sym (with_user s v K) s)) = v"
  by (simp_all add: fun_eq_iff with_user_def set_user_tri_def tri_of_def sym_get_tristate_value_def cmp_of_def text_of_def without_m_def
      upd_sym_def sym_has_value_def flag_on_def bit.conj_disj_distrib2 or_zero symbol_flags)

lemma with_user_spec:
  "symbol_spec (with_user s v K) s =
    (let vis = prompts_spec K s; im = dep_spec K s D_implied; t = default_spec K (s_prop (k_sym K s))
     in no_m (without_m K s) (max (if vis \<noteq> T_no then min v vis else if im \<noteq> T_no then min (max t im) (dep_spec K s D_dir) else t)
       (dep_spec K s D_rev)))"
proof -
  have c: "cond_value (with_user s v K) = cond_value K" unfolding cond_value_def with_user_parts by (rule refl)
  show ?thesis
    unfolding symbol_spec_def prompts_spec_def dep_spec_def default_spec_def c with_user_parts Let_def by simp
qed

lemma no_m_cases: "no_m b t = T_mod \<Longrightarrow> \<not> b"
  by (auto simp: no_m_def split: if_splits)

text \<open>The symbol is calculated, so that its marks are up to date.\<close>

lemma range_decides:
  assumes "prepared K s" and "s_visible (k_sym K s) = prompts_spec K s" and "s_dep_tri (k_sym K s) D_rev = dep_spec K s D_rev"
    and "dep_spec K s D_rev < prompts_spec K s"
  shows "sym_tristate_within_range s v K \<longleftrightarrow> symbol_spec (with_user s v K) s = v"
proof -
  have ty: "sym_get_type s K = S_BOOLEAN \<longleftrightarrow> without_m K s" "sym_get_type s K = S_BOOLEAN \<or> sym_get_type s K = S_TRISTATE"
    "\<not> sym_is_choice_value s K"
    using boolean_in_frame [OF assms(1) frame_refl] assms(1) by (auto simp: prepared_def)
  have m: "prompts_spec K s = T_mod \<Longrightarrow> \<not> without_m K s" "dep_spec K s D_rev = T_mod \<Longrightarrow> \<not> without_m K s"
    unfolding prompts_spec_def dep_spec_def by (erule no_m_cases)+
  have vis: "prompts_spec K s \<noteq> T_no" using assms(4) by (cases "dep_spec K s D_rev") (auto simp: tri_order)
  have "sym_tristate_within_range s v K \<longleftrightarrow> \<not> (without_m K s \<and> v = T_mod) \<and> dep_spec K s D_rev \<le> v \<and> v \<le> prompts_spec K s"
    using assms(2,3,4) ty vis by (auto simp: sym_tristate_within_range_def Let_def)
  moreover have "symbol_spec (with_user s v K) s = no_m (without_m K s) (max (min v (prompts_spec K s)) (dep_spec K s D_rev))"
    using vis by (simp add: with_user_spec Let_def)
  ultimately show ?thesis
    using m assms(4) vis
    by (cases "prompts_spec K s"; cases "dep_spec K s D_rev"; cases v) (auto simp: tri_order no_m_def min_def max_def)
qed

end
