(* ===== verification/KDeps.thy ===== *)
theory KDeps
  imports KSym
begin

text \<open>
  The search for circular dependencies, \<^verbatim>\<open>sym_check_deps\<close> of \<^verbatim>\<open>symbol.c\<close>, run on every symbol when the Kconfig files have been read. It
  returns a symbol on a circle, or none; the stack kept for the message, and the message, are left out. The recursion of \<^verbatim>\<open>sym_check_deps\<close>
  through conditions takes itself as an argument.
\<close>

unbundle bit_operations_syntax

type_synonym checker = "symref \<Rightarrow> kconf \<Rightarrow> (symref option \<times> kconf) res"

text \<open>The second check is made if the first one finds nothing.\<close>

definition then_check :: "(symref option \<times> kconf) res \<Rightarrow> (kconf \<Rightarrow> (symref option \<times> kconf) res) \<Rightarrow> (symref option \<times> kconf) res" where
  "then_check r f = bindE r (\<lambda>(found, K). if found \<noteq> None then Inr (found, K) else f K)"

fun check_expr_nn :: "checker \<Rightarrow> kexpr \<Rightarrow> kconf \<Rightarrow> (symref option \<times> kconf) res" where
  "check_expr_nn chk (X_or a b) K = then_check (check_expr_nn chk a K) (check_expr_nn chk b)"
| "check_expr_nn chk (X_and a b) K = then_check (check_expr_nn chk a K) (check_expr_nn chk b)"
| "check_expr_nn chk (X_not a) K = check_expr_nn chk a K"
| "check_expr_nn chk (X_cmp r a b) K = then_check (chk a K) (chk b)"
| "check_expr_nn chk (X_sym s) K = chk s K"
| "check_expr_nn chk e K = Inr (None, K)"

definition sym_check_expr_deps :: "checker \<Rightarrow> kexpr option \<Rightarrow> kconf \<Rightarrow> (symref option \<times> kconf) res" where
  "sym_check_expr_deps chk e K = (case e of None \<Rightarrow> Inr (None, K) | Some x \<Rightarrow> check_expr_nn chk x K)"

definition skipped_prop :: "property \<Rightarrow> bool" where
  "skipped_prop p \<longleftrightarrow> p_type p = P_CHOICE \<or> p_type p = P_SELECT \<or> p_type p = P_IMPLY"

fun check_props :: "checker \<Rightarrow> symref \<Rightarrow> property list \<Rightarrow> kconf \<Rightarrow> (symref option \<times> kconf) res" where
  "check_props chk s [] K = Inr (None, K)"
| "check_props chk s (p # ps) K =
     (if skipped_prop p then check_props chk s ps K
      else then_check (sym_check_expr_deps chk (p_visible p) K) (\<lambda>K1.
        if p_type p \<noteq> P_DEFAULT \<or> sym_is_choice s K1 then check_props chk s ps K1
        else then_check (sym_check_expr_deps chk (p_expr p) K1) (check_props chk s ps)))"

definition sym_check_sym_deps :: "checker \<Rightarrow> symref \<Rightarrow> kconf \<Rightarrow> (symref option \<times> kconf) res" where
  "sym_check_sym_deps chk s K =
     then_check (sym_check_expr_deps chk (s_dep (k_sym K s) D_dir) K) (\<lambda>K1.
     then_check (sym_check_expr_deps chk (s_dep (k_sym K1 s) D_rev) K1) (\<lambda>K2.
     then_check (sym_check_expr_deps chk (s_dep (k_sym K2 s) D_implied) K2) (\<lambda>K3. check_props chk s (s_prop (k_sym K3 s)) K3)))"

fun check_each :: "checker \<Rightarrow> symref list \<Rightarrow> kconf \<Rightarrow> (symref option \<times> kconf) res" where
  "check_each chk [] K = Inr (None, K)"
| "check_each chk (d # ds) K = then_check (sym_check_sym_deps chk d K) (check_each chk ds)"

text \<open>What a choice reports for one of its own values is the choice.\<close>

definition report_choice :: "symref \<Rightarrow> symref option \<Rightarrow> kconf \<Rightarrow> symref option res" where
  "report_choice c found K = (case found of
      None \<Rightarrow> Inr None
    | Some s2 \<Rightarrow>
        if sym_is_choice_value s2 K then
          bindE (deref (sym_get_choice_prop s2 K)) (\<lambda>p. Inr (if prop_get_symbol p = Some c then Some c else Some s2))
        else Inr (Some s2))"

definition sym_check_choice_deps :: "checker \<Rightarrow> symref \<Rightarrow> kconf \<Rightarrow> (symref option \<times> kconf) res" where
  "sym_check_choice_deps chk c K =
     bindE (deref (sym_get_choice_prop c K)) (\<lambda>p.
     let mark = SYMBOL_CHECK OR SYMBOL_CHECKED;
         K1 = set_flag c mark (fold (\<lambda>d. set_flag d mark) (choice_syms p) K) in
     bindE (sym_check_sym_deps chk c K1) (\<lambda>(found, K2).
     let K3 = clear_flag c SYMBOL_CHECK K2 in
     bindE (if found \<noteq> None then Inr (found, K3) else check_each chk (choice_syms p) K3) (\<lambda>(found, K4).
     let K5 = fold (\<lambda>d. clear_flag d SYMBOL_CHECK) (choice_syms p) K4 in
     bindE (report_choice c found K5) (\<lambda>r. Inr (r, K5)))))"

fun sym_check_deps :: "nat \<Rightarrow> symref \<Rightarrow> kconf \<Rightarrow> (symref option \<times> kconf) res" where
  "sym_check_deps 0 s K = Inl (Assert_fail ''fuel'')"
| "sym_check_deps (Suc n) s K =
     (if flag_on s SYMBOL_CHECK K then Inr (Some s, K)
      else if flag_on s SYMBOL_CHECKED K then Inr (None, K)
      else if sym_is_choice_value s K then
        bindE (deref (sym_get_choice_prop s K)) (\<lambda>p. bindE (deref (prop_get_symbol p)) (\<lambda>c. sym_check_deps n c K))
      else if sym_is_choice s K then sym_check_choice_deps (sym_check_deps n) s K
      else bindE (sym_check_sym_deps (sym_check_deps n) s (set_flag s (SYMBOL_CHECK OR SYMBOL_CHECKED) K)) (\<lambda>(found, K1).
        Inr (found, clear_flag s SYMBOL_CHECK K1)))"

text \<open>The check of all symbols, in the parser; the number of those for which it fails.\<close>

fun check_all :: "nat \<Rightarrow> symref list \<Rightarrow> nat \<Rightarrow> kconf \<Rightarrow> (nat \<times> kconf) res" where
  "check_all n [] errs K = Inr (errs, K)"
| "check_all n (s # ss) errs K =
     bindE (sym_check_deps n s K) (\<lambda>(found, K1). check_all n ss (if found \<noteq> None then errs + 1 else errs) K1)"

end
