(* ===== verification/KDepsProps.thy ===== *)
theory KDepsProps
  imports KDeps KSymProps
begin

text \<open>
  What the search for circular dependencies shows: where it finds none, no symbol depends on itself through the conditions it follows. The
  symbols that are checked and no longer under way are closed under dependencies and free of circles; the interface \<open>dep_checker\<close> states
  this for the nested calls.
\<close>

unbundle bit_operations_syntax

section \<open>Dependencies\<close>

fun cond_symbols :: "kexpr \<Rightarrow> symref set" where
  "cond_symbols (X_sym s) = {s}"
| "cond_symbols (X_not a) = cond_symbols a"
| "cond_symbols (X_and a b) = cond_symbols a \<union> cond_symbols b"
| "cond_symbols (X_or a b) = cond_symbols a \<union> cond_symbols b"
| "cond_symbols (X_cmp r a b) = {a, b}"
| "cond_symbols e = {}"

definition opt_symbols :: "kexpr option \<Rightarrow> symref set" where
  "opt_symbols e = (case e of None \<Rightarrow> {} | Some x \<Rightarrow> cond_symbols x)"

text \<open>The table without the marks.\<close>

definition choice_flags :: u32 where
  "choice_flags = SYMBOL_CHOICE OR SYMBOL_CHOICEVAL"

definition tree :: "kconf \<Rightarrow> symref \<Rightarrow> symbol" where
  "tree K t = (k_sym K t)\<lparr>s_flags := s_flags (k_sym K t) AND choice_flags\<rparr>"

definition prop_deps :: "bool \<Rightarrow> property list \<Rightarrow> symref set" where
  "prop_deps choice ps = (\<Union>p \<in> {p \<in> set ps. \<not> skipped_prop p}. opt_symbols (p_visible p) \<union>
     (if p_type p = P_DEFAULT \<and> \<not> choice then opt_symbols (p_expr p) else {}))"

text \<open>The symbols that \<open>t\<close> depends on, given the table without marks.\<close>

definition depends_on :: "(symref \<Rightarrow> symbol) \<Rightarrow> symref \<Rightarrow> symref set" where
  "depends_on T t = (\<Union>d. opt_symbols (s_dep (T t) d)) \<union> prop_deps (s_flags (T t) AND SYMBOL_CHOICE \<noteq> 0) (s_prop (T t))"

definition dependencies :: "(symref \<Rightarrow> symbol) \<Rightarrow> symref set \<Rightarrow> (symref \<times> symref) set" where
  "dependencies T D = {(u, t). t \<in> D \<and> u \<in> depends_on T t}"

definition checked_set :: "kconf \<Rightarrow> symref set" where
  "checked_set K = {t. flag_on t SYMBOL_CHECKED K \<and> \<not> flag_on t SYMBOL_CHECK K}"

definition open_set :: "kconf \<Rightarrow> symref set" where
  "open_set K = {t. flag_on t SYMBOL_CHECK K}"

text \<open>Closed under dependencies, and free of circles.\<close>

definition settled :: "(symref \<Rightarrow> symbol) \<Rightarrow> symref set \<Rightarrow> bool" where
  "settled T D \<longleftrightarrow> (\<forall>t \<in> D. depends_on T t \<subseteq> D) \<and> wf (dependencies T D)"

lemma settled_empty [simp]: "settled T {}"
  by (simp add: settled_def dependencies_def)

lemma settled_extend:
  assumes "settled T D" and "\<forall>t \<in> N. depends_on T t \<subseteq> D" and "D \<inter> N = {}"
  shows "settled T (D \<union> N)"
proof -
  have wfD: "wf (dependencies T D)" using assms(1) by (simp add: settled_def)
  have "wf (dependencies T (D \<union> N))"
  proof (rule wfUNIVI)
    fix P x
    assume step: "\<forall>x. (\<forall>y. (y, x) \<in> dependencies T (D \<union> N) \<longrightarrow> P y) \<longrightarrow> P x"
    have d: "t \<in> D \<longrightarrow> P t" for t
    proof (induction t rule: wf_induct_rule [OF wfD])
      case (1 t)
      show ?case
      proof
        assume t: "t \<in> D"
        then have "P y" if "(y, t) \<in> dependencies T (D \<union> N)" for y
          using 1 that assms(1) by (auto simp: dependencies_def settled_def)
        then show "P t" using step by blast
      qed
    qed
    have n: "P t" if "t \<in> N" for t
    proof -
      have "P y" if "(y, t) \<in> dependencies T (D \<union> N)" for y
        using that \<open>t \<in> N\<close> assms(2) d by (auto simp: dependencies_def)
      then show ?thesis using step by blast
    qed
    show "P x"
    proof (cases "x \<in> D \<union> N")
      case False
      then have "P y" if "(y, x) \<in> dependencies T (D \<union> N)" for y using that by (simp add: dependencies_def)
      then show ?thesis using step by blast
    qed (use d n in blast)
  qed
  moreover have "\<forall>t \<in> D \<union> N. depends_on T t \<subseteq> D \<union> N" using assms(1,2) unfolding settled_def by blast
  ultimately show ?thesis unfolding settled_def by blast
qed

section \<open>Marks\<close>

lemma mark_flags [simp]:
  "SYMBOL_CHECK AND choice_flags = 0" "(SYMBOL_CHECK OR SYMBOL_CHECKED) AND choice_flags = 0"
  "SYMBOL_CHECK AND SYMBOL_CHECKED = 0"
  by (simp_all add: choice_flags_def symbol_flags)

lemma tree_set [simp]: "f AND choice_flags = 0 \<Longrightarrow> tree (set_flag s f K) = tree K"
  by (simp add: fun_eq_iff tree_def set_flag_def and_or_zero)

lemma tree_clear [simp]: "f AND choice_flags = 0 \<Longrightarrow> tree (clear_flag s f K) = tree K"
  by (simp add: fun_eq_iff tree_def clear_flag_def and_not_disjoint)

lemma flag_set: "flag_on t g (set_flag s f K) \<longleftrightarrow> flag_on t g K \<or> t = s \<and> f AND g \<noteq> 0"
  by (auto simp: flag_on_def set_flag_def bit.conj_disj_distrib2 or_zero)

lemma flag_clear_check:
  "flag_on t SYMBOL_CHECK (clear_flag s SYMBOL_CHECK K) \<longleftrightarrow> flag_on t SYMBOL_CHECK K \<and> t \<noteq> s"
  "flag_on t SYMBOL_CHECKED (clear_flag s SYMBOL_CHECK K) = flag_on t SYMBOL_CHECKED K"
proof -
  have "(w AND NOT SYMBOL_CHECK) AND SYMBOL_CHECK = 0" for w :: u32
    by (rule bit_word_eqI) (simp add: bit_and_iff bit_not_iff)
  then show "flag_on t SYMBOL_CHECK (clear_flag s SYMBOL_CHECK K) \<longleftrightarrow> flag_on t SYMBOL_CHECK K \<and> t \<noteq> s"
    "flag_on t SYMBOL_CHECKED (clear_flag s SYMBOL_CHECK K) = flag_on t SYMBOL_CHECKED K"
    by (simp_all add: flag_on_def clear_flag_def and_not_disjoint)
qed

definition mark :: u32 where "mark = SYMBOL_CHECK OR SYMBOL_CHECKED"

lemma mark_on [simp]: "mark AND SYMBOL_CHECK \<noteq> 0" "mark AND SYMBOL_CHECKED \<noteq> 0" "mark AND choice_flags = 0"
  by (simp_all add: mark_def choice_flags_def symbol_flags)

lemma marked_fold:
  "tree (fold (\<lambda>d. set_flag d mark) ds K) = tree K"
  "flag_on t SYMBOL_CHECK (fold (\<lambda>d. set_flag d mark) ds K) \<longleftrightarrow> flag_on t SYMBOL_CHECK K \<or> t \<in> set ds"
  "flag_on t SYMBOL_CHECKED (fold (\<lambda>d. set_flag d mark) ds K) \<longleftrightarrow> flag_on t SYMBOL_CHECKED K \<or> t \<in> set ds"
  by (induction ds arbitrary: K) (auto simp: flag_set)

lemma cleared_fold:
  "tree (fold (\<lambda>d. clear_flag d SYMBOL_CHECK) ds K) = tree K"
  "flag_on t SYMBOL_CHECK (fold (\<lambda>d. clear_flag d SYMBOL_CHECK) ds K) \<longleftrightarrow> flag_on t SYMBOL_CHECK K \<and> t \<notin> set ds"
  "flag_on t SYMBOL_CHECKED (fold (\<lambda>d. clear_flag d SYMBOL_CHECK) ds K) = flag_on t SYMBOL_CHECKED K"
  by (induction ds arbitrary: K) (auto simp: flag_clear_check)

section \<open>Choices\<close>

definition choice_prop_of :: "symbol \<Rightarrow> property option" where
  "choice_prop_of x = List.find (\<lambda>p. p_type p = P_CHOICE) (s_prop x)"

definition is_choice :: "symbol \<Rightarrow> bool" where
  "is_choice x \<longleftrightarrow> s_flags x AND SYMBOL_CHOICE \<noteq> 0"

definition is_choice_value :: "symbol \<Rightarrow> bool" where
  "is_choice_value x \<longleftrightarrow> s_flags x AND SYMBOL_CHOICEVAL \<noteq> 0"

text \<open>The values of a choice point to it, and it lists them; this is how \<^verbatim>\<open>menu_finalize\<close> links them.\<close>

definition value_of :: "(symref \<Rightarrow> symbol) \<Rightarrow> symref \<Rightarrow> symref \<Rightarrow> bool" where
  "value_of T c d \<longleftrightarrow> is_choice (T c) \<and> (\<exists>q. choice_prop_of (T c) = Some q \<and> d \<in> set (choice_syms q))"

definition choices_ok :: "(symref \<Rightarrow> symbol) \<Rightarrow> bool" where
  "choices_ok T \<longleftrightarrow>
     (\<forall>t. is_choice_value (T t) \<longrightarrow> \<not> is_choice (T t)) \<and>
     (\<forall>t p c. is_choice_value (T t) \<and> choice_prop_of (T t) = Some p \<and> prop_get_symbol p = Some c \<longrightarrow> value_of T c t) \<and>
     (\<forall>c d. value_of T c d \<longrightarrow> is_choice_value (T d) \<and> (\<exists>p. choice_prop_of (T d) = Some p \<and> prop_get_symbol p = Some c))"

lemma tree_reads:
  assumes "tree K = T"
  shows "sym_get_choice_prop t K = choice_prop_of (T t)" "sym_is_choice t K = is_choice (T t)" "sym_is_choice_value t K = is_choice_value (T t)"
    "s_dep (k_sym K t) = s_dep (T t)" "s_prop (k_sym K t) = s_prop (T t)"
proof -
  have f: "choice_flags AND SYMBOL_CHOICE = SYMBOL_CHOICE" "choice_flags AND SYMBOL_CHOICEVAL = SYMBOL_CHOICEVAL"
    by (simp_all add: choice_flags_def symbol_flags)
  show "sym_get_choice_prop t K = choice_prop_of (T t)" "sym_is_choice t K = is_choice (T t)" "sym_is_choice_value t K = is_choice_value (T t)"
    "s_dep (k_sym K t) = s_dep (T t)" "s_prop (k_sym K t) = s_prop (T t)"
    unfolding assms [symmetric]
    by (simp_all add: tree_def sym_get_choice_prop_def choice_prop_of_def sym_is_choice_def is_choice_def sym_is_choice_value_def
        is_choice_value_def flag_on_def and.assoc f)
qed

section \<open>The invariant of the search\<close>

definition search_inv :: "(symref \<Rightarrow> symbol) \<Rightarrow> kconf \<Rightarrow> bool" where
  "search_inv T K \<longleftrightarrow> tree K = T \<and> choices_ok T \<and> (\<forall>t. flag_on t SYMBOL_CHECK K \<longrightarrow> flag_on t SYMBOL_CHECKED K) \<and>
     settled T (checked_set K) \<and> (\<forall>c d. value_of T c d \<longrightarrow> flag_on d SYMBOL_CHECKED K = flag_on c SYMBOL_CHECKED K)"

definition later :: "(symref \<Rightarrow> symbol) \<Rightarrow> kconf \<Rightarrow> kconf \<Rightarrow> bool" where
  "later T K K' \<longleftrightarrow> search_inv T K' \<and> checked_set K \<subseteq> checked_set K' \<and> open_set K' = open_set K"

text \<open>A check that finds nothing has checked the symbols of \<open>S\<close>.\<close>

definition checks :: "(symref \<Rightarrow> symbol) \<Rightarrow> kconf \<Rightarrow> (symref option \<times> kconf) res \<Rightarrow> symref set \<Rightarrow> bool" where
  "checks T K r S \<longleftrightarrow> (\<forall>K'. r = Inr (None, K') \<longrightarrow> later T K K' \<and> S \<subseteq> checked_set K')"

lemma later_refl: "search_inv T K \<Longrightarrow> later T K K"
  by (simp add: later_def)

lemma later_trans: "later T K K1 \<Longrightarrow> later T K1 K2 \<Longrightarrow> later T K K2"
  by (auto simp: later_def)

lemma later_inv: "later T K K' \<Longrightarrow> search_inv T K'"
  by (simp add: later_def)

lemma checks_then:
  assumes "checks T K r S1" and "\<And>K1. search_inv T K1 \<Longrightarrow> checks T K1 (f K1) S2"
  shows "checks T K (then_check r f) (S1 \<union> S2)"
  unfolding checks_def
proof (intro allI impI)
  fix K' assume "then_check r f = Inr (None, K')"
  then obtain K1 where r: "r = Inr (None, K1)" "f K1 = Inr (None, K')"
    by (auto simp: then_check_def bindE_eq_Inr_iff split: if_splits)
  then have "later T K K1" "S1 \<subseteq> checked_set K1" using assms(1) by (auto simp: checks_def)
  moreover have "later T K1 K'" "S2 \<subseteq> checked_set K'" using assms(2) [OF later_inv [OF calculation(1)]] r(2) by (auto simp: checks_def)
  ultimately show "later T K K' \<and> S1 \<union> S2 \<subseteq> checked_set K'" by (auto intro: later_trans simp: later_def)
qed

lemma checks_none: "search_inv T K \<Longrightarrow> checks T K (Inr (None, K)) {}"
  by (simp add: checks_def later_refl)

locale dep_checker =
  fixes T :: "symref \<Rightarrow> symbol" and chk :: checker
  assumes chk_checks: "search_inv T K \<Longrightarrow> checks T K (chk s K) {s}"
begin

lemma expr_nn_checks: "search_inv T K \<Longrightarrow> checks T K (check_expr_nn chk e K) (cond_symbols e)"
proof (induction e arbitrary: K)
  case (X_and a b)
  show ?case using checks_then [OF X_and.IH(1) [OF X_and.prems] X_and.IH(2)] by simp
next
  case (X_or a b)
  show ?case using checks_then [OF X_or.IH(1) [OF X_or.prems] X_or.IH(2)] by simp
next
  case (X_cmp r a b)
  show ?case using checks_then [OF chk_checks [OF X_cmp] chk_checks] by (simp add: insert_commute)
qed (auto simp: chk_checks checks_none)

lemma expr_checks: "search_inv T K \<Longrightarrow> checks T K (sym_check_expr_deps chk e K) (opt_symbols e)"
  by (cases e) (simp_all add: sym_check_expr_deps_def opt_symbols_def expr_nn_checks checks_none)

lemma props_check:
  "search_inv T K \<Longrightarrow> checks T K (check_props chk s ps K) (prop_deps (is_choice (T s)) ps)"
proof (induction ps arbitrary: K)
  case (Cons p ps)
  define b where "b = is_choice (T s)"
  let ?d = "if p_type p = P_DEFAULT \<and> \<not> b then opt_symbols (p_expr p) else {}"
  have u: "prop_deps b (p # ps) = (if skipped_prop p then {} else opt_symbols (p_visible p) \<union> ?d) \<union> prop_deps b ps"
    by (auto simp: prop_deps_def)
  have ch: "search_inv T K1 \<Longrightarrow> sym_is_choice s K1 = b" for K1
    using tree_reads(2) by (simp add: search_inv_def b_def)
  note IH = Cons.IH [folded b_def]
  show ?case
    unfolding b_def [symmetric] u
  proof (cases "skipped_prop p")
    case False
    have rest: "checks T K1 (if p_type p \<noteq> P_DEFAULT \<or> sym_is_choice s K1 then check_props chk s ps K1
        else then_check (sym_check_expr_deps chk (p_expr p) K1) (check_props chk s ps)) (?d \<union> prop_deps b ps)"
      if i: "search_inv T K1" for K1
    proof (cases "p_type p = P_DEFAULT \<and> \<not> b")
      case True
      show ?thesis
        using True checks_then [OF expr_checks [OF i, of "p_expr p"] IH] ch [OF i] by simp
    qed (use IH [OF i] ch [OF i] in auto)
    show "checks T K (check_props chk s (p # ps) K) ((if skipped_prop p then {} else opt_symbols (p_visible p) \<union> ?d) \<union> prop_deps b ps)"
      using False checks_then [OF expr_checks [OF Cons.prems, of "p_visible p"] rest] by (simp add: Un_assoc)
  qed (use IH [OF Cons.prems] in simp)
qed (simp add: checks_none prop_deps_def)

lemma sym_deps_check: "search_inv T K \<Longrightarrow> checks T K (sym_check_sym_deps chk s K) (depends_on T s)"
proof -
  assume i: "search_inv T K"
  have t: "search_inv T K1 \<Longrightarrow> s_dep (k_sym K1 s) = s_dep (T s) \<and> s_prop (k_sym K1 s) = s_prop (T s)" for K1
    using tree_reads(4,5) by (simp add: search_inv_def)
  let ?o = "\<lambda>d. opt_symbols (s_dep (T s) d)"
  have "checks T K (sym_check_sym_deps chk s K) (?o D_dir \<union> (?o D_rev \<union> (?o D_implied \<union> prop_deps (is_choice (T s)) (s_prop (T s)))))"
    unfolding sym_check_sym_deps_def
    by (auto intro!: checks_then expr_checks props_check i simp: t i)
  moreover have "(\<Union>d. ?o d) = ?o D_dir \<union> ?o D_rev \<union> ?o D_implied"
    by (auto, metis dep_kind.exhaust)
  ultimately show ?thesis by (simp add: depends_on_def is_choice_def Un_assoc)
qed

lemma each_checks: "search_inv T K \<Longrightarrow> checks T K (check_each chk ds K) (\<Union>d \<in> set ds. depends_on T d)"
proof (induction ds arbitrary: K)
  case (Cons d ds)
  show ?case using checks_then [OF sym_deps_check [OF Cons.prems] Cons.IH] by simp
qed (simp add: checks_none)

end

section \<open>The search keeps the invariant\<close>

lemma search_invI:
  "tree K = T \<Longrightarrow> choices_ok T \<Longrightarrow> (\<And>t. flag_on t SYMBOL_CHECK K \<Longrightarrow> flag_on t SYMBOL_CHECKED K) \<Longrightarrow> settled T (checked_set K) \<Longrightarrow>
    (\<And>c d. value_of T c d \<Longrightarrow> flag_on d SYMBOL_CHECKED K = flag_on c SYMBOL_CHECKED K) \<Longrightarrow> search_inv T K"
  unfolding search_inv_def by blast

lemma search_invD:
  assumes "search_inv T K"
  shows "tree K = T" "choices_ok T" "flag_on t SYMBOL_CHECK K \<Longrightarrow> flag_on t SYMBOL_CHECKED K" "settled T (checked_set K)"
    "value_of T c d \<Longrightarrow> flag_on d SYMBOL_CHECKED K = flag_on c SYMBOL_CHECKED K"
  using assms unfolding search_inv_def by blast+

lemma value_of_props:
  assumes "choices_ok T" and "value_of T c d"
  shows "is_choice (T c)" "\<not> is_choice_value (T c)" "is_choice_value (T d)" "\<not> is_choice (T d)" "value_of T c' d \<Longrightarrow> c' = c"
proof -
  show v: "is_choice (T c)" "is_choice_value (T d)" using assms unfolding choices_ok_def value_of_def by blast+
  then show "\<not> is_choice_value (T c)" "\<not> is_choice (T d)" using assms(1) unfolding choices_ok_def by blast+
  show "c' = c" if "value_of T c' d"
  proof -
    have "\<exists>p. choice_prop_of (T d) = Some p \<and> prop_get_symbol p = Some x" if "value_of T x d" for x
      using assms(1) that unfolding choices_ok_def by blast
    from this [OF assms(2)] this [OF that] show ?thesis by auto
  qed
qed

lemma ordinary_checks:
  assumes ih: "dep_checker T chk" and i: "search_inv T K"
    and un: "\<not> flag_on s SYMBOL_CHECK K" "\<not> flag_on s SYMBOL_CHECKED K" and plain: "\<not> is_choice (T s)" "\<not> is_choice_value (T s)"
  shows "checks T K (bindE (sym_check_sym_deps chk s (set_flag s mark K)) (\<lambda>(found, K1). Inr (found, clear_flag s SYMBOL_CHECK K1))) {s}"
  unfolding checks_def
proof (intro allI impI)
  fix K' assume "bindE (sym_check_sym_deps chk s (set_flag s mark K)) (\<lambda>(found, K1). Inr (found, clear_flag s SYMBOL_CHECK K1)) = Inr (None, K')"
  then obtain K1 where K1: "sym_check_sym_deps chk s (set_flag s mark K) = Inr (None, K1)" "K' = clear_flag s SYMBOL_CHECK K1"
    by (auto simp: bindE_eq_Inr_iff)
  let ?M = "set_flag s mark K"
  have M: "checked_set ?M = checked_set K" "open_set ?M = insert s (open_set K)"
    using un by (auto simp: checked_set_def open_set_def flag_set)
  note iD = search_invD [OF i]
  have ne: "value_of T c d \<Longrightarrow> d \<noteq> s \<and> c \<noteq> s" for c d
    using value_of_props [OF iD(2)] plain by metis
  have iM: "search_inv T ?M"
  proof (rule search_invI)
    show "flag_on d SYMBOL_CHECKED ?M = flag_on c SYMBOL_CHECKED ?M" if "value_of T c d" for c d
      using ne [OF that] iD(5) [OF that] by (simp add: flag_set)
    show "flag_on t SYMBOL_CHECK ?M \<Longrightarrow> flag_on t SYMBOL_CHECKED ?M" for t using iD(3) [of t] by (auto simp: flag_set)
  qed (use iD(1,2,4) in \<open>simp_all add: M(1)\<close>)
  have c: "later T ?M K1" "depends_on T s \<subseteq> checked_set K1"
    using dep_checker.sym_deps_check [OF ih iM] K1(1) by (auto simp: checks_def)
  have oc: "open_set K1 = insert s (open_set K)" using c(1) M(2) by (simp add: later_def)
  have s1: "s \<notin> checked_set K1" using oc by (auto simp: open_set_def checked_set_def)
  have i1: "search_inv T K1" by (rule later_inv [OF c(1)])
  have sC: "flag_on s SYMBOL_CHECKED K1" using i1 oc by (auto simp: search_inv_def open_set_def)
  have K': "checked_set K' = checked_set K1 \<union> {s}" "open_set K' = open_set K"
    using sC oc un(1) by (auto simp: K1(2) checked_set_def open_set_def flag_clear_check)
  have "settled T (checked_set K')"
    unfolding K'(1) by (rule settled_extend) (use i1 c(2) s1 in \<open>auto simp: search_inv_def\<close>)
  then have "search_inv T K'"
    using i1 by (auto simp: search_inv_def K1(2) flag_clear_check)
  then show "later T K K' \<and> {s} \<subseteq> checked_set K'"
    using c(1) M(1) K' by (auto simp: later_def)
qed

lemma report_none: "report_choice c f K = Inr None \<longleftrightarrow> f = None"
  by (cases f) (auto simp: report_choice_def bindE_eq_Inr_iff)

lemma choice_checks:
  assumes ih: "dep_checker T chk" and i: "search_inv T K"
    and un: "\<not> flag_on s SYMBOL_CHECK K" "\<not> flag_on s SYMBOL_CHECKED K" and ch: "is_choice (T s)"
  shows "checks T K (sym_check_choice_deps chk s K) {s}"
  unfolding checks_def
proof (intro allI impI)
  fix K' assume r: "sym_check_choice_deps chk s K = Inr (None, K')"
  have tK: "tree K = T" using i by (simp add: search_inv_def)
  obtain q where q: "choice_prop_of (T s) = Some q"
    using r tree_reads(1) [OF tK] by (cases "choice_prop_of (T s)") (auto simp: sym_check_choice_deps_def deref_def null_deref_def)
  let ?ds = "choice_syms q" and ?M = "set_flag s mark (fold (\<lambda>d. set_flag d mark) (choice_syms q) K)"
  have v: "d \<in> set ?ds \<longleftrightarrow> value_of T s d" for d using ch q by (auto simp: value_of_def)
  have ok: "choices_ok T" using i by (simp add: search_inv_def)
  have sd: "s \<notin> set ?ds" using ok ch v unfolding choices_ok_def by blast
  note iD = search_invD [OF i]
  have own: "d \<in> insert s (set ?ds) \<longleftrightarrow> c = s" "c \<in> insert s (set ?ds) \<longleftrightarrow> c = s" if "value_of T c d" for c d
    using value_of_props [OF ok that] value_of_props(3,4) [OF ok] ch v that by blast+
  have unc: "\<not> flag_on d SYMBOL_CHECKED K" if "d \<in> insert s (set ?ds)" for d
    using that un(2) iD(5) [of s d] v by blast
  have unv: "\<not> flag_on d SYMBOL_CHECKED K" "\<not> flag_on d SYMBOL_CHECK K" if "d \<in> insert s (set ?ds)" for d
    using unc [OF that] iD(3) by blast+
  have M: "checked_set ?M = checked_set K" "open_set ?M = insert s (set ?ds) \<union> open_set K"
    using unv by (auto simp: checked_set_def open_set_def flag_set marked_fold)
  have iM: "search_inv T ?M"
  proof (rule search_invI)
    show "flag_on d SYMBOL_CHECKED ?M = flag_on c SYMBOL_CHECKED ?M" if "value_of T c d" for c d
      using own [OF that] iD(5) [OF that] by (simp add: flag_set marked_fold) blast
    show "flag_on t SYMBOL_CHECK ?M \<Longrightarrow> flag_on t SYMBOL_CHECKED ?M" for t using iD(3) [of t] by (auto simp: flag_set marked_fold)
  qed (use iD(1,2,4) in \<open>simp_all add: M(1) marked_fold\<close>)
  obtain K2 K4 where K2: "sym_check_sym_deps chk s ?M = Inr (None, K2)"
    and K4: "check_each chk ?ds (clear_flag s SYMBOL_CHECK K2) = Inr (None, K4)"
    and K5: "K' = fold (\<lambda>d. clear_flag d SYMBOL_CHECK) ?ds K4"
    using r tree_reads(1) [OF tK, of s] q
    by (auto simp: sym_check_choice_deps_def deref_def Let_def bindE_eq_Inr_iff report_none mark_def [symmetric]
        split: if_splits)
  let ?K3 = "clear_flag s SYMBOL_CHECK K2"
  have c2: "later T ?M K2" "depends_on T s \<subseteq> checked_set K2"
    using dep_checker.sym_deps_check [OF ih iM] K2 by (auto simp: checks_def)
  have i2: "search_inv T K2" by (rule later_inv [OF c2(1)])
  have o2: "open_set K2 = insert s (set ?ds) \<union> open_set K" using c2(1) M(2) by (simp add: later_def)
  have s2: "s \<notin> checked_set K2" "flag_on s SYMBOL_CHECKED K2" using o2 i2 by (auto simp: open_set_def checked_set_def search_inv_def)
  have K3: "checked_set ?K3 = checked_set K2 \<union> {s}" "open_set ?K3 = set ?ds \<union> open_set K"
    using s2 o2 sd un(1) by (auto simp: checked_set_def open_set_def flag_clear_check)
  have "settled T (checked_set ?K3)"
    unfolding K3(1) by (rule settled_extend) (use i2 c2(2) s2 in \<open>auto simp: search_inv_def\<close>)
  then have i3: "search_inv T ?K3" using i2 by (auto simp: search_inv_def flag_clear_check)
  have c4: "later T ?K3 K4" "\<forall>d \<in> set ?ds. depends_on T d \<subseteq> checked_set K4"
    using dep_checker.each_checks [OF ih i3] K4 by (auto simp: checks_def)
  have i4: "search_inv T K4" by (rule later_inv [OF c4(1)])
  have o4: "open_set K4 = set ?ds \<union> open_set K" using c4(1) K3(2) by (simp add: later_def)
  have d4: "checked_set K4 \<inter> set ?ds = {}" "\<forall>d \<in> set ?ds. flag_on d SYMBOL_CHECKED K4"
    using o4 i4 by (auto simp: open_set_def checked_set_def search_inv_def)
  have K': "checked_set K' = checked_set K4 \<union> set ?ds" "open_set K' = open_set K"
    using d4 o4 unv by (auto simp: K5 checked_set_def open_set_def cleared_fold)
  have "settled T (checked_set K')"
    unfolding K'(1) by (rule settled_extend) (use i4 c4(2) d4(1) in \<open>auto simp: search_inv_def\<close>)
  then have "search_inv T K'" using i4 by (auto simp: search_inv_def K5 cleared_fold)
  then show "later T K K' \<and> {s} \<subseteq> checked_set K'"
    using c2(1) c4(1) M(1) K3(1) K' by (auto simp: later_def)
qed

lemma deps_check: "dep_checker T (sym_check_deps n)"
proof (induction n)
  case 0
  show ?case by unfold_locales (simp add: checks_def)
next
  case (Suc n)
  show ?case
  proof
    fix K s assume i: "search_inv T K"
    have tK: "tree K = T" using i by (simp add: search_inv_def)
    note reads = tree_reads(1,2,3) [OF tK, of s]
    show "checks T K (sym_check_deps (Suc n) s K) {s}"
    proof (cases "flag_on s SYMBOL_CHECK K \<or> flag_on s SYMBOL_CHECKED K")
      case True
      then show ?thesis using later_refl [OF i] by (auto simp: checks_def checked_set_def)
    next
      case False
      consider (val) "is_choice_value (T s)" | (cho) "\<not> is_choice_value (T s)" "is_choice (T s)"
        | (plain) "\<not> is_choice_value (T s)" "\<not> is_choice (T s)" by blast
      then show ?thesis
      proof cases
        case val
        show ?thesis
          unfolding checks_def
        proof (intro allI impI)
          fix K' assume "sym_check_deps (Suc n) s K = Inr (None, K')"
          then obtain p c where p: "choice_prop_of (T s) = Some p" "prop_get_symbol p = Some c" "sym_check_deps n c K = Inr (None, K')"
            using False val reads by (auto simp: bindE_eq_Inr_iff deref_def null_deref_def split: option.splits)
          have l: "later T K K'" "c \<in> checked_set K'"
            using dep_checker.chk_checks [OF Suc i, of c] p(3) by (auto simp: checks_def)
          have "value_of T c s" using i val p(1,2) by (auto simp: search_inv_def choices_ok_def)
          then have "flag_on s SYMBOL_CHECKED K'" using l by (auto simp: later_def search_inv_def checked_set_def)
          moreover have "\<not> flag_on s SYMBOL_CHECK K'" using l(1) False by (auto simp: later_def open_set_def)
          ultimately show "later T K K' \<and> {s} \<subseteq> checked_set K'" using l(1) by (simp add: checked_set_def)
        qed
      next
        case cho
        then show ?thesis using choice_checks [OF Suc i] False reads by simp
      next
        case plain
        then show ?thesis using ordinary_checks [OF Suc i] False reads by (simp add: mark_def)
      qed
    qed
  qed
qed

interpretation search: dep_checker T "sym_check_deps n" for T n
  by (rule deps_check)

text \<open>All symbols are checked and none is reported: what they depend on is checked, and there are no circles.\<close>

lemma check_all_errors: "check_all n ss e K = Inr (e', K') \<Longrightarrow> e \<le> e'"
  by (induction ss arbitrary: e K) (fastforce simp: bindE_eq_Inr_iff split: if_splits)+

lemma check_all_settled:
  "search_inv T K \<Longrightarrow> check_all n ss e K = Inr (e, K') \<Longrightarrow> later T K K' \<and> set ss \<subseteq> checked_set K'"
proof (induction ss arbitrary: K)
  case (Cons s ss)
  obtain f K1 where K1: "sym_check_deps n s K = Inr (f, K1)" "check_all n ss (if f \<noteq> None then e + 1 else e) K1 = Inr (e, K')"
    using Cons.prems(2) by (auto simp: bindE_eq_Inr_iff)
  then have f: "f = None" using check_all_errors [OF K1(2)] by (auto split: if_splits)
  then have l: "later T K K1" "s \<in> checked_set K1"
    using search.chk_checks [OF Cons.prems(1), of n s] K1(1) by (auto simp: checks_def)
  then show ?case using Cons.IH [OF later_inv [OF l(1)]] K1(2) f by (auto intro: later_trans simp: later_def)
qed (simp add: later_refl)

definition dependency :: "(symref \<Rightarrow> symbol) \<Rightarrow> (symref \<times> symref) set" where
  "dependency T = {(u, t). u \<in> depends_on T t}"

lemma settled_acyclic:
  assumes "settled T D" and "t \<in> D" and "(u, t) \<in> (dependency T)\<^sup>*"
  shows "(u, u) \<notin> (dependency T)\<^sup>+"
proof -
  have closed: "y \<in> D \<Longrightarrow> (x, y) \<in> dependency T \<Longrightarrow> x \<in> D \<and> (x, y) \<in> dependencies T D" for x y
    using assms(1) by (auto simp: settled_def dependency_def dependencies_def)
  have path: "(x, y) \<in> (dependency T)\<^sup>+ \<Longrightarrow> y \<in> D \<Longrightarrow> x \<in> D \<and> (x, y) \<in> (dependencies T D)\<^sup>+" for x y
    by (induction rule: converse_trancl_induct) (blast dest: closed, meson closed trancl_into_trancl2)
  have "u \<in> D" using assms(3,2) by (induction rule: converse_rtrancl_induct) (auto dest: closed)
  have "wf ((dependencies T D)\<^sup>+)" using assms(1) by (simp add: settled_def wf_trancl)
  then have "(u, u) \<notin> (dependencies T D)\<^sup>+" by (rule wf_not_refl)
  then show ?thesis using path \<open>u \<in> D\<close> by blast
qed

text \<open>
  \<open>A\<close> holds the symbols of the table; a reference that is none of them counts as checked, and has no dependencies.
\<close>

definition before_check :: "symref set \<Rightarrow> kconf \<Rightarrow> bool" where
  "before_check A K \<longleftrightarrow> finite A \<and> choices_ok (tree K) \<and> (\<forall>t. \<not> flag_on t SYMBOL_CHECK K) \<and>
     (\<forall>t. flag_on t SYMBOL_CHECKED K \<longleftrightarrow> t \<notin> A) \<and> (\<forall>t. t \<notin> A \<longrightarrow> depends_on (tree K) t = {}) \<and>
     (\<forall>c d. value_of (tree K) c d \<longrightarrow> (c \<in> A \<longleftrightarrow> d \<in> A))"

lemma before_check_inv:
  assumes "before_check A K" shows "search_inv (tree K) K"
proof (rule search_invI)
  have "settled (tree K) ({} \<union> checked_set K)"
    by (rule settled_extend) (use assms in \<open>auto simp: before_check_def checked_set_def\<close>)
  then show "settled (tree K) (checked_set K)" by simp
  show "flag_on d SYMBOL_CHECKED K = flag_on c SYMBOL_CHECKED K" if "value_of (tree K) c d" for c d
    using that assms unfolding before_check_def by blast
qed (use assms in \<open>auto simp: before_check_def\<close>)

lemma no_circles:
  assumes "before_check A K" and "check_all n ss 0 K = Inr (0, K')" and "t \<in> set ss" and "(u, t) \<in> (dependency (tree K))\<^sup>*"
  shows "(u, u) \<notin> (dependency (tree K))\<^sup>+"
proof -
  have l: "later (tree K) K K'" "set ss \<subseteq> checked_set K'"
    using check_all_settled [OF before_check_inv [OF assms(1)] assms(2)] by auto
  then have "settled (tree K) (checked_set K')" by (simp add: later_def search_inv_def)
  then show ?thesis using settled_acyclic assms(3,4) l(2) by blast
qed

section \<open>The search ends\<close>

definition unmarked :: "kconf \<Rightarrow> symref set" where
  "unmarked K = {t. \<not> flag_on t SYMBOL_CHECKED K}"

text \<open>A call marks a symbol, or is for the choice of a value and the next one does.\<close>

definition enough_fuel :: "nat \<Rightarrow> kconf \<Rightarrow> bool" where
  "enough_fuel m K \<longleftrightarrow> finite (unmarked K) \<and> 2 * card (unmarked K) + 1 < m"

definition within :: "(symref \<Rightarrow> symbol) \<Rightarrow> kconf \<Rightarrow> kconf \<Rightarrow> bool" where
  "within T K0 K \<longleftrightarrow> tree K = T \<and> unmarked K \<subseteq> unmarked K0"

definition returns :: "(symref \<Rightarrow> symbol) \<Rightarrow> kconf \<Rightarrow> (symref option \<times> kconf) res \<Rightarrow> bool" where
  "returns T K0 r \<longleftrightarrow> r \<noteq> Inl (Assert_fail ''fuel'') \<and> (\<forall>f K. r = Inr (f, K) \<longrightarrow> within T K0 K)"

lemma returns_Inr [simp]: "returns T K0 (Inr (f, K)) \<longleftrightarrow> within T K0 K"
  by (simp add: returns_def)

lemma returns_bind:
  "returns T K0 r \<Longrightarrow> (\<And>f K. within T K0 K \<Longrightarrow> returns T K0 (g (f, K))) \<Longrightarrow> returns T K0 (bindE r g)"
  by (cases r) (auto simp: returns_def)

lemma returns_then: "returns T K0 r \<Longrightarrow> (\<And>K. within T K0 K \<Longrightarrow> returns T K0 (f K)) \<Longrightarrow> returns T K0 (then_check r f)"
  unfolding then_check_def by (rule returns_bind) auto

lemma returns_deref: "(\<And>x. returns T K0 (f x)) \<Longrightarrow> returns T K0 (bindE (deref p) f)"
  by (cases p) (simp_all add: returns_def deref_def null_deref_def)

lemma returns_trans: "within T K0 K \<Longrightarrow> returns T K r \<Longrightarrow> returns T K0 r"
  by (auto simp: returns_def within_def)

lemma within_marks:
  "within T K0 K \<Longrightarrow> within T K0 (set_flag s mark K)" "within T K0 K \<Longrightarrow> within T K0 (clear_flag s SYMBOL_CHECK K)"
  "within T K0 K \<Longrightarrow> within T K0 (fold (\<lambda>d. clear_flag d SYMBOL_CHECK) ds K)" "within T K0 K \<Longrightarrow> within T K0 (fold (\<lambda>d. set_flag d mark) ds K)"
  by (auto simp: within_def unmarked_def flag_set flag_clear_check cleared_fold marked_fold)

lemma fits_within: "enough_fuel m K0 \<Longrightarrow> within T K0 K \<Longrightarrow> enough_fuel m K"
  unfolding enough_fuel_def within_def by (meson card_mono finite_subset le_less_trans mult_le_mono2 add_le_mono1)

text \<open>Below a mark.\<close>

lemma fits_mark:
  assumes "finite (unmarked K)" and "2 * card (unmarked K) < m + 1" and "s \<in> unmarked K" and "within T (set_flag s mark K) M"
  shows "enough_fuel m M"
proof -
  have "unmarked (set_flag s mark K) = unmarked K - {s}" by (auto simp: unmarked_def flag_set)
  moreover have "card (unmarked K - {s}) < card (unmarked K)" by (rule psubset_card_mono) (use assms in auto)
  ultimately have "enough_fuel m (set_flag s mark K)" using assms(1,2) by (simp add: enough_fuel_def)
  then show ?thesis using assms(4) by (rule fits_within)
qed

locale bounded_checker =
  fixes m :: nat and T :: "symref \<Rightarrow> symbol" and chk :: checker
  assumes chk_returns: "choices_ok T \<Longrightarrow> enough_fuel m K \<Longrightarrow> tree K = T \<Longrightarrow> returns T K (chk s K)"
begin

lemma chk_within: "choices_ok T \<Longrightarrow> enough_fuel m K0 \<Longrightarrow> within T K0 K \<Longrightarrow> returns T K0 (chk s K)"
  by (rule returns_trans, assumption, rule chk_returns) (auto intro: fits_within simp: within_def)

lemma expr_nn_returns: "choices_ok T \<Longrightarrow> enough_fuel m K0 \<Longrightarrow> within T K0 K \<Longrightarrow> returns T K0 (check_expr_nn chk e K)"
  by (induction e arbitrary: K) (auto intro!: returns_then chk_within)

lemma expr_returns: "choices_ok T \<Longrightarrow> enough_fuel m K0 \<Longrightarrow> within T K0 K \<Longrightarrow> returns T K0 (sym_check_expr_deps chk e K)"
  by (cases e) (auto simp: sym_check_expr_deps_def expr_nn_returns)

lemma props_return: "choices_ok T \<Longrightarrow> enough_fuel m K0 \<Longrightarrow> within T K0 K \<Longrightarrow> returns T K0 (check_props chk s ps K)"
  by (induction ps arbitrary: K) (auto intro!: returns_then expr_returns)

lemma sym_deps_return: "choices_ok T \<Longrightarrow> enough_fuel m K0 \<Longrightarrow> within T K0 K \<Longrightarrow> returns T K0 (sym_check_sym_deps chk s K)"
  unfolding sym_check_sym_deps_def by (auto intro!: returns_then expr_returns props_return)

lemma each_returns: "choices_ok T \<Longrightarrow> enough_fuel m K0 \<Longrightarrow> within T K0 K \<Longrightarrow> returns T K0 (check_each chk ds K)"
  by (induction ds arbitrary: K) (auto intro!: returns_then sym_deps_return)

text \<open>From a table in which the symbol is not marked yet, for a smaller depth.\<close>

lemma ordinary_returns:
  assumes "choices_ok T" and "finite (unmarked K)" and "2 * card (unmarked K) < m + 1" and "s \<in> unmarked K" and "tree K = T"
  shows "returns T K (bindE (sym_check_sym_deps chk s (set_flag s mark K)) (\<lambda>(found, K1). Inr (found, clear_flag s SYMBOL_CHECK K1)))"
proof -
  have w: "within T (set_flag s mark K) (set_flag s mark K)" using assms(5) by (simp add: within_def)
  have wK: "within T K (set_flag s mark K)" using assms(5) by (auto simp: within_def unmarked_def flag_set)
  show ?thesis
    by (rule returns_bind, rule returns_trans [OF wK], rule sym_deps_return [OF assms(1) fits_mark [OF assms(2,3,4) w] w])
      (auto intro: within_marks)
qed

lemma choice_returns:
  assumes "choices_ok T" and "finite (unmarked K)" and "2 * card (unmarked K) < m + 1" and "s \<in> unmarked K" and "tree K = T"
  shows "returns T K (sym_check_choice_deps chk s K)"
proof -
  let ?S = "set_flag s mark K"
  have wK: "within T K ?S" using assms(5) by (auto simp: within_def unmarked_def flag_set)
  have f: "enough_fuel m ?S" by (rule fits_mark [OF assms(2,3,4)]) (use assms(5) in \<open>simp add: within_def\<close>)
  have report: "within T K0 K5 \<Longrightarrow> returns T K0 (bindE (report_choice s found K5) (\<lambda>r. Inr (r, K5)))" for K0 K5 found
    by (auto simp: report_choice_def bindE_assoc split: option.split intro!: returns_deref)
  have "returns T ?S (sym_check_choice_deps chk s K)"
    unfolding sym_check_choice_deps_def Let_def mark_def [symmetric]
  proof (rule returns_deref)
    fix p
    have M: "within T ?S (set_flag s mark (fold (\<lambda>d. set_flag d mark) (choice_syms p) K))"
      using assms(5) by (auto simp: within_def unmarked_def flag_set marked_fold)
    show "returns T ?S (bindE (sym_check_sym_deps chk s (set_flag s mark (fold (\<lambda>d. set_flag d mark) (choice_syms p) K)))
        (\<lambda>(found, K2). bindE (if found \<noteq> None then Inr (found, clear_flag s SYMBOL_CHECK K2)
            else check_each chk (choice_syms p) (clear_flag s SYMBOL_CHECK K2))
          (\<lambda>(found, K4). bindE (report_choice s found (fold (\<lambda>d. clear_flag d SYMBOL_CHECK) (choice_syms p) K4))
            (\<lambda>r. Inr (r, fold (\<lambda>d. clear_flag d SYMBOL_CHECK) (choice_syms p) K4)))))"
      by (rule returns_bind [OF sym_deps_return [OF assms(1) f M]])
        (auto intro!: returns_bind report within_marks each_returns [OF assms(1) f])
  qed
  then show ?thesis by (rule returns_trans [OF wK])
qed

end

lemma plain_returns:
  assumes "bounded_checker m T (sym_check_deps m)" and "choices_ok T" and "finite (unmarked K)" and "2 * card (unmarked K) < m + 1"
    and "tree K = T" and "\<not> is_choice_value (T s)"
  shows "returns T K (sym_check_deps (Suc m) s K)"
proof (cases "flag_on s SYMBOL_CHECK K \<or> flag_on s SYMBOL_CHECKED K")
  case True
  then show ?thesis using assms(5) by (auto simp: within_def)
next
  case False
  then have u: "s \<in> unmarked K" by (simp add: unmarked_def)
  show ?thesis
    using False assms(6) tree_reads(2,3) [OF assms(5), of s] bounded_checker.ordinary_returns [OF assms(1-4) u assms(5)]
      bounded_checker.choice_returns [OF assms(1-4) u assms(5)]
    by (simp add: mark_def)
qed

lemma check_returns: "bounded_checker n T (sym_check_deps n)"
proof (induction n rule: less_induct)
  case (less n)
  show ?case
  proof
    fix K s assume ok: "choices_ok T" and f: "enough_fuel n K" and t: "tree K = T"
    then obtain m where n: "n = Suc (Suc m)" and c: "2 * card (unmarked K) < m + 1" and fin: "finite (unmarked K)"
      by (cases n; cases "n - 1") (auto simp: enough_fuel_def)
    show "returns T K (sym_check_deps n s K)"
    proof (cases "is_choice_value (T s)")
      case False
      show ?thesis
        unfolding n by (rule plain_returns [OF less ok fin _ t False]) (use n c in auto)
    next
      case True
      have plain: "returns T K (sym_check_deps (Suc m) c K)" if "\<not> is_choice_value (T c)" for c
        by (rule plain_returns [OF less ok fin c t that]) (simp add: n)
      show ?thesis
      proof (cases "flag_on s SYMBOL_CHECK K \<or> flag_on s SYMBOL_CHECKED K")
        case marked: True
        then show ?thesis using t by (auto simp: n within_def)
      next
        case False
        have "returns T K (bindE (deref (choice_prop_of (T s))) (\<lambda>p. bindE (deref (prop_get_symbol p)) (\<lambda>c. sym_check_deps (Suc m) c K)))"
        proof (cases "choice_prop_of (T s)")
          case p: (Some p)
          show ?thesis
          proof (cases "prop_get_symbol p")
            case (Some c)
            then have "value_of T c s" using ok True p unfolding choices_ok_def by blast
            then show ?thesis using p Some plain value_of_props(2) [OF ok] by (simp del: sym_check_deps.simps add: deref_def)
          qed (simp add: p deref_def null_deref_def returns_def)
        qed (simp add: deref_def null_deref_def returns_def)
        then show ?thesis
          using False True tree_reads(1,3) [OF t, of s] by (simp add: n)
      qed
    qed
  qed
qed

interpretation search_bound: bounded_checker n T "sym_check_deps n" for n T
  by (rule check_returns)

lemma check_all_returns:
  "choices_ok (tree K) \<Longrightarrow> enough_fuel n K \<Longrightarrow> check_all n ss e K \<noteq> Inl (Assert_fail ''fuel'')"
proof (induction ss arbitrary: e K)
  case (Cons s ss)
  have r: "returns (tree K) K (sym_check_deps n s K)" by (rule search_bound.chk_returns [OF Cons.prems refl])
  show ?case
  proof (cases "sym_check_deps n s K")
    case (Inr x)
    then have w: "within (tree K) K (snd x)" using r by (cases x) (simp add: returns_def)
    then have "choices_ok (tree (snd x))" "enough_fuel n (snd x)" using Cons.prems fits_within by (auto simp: within_def)
    then show ?thesis using Cons.IH Inr by (cases x) simp
  qed (use r in \<open>simp add: returns_def\<close>)
qed simp

lemma before_check_fits: "before_check A K \<Longrightarrow> 2 * card A + 1 < n \<Longrightarrow> enough_fuel n K"
proof -
  assume b: "before_check A K" and n: "2 * card A + 1 < n"
  have "unmarked K = A" using b by (auto simp: before_check_def unmarked_def)
  then show ?thesis using b n by (simp add: enough_fuel_def before_check_def)
qed

end
