(* ===== verification/Spec2Isabelle.thy ===== *)
theory Spec2Isabelle
  imports Machines GuestExit MonitorProps ExprProps TokenProps Lockstep DifftestProps MiniProps GdbProps Mips32 Loongarch32r Session SdDriver Div64 KvmProps GdbLink Tools KMenuProps KSetProps KDepsProps
begin

text \<open>
  GEMU, an emulator for riscv32 machines in the NEMU tradition: model and theorems.

  The emulator is one process. \<^verbatim>\<open>monitor.c\<close> sets up the memory, the devices and the processor
  and loads an image; the debugger or \<^verbatim>\<open>cpu_exec\<close> then runs instructions: each is fetched
  through the physical memory, matched against the \<^verbatim>\<open>INSTPAT\<close> table and executed, and every
  access outside the RAM goes through a table of address regions to a device handler. Every
  so often the devices are updated; optionally every instruction is compared with a reference.

  The theories, with the files under \<^verbatim>\<open>src/\<close> they model:

    \<^item> Prelude: word types, the error monad, the bit-field macros (\<^verbatim>\<open>include/macro.h\<close>).
    \<^item> Pattern: \<^verbatim>\<open>include/cpu/decode.h\<close>. HostMem: \<^verbatim>\<open>include/memory/host.h\<close> and the interface
      \<open>byte_store\<close> of a byte-addressed store. Config: the options, the run state, the host.
    \<^item> IoMap: \<^verbatim>\<open>include/device/map.h\<close>, \<^verbatim>\<open>src/device/io/\<close>, with the interface \<open>io_handler\<close> of a
      device handler. DevState: the state of the devices and the clock.
    \<^item> Keyboard, Timers, Serial, Sdcard, Vga, Devices: \<^verbatim>\<open>src/device/\<close>; the keyboard queue is an
      instance of the interface \<open>fifo\<close>, the dispatch of handlers one of \<open>io_handler\<close>.
    \<^item> Memory: \<^verbatim>\<open>src/memory/\<close>; the RAM is an instance of \<open>byte_store\<close>.
    \<^item> CpuBits, Csr, Amw, Cpu, Riscv32, RvTrap: \<^verbatim>\<open>src/isa/riscv32/\<close> and the decode record.
    \<^item> RvDecode, RvArith, RvTrapProps, RvStep: lemmas about the core. RvDecode shows that no two
      patterns of the table overlap; RvArith relates the arithmetic to the integers; RvTrapProps
      follows every register through a trap; RvStep composes them into whole steps.
    \<^item> Machines: concrete machines for evaluating the model.
    \<^item> CpuExec: the execution loop of \<^verbatim>\<open>src/cpu/cpu-exec.c\<close> over any step and any check. Difftest:
      \<^verbatim>\<open>src/cpu/difftest/\<close> and the comparison of \<^verbatim>\<open>src/isa/riscv32/difftest/\<close>, over the functions of a
      reference as a parameter. Cstr, Expr, Sdb: the debugger in \<^verbatim>\<open>src/monitor/sdb/\<close>. Monitor:
      \<^verbatim>\<open>src/monitor/monitor.c\<close> and \<^verbatim>\<open>main\<close>.
    \<^item> MiniRv32, MiniVm: the mini-rv32ima reference in \<^verbatim>\<open>tools/rv32ima-diff/\<close>; its processor state is part of
      its RAM image, as in the code. Gdb: the QEMU reference in \<^verbatim>\<open>tools/qemu-diff/\<close>, a client of the GDB
      protocol over two byte streams.
    \<^item> SmallCore, Mips32, Loongarch32r: \<^verbatim>\<open>src/isa/mips32/\<close> and \<^verbatim>\<open>src/isa/loongarch32r/\<close>, with what they share.
    \<^item> Frames and ExecProps: what a step leaves alone, and the loop. The interface \<open>io_observer\<close>
      extends \<open>io_handler\<close> by an observation devices do not change; \<open>exec_loop\<close> states what the loop
      relies on and is interpreted for RISC-V with differential testing, MIPS32 and LoongArch32R.
    \<^item> ExprProps, TokenProps: expressions from text to value, and the guarantees of the tokenizer.
      MonitorProps: \<^verbatim>\<open>c EXPR\<close>, quitting, loading. DifftestProps: the verdict of a comparison.
      GuestExit: how \<^verbatim>\<open>ebreak\<close> ends the emulator, and machines with a monitor. MiniEquiv, Lockstep: the
      emulator and mini-rv32ima, first case by case, then as a simulation over whole runs. MiniProps:
      the run loop of the reference makes at most one round. GdbProps: packets and registers.
    \<^item> RvJumps, MiniEquivMem, Session: the simulation extended to jumps, loads, stores and fences, and to a whole
      session of differential testing in the loop, devices included.
    \<^item> NemuSd: the guest's Linux driver \<^verbatim>\<open>resource/sdcard/nemu.c\<close>. SdPort, SdTransfer, SdDriver: the driver on the
      emulated card. The interface \<open>sd_port\<close> states what the driver relies on at the register port; it is interpreted for
      the emulator's bus with the card of Sdcard behind it, so requests are followed from the driver to the image.
    \<^item> Kvm, KvmProps: the KVM reference in \<^verbatim>\<open>tools/kvm-diff/\<close>, its emulated instructions and its watchpoint.
      GdbLink: connecting to QEMU and starting it. Tools: the log, the terminal, the state dump of mini-rv32ima and
      \<^verbatim>\<open>tools/gen-expr/\<close>. Div64: \<^verbatim>\<open>testdemo/test.c\<close>.
    \<^item> KExpr, KSym, KSet, KConf, KDeps: the configuration tool \<^verbatim>\<open>tools/kconfig/\<close>: \<^verbatim>\<open>expr.c\<close> (KExpr), the values of
      symbols in \<^verbatim>\<open>symbol.c\<close> (KSym), setting and looking them up (KSet), reading and writing configurations in
      \<^verbatim>\<open>confdata.c\<close> (KConf; KMenu with the menu tree of \<^verbatim>\<open>menu.c\<close>), and the search for circular dependencies (KDeps). The state is the table \<open>kconf\<close>; the mutual
      recursion of \<^verbatim>\<open>expr_calc_value\<close> and \<^verbatim>\<open>sym_calc_value\<close> goes through an argument, the \<open>calculator\<close>.
    \<^item> KExprProps: rewriting of expressions keeps their value, proved in the interface \<open>kvalues\<close> (any values of symbols that
      obey the laws of the three constants). KTable: the values a table holds, as an interpretation of \<open>kvalues\<close>. KSymProps: the
      interface \<open>bounded_calc\<close> (a calculator that ends within a budget), interpreted for \<^verbatim>\<open>sym_calc_value\<close>. KValue: the
      specification \<open>symbol_spec\<close> of a symbol's value. KSetProps: settings. KConfProps, KMenuProps: configurations read back, by way of the lines
      of a file that have an effect. KDepsProps:
      the interfaces \<open>dep_checker\<close> and \<open>bounded_checker\<close>, interpreted for \<^verbatim>\<open>sym_check_deps\<close>.

  The state is one record that grows along the theories: \<open>nemu\<close> (run state), \<open>io\<close> (address map
  and I/O space), \<open>devs\<close> (devices), \<open>soc\<close> (RAM), \<open>cpu\<close> (registers and decode buffer), \<open>rv32\<close>
  (control registers, reservations, privilege), \<open>monitor\<close> (the statics of the monitor, the reference). A statement of the C code is one update. An
  operation that can stop the process returns a result of type \<open>emu_error + 'a\<close>: a failed
  assertion, a guest access outside every region, a host access outside its C object, an exit.
  Machine integers keep their width. What the process obtains from the host (clock, terminal,
  SDL events, the SD image) comes from the record \<open>host_env\<close>, indexed by the number of the call.

  The build modelled is the 32-bit one with the devices on; the options that select code are the
  fields of \<open>config\<close>, and the theorems hold for all of them unless they say otherwise. The
  compressed instructions are left out, since their build does not compile.

  Loops: the decode loops follow their lists; \<open>find_irq_type_val\<close> has 32 rounds of fuel, enough
  for every argument (C23); the pointer loops of the reservation list are partial functions,
  shown to end on every list (C18). \<^verbatim>\<open>execute\<close> runs on its instruction count; the loops of \<^verbatim>\<open>c EXPR\<close> and
  \<^verbatim>\<open>gdb_send\<close> may not return and are partial functions (C30 says when the first one does); \<^verbatim>\<open>si\<close> of
  mini-rv32ima has two rounds of fuel, enough by \<open>si_returns\<close>. The three functions of the SD card driver that call each
  other get a depth of 7, and a block of the transfer one round per byte; both are enough by the theorems on
  requests (C14, C15), which show that the request is carried out. The fuel of
  \<open>kvm_exec\<close> bounds the runs a signal interrupts (none by \<open>kvm_exec_no_signal\<close> where there is no signal), that of
  \<open>gdb_connect_qemu\<close> the attempts to connect. The loops of \<^verbatim>\<open>__div64_32\<close> are functions with their termination proofs.
  In the configuration tool the fuel bounds the depth of a recursion: three times the number of symbols and one is enough for
  \<^verbatim>\<open>sym_calc_value\<close> (C39), twice the number and two for \<^verbatim>\<open>sym_check_deps\<close>
  (C38), the size of the expressions for \<open>expr_eq_depth\<close> (lemma \<open>expr_eq_nn_eq\<close>); \<open>expr_transform\<close>
  ends by a weight of its argument, the passes over duplicates by C35.

  Diagnostics printed to standard error by the processor are not modelled, messages of the
  devices are events of the model's console. Functions of the C library that parse (\<^verbatim>\<open>strtok\<close>,
  \<^verbatim>\<open>atol\<close>, \<^verbatim>\<open>strtol\<close>, the regular expressions) are modelled as far as they are used; \<^verbatim>\<open>readline\<close>, \<^verbatim>\<open>scanf\<close>,
  files and \<^verbatim>\<open>dlopen\<close> are the record \<open>mon_env\<close>. Locals that are read before they are written (the
  stacks of the expression evaluator, the registers of a reference) are arguments. The Linux
  kernel around the SD card driver and the KVM interface of the host are the records \<open>linux\<close> and \<open>kvm_host\<close>, the socket
  calls the record \<open>link_env\<close>. Not modelled: the disassembler and the Spike reference, C++ code around libraries that are
  not part of the sources; the Windows variants of the terminal functions; the banner of the start-up; the build tool
  fixdep, a copy of third-party code; and of the configuration tool, also a copy, the grammar, the construction of the menus, macro expansion,
  the terminal interfaces, the search by regular expression, messages and the stack kept for them, the choice of the
  file to read, \<^verbatim>\<open>auto.conf\<close> as input and random settings; what the file system answers is the record \<open>conf_files\<close>.
  Of the warning \<^verbatim>\<open>sym_warn_unmet_dep\<close> the fact that it was given is kept, not its text.

  Steps of the processor are stated from a state that is \<open>ready\<close>: the instruction in RAM at an aligned address, the devices at
  their places, no exception pending and \<open>no_interrupt\<close> due, be it because interrupts are disabled or because none that is enabled is
  pending. What such a step keeps is the predicate \<open>completes\<close>. The Linux iterator over the pages of a transfer is held
  to \<open>sg_laws\<close>, which say nothing of the lengths of its chunks; that they are words is a condition on the request (\<open>word_ends\<close>).
\<close>
unbundle bit_operations_syntax

section \<open>Decoding\<close>

text \<open>C3: The pattern table of \<^verbatim>\<open>decode_exec\<close> does not depend on its order: an instruction word that
  fits the pattern of an entry is given to that entry, in every configuration of the extensions.\<close>

theorem decode_order_independent:
  assumes "(p, x) \<in> set (proper_table c)" and "pat_spec p inst"
  shows "instpat_select (instpat_table c) inst = Inr (Some x)"
  using assms by (rule decode_by_pattern)

theorem decode_order_independent_witness:
  "instpat_select (instpat_table default_config) 0x00500093 = Inr (Some (TYPE_I, Alu ADDI))"
proof (rule decode_order_independent)
  show "(''??????? ????? ????? 000 ????? 00100 11'', TYPE_I, Alu ADDI) \<in> set (proper_table default_config)"
    by (rule base_in_table) (simp add: instpat_base_def)
  show "pat_spec ''??????? ????? ????? 000 ????? 00100 11'' (0x00500093 :: u32)"
    by code_simp
qed

text \<open>C4: Every instruction word is decoded, and only by an entry whose pattern it fits; no pattern
  string of the table trips the assertions of \<^verbatim>\<open>pattern_decode\<close>.\<close>

theorem decode_total_sound:
  "\<exists>p ty op. instpat_select (instpat_table c) inst = Inr (Some (ty, op)) \<and>
     (p, ty, op) \<in> set (instpat_table c) \<and> pat_spec p inst"
proof -
  obtain ty op where s: "instpat_select (instpat_table c) inst = Inr (Some (ty, op))"
    using decode_total [of c inst] by blast
  with decode_sound [OF s] show ?thesis by blast
qed

text \<open>C5: The shifting key/mask computation of \<^verbatim>\<open>pattern_decode\<close> and the test of \<^verbatim>\<open>INSTPAT\<close> implement the
  meaning of a pattern string: the instruction agrees with every 0 and 1 of it.\<close>

theorem pattern_meaning:
  assumes "pat_valid p" and "length p < 64" and "length (pat_bits p) \<le> 32"
  shows "instpat_hit p inst = Inr (pat_spec p inst)"
  using assms by (rule instpat_hit_spec)

theorem pattern_meaning_witness:
  "instpat_hit ''?1 0?'' 5 = Inr (pat_spec ''?1 0?'' (5 :: u32))"
  by (rule pattern_meaning) (simp_all add: pat_valid_def pat_bits_def)

section \<open>Steps of the processor\<close>

text \<open>C6: One step on an arithmetic instruction, with the instruction in RAM, the devices at their places and no interrupt due, from the fetch to the next pc: the destination
  register gets the result, x0 stays 0, memory, the other control registers (but for the timer bit of
  mip and the C bit of misa), the reservations, the I/O space and the run state are kept, and the step cannot abort.\<close>

theorem arithmetic_step:
  assumes "ready c m" and "instpat_select (instpat_table c) (fetched m) = Inr (Some (ty, Alu a))"
  shows "completes c m
    ((gpr m)(unat (BITS (fetched m) 11 7) := alu_result a (d_pc m) (decode_operand (fetched m) ty m)))
    (pmem m) (d_snpc m + 4) (isa_exec_once c E m)"
  using assms by (rule step_alu)

theorem arithmetic_step_witness:
  "completes default_config (demo 0x00500093)
    ((\<lambda>_. 0)(unat (BITS (0x00500093 :: u32) 11 7) :=
       alu_result ADDI RESET_VECTOR (decode_operand 0x00500093 TYPE_I (demo 0x00500093))))
    (le_write (\<lambda>_. 0) 0 4 (0x00500093 :: u32)) (RESET_VECTOR + 4)
    (isa_exec_once default_config quiet_env (demo 0x00500093))"
  using arithmetic_step [of default_config "demo 0x00500093" TYPE_I ADDI quiet_env]
  by (simp add: demo_ready demo_fetched demo_decode)

text \<open>C7: One step on a conditional branch whose target is aligned, with the instruction in RAM, the devices at their places and no interrupt due: the next pc is the pc plus the
  immediate when the condition holds and the following instruction otherwise. The registers but x0, which is cleared, the memory, the
  privilege, the reservations, the address map, the I/O space and the run state are kept, and so are the control registers
  but for the timer bit of mip and the C bit of misa.\<close>

theorem branch_step:
  assumes "ready c m" and "instpat_select (instpat_table c) (fetched m) = Inr (Some (TYPE_B, Branch b))"
    and "(d_pc m + SEXT (immB (fetched m)) 13) mod 4 = 0"
  shows "completes c m (gpr m) (pmem m)
    (if branch_taken b (gpr m (unat (BITS (fetched m) 19 15))) (gpr m (unat (BITS (fetched m) 24 20)))
     then d_pc m + SEXT (immB (fetched m)) 13 else d_snpc m + 4) (isa_exec_once c E m)"
  using assms by (rule step_branch)

theorem branch_step_witness:
  "completes default_config (demo 0x00208463) (\<lambda>_. 0) (le_write (\<lambda>_. 0) 0 4 (0x00208463 :: u32))
    (RESET_VECTOR + 8) (isa_exec_once default_config quiet_env (demo 0x00208463))"
proof -
  have i: "SEXT (immB 0x00208463) 13 = 8" by code_simp
  show ?thesis
    using branch_step [of default_config "demo 0x00208463" BEQ quiet_env]
    by (simp add: demo_ready demo_fetched demo_decode i config_defs)
qed

text \<open>C8: One step on a load from RAM, with the instruction in RAM, the devices at their places and no interrupt due: the destination register gets the little-endian value at
  the address, sign- or zero-extended from its width, and memory is kept.\<close>

theorem load_step:
  assumes "ready c m" and "instpat_select (instpat_table c) (fetched m) = Inr (Some (TYPE_I, Load ld))"
    and "a = gpr m (unat (BITS (fetched m) 19 15)) + immI (fetched m)" and "ram_access c a (load_len ld)"
  shows "completes c m
    ((gpr m)(unat (BITS (fetched m) 11 7) := load_extend ld (le_read (pmem m) (guest_to_host a) (load_len ld))))
    (pmem m) (d_snpc m + 4) (isa_exec_once c E m)"
  using assms by (rule step_load)

theorem load_step_witness:
  "completes default_config (demo_regs 0x0000a103 (\<lambda>_. RESET_VECTOR) (\<lambda>_. 0))
    ((\<lambda>_. RESET_VECTOR)(2 := 0x0000a103)) (le_write (\<lambda>_. 0) 0 4 (0x0000a103 :: u32))
    (RESET_VECTOR + 4) (isa_exec_once default_config quiet_env (demo_regs 0x0000a103 (\<lambda>_. RESET_VECTOR) (\<lambda>_. 0)))"
proof -
  have i: "immI 0x0000a103 = 0" "unat (BITS (0x0000a103 :: u32) 11 7) = 2" by code_simp+
  have "ram_access default_config RESET_VECTOR 4"
    by (simp add: ram_access_def reset_vector MSIZE_eq default_config_def)
  then show ?thesis
    using load_step [of default_config "demo_regs 0x0000a103 (\<lambda>_. RESET_VECTOR) (\<lambda>_. 0)" LW RESET_VECTOR quiet_env]
    by (simp add: demo_regs_ready demo_regs_fetched demo_decode i reset_vector le_read_write_same)
qed

text \<open>C9: One step on a store to RAM, with the instruction in RAM, the devices at their places and no interrupt due: the bytes of the source register are at the address, every
  other byte and every register (but x0, which is cleared) is kept.\<close>

theorem store_step:
  assumes "ready c m" and "instpat_select (instpat_table c) (fetched m) = Inr (Some (TYPE_S, Store st))"
    and "a = gpr m (unat (BITS (fetched m) 19 15)) + immS (fetched m)" and "ram_access c a (store_len st)"
  shows "completes c m (gpr m)
    (le_write (pmem m) (guest_to_host a) (store_len st) (gpr m (unat (BITS (fetched m) 24 20))))
    (d_snpc m + 4) (isa_exec_once c E m)"
  using assms by (rule step_store)

theorem store_step_witness:
  "completes default_config (demo_regs 0x0020a023 (\<lambda>_. RESET_VECTOR) (\<lambda>_. 0))
    (\<lambda>_. RESET_VECTOR) (le_write (le_write (\<lambda>_. 0) 0 4 (0x0020a023 :: u32)) 0 4 RESET_VECTOR)
    (RESET_VECTOR + 4) (isa_exec_once default_config quiet_env (demo_regs 0x0020a023 (\<lambda>_. RESET_VECTOR) (\<lambda>_. 0)))"
proof -
  have i: "immS 0x0020a023 = 0" by code_simp
  have "ram_access default_config RESET_VECTOR 4"
    by (simp add: ram_access_def reset_vector MSIZE_eq default_config_def)
  then show ?thesis
    using store_step [of default_config "demo_regs 0x0020a023 (\<lambda>_. RESET_VECTOR) (\<lambda>_. 0)" SW RESET_VECTOR quiet_env]
    by (simp add: demo_regs_ready demo_regs_fetched demo_decode i reset_vector)
qed

text \<open>C10: One step on an invalid instruction, with the instruction in RAM, the devices at their places, no interrupt due and a trap that is not delegated (no supervisor mode, or
  a higher privilege than supervisor, or bit 2 of medeleg clear): mepc is the address of the instruction, mcause 2, mtval the instruction
  word, mstatus has MIE moved to MPIE and the privilege in MPP; registers (but x0, which is cleared), memory and the current
  privilege are kept and no exception stays pending. Control goes to mtvec where that is a multiple of 4; with a mode in its low
  bits the code refuses the address and goes on with the next instruction.\<close>

theorem illegal_instruction_step:
  assumes "ready c m" and "instpat_select (instpat_table c) (fetched m) = Inr (Some (ty, Inv))"
    and "cfg_priv c \<noteq> RVPrivMSU \<or> PRV_S < cur_pri m \<or> \<not> bit (csr_get c CSR_MEDELEG m) 2"
  shows "\<exists>m'. isa_exec_once c E m = Inr m' \<and> d_dnpc m' = (if csrs m 6 mod 4 = 0 then csrs m 6 else d_snpc m + 4) \<and>
    csrs m' 8 = d_pc m \<and> csrs m' 5 = RISCV_EXCP_ILLEGAL_INST \<and> csrs m' 7 = fetched m \<and>
    csrs m' 2 = trap_mstatus (csrs m 2) (cur_pri m) \<and>
    gpr m' = (gpr m)(0 := 0) \<and> pmem m' = pmem m \<and> have_exc m' = RISCV_EXCP_NONE \<and> cur_pri m' = cur_pri m"
  using assms by (rule step_illegal)

theorem illegal_instruction_step_witness:
  "\<exists>m'. isa_exec_once default_config quiet_env (demo 0) = Inr m' \<and> d_dnpc m' = 0 \<and> csrs m' 8 = RESET_VECTOR \<and>
    csrs m' 5 = RISCV_EXCP_ILLEGAL_INST"
  using illegal_instruction_step [of default_config "demo 0" TYPE_N quiet_env]
  by (auto simp: demo_ready demo_fetched demo_decode PRV_S_def PRV_M_def)

section \<open>Interrupts and traps\<close>

text \<open>C11: When the 64-bit timer has passed its comparator and machine interrupts and the timer
  interrupt are enabled, with no external or software interrupt above it, with the program in RAM, the devices at their places and the processor not in
  supervisor mode with interrupts delegated, the step enters the handler instead of executing the fetched instruction: mepc is the address of that
  instruction, mcause the timer interrupt, control goes to mtvec in direct mode and to the seventh vector behind it in
  vectored mode (the two modes the manual defines), in machine mode with interrupts disabled, their enable in MPIE and the
  old privilege in MPP; registers and memory are kept.\<close>

theorem timer_interrupt_step:
  assumes "bus_ok c m" and "in_pmem (d_snpc m)" and "guest_to_host (d_snpc m) + 4 \<le> MSIZE"
    and "mtimecmp c m < mtime c m" and "bit (csrs m 2) 3" and "bit (csrs m 4) 7"
    and "\<not> bit (csrs m 4 AND csrs m 3) 9" "\<not> bit (csrs m 4 AND csrs m 3) 11"
    and "cur_pri m \<noteq> PRV_S \<or> csr_get c CSR_MIDELEG m = 0"
  shows "\<exists>m'. isa_exec_once c E m = Inr m' \<and> csrs m' 8 = d_pc m \<and> csrs m' 5 = 0x80000007 \<and>
    (csrs m 6 mod 4 = 0 \<longrightarrow> d_dnpc m' = csrs m 6) \<and> (csrs m 6 mod 4 = 1 \<longrightarrow> d_dnpc m' = csrs m 6 - 1 + 4 * 7) \<and>
    cur_pri m' = PRV_M \<and> get_field (csrs m' 2) MSTATUS_MIE = 0 \<and> get_field (csrs m' 2) MSTATUS_MPIE = 1 \<and>
    get_field (csrs m' 2) MSTATUS_MPP = take_bit 2 (cur_pri m) \<and> gpr m' = gpr m \<and> pmem m' = pmem m"
proof (intro exI conjI impI)
  let ?t = "after_timer c m"
  show "isa_exec_once c E m = Inr (take_irq c 7 ?t)" using assms by (rule step_timer_irq)
  have mie: "get_field (csrs m 2) MSTATUS_MIE = 1" using assms(5) by (simp add: mask_fields get_field_bit)
  show "get_field (csrs (take_irq c 7 ?t) 2) MSTATUS_MIE = 0" "get_field (csrs (take_irq c 7 ?t) 2) MSTATUS_MPIE = 1"
    "get_field (csrs (take_irq c 7 ?t) 2) MSTATUS_MPP = take_bit 2 (cur_pri m)"
    using irq_mstatus_fields [of "csrs m 2" "cur_pri m"] mie by (simp_all add: take_irq_csrs)
  show "csrs m 6 mod 4 = 0 \<Longrightarrow> d_dnpc (take_irq c 7 ?t) = csrs m 6"
    "csrs m 6 mod 4 = 1 \<Longrightarrow> d_dnpc (take_irq c 7 ?t) = csrs m 6 - 1 + 4 * 7"
    using take_irq_target [of ?t c 7] by simp_all
qed (simp_all add: take_irq_csrs take_irq_sel)

definition timer_demo :: rv32 where
  "timer_demo = (demo_regs 0x00500093 (\<lambda>_. 0) ((\<lambda>_. 0)(2 := 8, 4 := 0x80, 6 := 0x80000105)))
     \<lparr>io_space := le_write (\<lambda>_. 0) (clint_at default_config + MTIMELO) 8 (5 :: u64)\<rparr>"

theorem timer_interrupt_step_witness:
  "\<exists>m'. isa_exec_once default_config quiet_env timer_demo = Inr m' \<and> csrs m' 8 = RESET_VECTOR \<and> csrs m' 5 = 0x80000007 \<and>
     d_dnpc m' = 0x80000104 + 4 * 7 \<and> cur_pri m' = PRV_M"
proof -
  have "\<exists>m'. isa_exec_once default_config quiet_env timer_demo = Inr m' \<and> csrs m' 8 = d_pc timer_demo \<and> csrs m' 5 = 0x80000007 \<and>
    (csrs timer_demo 6 mod 4 = 0 \<longrightarrow> d_dnpc m' = csrs timer_demo 6) \<and>
    (csrs timer_demo 6 mod 4 = 1 \<longrightarrow> d_dnpc m' = csrs timer_demo 6 - 1 + 4 * 7) \<and>
    cur_pri m' = PRV_M \<and> get_field (csrs m' 2) MSTATUS_MIE = 0 \<and> get_field (csrs m' 2) MSTATUS_MPIE = 1 \<and>
    get_field (csrs m' 2) MSTATUS_MPP = take_bit 2 (cur_pri timer_demo) \<and> gpr m' = gpr timer_demo \<and> pmem m' = pmem timer_demo"
  proof (rule timer_interrupt_step)
    show "bus_ok default_config timer_demo"
      using demo_bus [of 0] by (simp add: bus_ok_def timer_demo_def)
    have "mtime default_config timer_demo = 5"
      by (simp add: mtime_def timer_demo_def le_read_write_same)
    moreover have "mtimecmp default_config timer_demo = 0"
    proof -
      have z: "le_read (\<lambda>_. 0) a n = (0 :: u64)" for a n by (induction n arbitrary: a) simp_all
      show ?thesis
        by (simp add: mtimecmp_def timer_demo_def le_read_write_other MTIMELO_def MTIMECMPLO_def z)
    qed
    ultimately show "mtimecmp default_config timer_demo < mtime default_config timer_demo" by simp
  qed (simp_all add: timer_demo_def reset_vector MSIZE_eq PRV_M_def PRV_S_def)
  moreover have "(0x80000105 :: u32) mod 4 = 1" "csrs timer_demo 6 = 0x80000105" "d_pc timer_demo = RESET_VECTOR"
    by (simp_all add: timer_demo_def)
  ultimately show ?thesis by auto
qed

text \<open>C23: The interrupt search answers with the highest-numbered pending interrupt among the odd
  ones below 12 (11 external, 9, 7 timer, ... ), and with -1 when there is none; the loop ends for every argument.\<close>

theorem interrupt_priority:
  "find_irq_type_val y = (case find (bit y) [11, 9, 7, 5, 3, 1] of None \<Rightarrow> - 1 | Some i \<Rightarrow> of_nat i)"
proof -
  have "rev [0..<12] = [11, 10, 9, 8, 7, 6, 5, 4, 3, 2, 1, 0 :: nat]" by code_simp
  then show ?thesis by (simp add: find_irq_type_val_eq irq_answer_def)
qed

text \<open>C12: A machine interrupt and the \<^verbatim>\<open>mret\<close> that ends its handler (which keeps mepc and mstatus)
  return to the interrupted instruction, with the privilege and the interrupt enable it had.\<close>

theorem interrupt_mret_round_trip:
  assumes "csrs h 8 = csrs (take_irq c irq m) 8" and "csrs h 2 = csrs (take_irq c irq m) 2" and "cur_pri m \<le> 3"
  shows "d_dnpc (exec_mret c h) = d_pc m \<and> cur_pri (exec_mret c h) = cur_pri m \<and>
    get_field (csrs (exec_mret c h) 2) MSTATUS_MIE = get_field (csrs m 2) MSTATUS_MIE"
  using irq_mret [OF assms] by simp

theorem interrupt_mret_round_trip_witness:
  "d_dnpc (exec_mret default_config (take_irq default_config 7 (demo 0))) = RESET_VECTOR \<and>
   cur_pri (exec_mret default_config (take_irq default_config 7 (demo 0))) = PRV_M"
  using interrupt_mret_round_trip [OF refl refl, of "demo 0" default_config 7] by (simp add: PRV_M_def)

text \<open>A trap taken in supervisor mode: cause, pc and value are in the supervisor registers, the
  handler address is the next pc, and registers and memory are kept.\<close>

theorem supervisor_trap_entry:
  assumes "cfg_priv c = RVPrivMSU" and "csrs m 29 mod 4 = 0"
  shows "csrs (supervisor_trap c m) 34 = have_exc m \<and> csrs (supervisor_trap c m) 33 = d_pc m \<and>
    csrs (supervisor_trap c m) 35 = exc_tval m \<and> d_dnpc (supervisor_trap c m) = csrs m 29 \<and>
    cur_pri (supervisor_trap c m) = PRV_S \<and> gpr (supervisor_trap c m) = gpr m \<and> pmem (supervisor_trap c m) = pmem m"
  using supervisor_trap_dnpc [OF assms] supervisor_trap_csrs [OF assms(1), of m] by (simp add: supervisor_trap_sel)

theorem supervisor_trap_entry_witness:
  "csrs (supervisor_trap default_config (demo 0)) 33 = RESET_VECTOR \<and>
   d_dnpc (supervisor_trap default_config (demo 0)) = 0"
  using supervisor_trap_entry [of default_config "demo 0"] by (simp add: default_config_def)

text \<open>After an executed instruction x0 reads 0 and no exception is pending.\<close>

theorem instruction_leaves_clean:
  assumes "decode_exec c E m = Inr m'"
  shows "gpr m' 0 = 0 \<and> have_exc m' = RISCV_EXCP_NONE"
  using decode_exec_x0 [OF assms] decode_exec_exc [OF assms] by simp

theorem instruction_leaves_clean_witness:
  "\<exists>m'. decode_exec default_config quiet_env (demo 0x00500093) = Inr m' \<and> gpr m' 0 = 0"
proof -
  have "\<exists>m'. decode_exec default_config quiet_env (demo 0x00500093) = Inr m'"
    by (simp add: decode_exec_def dnpc_and_check_def config_defs demo_def rv32_zero_def demo_decode Let_def)
  then show ?thesis using instruction_leaves_clean by metis
qed

section \<open>Arithmetic and immediates\<close>

text \<open>C22: \<^verbatim>\<open>DIV\<close> and \<^verbatim>\<open>REM\<close> are the truncating quotient and remainder of the signed operands, for every
  divisor but 0 and the one overflowing pair.\<close>

theorem div_rem_truncate:
  assumes "op_src2 x \<noteq> 0" and "\<not> (op_src1 x = 0x80000000 \<and> op_src2 x = - 1)"
  shows "sint (op_src1 x) = sint (alu_result DIV p x) * sint (op_src2 x) + sint (alu_result REM p x) \<and>
    \<bar>sint (alu_result REM p x)\<bar> < \<bar>sint (op_src2 x)\<bar> \<and>
    (0 \<le> sint (op_src1 x) \<longrightarrow> 0 \<le> sint (alu_result REM p x)) \<and>
    (sint (op_src1 x) \<le> 0 \<longrightarrow> sint (alu_result REM p x) \<le> 0)"
  using alu_div_rem [OF assms] by simp

theorem div_rem_truncate_witness:
  "sint (- 7 :: u32) = sint (alu_result DIV 0 \<lparr>op_rd = 1, op_src1 = - 7, op_src2 = 2, op_imm = 0\<rparr>) * sint (2 :: u32) +
     sint (alu_result REM 0 \<lparr>op_rd = 1, op_src1 = - 7, op_src2 = 2, op_imm = 0\<rparr>)"
  using div_rem_truncate [of "\<lparr>op_rd = 1, op_src1 = - 7, op_src2 = 2, op_imm = 0\<rparr>" 0] by simp

text \<open>\<^verbatim>\<open>MULH\<close>, \<^verbatim>\<open>MULHSU\<close> and \<^verbatim>\<open>MULHU\<close> are the high words of the exact products, and \<^verbatim>\<open>MULHU\<close> with
  \<^verbatim>\<open>MUL\<close> is the whole unsigned product.\<close>

theorem multiply_high_words:
  "sint (alu_result MULH p x) = sint (op_src1 x) * sint (op_src2 x) div 2 ^ 32 \<and>
   sint (alu_result MULHSU p x) = sint (op_src1 x) * uint (op_src2 x) div 2 ^ 32 \<and>
   uint (alu_result MULHU p x) * 2 ^ 32 + uint (alu_result MUL p x) = uint (op_src1 x) * uint (op_src2 x)"
  using alu_mulh [of p x] alu_mulhsu [of p x] alu_mul_mulhu [of p x] by simp

text \<open>C24: The immediates come back: for each of the five formats, \<^verbatim>\<open>decode_operand\<close> gives the immediate that was encoded as the
  RISC-V manual prescribes, for every immediate of the format and whatever the other bits of the word are.\<close>

theorem immediates_decoded:
  assumes "fits 12 v" and "take_bit 12 u = 0" and "fits 13 b" "\<not> bit b 0" and "fits 21 j" "\<not> bit j 0"
  shows "op_imm (decode_operand (enc_I i v) TYPE_I m) = v \<and> op_imm (decode_operand (enc_S i v) TYPE_S m) = v \<and>
    op_imm (decode_operand (enc_U i u) TYPE_U m) = u \<and> op_imm (decode_operand (enc_B i b) TYPE_B m) = b \<and>
    op_imm (decode_operand (enc_J i j) TYPE_J m) = j"
  using immI_enc [OF assms(1)] immS_enc [OF assms(1)] immU_enc [OF assms(2)] immB_enc [OF assms(3,4)] immJ_enc [OF assms(5,6)]
  by (simp add: decode_operand_def Let_def)

theorem immediates_decoded_witness:
  "op_imm (decode_operand (enc_S 0x0020a023 (- 8)) TYPE_S (demo 0)) = - 8 \<and>
   op_imm (decode_operand (enc_B 0x0020a023 (- 4)) TYPE_B (demo 0)) = - 4 \<and>
   op_imm (decode_operand (enc_J 0x0020a023 2048) TYPE_J (demo 0)) = 2048"
proof -
  have f: "fits 12 (- 8)" "take_bit 12 (0x12345000 :: u32) = 0" "fits 13 (- 4)" "\<not> bit (- 4 :: u32) 0" "fits 21 2048" "\<not> bit (2048 :: u32) 0"
    by code_simp+
  show ?thesis using immediates_decoded [OF f, where i = "0x0020a023" and m = "demo 0"] by simp
qed

section \<open>Control registers and reservations\<close>

text \<open>C20: A write to an implemented control register is read back, and is seen by no other register.\<close>

theorem csr_read_after_write:
  assumes "a \<in> set (take (NR_CSR c) (csr_idx_map c))" and "a \<noteq> b"
  shows "csr_get c a (csr_put c a v m) = v \<and> csr_get c a (csr_put c b w m) = csr_get c a m \<and>
    csr_get c b (csr_put c a v m) = csr_get c b m"
  using csr_get_put_known(1) [OF assms, of w m] csr_get_put_known(2) [OF assms, of v m] by simp

theorem csr_read_after_write_witness:
  "csr_get default_config CSR_MEPC (csr_put default_config CSR_MCAUSE 7 (demo 0)) = 0"
  using csr_read_after_write [of CSR_MEPC default_config CSR_MCAUSE 0 "demo 0" 7]
  by (simp add: csr_idx_map_def csr_idx_map_base_def NR_CSR_def default_config_def bits_defs csr_get_def)

text \<open>C21: Every CSR address is looked up inside the register array; the \<open>i\<close>-th implemented register
  has slot \<open>i\<close>, and an address that is not implemented gets the spare slot.\<close>

theorem csr_lookup:
  "check_csr_idx c a < 64 \<and> (i < NR_CSR c \<longrightarrow> check_csr_idx c (csr_idx_map c ! i) = i) \<and>
   (a \<noteq> ZERO_CSR \<longrightarrow> a \<notin> set (take (NR_CSR c) (csr_idx_map c)) \<longrightarrow> check_csr_idx c a = NR_CSR c)"
  using check_csr_idx_bound [of c a] check_csr_idx_known [of i c] check_csr_idx_unknown [of a c] by simp

theorem csr_lookup_witness:
  "check_csr_idx default_config CSR_MEPC < 64 \<and> check_csr_idx default_config (csr_idx_map default_config ! 8) = 8"
  using csr_lookup [of default_config CSR_MEPC 8] by (simp add: NR_CSR_def)

text \<open>C19: A store-conditional to a RAM word after a load-reserved of it, with the list of reservations as the load left it, stores its
  operand, reports success and ends the oldest reservation of the address: the one of the load when the address had none before, so
  that the list is as it was, and an earlier one otherwise, while that of the load stays. It fails only if
  the oldest reservation was marked as lost (which no instruction does).\<close>

theorem lr_sc_pair:
  assumes "ram_access c a 4" and "op_src1 x = a" and "op_src1 y = a"
    and "exec_lr c E x m = Inr m1" and "amws m2 = amws m1"
  shows "exec_sc c E y m2 =
    (let m3 = set_gpr (op_rd y) 0 (m2\<lparr>pmem := le_write (pmem m2) (guest_to_host a) 4 (op_src2 y)\<rparr>) in
     case amw_search (amws m) a of
       None \<Rightarrow> Inr (m3\<lparr>amws := amws m\<rparr>)
     | Some (_, True) \<Rightarrow> Inr (m3\<lparr>amws := amw_delete (amws m) a @ [(a, True)]\<rparr>)
     | Some (_, False) \<Rightarrow> Inr (set_gpr (op_rd y) 1 m2))"
  using assms by (rule lr_sc_success)

theorem lr_sc_pair_witness:
  "\<exists>m1. exec_lr default_config quiet_env \<lparr>op_rd = 1, op_src1 = RESET_VECTOR, op_src2 = 0, op_imm = 0\<rparr> (demo 0) = Inr m1 \<and>
    exec_sc default_config quiet_env \<lparr>op_rd = 2, op_src1 = RESET_VECTOR, op_src2 = 9, op_imm = 0\<rparr> m1 =
      Inr ((set_gpr 2 0 (m1\<lparr>pmem := le_write (pmem m1) 0 4 (9 :: u32)\<rparr>))\<lparr>amws := []\<rparr>)"
proof -
  have r: "ram_access default_config RESET_VECTOR 4"
    by (simp add: ram_access_def reset_vector MSIZE_eq default_config_def)
  let ?x = "\<lparr>op_rd = 1, op_src1 = RESET_VECTOR, op_src2 = 0, op_imm = 0\<rparr>"
  obtain m1 where m1: "exec_lr default_config quiet_env ?x (demo 0) = Inr m1"
    using exec_lr_ram [of default_config ?x quiet_env "demo 0"] r by auto
  show ?thesis
    using lr_sc_pair [OF r _ _ m1 refl, of "\<lparr>op_rd = 2, op_src1 = RESET_VECTOR, op_src2 = 9, op_imm = 0\<rparr>"] m1
    by (simp add: reset_vector)
qed

text \<open>C18: The pointer list of \<^verbatim>\<open>amw.c\<close> is the list of reservations it stands for: \<^verbatim>\<open>insertNode\<close> appends,
  \<^verbatim>\<open>deleteNode\<close> removes the first node of an address, \<^verbatim>\<open>searchNode\<close> finds it, and their loops end.\<close>

theorem reservation_list_refines:
  assumes "represents h head l"
  shows "(\<exists>head' h'. insertNode h head d r = Some (head', h') \<and> represents h' head' (amw_insert l d r)) \<and>
    (\<exists>head' h'. deleteNode h head d = Some (head', h') \<and> represents h' head' (amw_delete l d)) \<and>
    (\<exists>q. searchNode (cells h) head d = Some q \<and> map_option (contents_at (cells h)) q = amw_search l d)"
  using insertNode_refines [OF assms] deleteNode_refines [OF assms] searchNode_refines [OF assms] by blast

theorem reservation_list_refines_witness:
  "\<exists>head h. insertNode \<lparr>cells = Map.empty, brk = 0\<rparr> None 5 True = Some (head, h) \<and> represents h head [(5, True)]"
proof -
  have "represents \<lparr>cells = Map.empty, brk = 0\<rparr> None []" by (simp add: represents_def)
  from reservation_list_refines [OF this, of 5 True] show ?thesis by (simp add: amw_insert_def)
qed

section \<open>Memory and devices\<close>

text \<open>C25: Guest RAM through \<^verbatim>\<open>paddr_read\<close> and \<^verbatim>\<open>paddr_write\<close>: two writes to disjoint places are both there
  afterwards, at any of the widths 1, 2 and 4.\<close>

theorem ram_disjoint_writes:
  assumes "n \<in> {1, 2, 4}" and "k \<in> {1, 2, 4}" and "a + n \<le> b \<or> b + k \<le> a"
    and "ram_write c E m a n v = Inr m1" and "ram_write c E m1 b k w = Inr m2"
  shows "ram_read c E m2 a n = Inr (take_bit (8 * n) v) \<and> ram_read c E m2 b k = Inr (take_bit (8 * k) w)"
  using assms by (rule ram.rd_wr_disjoint)

theorem ram_disjoint_writes_witness:
  "\<exists>m1 m2. ram_write default_config quiet_env (demo 0) 0 4 7 = Inr m1 \<and> ram_write default_config quiet_env m1 4 2 0x12345 = Inr m2 \<and>
     ram_read default_config quiet_env m2 0 4 = Inr 7 \<and> ram_read default_config quiet_env m2 4 2 = Inr 0x2345"
proof -
  obtain m1 where m1: "ram_write default_config quiet_env (demo 0) 0 4 7 = Inr m1"
    using ram.wr_ok [where n = 4 and a = 0 and m = "demo 0" and v = 7] by (auto simp: MSIZE_eq)
  obtain m2 where m2: "ram_write default_config quiet_env m1 4 2 0x12345 = Inr m2"
    using ram.wr_ok [where n = 2 and a = 4 and m = m1 and v = "0x12345"] by (auto simp: MSIZE_eq)
  have t: "take_bit 16 (0x12345 :: u32) = 0x2345" by code_simp
  show ?thesis using ram_disjoint_writes [OF _ _ _ m1 m2] m1 m2 t by simp
qed

text \<open>An image stored byte by byte from a place that leaves room for it is read back byte by byte,
  and RAM outside it is kept.\<close>

theorem image_in_ram:
  assumes "a + length bs \<le> MSIZE"
  shows "\<exists>m'. store_bytes (ram_write c E) m a bs = Inr m' \<and>
    list_all (\<lambda>i. ram_read c E m' (a + i) 1 = Inr (ucast (bs ! i))) [0..<length bs] \<and>
    (b + 4 \<le> a \<or> a + length bs \<le> b \<longrightarrow> ram_read c E m' b 4 = ram_read c E m b 4)"
proof -
  obtain m' where m': "store_bytes (ram_write c E) m a bs = Inr m'"
    using ram.store_bytes_ok [OF assms, of c E m] by blast
  then show ?thesis
    using ram.store_bytes_read [OF m'] ram.store_bytes_frame [OF m', of 4 b] by (auto simp: list_all_iff)
qed

theorem image_in_ram_witness:
  "\<exists>m'. store_bytes (ram_write default_config quiet_env) (demo 0) 8 [1, 2] = Inr m' \<and>
     ram_read default_config quiet_env m' 9 1 = Inr 2"
  using image_in_ram [where a = 8 and bs = "[1, 2]" and m = "demo 0" and c = default_config and E = quiet_env] by (auto simp: MSIZE_eq upt_rec)

text \<open>An access that is neither RAM nor any device region stops the emulator with the address.\<close>

theorem unmapped_access_aborts:
  assumes "\<not> in_pmem a" and "list_all (\<lambda>e. \<not> map_inside e a) (mmio_maps m)" and "1 \<le> n" and "n \<le> 8"
  shows "paddr_read c E a n m = Inl (Out_of_bound a) \<and> paddr_write c E a n v m = Inl (Out_of_bound a)"
  using paddr_read_unmapped [OF assms] paddr_write_unmapped [OF assms] by simp

theorem unmapped_access_aborts_witness:
  "paddr_read default_config quiet_env 0x1000 4 (demo 0) = Inl (Out_of_bound 0x1000)"
  using unmapped_access_aborts [where a = "0x1000" and m = "demo 0" and n = 4 and c = default_config and E = quiet_env]
  by (simp add: in_pmem_def config_defs default_maps_def default_config_def entry_def map_inside_def Let_def
      screen_size_values)

text \<open>\<^verbatim>\<open>add_mmio_map\<close> keeps the table well formed: regions that do not wrap around are pairwise
  disjoint and outside the guest RAM.\<close>

theorem add_mmio_map_well_formed:
  assumes "add_mmio_map nm addr sp len cb m = Inr m'" and "maps_wf (mmio_maps m)"
    and "0 < len" and "len \<le> CONFIG_MSIZE" and "addr \<le> addr + len - 1"
  shows "maps_wf (mmio_maps m')"
  using assms by (rule add_mmio_map_keeps_wf)

theorem add_mmio_map_well_formed_witness:
  "\<exists>m'. add_mmio_map ''dev'' 0x1000 0 16 CB_null (demo 0) = Inr m' \<and> maps_wf (mmio_maps m')"
proof -
  have "\<exists>m'. add_mmio_map ''dev'' 0x1000 0 16 CB_null (demo 0) = Inr m'"
    by (simp add: add_mmio_map_Inr in_pmem_def config_defs default_maps_def default_config_def entry_def Let_def
        NR_MAP_def screen_size_values)
  then obtain m' where m': "add_mmio_map ''dev'' 0x1000 0 16 CB_null (demo 0) = Inr m'" ..
  have "maps_wf (mmio_maps (demo 0))" by (simp add: default_maps_wf default_config_def)
  from add_mmio_map_well_formed [OF m' this] m' show ?thesis by (simp add: config_defs)
qed

text \<open>\<^verbatim>\<open>init_device\<close> succeeds for the two smaller screens and leaves every device at its place, mtime 0
  and mtimecmp at its maximum.\<close>

theorem device_initialisation:
  assumes "cfg_vga c \<noteq> VGA_SIZE_1600x1200" and "env_alarm_ok E"
    and "unat (UART_LSR (env_serial_reg E)) < 0x1000" and "mmio_maps m = []" and "alarm_handlers m = []"
  shows "\<exists>m'. init_device c E heap m = Inr m' \<and> mmio_maps m' = default_maps c \<and> maps_wf (mmio_maps m') \<and>
    le_read (io_space m') (clint_base m' + MTIMELO) 8 = (0 :: u64) \<and>
    le_read (io_space m') (clint_base m' + MTIMECMPLO) 8 = (NOT 0 :: u64)"
  using init_device_layout [OF assms, of heap] default_maps_wf [OF assms(1)] by auto

theorem device_initialisation_witness:
  "\<exists>m'. init_device default_config quiet_env (\<lambda>_. 0) (devs_init quiet_env) = Inr m' \<and>
     mmio_maps m' = default_maps default_config"
  using device_initialisation [of default_config quiet_env "devs_init quiet_env" "\<lambda>_. 0"]
  by (auto simp: default_config_def quiet_env_def devs_init_def)

text \<open>C27: The keyboard queue is first in, first out: the scan codes queued into an empty queue, up to
  its capacity, are delivered in the same order and leave it empty.\<close>

theorem keyboard_fifo:
  assumes "kbd_inv q" and "kbd_contents q = []" and "length ks \<le> KEY_QUEUE_LEN - 1"
  shows "\<exists>q'. enq_all key_enqueue q ks = Inr q' \<and> fst (deq_many key_dequeue (length ks) q') = ks \<and>
    kbd_contents (snd (deq_many key_dequeue (length ks) q')) = []"
  using assms by (rule kbq.fifo_order)

theorem keyboard_fifo_witness:
  "\<exists>q'. enq_all key_enqueue kbd_init [3, 1, 2] = Inr q' \<and> fst (deq_many key_dequeue 3 q') = [3, 1, 2]"
  using keyboard_fifo [of kbd_init "[3, 1, 2]"]
  by (auto simp: kbd_init_def kbd_inv_def kbd_contents_def kbd_size_def KEY_QUEUE_LEN_def numeral_3_eq_3)

text \<open>The SD card read command: after \<^verbatim>\<open>MMC_READ_MULTIPLE_BLOCK\<close> at block \<open>blk\<close> the data register
  delivers the little-endian words of the image from byte \<open>512 * blk\<close> on.\<close>

theorem sdcard_block_read:
  assumes "sd_reg m SDCMD = Inr MMC_READ_MULTIPLE_BLOCK" and "sd_reg m SDARG = Inr blk"
    and "\<not> sd_read_ext_csd (sd m)" and "sd_file (sd m) = Some f"
    and "unat blk * 512 + 4 * n \<le> length f" and "sd_base m + 0x80 \<le> IO_SPACE_MAX"
  shows "\<exists>m1 m2. sdcard_io_handler 0 4 True m = Inr m1 \<and>
    sd_read_words n m1 = Inr (map (\<lambda>i. bytes_word (take 4 (drop (unat blk * 512 + 4 * i) f))) [0..<n], m2)"
  using assms by (rule sd_read_command)

definition sd_demo :: devs where
  "sd_demo = (devs_init quiet_env)\<lparr>io_space := le_write (\<lambda>_. 0) 0 4 (18 :: u32),
     sd := (sd_init quiet_env)\<lparr>sd_file := Some [1, 2, 3, 4, 5, 6, 7, 8]\<rparr>\<rparr>"

theorem sdcard_block_read_witness:
  "\<exists>m1 m2. sdcard_io_handler 0 4 True sd_demo = Inr m1 \<and> sd_read_words 2 m1 = Inr ([0x04030201, 0x08070605], m2)"
proof -
  have z: "le_read (\<lambda>_. 0) a n = (0 :: u32)" for a n by (induction n arbitrary: a) simp_all
  have o: "le_read (le_write (\<lambda>_. 0) 0 4 (18 :: u32)) 4 4 = (0 :: u32)" by (simp add: le_read_write_other z)
  have r: "sd_reg sd_demo SDCMD = Inr MMC_READ_MULTIPLE_BLOCK" "sd_reg sd_demo SDARG = Inr 0"
    using le_read_write_same [where f = "\<lambda>_. 0" and a = 0 and n = 4 and v = "18 :: u32"] o
    by (simp_all add: sd_demo_def devs_init_def sd_init_def sd_reg_def dev_peek_def SDCMD_def SDARG_def IO_SPACE_MAX_def
        MMC_READ_MULTIPLE_BLOCK_def)
  have w: "bytes_word [1, 2, 3, 4] = 0x04030201" "bytes_word [5, 6, 7, 8] = 0x08070605" by code_simp+
  from sdcard_block_read [OF r, of "[1, 2, 3, 4, 5, 6, 7, 8]" 2] show ?thesis
    by (simp add: sd_demo_def devs_init_def sd_init_def IO_SPACE_MAX_def upt_rec w)
qed

text \<open>Drawing the boot text never leaves the frame buffer, whatever the size and place of the text:
  the copy cannot fail, and every byte of the I/O space outside the buffer is kept.\<close>

theorem boot_text_in_frame_buffer:
  assumes "vmem m + unat (screen_size c) \<le> IO_SPACE_MAX"
  shows "\<exists>m'. blit_rows c pix w x y rows m = Inr m' \<and> vmem_only c m m'"
  using assms by (rule blit_rows_ok)

theorem boot_text_in_frame_buffer_witness:
  "\<exists>m'. blit_rows default_config (\<lambda>_. 0xff000000) 9999 100 100 [0, 9999] (devs_init quiet_env) = Inr m' \<and>
     vmem_only default_config (devs_init quiet_env) m'"
  by (rule boot_text_in_frame_buffer) (simp add: devs_init_def screen_size_values default_config_def IO_SPACE_MAX_def)

text \<open>Reading the high half of the RTC latches one sample of the host clock into both halves, so the
  pair the guest reads is one time, in microseconds since the start.\<close>

theorem rtc_consistent_pair:
  assumes "rtc_io_handler E 4 len False m = Inr m'"
  shows "(le_read (io_space m') (rtc_base m) 4 :: u32) = ucast (fst (get_time E m)) \<and>
    (le_read (io_space m') (rtc_base m + 4) 4 :: u32) = ucast (drop_bit 32 (fst (get_time E m)))"
  using rtc_latch [OF assms] by simp

theorem rtc_consistent_pair_witness:
  "\<exists>m'. rtc_io_handler quiet_env 4 4 False (devs_init quiet_env) = Inr m' \<and> (le_read (io_space m') 0 4 :: u32) = 0"
proof -
  have g: "get_time quiet_env (devs_init quiet_env) = (0, (devs_init quiet_env)\<lparr>host_calls := 2\<rparr>)"
    by (simp add: get_time_def get_time_internal_def host_call_def devs_init_def quiet_env_def Let_def)
  then obtain m' where "rtc_io_handler quiet_env 4 4 False (devs_init quiet_env) = Inr m'"
    by (auto simp: rtc_io_handler_def devs_init_def dev_poke_def IO_SPACE_MAX_def)
  from rtc_consistent_pair [OF this] this g show ?thesis by (simp add: devs_init_def)
qed

section \<open>The debugger\<close>

text \<open>C28: An expression of up to 16 decimal numbers joined by plus and minus signs, given to \<^verbatim>\<open>expr\<close> as
  text, evaluates to the operations associated to the right: \<^verbatim>\<open>a-b-c\<close> is a minus (b minus c).\<close>

theorem expression_chain:
  assumes "chain_ok d rest" and "length nums = 32" and "length ops = 32"
  shows "expr c E nums ops (chain_text d rest) m =
    Inr (chain_value (of_nat d) (map (\<lambda>(op, n). (op, of_nat n)) rest), True, m)"
  using assms by (rule expr_chain)

theorem expression_chain_witness:
  "expr default_config quiet_env (replicate 32 0) (replicate 32 CHR ''#'') ''7-2-1'' (demo 0) = Inr (6, True, demo 0)"
proof -
  have t: "chain_text 7 [(CHR ''-'', 2), (CHR ''-'', 1)] = ''7-2-1''"
    by code_simp
  have "chain_ok 7 [(CHR ''-'', 2), (CHR ''-'', 1)]" by (simp add: chain_ok_def)
  from expression_chain [OF this, of "replicate 32 0" "replicate 32 CHR ''#''" default_config quiet_env "demo 0", unfolded t]
  show ?thesis by (simp add: add_op_def)
qed

text \<open>C29: What \<^verbatim>\<open>make_token\<close> accepts: at most 32 tokens, each with a text of its kind that fits the
  array of 32 characters; the texts together are the input without its blanks, and the brackets
  are balanced.\<close>

theorem token_array:
  assumes "make_token e = Inr (Tokens ts)"
  shows "length ts \<le> 32 \<and> list_all token_ok ts \<and> concat (map snd ts) = filter not_blank e \<and> brackets 0 ts"
  using assms by (rule make_token_sound)

theorem token_array_witness:
  "length (chain_tokens 7 [(CHR ''-'', 2)]) \<le> 32 \<and> list_all token_ok (chain_tokens 7 [(CHR ''-'', 2)]) \<and>
   concat (map snd (chain_tokens 7 [(CHR ''-'', 2)])) = filter not_blank ''7-2'' \<and>
   brackets 0 (chain_tokens 7 [(CHR ''-'', 2)])"
proof (rule token_array)
  have t: "chain_text 7 [(CHR ''-'', 2)] = ''7-2''" by code_simp
  have "chain_ok 7 [(CHR ''-'', 2)]" by (simp add: chain_ok_def)
  from make_token_chain [OF this] show "make_token ''7-2'' = Inr (Tokens (chain_tokens 7 [(CHR ''-'', 2)]))"
    by (simp add: t)
qed

section \<open>The execution loop\<close>

text \<open>C16: A run of \<^verbatim>\<open>cpu_exec\<close> that returns has left the running state and executed at most the asked
  number of instructions, counted in \<^verbatim>\<open>g_nr_guest_inst\<close>; it executed all of them when it merely stopped.\<close>

theorem instructions_counted:
  assumes "rv_exec c E M R n m = Inr m'" and "nemu_state m \<noteq> NEMU_END" and "nemu_state m \<noteq> NEMU_ABORT"
  shows "nemu_state m' \<noteq> NEMU_RUNNING \<and>
    (\<exists>k\<le>unat n. g_nr_guest_inst m' = g_nr_guest_inst m + of_nat k \<and> (nemu_state m' = NEMU_STOP \<longrightarrow> k = unat n))"
  using assms by (intro rv.cpu_exec_count) (simp_all add: rv_exec_def)

theorem instructions_counted_witness:
  "\<exists>m' k. rv_exec default_config quiet_env quiet_mon no_ref 3 (mon_demo 0x00100073) = Inr m' \<and>
     nemu_state m' = NEMU_END \<and> k \<le> 3 \<and> g_nr_guest_inst m' = of_nat k"
proof -
  have off: "cfg_difftest default_config = DIFFTEST_OFF" by (simp add: default_config_def)
  obtain m' where m': "rv_exec default_config quiet_env quiet_mon no_ref 3 (mon_demo 0x00100073) = Inr m'" "nemu_state m' = NEMU_END"
    using cpu_exec_ebreak [OF mon_demo_ebreak off, of 3 quiet_env quiet_mon no_ref] by auto
  with instructions_counted [OF m'(1)] show ?thesis by auto
qed

text \<open>C30: The command \<^verbatim>\<open>c EXPR\<close> is live: if some number of single steps reaches the address or ends the
  program, its loop returns, in the first such state.\<close>

theorem run_until_returns:
  assumes "run_n c E M R k m = Inr m'" and "arrived e m'"
  shows "\<exists>j\<le>k. \<exists>m''. run_n c E M R j m = Inr m'' \<and> arrived e m'' \<and> run_until c E M R e m = Some (Inr m'')"
  using assms by (rule run_until_arrives)

theorem run_until_returns_witness:
  "\<exists>m''. run_until default_config quiet_env quiet_mon no_ref 0 (mon_demo 0x00100073) = Some (Inr m'') \<and> arrived 0 m''"
proof -
  have off: "cfg_difftest default_config = DIFFTEST_OFF" by (simp add: default_config_def)
  obtain m' where m': "rv_exec default_config quiet_env quiet_mon no_ref 1 (mon_demo 0x00100073) = Inr m'" "nemu_state m' = NEMU_END"
    using cpu_exec_ebreak [OF mon_demo_ebreak off, of 1 quiet_env quiet_mon no_ref] by auto
  have "run_n default_config quiet_env quiet_mon no_ref 1 (mon_demo 0x00100073) = Inr m'" "arrived 0 m'"
    using m' by (simp_all add: arrived_def)
  from run_until_returns [OF this] show ?thesis by blast
qed

text \<open>C13: A guest program ends the emulator with \<^verbatim>\<open>ebreak\<close>: where the next instruction is one, in RAM and with no interrupt due, and
  differential testing is off, \<^verbatim>\<open>cpu_exec\<close> returns in the end state with the program counter of the instruction and a0 as the
  exit code, and the process reports success exactly when a0 is 0.\<close>

theorem guest_exit:
  assumes "at_ebreak c m" and "cfg_difftest c = DIFFTEST_OFF" and "nemu_state m \<noteq> NEMU_END" and "nemu_state m \<noteq> NEMU_ABORT"
    and "0 < n"
  shows "\<exists>m'. rv_exec c E M R n m = Inr m' \<and> nemu_state m' = NEMU_END \<and> halt_pc m' = cpu_pc m \<and> halt_ret m' = gpr m 10 \<and>
    is_exit_status_bad m' = (if gpr m 10 = 0 then 0 else 1)"
proof -
  from cpu_exec_ebreak [OF assms, of E M R] obtain m' where "rv_exec c E M R n m = Inr m'" "nemu_state m' = NEMU_END"
    "halt_pc m' = cpu_pc m" "halt_ret m' = gpr m 10" by auto
  then show ?thesis by (simp add: is_exit_status_bad_def)
qed

theorem guest_exit_witness:
  "\<exists>m'. rv_exec default_config quiet_env quiet_mon no_ref (- 1) (mon_demo 0x00100073) = Inr m' \<and>
     nemu_state m' = NEMU_END \<and> halt_pc m' = RESET_VECTOR \<and> halt_ret m' = 0 \<and> is_exit_status_bad m' = 0"
proof -
  have off: "cfg_difftest default_config = DIFFTEST_OFF" by (simp add: default_config_def)
  have n: "0 < (- 1 :: u64)" by code_simp
  show ?thesis using guest_exit [OF mon_demo_ebreak off _ _ n, where E = quiet_env and M = quiet_mon and R = no_ref] by simp
qed

section \<open>Loading and comparing\<close>

text \<open>C26: \<^verbatim>\<open>load_img\<close> places the image at the reset vector and the firmware directly behind it, the kernel and the device
  tree at their addresses, byte by byte and each over the ones before, returns the number of bytes and leaves the rest of the RAM alone. Any
  of the four files may be missing, but one of the first three is given; those given are not empty and fit.\<close>

theorem image_then_bios:
  assumes "gives M (img_file m) b1" and "gives M (bios_file m) b2" and "gives M (kernel_file m) b3" and "gives M (dtb_file m) b4"
    and "b1 @ b2 @ b3 \<noteq> []" and "length b1 + length b2 \<le> MSIZE" and "guest_to_host PMEM_KERNEL + length b3 \<le> MSIZE"
    and "guest_to_host PMEM_DTB + length b4 \<le> MSIZE"
  shows "\<exists>m'. load_img M m = Inr (int (length b1 + length b2 + length b3 + length b4), m') \<and>
    (\<forall>i. pmem m' i =
       (if guest_to_host PMEM_DTB \<le> i \<and> i < guest_to_host PMEM_DTB + length b4 then b4 ! (i - guest_to_host PMEM_DTB)
        else if guest_to_host PMEM_KERNEL \<le> i \<and> i < guest_to_host PMEM_KERNEL + length b3 then b3 ! (i - guest_to_host PMEM_KERNEL)
        else if i < length b1 then b1 ! i
        else if i < length b1 + length b2 then b2 ! (i - length b1) else pmem m i))"
proof -
  obtain m' where "load_img M m = Inr (int (length b1 + length b2 + length b3 + length b4), m')"
    "pmem m' = put_bytes (put_bytes (put_bytes (put_bytes (pmem m) 0 b1) (length b1) b2)
      (guest_to_host PMEM_KERNEL) b3) (guest_to_host PMEM_DTB) b4"
    using load_img_files [OF assms] by blast
  then show ?thesis by (auto simp: put_bytes_def)
qed

theorem image_then_bios_witness:
  "\<exists>m'. load_img (quiet_mon\<lparr>menv_file := \<lambda>f. Some (if f = ''a'' then [1, 2] else [3])\<rparr>)
      ((mon_demo 0)\<lparr>img_file := Some ''a'', bios_file := Some ''b'', dtb_file := Some ''d''\<rparr>) = Inr (4, m') \<and>
    pmem m' 0 = 1 \<and> pmem m' 1 = 2 \<and> pmem m' 2 = 3 \<and> pmem m' 0x6c00000 = 3"
proof -
  let ?m = "(mon_demo 0)\<lparr>img_file := Some ''a'', bios_file := Some ''b'', dtb_file := Some ''d''\<rparr>"
  let ?M = "quiet_mon\<lparr>menv_file := \<lambda>f. Some (if f = ''a'' then [1, 2] else [3])\<rparr>"
  have g: "gives ?M (img_file ?m) [1, 2]" "gives ?M (bios_file ?m) [3]" "gives ?M (kernel_file ?m) []" "gives ?M (dtb_file ?m) [3]"
    by (simp_all add: gives_def)
  have a: "guest_to_host PMEM_DTB = 0x6c00000" "guest_to_host PMEM_KERNEL = 0x200000"
    by (simp_all add: guest_to_host_def config_defs)
  show ?thesis
    using image_then_bios [OF g] by (auto simp: a MSIZE_eq)
qed

text \<open>C17: The verdict of a comparison when the program counters agree: the emulator is put into the
  abort state, at the given address, exactly when one of the 32 general registers differs by more than
  the tolerance or, with Spike as the reference, one of the control registers it compares differs; otherwise it goes on. Registers, control registers and
  memory are kept.\<close>

theorem comparison_verdict:
  assumes "st_pc ref = cpu_pc m"
  shows "\<exists>m'. checkregs c M R ref pc m = Inr m' \<and> gpr m' = gpr m \<and> csrs m' = csrs m \<and> cpu_pc m' = cpu_pc m \<and> pmem m' = pmem m \<and>
    (if (\<exists>i<32. gpr_differs (st_gpr ref i) (gpr m i)) \<or>
        (cfg_difftest c = DIFFTEST_REF_SPIKE \<and> (\<exists>i<NR_CSR c - 1. st_csr ref i \<noteq> csrs m i))
     then nemu_state m' = NEMU_ABORT \<and> halt_pc m' = pc else nemu_state m' = nemu_state m)"
  using checkregs_verdict [OF assms, of c M R pc] unfolding disagrees_def by simp

theorem comparison_verdict_witness:
  "\<exists>m'. checkregs (default_config\<lparr>cfg_difftest := DIFFTEST_REF_SPIKE\<rparr>) quiet_mon no_ref
      \<lparr>st_gpr = (\<lambda>_. 0), st_csr = (\<lambda>_. 0)(2 := 8), st_pc = RESET_VECTOR\<rparr>
      8 (mon_demo 0) = Inr m' \<and> nemu_state m' = NEMU_ABORT \<and> halt_pc m' = 8"
proof -
  define ref where "ref = \<lparr>st_gpr = (\<lambda>_. 0 :: u32), st_csr = (\<lambda>_. 0 :: u32)(2 := 8), st_pc = RESET_VECTOR\<rparr>"
  let ?c = "default_config\<lparr>cfg_difftest := DIFFTEST_REF_SPIKE\<rparr>"
  have "\<exists>i<NR_CSR ?c - 1. st_csr ref i \<noteq> csrs (mon_demo 0) i"
    by (rule exI [of _ 2]) (simp add: ref_def NR_CSR_def default_config_def)
  moreover have "st_pc ref = cpu_pc (mon_demo 0)" by (simp add: ref_def)
  ultimately show ?thesis
    using comparison_verdict [of ref "mon_demo 0" ?c quiet_mon no_ref 8] by (auto simp: ref_def)
qed

section \<open>The reference\<close>

text \<open>C1: The emulator and mini-rv32ima agree: on any run of arithmetic instructions, aligned branches and jumps,
  loads and stores of RAM below the reference's own state, and fences, in which no interrupt is taken, started with equal registers and equal memory
  below the reference's own state, the loop of
  \<^verbatim>\<open>MiniRV32IMAStep\<close> takes as many instructions without a trap and ends at the same program counter with
  equal registers and memory again.\<close>

theorem emulator_in_step:
  assumes "plain_run c E (guest_limit s) n m m'" and "in_step m s"
  shows "\<exists>s' l. mini_loop E' n cycle (cpu_pc m) s = Inr (Go (cycle + of_nat n, l) s') \<and> l_trap l = 0 \<and>
    l_pc l = cpu_pc m' \<and> in_step m' s'"
  using plain_run_in_step [OF assms(1) refl assms(2)] .

theorem emulator_in_step_witness:
  "\<exists>m' s' l. exec_once (isa_exec_once default_config quiet_env) RESET_VECTOR (demo 0x00500093) = Inr m' \<and>
     mini_loop quiet_env 1 0 RESET_VECTOR (mini_zero\<lparr>image := le_write (\<lambda>_. 0) 0 4 (0x00500093 :: u32)\<rparr>) = Inr (Go (1, l) s') \<and>
     l_pc l = RESET_VECTOR + 4 \<and> CSR 1 s' = 5 \<and> in_step m' s'"
proof -
  define s where "s = mini_zero\<lparr>image := le_write (\<lambda>_. 0) 0 4 (0x00500093 :: u32)\<rparr>"
  have lim: "guest_limit s = 64 * 1024 * 1024 - 192"
    by (simp add: s_def guest_limit_def mini_zero_def SIZEOF_STATE_def)
  have ready: "ready default_config (at_pc (demo 0x00500093))" and f: "fetched (at_pc (demo 0x00500093)) = 0x00500093"
    using demo_bus [of "0x00500093"] demo_fetched [of "0x00500093"]
    by (simp_all add: ready_def no_interrupt_disabled bus_ok_def reset_vector MSIZE_eq at_pc_def fetched_def)
  have plain: "plain default_config (guest_limit s) (demo 0x00500093)"
    using ready by (simp add: plain_def plain_op_def f demo_decode reset_vector lim)
  have dec: "instpat_select (instpat_table default_config) (fetched (at_pc (demo 0x00500093))) = Inr (Some (TYPE_I, Alu ADDI))"
    by (simp add: f demo_decode)
  from completes_once [OF step_alu [OF ready dec], of quiet_env] obtain m' where m':
    "exec_once (isa_exec_once default_config quiet_env) RESET_VECTOR (demo 0x00500093) = Inr m'"
    "gpr m' = ((\<lambda>_. 0)(unat (BITS (0x00500093 :: u32) 11 7) := alu_result ADDI RESET_VECTOR
       (decode_operand 0x00500093 TYPE_I (at_pc (demo 0x00500093)))))(0 := 0)" "cpu_pc m' = RESET_VECTOR + 4"
    by (auto simp: f)
  have "unat (BITS (0x00500093 :: u32) 11 7) = 1" "immI 0x00500093 = 5" by code_simp+
  then have g1: "gpr m' 1 = 5" using m'(2) by (simp add: decode_operand_def Let_def)
  have run: "plain_run default_config quiet_env (guest_limit s) 1 (demo 0x00500093) m'"
    using one_more [OF plain _ done_run] m'(1) by simp
  have "le_read (image s) (core_at s r) 4 = (0 :: u32)" if "r < 32" for r
  proof -
    have "le_read (image s) (core_at s r) 4 = (le_read (\<lambda>_. 0) (core_at s r) 4 :: u32)"
      using core_above [OF that, of s] lim by (simp add: s_def le_read_write_other)
    also have "\<dots> = 0" by (simp add: eval_nat_numeral)
    finally show ?thesis .
  qed
  then have start: "in_step (demo 0x00500093) s"
    by (auto simp: in_step_def same_regs_def CSR_def) (simp add: s_def)
  from emulator_in_step [OF run start, where E' = quiet_env and cycle = 0] obtain s' l where
    "mini_loop quiet_env 1 0 RESET_VECTOR s = Inr (Go (1, l) s')" "l_pc l = cpu_pc m'" "in_step m' s'" by auto
  then show ?thesis using m' g1 by (intro exI [of _ m'] exI [of _ s'] exI [of _ l]) (auto simp: s_def in_step_def same_regs_def)
qed

text \<open>C31: Registers written to QEMU with a \<^verbatim>\<open>G\<close> packet and read back with \<^verbatim>\<open>g\<close> are the same, when the server
  accepts the packet and answers with the text it was given, acknowledged or not.\<close>

theorem registers_over_gdb:
  assumes "length ws = NR_GDB_REGS"
    and "g_in conn = answer (g_ack conn) (ascii ''OK'') @ answer (g_ack conn) (regs_text ws) @ rest"
  shows "\<exists>conn1 conn2. gdb_setregs ws conn = Some (Inr (True, conn1)) \<and>
    g_out conn1 = g_out conn @ packet (ascii ''G'' @ regs_text ws) @ (if g_ack conn then [PLUS] else []) \<and>
    gdb_getregs junk conn1 = Some (Inr (ws, conn2)) \<and> g_in conn2 = rest"
proof -
  from setregs_answer [OF assms(2)] obtain conn1 where c1: "gdb_setregs ws conn = Some (Inr (True, conn1))"
    "g_in conn1 = answer (g_ack conn1) (regs_text ws) @ rest" "g_ack conn1 = g_ack conn"
    "g_out conn1 = g_out conn @ packet (ascii ''G'' @ regs_text ws) @ (if g_ack conn then [PLUS] else [])"
    by force
  from getregs_answer [OF assms(1) c1(2)] c1 show ?thesis by metis
qed

theorem registers_over_gdb_witness:
  "\<exists>conn1 conn2. gdb_setregs (replicate 77 0x12345678)
      \<lparr>g_in = answer True (ascii ''OK'') @ answer True (regs_text (replicate 77 0x12345678)), g_out = [], g_ack = True\<rparr> =
        Some (Inr (True, conn1)) \<and>
    gdb_getregs (\<lambda>_. 0) conn1 = Some (Inr (replicate 77 0x12345678, conn2)) \<and> g_in conn2 = []"
  using registers_over_gdb [of "replicate 77 0x12345678"
      "\<lparr>g_in = answer True (ascii ''OK'') @ answer True (regs_text (replicate 77 0x12345678)), g_out = [], g_ack = True\<rparr>" "[]"
      "\<lambda>_. 0"]
  by (simp add: NR_GDB_REGS_def) blast

section \<open>The other cores\<close>




text \<open>C2: Differential testing against mini-rv32ima does not abort a correct run: the emulator and the reference
  start with the same registers, memory and program counter, the devices are at their places, no instruction is marked to be skipped, the reference has interrupts
  or that of its timer disabled, does not wait for one and has an unlimited budget of instructions, and
  nobody closes the window or presses a key. If every instruction the loop of \<^verbatim>\<open>execute\<close> meets is
  an arithmetic one, an aligned jump or branch, a RAM access below the reference's own state or a fence, met with no interrupt of the emulator
  due, then the loop with \<^verbatim>\<open>difftest_step\<close> and the updates of the devices runs all of its instructions, is still running and
  the two are equal again.\<close>

theorem differential_session:
  assumes "cfg_difftest c = DIFFTEST_REF_MINIRV32I" and "no_input E"
    and "in_session c m" and "bus_ok c m"
    and "\<And>k m1. k < n \<Longrightarrow> execute c E (rv_step c E) (difftest_step c E M (mini_ops c E' file dtb nm)) k m = Inr m1 \<Longrightarrow>
      plain c (session_limit m) m1"
  shows "\<exists>m'. execute c E (rv_step c E) (difftest_step c E M (mini_ops c E' file dtb nm)) n m = Inr m' \<and>
    nemu_state m' = NEMU_RUNNING \<and> in_step m' (mini_vm (ref_state m')) \<and> CSR f_pc (mini_vm (ref_state m')) = cpu_pc m' \<and>
    in_session c m'"
proof -
  obtain m' where "execute c E (rv_step c E) (difftest_step c E M (mini_ops c E' file dtb nm)) n m = Inr m'" "in_session c m'"
    using execute_session [OF assms(1-4), of n M E' "file" dtb nm] assms(5) by blast
  then show ?thesis by (auto simp: in_session_def ref_ready_def)
qed

theorem differential_session_witness:
  "\<exists>m'. execute session_config quiet_env (rv_step session_config quiet_env)
      (difftest_step session_config quiet_env quiet_mon (mini_ops session_config quiet_env (\<lambda>_. None) [] ''image''))
      1 (session_demo 0x00500093) = Inr m' \<and> nemu_state m' = NEMU_RUNNING \<and> in_step m' (mini_vm (ref_state m'))"
proof -
  have "plain session_config (session_limit (session_demo 0x00500093)) (session_demo 0x00500093)"
    by (rule session_demo_plain) (rule demo_decode)
  moreover have "no_input quiet_env" by (simp add: no_input_def quiet_env_def)
  ultimately show ?thesis
    using differential_session [of session_config quiet_env "session_demo 0x00500093" 1 quiet_mon quiet_env "\<lambda>_. None" "[]" "''image''"]
      session_demo_starts session_demo_bus by (auto simp: session_config_def)
qed

text \<open>
  A request to be carried out: two blocks of eight bytes at block 1 of a small image, on a machine whose devices are at
  their places, and an iterator whose chunks end at every twelfth byte.
\<close>

definition demo_ends :: "nat \<Rightarrow> nat list" where
  "demo_ends n = filter (\<lambda>e. e mod 12 = 0 \<or> e = n) [1..<n + 1]"

definition demo_view :: "sg_view \<Rightarrow> sg_view" where
  "demo_view g = g\<lparr>v_ends := demo_ends (v_total g)\<rparr>"

lemma demo_view_sel [simp]: "v_total (demo_view g) = v_total g" "v_pos (demo_view g) = v_pos g" "v_used (demo_view g) = v_used g"
  "v_len (demo_view g) = v_len g" "v_mem (demo_view g) = v_mem g" "v_ends (demo_view g) = demo_ends (v_total g)"
  by (simp_all add: demo_view_def)

definition demo_next :: "sg_view \<Rightarrow> sg_view option" where
  "demo_next g = (let p = v_pos g + v_used g; n = min (12 - p mod 12) (v_total g - p) in
     if p < v_total g then Some (g\<lparr>v_pos := p, v_len := n, v_used := n\<rparr>) else None)"

definition demo_linux :: "(devs, sg_view) linux" where
  "demo_linux = \<lparr> k_readl = sd_readl (default_config\<lparr>cfg_sdcard := True\<rparr>) quiet_env,
     k_writel = sd_writel (default_config\<lparr>cfg_sdcard := True\<rparr>) quiet_env,
     k_sg_start = (\<lambda>d to_sg g. g\<lparr>v_total := sum_list (d_sg d), v_pos := 0, v_len := 0, v_used := 0\<rparr>),
     k_sg_next = demo_next, k_sg_length = v_len, k_sg_consumed = (\<lambda>n g. g\<lparr>v_used := n\<rparr>),
     k_sg_stop = (\<lambda>g. g\<lparr>v_pos := v_pos g + v_used g, v_len := 0, v_used := 0\<rparr>),
     k_buf_read = (\<lambda>i g. v_mem g (v_pos g div 4 + i)),
     k_buf_write = (\<lambda>i v g. g\<lparr>v_mem := (v_mem g)(v_pos g div 4 + i := v)\<rparr>),
     k_is_power_of_2 = (\<lambda>n. n \<noteq> 0 \<and> n AND (n - 1) = 0),
     k_RSP_PRESENT = 1, k_RSP_136 = 2, k_RSP_BUSY = 8, k_DATA_WRITE = 0x100, k_DATA_READ = 0x200, k_debug = False \<rparr>"

lemma demo_linux_laws: "sg_laws demo_linux demo_view"
proof -
  have n: "\<exists>g' n. demo_next g = Some g' \<and> 0 < n \<and> v_pos g + v_used g + n \<le> v_total g \<and>
      v_pos g + v_used g + n \<in> set (demo_ends (v_total g)) \<and>
      demo_view g' = (demo_view g)\<lparr>v_pos := v_pos g + v_used g, v_len := n, v_used := n\<rparr>"
    if "v_pos g + v_used g < v_total g" for g
  proof (intro exI conjI)
    let ?p = "v_pos g + v_used g"
    let ?n = "min (12 - ?p mod 12) (v_total g - ?p)"
    show "demo_next g = Some (g\<lparr>v_pos := ?p, v_len := ?n, v_used := ?n\<rparr>)"
      using that by (simp add: demo_next_def Let_def)
    show "0 < ?n" and "?p + ?n \<le> v_total g" using that by auto
    have "(?p + (12 - ?p mod 12)) mod 12 = 0" by presburger
    then have "(?p + ?n) mod 12 = 0 \<or> ?p + ?n = v_total g" using that by (simp add: min_def)
    then show "?p + ?n \<in> set (demo_ends (v_total g))" using that by (auto simp: demo_ends_def)
  qed (simp add: demo_view_def)
  show ?thesis
    unfolding sg_laws_def using n by (auto simp: demo_linux_def)
qed

definition demo_command :: "u32 \<Rightarrow> u32 \<Rightarrow> bool \<Rightarrow> mmc_command" where
  "demo_command op a d = \<lparr>c_opcode = op, c_arg = a, c_flags = 1, c_resp = (\<lambda>_. 0), c_error = 0, c_data = d\<rparr>"

definition demo_data :: "u32 \<Rightarrow> mmc_data" where
  "demo_data fl = \<lparr>d_blksz = 8, d_blocks = 2, d_flags = fl, d_error = 0, d_bytes_xfered = 0, d_sg = [16]\<rparr>"

lemma demo_word_ends: "word_ends (demo_view (k_sg_start demo_linux ((demo_data fl)\<lparr>d_error := 0\<rparr>) w g))"
proof -
  have "list_all ((dvd) 4) (demo_ends 16)" by code_simp
  then show ?thesis by (simp add: word_ends_def demo_linux_def demo_data_def)
qed

definition demo_request :: "bool \<Rightarrow> mmc_request" where
  "demo_request w = \<lparr>r_sbc = Some (demo_command 23 2 False), r_cmd = Some (demo_command (if w then 25 else 18) 1 True),
     r_stop = Some (demo_command 12 0 False), r_data = Some (demo_data (if w then 0x100 else 0x200))\<rparr>"

definition demo_image :: "u8 list" where
  "demo_image = replicate 512 0 @ [1, 2, 3, 4, 5, 6, 7, 8, 9, 10, 11, 12, 13, 14, 15, 16]"

lemma bytes_word_list:
  "bytes_word [a, b, c, d] = ucast a OR push_bit 8 (ucast b OR push_bit 8 (ucast c OR push_bit 8 (ucast d)))"
proof -
  have "(4 :: nat) = Suc (Suc (Suc (Suc 0)))" by simp
  then show ?thesis by (simp only: bytes_word_def le_read.simps) simp
qed

definition demo_card :: devs where
  "demo_card = (devs_init quiet_env)\<lparr>mmio_maps := default_maps (default_config\<lparr>cfg_sdcard := True\<rparr>),
     sd_base := sd_at (default_config\<lparr>cfg_sdcard := True\<rparr>),
     sd := (sd_init quiet_env)\<lparr>sd_file := Some demo_image\<rparr>\<rparr>"

definition demo_host :: "(nat \<Rightarrow> u32) \<Rightarrow> (devs, sg_view) nemu_host" where
  "demo_host mem = \<lparr>h_bus = demo_card, h_sg = \<lparr>v_total = 0, v_ends = [], v_pos = 0, v_len = 0, v_used = 0, v_mem = mem\<rparr>, h_mrq = None,
     h_cmd = None, h_data = False, h_data_complete = False, h_use_sbc = False, h_blocks = 0, h_warnings = 0, h_done = []\<rparr>"

lemma demo_host_free: "host_free (demo_host mem)"
  by (simp add: host_free_def demo_host_def)

lemma demo_linux_on: "linux_on (default_config\<lparr>cfg_sdcard := True\<rparr>) quiet_env demo_linux" "\<not> k_debug demo_linux"
  by (simp_all add: linux_on_def demo_linux_def)

lemma demo_card_idle: "sd_idle (default_config\<lparr>cfg_sdcard := True\<rparr>) demo_image (h_bus (demo_host mem))"
  by (simp add: demo_host_def sd_idle_def demo_card_def sd_init_def default_config_def)

lemma demo_transfer: "transfer_request demo_linux w 1 (demo_data (if w then 0x100 else 0x200)) 2 (demo_request w)"
  by (simp add: transfer_request_def demo_request_def transfer_cmd_def quiet_cmd_def demo_command_def demo_data_def flag_def
      demo_linux_def)

text \<open>
  C14: the guest's driver reads what the card holds. A request for several blocks (a power of two of words each) that the Linux driver,
  with nothing else under way, sends to the emulator's controller through the bus ends without an error, with the number of bytes the request asks for, and leaves in
  the buffer the words of the image from the block of its argument on; the card keeps the image, which is long enough. It holds with or without
  the command that announces the number of blocks and the one that stops the transfer, and for whatever chunks of whole words the kernel's
  scatter-gather iterator maps: the driver answers a chunk that ends inside a word with an error. The driver is built without its debug messages, for
  which it would read a register the controller does not have.
\<close>

theorem driver_reads_card:
  fixes K :: "(('a) devs_scheme, 'g) linux"
  assumes "linux_on c E K" and "sg_laws K vw" and "\<not> k_debug K" and "host_free h"
    and "word_ends (vw (k_sg_start K (d\<lparr>d_error := 0\<rparr>) True (h_sg h)))"
    and "sd_idle c f (h_bus h)" and "transfer_request K False blk d n r"
    and "unat blk * 512 + 4 * (unat (d_blocks d) * n) \<le> length f"
  shows "\<exists>h' r'. nemu_request K r h = Inr h' \<and> host_free h' \<and> h_done h' = h_done h @ [r'] \<and> h_warnings h' = h_warnings h \<and>
    like ((reset_errors r)\<lparr>r_data := Some (d\<lparr>d_error := 0, d_bytes_xfered := d_blksz d * d_blocks d\<rparr>)\<rparr>) r' \<and>
    sd_idle c f (h_bus h') \<and>
    (\<forall>j < unat (d_blocks d) * n. v_mem (vw (h_sg h')) j = image_word f (unat blk * 512) j)"
proof -
  let ?R = "\<lambda>k b m. sd_moving c False f (unat blk * 512 + 4 * k) b \<and> (\<forall>j<k. m j = image_word f (unat blk * 512) j)"
  have "word_moves K vw (\<not> False) ?R (unat (d_blocks d) * n)"
    using port.moves_read [where K = K and c = c and E = E and view = vw and base = "unat blk * 512" and
        N = "unat (d_blocks d) * n" and f = f] assms(1,2,8) by (simp add: linux_on_def)
  from port.request_moves [OF _ _ assms(2) _ assms(3) _ _ _ assms(7,6) _ this, where E = E and f' = f]
  show ?thesis using assms(1,4,5) by (auto simp: linux_on_def host_free_def dest: sd_moving_idle)
qed

theorem driver_reads_card_witness:
  "\<exists>h' r'. nemu_request demo_linux (demo_request False) (demo_host (\<lambda>_. 0)) = Inr h' \<and> h_done h' = [r'] \<and>
     map_option d_bytes_xfered (r_data r') = Some 16 \<and>
     map (v_mem (h_sg h')) [0..<4] = [0x04030201, 0x08070605, 0x0C0B0A09, 0x100F0E0D]"
proof -
  have l: "unat (1::u32) * 512 + 4 * (unat (d_blocks (demo_data 0x200)) * 2) \<le> length demo_image"
    by (simp add: demo_data_def demo_image_def)
  have i: "map (image_word demo_image (unat (1::u32) * 512)) [0..<4] = [0x04030201, 0x08070605, 0x0C0B0A09, 0x100F0E0D]"
    by (simp add: demo_image_def image_word_def upt_rec bytes_word_list)
  obtain h' r' where h: "nemu_request demo_linux (demo_request False) (demo_host (\<lambda>_. 0)) = Inr h'"
      "h_done h' = h_done (demo_host (\<lambda>_. 0)) @ [r']"
      "like ((reset_errors (demo_request False))\<lparr>r_data := Some (demo_data 0x200\<lparr>d_error := 0, d_bytes_xfered := 8 * 2\<rparr>)\<rparr>) r'"
      "\<forall>j < 4. v_mem (demo_view (h_sg h')) j = image_word demo_image (unat (1::u32) * 512) j"
    using driver_reads_card [OF demo_linux_on(1) demo_linux_laws demo_linux_on(2) demo_host_free [of "\<lambda>_. 0"] demo_word_ends demo_card_idle
        demo_transfer [of False, simplified] l]
    by (auto simp: demo_data_def)
  have "map (v_mem (h_sg h')) [0..<4] = map (image_word demo_image (unat (1::u32) * 512)) [0..<4]"
    by (rule map_cong) (use h(4) in auto)
  with h i show ?thesis by (auto simp: like_def demo_host_def)
qed

text \<open>
  C15: what the guest's driver writes is on the card. After a write request for several blocks, from a buffer in chunks of whole words and by a driver
  built without debug messages, with nothing else under way, the image holds, from the block of its argument
  on, the bytes of the buffer, and nothing else of it has changed; the request ends without an error, and the buffer is as
  it was.
\<close>

theorem driver_writes_card:
  fixes K :: "(('a) devs_scheme, 'g) linux"
  assumes "linux_on c E K" and "sg_laws K vw" and "\<not> k_debug K" and "host_free h"
    and "word_ends (vw (k_sg_start K (d\<lparr>d_error := 0\<rparr>) False (h_sg h)))"
    and "sd_idle c f (h_bus h)" and "transfer_request K True blk d n r" and "unat blk * 512 \<le> length f"
    and "v_mem (vw (k_sg_start K (d\<lparr>d_error := 0\<rparr>) False (h_sg h))) = mem"
  shows "\<exists>h' r'. nemu_request K r h = Inr h' \<and> host_free h' \<and> h_done h' = h_done h @ [r'] \<and> h_warnings h' = h_warnings h \<and>
    like ((reset_errors r)\<lparr>r_data := Some (d\<lparr>d_error := 0, d_bytes_xfered := d_blksz d * d_blocks d\<rparr>)\<rparr>) r' \<and>
    sd_idle c (stream_write f (unat blk * 512) (buf_bytes mem (unat (d_blocks d) * n))) (h_bus h') \<and>
    v_mem (vw (h_sg h')) = mem"
proof -
  let ?f = "\<lambda>k. stream_write f (unat blk * 512) (buf_bytes mem k)"
  let ?R = "\<lambda>k b m. sd_moving c True (?f k) (unat blk * 512 + 4 * k) b \<and> m = mem"
  have m: "word_moves K vw (\<not> True) ?R (unat (d_blocks d) * n)"
    using port.moves_write [where K = K and c = c and E = E and view = vw and base = "unat blk * 512" and
        N = "unat (d_blocks d) * n" and f = f and mem = mem] assms(1,2) by (simp add: linux_on_def)
  have z: "?f 0 = f" using assms(8) by (simp add: buf_bytes_def stream_write_Nil)
  from port.request_moves [OF _ _ assms(2) _ assms(3) _ _ _ assms(7,6) _ m, where E = E and f' = "?f (unat (d_blocks d) * n)"]
  show ?thesis using assms(1,4,5,9) z by (auto simp: linux_on_def host_free_def dest: sd_moving_idle)
qed

theorem driver_writes_card_witness:
  "\<exists>h' r'. nemu_request demo_linux (demo_request True) (demo_host (\<lambda>j. of_nat j + 0x61626360)) = Inr h' \<and> h_done h' = [r'] \<and>
     map_option d_bytes_xfered (r_data r') = Some 16 \<and>
     sd_file (sd (h_bus h')) = Some (replicate 512 0 @ [0x60, 0x63, 0x62, 0x61, 0x61, 0x63, 0x62, 0x61,
       0x62, 0x63, 0x62, 0x61, 0x63, 0x63, 0x62, 0x61])"
proof -
  let ?mem = "\<lambda>j. of_nat j + 0x61626360 :: u32"
  have l: "unat (1::u32) * 512 \<le> length demo_image" by (simp add: demo_image_def)
  have s: "v_mem (demo_view (k_sg_start demo_linux (demo_data 0x100\<lparr>d_error := 0\<rparr>) False (h_sg (demo_host ?mem)))) = ?mem"
    by (simp add: demo_linux_def demo_host_def)
  have i: "stream_write demo_image (unat (1::u32) * 512) (buf_bytes ?mem 4) = replicate 512 0 @ [0x60, 0x63, 0x62, 0x61,
      0x61, 0x63, 0x62, 0x61, 0x62, 0x63, 0x62, 0x61, 0x63, 0x63, 0x62, 0x61]"
    by (simp add: stream_write_def demo_image_def buf_bytes_def upt_rec data_bytes_def)
  obtain h' r' where h: "nemu_request demo_linux (demo_request True) (demo_host ?mem) = Inr h'"
      "h_done h' = h_done (demo_host ?mem) @ [r']"
      "like ((reset_errors (demo_request True))\<lparr>r_data := Some (demo_data 0x100\<lparr>d_error := 0, d_bytes_xfered := 8 * 2\<rparr>)\<rparr>) r'"
      "sd_idle (default_config\<lparr>cfg_sdcard := True\<rparr>) (stream_write demo_image (unat (1::u32) * 512) (buf_bytes ?mem 4)) (h_bus h')"
    using driver_writes_card [OF demo_linux_on(1) demo_linux_laws demo_linux_on(2) demo_host_free [of ?mem] demo_word_ends demo_card_idle
        demo_transfer [of True, simplified] l s]
    by (auto simp: demo_data_def)
  with i show ?thesis by (auto simp: like_def demo_host_def sd_idle_def)
qed

text \<open>
  C34: the division routine of the test program divides. For every 64-bit number and every 32-bit divisor but 0, where the
  division of the high half fails, the shifting and subtracting of \<^verbatim>\<open>__div64_32\<close> ends with the quotient and the remainder.
\<close>

theorem div64_32_divides:
  "div64_32 n base = (if base = 0 then Inl (Assert_fail ''division by zero'')
     else Inr (n div ucast base, ucast (n mod ucast base)))"
proof (cases "base = 0")
  case True
  then show ?thesis by (simp add: div64_32_def Let_def)
next
  case False
  then show ?thesis using div64_32_correct [OF False] by simp
qed

text \<open>
  A machine of the KVM reference to be carried out: at 0x7c00 the instructions pushf, popf, iret, with the stack at 0x8000;
  the kernel runs an iret and takes any other instruction for one byte that does nothing.
\<close>

definition demo_kvm_run :: "unit guest \<Rightarrow> run_ret \<times> unit guest" where
  "demo_kvm_run g = (let r = g_regs g; op = g_mem g (unat (rip r));
       r' = (if op = 0xcf then r\<lparr>rip := le_read (g_mem g) (unat (rsp r)) 4, rsp := rsp r + 12\<rparr> else r\<lparr>rip := rip r + 1\<rparr>)
     in (Run_ok, g\<lparr>g_regs := r', g_exit := KVM_EXIT_DEBUG, g_debug_pc := rip r'\<rparr>))"

definition demo_sregs :: kvm_sregs where
  "demo_sregs = (let seg = \<lparr>seg_base = 0, seg_limit = 0, seg_selector = 0, seg_type = 0, seg_present = 0, seg_dpl = 0,
       seg_db = 0, seg_s = 0, seg_l = 0, seg_g = 0\<rparr>
     in \<lparr>sr_cs = seg, sr_ds = seg, sr_es = seg, sr_fs = seg, sr_gs = seg, sr_ss = seg, sr_cr0 = 0, sr_idt_base = 0\<rparr>)"

definition demo_kvm_host :: "unit kvm_host" where
  "demo_kvm_host = (let ok = (\<lambda>k. (0, k)) in \<lparr>hv_open = ok, hv_api_version = (\<lambda>k. (12, k)), hv_create_vm = ok,
     hv_set_tss_addr = (\<lambda>a. ok), hv_mmap = (\<lambda>n k. (True, k)), hv_set_memory = (\<lambda>s b n. ok), hv_create_vcpu = ok,
     hv_vcpu_mmap_size = (\<lambda>k. (12288, k)), hv_set_debug = (\<lambda>w a. ok), hv_set_regs = (\<lambda>r. ok),
     hv_get_sregs = (\<lambda>k. (0, demo_sregs, k)), hv_set_sregs = (\<lambda>s. ok), hv_translate = (\<lambda>va k. (0, True, va)),
     hv_interrupt = (\<lambda>n. ok), hv_run = demo_kvm_run\<rparr>)"

definition demo_kvm :: "u64 \<Rightarrow> unit kvm" where
  "demo_kvm pc = \<lparr>guest = \<lparr>g_mem = (\<lambda>_. 0)(0x7c00 := 0x9c, 0x7c01 := 0x9d, 0x7c02 := 0xcf, 0x8001 := 0x90), g_mmio = (\<lambda>_. 0),
     g_regs = \<lparr>rax = 0, rbx = 0, rcx = 0, rdx = 0, rsi = 0, rdi = 0, rsp = 0x8000, rbp = 0, rip = pc, rflags = 0x246\<rparr>,
     g_sregs = setup_protected_mode demo_sregs,
     g_valid_regs = 3, g_dirty_regs = 0, g_exit = KVM_EXIT_DEBUG, g_debug_pc = 0, g_kernel = ()\<rparr>,
     int_wp_state = STATE_IDLE, has_error_code = False, wp_entry = 0\<rparr>"

text \<open>
  C33: saving and restoring the flags on the KVM reference. Running pushf and popf one after the other, which the reference
  emulates without entering the machine, leaves the stack pointer and every other register as they were, the program behind
  the second instruction, and the flags as they were except for those the reference clears (ID, AC, RF, AF), the trap flag
  that is set, and the upper half; the memory changes only in the word pushed. This is with paging off, where the reference is not at the
  first instruction of an interrupt handler (there it does not emulate and enters the machine), both instructions and the word pushed lie in the
  memory, and the word does not overlap the instructions.
\<close>

theorem kvm_pushf_popf:
  assumes "no_paging m" and "int_wp_state m \<noteq> STATE_INT_INST" and "rip (gregs m) = ucast (pc :: u32)"
    and "g_mem (guest m) (unat pc) = 0x9c" and "g_mem (guest m) (unat pc + 1) = 0x9d" and "unat pc + 1 < MSIZE"
    and "rsp (gregs m) = ucast sp + 4" and "unat (sp :: u32) + 4 \<le> MSIZE"
    and "unat pc + 1 < unat sp \<or> unat sp + 4 \<le> unat pc + 1"
  shows "\<exists>m' fl. kvm_difftest_exec H 0 2 m = Inr m' \<and> gregs m' = (gregs m)\<lparr>rip := rip (gregs m) + 2, rflags := fl\<rparr> \<and>
    (\<forall>i. bit fl i = (i \<in> {1, 8} \<or> i < 32 \<and> i \<notin> {4, 16, 18, 21} \<and> bit (rflags (gregs m)) i)) \<and>
    (\<forall>a. a < unat sp \<or> unat sp + 4 \<le> a \<longrightarrow> g_mem (guest m') a = g_mem (guest m) a)"
proof -
  let ?fl = "ucast ((pushed_flags (rflags (gregs m)) OR RFLAGS_TF) OR 2) :: u64"
  have b1: "bit (RFLAGS_FIX_MASK) i = (i \<in> {4, 8, 16, 18, 21})" for i
    by (simp only: rflags_defs bit_or_iff bit_push_bit_iff bit_1_iff possible_bit_word) auto
  have b8: "bit RFLAGS_TF i = (i = 8)" for i
    by (simp only: rflags_defs bit_or_iff bit_push_bit_iff bit_1_iff possible_bit_word) auto
  have b2: "bit (2 :: u32) i = (i = 1)" for i
    using bit_push_bit_iff [of 1 "1 :: u32" i] by (auto simp: bit_1_iff)
  have p: "bit (pushed_flags (rflags (gregs m))) i = (i < 32 \<and> bit (rflags (gregs m)) i \<and> i \<notin> {4, 8, 16, 18, 21})" for i
    unfolding pushed_flags_def bit_and_iff bit_not_iff b1 bit_ucast_iff possible_bit_word by auto
  have fl: "bit ?fl i = (i \<in> {1, 8} \<or> i < 32 \<and> i \<notin> {4, 16, 18, 21} \<and> bit (rflags (gregs m)) i)" for i
    unfolding bit_ucast_iff bit_or_iff b8 b2 p possible_bit_word by (cases "i < 32") auto
  define m' where "m' = m\<lparr>guest := (guest m)\<lparr>
    g_mem := le_write (g_mem (guest m)) (unat sp) 4 (pushed_flags (rflags (gregs m))),
    g_regs := (gregs m)\<lparr>rip := rip (gregs m) + 2, rflags := ?fl\<rparr>, g_dirty_regs := KVM_SYNC_X86_REGS\<rparr>\<rparr>"
  have "kvm_difftest_exec H 0 2 m = Inr m'"
    using pushf_then_popf [OF assms, of H 0] by (simp add: kvm_difftest_exec_def m'_def)
  moreover have "gregs m' = (gregs m)\<lparr>rip := rip (gregs m) + 2, rflags := ?fl\<rparr>" by (simp add: m'_def gregs_def)
  moreover have "\<forall>a. a < unat sp \<or> unat sp + 4 \<le> a \<longrightarrow> g_mem (guest m') a = g_mem (guest m) a"
    by (simp add: m'_def le_write_apply)
  ultimately show ?thesis using fl by blast
qed

theorem kvm_pushf_popf_witness:
  "\<exists>m'. kvm_difftest_exec demo_kvm_host 0 2 (demo_kvm 0x7c00) = Inr m' \<and> rip (gregs m') = 0x7c02 \<and> rsp (gregs m') = 0x8000 \<and>
     bit (rflags (gregs m')) 6 \<and> bit (rflags (gregs m')) 8"
proof -
  have "no_paging (demo_kvm 0x7c00)"
    by (simp add: no_paging_def demo_kvm_def demo_sregs_def setup_protected_mode_def Let_def CR0_PE_def CR0_PG_def)
  moreover have "rip (gregs (demo_kvm 0x7c00)) = ucast (0x7c00 :: u32)" "rsp (gregs (demo_kvm 0x7c00)) = ucast (0x7ffc :: u32) + 4"
      "int_wp_state (demo_kvm 0x7c00) \<noteq> STATE_INT_INST" "g_mem (guest (demo_kvm 0x7c00)) (unat (0x7c00 :: u32)) = 0x9c"
      "g_mem (guest (demo_kvm 0x7c00)) (unat (0x7c00 :: u32) + 1) = 0x9d" "rflags (gregs (demo_kvm 0x7c00)) = 0x246"
    by (simp_all add: demo_kvm_def gregs_def)
  ultimately obtain m' fl where "kvm_difftest_exec demo_kvm_host 0 2 (demo_kvm 0x7c00) = Inr m'"
      "gregs m' = (gregs (demo_kvm 0x7c00))\<lparr>rip := 0x7c00 + 2, rflags := fl\<rparr>"
      "\<forall>i. bit fl i = (i \<in> {1, 8} \<or> i < 32 \<and> i \<notin> {4, 16, 18, 21} \<and> bit (0x246 :: u64) i)"
    using kvm_pushf_popf [where m = "demo_kvm 0x7c00" and pc = "0x7c00" and sp = "0x7ffc" and H = demo_kvm_host]
    by (auto simp: MSIZE_eq)
  then show ?thesis by (simp add: demo_kvm_def gregs_def)
qed

text \<open>
  The watchpoint of the KVM reference does not outlive the instruction it was set for. The machine comes up without one,
  and whenever the reference, being without one, has executed a number of instructions, it is without one again, the ones set
  for an iret on the way being removed at its target; as documented, a run that a signal interrupts changes nothing.
\<close>

theorem kvm_watchpoint_idle:
  assumes "kvm_laws H"
  shows "(\<forall>m'. kvm_difftest_init H fuel m = Inr m' \<longrightarrow> int_wp_state m' = STATE_IDLE) \<and>
    (\<forall>m'. int_wp_state m = STATE_IDLE \<longrightarrow> kvm_difftest_exec H fuel n m = Inr m' \<longrightarrow> int_wp_state m' = STATE_IDLE)"
proof (intro conjI allI impI)
  fix m' assume "kvm_difftest_init H fuel m = Inr m'"
  then show "int_wp_state m' = STATE_IDLE"
    by (auto simp: kvm_difftest_init_def res_simps dest: vcpu_init_idle intro: run_protected_mode_idle [OF _ assms])
next
  fix m' assume "int_wp_state m = STATE_IDLE" "kvm_difftest_exec H fuel n m = Inr m'"
  then show "int_wp_state m' = STATE_IDLE"
    using kvm_exec_wp [OF _ assms, of fuel "unat n" m m'] by (simp add: kvm_difftest_exec_def wp_ok_def)
qed

theorem kvm_watchpoint_idle_witness:
  "\<exists>m'. kvm_difftest_exec demo_kvm_host 0 1 (demo_kvm 0x7c02) = Inr m' \<and> rip (gregs m') = 0x9000 \<and>
     int_wp_state m' = STATE_IDLE"
proof -
  have l: "kvm_laws demo_kvm_host"
    by (auto simp: kvm_laws_def demo_kvm_host_def demo_kvm_run_def Let_def)
  have "(4 :: nat) = Suc (Suc (Suc (Suc 0)))" by simp
  then have w: "le_read (g_mem (guest (demo_kvm 0x7c02))) 0x8000 4 = (0x9000 :: 'n::len word)"
    by (simp only: le_read.simps) (simp add: demo_kvm_def push_bit_eq_mult)
  let ?m = "demo_kvm 0x7c02"
  have f: "rip (g_regs (guest ?m)) = 0x7c02" "rsp (g_regs (guest ?m)) = 0x8000" "g_mem (guest ?m) 0x7c02 = 0xcf"
      "sr_cr0 (g_sregs (guest ?m)) AND CR0_PG = 0" "int_wp_state ?m = STATE_IDLE"
    by (simp_all add: demo_kvm_def demo_sregs_def setup_protected_mode_def Let_def CR0_PE_def CR0_PG_def)
  have h: "hv_set_debug demo_kvm_host w a k = (0, k)" "hv_run demo_kvm_host = demo_kvm_run" for w a k
    by (simp_all add: demo_kvm_host_def Let_def)
  have "\<exists>m'. kvm_exec demo_kvm_host 0 1 ?m = Inr m' \<and> rip (gregs m') = 0x9000"
    by (subst kvm_exec.simps, simp add: patching_def va2pa_def f mem8_def mem32_def MSIZE_eq w gregs_def
        kvm_set_step_mode_def kernel_do_def kernel_call_def h upd_guest_def demo_kvm_run_def Let_def patching_after_def
        after_step_def)
  then obtain m' where m': "kvm_difftest_exec demo_kvm_host 0 1 ?m = Inr m'" "rip (gregs m') = 0x9000"
    by (auto simp: kvm_difftest_exec_def)
  with kvm_watchpoint_idle [OF l, of 0 ?m 1] f(5) show ?thesis by blast
qed

text \<open>
  A configuration to be carried out: MODULES, a bool that is y, FOO, a tristate with a prompt if MODULES and the default y, for which
  the user has chosen m, and NAME, a string with a quote in it. \<open>fl\<close> are marks of FOO besides the setting of the user.
\<close>

definition demo_prop :: "prop_type \<Rightarrow> string option \<Rightarrow> kexpr option \<Rightarrow> kexpr option \<Rightarrow> property" where
  "demo_prop ty txt vis e = \<lparr>p_type = ty, p_text = txt, p_visible = vis, p_visible_tri = T_no, p_expr = e, p_menu = None\<rparr>"

definition demo_foo :: "u32 \<Rightarrow> symbol" where
  "demo_foo fl = (demo_symbol S_TRISTATE 6 ''FOO'' \<lparr>v_val = V_null, v_tri = T_mod\<rparr> (fl OR SYMBOL_DEF_USER))
     \<lparr>s_visible := T_yes, s_prop := [demo_prop P_PROMPT (Some ''Foo'') (Some (X_sym (Sym 0))) None,
        demo_prop P_DEFAULT None None (Some (X_sym symbol_yes))]\<rparr>"

definition demo_kconf :: "u32 \<Rightarrow> kconf" where
  "demo_kconf fl = initial_table\<lparr>k_sym := (k_sym initial_table)
       (Sym 0 := demo_symbol S_BOOLEAN 5 ''MODULES'' \<lparr>v_val = V_null, v_tri = T_yes\<rparr> (SYMBOL_VALID OR SYMBOL_WRITE),
        Sym 1 := demo_foo fl,
        Sym 2 := demo_symbol S_STRING 7 ''NAME'' \<lparr>v_val = V_str 8 [CHR ''a'', CHR 0x22, CHR ''b''], v_tri = T_no\<rparr> (SYMBOL_VALID OR SYMBOL_WRITE)),
     k_hash := [Sym 1, Sym 0, Sym 2], k_modules_sym := Sym 0, k_modules_val := T_yes, k_changes := 1\<rparr>"

lemmas demo_kconf_simps = demo_kconf_def initial_table_def demo_foo_def demo_symbol_def demo_prop_def

lemma demo_initial: "s_flags (initial_symbol s) AND SYMBOL_VALID \<noteq> 0" "s_flags (initial_symbol s) AND SYMBOL_NEED_SET_CHOICE_VALUES = 0"
  "\<exists>i t. v_val (s_curr (initial_symbol s)) = V_str i t"
  by (cases s; simp add: initial_symbol_def demo_symbol_def symbol_flags)+

lemma demo_consistent: "consistent (demo_kconf fl)"
  unfolding consistent_def constant_in_def
  by (auto simp: demo_kconf_simps tri_of_def sym_get_tristate_value_def initial_types text_of_def)
    (auto simp: initial_symbol_def demo_symbol_def)

lemma demo_calculated: "s \<noteq> Sym 1 \<or> fl = SYMBOL_VALID \<or> fl = SYMBOL_VALID OR SYMBOL_WRITE \<Longrightarrow> calculated (demo_kconf fl) s"
  using demo_initial(1,3) [of s]
  by (auto simp: calculated_def flag_on_def demo_kconf_simps) (auto simp: symbol_flags)

lemma demo_foo_ready: "fl = 0 \<or> fl = SYMBOL_VALID \<Longrightarrow> prepared (demo_kconf fl) (Sym 1)"
  unfolding prepared_def
  by (auto simp: demo_calculated) (auto simp: demo_kconf_simps reads_def sym_is_choice_def sym_is_choice_value_def flag_on_def symbol_flags
      split: option.splits)

text \<open>
  C35: simplifying a condition of the configuration language keeps its value. \<^verbatim>\<open>expr_transform\<close> followed by \<^verbatim>\<open>expr_eliminate_dups\<close>, as
  the menus are finalised, ends for every plain condition, with an expression in which a further pass finds nothing to join; and in
  every table of calculated values \<^verbatim>\<open>expr_calc_value\<close> gives the same for both, without changing the table.
\<close>

theorem kconfig_simplification:
  assumes "consistent K" and "\<forall>s. calculated K s" and "plain_expr (sorts_of K) e"
  shows "\<exists>e' v. expr_eliminate_dups (sorts_of K) (Some (expr_transform (sorts_of K) e)) = Some (Some e') \<and>
    dups_pass (sorts_of K) e' = Some (e', 0) \<and>
    expr_calc_value (sym_calc_value (Suc n)) (Some e) K = Inr (v, K) \<and> expr_calc_value (sym_calc_value (Suc n)) (Some e') K = Inr (v, K)"
proof -
  obtain T where T: "K = Rep_table T" by (rule table_cases [OF assms(1)])
  obtain e' where e': "dups_loop (sorts_of K) (expr_transform (sorts_of K) e) = Some e'" "dups_pass (sorts_of K) e' = Some (e', 0)"
      "table_values.same T (expr_transform (sorts_of K) e) e'"
    using table_values.dups_loop_sound [of T "expr_transform (sorts_of K) e"] T by auto
  have "table_values.same T e (expr_transform (sorts_of K) e)"
    unfolding T by (rule table_values.transform_same) (rule refl)
  then have "table_values.same T e e'" using e'(3) by (rule table_values.same_trans)
  then have v: "expr_value (tri_of K) (cmp_of K) e' = expr_value (tri_of K) (cmp_of K) e"
    using assms(3) by (simp add: table_values.same_def T)
  show ?thesis
    using e'(1,2) expr_value_read [of K e n] expr_value_read [of K e' n] v assms(2) by (simp add: expr_eliminate_dups_def)
qed

theorem kconfig_simplification_witness:
  "\<exists>e' v. expr_eliminate_dups (sorts_of (demo_kconf SYMBOL_VALID)) (Some (expr_transform (sorts_of (demo_kconf SYMBOL_VALID))
        (X_and (X_not (X_cmp E_EQUAL (Sym 1) symbol_mod)) (X_or (X_cmp E_UNEQUAL (Sym 1) symbol_no) (X_sym (Sym 0)))))) = Some (Some e') \<and>
    dups_pass (sorts_of (demo_kconf SYMBOL_VALID)) e' = Some (e', 0) \<and>
    expr_calc_value (sym_calc_value (Suc 0)) (Some
        (X_and (X_not (X_cmp E_EQUAL (Sym 1) symbol_mod)) (X_or (X_cmp E_UNEQUAL (Sym 1) symbol_no) (X_sym (Sym 0))))) (demo_kconf SYMBOL_VALID) =
      Inr (v, demo_kconf SYMBOL_VALID) \<and>
    expr_calc_value (sym_calc_value (Suc 0)) (Some e') (demo_kconf SYMBOL_VALID) = Inr (v, demo_kconf SYMBOL_VALID)"
  by (rule kconfig_simplification [OF demo_consistent])
    (auto simp: demo_calculated, auto simp: sorts_of_def three_valued_def demo_kconf_simps)



text \<open>
  C40: which values the user can set. For a bool or tristate symbol outside choices that can be changed, is not the one of \<^verbatim>\<open>modules\<close>, is not
  read by its own conditions and whose marks are up to date, with every other symbol calculated, \<^verbatim>\<open>sym_set_tristate_value\<close> refuses a
  value exactly when it is a new one that the symbol would not take: one the prompts do not allow, one below what selects the
  symbol, or m where there is no m.
\<close>

theorem settable_values:
  assumes "prepared K s" and "s_visible (k_sym K s) = prompts_spec K s" and "s_dep_tri (k_sym K s) D_rev = dep_spec K s D_rev"
    and "sym_is_changeable s K"
  shows "(\<exists>K'. sym_set_tristate_value calc s v K = Inr (False, K')) \<longleftrightarrow>
    v \<noteq> sym_get_tristate_value s K \<and> symbol_spec (with_user s v K) s \<noteq> v"
proof -
  have "sym_tristate_within_range s v K \<longleftrightarrow> symbol_spec (with_user s v K) s = v"
    using range_decides [OF assms(1-3)] assms by (simp add: sym_is_changeable_def)
  then show ?thesis
    by (auto simp: sym_set_tristate_value_def Let_def bindE_eq_Inr_iff)
qed

theorem settable_values_witness:
  "\<forall>v. (\<exists>K'. sym_set_tristate_value (sym_calc_value 9) (Sym 1) v (demo_kconf SYMBOL_VALID) = Inr (False, K')) \<longleftrightarrow>
    v \<noteq> sym_get_tristate_value (Sym 1) (demo_kconf SYMBOL_VALID) \<and>
    symbol_spec (with_user (Sym 1) v (demo_kconf SYMBOL_VALID)) (Sym 1) \<noteq> v"
proof
  let ?K = "demo_kconf SYMBOL_VALID"
  have r: "s_prop (k_sym ?K (Sym 1)) = [demo_prop P_PROMPT (Some ''Foo'') (Some (X_sym (Sym 0))) None,
        demo_prop P_DEFAULT None None (Some (X_sym symbol_yes))]" "s_dep (k_sym ?K (Sym 1)) = (\<lambda>_. None)"
      "\<not> without_m ?K (Sym 1)" "s_visible (k_sym ?K (Sym 1)) = T_yes" "s_dep_tri (k_sym ?K (Sym 1)) D_rev = T_no"
      "cond_value ?K (Some (X_sym (Sym 0))) = T_yes"
    by (simp_all add: cond_value_def tri_of_def sym_get_tristate_value_def without_m_def demo_kconf_simps)
  have q: "prompts_spec ?K (Sym 1) = T_yes" "dep_spec ?K (Sym 1) D_rev = T_no"
    unfolding prompts_spec_def dep_spec_def r(1,2) no_m_def by (simp_all add: demo_prop_def r(6) max_def tri_order)
  show "(\<exists>K'. sym_set_tristate_value (sym_calc_value 9) (Sym 1) v ?K = Inr (False, K')) \<longleftrightarrow>
      v \<noteq> sym_get_tristate_value (Sym 1) ?K \<and> symbol_spec (with_user (Sym 1) v ?K) (Sym 1) \<noteq> v" for v
    by (rule settable_values [OF demo_foo_ready]) (simp_all only: r q sym_is_changeable_def, simp_all add: tri_order)
qed

text \<open>
  C37: the configuration file. In a configuration that was changed and whose symbols are all calculated, the text that \<^verbatim>\<open>conf_write\<close> writes for a tree of menus, with
  the heading, the titles and the ends of the menus,
  is read by \<^verbatim>\<open>conf_read_simple\<close> without a warning, and sets every symbol of the menus that is to be written to the value it had: y, m, or
  not set for a bool or tristate, also for the values of choices, the number as it was, and a string with its quotes and backslashes. The symbols may appear in several
  menus; the titles have no newline and do not begin like the name of a symbol. The symbols are found in the table by their
  names, which have no blank, equals sign or newline; strings have no newline, numbers are valid ones; the values of a choice are bool or tristate, the choice is
  in the table, and where one of them is y the others are n. The file can be written and does not have that text already.
\<close>

theorem configuration_round_trip:
  assumes "consistent K" and "\<forall>t. calculated K t" and "conf_get_changed K" and "\<forall>t. \<not> flag_on t SYMBOL_WRITTEN K"
    and "prefix_ok pre" and "menu_ok pre K (Text_menu (Some (title, d)) v ms)" and "files_ok F" and "name \<noteq> []"
    and "choices_settled K"
  shows "\<exists>text K' R. conf_write (sym_calc_value (Suc n)) pre F (Text_menu (Some (title, d)) v ms) name K = Inr ((0, File_is text), K') \<and>
    conf_read_simple pre text K = Inr R \<and> r_warnings R = 0 \<and>
    (\<forall>s \<in> menu_symbols K (Text_menu (Some (title, d)) v ms). user_is K s (r_table R))"
proof -
  obtain its K1 where w: "write_config (sym_calc_value (Suc n)) pre (Text_menu (Some (title, d)) v ms) K = Inr (concat (map (item_text pre K) its), K1)"
      "distinct (written its)" "\<forall>it \<in> set its. item_ok pre K it" "menu_symbols K (Text_menu (Some (title, d)) v ms) \<subseteq> set (written its)"
    by (rule config_written [OF assms(2,5,6,4,3)])
  have "names_kept K K" by (simp add: names_kept_def)
  from read_written [OF assms(1,5) w(2,3) this assms(9)] config_file [OF assms(7,8) w(1)] w(4) show ?thesis by blast
qed

lemma demo_find:
  assumes "fl = SYMBOL_VALID OR SYMBOL_WRITE"
  shows "sym_find ''FOO'' (demo_kconf fl) = Some (Sym 1)" "sym_find ''NAME'' (demo_kconf fl) = Some (Sym 2)"
  by (subst sym_find_list, simp add: constant_named_def,
      simp add: assms sym_name_def flag_on_def demo_kconf_simps symbol_flags)+

text \<open>A tree of menus with FOO in a menu of its own and once more behind it, and NAME.\<close>

definition demo_menus :: "menu list" where
  "demo_menus = [Text_menu (Some (''Drivers'', None)) None [Sym_menu (Sym 1) (Some 0) None []],
     Sym_menu (Sym 2) None None [], Sym_menu (Sym 1) (Some 0) None []]"

definition demo_files :: conf_files where
  "demo_files = \<lparr>f_is_dir = False, f_no_parent = False, f_overwrite = False, f_no_open = False, f_same = (\<lambda>t. False), f_no_rename = False\<rparr>"

theorem configuration_round_trip_witness:
  "\<exists>text K' R. conf_write (sym_calc_value 1) ''CONFIG_'' demo_files (Text_menu (Some (''Main menu'', None)) None demo_menus) ''.config'' (demo_kconf (SYMBOL_VALID OR SYMBOL_WRITE)) =
      Inr ((0, File_is text), K') \<and>
    conf_read_simple ''CONFIG_'' text (demo_kconf (SYMBOL_VALID OR SYMBOL_WRITE)) = Inr R \<and> r_warnings R = 0 \<and>
    user_is (demo_kconf (SYMBOL_VALID OR SYMBOL_WRITE)) (Sym 1) (r_table R) \<and> user_is (demo_kconf (SYMBOL_VALID OR SYMBOL_WRITE)) (Sym 2) (r_table R)"
proof -
  let ?K = "demo_kconf (SYMBOL_VALID OR SYMBOL_WRITE)"
  have n: "sym_name (Sym 1) ?K = Some ''FOO''" "sym_name (Sym 2) ?K = Some ''NAME''" "Sym 1 \<in> set (k_hash ?K)" "Sym 2 \<in> set (k_hash ?K)"
    by (simp_all add: sym_name_def demo_kconf_simps)
  have f: "flag_on s SYMBOL_WRITE ?K" "\<not> sym_is_choice s ?K" "\<not> sym_is_choice_value s ?K" if "s \<in> set [Sym 1, Sym 2]" for s
    using that by (auto simp: flag_on_def sym_is_choice_def sym_is_choice_value_def demo_kconf_simps symbol_flags)
  have t: "s_type (k_sym ?K (Sym 1)) = S_TRISTATE" "s_type (k_sym ?K (Sym 2)) = S_STRING" "text_of ?K (Sym 2) = [CHR ''a'', CHR 0x22, CHR ''b'']"
    by (simp_all add: text_of_def demo_kconf_simps)
  have w: "writable ?K (Sym 1)" "writable ?K (Sym 2)"
    unfolding writable_def n t using n(3,4) demo_find [OF refl] f(2,3) by simp_all
  have nw: "\<not> flag_on u SYMBOL_WRITTEN ?K" for u
    by (cases u) (auto simp: flag_on_def demo_kconf_simps initial_symbol_def symbol_flags SYMBOL_WRITTEN_def)
  let ?root = "Text_menu (Some (''Main menu'', None)) None demo_menus"
  have s: "menu_symbols ?K ?root = {Sym 1, Sym 2}" using f(1,2) by (auto simp: demo_menus_def)
  have h: "conf_get_changed ?K" "prefix_ok ''CONFIG_''" "files_ok demo_files"
    by (simp_all add: conf_get_changed_def demo_kconf_def prefix_ok_def files_ok_def demo_files_def)
  have c: "\<forall>u. calculated ?K u" "\<forall>u. \<not> flag_on u SYMBOL_WRITTEN ?K" by (simp_all add: demo_calculated nw)
  have nc: "\<not> sym_is_choice_value u ?K" for u
    by (cases u) (auto simp: sym_is_choice_value_def flag_on_def demo_kconf_simps initial_symbol_def symbol_flags)
  have settled: "choices_settled ?K" by (simp add: choices_settled_def choice_of_def nc)
  have ok: "menu_ok ''CONFIG_'' ?K ?root" using w by (simp add: demo_menus_def title_ok_def)
  have "\<exists>text K' R. conf_write (sym_calc_value (Suc 0)) ''CONFIG_'' demo_files ?root ''.config'' ?K = Inr ((0, File_is text), K') \<and>
      conf_read_simple ''CONFIG_'' text ?K = Inr R \<and> r_warnings R = 0 \<and> (\<forall>s \<in> menu_symbols ?K ?root. user_is ?K s (r_table R))"
    by (rule configuration_round_trip [OF demo_consistent c(1) h(1) c(2) h(2) ok h(3)]) (simp_all add: settled)
  then show ?thesis unfolding s by simp
qed

text \<open>
  C39: the calculation of a value ends, also where symbols depend on each other in a circle or a choice asks for the values of
  its symbols to be set. With a fuel above three times the number of symbols that may be uncalculated, \<^verbatim>\<open>sym_calc_value\<close> returns a table, or
  reads a null pointer; what is left to calculate has not grown for any symbol.
\<close>

theorem calculation_ends:
  assumes "finite A" and "\<forall>t. t \<notin> A \<longrightarrow> flag_on t SYMBOL_VALID K \<and> \<not> flag_on t SYMBOL_NEED_SET_CHOICE_VALUES K" and "3 * card A < n"
  shows "sym_calc_value n s K = null_deref \<or> (\<exists>K'. sym_calc_value n s K = Inr K' \<and> (\<forall>t. pending K' t \<le> pending K t))"
proof -
  have "\<forall>t. t \<notin> A \<longrightarrow> pending K t = 0" using assms(2) by (simp add: pending_def)
  with assms(1,3) have "budget n K" by (intro budget_finite)
  from calculation.calc_ends [OF this settles_refl] show ?thesis by (simp add: ends_def settles_def)
qed

theorem calculation_ends_witness:
  "sym_calc_value 4 (Sym 1) (demo_kconf 0) = null_deref \<or>
    (\<exists>K'. sym_calc_value 4 (Sym 1) (demo_kconf 0) = Inr K' \<and> (\<forall>t. pending K' t \<le> pending (demo_kconf 0) t))"
proof (rule calculation_ends [where A = "{Sym 1}"])
  show "\<forall>t. t \<notin> {Sym 1} \<longrightarrow> flag_on t SYMBOL_VALID (demo_kconf 0) \<and> \<not> flag_on t SYMBOL_NEED_SET_CHOICE_VALUES (demo_kconf 0)"
    using demo_initial(1,2) by (auto simp: flag_on_def demo_kconf_simps) (auto simp: symbol_flags)
qed simp_all

text \<open>
  C38: the search for circular dependencies is sound and ends. With a fuel above twice the number of symbols and one more, the check of all
  symbols returns, or reads a null pointer; when it counts no error, no symbol of the list depends on itself, nor does any that
  it depends on, directly or indirectly, through the dependencies, visibilities and defaults.
\<close>

theorem dependency_check_sound:
  assumes "before_check A K" and "2 * card A + 1 < n"
  shows "check_all n ss 0 K \<noteq> Inl (Assert_fail ''fuel'') \<and>
    (\<forall>K' t u. check_all n ss 0 K = Inr (0, K') \<longrightarrow> t \<in> set ss \<longrightarrow> (u, t) \<in> (dependency (tree K))\<^sup>* \<longrightarrow>
      (u, u) \<notin> (dependency (tree K))\<^sup>+)"
proof
  have "choices_ok (tree K)" using assms(1) by (simp add: before_check_def)
  then show "check_all n ss 0 K \<noteq> Inl (Assert_fail ''fuel'')"
    by (rule check_all_returns) (rule before_check_fits [OF assms])
qed (use no_circles [OF assms(1)] in blast)

text \<open>A table in which FOO depends on MODULES, before the check.\<close>

definition demo_deps :: kconf where
  "demo_deps = initial_table\<lparr>k_sym := (\<lambda>t. (initial_symbol t)\<lparr>s_flags := SYMBOL_CHECKED\<rparr>)
      (Sym 0 := demo_symbol S_BOOLEAN 5 ''MODULES'' \<lparr>v_val = V_null, v_tri = T_no\<rparr> 0, Sym 1 := (demo_foo 0)\<lparr>s_flags := 0\<rparr>),
    k_hash := [Sym 1, Sym 0], k_modules_sym := Sym 0\<rparr>"

theorem dependency_check_sound_witness:
  "(\<exists>K'. check_all 6 [Sym 1, Sym 0] 0 demo_deps = Inr (0, K')) \<and> (Sym 0, Sym 1) \<in> dependency (tree demo_deps) \<and>
    (Sym 1, Sym 1) \<notin> (dependency (tree demo_deps))\<^sup>+ \<and> (Sym 0, Sym 0) \<notin> (dependency (tree demo_deps))\<^sup>+ \<and>
    check_all 6 [Sym 1, Sym 0] 0 demo_deps \<noteq> Inl (Assert_fail ''fuel'')"
proof (intro conjI)
  have none: "s_prop (initial_symbol t) = []" "s_dep (initial_symbol t) = (\<lambda>_. None)" for t
    by (simp_all add: initial_symbol_def demo_symbol_def split: symref.split)
  have "\<not> is_choice (tree demo_deps t)" "\<not> is_choice_value (tree demo_deps t)" for t
    by (simp_all add: is_choice_def is_choice_value_def tree_def demo_deps_def initial_table_def demo_symbol_def symbol_flags choice_flags_def)
  then have c: "choices_ok (tree demo_deps)" "\<not> value_of (tree demo_deps) a b" for a b
    by (simp_all add: choices_ok_def value_of_def)
  have before: "before_check {Sym 0, Sym 1} demo_deps"
    unfolding before_check_def
    by (simp add: c) (auto simp: flag_on_def tree_def demo_deps_def initial_table_def demo_symbol_def demo_foo_def symbol_flags depends_on_def prop_deps_def
        opt_symbols_def none)
  show "(Sym 0, Sym 1) \<in> dependency (tree demo_deps)"
    by (auto simp: dependency_def depends_on_def prop_deps_def tree_def demo_deps_def demo_foo_def demo_prop_def skipped_prop_def opt_symbols_def)
  have six: "check_all 6 = check_all (Suc (Suc (Suc (Suc (Suc (Suc 0))))))" by (simp add: eval_nat_numeral)
  show ex: "\<exists>K'. check_all 6 [Sym 1, Sym 0] 0 demo_deps = Inr (0, K')"
    unfolding six
    by (simp add: demo_deps_def initial_table_def demo_foo_def demo_symbol_def demo_prop_def flag_on_def symbol_flags
        sym_is_choice_def sym_is_choice_value_def sym_check_sym_deps_def sym_check_expr_deps_def then_check_def skipped_prop_def
        set_flag_def clear_flag_def upd_sym_def)
  note sound = dependency_check_sound [OF before, of 6 "[Sym 1, Sym 0]"]
  then show "check_all 6 [Sym 1, Sym 0] 0 demo_deps \<noteq> Inl (Assert_fail ''fuel'')" by simp
  from ex obtain K' where K': "check_all 6 [Sym 1, Sym 0] 0 demo_deps = Inr (0, K')" ..
  have "(t, t) \<notin> (dependency (tree demo_deps))\<^sup>+" if "t \<in> set [Sym 1, Sym 0]" for t
    using sound K' that by (auto dest!: conjunct2)
  then show "(Sym 1, Sym 1) \<notin> (dependency (tree demo_deps))\<^sup>+" "(Sym 0, Sym 0) \<notin> (dependency (tree demo_deps))\<^sup>+" by simp_all
qed

end
